(* ===== verification/Go_Prelude.thy ===== *)
theory Go_Prelude
  imports Main "HOL-Library.Word"
begin

text \<open>
  The part of Go and of its standard library that the whole program uses, and the lemmas the
  components share: byte slices and sized integers, errors as values, the readers of
  \<open>bytes.Reader\<close> and \<open>io.ReadFull\<close>, \<open>binary.LittleEndian\<close>, \<open>fmt.Sprintf("%08b")\<close>,
  substrings and \<open>strconv.ParseUint\<close>. A reader is a function from the unread bytes to an error or
  a value with the bytes that stay unread. The locale \<open>field_codec\<close> is the contract between
  a field's reader and writer; it is interpreted on every field width the wire format has.
\<close>

unbundle bit_operations_syntax

section \<open>Types, errors and sequencing\<close>

type_synonym u8 = "8 word"
type_synonym u16 = "16 word"
type_synonym u32 = "32 word"
type_synonym i16 = "16 word"
type_synonym bytes = "u8 list"

named_theorems go_simps "evaluation of the Go primitives on constructor forms"
named_theorems go_inv "what a successful Go primitive says of its input"

text \<open>
  An \<open>error\<close> value. \<open>Errorf m\<close> is \<open>fmt.Errorf(m, ...)\<close>, with the message's format string and
  no rendered arguments; \<open>ErrNew m\<close> is a package-level \<open>errors.New(m)\<close>; \<open>Wrapf m e\<close> is
  \<open>fmt.Errorf("m: %w", e)\<close>, which keeps the wrapped error for \<open>errors.Is\<close>.
\<close>

datatype goerr =
    EOF
  | ErrUnexpectedEOF
  | ErrShortWrite
  | ErrSyntax
  | ErrRange
  | ErrNew string
  | Errorf string
  | Wrapf string goerr

type_synonym 'a result = "goerr + 'a"

fun errors_Is :: "goerr \<Rightarrow> goerr \<Rightarrow> bool" where
  "errors_Is (Wrapf m e) t = (Wrapf m e = t \<or> errors_Is e t)"
| "errors_Is e t = (e = t)"

text \<open>Statements in sequence: \<open>if err != nil \{ return err \}\<close> after each of them.\<close>

definition bindR :: "'a result \<Rightarrow> ('a \<Rightarrow> 'b result) \<Rightarrow> 'b result" where
  "bindR m f = (case m of Inl e \<Rightarrow> Inl e | Inr x \<Rightarrow> f x)"

definition wrapf :: "string \<Rightarrow> 'a result \<Rightarrow> 'a result" where
  "wrapf msg m = (case m of Inl e \<Rightarrow> Inl (Wrapf msg e) | Inr x \<Rightarrow> Inr x)"

lemma bindR_Inl [simp]: "bindR (Inl e) f = Inl e"
  by (simp add: bindR_def)

lemma bindR_Inr [simp]: "bindR (Inr x) f = f x"
  by (simp add: bindR_def)

lemma bindR_eq_Inr [simp]: "bindR m f = Inr y \<longleftrightarrow> (\<exists>x. m = Inr x \<and> f x = Inr y)"
  by (auto simp: bindR_def split: sum.splits)

text \<open>A guard that returns an error.\<close>

lemma guard_eq_Inr [simp]: "(if p then Inl e else m) = Inr x \<longleftrightarrow> \<not> p \<and> m = Inr x"
  by simp

lemma wrapf_Inl [simp]: "wrapf msg (Inl e) = Inl (Wrapf msg e)"
  by (simp add: wrapf_def)

lemma wrapf_Inr [simp]: "wrapf msg (Inr x) = Inr x"
  by (simp add: wrapf_def)

lemma wrapf_eq_Inr [simp]: "wrapf msg m = Inr x \<longleftrightarrow> m = Inr x"
  by (auto simp: wrapf_def split: sum.splits)

lemma bindR_cong [fundef_cong]:
  "m = n \<Longrightarrow> (\<And>x. n = Inr x \<Longrightarrow> f x = g x) \<Longrightarrow> bindR m f = bindR n g"
  by (auto simp: bindR_def split: sum.splits)

section \<open>Readers and little-endian integers\<close>

fun ReadByte :: "bytes \<Rightarrow> (u8 \<times> bytes) result" where
  "ReadByte [] = Inl EOF"
| "ReadByte (b # r) = Inr (b, r)"

text \<open>\<open>io.ReadFull\<close> into a buffer of \<open>n\<close> bytes.\<close>

definition ReadFull :: "nat \<Rightarrow> bytes \<Rightarrow> (bytes \<times> bytes) result" where
  "ReadFull n r =
     (if n \<le> length r then Inr (take n r, drop n r)
      else if r = [] then Inl EOF
      else Inl ErrUnexpectedEOF)"

text \<open>
  \<open>binary.LittleEndian\<close>. The getters index the first two or four bytes and panic on a shorter
  buffer; the code only calls them on buffers it made of that length, so no equation is given
  for shorter ones.
\<close>

fun LittleEndian_Uint16 :: "bytes \<Rightarrow> u16" where
  "LittleEndian_Uint16 (b0 # b1 # bs) = ucast b0 OR push_bit 8 (ucast b1)"

fun LittleEndian_Uint32 :: "bytes \<Rightarrow> u32" where
  "LittleEndian_Uint32 (b0 # b1 # b2 # b3 # bs) =
     ucast b0 OR push_bit 8 (ucast b1) OR push_bit 16 (ucast b2) OR push_bit 24 (ucast b3)"

definition PutUint16 :: "u16 \<Rightarrow> bytes" where
  "PutUint16 w = [ucast w, ucast (drop_bit 8 w)]"

definition PutUint32 :: "u32 \<Rightarrow> bytes" where
  "PutUint32 w = [ucast w, ucast (drop_bit 8 w), ucast (drop_bit 16 w), ucast (drop_bit 24 w)]"

text \<open>
  The idioms \<open>io.ReadFull(buffer, make([]byte, 2))\<close> then \<open>Uint16\<close>, the same for four bytes, and
  the three-byte field that is extended by a zero byte before \<open>Uint32\<close>.
\<close>

definition ReadUint16 :: "bytes \<Rightarrow> (u16 \<times> bytes) result" where
  "ReadUint16 r = bindR (ReadFull 2 r) (\<lambda>(xs, r). Inr (LittleEndian_Uint16 xs, r))"

definition ReadUint32 :: "bytes \<Rightarrow> (u32 \<times> bytes) result" where
  "ReadUint32 r = bindR (ReadFull 4 r) (\<lambda>(xs, r). Inr (LittleEndian_Uint32 xs, r))"

definition ReadUint24 :: "bytes \<Rightarrow> (u32 \<times> bytes) result" where
  "ReadUint24 r = bindR (ReadFull 3 r) (\<lambda>(xs, r). Inr (LittleEndian_Uint32 (xs @ [0]), r))"

definition PutUint24 :: "u32 \<Rightarrow> bytes" where
  "PutUint24 w = take 3 (PutUint32 w)"

lemma length_PutUint [simp]:
  "length (PutUint16 w) = 2" "length (PutUint32 v) = 4" "length (PutUint24 v) = 3"
  by (simp_all add: PutUint16_def PutUint32_def PutUint24_def)

lemma PutUint_not_Nil [simp]:
  "PutUint16 w \<noteq> []" "PutUint32 v \<noteq> []" "PutUint24 v \<noteq> []"
  by (simp_all add: PutUint16_def PutUint32_def PutUint24_def)

lemma ReadFull_append [go_simps]: "length xs = n \<Longrightarrow> ReadFull n (xs @ r) = Inr (xs, r)"
  by (auto simp: ReadFull_def)

lemma ReadFull_all [go_simps]: "length xs = n \<Longrightarrow> ReadFull n xs = Inr (xs, [])"
  by (simp add: ReadFull_def)

lemma ReadFull_Inr [go_inv]:
  "ReadFull n bs = Inr (xs, r) \<longleftrightarrow> bs = xs @ r \<and> length xs = n"
proof
  assume "ReadFull n bs = Inr (xs, r)"
  then have "n \<le> length bs" "xs = take n bs" "r = drop n bs"
    by (auto simp: ReadFull_def split: if_splits)
  then show "bs = xs @ r \<and> length xs = n" by simp
qed (auto simp: ReadFull_def)

lemma ReadByte_Inr [go_inv]: "ReadByte bs = Inr (b, r) \<longleftrightarrow> bs = b # r"
  by (cases bs) auto

lemma length_2D: "length xs = 2 \<Longrightarrow> \<exists>a b. xs = [a, b]"
  by (cases xs; cases "tl xs"; cases "tl (tl xs)") auto

lemma length_3D: "length xs = 3 \<Longrightarrow> \<exists>a b c. xs = [a, b, c]"
  by (cases xs; cases "tl xs"; cases "tl (tl xs)"; cases "tl (tl (tl xs))") auto

lemma length_4D: "length xs = 4 \<Longrightarrow> \<exists>a b c d. xs = [a, b, c, d]"
  by (cases xs; cases "tl xs"; cases "tl (tl xs)"; cases "tl (tl (tl xs))";
      cases "tl (tl (tl (tl xs)))") auto


text \<open>A bit test on a byte beyond its eight bits is false.\<close>

lemma bit_u8_ge [simp]: "8 \<le> n \<Longrightarrow> bit (b :: u8) n = False"
  using bit_imp_le_length [of b n] by auto

lemma LittleEndian_PutUint16 [simp]: "LittleEndian_Uint16 (PutUint16 w) = w"
  by (rule bit_word_eqI) (auto simp: PutUint16_def bit_simps)

lemma LittleEndian_PutUint32 [simp]: "LittleEndian_Uint32 (PutUint32 w) = w"
proof (rule bit_word_eqI)
  fix n
  assume "n < LENGTH(32)"
  then consider "n < 8" | "8 \<le> n" "n < 16" | "16 \<le> n" "n < 24" | "24 \<le> n" "n < 32"
    by force
  then show "bit (LittleEndian_Uint32 (PutUint32 w)) n = bit w n"
    by cases (auto simp: PutUint32_def bit_simps)
qed

lemma PutUint16_LittleEndian: "length xs = 2 \<Longrightarrow> PutUint16 (LittleEndian_Uint16 xs) = xs"
  by (drule length_2D) (auto simp: PutUint16_def bit_simps intro!: bit_word_eqI)

lemma PutUint32_LittleEndian: "length xs = 4 \<Longrightarrow> PutUint32 (LittleEndian_Uint32 xs) = xs"
  by (drule length_4D) (auto simp: PutUint32_def bit_simps intro!: bit_word_eqI)

lemma take_bit_24_eq: "take_bit 24 v = v \<longleftrightarrow> v < 2 ^ 24" for v :: u32
  by (simp add: word_uint_eq_iff word_less_def unsigned_take_bit_eq take_bit_int_eq_self_iff)

lemma LittleEndian_PutUint24: "v < 2 ^ 24 \<Longrightarrow> LittleEndian_Uint32 (PutUint24 v @ [0]) = v"
proof -
  assume "v < 2 ^ 24"
  then have "take_bit 24 v = v"
    by (simp only: take_bit_24_eq)
  moreover have "LittleEndian_Uint32 (PutUint24 v @ [0]) = take_bit 24 v"
  proof (rule bit_word_eqI)
    fix n
    assume "n < LENGTH(32)"
    then consider "n < 8" | "8 \<le> n" "n < 16" | "16 \<le> n" "n < 24" | "24 \<le> n" "n < 32"
      by force
    then show "bit (LittleEndian_Uint32 (PutUint24 v @ [0])) n = bit (take_bit 24 v) n"
      by cases (auto simp: PutUint24_def PutUint32_def bit_simps)
  qed
  ultimately show ?thesis by simp
qed

lemma PutUint24_LittleEndian:
  "length xs = 3 \<Longrightarrow> PutUint24 (LittleEndian_Uint32 (xs @ [0])) = xs"
  by (drule length_3D) (auto simp: PutUint24_def PutUint32_def bit_simps intro!: bit_word_eqI)

lemma LittleEndian_Uint24_less: "length xs = 3 \<Longrightarrow> LittleEndian_Uint32 (xs @ [0]) < 2 ^ 24"
proof -
  assume "length xs = 3"
  then have "take_bit 24 (LittleEndian_Uint32 (xs @ [0])) = LittleEndian_Uint32 (xs @ [0])"
    by (auto dest!: length_3D intro!: bit_word_eqI simp: bit_simps)
  then show ?thesis
    by (simp only: take_bit_24_eq)
qed

section \<open>Fields: the contract between a reader and a writer\<close>

text \<open>
  \<open>rd\<close> reads one field off the front of the unread bytes and \<open>wr\<close> is what the encoder writes
  for it. \<open>ok\<close> says which values the width can hold. The two laws make the field's encoding
  self-delimiting and unique.
\<close>

locale field_codec =
  fixes rd :: "bytes \<Rightarrow> ('a \<times> bytes) result"
    and wr :: "'a \<Rightarrow> bytes"
    and ok :: "'a \<Rightarrow> bool"
  assumes rd_wr: "ok x \<Longrightarrow> rd (wr x @ r) = Inr (x, r)"
    and rd_inv: "rd bs = Inr (x, r) \<Longrightarrow> ok x \<and> bs = wr x @ r"
begin

lemma rd_Inr_iff: "rd bs = Inr (x, r) \<longleftrightarrow> ok x \<and> bs = wr x @ r"
proof
  assume "rd bs = Inr (x, r)"
  then show "ok x \<and> bs = wr x @ r" by (rule rd_inv)
next
  assume "ok x \<and> bs = wr x @ r"
  then show "rd bs = Inr (x, r)" by (simp add: rd_wr)
qed

lemma rd_end: "ok x \<Longrightarrow> rd (wr x) = Inr (x, [])"
  using rd_wr [of x "[]"] by simp

lemma wr_prefix_free: "ok x \<Longrightarrow> ok y \<Longrightarrow> wr x @ r = wr y @ s \<Longrightarrow> x = y \<and> r = s"
  by (metis rd_wr Pair_inject sum.inject(2))

lemma wr_inj: "ok x \<Longrightarrow> ok y \<Longrightarrow> wr x = wr y \<Longrightarrow> x = y"
  using wr_prefix_free [of x y "[]" "[]"] by simp

end

interpretation u8_field: field_codec ReadByte "\<lambda>b. [b]" "\<lambda>_. True"
  by unfold_locales (auto simp: go_inv)

interpretation u16_field: field_codec ReadUint16 PutUint16 "\<lambda>_. True"
  by unfold_locales
    (auto simp: ReadUint16_def go_simps go_inv PutUint16_LittleEndian)

interpretation u32_field: field_codec ReadUint32 PutUint32 "\<lambda>_. True"
  by unfold_locales
    (auto simp: ReadUint32_def go_simps go_inv PutUint32_LittleEndian)

interpretation u24_field: field_codec ReadUint24 PutUint24 "\<lambda>v. v < 2 ^ 24"
  by unfold_locales
    (auto simp: ReadUint24_def go_simps go_inv PutUint24_LittleEndian LittleEndian_PutUint24
       LittleEndian_Uint24_less [simplified] simp del: One_nat_def)

interpretation block_field: field_codec "ReadFull n" "\<lambda>xs. xs" "\<lambda>xs. length xs = n"
  by unfold_locales (auto simp: go_simps go_inv)

lemmas field_rd [go_simps] =
  u16_field.rd_wr [OF TrueI] u32_field.rd_wr [OF TrueI] u24_field.rd_wr
  u16_field.rd_end [OF TrueI] u32_field.rd_end [OF TrueI] u24_field.rd_end

lemmas field_inv [go_inv] =
  u16_field.rd_Inr_iff u32_field.rd_Inr_iff u24_field.rd_Inr_iff

section \<open>Bits as strings\<close>

text \<open>
  The program keeps every flag as a string of the characters 0 and 1. \<open>bits08 b\<close> is
  \<open>fmt.Sprintf("%08b", b)\<close> and \<open>substr s i j\<close> is \<open>s[i:j]\<close>. Every slice in the code has constant
  bounds within the eight characters.
\<close>

definition bitc :: "bool \<Rightarrow> char" where
  "bitc p = (if p then CHR ''1'' else CHR ''0'')"

definition bits08 :: "u8 \<Rightarrow> string" where
  "bits08 b = map (\<lambda>i. bitc (bit b i)) [7, 6, 5, 4, 3, 2, 1, 0]"

definition substr :: "string \<Rightarrow> nat \<Rightarrow> nat \<Rightarrow> string" where
  "substr s i j = take (j - i) (drop i s)"

text \<open>One character of \<open>bits08\<close>, as the string the slices of length one give.\<close>

definition bitstr :: "u8 \<Rightarrow> nat \<Rightarrow> string" where
  "bitstr b i = [bitc (bit b i)]"

definition is_flag :: "string \<Rightarrow> bool" where
  "is_flag s \<longleftrightarrow> s = ''0'' \<or> s = ''1''"

lemma bitc_inject [simp]: "bitc p = bitc q \<longleftrightarrow> p = q"
  by (simp add: bitc_def)

lemma bitc_cases: "c = CHR ''0'' \<or> c = CHR ''1'' \<Longrightarrow> \<exists>p. c = bitc p"
  by (metis bitc_def)

lemma length_bits08 [simp]: "length (bits08 b) = 8"
  by (simp add: bits08_def)

lemma length_bitstr [simp]: "length (bitstr b i) = 1"
  by (simp add: bitstr_def)

lemma bitstr_is_flag [simp]: "is_flag (bitstr b i)"
  by (simp add: bitstr_def bitc_def is_flag_def)

lemma is_flag_01 [simp]: "is_flag ''0''" "is_flag ''1''"
  by (simp_all add: is_flag_def)

lemma set_bitstr [simp]: "set (bitstr b i) \<subseteq> {CHR ''0'', CHR ''1''}"
  by (simp add: bitstr_def bitc_def)

lemma bitstr_eq [simp]:
  "bitstr b i = ''1'' \<longleftrightarrow> bit b i" "bitstr b i = ''0'' \<longleftrightarrow> \<not> bit b i"
  by (simp_all add: bitstr_def bitc_def)

lemma bitstr_eq_sym [simp]:
  "''1'' = bitstr b i \<longleftrightarrow> bit b i" "''0'' = bitstr b i \<longleftrightarrow> \<not> bit b i"
  by (metis bitstr_eq)+

lemma bits08_bitstr:
  "bits08 b = bitstr b 7 @ bitstr b 6 @ bitstr b 5 @ bitstr b 4 @
     bitstr b 3 @ bitstr b 2 @ bitstr b 1 @ bitstr b 0"
  by (simp add: bits08_def bitstr_def)

lemma substr_bits08 [go_simps]:
  "substr (bits08 b) 7 8 = bitstr b 0"
  "substr (bits08 b) 6 7 = bitstr b 1"
  "substr (bits08 b) 5 6 = bitstr b 2"
  "substr (bits08 b) 4 5 = bitstr b 3"
  "substr (bits08 b) 3 4 = bitstr b 4"
  "substr (bits08 b) 2 3 = bitstr b 5"
  "substr (bits08 b) 1 2 = bitstr b 6"
  "substr (bits08 b) 0 1 = bitstr b 7"
  "substr (bits08 b) 0 2 = bitstr b 7 @ bitstr b 6"
  "substr (bits08 b) 3 5 = bitstr b 4 @ bitstr b 3"
  "substr (bits08 b) 2 4 = bitstr b 5 @ bitstr b 4"
  "substr (bits08 b) 6 8 = bitstr b 1 @ bitstr b 0"
  "substr (bits08 b) 5 8 = bitstr b 2 @ bitstr b 1 @ bitstr b 0"
  by (simp_all add: substr_def bits08_def bitstr_def numeral_nat)

text \<open>The simplifier writes the index one as \<open>Suc 0\<close>.\<close>

lemmas substr_bits08_Suc [go_simps] = substr_bits08 [unfolded One_nat_def]

section \<open>strconv.ParseUint\<close>

text \<open>
  \<open>strconv.ParseUint(s, base, bitSize)\<close> for a base of at most ten: the value and the error, which
  Go returns together (a syntax error comes with 0, a range error with the largest value). The
  loop tests for overflow at each digit, before it looks at the next.
\<close>

definition digit_val :: "char \<Rightarrow> nat option" where
  "digit_val c = (let k = of_char c :: nat in if 48 \<le> k \<and> k \<le> 57 then Some (k - 48) else None)"

fun ParseUint_loop :: "nat \<Rightarrow> nat \<Rightarrow> nat \<Rightarrow> string \<Rightarrow> nat \<times> goerr option" where
  "ParseUint_loop base maxv n [] = (n, None)"
| "ParseUint_loop base maxv n (c # cs) =
     (case digit_val c of
        None \<Rightarrow> (0, Some ErrSyntax)
      | Some d \<Rightarrow>
          if base \<le> d then (0, Some ErrSyntax)
          else if maxv < n * base + d then (maxv, Some ErrRange)
          else ParseUint_loop base maxv (n * base + d) cs)"

definition ParseUint :: "nat \<Rightarrow> nat \<Rightarrow> string \<Rightarrow> nat \<times> goerr option" where
  "ParseUint base bitSize s =
     (if s = [] then (0, Some ErrSyntax) else ParseUint_loop base (2 ^ bitSize - 1) 0 s)"

text \<open>
  The encoders' idiom: \<open>flags, err = strconv.ParseUint(s, 2, 8)\<close>, stop on the error, and use
  \<open>uint8(flags)\<close>.
\<close>

definition parse_flags :: "string \<Rightarrow> u8 result" where
  "parse_flags s =
     (case ParseUint 2 8 s of (v, None) \<Rightarrow> Inr (word_of_nat v) | (_, Some e) \<Rightarrow> Inl e)"

lemma digit_val_bitc [simp]: "digit_val (bitc p) = Some (of_bool p)"
  by (simp add: digit_val_def bitc_def)

lemma digit_chars: "char_of (48 :: nat) = CHR ''0''" "char_of (49 :: nat) = CHR ''1''"
  by (simp_all add: char_of_def bit_0)

lemma mult_pow_bound: "m * 2 ^ k \<le> (c :: nat) \<Longrightarrow> m \<le> c"
proof -
  assume "m * 2 ^ k \<le> c"
  moreover have "m * 1 \<le> m * 2 ^ k" by (rule mult_le_mono2) simp
  ultimately show "m \<le> c" by linarith
qed

lemma digit_val_bit: "digit_val c = Some d \<Longrightarrow> d < 2 \<Longrightarrow> \<exists>p. c = bitc p"
proof -
  assume d: "digit_val c = Some d" "d < 2"
  then have k: "of_char c = (48 :: nat) \<or> of_char c = (49 :: nat)"
    by (auto simp: digit_val_def Let_def split: if_splits)
  have "c = char_of (of_char c :: nat)" by simp
  then have "c = CHR ''0'' \<or> c = CHR ''1''"
    using k by (metis digit_chars)
  then show ?thesis by (rule bitc_cases)
qed

lemma ParseUint_loop_bits:
  "(n + 1) * 2 ^ length ps \<le> 256 \<Longrightarrow>
   ParseUint_loop 2 255 n (map bitc ps) =
     (n * 2 ^ length ps + horner_sum of_bool 2 (rev ps), None)"
proof (induction ps arbitrary: n)
  case Nil
  then show ?case by simp
next
  case (Cons p ps)
  have "(2 * n + of_bool p + 1) * 2 ^ length ps \<le> (n + 1) * 2 ^ length (p # ps)"
    by (cases p) (simp_all add: algebra_simps)
  with Cons.prems have step: "(2 * n + of_bool p + 1) * 2 ^ length ps \<le> 256"
    by linarith
  then have "2 * n + of_bool p + 1 \<le> 256" by (rule mult_pow_bound)
  then have "2 * n + of_bool p \<le> 255" by linarith
  with Cons.IH [OF step] show ?case
    by (simp add: horner_sum_append algebra_simps)
qed

lemma ParseUint_loop_bad:
  "(n + 1) * 2 ^ length s \<le> 256 \<Longrightarrow> \<nexists>ps. s = map bitc ps \<Longrightarrow>
   ParseUint_loop 2 255 n s = (0, Some ErrSyntax)"
proof (induction s arbitrary: n)
  case Nil
  then show ?case by simp
next
  case (Cons c cs)
  show ?case
  proof (cases "\<exists>p. c = bitc p")
    case True
    then obtain p where c: "c = bitc p" by blast
    with Cons.prems(2) have bad: "\<nexists>ps. cs = map bitc ps"
      by (metis list.simps(9))
    have "(2 * n + of_bool p + 1) * 2 ^ length cs \<le> (n + 1) * 2 ^ length (c # cs)"
      by (cases p) (simp_all add: algebra_simps)
    with Cons.prems have step: "(2 * n + of_bool p + 1) * 2 ^ length cs \<le> 256"
      by linarith
    then have "2 * n + of_bool p + 1 \<le> 256" by (rule mult_pow_bound)
    then have "2 * n + of_bool p \<le> 255" by linarith
    with Cons.IH [OF step bad] c show ?thesis by (simp add: algebra_simps)
  next
    case False
    then have "digit_val c = Some d \<Longrightarrow> 2 \<le> d" for d
      using digit_val_bit [of c d] by force
    then show ?thesis by (auto split: option.splits)
  qed
qed

lemma word_of_nat_horner [simp]:
  "word_of_nat (horner_sum of_bool 2 ps) = (horner_sum of_bool 2 ps :: 'a::len word)"
  by (induction ps) auto

lemma horner_bits08: "(horner_sum of_bool 2 (map (bit b) [0, 1, 2, 3, 4, 5, 6, 7]) :: u8) = b"
proof -
  have "[0, 1, 2, 3, 4, 5, 6, 7] = [0..<8]" by (simp add: upt_rec)
  then have "(horner_sum of_bool 2 (map (bit b) [0, 1, 2, 3, 4, 5, 6, 7]) :: u8) = take_bit 8 b"
    by (simp only: horner_sum_bit_eq_take_bit)
  also have "take_bit 8 b = b" by (rule take_bit_word_eq_self) simp
  finally show ?thesis .
qed

text \<open>
  On strings of eight characters \<open>parse_flags\<close> inverts \<open>bits08\<close>, and it refuses everything
  else.
\<close>

lemma parse_flags_bits08 [go_simps]: "parse_flags (bits08 b) = Inr b"
proof -
  let ?ps = "map (bit b) [7, 6, 5, 4, 3, 2, 1, 0]"
  have "bits08 b = map bitc ?ps" by (simp add: bits08_def)
  moreover have "ParseUint_loop 2 255 0 (map bitc ?ps) = (horner_sum of_bool 2 (rev ?ps), None)"
    using ParseUint_loop_bits [of 0 ?ps] by simp
  ultimately have "parse_flags (bits08 b) = Inr (word_of_nat (horner_sum of_bool 2 (rev ?ps)))"
    by (simp add: parse_flags_def ParseUint_def)
  also have "rev ?ps = map (bit b) [0, 1, 2, 3, 4, 5, 6, 7]" by simp
  finally show ?thesis by (simp only: word_of_nat_horner horner_bits08)
qed

lemma bits08_inject [simp]: "bits08 a = bits08 b \<longleftrightarrow> a = b"
  by (metis parse_flags_bits08 sum.inject(2))

lemma bits08_surj:
  assumes "length ps = 8"
  shows "\<exists>b. map bitc ps = bits08 b"
proof -
  define b :: u8 where "b = horner_sum of_bool 2 (rev ps)"
  have "bit b i = rev ps ! i" if "i < 8" for i
    using that assms by (simp add: b_def bit_horner_sum_bit_word_iff)
  then have "bits08 b = map bitc (map (\<lambda>i. rev ps ! i) [7, 6, 5, 4, 3, 2, 1, 0])"
    by (simp add: bits08_def)
  also have "map (\<lambda>i. rev ps ! i) [7, 6, 5, 4, 3, 2, 1, 0] = ps"
  proof (rule nth_equalityI)
    fix i
    assume "i < length (map (\<lambda>i. rev ps ! i) [7, 6, 5, 4, 3, 2, 1, 0])"
    then have "i \<in> set [0, 1, 2, 3, 4, 5, 6, 7]" by force
    then show "map (\<lambda>i. rev ps ! i) [7, 6, 5, 4, 3, 2, 1, 0] ! i = ps ! i"
      using assms by (auto simp: rev_nth numeral_nat)
  qed (simp add: assms)
  finally show ?thesis by metis
qed

lemma parse_flags_Inr:
  assumes "length s = 8"
  shows "parse_flags s = Inr b \<longleftrightarrow> s = bits08 b"
proof
  assume *: "parse_flags s = Inr b"
  have "\<exists>ps. s = map bitc ps"
  proof (rule ccontr)
    assume "\<not> (\<exists>ps. s = map bitc ps)"
    then have "ParseUint_loop 2 255 0 s = (0, Some ErrSyntax)"
      using assms by (intro ParseUint_loop_bad) simp_all
    moreover have "s \<noteq> []" using assms by auto
    ultimately have "ParseUint 2 8 s = (0, Some ErrSyntax)" by (simp add: ParseUint_def)
    with * show False by (simp add: parse_flags_def)
  qed
  then obtain ps where "s = map bitc ps" by blast
  with assms obtain b' where "s = bits08 b'" using bits08_surj [of ps] by auto
  with * show "s = bits08 b" by (simp add: parse_flags_bits08)
qed (simp add: parse_flags_bits08)

lemma flags_cases:
  assumes "length s = 8" and "set s \<subseteq> {CHR ''0'', CHR ''1''}"
  obtains b where "s = bits08 b"
proof -
  have "\<exists>ps. s = map bitc ps"
    using assms(2)
  proof (induction s)
    case (Cons c cs)
    then show ?case using bitc_cases [of c] by (metis insert_iff empty_iff list.simps(9)
        list.set_intros(1) subset_iff insert_subset list.simps(15))
  qed simp
  then obtain ps where "s = map bitc ps" by blast
  moreover from this assms(1) obtain b where "map bitc ps = bits08 b"
    using bits08_surj [of ps] by auto
  ultimately show thesis by (intro that) simp
qed

lemma is_flag_set: "is_flag s \<Longrightarrow> set s \<subseteq> {CHR ''0'', CHR ''1''}"
  by (auto simp: is_flag_def)

lemma is_flag_length: "is_flag s \<Longrightarrow> length s = 1"
  by (auto simp: is_flag_def)

section \<open>Optional fields\<close>

text \<open>
  \<open>if flag == "1" \{ read the field \}\<close> on the way in, where an absent field keeps its zero value,
  and \<open>if flag == "1" \{ write the field \}\<close> on the way out.
\<close>

definition when_flag :: "string \<Rightarrow> (bytes \<Rightarrow> ('a \<times> bytes) result) \<Rightarrow> 'a \<Rightarrow> bytes \<Rightarrow> ('a \<times> bytes) result" where
  "when_flag f rd d r = (if f = ''1'' then rd r else Inr (d, r))"

definition flag_bytes :: "string \<Rightarrow> bytes \<Rightarrow> bytes" where
  "flag_bytes f xs = (if f = ''1'' then xs else [])"

context field_codec
begin

lemma when_rd_wr:
  "(f = ''1'' \<longrightarrow> ok x) \<Longrightarrow> (f \<noteq> ''1'' \<longrightarrow> x = d) \<Longrightarrow>
   when_flag f rd d (flag_bytes f (wr x) @ r) = Inr (x, r)"
  by (simp add: when_flag_def flag_bytes_def rd_wr)

lemma when_rd_end:
  "(f = ''1'' \<longrightarrow> ok x) \<Longrightarrow> (f \<noteq> ''1'' \<longrightarrow> x = d) \<Longrightarrow>
   when_flag f rd d (flag_bytes f (wr x)) = Inr (x, [])"
  by (simp add: when_flag_def flag_bytes_def rd_end)

lemma when_rd_Inr_iff:
  "when_flag f rd d bs = Inr (x, r) \<longleftrightarrow>
   (f = ''1'' \<longrightarrow> ok x) \<and> (f \<noteq> ''1'' \<longrightarrow> x = d) \<and> bs = flag_bytes f (wr x) @ r"
  by (auto simp: when_flag_def flag_bytes_def rd_Inr_iff)

end

lemmas when_rd [go_simps] =
  u8_field.when_rd_wr u16_field.when_rd_wr u32_field.when_rd_wr u24_field.when_rd_wr
  block_field.when_rd_wr
  u8_field.when_rd_end u16_field.when_rd_end u32_field.when_rd_end u24_field.when_rd_end
  block_field.when_rd_end

lemmas when_inv [go_inv] =
  u8_field.when_rd_Inr_iff u16_field.when_rd_Inr_iff u32_field.when_rd_Inr_iff
  u24_field.when_rd_Inr_iff block_field.when_rd_Inr_iff

section \<open>Strings of bytes\<close>

text \<open>\<open>string(b)\<close> and \<open>[]byte(s)\<close>: a Go string is its bytes.\<close>

definition byte_of_char :: "char \<Rightarrow> u8" where
  "byte_of_char c = word_of_nat (of_char c)"

definition char_of_byte :: "u8 \<Rightarrow> char" where
  "char_of_byte b = char_of (unat b)"

definition string_of_bytes :: "bytes \<Rightarrow> string" where
  "string_of_bytes bs = map char_of_byte bs"

definition bytes_of_string :: "string \<Rightarrow> bytes" where
  "bytes_of_string s = map byte_of_char s"

lemma char_of_byte_of_char [simp]: "char_of_byte (byte_of_char c) = c"
  by (simp add: char_of_byte_def byte_of_char_def unat_of_nat)

lemma byte_of_char_of_byte [simp]: "byte_of_char (char_of_byte b) = b"
proof -
  have "unat b < 256" using unsigned_less [of b] by simp
  then show ?thesis by (simp add: char_of_byte_def byte_of_char_def)
qed

lemma string_of_bytes_of_string [simp]: "string_of_bytes (bytes_of_string s) = s"
  by (simp add: string_of_bytes_def bytes_of_string_def comp_def)

lemma bytes_of_string_of_bytes [simp]: "bytes_of_string (string_of_bytes bs) = bs"
  by (simp add: string_of_bytes_def bytes_of_string_def comp_def)

lemma length_string_of_bytes [simp]: "length (string_of_bytes bs) = length bs"
  by (simp add: string_of_bytes_def)

lemma length_bytes_of_string [simp]: "length (bytes_of_string s) = length s"
  by (simp add: bytes_of_string_def)

definition ReadString :: "nat \<Rightarrow> bytes \<Rightarrow> (string \<times> bytes) result" where
  "ReadString n r = bindR (ReadFull n r) (\<lambda>(xs, r). Inr (string_of_bytes xs, r))"

interpretation string_field: field_codec "ReadString n" bytes_of_string "\<lambda>s. length s = n"
  by unfold_locales (auto simp: ReadString_def go_simps go_inv)

lemmas string_rd [go_simps] = string_field.rd_wr string_field.rd_end
  string_field.when_rd_wr string_field.when_rd_end

lemmas string_inv [go_inv] = string_field.rd_Inr_iff string_field.when_rd_Inr_iff

section \<open>Flag bytes\<close>

lemma bitstr_flags:
  assumes "f7 @ f6 @ f5 @ f4 @ f3 @ f2 @ f1 @ f0 = bits08 w"
    and "length f7 = 1" "length f6 = 1" "length f5 = 1" "length f4 = 1"
    and "length f3 = 1" "length f2 = 1" "length f1 = 1" "length f0 = 1"
  shows "f7 = bitstr w 7" "f6 = bitstr w 6" "f5 = bitstr w 5" "f4 = bitstr w 4"
    "f3 = bitstr w 3" "f2 = bitstr w 2" "f1 = bitstr w 1" "f0 = bitstr w 0"
  using assms by (auto simp: bits08_bitstr length_Suc_conv bitstr_def)

text \<open>Any eight flags are the bits of one byte.\<close>

lemma flags8:
  assumes "is_flag f7" "is_flag f6" "is_flag f5" "is_flag f4"
    and "is_flag f3" "is_flag f2" "is_flag f1" "is_flag f0"
  obtains w where "f7 = bitstr w 7" "f6 = bitstr w 6" "f5 = bitstr w 5" "f4 = bitstr w 4"
    "f3 = bitstr w 3" "f2 = bitstr w 2" "f1 = bitstr w 1" "f0 = bitstr w 0"
proof -
  have "length (f7 @ f6 @ f5 @ f4 @ f3 @ f2 @ f1 @ f0) = 8"
    using assms by (simp add: is_flag_length)
  moreover have "set (f7 @ f6 @ f5 @ f4 @ f3 @ f2 @ f1 @ f0) \<subseteq> {CHR ''0'', CHR ''1''}"
    using assms by (auto dest!: is_flag_set)
  ultimately obtain w where w: "f7 @ f6 @ f5 @ f4 @ f3 @ f2 @ f1 @ f0 = bits08 w"
    by (rule flags_cases)
  show thesis
    by (rule that) (use bitstr_flags [OF w] assms in \<open>simp_all add: is_flag_length\<close>)
qed

lemma parse_flags_bitstr [go_simps]:
  "parse_flags (bitstr b 7 @ bitstr b 6 @ bitstr b 5 @ bitstr b 4 @
     bitstr b 3 @ bitstr b 2 @ bitstr b 1 @ bitstr b 0) = Inr b"
  using parse_flags_bits08 [of b] by (simp only: bits08_bitstr)

lemmas parse_flags_bitstr_Suc [go_simps] = parse_flags_bitstr [unfolded One_nat_def]

lemma ParseUint_bitstr:
  "word_of_nat (fst (ParseUint 2 8 (bitstr b 7 @ bitstr b 6 @ bitstr b 5 @ bitstr b 4 @
     bitstr b 3 @ bitstr b 2 @ bitstr b 1 @ bitstr b 0))) = b"
  using parse_flags_bitstr [of b]
  by (auto simp: parse_flags_def split: prod.splits option.splits)

lemmas ParseUint_bitstr_Suc [go_simps] = ParseUint_bitstr [unfolded One_nat_def]

text \<open>\<open>strings.ContainsRune(s, 0)\<close>.\<close>

definition contains_null :: "string \<Rightarrow> bool" where
  "contains_null s \<longleftrightarrow> CHR 0x00 \<in> set s"

text \<open>\<open>Len\<close>: the length of the encoding, and 0 where \<open>Encode\<close> fails.\<close>

definition Len_of :: "bytes result \<Rightarrow> u16" where
  "Len_of enc = (case enc of Inl _ \<Rightarrow> 0 | Inr bs \<Rightarrow> word_of_nat (length bs))"

lemma Len_of_simps [simp]: "Len_of (Inl e) = 0" "Len_of (Inr bs) = word_of_nat (length bs)"
  by (simp_all add: Len_of_def)

end
