(* ===== verification/Codes.thy ===== *)
theory Codes
  imports Go_Prelude
begin

text \<open>
  The protocol's numbers, \<open>egts/packet/codes.go\<close>: packet types, subrecord types, result codes and
  services. They are Go variables that nothing assigns to. The result codes the program never
  uses are left out.
\<close>

named_theorems codes "the values of the protocol's numbers"

section \<open>Packet types\<close>

definition EGTS_PT_RESPONSE :: u8 where [codes]: "EGTS_PT_RESPONSE = 0"
definition EGTS_PT_APPDATA :: u8 where [codes]: "EGTS_PT_APPDATA = 1"
definition EGTS_PT_SIGNED_APPDATA :: u8 where [codes]: "EGTS_PT_SIGNED_APPDATA = 2"

section \<open>Subrecord types\<close>

definition RecordResponse :: u8 where [codes]: "RecordResponse = 0"
definition TermIdentity :: u8 where [codes]: "TermIdentity = 1"
definition AuthParams :: u8 where [codes]: "AuthParams = 6"
definition AuthInfo :: u8 where [codes]: "AuthInfo = 7"
definition ResultCode :: u8 where [codes]: "ResultCode = 9"
definition PosData :: u8 where [codes]: "PosData = 16"
definition ExtPosData :: u8 where [codes]: "ExtPosData = 17"
definition AdSensorsData :: u8 where [codes]: "AdSensorsData = 18"
definition CountersData :: u8 where [codes]: "CountersData = 19"
definition StateData :: u8 where [codes]: "StateData = 20"
definition AccelerationData_type :: u8 where [codes]: "AccelerationData_type = 21"
definition LiquidLevelSensor :: u8 where [codes]: "LiquidLevelSensor = 27"

section \<open>Result codes\<close>

definition EGTS_PC_OK :: u8 where [codes]: "EGTS_PC_OK = 0"
definition EGTS_PC_IN_PROGRESS :: u8 where [codes]: "EGTS_PC_IN_PROGRESS = 1"
definition EGTS_PC_UNS_PROTOCOL :: u8 where [codes]: "EGTS_PC_UNS_PROTOCOL = 128"
definition EGTS_PC_DECRYPT_ERROR :: u8 where [codes]: "EGTS_PC_DECRYPT_ERROR = 129"
definition EGTS_PC_INC_HEADERFORM :: u8 where [codes]: "EGTS_PC_INC_HEADERFORM = 131"
definition EGTS_PC_INC_DATAFORM :: u8 where [codes]: "EGTS_PC_INC_DATAFORM = 132"
definition EGTS_PC_UNS_TYPE :: u8 where [codes]: "EGTS_PC_UNS_TYPE = 133"
definition EGTS_PC_HEADERCRC_ERROR :: u8 where [codes]: "EGTS_PC_HEADERCRC_ERROR = 137"
definition EGTS_PC_DATACRC_ERROR :: u8 where [codes]: "EGTS_PC_DATACRC_ERROR = 138"
definition EGTS_PC_INVDATALEN :: u8 where [codes]: "EGTS_PC_INVDATALEN = 139"
definition EGTS_PC_NO_RES_AVAIL :: u8 where [codes]: "EGTS_PC_NO_RES_AVAIL = 156"
definition EGTS_PC_AUTH_DENIED :: u8 where [codes]: "EGTS_PC_AUTH_DENIED = 151"

section \<open>Services\<close>

definition SERVICE_AUTH :: u8 where [codes]: "SERVICE_AUTH = 1"
definition SERVICE_DATA :: u8 where [codes]: "SERVICE_DATA = 2"

end
