(* ===== verification/Bytes_Data.thy ===== *)
theory Bytes_Data
  imports Go_Prelude
begin

text \<open>
  The interface \<open>BytesData\<close> of \<open>egts/packet/services_frame_data.go\<close> as the contract the record
  layer relies on: what \<open>Encode\<close> writes for a well-formed value, \<open>Decode\<close> reads back. \<open>Encode\<close>
  takes the pointer receiver, which may be nil. \<open>closed_bytes_data\<close> adds that every decoded
  value is well formed, \<open>exact_bytes_data\<close> that it encodes to the very bytes it came from. Each
  subrecord theory interprets the strongest of the three that its code satisfies.
\<close>

locale bytes_data =
  fixes Decode :: "bytes \<Rightarrow> 'a result"
    and Encode :: "'a option \<Rightarrow> bytes result"
    and wf :: "'a \<Rightarrow> bool"
  assumes roundtrip: "wf s \<Longrightarrow> \<exists>bs. Encode (Some s) = Inr bs \<and> Decode bs = Inr s"
    and nil_receiver: "\<exists>e. Encode None = Inl e"
begin

lemma encode_decode: "wf s \<Longrightarrow> Encode (Some s) = Inr bs \<Longrightarrow> Decode bs = Inr s"
  using roundtrip [of s] by auto

lemma encode_inj: "wf s \<Longrightarrow> wf t \<Longrightarrow> Encode (Some s) = Encode (Some t) \<Longrightarrow> s = t"
  using roundtrip [of s] roundtrip [of t] by auto

lemma encode_Some: "Encode p = Inr bs \<Longrightarrow> \<exists>s. p = Some s"
  using nil_receiver by (cases p) auto

end

locale closed_bytes_data = bytes_data +
  assumes decode_wf: "Decode bs = Inr s \<Longrightarrow> wf s"
begin

text \<open>The well-formed values are exactly those that survive being encoded and decoded.\<close>

lemma wf_iff_survives: "wf s \<longleftrightarrow> (\<exists>bs. Encode (Some s) = Inr bs \<and> Decode bs = Inr s)"
  using roundtrip decode_wf by blast

text \<open>A decoded value survives being encoded and decoded again.\<close>

lemma redecode: "Decode bs = Inr s \<Longrightarrow> \<exists>bs'. Encode (Some s) = Inr bs' \<and> Decode bs' = Inr s"
  by (rule roundtrip) (rule decode_wf)

end

locale exact_bytes_data = closed_bytes_data +
  assumes reencode: "Decode bs = Inr s \<Longrightarrow> Encode (Some s) = Inr bs"
begin

lemma decode_inj: "Decode bs = Inr s \<Longrightarrow> Decode bs' = Inr s \<Longrightarrow> bs = bs'"
  using reencode [of bs s] reencode [of bs' s] by simp

text \<open>Decoding is the inverse of encoding on the well-formed values, and fails elsewhere.\<close>

lemma decode_iff: "Decode bs = Inr s \<longleftrightarrow> wf s \<and> Encode (Some s) = Inr bs"
  using encode_decode reencode decode_wf by blast

lemma decode_iff_encode: "wf s \<Longrightarrow> Decode bs = Inr s \<longleftrightarrow> Encode (Some s) = Inr bs"
  using encode_decode reencode by blast

end

end
