(* ===== verification/Sub_Auth.thy ===== *)
theory Sub_Auth
  imports Bytes_Data
begin

text \<open>
  The subrecords of the authentication service and the confirmations:
  \<open>egts/subrecord/sr_record_response.go\<close>, \<open>sr_result_code.go\<close>, \<open>sr_auth_params.go\<close>,
  \<open>sr_auth_info.go\<close> and \<open>sr_term_identity.go\<close>. All five re-encode to the bytes they were
  decoded from. Writes to a \<open>bytes.Buffer\<close> do not fail, so their error branches have no
  counterpart here.
\<close>

section \<open>EGTS\_SR\_RECORD\_RESPONSE\<close>

record SRRecordResponse =
  ConfirmedRecordNumber :: u16
  RecordStatus :: u8

definition SRRecordResponse_Decode :: "bytes \<Rightarrow> SRRecordResponse result" where
  "SRRecordResponse_Decode b =
     bindR (wrapf ''EGTS_SR_RECORD_RESPONSE; Error reading CRN'' (ReadUint16 b)) (\<lambda>(crn, r).
     bindR (wrapf ''EGTS_SR_RECORD_RESPONSE; Error reading RST'' (ReadByte r)) (\<lambda>(rst, r).
     if r \<noteq> [] then Inl (Errorf ''EGTS_SR_RECORD_RESPONSE; Unexpected trailing data'')
     else Inr \<lparr>ConfirmedRecordNumber = crn, RecordStatus = rst\<rparr>))"

fun SRRecordResponse_Encode :: "SRRecordResponse option \<Rightarrow> bytes result" where
  "SRRecordResponse_Encode None = Inl (Errorf ''SRRecordResponse; Subrecord is nil'')"
| "SRRecordResponse_Encode (Some subr) =
     Inr (PutUint16 (ConfirmedRecordNumber subr) @ [RecordStatus subr])"

definition SRRecordResponse_Len :: "SRRecordResponse option \<Rightarrow> u16" where
  "SRRecordResponse_Len subr = Len_of (SRRecordResponse_Encode subr)"

interpretation record_response: exact_bytes_data
  SRRecordResponse_Decode SRRecordResponse_Encode "\<lambda>_. True"
  by unfold_locales (auto simp: SRRecordResponse_Decode_def go_simps go_inv split: if_splits)

section \<open>EGTS\_SR\_RESULT\_CODE\<close>

record SRResultCode =
  RCD :: u8

definition SRResultCode_Decode :: "bytes \<Rightarrow> SRResultCode result" where
  "SRResultCode_Decode b =
     bindR (wrapf ''EGTS_SR_RESULT_CODE; Error reading RCD'' (ReadByte b)) (\<lambda>(rcd, r).
     if r \<noteq> [] then Inl (Errorf ''EGTS_SR_RESULT_CODE; Unexpected trailing data'')
     else Inr \<lparr>RCD = rcd\<rparr>)"

fun SRResultCode_Encode :: "SRResultCode option \<Rightarrow> bytes result" where
  "SRResultCode_Encode None = Inl (Errorf ''SRResultCode; Subrecord is nil'')"
| "SRResultCode_Encode (Some subr) = Inr [RCD subr]"

definition SRResultCode_Len :: "SRResultCode option \<Rightarrow> u16" where
  "SRResultCode_Len subr = Len_of (SRResultCode_Encode subr)"

interpretation result_code: exact_bytes_data SRResultCode_Decode SRResultCode_Encode "\<lambda>_. True"
  by unfold_locales (auto simp: SRResultCode_Decode_def go_simps go_inv split: if_splits)

section \<open>EGTS\_SR\_AUTH\_PARAMS\<close>

record SRAuthParams =
  Flags :: u8

definition SRAuthParams_Decode :: "bytes \<Rightarrow> SRAuthParams result" where
  "SRAuthParams_Decode b =
     (if length b \<noteq> 1 \<or> b ! 0 \<noteq> 0
      then Inl (Errorf ''EGTS_SR_AUTH_PARAMS; Only authentication without encryption is supported'')
      else Inr \<lparr>Flags = 0\<rparr>)"

fun SRAuthParams_Encode :: "SRAuthParams option \<Rightarrow> bytes result" where
  "SRAuthParams_Encode None =
     Inl (Errorf ''EGTS_SR_AUTH_PARAMS; Only authentication without encryption is supported'')"
| "SRAuthParams_Encode (Some subr) =
     (if Flags subr \<noteq> 0
      then Inl (Errorf ''EGTS_SR_AUTH_PARAMS; Only authentication without encryption is supported'')
      else Inr [0])"

definition SRAuthParams_Len :: "SRAuthParams option \<Rightarrow> u16" where
  "SRAuthParams_Len subr = Len_of (SRAuthParams_Encode subr)"

interpretation auth_params: exact_bytes_data
  SRAuthParams_Decode SRAuthParams_Encode "\<lambda>s. Flags s = 0"
  by unfold_locales (auto simp: SRAuthParams_Decode_def length_Suc_conv split: if_splits)

section \<open>EGTS\_SR\_AUTH\_INFO\<close>

text \<open>\<open>bytes.Split\<close> with a separator of one byte: \<open>n\<close> separators make \<open>n + 1\<close> fields.\<close>

fun bytes_Split :: "u8 \<Rightarrow> bytes \<Rightarrow> bytes list" where
  "bytes_Split sep [] = [[]]"
| "bytes_Split sep (b # bs) =
     (if b = sep then [] # bytes_Split sep bs
      else (case bytes_Split sep bs of [] \<Rightarrow> [[b]] | f # fs \<Rightarrow> (b # f) # fs))"

lemma bytes_Split_not_Nil [simp]: "bytes_Split sep bs \<noteq> []"
  by (cases bs) (auto split: list.splits)

lemma bytes_Split_field: "sep \<notin> set f \<Longrightarrow> bytes_Split sep (f @ sep # r) = f # bytes_Split sep r"
  by (induction f) auto

lemma bytes_Split_last: "sep \<notin> set f \<Longrightarrow> bytes_Split sep f = [f]"
  by (induction f) auto

lemma bytes_Split_Cons:
  "bytes_Split sep bs = f # fs \<Longrightarrow>
   sep \<notin> set f \<and> (if fs = [] then bs = f else \<exists>r. bs = f @ sep # r \<and> bytes_Split sep r = fs)"
proof (induction bs arbitrary: f)
  case Nil
  then show ?case by simp
next
  case (Cons b bs)
  show ?case
  proof (cases "b = sep")
    case True
    with Cons.prems show ?thesis by auto
  next
    case False
    then obtain g where "f = b # g" "bytes_Split sep bs = g # fs"
      using Cons.prems by (cases "bytes_Split sep bs") auto
    with Cons.IH [of g] False show ?thesis by auto
  qed
qed

record SRAuthInfo =
  UserName :: string
  Password :: string
  ServerSequence :: "string option"

definition SRAuthInfo_Decode :: "bytes \<Rightarrow> SRAuthInfo result" where
  "SRAuthInfo_Decode b =
     (let fields = bytes_Split 0 b in
      if (length fields \<noteq> 3 \<and> length fields \<noteq> 4) \<or> length (last fields) \<noteq> 0
      then Inl (Errorf ''EGTS_SR_AUTH_INFO; Invalid string delimiters'')
      else if length (fields ! 0) > 32 \<or> length (fields ! 1) > 32
      then Inl (Errorf ''EGTS_SR_AUTH_INFO; UNM and UPSW must not exceed 32 bytes'')
      else
        (let decoded = \<lparr>UserName = string_of_bytes (fields ! 0),
           Password = string_of_bytes (fields ! 1), ServerSequence = None\<rparr> in
         if length fields = 4 then
           (if length (fields ! 2) > 255
            then Inl (Errorf ''EGTS_SR_AUTH_INFO; SS must not exceed 255 bytes'')
            else Inr (decoded\<lparr>ServerSequence := Some (string_of_bytes (fields ! 2))\<rparr>))
         else Inr decoded))"

fun SRAuthInfo_Encode :: "SRAuthInfo option \<Rightarrow> bytes result" where
  "SRAuthInfo_Encode None = Inl (Errorf ''EGTS_SR_AUTH_INFO; Subrecord is nil'')"
| "SRAuthInfo_Encode (Some subr) =
     (if length (UserName subr) > 32 \<or> length (Password subr) > 32
      then Inl (Errorf ''EGTS_SR_AUTH_INFO; UNM and UPSW must not exceed 32 bytes'')
      else if contains_null (UserName subr) \<or> contains_null (Password subr)
      then Inl (Errorf ''EGTS_SR_AUTH_INFO; Embedded string delimiter'')
      else
        (let data = bytes_of_string (UserName subr) @ [0] @ bytes_of_string (Password subr) @ [0] in
         case ServerSequence subr of
           None \<Rightarrow> Inr data
         | Some seq \<Rightarrow>
             if contains_null seq \<or> length seq > 255
             then Inl (Errorf ''EGTS_SR_AUTH_INFO; Invalid SS'')
             else Inr (data @ bytes_of_string seq @ [0])))"

definition SRAuthInfo_Len :: "SRAuthInfo option \<Rightarrow> u16" where
  "SRAuthInfo_Len subr =
     (case SRAuthInfo_Encode subr of Inl _ \<Rightarrow> 0 | Inr data \<Rightarrow> word_of_nat (length data))"

text \<open>The strings the wire format can hold.\<close>

definition wf_AuthInfo :: "SRAuthInfo \<Rightarrow> bool" where
  "wf_AuthInfo s \<longleftrightarrow>
     length (UserName s) \<le> 32 \<and> length (Password s) \<le> 32 \<and>
     \<not> contains_null (UserName s) \<and> \<not> contains_null (Password s) \<and>
     (case ServerSequence s of None \<Rightarrow> True | Some q \<Rightarrow> length q \<le> 255 \<and> \<not> contains_null q)"

lemma char_of_byte_0: "char_of_byte 0 = CHR 0x00"
  by (simp add: char_of_byte_def char_of_def)

lemma byte_of_char_0: "byte_of_char c = 0 \<longleftrightarrow> c = CHR 0x00"
  by (metis byte_of_char_of_byte char_of_byte_of_char char_of_byte_0)

lemma zero_bytes_of_string [simp]: "0 \<in> set (bytes_of_string s) \<longleftrightarrow> contains_null s"
  by (force simp: bytes_of_string_def contains_null_def byte_of_char_0)

lemma contains_null_string_of_bytes [simp]: "contains_null (string_of_bytes bs) \<longleftrightarrow> 0 \<in> set bs"
  using zero_bytes_of_string [of "string_of_bytes bs"] by simp

lemma AuthInfo_roundtrip:
  assumes "wf_AuthInfo s"
  shows "\<exists>bs. SRAuthInfo_Encode (Some s) = Inr bs \<and> SRAuthInfo_Decode bs = Inr s"
  using assms
  by (cases s; cases "ServerSequence s")
    (auto simp: wf_AuthInfo_def SRAuthInfo_Decode_def bytes_Split_field)

lemma AuthInfo_fields:
  assumes "SRAuthInfo_Decode bs = Inr s"
  shows "bs = bytes_of_string (UserName s) @ 0 # bytes_of_string (Password s) @ 0 #
      (case ServerSequence s of None \<Rightarrow> [] | Some q \<Rightarrow> bytes_of_string q @ [0]) \<and> wf_AuthInfo s"
proof -
  have fin: "bytes_Split 0 r = [[]] \<Longrightarrow> r = []" for r
    using bytes_Split_Cons [of 0 r "[]" "[]"] by simp
  consider (three) f g where "bytes_Split 0 bs = [f, g, []]"
    | (four) f g h where "bytes_Split 0 bs = [f, g, h, []]"
    using assms
    by (auto simp: SRAuthInfo_Decode_def Let_def numeral_eq_Suc length_Suc_conv split: if_splits)
  then show ?thesis
  proof cases
    case three
    from bytes_Split_Cons [OF three] obtain r where r: "bs = f @ 0 # r" "bytes_Split 0 r = [g, []]" "0 \<notin> set f"
      by auto
    from bytes_Split_Cons [OF r(2)] obtain q where q: "r = g @ 0 # q" "bytes_Split 0 q = [[]]" "0 \<notin> set g"
      by auto
    with r fin [of q] three assms show ?thesis
      by (auto simp: SRAuthInfo_Decode_def Let_def wf_AuthInfo_def split: if_splits)
  next
    case four
    from bytes_Split_Cons [OF four] obtain r where r: "bs = f @ 0 # r" "bytes_Split 0 r = [g, h, []]" "0 \<notin> set f"
      by auto
    from bytes_Split_Cons [OF r(2)] obtain q where q: "r = g @ 0 # q" "bytes_Split 0 q = [h, []]" "0 \<notin> set g"
      by auto
    from bytes_Split_Cons [OF q(2)] obtain t where t: "q = h @ 0 # t" "bytes_Split 0 t = [[]]" "0 \<notin> set h"
      by auto
    with r q fin [of t] four assms show ?thesis
      by (auto simp: SRAuthInfo_Decode_def Let_def wf_AuthInfo_def split: if_splits)
  qed
qed

interpretation auth_info: exact_bytes_data SRAuthInfo_Decode SRAuthInfo_Encode wf_AuthInfo
proof
  fix s :: SRAuthInfo and bs
  show "wf_AuthInfo s \<Longrightarrow> \<exists>bs. SRAuthInfo_Encode (Some s) = Inr bs \<and> SRAuthInfo_Decode bs = Inr s"
    by (rule AuthInfo_roundtrip)
  show "\<exists>e. SRAuthInfo_Encode None = Inl e" by simp
  assume "SRAuthInfo_Decode bs = Inr s"
  from AuthInfo_fields [OF this] show "wf_AuthInfo s" "SRAuthInfo_Encode (Some s) = Inr bs"
    by (auto simp: wf_AuthInfo_def Let_def split: option.splits)
qed

section \<open>EGTS\_SR\_TERM\_IDENTITY\<close>

record SRTermIdentity =
  TerminalIdentifier :: u32
  MNE :: string
  BSE :: string
  NIDE :: string
  SSRA :: string
  LNGCE :: string
  IMSIE :: string
  IMEIE :: string
  HDIDE :: string
  HomeDispatcherIdentifier :: u16
  InternationalMobileEquipmentIdentity :: string
  InternationalMobileSubscriberIdentity :: string
  LanguageCode :: string
  NetworkIdentifier :: bytes
  BufferSize :: u16
  MobileStationIntegratedServicesDigitalNetworkNumber :: string

definition SRTermIdentity_Decode :: "bytes \<Rightarrow> SRTermIdentity result" where
  "SRTermIdentity_Decode b =
     bindR (wrapf ''EGTS_SR_TERM_IDENTITY; Error reading TID'' (ReadUint32 b)) (\<lambda>(tid, r).
     bindR (wrapf ''EGTS_SR_TERM_IDENTITY; Error reading flags'' (ReadByte r)) (\<lambda>(flagByte, r).
     let bits = bits08 flagByte;
         hdide = substr bits 7 8; imeie = substr bits 6 7; imsie = substr bits 5 6;
         lngce = substr bits 4 5; ssra = substr bits 3 4; nide = substr bits 2 3;
         bse = substr bits 1 2; mne = substr bits 0 1 in
     bindR (wrapf ''EGTS_SR_TERM_IDENTITY; Error reading HDID'' (when_flag hdide ReadUint16 0 r)) (\<lambda>(hdid, r).
     bindR (wrapf ''EGTS_SR_TERM_IDENTITY; Error reading IMEI'' (when_flag imeie (ReadString 15) [] r)) (\<lambda>(imei, r).
     bindR (wrapf ''EGTS_SR_TERM_IDENTITY; Error reading IMSI'' (when_flag imsie (ReadString 16) [] r)) (\<lambda>(imsi, r).
     bindR (wrapf ''EGTS_SR_TERM_IDENTITY; Error reading LNGC'' (when_flag lngce (ReadString 3) [] r)) (\<lambda>(lang, r).
     bindR (wrapf ''EGTS_SR_TERM_IDENTITY; Error reading NID'' (when_flag nide (ReadFull 3) [] r)) (\<lambda>(nid, r).
     bindR (wrapf ''EGTS_SR_TERM_IDENTITY; Error reading BS'' (when_flag bse ReadUint16 0 r)) (\<lambda>(bs, r).
     bindR (wrapf ''EGTS_SR_TERM_IDENTITY; Error reading MSISDN'' (when_flag mne (ReadString 15) [] r)) (\<lambda>(msisdn, r).
     if r \<noteq> [] then Inl (Errorf ''EGTS_SR_TERM_IDENTITY; Unexpected trailing data'')
     else Inr \<lparr>TerminalIdentifier = tid,
       MNE = mne, BSE = bse, NIDE = nide, SSRA = ssra,
       LNGCE = lngce, IMSIE = imsie, IMEIE = imeie, HDIDE = hdide,
       HomeDispatcherIdentifier = hdid,
       InternationalMobileEquipmentIdentity = imei,
       InternationalMobileSubscriberIdentity = imsi,
       LanguageCode = lang,
       NetworkIdentifier = nid,
       BufferSize = bs,
       MobileStationIntegratedServicesDigitalNetworkNumber = msisdn\<rparr>)))))))))"

text \<open>
  The encoder drops the error of \<open>ParseUint\<close>, so flags that are not bits are written as the
  value that comes with the error, and it does not check the lengths of the strings.
\<close>

fun SRTermIdentity_Encode :: "SRTermIdentity option \<Rightarrow> bytes result" where
  "SRTermIdentity_Encode None = Inl (Errorf ''SRTermIdentity; Subrecord is nil'')"
| "SRTermIdentity_Encode (Some subr) =
     (let flagsBits = MNE subr @ BSE subr @ NIDE subr @ SSRA subr @
            LNGCE subr @ IMSIE subr @ IMEIE subr @ HDIDE subr;
          flags = fst (ParseUint 2 8 flagsBits)
      in Inr (PutUint32 (TerminalIdentifier subr) @ [word_of_nat flags] @
           flag_bytes (HDIDE subr) (PutUint16 (HomeDispatcherIdentifier subr)) @
           flag_bytes (IMEIE subr) (bytes_of_string (InternationalMobileEquipmentIdentity subr)) @
           flag_bytes (IMSIE subr) (bytes_of_string (InternationalMobileSubscriberIdentity subr)) @
           flag_bytes (LNGCE subr) (bytes_of_string (LanguageCode subr)) @
           flag_bytes (NIDE subr) (NetworkIdentifier subr) @
           flag_bytes (BSE subr) (PutUint16 (BufferSize subr)) @
           flag_bytes (MNE subr)
             (bytes_of_string (MobileStationIntegratedServicesDigitalNetworkNumber subr))))"

definition SRTermIdentity_Len :: "SRTermIdentity option \<Rightarrow> u16" where
  "SRTermIdentity_Len subr = Len_of (SRTermIdentity_Encode subr)"

text \<open>A present field has its width; an absent one its zero value.\<close>

definition opt_length :: "string \<Rightarrow> nat \<Rightarrow> 'a list \<Rightarrow> bool" where
  "opt_length f n xs \<longleftrightarrow> (f = ''1'' \<longrightarrow> length xs = n) \<and> (f \<noteq> ''1'' \<longrightarrow> xs = [])"

definition wf_TermIdentity :: "SRTermIdentity \<Rightarrow> bool" where
  "wf_TermIdentity s \<longleftrightarrow>
     list_all is_flag [MNE s, BSE s, NIDE s, SSRA s, LNGCE s, IMSIE s, IMEIE s, HDIDE s] \<and>
     (HDIDE s \<noteq> ''1'' \<longrightarrow> HomeDispatcherIdentifier s = 0) \<and>
     opt_length (IMEIE s) 15 (InternationalMobileEquipmentIdentity s) \<and>
     opt_length (IMSIE s) 16 (InternationalMobileSubscriberIdentity s) \<and>
     opt_length (LNGCE s) 3 (LanguageCode s) \<and>
     opt_length (NIDE s) 3 (NetworkIdentifier s) \<and>
     (BSE s \<noteq> ''1'' \<longrightarrow> BufferSize s = 0) \<and>
     opt_length (MNE s) 15 (MobileStationIntegratedServicesDigitalNetworkNumber s)"

lemma TermIdentity_roundtrip:
  assumes "wf_TermIdentity s"
  shows "\<exists>bs. SRTermIdentity_Encode (Some s) = Inr bs \<and> SRTermIdentity_Decode bs = Inr s"
proof -
  obtain w where "MNE s = bitstr w 7" "BSE s = bitstr w 6" "NIDE s = bitstr w 5"
    "SSRA s = bitstr w 4" "LNGCE s = bitstr w 3" "IMSIE s = bitstr w 2" "IMEIE s = bitstr w 1"
    "HDIDE s = bitstr w 0"
    by (rule flags8 [of "MNE s" "BSE s" "NIDE s" "SSRA s" "LNGCE s" "IMSIE s" "IMEIE s" "HDIDE s"])
      (use assms in \<open>simp_all add: wf_TermIdentity_def\<close>)
  with assms show ?thesis
    by (simp add: wf_TermIdentity_def opt_length_def SRTermIdentity_Decode_def go_simps Let_def)
qed

lemma TermIdentity_exact:
  assumes "SRTermIdentity_Decode bs = Inr s"
  shows "wf_TermIdentity s \<and> SRTermIdentity_Encode (Some s) = Inr bs"
  using assms
  by (clarsimp simp: SRTermIdentity_Decode_def go_simps go_inv Let_def
      wf_TermIdentity_def opt_length_def)

interpretation term_identity: exact_bytes_data
  SRTermIdentity_Decode SRTermIdentity_Encode wf_TermIdentity
  by unfold_locales (use TermIdentity_roundtrip TermIdentity_exact in auto)

end
