(* ===== verification/Sub_Sensors.thy ===== *)
theory Sub_Sensors
  imports Bytes_Data
begin

text \<open>
  The subrecords of sensors and counters: \<open>egts/subrecord/sr_counters_data.go\<close>,
  \<open>sr_ad_sensors_data.go\<close>, \<open>sr_ex_pos_data_record.go\<close> and \<open>sr_liquid_lever_sensor.go\<close>. The first
  two re-encode to the bytes they came from; the other two drop the reserved bits of their flag
  byte, so only the decoded value survives.
\<close>

section \<open>Eight optional fields\<close>

text \<open>
  The loops \<open>for i := range exists\<close>: read, or write, the fields whose flag is set. An absent
  field keeps the array's zero.
\<close>

fun read_fields :: "string \<Rightarrow> (bytes \<Rightarrow> ('a \<times> bytes) result) \<Rightarrow> 'a \<Rightarrow> string list \<Rightarrow> bytes \<Rightarrow>
    ('a list \<times> bytes) result" where
  "read_fields msg rd d [] r = Inr ([], r)"
| "read_fields msg rd d (f # fs) r =
     bindR (wrapf msg (when_flag f rd d r)) (\<lambda>(x, r).
     bindR (read_fields msg rd d fs r) (\<lambda>(xs, r). Inr (x # xs, r)))"

fun write_fields :: "('a \<Rightarrow> bytes result) \<Rightarrow> string list \<Rightarrow> 'a list \<Rightarrow> bytes result" where
  "write_fields wr (f # fs) (x # xs) =
     bindR (if f = ''1'' then wr x else Inr []) (\<lambda>b.
     bindR (write_fields wr fs xs) (\<lambda>bs. Inr (b @ bs)))"
| "write_fields wr fs xs = Inr []"

text \<open>\<open>if v > 0xffffff\<close> return an error, else the first three bytes of \<open>PutUint32\<close>.\<close>

definition write_u24 :: "string \<Rightarrow> u32 \<Rightarrow> bytes result" where
  "write_u24 msg v = (if v > 0xffffff then Inl (Errorf msg) else Inr (PutUint24 v))"

text \<open>The eight existence flags, lowest bit first.\<close>

definition exists_flags :: "u8 \<Rightarrow> string list" where
  "exists_flags b = (let bits = bits08 b in
     [substr bits 7 8, substr bits 6 7, substr bits 5 6, substr bits 4 5,
      substr bits 3 4, substr bits 2 3, substr bits 1 2, substr bits 0 1])"

lemma exists_flags_eq:
  "exists_flags b = map (bitstr b) [0, 1, 2, 3, 4, 5, 6, 7]"
  by (simp add: exists_flags_def Let_def go_simps)

lemma length_exists_flags [simp]: "length (exists_flags b) = 8"
  by (simp add: exists_flags_eq)

lemma exists_flags_is_flag [simp]: "list_all is_flag (exists_flags b)"
  by (simp add: exists_flags_eq)

lemma concat_exists_flags [simp]: "concat (rev (exists_flags b)) = bits08 b"
  by (simp add: exists_flags_eq bits08_bitstr)

lemma length_8D: "length xs = 8 \<Longrightarrow>
    \<exists>a b c d e f g h. xs = [a, b, c, d, e, f, g, h]"
  by (auto simp: numeral_eq_Suc length_Suc_conv)

lemma exists_flags_cases:
  assumes "length fs = 8" "list_all is_flag fs"
  obtains b where "fs = exists_flags b"
proof -
  from length_8D [OF assms(1)] obtain f0 f1 f2 f3 f4 f5 f6 f7
    where fs: "fs = [f0, f1, f2, f3, f4, f5, f6, f7]" by blast
  obtain w where "f7 = bitstr w 7" "f6 = bitstr w 6" "f5 = bitstr w 5" "f4 = bitstr w 4"
    "f3 = bitstr w 3" "f2 = bitstr w 2" "f1 = bitstr w 1" "f0 = bitstr w 0"
    by (rule flags8 [of f7 f6 f5 f4 f3 f2 f1 f0]) (use assms fs in simp_all)
  then show thesis by (intro that [of w]) (simp add: fs exists_flags_eq)
qed

text \<open>The fields an array of flags selects, for any kind of field.\<close>

definition fields_ok :: "('a \<Rightarrow> bool) \<Rightarrow> 'a \<Rightarrow> string list \<Rightarrow> 'a list \<Rightarrow> bool" where
  "fields_ok ok d = list_all2 (\<lambda>f x. (f = ''1'' \<longrightarrow> ok x) \<and> (f \<noteq> ''1'' \<longrightarrow> x = d))"

fun fields_bytes :: "('a \<Rightarrow> bytes) \<Rightarrow> string list \<Rightarrow> 'a list \<Rightarrow> bytes" where
  "fields_bytes wr (f # fs) (x # xs) = flag_bytes f (wr x) @ fields_bytes wr fs xs"
| "fields_bytes wr fs xs = []"

lemma fields_ok_simps [simp]:
  "fields_ok ok d [] xs \<longleftrightarrow> xs = []"
  "fields_ok ok d (f # fs) (x # xs) \<longleftrightarrow>
     (f = ''1'' \<longrightarrow> ok x) \<and> (f \<noteq> ''1'' \<longrightarrow> x = d) \<and> fields_ok ok d fs xs"
  "\<not> fields_ok ok d (f # fs) []"
  by (auto simp: fields_ok_def)

lemma fields_ok_length: "fields_ok ok d fs xs \<Longrightarrow> length xs = length fs"
  by (simp add: fields_ok_def list_all2_lengthD)

lemma fields_ok_Cons: "fields_ok ok d (f # fs) xs \<Longrightarrow> \<exists>y ys. xs = y # ys"
  by (cases xs) auto

context field_codec
begin

lemma read_fields_Inr:
  "read_fields msg rd d fs bs = Inr (xs, r) \<longleftrightarrow>
   fields_ok ok d fs xs \<and> bs = fields_bytes wr fs xs @ r"
proof (induction fs arbitrary: bs xs)
  case Nil
  then show ?case by auto
next
  case (Cons f fs)
  show ?case
  proof (cases xs)
    case Nil
    then show ?thesis by (auto split: prod.splits)
  next
    case (Cons x ys)
    have "read_fields msg rd d (f # fs) bs = Inr (x # ys, r) \<longleftrightarrow>
      (\<exists>q. when_flag f rd d bs = Inr (x, q) \<and> read_fields msg rd d fs q = Inr (ys, r))"
      by (auto split: prod.splits)
    also have "\<dots> \<longleftrightarrow> fields_ok ok d (f # fs) (x # ys) \<and>
        bs = fields_bytes wr (f # fs) (x # ys) @ r"
      by (auto simp: when_rd_Inr_iff Cons.IH)
    finally show ?thesis by (simp only: Cons)
  qed
qed

lemma write_fields_eq:
  "fields_ok ok d fs xs \<Longrightarrow> (\<And>x. ok x \<Longrightarrow> wr' x = Inr (wr x)) \<Longrightarrow>
   write_fields wr' fs xs = Inr (fields_bytes wr fs xs)"
proof (induction fs arbitrary: xs)
  case Nil
  then show ?case by simp
next
  case (Cons f fs)
  from fields_ok_Cons [OF Cons.prems(1)] obtain y ys where "xs = y # ys" by blast
  with Cons show ?case by (simp add: flag_bytes_def)
qed

end

lemma write_u24_ok: "v < 2 ^ 24 \<Longrightarrow> write_u24 msg v = Inr (PutUint24 v)"
proof -
  assume "v < 2 ^ 24"
  then have "\<not> v > 0xffffff"
    by (simp add: word_less_nat_alt)
  then show ?thesis by (simp only: write_u24_def if_False)
qed

lemmas u24_fields = u24_field.read_fields_Inr
lemmas u8_fields = u8_field.read_fields_Inr

lemma write_u24_fields:
  "fields_ok (\<lambda>v. v < 2 ^ 24) 0 fs xs \<Longrightarrow>
   write_fields (write_u24 msg) fs xs = Inr (fields_bytes PutUint24 fs xs)"
  by (rule u24_field.write_fields_eq) (simp_all only: write_u24_ok)

lemma write_u8_fields:
  "fields_ok (\<lambda>_. True) 0 fs xs \<Longrightarrow>
   write_fields (\<lambda>b. Inr [b]) fs xs = Inr (fields_bytes (\<lambda>b. [b]) fs xs)"
  by (rule u8_field.write_fields_eq) simp_all

section \<open>EGTS\_SR\_COUNTERS\_DATA\<close>

record SRCountersData =
  Counters :: "u32 list"
  CountersExists :: "string list"

definition SRCountersData_Decode :: "bytes \<Rightarrow> SRCountersData result" where
  "SRCountersData_Decode b =
     bindR (wrapf ''EGTS_SR_COUNTERS_DATA; Error reading flags'' (ReadByte b)) (\<lambda>(flagByte, r).
     let cne = exists_flags flagByte in
     bindR (read_fields ''EGTS_SR_COUNTERS_DATA; Error reading CN%d'' ReadUint24 0 cne r) (\<lambda>(cn, r).
     if r \<noteq> [] then Inl (Errorf ''EGTS_SR_COUNTERS_DATA; Unexpected trailing data'')
     else Inr \<lparr>Counters = cn, CountersExists = cne\<rparr>))"

fun SRCountersData_Encode :: "SRCountersData option \<Rightarrow> bytes result" where
  "SRCountersData_Encode None = Inl (Errorf ''SRCountersData; Subrecord is nil'')"
| "SRCountersData_Encode (Some subr) =
     (if length (CountersExists subr) \<noteq> length (Counters subr)
      then Inl (Errorf ''EGTS_SR_COUNTERS_DATA; Expected 8 counter flags'')
      else if \<not> list_all is_flag (CountersExists subr)
      then Inl (Errorf ''EGTS_SR_COUNTERS_DATA; Invalid counter flag %d'')
      else
        bindR (wrapf ''EGTS_SR_COUNTERS_DATA; Error writing flags''
          (parse_flags (concat (rev (CountersExists subr))))) (\<lambda>flags.
        bindR (write_fields (write_u24 ''EGTS_SR_COUNTERS_DATA; CN%d exceeds 24 bits'')
          (CountersExists subr) (Counters subr)) (\<lambda>bs.
        Inr (flags # bs))))"

definition SRCountersData_Len :: "SRCountersData option \<Rightarrow> u16" where
  "SRCountersData_Len subr = Len_of (SRCountersData_Encode subr)"

text \<open>The array has eight elements; absent counters are 0 and present ones fit in 24 bits.\<close>

definition wf_Counters :: "SRCountersData \<Rightarrow> bool" where
  "wf_Counters s \<longleftrightarrow>
     length (CountersExists s) = 8 \<and> list_all is_flag (CountersExists s) \<and>
     fields_ok (\<lambda>v. v < 2 ^ 24) 0 (CountersExists s) (Counters s)"

interpretation counters: exact_bytes_data
  SRCountersData_Decode SRCountersData_Encode wf_Counters
proof
  fix s :: SRCountersData and bs
  { assume wf: "wf_Counters s"
    then obtain b where b: "CountersExists s = exists_flags b"
      unfolding wf_Counters_def by (metis exists_flags_cases)
    moreover have "SRCountersData_Encode (Some s) =
        Inr (b # fields_bytes PutUint24 (CountersExists s) (Counters s))"
      using wf b fields_ok_length
      by (fastforce simp: wf_Counters_def parse_flags_bits08 write_u24_fields)
    moreover have "SRCountersData_Decode (b # fields_bytes PutUint24 (CountersExists s) (Counters s)) = Inr s"
    proof -
      have "read_fields ''EGTS_SR_COUNTERS_DATA; Error reading CN%d'' ReadUint24 0 (exists_flags b)
          (fields_bytes PutUint24 (CountersExists s) (Counters s)) = Inr (Counters s, [])"
        using wf b by (simp add: u24_fields wf_Counters_def)
      then show ?thesis by (simp add: SRCountersData_Decode_def Let_def b [symmetric])
    qed
    ultimately show "\<exists>bs. SRCountersData_Encode (Some s) = Inr bs \<and> SRCountersData_Decode bs = Inr s"
      by blast }
  assume "SRCountersData_Decode bs = Inr s"
  then obtain b where "bs = b # fields_bytes PutUint24 (CountersExists s) (Counters s)"
    "CountersExists s = exists_flags b"
    "fields_ok (\<lambda>v. v < 2 ^ 24) 0 (CountersExists s) (Counters s)"
    by (auto simp: SRCountersData_Decode_def Let_def go_inv u24_fields split: prod.splits)
  then show "wf_Counters s" "SRCountersData_Encode (Some s) = Inr bs"
    by (simp_all add: wf_Counters_def parse_flags_bits08 write_u24_fields fields_ok_length)
qed simp

section \<open>EGTS\_SR\_AD\_SENSORS\_DATA\<close>

record SRAdSensorsData =
  DigitalOutputs :: u8
  ADI :: "u8 list"
  ANS :: "u32 list"
  DIOExists :: "string list"
  ANSExists :: "string list"

definition SRAdSensorsData_Decode :: "bytes \<Rightarrow> SRAdSensorsData result" where
  "SRAdSensorsData_Decode b =
     bindR (wrapf ''EGTS_SR_AD_SENSORS_DATA; Error reading flags ADI'' (ReadByte b)) (\<lambda>(flagByteADI, r).
     let dioe = exists_flags flagByteADI in
     bindR (wrapf ''EGTS_SR_AD_SENSORS_DATA; Error reading DOUT'' (ReadByte r)) (\<lambda>(dout, r).
     bindR (wrapf ''EGTS_SR_AD_SENSORS_DATA; Error reading flags ANS'' (ReadByte r)) (\<lambda>(flagByteANS, r).
     let anse = exists_flags flagByteANS in
     bindR (read_fields ''EGTS_SR_AD_SENSORS_DATA; Error reading ADI%d'' ReadByte 0 dioe r) (\<lambda>(adi, r).
     bindR (read_fields ''EGTS_SR_AD_SENSORS_DATA; Error reading ANS%d'' ReadUint24 0 anse r) (\<lambda>(ans, r).
     if r \<noteq> [] then Inl (Errorf ''EGTS_SR_AD_SENSORS_DATA; Unexpected trailing data'')
     else Inr \<lparr>DigitalOutputs = dout, ADI = adi, ANS = ans, DIOExists = dioe, ANSExists = anse\<rparr>)))))"

fun SRAdSensorsData_Encode :: "SRAdSensorsData option \<Rightarrow> bytes result" where
  "SRAdSensorsData_Encode None = Inl (Errorf ''SRAdSensorsData; Subrecord is nil'')"
| "SRAdSensorsData_Encode (Some subr) =
     (if length (DIOExists subr) \<noteq> length (ADI subr)
      then Inl (Errorf ''EGTS_SR_AD_SENSORS_DATA; Expected 8 ADI flags'')
      else if length (ANSExists subr) \<noteq> length (ANS subr)
      then Inl (Errorf ''EGTS_SR_AD_SENSORS_DATA; Expected 8 ANS flags'')
      else if \<not> list_all is_flag (DIOExists subr)
      then Inl (Errorf ''EGTS_SR_AD_SENSORS_DATA; Invalid ADI flag %d'')
      else
        bindR (wrapf ''EGTS_SR_AD_SENSORS_DATA; Error writing flags ADI''
          (parse_flags (concat (rev (DIOExists subr))))) (\<lambda>flagsDIO.
        if \<not> list_all is_flag (ANSExists subr)
        then Inl (Errorf ''EGTS_SR_AD_SENSORS_DATA; Invalid ANS flag %d'')
        else
        bindR (wrapf ''EGTS_SR_AD_SENSORS_DATA; Error writing flags ANS''
          (parse_flags (concat (rev (ANSExists subr))))) (\<lambda>flagsANS.
        bindR (write_fields (\<lambda>b. Inr [b]) (DIOExists subr) (ADI subr)) (\<lambda>adi.
        bindR (write_fields (write_u24 ''EGTS_SR_AD_SENSORS_DATA; ANS%d exceeds 24 bits'')
          (ANSExists subr) (ANS subr)) (\<lambda>ans.
        Inr ([flagsDIO, DigitalOutputs subr, flagsANS] @ adi @ ans))))))"

definition SRAdSensorsData_Len :: "SRAdSensorsData option \<Rightarrow> u16" where
  "SRAdSensorsData_Len subr = Len_of (SRAdSensorsData_Encode subr)"

definition wf_AdSensors :: "SRAdSensorsData \<Rightarrow> bool" where
  "wf_AdSensors s \<longleftrightarrow>
     length (DIOExists s) = 8 \<and> list_all is_flag (DIOExists s) \<and>
     length (ANSExists s) = 8 \<and> list_all is_flag (ANSExists s) \<and>
     fields_ok (\<lambda>_. True) 0 (DIOExists s) (ADI s) \<and>
     fields_ok (\<lambda>v. v < 2 ^ 24) 0 (ANSExists s) (ANS s)"

definition AdSensors_body :: "SRAdSensorsData \<Rightarrow> bytes" where
  "AdSensors_body s = fields_bytes (\<lambda>b. [b]) (DIOExists s) (ADI s) @
     fields_bytes PutUint24 (ANSExists s) (ANS s)"

lemma AdSensors_encode:
  assumes "wf_AdSensors s" "DIOExists s = exists_flags a" "ANSExists s = exists_flags b"
  shows "SRAdSensorsData_Encode (Some s) = Inr (a # DigitalOutputs s # b # AdSensors_body s)"
proof -
  have "length (ADI s) = 8" "length (ANS s) = 8"
    using assms(1) by (auto simp: wf_AdSensors_def dest!: fields_ok_length)
  with assms show ?thesis
    by (simp add: wf_AdSensors_def parse_flags_bits08 write_u24_fields write_u8_fields
        AdSensors_body_def)
qed

lemma AdSensors_decode:
  "SRAdSensorsData_Decode bs = Inr s \<longleftrightarrow>
   (\<exists>a b. bs = a # DigitalOutputs s # b # AdSensors_body s \<and> wf_AdSensors s \<and>
      DIOExists s = exists_flags a \<and> ANSExists s = exists_flags b)"
proof
  assume "SRAdSensorsData_Decode bs = Inr s"
  then show "\<exists>a b. bs = a # DigitalOutputs s # b # AdSensors_body s \<and> wf_AdSensors s \<and>
      DIOExists s = exists_flags a \<and> ANSExists s = exists_flags b"
    by (auto simp: SRAdSensorsData_Decode_def Let_def go_inv u24_fields u8_fields wf_AdSensors_def
        AdSensors_body_def split: prod.splits)
next
  assume "\<exists>a b. bs = a # DigitalOutputs s # b # AdSensors_body s \<and> wf_AdSensors s \<and>
      DIOExists s = exists_flags a \<and> ANSExists s = exists_flags b"
  then obtain a b where s: "bs = a # DigitalOutputs s # b # AdSensors_body s" "wf_AdSensors s"
    "DIOExists s = exists_flags a" "ANSExists s = exists_flags b"
    by blast
  have "read_fields ''EGTS_SR_AD_SENSORS_DATA; Error reading ADI%d'' ReadByte 0 (exists_flags a)
      (AdSensors_body s) = Inr (ADI s, fields_bytes PutUint24 (ANSExists s) (ANS s))"
    using s by (simp add: u8_fields wf_AdSensors_def AdSensors_body_def)
  moreover have "read_fields ''EGTS_SR_AD_SENSORS_DATA; Error reading ANS%d'' ReadUint24 0 (exists_flags b)
      (fields_bytes PutUint24 (ANSExists s) (ANS s)) = Inr (ANS s, [])"
    using s by (simp add: u24_fields wf_AdSensors_def)
  ultimately show "SRAdSensorsData_Decode bs = Inr s"
    by (simp add: SRAdSensorsData_Decode_def Let_def s(1) s(3,4) [symmetric])
qed

interpretation ad_sensors: exact_bytes_data
  SRAdSensorsData_Decode SRAdSensorsData_Encode wf_AdSensors
proof
  fix s :: SRAdSensorsData and bs
  { assume wf: "wf_AdSensors s"
    then obtain a where a: "DIOExists s = exists_flags a"
      unfolding wf_AdSensors_def by (metis exists_flags_cases)
    from wf obtain b where b: "ANSExists s = exists_flags b"
      unfolding wf_AdSensors_def by (metis exists_flags_cases)
    from AdSensors_encode [OF wf a b] wf a b
    show "\<exists>bs. SRAdSensorsData_Encode (Some s) = Inr bs \<and> SRAdSensorsData_Decode bs = Inr s"
      unfolding AdSensors_decode by blast }
  assume "SRAdSensorsData_Decode bs = Inr s"
  then show "wf_AdSensors s" "SRAdSensorsData_Encode (Some s) = Inr bs"
    unfolding AdSensors_decode using AdSensors_encode by auto
qed simp

section \<open>EGTS\_SR\_EXT\_POS\_DATA\<close>

record SRExPosDataRecord =
  VerticalDiluptionOfPrecisionExists :: string
  HorizontalDiluptionOfPrecisionExists :: string
  PositionDiluptionOfPrecisionExists :: string
  SatellitesExists :: string
  NavigationSystemExists :: string
  VerticalDiluptionOfPrecision :: u16
  HorizontalDiluptionOfPrecision :: u16
  PositionDiluptionOfPrecision :: u16
  Satellites :: u8
  NavigationSystem :: u16

definition SRExPosDataRecord_Decode :: "bytes \<Rightarrow> SRExPosDataRecord result" where
  "SRExPosDataRecord_Decode b =
     bindR (wrapf ''EGTS_SR_EXT_POS_DATA; Error reading flags'' (ReadByte b)) (\<lambda>(flagByte, r).
     let bits = bits08 flagByte;
         nsfe = substr bits 3 4; sfe = substr bits 4 5; pfe = substr bits 5 6;
         hfe = substr bits 6 7; vfe = substr bits 7 8 in
     bindR (wrapf ''EGTS_SR_EXT_POS_DATA; Error reading VDOP'' (when_flag vfe ReadUint16 0 r)) (\<lambda>(vdop, r).
     bindR (wrapf ''EGTS_SR_EXT_POS_DATA; Error reading HDOP'' (when_flag hfe ReadUint16 0 r)) (\<lambda>(hdop, r).
     bindR (wrapf ''EGTS_SR_EXT_POS_DATA; Error reading PDOP'' (when_flag pfe ReadUint16 0 r)) (\<lambda>(pdop, r).
     bindR (wrapf ''EGTS_SR_EXT_POS_DATA; Error reading SAT'' (when_flag sfe ReadByte 0 r)) (\<lambda>(sat, r).
     bindR (wrapf ''EGTS_SR_EXT_POS_DATA; Error reading NS'' (when_flag nsfe ReadUint16 0 r)) (\<lambda>(ns, r).
     if r \<noteq> [] then Inl (Errorf ''EGTS_SR_EXT_POS_DATA; Unexpected trailing data'')
     else Inr \<lparr>VerticalDiluptionOfPrecisionExists = vfe,
       HorizontalDiluptionOfPrecisionExists = hfe,
       PositionDiluptionOfPrecisionExists = pfe,
       SatellitesExists = sfe, NavigationSystemExists = nsfe,
       VerticalDiluptionOfPrecision = vdop, HorizontalDiluptionOfPrecision = hdop,
       PositionDiluptionOfPrecision = pdop, Satellites = sat, NavigationSystem = ns\<rparr>))))))"

text \<open>
  The error of \<open>ParseUint\<close> is not wrapped. The five flags are not checked one by one: only
  their concatenation has to parse.
\<close>

fun SRExPosDataRecord_Encode :: "SRExPosDataRecord option \<Rightarrow> bytes result" where
  "SRExPosDataRecord_Encode None = Inl (Errorf ''SRExPosDataRecord; Subrecord is nil'')"
| "SRExPosDataRecord_Encode (Some subr) =
     (case parse_flags (replicate 3 CHR ''0'' @ NavigationSystemExists subr @
         SatellitesExists subr @ PositionDiluptionOfPrecisionExists subr @
         HorizontalDiluptionOfPrecisionExists subr @ VerticalDiluptionOfPrecisionExists subr) of
        Inl _ \<Rightarrow> Inl (Errorf ''EGTS_SR_EXT_POS_DATA; Error writing flags'')
      | Inr flags \<Rightarrow>
          Inr ([flags] @
            flag_bytes (VerticalDiluptionOfPrecisionExists subr)
              (PutUint16 (VerticalDiluptionOfPrecision subr)) @
            flag_bytes (HorizontalDiluptionOfPrecisionExists subr)
              (PutUint16 (HorizontalDiluptionOfPrecision subr)) @
            flag_bytes (PositionDiluptionOfPrecisionExists subr)
              (PutUint16 (PositionDiluptionOfPrecision subr)) @
            flag_bytes (SatellitesExists subr) [Satellites subr] @
            flag_bytes (NavigationSystemExists subr) (PutUint16 (NavigationSystem subr))))"

definition SRExPosDataRecord_Len :: "SRExPosDataRecord option \<Rightarrow> u16" where
  "SRExPosDataRecord_Len subr = Len_of (SRExPosDataRecord_Encode subr)"

definition wf_ExPos :: "SRExPosDataRecord \<Rightarrow> bool" where
  "wf_ExPos s \<longleftrightarrow>
     list_all is_flag [NavigationSystemExists s, SatellitesExists s,
       PositionDiluptionOfPrecisionExists s, HorizontalDiluptionOfPrecisionExists s,
       VerticalDiluptionOfPrecisionExists s] \<and>
     (VerticalDiluptionOfPrecisionExists s \<noteq> ''1'' \<longrightarrow> VerticalDiluptionOfPrecision s = 0) \<and>
     (HorizontalDiluptionOfPrecisionExists s \<noteq> ''1'' \<longrightarrow> HorizontalDiluptionOfPrecision s = 0) \<and>
     (PositionDiluptionOfPrecisionExists s \<noteq> ''1'' \<longrightarrow> PositionDiluptionOfPrecision s = 0) \<and>
     (SatellitesExists s \<noteq> ''1'' \<longrightarrow> Satellites s = 0) \<and>
     (NavigationSystemExists s \<noteq> ''1'' \<longrightarrow> NavigationSystem s = 0)"

lemma ExPos_roundtrip:
  assumes "wf_ExPos s"
  shows "\<exists>bs. SRExPosDataRecord_Encode (Some s) = Inr bs \<and> SRExPosDataRecord_Decode bs = Inr s"
proof -
  have z: "is_flag ''0''" by (simp add: is_flag_def)
  have f: "is_flag (NavigationSystemExists s)" "is_flag (SatellitesExists s)"
    "is_flag (PositionDiluptionOfPrecisionExists s)"
    "is_flag (HorizontalDiluptionOfPrecisionExists s)"
    "is_flag (VerticalDiluptionOfPrecisionExists s)"
    using assms by (simp_all add: wf_ExPos_def)
  obtain w where w: "''0'' = bitstr w 7" "''0'' = bitstr w 6" "''0'' = bitstr w 5"
    "NavigationSystemExists s = bitstr w 4" "SatellitesExists s = bitstr w 3"
    "PositionDiluptionOfPrecisionExists s = bitstr w 2"
    "HorizontalDiluptionOfPrecisionExists s = bitstr w 1"
    "VerticalDiluptionOfPrecisionExists s = bitstr w 0"
    by (rule flags8 [OF z z z f])
  have "replicate 3 c = [c] @ [c] @ [c]" for c :: char by (simp add: numeral_nat)
  then have rep: "replicate 3 CHR ''0'' = bitstr w 7 @ bitstr w 6 @ bitstr w 5"
    by (simp only: w(1-3) [symmetric])
  have "parse_flags (replicate 3 CHR ''0'' @ NavigationSystemExists s @
         SatellitesExists s @ PositionDiluptionOfPrecisionExists s @
         HorizontalDiluptionOfPrecisionExists s @ VerticalDiluptionOfPrecisionExists s) = Inr w"
    by (simp only: rep w(4-) append_assoc parse_flags_bitstr)
  with assms show ?thesis
    by (simp add: wf_ExPos_def SRExPosDataRecord_Decode_def go_simps Let_def w(4-))
qed

lemma ExPos_decode_wf: "SRExPosDataRecord_Decode bs = Inr s \<Longrightarrow> wf_ExPos s"
  by (clarsimp simp: SRExPosDataRecord_Decode_def go_simps go_inv Let_def wf_ExPos_def)

interpretation ex_pos: closed_bytes_data
  SRExPosDataRecord_Decode SRExPosDataRecord_Encode wf_ExPos
  by unfold_locales (use ExPos_roundtrip ExPos_decode_wf in auto)

section \<open>EGTS\_SR\_LIQUID\_LEVEL\_SENSOR\<close>

record SRLiquidLevelSensor =
  LiquidLevelSensorNumber :: u8
  RawbFlag :: string
  LiquidLevelSensorValueUnit :: string
  LiquidLevelSensorErrorFlag :: string
  LLS_Flags :: u8
  MADDR :: u16
  LiquidLevelSensorb :: u32
  RawData :: bytes

text \<open>\<open>fmt.Sprintf("%03b", n)\<close> for the numbers of three bits the encoder lets through.\<close>

definition bits03 :: "u8 \<Rightarrow> string" where
  "bits03 n = drop 5 (bits08 n)"

definition SRLiquidLevelSensor_Decode :: "bytes \<Rightarrow> SRLiquidLevelSensor result" where
  "SRLiquidLevelSensor_Decode b =
     bindR (wrapf ''EGTS_SR_LIQUID_LEVEL_SENSOR; Error reading flags'' (ReadByte b)) (\<lambda>(flagByte, r).
     let bits = bits08 flagByte;
         llsef = substr bits 1 2; llsvu = substr bits 2 4; rdf = substr bits 4 5 in
     bindR (wrapf ''EGTS_SR_LIQUID_LEVEL_SENSOR; Error parsing LLSN'' (parse_flags (substr bits 5 8))) (\<lambda>llsn.
     bindR (wrapf ''EGTS_SR_LIQUID_LEVEL_SENSOR; Error reading MADDR'' (ReadUint16 r)) (\<lambda>(maddr, r).
     bindR
       (if rdf = ''1'' then
          (if length r < 4 \<or> length r > 512
           then Inl (Errorf ''EGTS_SR_LIQUID_LEVEL_SENSOR; Raw LLSD length must be between 4 and 512 bytes'')
           else bindR (wrapf ''EGTS_SR_LIQUID_LEVEL_SENSOR; Error reading raw LLSD'' (ReadFull (length r) r))
             (\<lambda>(raw, r). Inr (raw, 0, r)))
        else
          bindR (wrapf ''EGTS_SR_LIQUID_LEVEL_SENSOR; Error reading LLSD'' (ReadUint32 r))
            (\<lambda>(sb, r). Inr ([], sb, r))) (\<lambda>(raw, sb, r).
     if r \<noteq> [] then Inl (Errorf ''EGTS_SR_LIQUID_LEVEL_SENSOR; Unexpected trailing data'')
     else Inr \<lparr>LiquidLevelSensorNumber = llsn, RawbFlag = rdf,
       LiquidLevelSensorValueUnit = llsvu, LiquidLevelSensorErrorFlag = llsef,
       LLS_Flags = 0, MADDR = maddr, LiquidLevelSensorb = sb, RawData = raw\<rparr>))))"

fun SRLiquidLevelSensor_Encode :: "SRLiquidLevelSensor option \<Rightarrow> bytes result" where
  "SRLiquidLevelSensor_Encode None = Inl (Errorf ''SRLiquidLevelSensor; Subrecord is nil'')"
| "SRLiquidLevelSensor_Encode (Some subr) =
     (if LiquidLevelSensorNumber subr > 7
      then Inl (Errorf ''EGTS_SR_LIQUID_LEVEL_SENSOR; LLSN must be between 0 and 7'')
      else if \<not> is_flag (RawbFlag subr)
      then Inl (Errorf ''EGTS_SR_LIQUID_LEVEL_SENSOR; Invalid RDF flag'')
      else if \<not> is_flag (LiquidLevelSensorErrorFlag subr)
      then Inl (Errorf ''EGTS_SR_LIQUID_LEVEL_SENSOR; Invalid LLSEF flag'')
      else if length (LiquidLevelSensorValueUnit subr) \<noteq> 2
      then Inl (Errorf ''EGTS_SR_LIQUID_LEVEL_SENSOR; LLSVU must contain 2 bits'')
      else if RawbFlag subr = ''1'' \<and> (length (RawData subr) < 4 \<or> length (RawData subr) > 512)
      then Inl (Errorf ''EGTS_SR_LIQUID_LEVEL_SENSOR; Raw LLSD length must be between 4 and 512 bytes'')
      else
        bindR (wrapf ''EGTS_SR_LIQUID_LEVEL_SENSOR; Error parsing flags''
          (parse_flags (''0'' @ LiquidLevelSensorErrorFlag subr @ LiquidLevelSensorValueUnit subr @
             RawbFlag subr @ bits03 (LiquidLevelSensorNumber subr)))) (\<lambda>flags.
        Inr ([flags] @ PutUint16 (MADDR subr) @
          (if RawbFlag subr = ''1'' then RawData subr else PutUint32 (LiquidLevelSensorb subr)))))"

definition SRLiquidLevelSensor_Len :: "SRLiquidLevelSensor option \<Rightarrow> u16" where
  "SRLiquidLevelSensor_Len subr = Len_of (SRLiquidLevelSensor_Encode subr)"

text \<open>
  \<open>Flags\<close> is not coded at all, so it has to be 0 to survive; the two forms of the reading
  exclude each other.
\<close>

definition wf_LiquidLevel :: "SRLiquidLevelSensor \<Rightarrow> bool" where
  "wf_LiquidLevel s \<longleftrightarrow>
     LiquidLevelSensorNumber s \<le> 7 \<and> is_flag (RawbFlag s) \<and>
     is_flag (LiquidLevelSensorErrorFlag s) \<and>
     length (LiquidLevelSensorValueUnit s) = 2 \<and>
     set (LiquidLevelSensorValueUnit s) \<subseteq> {CHR ''0'', CHR ''1''} \<and>
     LLS_Flags s = 0 \<and>
     (if RawbFlag s = ''1''
      then 4 \<le> length (RawData s) \<and> length (RawData s) \<le> 512 \<and> LiquidLevelSensorb s = 0
      else RawData s = [])"

lemma bits03_low: "bits03 b = bitstr b 2 @ bitstr b 1 @ bitstr b 0"
  by (simp add: bits03_def bits08_bitstr bitstr_def numeral_nat)

lemma u8_le7: "n \<le> (7 :: u8) \<Longrightarrow> n \<in> {0, 1, 2, 3, 4, 5, 6, 7}"
proof -
  assume "n \<le> 7"
  then have "unat n < 8" by (simp add: word_le_nat_alt)
  then have "unat n \<in> {0, 1, 2, 3, 4, 5, 6, 7}" by force
  then have "word_of_nat (unat n) \<in> (word_of_nat ` {0, 1, 2, 3, 4, 5, 6, 7} :: u8 set)"
    by (rule imageI)
  then show ?thesis by simp
qed

lemma parse_bits03: "n \<le> 7 \<Longrightarrow> parse_flags (bits03 n) = Inr n"
  by (drule u8_le7)
    (auto simp: bits03_def bits08_def parse_flags_def ParseUint_def digit_val_def bitc_def bit_0)

lemma and_7_le: "b AND 7 \<le> (7 :: u8)"
  by (rule word_and_le1)

lemma bits03_and_7: "bits03 (b AND 7) = bitstr b 2 @ bitstr b 1 @ bitstr b 0"
  by (simp add: bits03_low bitstr_def bit_simps)

lemma parse_low3: "parse_flags (bitstr b 2 @ bitstr b 1 @ bitstr b 0) = Inr (b AND 7)"
  using parse_bits03 [OF and_7_le, of b] by (simp only: bits03_and_7)

lemma LiquidLevel_flags:
  assumes "wf_LiquidLevel s"
  obtains w where
    "''0'' @ LiquidLevelSensorErrorFlag s @ LiquidLevelSensorValueUnit s @ RawbFlag s @
       bits03 (LiquidLevelSensorNumber s) = bits08 w"
    "LiquidLevelSensorErrorFlag s = bitstr w 6"
    "LiquidLevelSensorValueUnit s = bitstr w 5 @ bitstr w 4" "RawbFlag s = bitstr w 3"
    "bits03 (LiquidLevelSensorNumber s) = bitstr w 2 @ bitstr w 1 @ bitstr w 0"
proof -
  obtain u v where uv: "LiquidLevelSensorValueUnit s = [u] @ [v]" "is_flag [u]" "is_flag [v]"
    using assms by (auto simp: wf_LiquidLevel_def is_flag_def dest!: length_2D)
  let ?n = "LiquidLevelSensorNumber s"
  have z: "is_flag ''0''" by (simp add: is_flag_def)
  have f: "is_flag (LiquidLevelSensorErrorFlag s)" "is_flag (RawbFlag s)"
    using assms by (simp_all add: wf_LiquidLevel_def)
  obtain w where w: "''0'' = bitstr w 7" "LiquidLevelSensorErrorFlag s = bitstr w 6"
    "[u] = bitstr w 5" "[v] = bitstr w 4" "RawbFlag s = bitstr w 3" "bitstr ?n 2 = bitstr w 2"
    "bitstr ?n 1 = bitstr w 1" "bitstr ?n 0 = bitstr w 0"
    by (rule flags8 [OF z f(1) uv(2,3) f(2) bitstr_is_flag bitstr_is_flag bitstr_is_flag])
  show thesis
    by (rule that [of w]) (simp_all only: bits08_bitstr w(1) uv(1) w(2-8) bits03_low append_assoc)
qed

lemma LiquidLevel_roundtrip:
  assumes "wf_LiquidLevel s"
  shows "\<exists>bs. SRLiquidLevelSensor_Encode (Some s) = Inr bs \<and> SRLiquidLevelSensor_Decode bs = Inr s"
proof -
  from LiquidLevel_flags [OF assms] obtain w where w:
    "''0'' @ LiquidLevelSensorErrorFlag s @ LiquidLevelSensorValueUnit s @ RawbFlag s @
       bits03 (LiquidLevelSensorNumber s) = bits08 w"
    "LiquidLevelSensorErrorFlag s = bitstr w 6"
    "LiquidLevelSensorValueUnit s = bitstr w 5 @ bitstr w 4" "RawbFlag s = bitstr w 3"
    "bits03 (LiquidLevelSensorNumber s) = bitstr w 2 @ bitstr w 1 @ bitstr w 0"
    by blast
  let ?bs = "[w] @ PutUint16 (MADDR s) @
    (if RawbFlag s = ''1'' then RawData s else PutUint32 (LiquidLevelSensorb s))"
  have le: "LiquidLevelSensorNumber s \<le> 7" using assms by (simp add: wf_LiquidLevel_def)
  have "SRLiquidLevelSensor_Encode (Some s) = Inr ?bs"
    using assms
    by (auto simp: wf_LiquidLevel_def w(1) [simplified] parse_flags_bits08 not_less not_le)
  moreover have n: "parse_flags (bitstr w 2 @ bitstr w 1 @ bitstr w 0) = Inr (LiquidLevelSensorNumber s)"
    using parse_bits03 [OF le] by (simp only: w(5))
  have "SRLiquidLevelSensor_Decode ?bs = Inr s"
    using assms
    by (auto simp: SRLiquidLevelSensor_Decode_def wf_LiquidLevel_def n [unfolded One_nat_def] Let_def
        w(2-4) go_simps not_less)
  ultimately show ?thesis by blast
qed

lemma LiquidLevel_decode_wf: "SRLiquidLevelSensor_Decode bs = Inr s \<Longrightarrow> wf_LiquidLevel s"
  by (cases "bs = [] \<or> bit (hd bs) 3")
    (auto simp: SRLiquidLevelSensor_Decode_def go_simps go_inv Let_def parse_low3 [unfolded One_nat_def],
      simp_all add: wf_LiquidLevel_def and_7_le)

interpretation liquid_level: closed_bytes_data
  SRLiquidLevelSensor_Decode SRLiquidLevelSensor_Encode wf_LiquidLevel
  by unfold_locales (use LiquidLevel_roundtrip LiquidLevel_decode_wf in auto)

end
