(* ===== verification/Go_Float.thy ===== *)
theory Go_Float
  imports Complex_Main "HOL-Library.Log_Nat" Go_Prelude
begin

text \<open>
  Go's \<open>float32\<close> and \<open>float64\<close> as far as the subrecords use them. A finite float is its rational
  value, and an operation is the exact rational one rounded to the nearest value with a mantissa
  of \<open>p\<close> bits, ties to even (\<open>p = 24\<close> for \<open>float32\<close> and \<open>p = 53\<close> for \<open>float64\<close>). The exponent is
  unbounded: the magnitudes the code computes with lie between \<open>2^-30\<close> and \<open>2^64\<close>, far inside
  the normal range of both formats. Infinities and NaN, which no decoder produces, are not
  values of the model, and the two zeros are one.
\<close>

section \<open>Rounding\<close>

definition rne :: "rat \<Rightarrow> int" where
  "rne x = (let f = \<lfloor>x\<rfloor>; d = x - of_int f in
     if d < 1 / 2 then f else if d > 1 / 2 then f + 1 else if even f then f else f + 1)"

lemma rne_error: "\<bar>of_int (rne x) - x\<bar> \<le> 1 / 2"
proof -
  have "of_int \<lfloor>x\<rfloor> \<le> x" "x < of_int \<lfloor>x\<rfloor> + 1" by linarith+
  then show ?thesis
    unfolding rne_def Let_def abs_le_iff by (simp split: if_splits) linarith
qed

lemma rne_of_int [simp]: "rne (of_int n) = n"
  by (simp add: rne_def)

lemma rne_nonneg: "0 \<le> x \<Longrightarrow> 0 \<le> rne x"
  by (auto simp: rne_def Let_def)

text \<open>The binary exponent: \<open>2^e \<le> x < 2^(e+1)\<close> for \<open>e = fexp x\<close>.\<close>

definition fexp :: "rat \<Rightarrow> int" where
  "fexp x = (if 1 \<le> x then int (floorlog 2 (nat \<lfloor>x\<rfloor>)) - 1
             else - int (floorlog 2 (nat (\<lceil>1 / x\<rceil> - 1))))"

lemma fexp_bounds:
  assumes "0 < x"
  shows "2 powi fexp x \<le> x" "x < 2 powi (fexp x + 1)"
proof -
  have "2 powi fexp x \<le> x \<and> x < 2 powi (fexp x + 1)"
  proof (cases "1 \<le> x")
    case True
    define m where "m = nat \<lfloor>x\<rfloor>"
    define k where "k = floorlog 2 m"
    from True have m: "0 < m" "int m = \<lfloor>x\<rfloor>" by (simp_all add: m_def)
    have "1 < (2 :: nat)" by simp
    note b = floorlog_bounds [OF m(1) this, folded k_def]
    have "0 < k"
      by (rule ccontr) (use m(1) in \<open>simp add: k_def floorlog_eq_zero_iff\<close>)
    have "int (2 ^ (k - 1)) \<le> int m" "int m < int (2 ^ k)"
      using b by (simp_all only: of_nat_le_iff of_nat_less_iff)
    then have "2 ^ (k - 1) \<le> x" "x < 2 ^ k"
      unfolding m(2) le_floor_iff floor_less_iff by simp_all
    moreover have "fexp x = int k - 1" using True by (simp add: fexp_def k_def m_def)
    moreover obtain j where "k = Suc j" using \<open>0 < k\<close> by (cases k) simp_all
    ultimately show ?thesis by (simp add: power_int_add)
  next
    case False
    define y where "y = 1 / x"
    define m where "m = nat (\<lceil>y\<rceil> - 1)"
    define k where "k = floorlog 2 m"
    from False assms have "1 < y" by (simp add: y_def)
    then have m: "0 < m" "int m = \<lceil>y\<rceil> - 1" by (simp_all add: m_def)
    have "1 < (2 :: nat)" by simp
    note b = floorlog_bounds [OF m(1) this, folded k_def]
    have "0 < k"
      by (rule ccontr) (use m(1) in \<open>simp add: k_def floorlog_eq_zero_iff\<close>)
    have "int (2 ^ (k - 1)) \<le> int m" "int m < int (2 ^ k)"
      using b by (simp_all only: of_nat_le_iff of_nat_less_iff)
    then have "int (2 ^ (k - 1)) < \<lceil>y\<rceil>" "\<lceil>y\<rceil> \<le> int (2 ^ k)"
      using m(2) by linarith+
    then have "2 ^ (k - 1) < y" "y \<le> 2 ^ k"
      unfolding less_ceiling_iff ceiling_le_iff by simp_all
    then have "x < 1 / 2 ^ (k - 1)" "1 / 2 ^ k \<le> x" using assms by (simp_all add: y_def field_simps)
    moreover have e: "fexp x = - int k" using False by (simp add: fexp_def k_def m_def y_def)
    moreover have "2 powi fexp x = (1 / 2 ^ k :: rat)"
      unfolding e power_int_minus by (simp add: divide_inverse)
    moreover have "fexp x + 1 = - int (k - 1)" using e \<open>0 < k\<close> by simp
    then have "2 powi (fexp x + 1) = (1 / 2 ^ (k - 1) :: rat)"
      by (simp only: power_int_minus) (simp add: divide_inverse)
    ultimately show ?thesis by simp
  qed
  then show "2 powi fexp x \<le> x" "x < 2 powi (fexp x + 1)" by simp_all
qed

definition fround :: "nat \<Rightarrow> rat \<Rightarrow> rat" where
  "fround p x = (if x = 0 then 0
     else let q = 2 powi (fexp \<bar>x\<bar> - int p + 1) in of_int (rne (x / q)) * q)"

abbreviation f32 :: "rat \<Rightarrow> rat" where "f32 \<equiv> fround 24"
abbreviation f64 :: "rat \<Rightarrow> rat" where "f64 \<equiv> fround 53"

lemma fround_0 [simp]: "fround p 0 = 0"
  by (simp add: fround_def)

lemma fround_error: "\<bar>fround p x - x\<bar> \<le> \<bar>x\<bar> / 2 ^ p"
proof (cases "x = 0")
  case False
  define q :: rat where "q = 2 powi (fexp \<bar>x\<bar> - int p + 1)"
  have q: "0 < q" by (simp add: q_def)
  have "fround p x - x = (of_int (rne (x / q)) - x / q) * q"
    unfolding fround_def q_def [symmetric] Let_def using False q by (simp add: field_simps)
  then have "\<bar>fround p x - x\<bar> \<le> 1 / 2 * q"
    using rne_error [of "x / q"] q by (simp add: abs_mult)
  also have "1 / 2 * q = 2 powi fexp \<bar>x\<bar> / 2 ^ p"
    by (simp add: q_def power_int_add power_int_diff)
  also have "\<dots> \<le> \<bar>x\<bar> / 2 ^ p"
    using fexp_bounds(1) [of "\<bar>x\<bar>"] False by (simp add: divide_right_mono)
  finally show ?thesis .
qed simp

lemma fround_nonneg: "0 \<le> x \<Longrightarrow> 0 \<le> fround p x"
  by (simp add: fround_def Let_def rne_nonneg)

text \<open>Integers that fit the mantissa are exact.\<close>

lemma fround_of_int:
  assumes "\<bar>n\<bar> < 2 ^ p"
  shows "fround p (of_int n) = of_int n"
proof (cases "n = 0")
  case False
  let ?e = "fexp \<bar>of_int n\<bar>"
  have "2 powi ?e \<le> \<bar>of_int n :: rat\<bar>" using False by (intro fexp_bounds) simp
  also have "\<bar>of_int n\<bar> < (2 ^ p :: rat)"
    using assms by (metis of_int_abs of_int_less_iff of_int_numeral of_int_power)
  finally have "(2 :: rat) powi ?e < 2 powi int p" by (simp add: power_int_def)
  then have "?e < int p" by (rule power_int_le_imp_less_exp [rotated]) simp_all
  then have k: "?e - int p + 1 = - int (nat (int p - 1 - ?e))" by simp
  define k where "k = nat (int p - 1 - ?e)"
  note k = k [folded k_def]
  have "of_int n / 2 powi - int k = (of_int (n * 2 ^ k) :: rat)"
    by (simp add: power_int_minus divide_inverse)
  then have "fround p (of_int n) = of_int (n * 2 ^ k) * 2 powi - int k"
    using False by (simp add: fround_def k Let_def flip: of_int_mult)
  then show ?thesis by (simp add: power_int_minus)
qed simp

section \<open>Conversions\<close>

text \<open>
  \<open>uint32(f)\<close> truncates. Out of range the result depends on the implementation; the model has
  what amd64 does, which converts to \<open>int64\<close> (the least value when that overflows) and keeps
  the low 32 bits.
\<close>

definition ftrunc :: "rat \<Rightarrow> int" where
  "ftrunc x = (if 0 \<le> x then \<lfloor>x\<rfloor> else \<lceil>x\<rceil>)"

definition uint32_of_float :: "rat \<Rightarrow> u32" where
  "uint32_of_float x =
     (let t = ftrunc x in word_of_int (if - (2 ^ 63) \<le> t \<and> t < 2 ^ 63 then t else - (2 ^ 63)))"

lemma uint32_of_float_nonneg:
  "0 \<le> x \<Longrightarrow> x < 2 ^ 63 \<Longrightarrow> uint32_of_float x = word_of_int \<lfloor>x\<rfloor>"
  by (auto simp: uint32_of_float_def ftrunc_def Let_def floor_less_iff not_less le_floor_iff)

text \<open>Evaluating a rounding: the exponent and the mantissa are given.\<close>

lemma fexp_eqI:
  assumes "2 powi e \<le> x" "x < 2 powi (e + 1)"
  shows "fexp x = e"
proof -
  have x: "0 < x" using assms(1) zero_less_power_int [of "2 :: rat" e] by linarith
  note b = fexp_bounds [OF x]
  have "e < fexp x + 1"
    by (rule ccontr) (use power_int_increasing [of "fexp x + 1" e "2 :: rat"] assms(1) b in simp)
  moreover have "fexp x < e + 1"
    by (rule ccontr) (use power_int_increasing [of "e + 1" "fexp x" "2 :: rat"] assms(2) b in simp)
  ultimately show ?thesis by simp
qed

lemma rne_eqI: "\<bar>x - of_int m\<bar> < 1 / 2 \<Longrightarrow> rne x = m"
  using rne_error [of x] by linarith

lemma fround_eqI:
  assumes "2 powi e \<le> x" "x < 2 powi (e + 1)" "\<bar>x / 2 powi (e - int p + 1) - of_int m\<bar> < 1 / 2"
  shows "fround p x = of_int m * 2 powi (e - int p + 1)"
proof -
  have "0 < x" using assms(1) zero_less_power_int [of "2 :: rat" e] by linarith
  then show ?thesis using fexp_eqI [OF assms(1,2)] rne_eqI [OF assms(3)] by (simp add: fround_def Let_def)
qed

section \<open>time.Time\<close>

text \<open>
  A \<open>time.Time\<close> is the number of nanoseconds since 2010-01-01 00:00:00 UTC, the protocol's epoch.
  \<open>Sub\<close> saturates at the bounds of \<open>int64\<close>, and \<open>Seconds\<close> adds the whole seconds and the
  fraction in \<open>float64\<close>. \<open>timestamp.Add(time.Duration(n) * time.Second)\<close> of a 32-bit \<open>n\<close> does not
  overflow.
\<close>

type_synonym gotime = int

definition time_of_seconds :: "u32 \<Rightarrow> gotime" where
  "time_of_seconds n = uint n * 10 ^ 9"

definition Sub_epoch :: "gotime \<Rightarrow> int" where
  "Sub_epoch t = max (- (2 ^ 63)) (min (2 ^ 63 - 1) t)"

lemma Sub_epoch_eq: "- (2 ^ 63) \<le> t \<Longrightarrow> t < 2 ^ 63 \<Longrightarrow> Sub_epoch t = t"
  by (simp add: Sub_epoch_def)

text \<open>Go's division truncates toward zero.\<close>

definition Seconds :: "int \<Rightarrow> rat" where
  "Seconds d =
     (let sec = sgn d * (\<bar>d\<bar> div 10 ^ 9); nsec = sgn d * (\<bar>d\<bar> mod 10 ^ 9)
      in f64 (of_int sec + f64 (of_int nsec / 10 ^ 9)))"

definition seconds_of_time :: "gotime \<Rightarrow> u32" where
  "seconds_of_time t = uint32_of_float (Seconds (Sub_epoch t))"

lemma seconds_of_time_of_seconds [simp]: "seconds_of_time (time_of_seconds n) = n"
proof -
  define N where "N = uint n"
  have n: "0 \<le> N" "N < 4294967296"
    using unsigned_less [of n, where 'a = int] by (simp_all add: N_def)
  have "Sub_epoch (time_of_seconds n) = N * 10 ^ 9"
    unfolding time_of_seconds_def N_def [symmetric] by (rule Sub_epoch_eq) (use n in simp_all)
  then have "Seconds (Sub_epoch (time_of_seconds n)) = f64 (of_int (N))"
    using n by (cases "N = 0") (simp_all add: Seconds_def Let_def sgn_mult abs_mult)
  also have "\<dots> = of_int (N)"
    using n by (intro fround_of_int) simp
  finally have "seconds_of_time (time_of_seconds n) = uint32_of_float (of_int (N))"
    by (simp add: seconds_of_time_def)
  also have "\<dots> = word_of_int (N)"
  proof -
    have "(of_int (N) :: rat) < of_int (2 ^ 63)"
      using n(2) by (subst of_int_less_iff) simp
    then show ?thesis using n uint32_of_float_nonneg [of "of_int (N)"] by simp
  qed
  finally show ?thesis by (simp add: N_def)
qed

end
