(* ===== verification/Sub_Telemetry.thy ===== *)
theory Sub_Telemetry
  imports Bytes_Data Go_Float
begin

text \<open>
  The subrecords with computed values: \<open>egts/subrecord/sr_state_data.go\<close>,
  \<open>sr_acceleration_data.go\<close> and \<open>sr_pos_data.go\<close>, and the bit fields of \<open>egts/utils/utils.go\<close>.
  The coordinates of a position are computed in \<open>float64\<close> and truncated when they are written
  again, so a position is only kept to within one unit of its 32-bit coordinates.
\<close>

section \<open>Bit fields\<close>

text \<open>
  \<open>BitField\<close> returns an \<open>interface\{\}\<close> that holds a \<open>bool\<close> for one index and an \<open>int\<close> otherwise. An
  index outside the table of 16 powers panics, which is \<open>None\<close> here.
\<close>

datatype bit_field = BF_bool bool | BF_int int

fun bitField_sum :: "int list \<Rightarrow> nat option" where
  "bitField_sum [] = Some 0"
| "bitField_sum (l # ls) =
     (if l < 0 \<or> 16 \<le> l then None
      else case bitField_sum ls of None \<Rightarrow> None | Some s \<Rightarrow> Some (2 ^ nat l + s))"

definition BitField :: "u16 \<Rightarrow> int list \<Rightarrow> bit_field option" where
  "BitField b is =
     (case bitField_sum is of
        None \<Rightarrow> None
      | Some s \<Rightarrow>
          (let bb = b AND word_of_nat s in
           case is of
             [i] \<Rightarrow> Some (BF_bool (drop_bit (nat i) (bb AND push_bit (nat i) 1) \<noteq> 0))
           | _ \<Rightarrow> Some (BF_int (uint bb))))"

definition SetBit :: "int \<Rightarrow> nat \<Rightarrow> int \<Rightarrow> int" where
  "SetBit n pos val = n OR push_bit pos val"

lemma BitField_single: "i < 16 \<Longrightarrow> BitField b [int i] = Some (BF_bool (bit b i))"
proof -
  assume "i < 16"
  have "b AND word_of_nat (2 ^ i) AND push_bit i 1 = (if bit b i then push_bit i 1 else 0)"
    by (rule bit_word_eqI) (auto simp: bit_simps push_bit_eq_mult)
  moreover have "drop_bit i (push_bit i 1 :: u16) \<noteq> 0"
  proof -
    have "bit (drop_bit i (push_bit i 1 :: u16)) 0"
      using \<open>i < 16\<close> by (simp add: bit_simps)
    then show ?thesis by (metis bit_0_eq bot_apply bot_bool_def)
  qed
  ultimately show ?thesis using \<open>i < 16\<close> by (simp add: BitField_def Let_def)
qed

lemma BitField_low14:
  "BitField b [0, 1, 2, 3, 4, 5, 6, 7, 8, 9, 10, 11, 12, 13] = Some (BF_int (uint (take_bit 14 b)))"
  by (simp add: BitField_def Let_def take_bit_eq_mask mask_eq_exp_minus_1)

section \<open>EGTS\_SR\_STATE\_DATA\<close>

record SRStateData =
  State :: string
  StateByte :: u8
  NavigationModuleEnable :: string
  InternalBatteryEnable :: string
  BackupBatteryEnable :: string
  MainPowerSourceVoltage :: rat
  BackupBatteryVoltage :: rat
  InternalBatteryVoltage :: rat
  MainPowerSourceVoltageByte :: u8
  BackupBatteryVoltageByte :: u8
  InternalBatteryVoltageByte :: u8

definition states :: "string list" where
  "states = [''Idle'', ''EraGlonass'', ''Active'', ''EmergencyCall'', ''EmergencyMonitor'',
     ''Testing'', ''Service'', ''FirmwareUpdate'']"

text \<open>\<open>float32(b) * 0.1\<close>: the constant is rounded to \<open>float32\<close> first.\<close>

definition voltage :: "u8 \<Rightarrow> rat" where
  "voltage b = f32 (f32 (of_int (uint b)) * f32 (1 / 10))"

definition SRStateData_Decode :: "bytes \<Rightarrow> SRStateData result" where
  "SRStateData_Decode b =
     bindR (wrapf ''EGTS_SR_STATE_DATA; Error reading ST'' (ReadByte b)) (\<lambda>(st, r).
     if st \<ge> 8 then Inl (Errorf ''EGTS_SR_STATE_DATA; Such ST does not exists'')
     else
     bindR (wrapf ''EGTS_SR_STATE_DATA; Error reading MPSV'' (ReadByte r)) (\<lambda>(mpsv, r).
     bindR (wrapf ''EGTS_SR_STATE_DATA; Error reading BBV'' (ReadByte r)) (\<lambda>(bbv, r).
     bindR (wrapf ''EGTS_SR_STATE_DATA; Error reading IBV'' (ReadByte r)) (\<lambda>(ibv, r).
     bindR (wrapf ''EGTS_SR_STATE_DATA; Error reading flags'' (ReadByte r)) (\<lambda>(flagByte, r).
     let bits = bits08 flagByte in
     if r \<noteq> [] then Inl (Errorf ''EGTS_SR_STATE_DATA; Unexpected trailing data'')
     else Inr \<lparr>State = states ! unat st, StateByte = st,
       NavigationModuleEnable = substr bits 5 6,
       InternalBatteryEnable = substr bits 6 7,
       BackupBatteryEnable = substr bits 7 8,
       MainPowerSourceVoltage = voltage mpsv,
       BackupBatteryVoltage = voltage bbv,
       InternalBatteryVoltage = voltage ibv,
       MainPowerSourceVoltageByte = mpsv,
       BackupBatteryVoltageByte = bbv,
       InternalBatteryVoltageByte = ibv\<rparr>)))))"

fun SRStateData_Encode :: "SRStateData option \<Rightarrow> bytes result" where
  "SRStateData_Encode None = Inl (Errorf ''SRStateData; Subrecord is nil'')"
| "SRStateData_Encode (Some subr) =
     (if StateByte subr \<ge> 8 then Inl (Errorf ''EGTS_SR_STATE_DATA; Such ST does not exists'')
      else if \<not> is_flag (NavigationModuleEnable subr)
      then Inl (Errorf ''EGTS_SR_STATE_DATA; Invalid NMS flag'')
      else if \<not> is_flag (InternalBatteryEnable subr)
      then Inl (Errorf ''EGTS_SR_STATE_DATA; Invalid IBU flag'')
      else if \<not> is_flag (BackupBatteryEnable subr)
      then Inl (Errorf ''EGTS_SR_STATE_DATA; Invalid BBU flag'')
      else
        bindR (wrapf ''EGTS_SR_STATE_DATA; Error parsing flags''
          (parse_flags (replicate 5 CHR ''0'' @ NavigationModuleEnable subr @
             InternalBatteryEnable subr @ BackupBatteryEnable subr))) (\<lambda>flags.
        Inr [StateByte subr, MainPowerSourceVoltageByte subr, BackupBatteryVoltageByte subr,
             InternalBatteryVoltageByte subr, flags]))"

definition SRStateData_Len :: "SRStateData option \<Rightarrow> u16" where
  "SRStateData_Len subr = Len_of (SRStateData_Encode subr)"

text \<open>The text and the three voltages are functions of the coded bytes.\<close>

definition wf_StateData :: "SRStateData \<Rightarrow> bool" where
  "wf_StateData s \<longleftrightarrow>
     StateByte s < 8 \<and> State s = states ! unat (StateByte s) \<and>
     is_flag (NavigationModuleEnable s) \<and> is_flag (InternalBatteryEnable s) \<and>
     is_flag (BackupBatteryEnable s) \<and>
     MainPowerSourceVoltage s = voltage (MainPowerSourceVoltageByte s) \<and>
     BackupBatteryVoltage s = voltage (BackupBatteryVoltageByte s) \<and>
     InternalBatteryVoltage s = voltage (InternalBatteryVoltageByte s)"

lemma StateData_roundtrip:
  assumes "wf_StateData s"
  shows "\<exists>bs. SRStateData_Encode (Some s) = Inr bs \<and> SRStateData_Decode bs = Inr s"
proof -
  have z: "is_flag ''0''" by simp
  have f: "is_flag (NavigationModuleEnable s)" "is_flag (InternalBatteryEnable s)"
    "is_flag (BackupBatteryEnable s)"
    using assms by (simp_all add: wf_StateData_def)
  obtain w where w: "''0'' = bitstr w 7" "''0'' = bitstr w 6" "''0'' = bitstr w 5"
    "''0'' = bitstr w 4" "''0'' = bitstr w 3" "NavigationModuleEnable s = bitstr w 2"
    "InternalBatteryEnable s = bitstr w 1" "BackupBatteryEnable s = bitstr w 0"
    by (rule flags8 [OF z z z z z f])
  have "replicate 5 c = [c] @ [c] @ [c] @ [c] @ [c]" for c :: char by (simp add: numeral_nat)
  then have rep: "replicate 5 CHR ''0'' =
      bitstr w 7 @ bitstr w 6 @ bitstr w 5 @ bitstr w 4 @ bitstr w 3"
    by (simp only: w(1-5) [symmetric])
  have "parse_flags (replicate 5 CHR ''0'' @ NavigationModuleEnable s @
      InternalBatteryEnable s @ BackupBatteryEnable s) = Inr w"
    by (simp only: rep w(6-) append_assoc parse_flags_bitstr)
  with assms show ?thesis
    by (simp add: wf_StateData_def SRStateData_Decode_def go_simps Let_def w(6-) not_le)
qed

lemma StateData_decode_wf: "SRStateData_Decode bs = Inr s \<Longrightarrow> wf_StateData s"
  by (clarsimp simp: SRStateData_Decode_def go_simps go_inv Let_def wf_StateData_def not_le)

interpretation state_data: closed_bytes_data SRStateData_Decode SRStateData_Encode wf_StateData
  by unfold_locales (use StateData_roundtrip StateData_decode_wf in auto)

section \<open>EGTS\_SR\_ACCEL\_DATA\<close>

record SRAccelerationData =
  RTM :: u16
  XAAV :: i16
  YAAV :: i16
  ZAAV :: i16

text \<open>\<open>int16(x)\<close> of a \<open>uint16\<close> keeps the bits.\<close>

definition SRAccelerationData_Decode :: "bytes \<Rightarrow> SRAccelerationData result" where
  "SRAccelerationData_Decode b =
     bindR (wrapf ''EGTS_SR_ACCEL_DATA; Error reading RTM'' (ReadUint16 b)) (\<lambda>(rtm, r).
     bindR (wrapf ''EGTS_SR_ACCEL_DATA; Error reading XAAV'' (ReadUint16 r)) (\<lambda>(x, r).
     bindR (wrapf ''EGTS_SR_ACCEL_DATA; Error reading YAAV'' (ReadUint16 r)) (\<lambda>(y, r).
     bindR (wrapf ''EGTS_SR_ACCEL_DATA; Error reading ZAAV'' (ReadUint16 r)) (\<lambda>(z, r).
     if r \<noteq> [] then Inl (Errorf ''EGTS_SR_ACCEL_DATA; Unexpected trailing data in ADS'')
     else Inr \<lparr>RTM = rtm, XAAV = x, YAAV = y, ZAAV = z\<rparr>))))"

fun SRAccelerationData_Encode :: "SRAccelerationData option \<Rightarrow> bytes result" where
  "SRAccelerationData_Encode None = Inl (Errorf ''SRAccelerationData; Subrecord is nil'')"
| "SRAccelerationData_Encode (Some subr) =
     Inr (PutUint16 (RTM subr) @ PutUint16 (XAAV subr) @ PutUint16 (YAAV subr) @
       PutUint16 (ZAAV subr))"

definition SRAccelerationData_Len :: "SRAccelerationData option \<Rightarrow> u16" where
  "SRAccelerationData_Len subr = Len_of (SRAccelerationData_Encode subr)"

interpretation acceleration: exact_bytes_data
  SRAccelerationData_Decode SRAccelerationData_Encode "\<lambda>_. True"
proof
  fix s :: SRAccelerationData and bs
  show "\<exists>bs. SRAccelerationData_Encode (Some s) = Inr bs \<and> SRAccelerationData_Decode bs = Inr s"
    by (simp add: SRAccelerationData_Decode_def go_simps)
  assume "SRAccelerationData_Decode bs = Inr s"
  then show "SRAccelerationData_Encode (Some s) = Inr bs"
    by (auto simp: SRAccelerationData_Decode_def go_inv)
qed simp_all

record SRAccelerationHeader =
  StructuresAmount :: u8
  AbsoluteTimeUint :: u32
  AbsoluteTime :: gotime
  AccelerationData :: "SRAccelerationData option list"

fun read_ADS :: "nat \<Rightarrow> bytes \<Rightarrow> (SRAccelerationData option list \<times> bytes) result" where
  "read_ADS 0 r = Inr ([], r)"
| "read_ADS (Suc n) r =
     bindR (wrapf ''EGTS_SR_ACCEL_DATA; Error reading ADS%d'' (ReadFull 8 r)) (\<lambda>(bb, r).
     bindR (wrapf ''EGTS_SR_ACCEL_DATA; ADS%d'' (SRAccelerationData_Decode bb)) (\<lambda>ads.
     bindR (read_ADS n r) (\<lambda>(rest, r). Inr (Some ads # rest, r))))"

fun write_ADS :: "SRAccelerationData option list \<Rightarrow> bytes result" where
  "write_ADS [] = Inr []"
| "write_ADS (None # srs) = Inl (Errorf ''EGTS_SR_ACCEL_DATA; ADS%d is nil'')"
| "write_ADS (Some sr # srs) =
     bindR (wrapf ''EGTS_SR_ACCEL_DATA; ADS%d'' (SRAccelerationData_Encode (Some sr))) (\<lambda>rd.
     bindR (write_ADS srs) (\<lambda>bs. Inr (rd @ bs)))"

definition SRAccelerationHeader_Decode :: "bytes \<Rightarrow> SRAccelerationHeader result" where
  "SRAccelerationHeader_Decode b =
     bindR (wrapf ''EGTS_SR_ACCEL_DATA; Error reading SA'' (ReadByte b)) (\<lambda>(sa, r).
     if sa = 0 then Inl (Errorf ''EGTS_SR_ACCEL_DATA; SA must be greater than zero'')
     else
     bindR (wrapf ''EGTS_SR_ACCEL_DATA; Error reading ATM'' (ReadUint32 r)) (\<lambda>(atm, r).
     if length r \<noteq> unat sa * 8 then Inl (Errorf ''EGTS_SR_ACCEL_DATA; Data length does not match SA'')
     else
     bindR (read_ADS (unat sa) r) (\<lambda>(ads, r).
     Inr \<lparr>StructuresAmount = sa, AbsoluteTimeUint = atm,
       AbsoluteTime = time_of_seconds atm, AccelerationData = ads\<rparr>)))"

fun SRAccelerationHeader_Encode :: "SRAccelerationHeader option \<Rightarrow> bytes result" where
  "SRAccelerationHeader_Encode None = Inl (Errorf ''SRAccelerationHeader; Subrecord is nil'')"
| "SRAccelerationHeader_Encode (Some subr) =
     (if StructuresAmount subr = 0
      then Inl (Errorf ''EGTS_SR_ACCEL_DATA; SA must be greater than zero'')
      else if unat (StructuresAmount subr) \<noteq> length (AccelerationData subr)
      then Inl (Errorf ''EGTS_SR_ACCEL_DATA; Number of ADS does not match SA'')
      else
        bindR (write_ADS (AccelerationData subr)) (\<lambda>ads.
        Inr ([StructuresAmount subr] @ PutUint32 (seconds_of_time (AbsoluteTime subr)) @ ads)))"

definition SRAccelerationHeader_Len :: "SRAccelerationHeader option \<Rightarrow> u16" where
  "SRAccelerationHeader_Len subr = Len_of (SRAccelerationHeader_Encode subr)"

text \<open>The time is the whole number of seconds it is coded as, and every structure is there.\<close>

definition wf_Acceleration :: "SRAccelerationHeader \<Rightarrow> bool" where
  "wf_Acceleration s \<longleftrightarrow>
     StructuresAmount s \<noteq> 0 \<and> unat (StructuresAmount s) = length (AccelerationData s) \<and>
     AbsoluteTime s = time_of_seconds (AbsoluteTimeUint s) \<and>
     list_all (\<lambda>a. a \<noteq> None) (AccelerationData s)"

definition ADS_bytes :: "SRAccelerationData option list \<Rightarrow> bytes" where
  "ADS_bytes ads = concat (map (\<lambda>a. case a of None \<Rightarrow> [] | Some s \<Rightarrow>
     PutUint16 (RTM s) @ PutUint16 (XAAV s) @ PutUint16 (YAAV s) @ PutUint16 (ZAAV s)) ads)"

lemma ADS_bytes_simps [simp]:
  "ADS_bytes [] = []"
  "ADS_bytes (Some s # ads) = PutUint16 (RTM s) @ PutUint16 (XAAV s) @ PutUint16 (YAAV s) @
     PutUint16 (ZAAV s) @ ADS_bytes ads"
  by (simp_all add: ADS_bytes_def)

lemma write_ADS_eq: "list_all (\<lambda>a. a \<noteq> None) ads \<Longrightarrow> write_ADS ads = Inr (ADS_bytes ads)"
  by (induction ads rule: write_ADS.induct) simp_all

lemma length_ADS_bytes: "list_all (\<lambda>a. a \<noteq> None) ads \<Longrightarrow> length (ADS_bytes ads) = 8 * length ads"
  by (induction ads rule: write_ADS.induct) simp_all

lemma read_ADS_bytes:
  "list_all (\<lambda>a. a \<noteq> None) ads \<Longrightarrow> read_ADS (length ads) (ADS_bytes ads @ r) = Inr (ads, r)"
proof (induction ads rule: write_ADS.induct)
  case (3 s ads)
  have "ReadFull 8 ((PutUint16 (RTM s) @ PutUint16 (XAAV s) @ PutUint16 (YAAV s) @
      PutUint16 (ZAAV s)) @ (ADS_bytes ads @ r)) =
    Inr (PutUint16 (RTM s) @ PutUint16 (XAAV s) @ PutUint16 (YAAV s) @ PutUint16 (ZAAV s),
      ADS_bytes ads @ r)"
    by (rule ReadFull_append) simp
  moreover have "SRAccelerationData_Decode (PutUint16 (RTM s) @ PutUint16 (XAAV s) @
      PutUint16 (YAAV s) @ PutUint16 (ZAAV s)) = Inr s"
    by (rule acceleration.encode_decode) simp_all
  ultimately show ?case using 3 by simp
qed simp_all

lemma read_ADS_Inr:
  "read_ADS n bs = Inr (ads, r) \<Longrightarrow>
   bs = ADS_bytes ads @ r \<and> length ads = n \<and> list_all (\<lambda>a. a \<noteq> None) ads"
proof (induction n arbitrary: bs ads)
  case (Suc n)
  then obtain xs q a rest where s: "ReadFull 8 bs = Inr (xs, q)"
    "SRAccelerationData_Decode xs = Inr a" "read_ADS n q = Inr (rest, r)" "ads = Some a # rest"
    by (auto split: prod.splits)
  from acceleration.reencode [OF s(2)] s(1) Suc.IH [OF s(3)] s(4) show ?case
    by (auto simp: go_inv)
qed simp

lemma read_ADS_all:
  "list_all (\<lambda>a. a \<noteq> None) ads \<Longrightarrow> read_ADS (length ads) (ADS_bytes ads) = Inr (ads, [])"
  using read_ADS_bytes [of ads "[]"] by simp

interpretation acceleration_header: exact_bytes_data
  SRAccelerationHeader_Decode SRAccelerationHeader_Encode wf_Acceleration
proof
  fix s :: SRAccelerationHeader and bs
  show "wf_Acceleration s \<Longrightarrow>
      \<exists>bs. SRAccelerationHeader_Encode (Some s) = Inr bs \<and> SRAccelerationHeader_Decode bs = Inr s"
    by (cases s) (simp add: wf_Acceleration_def write_ADS_eq SRAccelerationHeader_Decode_def
        go_simps length_ADS_bytes read_ADS_all)
  assume "SRAccelerationHeader_Decode bs = Inr s"
  then show "wf_Acceleration s" "SRAccelerationHeader_Encode (Some s) = Inr bs"
    by (auto simp: SRAccelerationHeader_Decode_def go_inv wf_Acceleration_def write_ADS_eq
        length_ADS_bytes split: if_splits dest!: read_ADS_Inr)
qed simp

section \<open>EGTS\_SR\_POS\_DATA\<close>

record SRPosData =
  NavigationTimeUint :: u32
  NavigationTime :: gotime
  Latitude :: rat
  Longitude :: rat
  Speed :: int
  Direction :: u8
  DirectionValue :: u16
  Odometer :: int
  OdometerBytes :: bytes
  DigitalInputs :: u8
  Source :: u8
  Altitude :: u32
  AltitudeBytes :: bytes
  SourceDataExists :: u8
  SourceData :: i16
  Valid :: string
  CoordinateSystem :: string
  Fix :: string
  BlackBox :: string
  Move :: string
  LAHS :: string
  LOHS :: string
  AltitudeExists :: string
  AltsFlag :: u8
  DirhFlag :: u8

text \<open>
  A coordinate as degrees, \<open>k * float64(raw) / 0xFFFFFFFF\<close>, the sign its hemisphere flag gives,
  and the way back, \<open>uint32(math.Abs(x) / k * 0xFFFFFFFF)\<close>; \<open>k\<close> is 90 for the latitude and 180
  for the longitude.
\<close>

definition degrees :: "rat \<Rightarrow> u32 \<Rightarrow> rat" where
  "degrees k raw = f64 (f64 (k * of_int (uint raw)) / 0xFFFFFFFF)"

definition signed_degrees :: "string \<Rightarrow> rat \<Rightarrow> rat" where
  "signed_degrees f x = (if f = ''1'' then x * - 1 else x)"

definition raw_degrees :: "rat \<Rightarrow> rat \<Rightarrow> u32" where
  "raw_degrees k x = uint32_of_float (f64 (f64 (\<bar>x\<bar> / k) * 0xFFFFFFFF))"

text \<open>
  \<open>BitField(speed, 0, ..., 13).(int) / 10\<close>. With these indices \<open>BitField\<close> neither panics nor
  returns a \<open>bool\<close> (\<open>BitField_low14\<close>).
\<close>

definition speed_value :: "u16 \<Rightarrow> int" where
  "speed_value speed =
     (case BitField speed [0, 1, 2, 3, 4, 5, 6, 7, 8, 9, 10, 11, 12, 13] of
        Some (BF_int n) \<Rightarrow> n div 10 | _ \<Rightarrow> 0)"

definition SRPosData_Decode :: "bytes \<Rightarrow> SRPosData result" where
  "SRPosData_Decode b =
     bindR (wrapf ''EGTS_SR_POS_DATA; Error reading NTM'' (ReadUint32 b)) (\<lambda>(ntm, r).
     bindR (wrapf ''EGTS_SR_POS_DATA; Error reading LAT'' (ReadUint32 r)) (\<lambda>(lat, r).
     bindR (wrapf ''EGTS_SR_POS_DATA; Error reading LONG'' (ReadUint32 r)) (\<lambda>(lon, r).
     bindR (wrapf ''EGTS_SR_POS_DATA; Error reading flags'' (ReadByte r)) (\<lambda>(flagByte, r).
     let bits = bits08 flagByte;
         valid = substr bits 7 8; fix' = substr bits 6 7; cs = substr bits 5 6;
         bb = substr bits 4 5; mv = substr bits 3 4; lahs = substr bits 2 3;
         lohs = substr bits 1 2; alte = substr bits 0 1 in
     bindR (wrapf ''EGTS_SR_POS_DATA; Error reading SPD'' (ReadUint16 r)) (\<lambda>(speed, r).
     let alts = ucast (drop_bit 14 speed AND 1); dirh = ucast (drop_bit 15 speed AND 1) in
     bindR (wrapf ''EGTS_SR_POS_DATA; Error reading DIR'' (ReadByte r)) (\<lambda>(dir, r).
     bindR (wrapf ''EGTS_SR_POS_DATA; Error reading ODM'' (ReadFull 3 r)) (\<lambda>(odm, r).
     bindR (wrapf ''EGTS_SR_POS_DATA; Error reading DIN'' (ReadByte r)) (\<lambda>(din, r).
     bindR (wrapf ''EGTS_SR_POS_DATA; Error reading SRC'' (ReadByte r)) (\<lambda>(src, r).
     bindR (wrapf ''EGTS_SR_POS_DATA; Error reading ALT'' (when_flag alte (ReadFull 3) [] r)) (\<lambda>(alt, r).
     Inr \<lparr>NavigationTimeUint = ntm, NavigationTime = time_of_seconds ntm,
       Latitude = signed_degrees lahs (degrees 90 lat),
       Longitude = signed_degrees lohs (degrees 180 lon),
       Speed = speed_value speed, Direction = dir,
       DirectionValue = ucast dir OR push_bit 8 (ucast dirh),
       Odometer = uint (LittleEndian_Uint32 (odm @ [0])) div 10, OdometerBytes = odm,
       DigitalInputs = din, Source = src,
       Altitude = (if alte = ''1'' then LittleEndian_Uint32 (alt @ [0]) else 0),
       AltitudeBytes = alt, SourceDataExists = 0, SourceData = 0,
       Valid = valid, CoordinateSystem = cs, Fix = fix', BlackBox = bb, Move = mv,
       LAHS = lahs, LOHS = lohs, AltitudeExists = alte,
       AltsFlag = alts, DirhFlag = dirh\<rparr>))))))))))"

text \<open>\<open>uint16(subr.Speed*10)\<close> wraps, at the width of \<open>int\<close> and again at 16 bits.\<close>

definition speed_word :: "int \<Rightarrow> u8 \<Rightarrow> u8 \<Rightarrow> u16" where
  "speed_word spd dirh alts =
     word_of_int (spd * 10) OR push_bit 15 (ucast dirh) OR push_bit 14 (ucast alts)"

fun SRPosData_Encode :: "SRPosData option \<Rightarrow> bytes result" where
  "SRPosData_Encode None = Inl (Errorf ''SRPosData; Subrecord is nil'')"
| "SRPosData_Encode (Some subr) =
     bindR (wrapf ''EGTS_SR_POS_DATA; Error writing flags''
       (parse_flags (AltitudeExists subr @ LOHS subr @ LAHS subr @ Move subr @ BlackBox subr @
          CoordinateSystem subr @ Fix subr @ Valid subr))) (\<lambda>flags.
     Inr (PutUint32 (seconds_of_time (NavigationTime subr)) @
       PutUint32 (raw_degrees 90 (Latitude subr)) @
       PutUint32 (raw_degrees 180 (Longitude subr)) @
       [flags] @
       PutUint16 (speed_word (Speed subr) (DirhFlag subr) (AltsFlag subr)) @
       [Direction subr] @ OdometerBytes subr @ [DigitalInputs subr, Source subr] @
       flag_bytes (AltitudeExists subr) (AltitudeBytes subr)))"

definition SRPosData_Len :: "SRPosData option \<Rightarrow> u16" where
  "SRPosData_Len subr = Len_of (SRPosData_Encode subr)"

subsection \<open>Coordinates\<close>

text \<open>
  Three roundings of relative error \<open>2^-53\<close> move a raw coordinate by less than one, so
  truncation loses at most one unit and never gains one.
\<close>

lemma uint_u32: "0 \<le> uint u" "uint u < 4294967296" for u :: u32
  using unsigned_less [of u, where 'a = int] by simp_all

lemma degrees_nonneg: "0 < k \<Longrightarrow> 0 \<le> degrees k u"
proof -
  assume "0 < k"
  moreover have "0 \<le> (of_int (uint u) :: rat)" by (simp only: of_int_0_le_iff uint_u32(1))
  ultimately show ?thesis
    unfolding degrees_def by (intro fround_nonneg divide_nonneg_pos mult_nonneg_nonneg) simp_all
qed

text \<open>The error of one rounding, after a change of scale.\<close>

lemma fround_scaled:
  assumes "0 \<le> x" "0 < m"
  shows "\<bar>fround p x * m - x * m\<bar> \<le> x * m / 2 ^ p"
proof -
  have "\<bar>fround p x * m - x * m\<bar> = \<bar>fround p x - x\<bar> * m"
    using assms by (simp add: abs_mult flip: left_diff_distrib)
  also have "\<dots> \<le> \<bar>x\<bar> / 2 ^ p * m"
    using assms by (intro mult_right_mono fround_error) simp
  finally show ?thesis using assms by simp
qed

lemma raw_degrees_signed [simp]: "raw_degrees k (signed_degrees f x) = raw_degrees k x"
  by (simp add: raw_degrees_def signed_degrees_def)

lemma uint_word_of_int_u32:
  "0 \<le> m \<Longrightarrow> m < 4294967296 \<Longrightarrow> uint (word_of_int m :: u32) = m"
  by (simp add: unsigned_of_int take_bit_int_eq_self)

lemma three_roundings:
  fixes x y z d :: rat
  assumes "\<bar>y - x\<bar> \<le> x / 2 ^ 53" "\<bar>z - y\<bar> \<le> y / 2 ^ 53" "\<bar>d - z\<bar> \<le> z / 2 ^ 53"
    and "0 \<le> x" "x < 4294967296"
  shows "x - 1 < d \<and> d < x + 1"
proof -
  have p: "(2 :: rat) ^ 53 = 9007199254740992" by simp
  from assms(1-3) have "y \<le> x + x / 9007199254740992" "x \<le> y + x / 9007199254740992"
    "z \<le> y + y / 9007199254740992" "y \<le> z + y / 9007199254740992"
    "d \<le> z + z / 9007199254740992" "z \<le> d + z / 9007199254740992"
    unfolding p by (simp_all only: abs_le_iff) linarith+
  with assms(4,5) show ?thesis by (intro conjI; linarith)
qed

lemma raw_degrees_near:
  assumes "k = 90 \<or> k = 180"
  shows "uint (raw_degrees k (degrees k u)) \<le> uint u \<and>
    uint u \<le> uint (raw_degrees k (degrees k u)) + 1"
proof -
  define n where "n = uint u"
  define x :: rat where "x = of_int n"
  define b where "b = degrees k u"
  define c where "c = f64 (b / k)"
  define d where "d = f64 (c * 0xFFFFFFFF)"
  have n: "0 \<le> n" "n < 4294967296" using uint_u32 [of u] by (simp_all add: n_def)
  have x: "0 \<le> x" "x < 4294967296" unfolding x_def using n by simp_all
  have k: "0 < k" using assms by auto
  have "f64 (of_int (90 * n)) = of_int (90 * n)" "f64 (of_int (180 * n)) = of_int (180 * n)"
    using n by (intro fround_of_int; simp)+
  then have b: "b = f64 (k * x / 0xFFFFFFFF)"
    using assms by (auto simp: b_def degrees_def x_def n_def)
  have pos: "0 \<le> b" "0 \<le> c" "0 \<le> d"
    using k x unfolding b c_def d_def
    by (intro fround_nonneg divide_nonneg_pos mult_nonneg_nonneg; simp)+
  have "\<bar>b * (0xFFFFFFFF / k) - x\<bar> \<le> x / 2 ^ 53"
    using fround_scaled [of "k * x / 0xFFFFFFFF" "0xFFFFFFFF / k" 53] x k by (simp add: b)
  moreover have "\<bar>c * 0xFFFFFFFF - b * (0xFFFFFFFF / k)\<bar> \<le> b * (0xFFFFFFFF / k) / 2 ^ 53"
    using fround_scaled [of "b / k" "0xFFFFFFFF" 53] pos k by (simp add: c_def)
  moreover have "\<bar>d - c * 0xFFFFFFFF\<bar> \<le> c * 0xFFFFFFFF / 2 ^ 53"
    using fround_scaled [of "c * 0xFFFFFFFF" 1 53] pos by (simp add: d_def)
  ultimately have near: "x - 1 < d" "d < x + 1"
    using three_roundings x by blast+
  have floor: "n - 1 \<le> \<lfloor>d\<rfloor>" "\<lfloor>d\<rfloor> \<le> n" "0 \<le> \<lfloor>d\<rfloor>"
    using near pos unfolding x_def by linarith+
  have "d < 2 ^ 63" using near x by simp
  then have "raw_degrees k b = word_of_int \<lfloor>d\<rfloor>"
    using pos by (simp add: raw_degrees_def uint32_of_float_nonneg c_def d_def)
  moreover have "uint (word_of_int \<lfloor>d\<rfloor> :: u32) = \<lfloor>d\<rfloor>"
    by (rule uint_word_of_int_u32) (use floor n in linarith)+
  ultimately show ?thesis using floor by (simp add: b_def n_def)
qed

subsection \<open>Speed\<close>

lemma speed_value_eq: "speed_value s = uint (take_bit 14 s) div 10"
  by (simp add: speed_value_def BitField_low14)

text \<open>A speed word keeps its two flag bits and its low 14 bits apart.\<close>

lemma u8_le1: "a \<le> 1 \<Longrightarrow> a = 0 \<or> a = (1 :: u8)"
  by (simp add: word_le_nat_alt) unat_arith

lemma speed_word_take:
  assumes "0 \<le> v" "v * 10 < 2 ^ 14" "a \<le> 1" "d \<le> 1"
  shows "take_bit 14 (speed_word v d a) = word_of_int (v * 10)"
   "ucast (drop_bit 14 (speed_word v d a) AND 1) = a"
   "ucast (drop_bit 15 (speed_word v d a) AND 1) = d"
proof -
  define x :: u16 where "x = word_of_int (v * 10)"
  have x: "take_bit 14 x = x"
    using assms(1,2) by (simp only: x_def take_bit_of_int) (simp add: take_bit_int_eq_self)
  then have b: "14 \<le> i \<Longrightarrow> \<not> bit x i" for i
    by (metis bit_take_bit_iff not_le)
  have ad: "a = 0 \<or> a = 1" "d = 0 \<or> d = 1" using u8_le1 assms by auto
  have w: "speed_word v d a = x OR push_bit 15 (ucast d) OR push_bit 14 (ucast a)"
    by (simp add: speed_word_def x_def)
  show "take_bit 14 (speed_word v d a) = word_of_int (v * 10)"
    unfolding w x_def [symmetric] using ad x
    by (auto simp: take_bit_or) 
  show "ucast (drop_bit 14 (speed_word v d a) AND 1) = a"
    unfolding w using ad b by (auto intro!: bit_word_eqI simp: bit_simps bit_1_iff) 
  show "ucast (drop_bit 15 (speed_word v d a) AND 1) = d"
    unfolding w using ad b by (auto intro!: bit_word_eqI simp: bit_simps bit_1_iff) 
qed

lemma uint_word_of_int_u16: "0 \<le> m \<Longrightarrow> m < 65536 \<Longrightarrow> uint (word_of_int m :: u16) = m"
  by (simp add: unsigned_of_int take_bit_int_eq_self)

lemma speed_value_word:
  assumes "0 \<le> v" "v * 10 < 2 ^ 14" "a \<le> 1" "d \<le> 1"
  shows "speed_value (speed_word v d a) = v"
proof -
  have "uint (word_of_int (v * 10) :: u16) = v * 10"
    by (rule uint_word_of_int_u16) (use assms in simp_all)
  then show ?thesis by (simp only: speed_value_eq speed_word_take [OF assms])
qed

subsection \<open>What survives\<close>

text \<open>
  Everything but the coordinates is a function of what is coded. \<open>SourceData\<close> and
  \<open>SourceDataExists\<close> are not coded at all.
\<close>

definition wf_PosData_fields :: "SRPosData \<Rightarrow> bool" where
  "wf_PosData_fields s \<longleftrightarrow>
     NavigationTime s = time_of_seconds (NavigationTimeUint s) \<and>
     0 \<le> Speed s \<and> Speed s * 10 < 2 ^ 14 \<and> AltsFlag s \<le> 1 \<and> DirhFlag s \<le> 1 \<and>
     DirectionValue s = ucast (Direction s) OR push_bit 8 (ucast (DirhFlag s)) \<and>
     length (OdometerBytes s) = 3 \<and>
     Odometer s = uint (LittleEndian_Uint32 (OdometerBytes s @ [0])) div 10 \<and>
     (AltitudeExists s = ''1'' \<longrightarrow> length (AltitudeBytes s) = 3) \<and>
     (AltitudeExists s \<noteq> ''1'' \<longrightarrow> AltitudeBytes s = []) \<and>
     Altitude s = (if AltitudeExists s = ''1''
       then LittleEndian_Uint32 (AltitudeBytes s @ [0]) else 0) \<and>
     SourceDataExists s = 0 \<and> SourceData s = 0 \<and>
     list_all is_flag [AltitudeExists s, LOHS s, LAHS s, Move s, BlackBox s,
       CoordinateSystem s, Fix s, Valid s]"

text \<open>The position a receiver gets: the coordinates go through the 32-bit units.\<close>

definition recoded :: "SRPosData \<Rightarrow> SRPosData" where
  "recoded s = s
     \<lparr>Latitude := signed_degrees (LAHS s) (degrees 90 (raw_degrees 90 (Latitude s))),
      Longitude := signed_degrees (LOHS s) (degrees 180 (raw_degrees 180 (Longitude s)))\<rparr>"

definition wf_PosData :: "SRPosData \<Rightarrow> bool" where
  "wf_PosData s \<longleftrightarrow> wf_PosData_fields s \<and> recoded s = s"

lemma PosData_encode_decode:
  assumes "wf_PosData_fields s"
  shows "\<exists>bs. SRPosData_Encode (Some s) = Inr bs \<and> SRPosData_Decode bs = Inr (recoded s)"
proof -
  have f: "is_flag (AltitudeExists s)" "is_flag (LOHS s)" "is_flag (LAHS s)" "is_flag (Move s)"
    "is_flag (BlackBox s)" "is_flag (CoordinateSystem s)" "is_flag (Fix s)" "is_flag (Valid s)"
    using assms by (simp_all add: wf_PosData_fields_def)
  obtain w where w: "AltitudeExists s = bitstr w 7" "LOHS s = bitstr w 6" "LAHS s = bitstr w 5"
    "Move s = bitstr w 4" "BlackBox s = bitstr w 3" "CoordinateSystem s = bitstr w 2"
    "Fix s = bitstr w 1" "Valid s = bitstr w 0"
    by (rule flags8 [OF f])
  let ?sw = "speed_word (Speed s) (DirhFlag s) (AltsFlag s)"
  have sw: "speed_value ?sw = Speed s" "ucast (drop_bit 14 ?sw AND 1) = AltsFlag s"
    "ucast (drop_bit 15 ?sw AND 1) = DirhFlag s"
    using speed_word_take [of "Speed s" "AltsFlag s" "DirhFlag s"] assms
      speed_value_word [of "Speed s" "AltsFlag s" "DirhFlag s"]
    by (simp_all add: wf_PosData_fields_def)
  show ?thesis
    using assms
    by (simp add: wf_PosData_fields_def SRPosData_Decode_def Let_def w go_simps sw recoded_def)
qed

lemma speed_value_bounds: "0 \<le> speed_value s" "speed_value s * 10 < 2 ^ 14"
proof -
  have "0 \<le> uint (take_bit 14 s)" "uint (take_bit 14 s) < 2 ^ 14"
    using take_bit_int_less_exp [of 14 "uint s"] by (simp_all add: unsigned_take_bit_eq)
  then show "0 \<le> speed_value s" "speed_value s * 10 < 2 ^ 14"
    by (simp_all add: speed_value_eq pos_imp_zdiv_nonneg_iff)
qed

lemma bit_u8_le1: "ucast (x AND 1 :: u16) \<le> (1 :: u8)"
proof -
  have "x AND 1 = 0 \<or> x AND 1 = 1" by (simp add: and_one_eq mod_2_eq_odd)
  then show ?thesis by auto
qed

lemma PosData_decode_fields: "SRPosData_Decode bs = Inr s \<Longrightarrow> wf_PosData_fields s"
  by (clarsimp simp: SRPosData_Decode_def go_simps go_inv Let_def)
    (simp add: wf_PosData_fields_def speed_value_bounds [simplified] bit_u8_le1)

lemma PosData_decode_degrees:
  "SRPosData_Decode bs = Inr s \<Longrightarrow>
   \<exists>u v. Latitude s = signed_degrees (LAHS s) (degrees 90 u) \<and>
     Longitude s = signed_degrees (LOHS s) (degrees 180 v)"
  by (clarsimp simp: SRPosData_Decode_def go_simps go_inv Let_def) blast

interpretation pos_data: bytes_data SRPosData_Decode SRPosData_Encode wf_PosData
proof
  fix s
  assume "wf_PosData s"
  then show "\<exists>bs. SRPosData_Encode (Some s) = Inr bs \<and> SRPosData_Decode bs = Inr s"
    using PosData_encode_decode [of s] by (simp add: wf_PosData_def)
qed simp

end
