(* ===== verification/Records.thy ===== *)
theory Records
  imports Codes Sub_Auth Sub_Sensors Sub_Telemetry
begin

text \<open>
  Service record data, \<open>egts/packet/record_data.go\<close>: a sequence of subrecords, each a type, a
  length and the subrecord's own bytes. A \<open>BytesData\<close> interface value is a constructor per
  dynamic type with a pointer that may be nil; \<open>None\<close> for the interface is the nil interface.
  The dynamic types are the twelve that the decoder creates.
\<close>

section \<open>Subrecord values\<close>

datatype SubData =
    SD_RecordResponse "SRRecordResponse option"
  | SD_TermIdentity "SRTermIdentity option"
  | SD_AuthInfo "SRAuthInfo option"
  | SD_AuthParams "SRAuthParams option"
  | SD_ResultCode "SRResultCode option"
  | SD_PosData "SRPosData option"
  | SD_ExPosData "SRExPosDataRecord option"
  | SD_AdSensors "SRAdSensorsData option"
  | SD_Counters "SRCountersData option"
  | SD_Acceleration "SRAccelerationHeader option"
  | SD_StateData "SRStateData option"
  | SD_LiquidLevel "SRLiquidLevelSensor option"

fun SubData_Encode :: "SubData \<Rightarrow> bytes result" where
  "SubData_Encode (SD_RecordResponse s) = SRRecordResponse_Encode s"
| "SubData_Encode (SD_TermIdentity s) = SRTermIdentity_Encode s"
| "SubData_Encode (SD_AuthInfo s) = SRAuthInfo_Encode s"
| "SubData_Encode (SD_AuthParams s) = SRAuthParams_Encode s"
| "SubData_Encode (SD_ResultCode s) = SRResultCode_Encode s"
| "SubData_Encode (SD_PosData s) = SRPosData_Encode s"
| "SubData_Encode (SD_ExPosData s) = SRExPosDataRecord_Encode s"
| "SubData_Encode (SD_AdSensors s) = SRAdSensorsData_Encode s"
| "SubData_Encode (SD_Counters s) = SRCountersData_Encode s"
| "SubData_Encode (SD_Acceleration s) = SRAccelerationHeader_Encode s"
| "SubData_Encode (SD_StateData s) = SRStateData_Encode s"
| "SubData_Encode (SD_LiquidLevel s) = SRLiquidLevelSensor_Encode s"

text \<open>\<open>Decode\<close> on a fresh struct of the dynamic type.\<close>

definition decode_into :: "('a option \<Rightarrow> SubData) \<Rightarrow> (bytes \<Rightarrow> 'a result) \<Rightarrow> bytes \<Rightarrow> SubData result" where
  "decode_into C dec b = bindR (dec b) (\<lambda>s. Inr (C (Some s)))"

text \<open>The switch on the subrecord type.\<close>

definition new_SubData :: "u8 \<Rightarrow> (bytes \<Rightarrow> SubData result) option" where
  "new_SubData srt =
     (if srt = RecordResponse then Some (decode_into SD_RecordResponse SRRecordResponse_Decode)
      else if srt = TermIdentity then Some (decode_into SD_TermIdentity SRTermIdentity_Decode)
      else if srt = AuthInfo then Some (decode_into SD_AuthInfo SRAuthInfo_Decode)
      else if srt = AuthParams then Some (decode_into SD_AuthParams SRAuthParams_Decode)
      else if srt = ResultCode then Some (decode_into SD_ResultCode SRResultCode_Decode)
      else if srt = PosData then Some (decode_into SD_PosData SRPosData_Decode)
      else if srt = ExtPosData then Some (decode_into SD_ExPosData SRExPosDataRecord_Decode)
      else if srt = AdSensorsData then Some (decode_into SD_AdSensors SRAdSensorsData_Decode)
      else if srt = CountersData then Some (decode_into SD_Counters SRCountersData_Decode)
      else if srt = AccelerationData_type
        then Some (decode_into SD_Acceleration SRAccelerationHeader_Decode)
      else if srt = StateData then Some (decode_into SD_StateData SRStateData_Decode)
      else if srt = LiquidLevelSensor
        then Some (decode_into SD_LiquidLevel SRLiquidLevelSensor_Decode)
      else None)"

text \<open>A value that fits the type it is sent under.\<close>

fun wf_SubData :: "u8 \<Rightarrow> SubData \<Rightarrow> bool" where
  "wf_SubData t (SD_RecordResponse (Some s)) = (t = RecordResponse)"
| "wf_SubData t (SD_TermIdentity (Some s)) = (t = TermIdentity \<and> wf_TermIdentity s)"
| "wf_SubData t (SD_AuthInfo (Some s)) = (t = AuthInfo \<and> wf_AuthInfo s)"
| "wf_SubData t (SD_AuthParams (Some s)) = (t = AuthParams \<and> Flags s = 0)"
| "wf_SubData t (SD_ResultCode (Some s)) = (t = ResultCode)"
| "wf_SubData t (SD_PosData (Some s)) = (t = PosData \<and> wf_PosData s)"
| "wf_SubData t (SD_ExPosData (Some s)) = (t = ExtPosData \<and> wf_ExPos s)"
| "wf_SubData t (SD_AdSensors (Some s)) = (t = AdSensorsData \<and> wf_AdSensors s)"
| "wf_SubData t (SD_Counters (Some s)) = (t = CountersData \<and> wf_Counters s)"
| "wf_SubData t (SD_Acceleration (Some s)) = (t = AccelerationData_type \<and> wf_Acceleration s)"
| "wf_SubData t (SD_StateData (Some s)) = (t = StateData \<and> wf_StateData s)"
| "wf_SubData t (SD_LiquidLevel (Some s)) = (t = LiquidLevelSensor \<and> wf_LiquidLevel s)"
| "wf_SubData t _ = False"

lemma decode_into_Inr [simp]:
  "decode_into C dec b = Inr d \<longleftrightarrow> (\<exists>s. dec b = Inr s \<and> d = C (Some s))"
  by (auto simp: decode_into_def)

text \<open>How one type's contract becomes the contract of the interface value.\<close>

context bytes_data
begin

lemma as_subrecord:
  assumes "wf s"
    and "SubData_Encode (C (Some s)) = Encode (Some s)"
    and "new_SubData t = Some (decode_into C Decode)"
  shows "\<exists>bs dec. SubData_Encode (C (Some s)) = Inr bs \<and> new_SubData t = Some dec \<and>
    dec bs = Inr (C (Some s))"
proof -
  from roundtrip [OF assms(1)] obtain bs where "Encode (Some s) = Inr bs" "Decode bs = Inr s"
    by blast
  with assms(2,3) show ?thesis by (intro exI [of _ bs] exI [of _ "decode_into C Decode"]) simp
qed

end

lemma new_SubData_types:
  "new_SubData RecordResponse = Some (decode_into SD_RecordResponse SRRecordResponse_Decode)"
  "new_SubData TermIdentity = Some (decode_into SD_TermIdentity SRTermIdentity_Decode)"
  "new_SubData AuthInfo = Some (decode_into SD_AuthInfo SRAuthInfo_Decode)"
  "new_SubData AuthParams = Some (decode_into SD_AuthParams SRAuthParams_Decode)"
  "new_SubData ResultCode = Some (decode_into SD_ResultCode SRResultCode_Decode)"
  "new_SubData PosData = Some (decode_into SD_PosData SRPosData_Decode)"
  "new_SubData ExtPosData = Some (decode_into SD_ExPosData SRExPosDataRecord_Decode)"
  "new_SubData AdSensorsData = Some (decode_into SD_AdSensors SRAdSensorsData_Decode)"
  "new_SubData CountersData = Some (decode_into SD_Counters SRCountersData_Decode)"
  "new_SubData AccelerationData_type = Some (decode_into SD_Acceleration SRAccelerationHeader_Decode)"
  "new_SubData StateData = Some (decode_into SD_StateData SRStateData_Decode)"
  "new_SubData LiquidLevelSensor = Some (decode_into SD_LiquidLevel SRLiquidLevelSensor_Decode)"
  by (simp_all add: new_SubData_def codes)

lemmas as_subrecords =
  record_response.as_subrecord [OF _ SubData_Encode.simps(1) new_SubData_types(1)]
  term_identity.as_subrecord [OF _ SubData_Encode.simps(2) new_SubData_types(2)]
  auth_info.as_subrecord [OF _ SubData_Encode.simps(3) new_SubData_types(3)]
  auth_params.as_subrecord [OF _ SubData_Encode.simps(4) new_SubData_types(4)]
  result_code.as_subrecord [OF _ SubData_Encode.simps(5) new_SubData_types(5)]
  pos_data.as_subrecord [OF _ SubData_Encode.simps(6) new_SubData_types(6)]
  ex_pos.as_subrecord [OF _ SubData_Encode.simps(7) new_SubData_types(7)]
  ad_sensors.as_subrecord [OF _ SubData_Encode.simps(8) new_SubData_types(8)]
  counters.as_subrecord [OF _ SubData_Encode.simps(9) new_SubData_types(9)]
  acceleration_header.as_subrecord [OF _ SubData_Encode.simps(10) new_SubData_types(10)]
  state_data.as_subrecord [OF _ SubData_Encode.simps(11) new_SubData_types(11)]
  liquid_level.as_subrecord [OF _ SubData_Encode.simps(12) new_SubData_types(12)]

lemma SubData_roundtrip:
  assumes "wf_SubData t d"
  shows "\<exists>bs dec. SubData_Encode d = Inr bs \<and> new_SubData t = Some dec \<and> dec bs = Inr d"
  using assms
  by (cases "(t, d)" rule: wf_SubData.cases) (simp_all only: wf_SubData.simps prod.inject as_subrecords simp_thms)

section \<open>Record data\<close>

record RecordData =
  SubrecordType :: u8
  SubrecordLength :: u16
  SubrecordData :: "SubData option"

type_synonym RecordsData = "RecordData option list"

text \<open>One turn of the decoder's loop: a subrecord and the bytes after it.\<close>

definition RecordData_step :: "bytes \<Rightarrow> (RecordData \<times> bytes) result" where
  "RecordData_step b =
     bindR (wrapf ''SRD; Error reading SRT'' (ReadByte b)) (\<lambda>(srt, r).
     bindR (wrapf ''SRD; Error reading SRL'' (ReadUint16 r)) (\<lambda>(srl, r).
     if unat srl > length r then Inl (Errorf ''SRD; Subrecord length exceeds available data'')
     else
       (case new_SubData srt of
          None \<Rightarrow> Inl (Errorf ''RD;EGTS_PC_SRVC_NFOUND'')
        | Some Decode \<Rightarrow>
            bindR (wrapf ''SRD'' (Decode (take (unat srl) r))) (\<lambda>sd.
            Inr (\<lparr>SubrecordType = srt, SubrecordLength = srl, SubrecordData = Some sd\<rparr>,
              drop (unat srl) r)))))"

lemma RecordData_step_Inr:
  "RecordData_step b = Inr (rd, r) \<longleftrightarrow>
   (\<exists>bb dec sd. b = [SubrecordType rd] @ PutUint16 (SubrecordLength rd) @ bb @ r \<and>
      length bb = unat (SubrecordLength rd) \<and> new_SubData (SubrecordType rd) = Some dec \<and>
      dec bb = Inr sd \<and> SubrecordData rd = Some sd)"
proof
  assume "RecordData_step b = Inr (rd, r)"
  then obtain q dec sd where s: "b = [SubrecordType rd] @ PutUint16 (SubrecordLength rd) @ q"
    "unat (SubrecordLength rd) \<le> length q" "new_SubData (SubrecordType rd) = Some dec"
    "dec (take (unat (SubrecordLength rd)) q) = Inr sd" "SubrecordData rd = Some sd"
    "r = drop (unat (SubrecordLength rd)) q"
    by (auto simp: RecordData_step_def go_inv not_less split: option.splits)
  then have "q = take (unat (SubrecordLength rd)) q @ r"
    "length (take (unat (SubrecordLength rd)) q) = unat (SubrecordLength rd)" by simp_all
  with s show "\<exists>bb dec sd. b = [SubrecordType rd] @ PutUint16 (SubrecordLength rd) @ bb @ r \<and>
      length bb = unat (SubrecordLength rd) \<and> new_SubData (SubrecordType rd) = Some dec \<and>
      dec bb = Inr sd \<and> SubrecordData rd = Some sd" by metis
next
  assume "\<exists>bb dec sd. b = [SubrecordType rd] @ PutUint16 (SubrecordLength rd) @ bb @ r \<and>
      length bb = unat (SubrecordLength rd) \<and> new_SubData (SubrecordType rd) = Some dec \<and>
      dec bb = Inr sd \<and> SubrecordData rd = Some sd"
  then obtain bb dec sd where s: "b = [SubrecordType rd] @ PutUint16 (SubrecordLength rd) @ bb @ r"
      "length bb = unat (SubrecordLength rd)" "new_SubData (SubrecordType rd) = Some dec"
      "dec bb = Inr sd" "SubrecordData rd = Some sd" by blast
  then show "RecordData_step b = Inr (rd, r)"
    by (cases rd) (simp add: RecordData_step_def go_simps s(2) [symmetric])
qed

lemma RecordData_step_shorter: "RecordData_step b = Inr (rd, r) \<Longrightarrow> length r < length b"
  by (auto simp: RecordData_step_Inr)

text \<open>\<open>for buffer.Len() > 0\<close>: each turn takes at least the three bytes of a header.\<close>

function RecordsData_Decode :: "bytes \<Rightarrow> RecordsData result" where
  "RecordsData_Decode b =
     (if b = [] then Inr []
      else
        bindR (RecordData_step b) (\<lambda>(rd, r).
        bindR (RecordsData_Decode r) (\<lambda>rest.
        Inr (Some rd # rest))))"
  by auto
termination
  by (relation "measure length") (auto dest: RecordData_step_shorter)

declare RecordsData_Decode.simps [simp del]

lemma RecordsData_Decode_Nil [simp]: "RecordsData_Decode [] = Inr []"
  by (simp add: RecordsData_Decode.simps)

lemma RecordsData_Decode_Cons:
  "RecordData_step b = Inr (rd, r) \<Longrightarrow>
   RecordsData_Decode b = bindR (RecordsData_Decode r) (\<lambda>rest. Inr (Some rd # rest))"
  by (subst RecordsData_Decode.simps) (auto dest: RecordData_step_shorter)

text \<open>What holds of each record one turn decodes holds of all records.\<close>

lemma RecordsData_Decode_all:
  assumes "\<And>b rd r. RecordData_step b = Inr (rd, r) \<Longrightarrow> P (Some rd)"
  shows "RecordsData_Decode bs = Inr rs \<Longrightarrow> list_all P rs"
proof (induction bs arbitrary: rs rule: RecordsData_Decode.induct)
  case (1 b)
  show ?case
  proof (cases "b = []")
    case False
    with "1.prems" obtain rd r rest where s: "RecordData_step b = Inr (rd, r)"
      "RecordsData_Decode r = Inr rest" "rs = Some rd # rest"
      by (subst (asm) RecordsData_Decode.simps) (auto split: prod.splits)
    from assms [OF s(1)] "1.IH" [OF False s(1) refl s(2)] s(3) show ?thesis by simp
  qed (use "1.prems" in simp)
qed

text \<open>\<open>Encode\<close> appends to a buffer whose length it checks.\<close>

fun RecordsData_Encode_loop :: "bytes \<Rightarrow> RecordsData \<Rightarrow> bytes result" where
  "RecordsData_Encode_loop buffer [] = Inr buffer"
| "RecordsData_Encode_loop buffer (None # rs) = Inl (Errorf ''SRD; Subrecord is nil'')"
| "RecordsData_Encode_loop buffer (Some r # rs) =
     (case SubrecordData r of
        None \<Rightarrow> Inl (Errorf ''SRD; Subrecord is nil'')
      | Some d \<Rightarrow>
          bindR (wrapf ''SRD; Error encoding SRT %d'' (SubData_Encode d)) (\<lambda>sd.
          if unat (SubrecordLength r) \<noteq> length sd
          then Inl (Errorf ''SRD; SRL does not match encoded data length'')
          else if length buffer + 3 + length sd > 65535
          then Inl (Errorf ''SRD; Record data exceeds 65535 bytes'')
          else RecordsData_Encode_loop
            (buffer @ [SubrecordType r] @ PutUint16 (SubrecordLength r) @ sd) rs))"

fun RecordsData_Encode :: "RecordsData option \<Rightarrow> bytes result" where
  "RecordsData_Encode None = Inl (Errorf ''SRD; RecordsData is nil'')"
| "RecordsData_Encode (Some rd) = RecordsData_Encode_loop [] rd"

definition RecordsData_Len :: "RecordsData option \<Rightarrow> u16" where
  "RecordsData_Len rd = Len_of (RecordsData_Encode rd)"

section \<open>What the encoder writes\<close>

definition record_bytes :: "RecordData option \<Rightarrow> bytes" where
  "record_bytes rd =
     (case rd of
        None \<Rightarrow> []
      | Some r \<Rightarrow>
          (case SubrecordData r of
             None \<Rightarrow> []
           | Some d \<Rightarrow>
               (case SubData_Encode d of
                  Inl _ \<Rightarrow> []
                | Inr sd \<Rightarrow> [SubrecordType r] @ PutUint16 (SubrecordLength r) @ sd)))"

abbreviation records_bytes :: "RecordsData \<Rightarrow> bytes" where
  "records_bytes rs \<equiv> concat (map record_bytes rs)"

text \<open>A record whose subrecord encodes to the announced length.\<close>

definition codable :: "RecordData option \<Rightarrow> bool" where
  "codable rd \<longleftrightarrow> (\<exists>r d sd. rd = Some r \<and> SubrecordData r = Some d \<and> SubData_Encode d = Inr sd \<and>
     unat (SubrecordLength r) = length sd)"

definition wf_Record :: "RecordData option \<Rightarrow> bool" where
  "wf_Record rd = (case rd of None \<Rightarrow> False | Some r \<Rightarrow>
     (case SubrecordData r of None \<Rightarrow> False | Some d \<Rightarrow>
        wf_SubData (SubrecordType r) d \<and>
        (case SubData_Encode d of Inl _ \<Rightarrow> False | Inr sd \<Rightarrow>
           unat (SubrecordLength r) = length sd)))"

definition wf_Records :: "RecordsData \<Rightarrow> bool" where
  "wf_Records rs \<longleftrightarrow> list_all wf_Record rs \<and> length (records_bytes rs) \<le> 65535"

lemma wf_Record_codable: "wf_Record rd \<Longrightarrow> codable rd"
  by (auto simp: wf_Record_def codable_def split: option.splits sum.splits)

lemma record_bytes_length: "codable rd \<Longrightarrow> 3 \<le> length (record_bytes rd)"
  by (auto simp: codable_def record_bytes_def)

text \<open>The encoder accepts exactly the codable records that fit, and writes their bytes.\<close>

lemma RecordsData_Encode_loop_Inr:
  "length buf \<le> 65535 \<Longrightarrow>
   RecordsData_Encode_loop buf rs = Inr bs \<longleftrightarrow>
   list_all codable rs \<and> bs = buf @ records_bytes rs \<and> length bs \<le> 65535"
proof (induction buf rs arbitrary: bs rule: RecordsData_Encode_loop.induct)
  case (1 buf)
  then show ?case by auto
next
  case (2 buf rs)
  then show ?case by (simp add: codable_def)
next
  case (3 buf r rs)
  show ?case
  proof (cases "codable (Some r)")
    case False
    then show ?thesis by (auto simp: codable_def split: option.splits)
  next
    case True
    then obtain d sd where d: "SubrecordData r = Some d" "SubData_Encode d = Inr sd"
      "unat (SubrecordLength r) = length sd" by (auto simp: codable_def)
    let ?out = "buf @ [SubrecordType r] @ PutUint16 (SubrecordLength r) @ sd"
    have out: "?out = buf @ record_bytes (Some r)" by (simp add: record_bytes_def d)
    show ?thesis
    proof (cases "length buf + 3 + length sd > 65535")
      case True
      then have "\<not> length (buf @ records_bytes (Some r # rs)) \<le> 65535"
        by (simp add: record_bytes_def d)
      with True d show ?thesis by auto
    next
      case False
      then have "length ?out \<le> 65535" by simp
      then have IH: "RecordsData_Encode_loop ?out rs = Inr bs \<longleftrightarrow>
          list_all codable rs \<and> bs = ?out @ records_bytes rs \<and> length bs \<le> 65535"
        by (intro "3.IH") (use d False in simp_all)
      from False d True have "RecordsData_Encode_loop buf (Some r # rs) = RecordsData_Encode_loop ?out rs"
        by simp
      also have "\<dots> = Inr bs \<longleftrightarrow> list_all codable rs \<and> bs = ?out @ records_bytes rs \<and> length bs \<le> 65535"
        by (rule IH)
      finally show ?thesis using True out by (simp del: append_assoc add: append_assoc [symmetric])
    qed
  qed
qed

lemma RecordsData_Encode_Inr:
  "RecordsData_Encode (Some rs) = Inr bs \<longleftrightarrow>
   list_all codable rs \<and> bs = records_bytes rs \<and> length bs \<le> 65535"
  using RecordsData_Encode_loop_Inr [of "[]" rs bs] by simp

lemma RecordData_step_bytes:
  assumes "wf_Record rd"
  obtains r where "rd = Some r" "RecordData_step (record_bytes rd @ q) = Inr (r, q)"
proof -
  from assms obtain r d sd where r: "rd = Some r" "SubrecordData r = Some d"
    "SubData_Encode d = Inr sd" "wf_SubData (SubrecordType r) d" "unat (SubrecordLength r) = length sd"
    by (auto simp: wf_Record_def split: option.splits sum.splits)
  from SubData_roundtrip [OF r(4)] r(3) obtain dec
    where "new_SubData (SubrecordType r) = Some dec" "dec sd = Inr d" by auto
  with r have "RecordData_step (record_bytes rd @ q) = Inr (r, q)"
    by (auto simp: RecordData_step_Inr record_bytes_def)
  with r(1) show thesis by (rule that)
qed

lemma RecordsData_Decode_bytes:
  "list_all wf_Record rs \<Longrightarrow> RecordsData_Decode (records_bytes rs) = Inr rs"
proof (induction rs)
  case (Cons rd rs)
  then obtain r where "rd = Some r" "RecordData_step (record_bytes rd @ records_bytes rs) = Inr (r, records_bytes rs)"
    using RecordData_step_bytes by (metis list.pred_inject(2))
  with Cons show ?case by (simp add: RecordsData_Decode_Cons)
qed simp

lemma Records_roundtrip:
  assumes "wf_Records rs"
  shows "RecordsData_Encode (Some rs) = Inr (records_bytes rs)"
    and "RecordsData_Decode (records_bytes rs) = Inr rs"
  using assms wf_Record_codable
  by (auto simp: wf_Records_def RecordsData_Encode_Inr RecordsData_Decode_bytes
      simp del: RecordsData_Encode.simps elim: list.pred_mono_strong)

interpretation records: bytes_data RecordsData_Decode RecordsData_Encode wf_Records
  by unfold_locales (use Records_roundtrip in auto)

end
