(* ===== verification/Services.thy ===== *)
theory Services
  imports Records
begin

text \<open>
  Service records, \<open>egts/packet/services_frame_data.go\<close>: the frame data of an APPDATA packet is a
  sequence of service records, each a header with optional fields and a block of record data.
\<close>

section \<open>Decoding\<close>

record ServiceDataRecord =
  RecordLength :: u16
  RecordNumber :: u16
  SSOD :: string
  RSOD :: string
  GRP :: string
  RPP :: string
  TMFE :: string
  EVFE :: string
  OBFE :: string
  ObjectIdentifier :: u32
  EventIdentifier :: u32
  Time :: u32
  SourceServiceType :: u8
  RecipientServiceType :: u8
  RecordsData :: RecordsData

type_synonym ServicesFrameData = "ServiceDataRecord option list"

text \<open>One turn of the decoder's loop.\<close>

definition SDR_step :: "bytes \<Rightarrow> (ServiceDataRecord \<times> bytes) result" where
  "SDR_step b =
     bindR (wrapf ''SFRD; Error reading RL'' (ReadUint16 b)) (\<lambda>(rl, r).
     if rl = 0 then Inl (Errorf ''SFRD; EGTS_PC_INC_DATAFORM'')
     else
     bindR (wrapf ''SFRD; Error reading RN'' (ReadUint16 r)) (\<lambda>(rn, r).
     bindR (wrapf ''SFRD; Error reading flags'' (ReadByte r)) (\<lambda>(flagByte, r).
     let bits = bits08 flagByte;
         obfe = substr bits 7 8; evfe = substr bits 6 7; tmfe = substr bits 5 6;
         rpp = substr bits 3 5; grp = substr bits 2 3; rsod = substr bits 1 2;
         ssod = substr bits 0 1 in
     bindR (wrapf ''SFRD; Error reading OID'' (when_flag obfe ReadUint32 0 r)) (\<lambda>(oid, r).
     bindR (wrapf ''SFRD; Error reading EVID'' (when_flag evfe ReadUint32 0 r)) (\<lambda>(evid, r).
     bindR (wrapf ''SFRD; Error reading TM'' (when_flag tmfe ReadUint32 0 r)) (\<lambda>(tm, r).
     bindR (wrapf ''SFRD; Error reading SST'' (ReadByte r)) (\<lambda>(sst, r).
     bindR (wrapf ''SFRD; Error reading RST'' (ReadByte r)) (\<lambda>(rst, r).
     if unat rl > length r then Inl (Errorf ''SFRD; Record length exceeds available data'')
     else
     bindR (wrapf ''SFRD; Error reading RD'' (ReadFull (unat rl) r)) (\<lambda>(bb, r).
     bindR (wrapf ''SFRD'' (RecordsData_Decode bb)) (\<lambda>rd.
     Inr (\<lparr>RecordLength = rl, RecordNumber = rn, SSOD = ssod, RSOD = rsod, GRP = grp,
       RPP = rpp, TMFE = tmfe, EVFE = evfe, OBFE = obfe, ObjectIdentifier = oid,
       EventIdentifier = evid, Time = tm, SourceServiceType = sst, RecipientServiceType = rst,
       RecordsData = rd\<rparr>, r)))))))))))"

text \<open>The header of a service record, without its record data.\<close>

definition SDR_header :: "u8 \<Rightarrow> ServiceDataRecord \<Rightarrow> bytes" where
  "SDR_header flags sdr =
     PutUint16 (RecordLength sdr) @ PutUint16 (RecordNumber sdr) @ [flags] @
     flag_bytes (OBFE sdr) (PutUint32 (ObjectIdentifier sdr)) @
     flag_bytes (EVFE sdr) (PutUint32 (EventIdentifier sdr)) @
     flag_bytes (TMFE sdr) (PutUint32 (Time sdr)) @
     [SourceServiceType sdr, RecipientServiceType sdr]"

text \<open>What the flags and the optional fields of a record are, for a flag byte \<open>w\<close>.\<close>

definition SDR_flags :: "u8 \<Rightarrow> ServiceDataRecord \<Rightarrow> bool" where
  "SDR_flags w sdr \<longleftrightarrow>
     SSOD sdr = bitstr w 7 \<and> RSOD sdr = bitstr w 6 \<and> GRP sdr = bitstr w 5 \<and>
     RPP sdr = bitstr w 4 @ bitstr w 3 \<and> TMFE sdr = bitstr w 2 \<and> EVFE sdr = bitstr w 1 \<and>
     OBFE sdr = bitstr w 0"

definition SDR_absent :: "ServiceDataRecord \<Rightarrow> bool" where
  "SDR_absent sdr \<longleftrightarrow>
     (OBFE sdr \<noteq> ''1'' \<longrightarrow> ObjectIdentifier sdr = 0) \<and>
     (EVFE sdr \<noteq> ''1'' \<longrightarrow> EventIdentifier sdr = 0) \<and>
     (TMFE sdr \<noteq> ''1'' \<longrightarrow> Time sdr = 0)"

lemma SDR_step_Inr:
  "SDR_step b = Inr (sdr, r) \<longleftrightarrow>
   (\<exists>w bb. b = SDR_header w sdr @ bb @ r \<and> SDR_flags w sdr \<and> SDR_absent sdr \<and>
      RecordLength sdr \<noteq> 0 \<and> length bb = unat (RecordLength sdr) \<and>
      RecordsData_Decode bb = Inr (RecordsData sdr))"
proof
  assume "SDR_step b = Inr (sdr, r)"
  then show "\<exists>w bb. b = SDR_header w sdr @ bb @ r \<and> SDR_flags w sdr \<and> SDR_absent sdr \<and>
      RecordLength sdr \<noteq> 0 \<and> length bb = unat (RecordLength sdr) \<and>
      RecordsData_Decode bb = Inr (RecordsData sdr)"
    by (clarsimp simp: SDR_step_def go_simps go_inv Let_def SDR_header_def SDR_flags_def
        SDR_absent_def)
next
  assume "\<exists>w bb. b = SDR_header w sdr @ bb @ r \<and> SDR_flags w sdr \<and> SDR_absent sdr \<and>
      RecordLength sdr \<noteq> 0 \<and> length bb = unat (RecordLength sdr) \<and>
      RecordsData_Decode bb = Inr (RecordsData sdr)"
  then obtain w bb where s: "b = SDR_header w sdr @ bb @ r" "SDR_flags w sdr" "SDR_absent sdr"
      "RecordLength sdr \<noteq> 0" "length bb = unat (RecordLength sdr)"
      "RecordsData_Decode bb = Inr (RecordsData sdr)" by blast
  from s(2,3) show "SDR_step b = Inr (sdr, r)"
    unfolding SDR_step_def Let_def s(1) SDR_header_def SDR_flags_def SDR_absent_def
    by (simp add: go_simps s(4-6))
qed

lemma SDR_step_shorter: "SDR_step b = Inr (sdr, r) \<Longrightarrow> length r < length b"
  by (auto simp: SDR_step_Inr SDR_header_def)

function ServicesFrameData_Decode :: "bytes \<Rightarrow> ServicesFrameData result" where
  "ServicesFrameData_Decode b =
     (if b = [] then Inr []
      else
        bindR (SDR_step b) (\<lambda>(sdr, r).
        bindR (ServicesFrameData_Decode r) (\<lambda>rest.
        Inr (Some sdr # rest))))"
  by auto
termination
  by (relation "measure length") (auto dest: SDR_step_shorter)

declare ServicesFrameData_Decode.simps [simp del]

lemma ServicesFrameData_Decode_Nil [simp]: "ServicesFrameData_Decode [] = Inr []"
  by (simp add: ServicesFrameData_Decode.simps)

lemma ServicesFrameData_Decode_Cons:
  "SDR_step b = Inr (sdr, r) \<Longrightarrow>
   ServicesFrameData_Decode b =
     bindR (ServicesFrameData_Decode r) (\<lambda>rest. Inr (Some sdr # rest))"
  by (subst ServicesFrameData_Decode.simps) (auto dest: SDR_step_shorter)

text \<open>What holds of the content of each record holds of all service records.\<close>

lemma ServicesFrameData_Decode_all:
  assumes "\<And>b sdr. RecordsData_Decode b = Inr (RecordsData sdr) \<Longrightarrow> P (Some sdr)"
  shows "ServicesFrameData_Decode bs = Inr rs \<Longrightarrow> list_all P rs"
proof (induction bs arbitrary: rs rule: ServicesFrameData_Decode.induct)
  case (1 b)
  show ?case
  proof (cases "b = []")
    case False
    with "1.prems" obtain sdr r rest where s: "SDR_step b = Inr (sdr, r)"
      "ServicesFrameData_Decode r = Inr rest" "rs = Some sdr # rest"
      by (subst (asm) ServicesFrameData_Decode.simps) (auto split: prod.splits)
    from s(1) obtain bb where "RecordsData_Decode bb = Inr (RecordsData sdr)"
      by (auto simp: SDR_step_Inr)
    from assms [OF this] "1.IH" [OF False s(1) refl s(2)] s(3) show ?thesis by simp
  qed (use "1.prems" in simp)
qed

section \<open>Encoding\<close>

text \<open>The checks on one record, in the order of the code.\<close>

definition SDR_checks :: "ServiceDataRecord \<Rightarrow> goerr option" where
  "SDR_checks sdr =
     (if \<not> is_flag (SSOD sdr) then Some (Errorf ''SFRD; Invalid SSOD flag'')
      else if \<not> is_flag (RSOD sdr) then Some (Errorf ''SFRD; Invalid RSOD flag'')
      else if \<not> is_flag (GRP sdr) then Some (Errorf ''SFRD; Invalid GRP flag'')
      else if length (RPP sdr) \<noteq> 2 then Some (Errorf ''SFRD; RPP must contain 2 bits'')
      else if \<not> is_flag (TMFE sdr) then Some (Errorf ''SFRD; Invalid TMFE flag'')
      else if \<not> is_flag (EVFE sdr) then Some (Errorf ''SFRD; Invalid EVFE flag'')
      else if \<not> is_flag (OBFE sdr) then Some (Errorf ''SFRD; Invalid OBFE flag'')
      else None)"

fun ServicesFrameData_Encode_loop :: "bytes \<Rightarrow> ServicesFrameData \<Rightarrow> bytes result" where
  "ServicesFrameData_Encode_loop buffer [] = Inr buffer"
| "ServicesFrameData_Encode_loop buffer (None # sdrs) =
     Inl (Errorf ''SFRD; Service record is nil'')"
| "ServicesFrameData_Encode_loop buffer (Some sdr # sdrs) =
     (case SDR_checks sdr of
        Some e \<Rightarrow> Inl e
      | None \<Rightarrow>
          bindR (wrapf ''SFRD; Error parsing flags''
            (parse_flags (SSOD sdr @ RSOD sdr @ GRP sdr @ RPP sdr @ TMFE sdr @ EVFE sdr @
               OBFE sdr))) (\<lambda>flags.
          bindR (wrapf ''SFRD; Error encoding RN %d'' (RecordsData_Encode (Some (RecordsData sdr)))) (\<lambda>rd.
          if length rd = 0 \<or> unat (RecordLength sdr) \<noteq> length rd
          then Inl (Errorf ''SFRD; RL does not match encoded data length'')
          else
            (let buffer = buffer @ SDR_header flags sdr in
             if length buffer + length rd > 65535
             then Inl (Errorf ''SFRD; Service data exceeds 65535 bytes'')
             else ServicesFrameData_Encode_loop (buffer @ rd) sdrs))))"

fun ServicesFrameData_Encode :: "ServicesFrameData option \<Rightarrow> bytes result" where
  "ServicesFrameData_Encode None = Inl (Errorf ''SFRD; ServicesFrameData is nil'')"
| "ServicesFrameData_Encode (Some sfrd) = ServicesFrameData_Encode_loop [] sfrd"

definition ServicesFrameData_Len :: "ServicesFrameData option \<Rightarrow> u16" where
  "ServicesFrameData_Len sfrd = Len_of (ServicesFrameData_Encode sfrd)"

section \<open>What the encoder writes\<close>

lemma SDR_checks_flags:
  "SDR_checks sdr = None \<and> parse_flags (SSOD sdr @ RSOD sdr @ GRP sdr @ RPP sdr @ TMFE sdr @
     EVFE sdr @ OBFE sdr) = Inr w \<longleftrightarrow> SDR_flags w sdr"
proof
  assume *: "SDR_checks sdr = None \<and> parse_flags (SSOD sdr @ RSOD sdr @ GRP sdr @ RPP sdr @
      TMFE sdr @ EVFE sdr @ OBFE sdr) = Inr w"
  then have f: "is_flag (SSOD sdr)" "is_flag (RSOD sdr)" "is_flag (GRP sdr)" "is_flag (TMFE sdr)"
    "is_flag (EVFE sdr)" "is_flag (OBFE sdr)" and "length (RPP sdr) = 2"
    by (simp_all add: SDR_checks_def split: if_splits)
  then obtain a b where ab: "RPP sdr = [a] @ [b]" by (auto dest!: length_2D)
  from * f ab have "SSOD sdr @ RSOD sdr @ GRP sdr @ [a] @ [b] @ TMFE sdr @ EVFE sdr @ OBFE sdr = bits08 w"
    by (subst parse_flags_Inr [symmetric]) (simp_all add: is_flag_length)
  from bitstr_flags [OF this] f show "SDR_flags w sdr"
    by (simp add: SDR_flags_def ab is_flag_length)
next
  assume "SDR_flags w sdr"
  then show "SDR_checks sdr = None \<and> parse_flags (SSOD sdr @ RSOD sdr @ GRP sdr @ RPP sdr @
      TMFE sdr @ EVFE sdr @ OBFE sdr) = Inr w"
    by (simp add: SDR_flags_def SDR_checks_def go_simps)
qed

definition SDR_flag_byte :: "ServiceDataRecord \<Rightarrow> u8" where
  "SDR_flag_byte sdr =
     (case parse_flags (SSOD sdr @ RSOD sdr @ GRP sdr @ RPP sdr @ TMFE sdr @ EVFE sdr @ OBFE sdr) of
        Inl _ \<Rightarrow> 0 | Inr w \<Rightarrow> w)"

lemma SDR_flag_byte_eq: "SDR_flags w sdr \<Longrightarrow> SDR_flag_byte sdr = w"
  using SDR_checks_flags [of sdr w] by (simp add: SDR_flag_byte_def)

definition SDR_bytes :: "ServiceDataRecord option \<Rightarrow> bytes" where
  "SDR_bytes s = (case s of None \<Rightarrow> [] | Some sdr \<Rightarrow>
     SDR_header (SDR_flag_byte sdr) sdr @ records_bytes (RecordsData sdr))"

abbreviation SFRD_bytes :: "ServicesFrameData \<Rightarrow> bytes" where
  "SFRD_bytes sfrd \<equiv> concat (map SDR_bytes sfrd)"

text \<open>The records the encoder accepts, and among them those it does not lose anything of.\<close>

definition codable_SDR :: "ServiceDataRecord option \<Rightarrow> bool" where
  "codable_SDR s \<longleftrightarrow> (case s of None \<Rightarrow> False | Some sdr \<Rightarrow>
     SDR_flags (SDR_flag_byte sdr) sdr \<and> list_all codable (RecordsData sdr) \<and>
     RecordLength sdr \<noteq> 0 \<and> unat (RecordLength sdr) = length (records_bytes (RecordsData sdr)))"

definition wf_SDR :: "ServiceDataRecord option \<Rightarrow> bool" where
  "wf_SDR s \<longleftrightarrow> (case s of None \<Rightarrow> False | Some sdr \<Rightarrow>
     SDR_flags (SDR_flag_byte sdr) sdr \<and> SDR_absent sdr \<and> list_all wf_Record (RecordsData sdr) \<and>
     RecordLength sdr \<noteq> 0 \<and> unat (RecordLength sdr) = length (records_bytes (RecordsData sdr)))"

definition wf_SFRD :: "ServicesFrameData \<Rightarrow> bool" where
  "wf_SFRD sfrd \<longleftrightarrow> list_all wf_SDR sfrd \<and> length (SFRD_bytes sfrd) \<le> 65535"

lemma wf_SDR_codable: "wf_SDR s \<Longrightarrow> codable_SDR s"
  by (auto simp: wf_SDR_def codable_SDR_def wf_Record_codable split: option.splits
      elim: list.pred_mono_strong)

lemma unat_u16_le: "unat (w :: u16) \<le> 65535"
  using unsigned_less [of w, where 'a = nat] by simp

text \<open>One turn of the loop, on a record that can be encoded and on one that cannot.\<close>

lemma codable_SDR_encoded:
  assumes "codable_SDR (Some sdr)"
  shows "RecordsData_Encode (Some (RecordsData sdr)) = Inr (records_bytes (RecordsData sdr))"
    "length (records_bytes (RecordsData sdr)) = unat (RecordLength sdr)" "RecordLength sdr \<noteq> 0"
    "SDR_checks sdr = None"
    "parse_flags (SSOD sdr @ RSOD sdr @ GRP sdr @ RPP sdr @ TMFE sdr @ EVFE sdr @ OBFE sdr) = Inr (SDR_flag_byte sdr)"
proof -
  from assms have c: "SDR_flags (SDR_flag_byte sdr) sdr" "list_all codable (RecordsData sdr)"
    "RecordLength sdr \<noteq> 0" "unat (RecordLength sdr) = length (records_bytes (RecordsData sdr))"
    by (simp_all add: codable_SDR_def)
  then show "RecordsData_Encode (Some (RecordsData sdr)) = Inr (records_bytes (RecordsData sdr))"
    using unat_u16_le [of "RecordLength sdr"] by (subst RecordsData_Encode_Inr) simp
qed (use assms in \<open>simp_all add: codable_SDR_def SDR_checks_flags [symmetric]\<close>)

lemma Encode_loop_codable:
  assumes "codable_SDR (Some sdr)"
  shows "ServicesFrameData_Encode_loop buf (Some sdr # sdrs) =
    (if length (buf @ SDR_bytes (Some sdr)) > 65535 then Inl (Errorf ''SFRD; Service data exceeds 65535 bytes'')
     else ServicesFrameData_Encode_loop (buf @ SDR_bytes (Some sdr)) sdrs)"
proof -
  note c = codable_SDR_encoded [OF assms]
  have "unat (RecordLength sdr) \<noteq> 0" using c(3) by (simp add: unat_eq_zero)
  then show ?thesis
    using c(2) by (simp add: c(1,4,5) Let_def SDR_bytes_def del: RecordsData_Encode.simps length_concat length_0_conv concat_eq_Nil_conv)
qed

lemma Encode_loop_uncodable:
  assumes "\<not> codable_SDR (Some sdr)"
  shows "ServicesFrameData_Encode_loop buf (Some sdr # sdrs) \<noteq> Inr bs"
proof
  assume "ServicesFrameData_Encode_loop buf (Some sdr # sdrs) = Inr bs"
  then obtain w rd where w: "SDR_flags w sdr" "RecordsData_Encode (Some (RecordsData sdr)) = Inr rd"
    "length rd \<noteq> 0" "unat (RecordLength sdr) = length rd"
    by (auto simp: SDR_checks_flags [symmetric] Let_def simp del: RecordsData_Encode.simps
        split: option.splits if_splits)
  then have "RecordLength sdr \<noteq> 0" by auto
  with w assms show False
    by (auto simp: codable_SDR_def RecordsData_Encode_Inr SDR_flag_byte_eq
        simp del: RecordsData_Encode.simps)
qed

lemma ServicesFrameData_Encode_loop_Inr:
  "length buf \<le> 65535 \<Longrightarrow>
   ServicesFrameData_Encode_loop buf ss = Inr bs \<longleftrightarrow>
   list_all codable_SDR ss \<and> bs = buf @ SFRD_bytes ss \<and> length bs \<le> 65535"
proof (induction ss arbitrary: buf)
  case Nil
  then show ?case by auto
next
  case (Cons s ss)
  show ?case
  proof (cases s)
    case None
    then show ?thesis by (simp add: codable_SDR_def)
  next
    case (Some sdr)
    show ?thesis
    proof (cases "codable_SDR (Some sdr)")
      case True
      with Cons.IH [of "buf @ SDR_bytes (Some sdr)"] Some show ?thesis
        by (auto simp: Encode_loop_codable simp del: ServicesFrameData_Encode_loop.simps(3))
    qed (use Some Encode_loop_uncodable in simp)
  qed
qed

lemma ServicesFrameData_Encode_Inr:
  "ServicesFrameData_Encode (Some ss) = Inr bs \<longleftrightarrow>
   list_all codable_SDR ss \<and> bs = SFRD_bytes ss \<and> length bs \<le> 65535"
  using ServicesFrameData_Encode_loop_Inr [of "[]" ss bs] by simp

lemma SDR_step_bytes:
  assumes "wf_SDR s"
  obtains sdr where "s = Some sdr" "SDR_step (SDR_bytes s @ q) = Inr (sdr, q)"
proof -
  from assms obtain sdr where s: "s = Some sdr" "SDR_flags (SDR_flag_byte sdr) sdr" "SDR_absent sdr"
    "list_all wf_Record (RecordsData sdr)" "RecordLength sdr \<noteq> 0"
    "unat (RecordLength sdr) = length (records_bytes (RecordsData sdr))"
    by (auto simp: wf_SDR_def split: option.splits)
  then have "SDR_step (SDR_bytes s @ q) = Inr (sdr, q)"
    unfolding SDR_step_Inr
    by (intro exI [of _ "SDR_flag_byte sdr"] exI [of _ "records_bytes (RecordsData sdr)"])
      (simp add: SDR_bytes_def RecordsData_Decode_bytes)
  with s(1) show thesis by (rule that)
qed

lemma ServicesFrameData_Decode_bytes:
  "list_all wf_SDR ss \<Longrightarrow> ServicesFrameData_Decode (SFRD_bytes ss) = Inr ss"
proof (induction ss)
  case (Cons s ss)
  then obtain sdr where "s = Some sdr" "SDR_step (SDR_bytes s @ SFRD_bytes ss) = Inr (sdr, SFRD_bytes ss)"
    using SDR_step_bytes by (metis list.pred_inject(2))
  with Cons show ?case by (simp add: ServicesFrameData_Decode_Cons)
qed simp

lemma SFRD_roundtrip:
  assumes "wf_SFRD ss"
  shows "ServicesFrameData_Encode (Some ss) = Inr (SFRD_bytes ss)"
    and "ServicesFrameData_Decode (SFRD_bytes ss) = Inr ss"
  using assms wf_SDR_codable
  by (auto simp: wf_SFRD_def ServicesFrameData_Encode_Inr ServicesFrameData_Decode_bytes
      simp del: ServicesFrameData_Encode.simps elim: list.pred_mono_strong)

interpretation services: bytes_data ServicesFrameData_Decode ServicesFrameData_Encode wf_SFRD
  by unfold_locales (use SFRD_roundtrip in auto)

end
