(* ===== verification/Crc.thy ===== *)
theory Crc
  imports Go_Prelude
begin

text \<open>
  The checksums: \<open>crc/crc8/crc8.go\<close>, \<open>crc/crc16/crc16.go\<close>, the bit reversals of
  \<open>egts/utils/utils.go\<close> and the entry point \<open>crc/crc.go\<close>. The table-driven code is modelled as
  written (\<open>MakeTable\<close>, \<open>Update\<close>, \<open>Complete\<close>, \<open>Checksum\<close>) and proved equal to the
  register-level definition of a cyclic redundancy check, one shift per data bit. The locale
  \<open>byte_register\<close> states what error detection needs of the byte step; it is interpreted on both
  steps.
\<close>

section \<open>Bit reversal\<close>

definition ReverseByte :: "u8 \<Rightarrow> u8" where
  "ReverseByte val =
     foldl (\<lambda>rval i. if val AND push_bit i 1 \<noteq> 0 then rval OR drop_bit i 0x80 else rval) 0 [0..<8]"

definition ReverseUint8 :: "u8 \<Rightarrow> u8" where
  "ReverseUint8 val = ReverseByte val"

definition ReverseUint16 :: "u16 \<Rightarrow> u16" where
  "ReverseUint16 val =
     foldl (\<lambda>rval i. if val AND push_bit i 1 \<noteq> 0 then rval OR drop_bit i 0x8000 else rval) 0 [0..<16]"

text \<open>Bit \<open>k\<close> of the accumulator after the loop, for a loop over any set of positions.\<close>

lemma and_push_bit_1: "val AND push_bit i 1 \<noteq> 0 \<longleftrightarrow> i < LENGTH('a) \<and> bit val i" for val :: "'a::len word"
proof -
  have "bit (val AND push_bit i 1) k \<longleftrightarrow> k = i \<and> i < LENGTH('a) \<and> bit val i" for k
    by (auto simp: bit_simps dest: bit_imp_le_length)
  then show ?thesis
    by (metis bit_0_eq bot_apply bot_bool_def bit_eqI)
qed

lemma reverse_loop_bit:
  fixes val r top :: "'a::len word"
  assumes "k \<le> m" "m < LENGTH('a)" "top = push_bit m 1" "list_all (\<lambda>i. i \<le> m) ks"
  shows "bit (foldl (\<lambda>rval i. if val AND push_bit i 1 \<noteq> 0 then rval OR drop_bit i top else rval) r ks) k
    \<longleftrightarrow> bit r k \<or> (m - k \<in> set ks \<and> bit val (m - k))"
  using assms(4)
proof (induction ks arbitrary: r)
  case Nil
  then show ?case by simp
next
  case (Cons i ks)
  define r' where "r' = (if val AND push_bit i 1 \<noteq> 0 then r OR drop_bit i top else r)"
  from Cons.prems have "i \<le> m" by simp
  then have "bit (drop_bit i top) k \<longleftrightarrow> i = m - k"
    using assms(1-3) by (auto simp: bit_simps)
  with \<open>i \<le> m\<close> assms(2) have "bit r' k \<longleftrightarrow> bit r k \<or> (i = m - k \<and> bit val (m - k))"
    by (auto simp only: r'_def and_push_bit_1 bit_or_iff split: if_splits)
  moreover from Cons.prems have "list_all (\<lambda>i. i \<le> m) ks" by simp
  note Cons.IH [OF this, of r']
  ultimately show ?case
    unfolding foldl_Cons r'_def [symmetric] list.set(2) by blast
qed

lemma bit_ReverseByte: "i < 8 \<Longrightarrow> bit (ReverseByte b) i = bit b (7 - i)"
  unfolding ReverseByte_def
  by (subst reverse_loop_bit [where m = 7]) (auto simp: list_all_iff)

lemma bit_ReverseUint16: "i < 16 \<Longrightarrow> bit (ReverseUint16 b) i = bit b (15 - i)"
  unfolding ReverseUint16_def
  by (subst reverse_loop_bit [where m = 15]) (auto simp: list_all_iff)

lemma ReverseByte_involution [simp]: "ReverseByte (ReverseByte b) = b"
  by (rule bit_word_eqI) (simp add: bit_ReverseByte)

lemma ReverseUint16_involution [simp]: "ReverseUint16 (ReverseUint16 w) = w"
  by (rule bit_word_eqI) (simp add: bit_ReverseUint16)

section \<open>CRC-8\<close>

record Params8 =
  Poly8 :: u8
  Init8 :: u8
  RefIn8 :: bool
  RefOut8 :: bool
  XorOut8 :: u8
  Check8 :: u8
  Name8 :: string

record Table8 =
  params8 :: Params8
  data8 :: "u8 list"

text \<open>The body of the inner loop of \<open>MakeTable\<close>.\<close>

definition shift8 :: "u8 \<Rightarrow> u8 \<Rightarrow> u8" where
  "shift8 poly crc =
     (let bit = (crc AND 0x80 \<noteq> 0); crc = push_bit 1 crc in if bit then crc XOR poly else crc)"

definition MakeTable8 :: "Params8 \<Rightarrow> Table8" where
  "MakeTable8 params =
     \<lparr>params8 = params,
      data8 = map (\<lambda>n. (shift8 (Poly8 params) ^^ 8) (word_of_nat n)) [0..<256]\<rparr>"

definition Init_crc8 :: "Table8 \<Rightarrow> u8" where
  "Init_crc8 table = Init8 (params8 table)"

definition Update_step8 :: "Table8 \<Rightarrow> u8 \<Rightarrow> u8 \<Rightarrow> u8" where
  "Update_step8 table crc d =
     (let d = (if RefIn8 (params8 table) then ReverseByte d else d)
      in data8 table ! unat (crc XOR d))"

definition Update8 :: "u8 \<Rightarrow> bytes \<Rightarrow> Table8 \<Rightarrow> u8" where
  "Update8 crc data table = foldl (Update_step8 table) crc data"

definition Complete8 :: "u8 \<Rightarrow> Table8 \<Rightarrow> u8" where
  "Complete8 crc table =
     (let crc = (if RefOut8 (params8 table) then ReverseUint8 crc else crc)
      in crc XOR XorOut8 (params8 table))"

definition Checksum8 :: "bytes \<Rightarrow> Table8 \<Rightarrow> u8" where
  "Checksum8 data table = Complete8 (Update8 (Init_crc8 table) data table) table"

section \<open>CRC-16\<close>

record Params16 =
  Poly16 :: u16
  Init16 :: u16
  RefIn16 :: bool
  RefOut16 :: bool
  XorOut16 :: u16
  Check16 :: u16
  Name16 :: string

record Table16 =
  params16 :: Params16
  data16 :: "u16 list"

definition shift16 :: "u16 \<Rightarrow> u16 \<Rightarrow> u16" where
  "shift16 poly crc =
     (let bit = (crc AND 0x8000 \<noteq> 0); crc = push_bit 1 crc in if bit then crc XOR poly else crc)"

definition MakeTable16 :: "Params16 \<Rightarrow> Table16" where
  "MakeTable16 params =
     \<lparr>params16 = params,
      data16 = map (\<lambda>n. (shift16 (Poly16 params) ^^ 8) (push_bit 8 (word_of_nat n))) [0..<256]\<rparr>"

definition Init_crc16 :: "Table16 \<Rightarrow> u16" where
  "Init_crc16 table = Init16 (params16 table)"

definition Update_step16 :: "Table16 \<Rightarrow> u16 \<Rightarrow> u8 \<Rightarrow> u16" where
  "Update_step16 table crc d =
     (let d = (if RefIn16 (params16 table) then ReverseByte d else d)
      in push_bit 8 crc XOR data16 table ! unat (ucast (drop_bit 8 crc) XOR d))"

definition Update16 :: "u16 \<Rightarrow> bytes \<Rightarrow> Table16 \<Rightarrow> u16" where
  "Update16 crc data table = foldl (Update_step16 table) crc data"

definition Complete16 :: "u16 \<Rightarrow> Table16 \<Rightarrow> u16" where
  "Complete16 crc table =
     (if RefOut16 (params16 table) then ReverseUint16 crc XOR XorOut16 (params16 table)
      else crc XOR XorOut16 (params16 table))"

definition Checksum16 :: "bytes \<Rightarrow> Table16 \<Rightarrow> u16" where
  "Checksum16 data table = Complete16 (Update16 (Init_crc16 table) data table) table"

section \<open>The register-level definition\<close>

text \<open>
  A cyclic redundancy check by its definition: the register takes one data bit at a time, and
  the polynomial is subtracted when the bit shifted out differs from the data bit. \<open>crc_reg\<close> is
  the reference the table-driven code is compared with; a reflected algorithm feeds the bits of
  each byte from the lowest.
\<close>

definition crc_shift :: "'a::len word \<Rightarrow> 'a word \<Rightarrow> 'a word" where
  "crc_shift poly r =
     (if bit r (LENGTH('a) - 1) then push_bit 1 r XOR poly else push_bit 1 r)"

definition crc_bit :: "'a::len word \<Rightarrow> 'a word \<Rightarrow> bool \<Rightarrow> 'a word" where
  "crc_bit poly r b =
     (if bit r (LENGTH('a) - 1) \<noteq> b then push_bit 1 r XOR poly else push_bit 1 r)"

definition msb_first :: "u8 \<Rightarrow> bool list" where
  "msb_first d = map (bit d) [7, 6, 5, 4, 3, 2, 1, 0]"

definition lsb_first :: "u8 \<Rightarrow> bool list" where
  "lsb_first d = map (bit d) [0, 1, 2, 3, 4, 5, 6, 7]"

definition crc_reg :: "'a::len word \<Rightarrow> bool \<Rightarrow> 'a word \<Rightarrow> bytes \<Rightarrow> 'a word" where
  "crc_reg poly refin r data =
     foldl (crc_bit poly) r (concat (map (if refin then lsb_first else msb_first) data))"

text \<open>\<open>left_aligned bs\<close> holds the bits \<open>bs\<close> in the top positions of the register.\<close>

fun left_aligned :: "bool list \<Rightarrow> 'a::len word" where
  "left_aligned [] = 0"
| "left_aligned (b # bs) = (if b then push_bit (LENGTH('a) - 1) 1 else 0) XOR drop_bit 1 (left_aligned bs)"

lemma bit_left_aligned:
  "length bs \<le> LENGTH('a) \<Longrightarrow>
   bit (left_aligned bs :: 'a::len word) i \<longleftrightarrow>
     i < LENGTH('a) \<and> LENGTH('a) - 1 - i < length bs \<and> bs ! (LENGTH('a) - 1 - i)"
proof (induction bs arbitrary: i)
  case Nil
  then show ?case by simp
next
  case (Cons b bs)
  then have "bit (drop_bit 1 (left_aligned bs :: 'a word)) i \<longleftrightarrow>
      Suc i < LENGTH('a) \<and> LENGTH('a) - 1 - Suc i < length bs \<and> bs ! (LENGTH('a) - 1 - Suc i)"
    by (simp add: bit_drop_bit_eq)
  then show ?case
    by (cases "Suc i < LENGTH('a)")
      (auto simp: bit_simps nth_Cons' dest: bit_imp_le_length)
qed

lemma crc_shift_xor:
  "\<not> bit y (LENGTH('a) - 1) \<Longrightarrow> crc_shift poly (x XOR y) = crc_shift poly x XOR push_bit 1 y"
  for x y poly :: "'a::len word"
  by (auto simp: crc_shift_def bit_xor_iff push_bit_xor xor.left_commute xor.commute)

lemma crc_shift_funpow_xor:
  "(\<And>i. bit y i \<Longrightarrow> i + n < LENGTH('a)) \<Longrightarrow>
   (crc_shift poly ^^ n) (x XOR y) = (crc_shift poly ^^ n) x XOR push_bit n y"
  for x y poly :: "'a::len word"
proof (induction n)
  case 0
  then show ?case by simp
next
  case (Suc n)
  then have "\<And>i. bit y i \<Longrightarrow> i + n < LENGTH('a)" by fastforce
  note IH = Suc.IH [OF this]
  have "\<not> bit (push_bit n y) (LENGTH('a) - 1)"
    using Suc.prems [of "LENGTH('a) - 1 - n"] by (auto simp: bit_push_bit_iff)
  then show ?case
    using IH by (simp add: crc_shift_xor push_bit_push_bit add.commute)
qed

lemma push_drop_1: "\<not> bit x 0 \<Longrightarrow> push_bit 1 (drop_bit 1 x) = x" for x :: "'a::len word"
proof -
  assume "\<not> bit x 0"
  then have "take_bit 1 x = 0" by (simp add: bit_0 take_bit_Suc even_iff_mod_2_eq_zero)
  then show ?thesis using bits_ident [of 1 x] by simp
qed

lemma crc_bit_top:
  "crc_bit poly r b = crc_shift poly (r XOR (if b then push_bit (LENGTH('a) - 1) 1 else 0))"
  for r poly :: "'a::len word"
proof (cases b)
  case True
  have msb: "bit (r XOR push_bit (LENGTH('a) - 1) 1) (LENGTH('a) - 1) \<longleftrightarrow> \<not> bit r (LENGTH('a) - 1)"
    by (simp add: bit_simps)
  have "push_bit 1 (r XOR push_bit (LENGTH('a) - 1) 1) = push_bit 1 r"
    by (rule bit_word_eqI) (auto simp only: bit_push_bit_iff bit_xor_iff bit_1_iff
        possible_bit_word intro: less_imp_diff_less)
  with True msb show ?thesis by (simp only: crc_bit_def crc_shift_def if_True) simp
qed (simp add: crc_bit_def crc_shift_def)

lemma foldl_crc_bit:
  "length bs \<le> LENGTH('a) \<Longrightarrow>
   foldl (crc_bit poly) r bs = (crc_shift poly ^^ length bs) (r XOR left_aligned bs)"
  for r poly :: "'a::len word"
proof (induction bs arbitrary: r)
  case Nil
  then show ?case by simp
next
  case (Cons b bs)
  define top where "top = (if b then push_bit (LENGTH('a) - 1) 1 else 0 :: 'a word)"
  note crc_bit_top = crc_bit_top [of poly r b, folded top_def]
  define low where "low = drop_bit 1 (left_aligned bs :: 'a word)"
  have len: "length bs < LENGTH('a)" using Cons.prems by simp
  then have "\<not> bit (left_aligned bs :: 'a word) 0"
    by (subst bit_left_aligned) auto
  then have low: "push_bit 1 low = left_aligned bs"
    unfolding low_def by (rule push_drop_1)
  have "\<not> bit low (LENGTH('a) - 1)"
    by (auto simp: low_def bit_simps dest: bit_imp_le_length)
  from crc_shift_xor [OF this, of poly "r XOR top"]
  have "crc_shift poly ((r XOR top) XOR low) = crc_shift poly (r XOR top) XOR left_aligned bs"
    by (simp only: low)
  moreover have "crc_bit poly r b = crc_shift poly (r XOR top)"
    by (rule crc_bit_top)
  ultimately have step: "crc_bit poly r b XOR left_aligned bs = crc_shift poly (r XOR left_aligned (b # bs))"
    by (simp only: left_aligned.simps top_def low_def xor.assoc)
  have "foldl (crc_bit poly) r (b # bs) =
      (crc_shift poly ^^ length bs) (crc_bit poly r b XOR left_aligned bs)"
    using Cons.IH len by simp
  also have "\<dots> = (crc_shift poly ^^ length (b # bs)) (r XOR left_aligned (b # bs))"
    unfolding step by (simp add: funpow_swap1 del: left_aligned.simps)
  finally show ?case .
qed

section \<open>The tables implement the definition\<close>

lemma shift8_crc_shift: "shift8 poly crc = crc_shift poly crc"
proof -
  have "crc AND 0x80 \<noteq> 0 \<longleftrightarrow> bit crc 7"
    using and_push_bit_1 [of crc 7] by simp
  then show ?thesis by (simp add: shift8_def crc_shift_def Let_def)
qed

lemma shift16_crc_shift: "shift16 poly crc = crc_shift poly crc"
proof -
  have "crc AND 0x8000 \<noteq> 0 \<longleftrightarrow> bit crc 15"
    using and_push_bit_1 [of crc 15] by simp
  then show ?thesis by (simp add: shift16_def crc_shift_def Let_def)
qed

lemma unat_u8_less: "unat (b :: u8) < 256"
  using unsigned_less [of b] by simp

lemma data8_MakeTable8:
  "data8 (MakeTable8 p) ! unat (b :: u8) = (crc_shift (Poly8 p) ^^ 8) b"
proof -
  have "shift8 poly = crc_shift poly" for poly by (rule ext) (rule shift8_crc_shift)
  with unat_u8_less [of b] show ?thesis
    by (simp add: MakeTable8_def del: funpow.simps)
qed

lemma data16_MakeTable16:
  "data16 (MakeTable16 p) ! unat (b :: u8) = (crc_shift (Poly16 p) ^^ 8) (push_bit 8 (ucast b))"
proof -
  have "shift16 poly = crc_shift poly" for poly by (rule ext) (rule shift16_crc_shift)
  with unat_u8_less [of b] show ?thesis
    by (simp add: MakeTable16_def del: funpow.simps)
qed

lemma nat_less_8: "n < 8 \<Longrightarrow> n = 0 \<or> n = 1 \<or> n = 2 \<or> n = 3 \<or> n = 4 \<or> n = 5 \<or> n = 6 \<or> n = (7::nat)"
  by arith

lemma msb_first_nth: "n < 8 \<Longrightarrow> msb_first d ! n = bit d (7 - n)"
  using nat_less_8 [of n] by (auto simp: msb_first_def)

lemma length_bits_first [simp]: "length (msb_first d) = 8" "length (lsb_first d) = 8"
  by (simp_all add: msb_first_def lsb_first_def)

lemma left_aligned_msb8: "(left_aligned (msb_first d) :: u8) = d"
  by (rule bit_word_eqI) (auto simp: bit_left_aligned msb_first_nth)

lemma left_aligned_msb16: "(left_aligned (msb_first d) :: u16) = push_bit 8 (ucast d)"
proof (rule bit_word_eqI)
  fix n
  assume "n < LENGTH(16)"
  then show "bit (left_aligned (msb_first d) :: u16) n = bit (push_bit 8 (ucast d) :: u16) n"
    by (cases "n < 8") (auto simp: bit_left_aligned msb_first_nth bit_simps)
qed

lemma msb_first_ReverseByte: "msb_first (ReverseByte d) = lsb_first d"
  by (simp add: msb_first_def lsb_first_def bit_ReverseByte)

lemma Update_step8_bits:
  "Update_step8 (MakeTable8 p) crc d =
     foldl (crc_bit (Poly8 p)) crc ((if RefIn8 p then lsb_first else msb_first) d)"
proof -
  have *: "foldl (crc_bit (Poly8 p)) crc (msb_first x) = (crc_shift (Poly8 p) ^^ 8) (crc XOR x)" for x
    by (subst foldl_crc_bit) (simp_all add: left_aligned_msb8 del: funpow.simps)
  have [simp]: "params8 (MakeTable8 p) = p" by (simp add: MakeTable8_def)
  from * [of d] * [of "ReverseByte d"] show ?thesis
    by (simp add: Update_step8_def data8_MakeTable8 Let_def msb_first_ReverseByte
        del: funpow.simps)
qed

lemma Update_step16_bits:
  "Update_step16 (MakeTable16 p) crc d =
     foldl (crc_bit (Poly16 p)) crc ((if RefIn16 p then lsb_first else msb_first) d)"
proof -
  have *: "foldl (crc_bit (Poly16 p)) crc (msb_first x) =
      push_bit 8 crc XOR data16 (MakeTable16 p) ! unat (ucast (drop_bit 8 crc) XOR x)" for x
  proof -
    have "push_bit 8 (ucast (ucast (drop_bit 8 crc) XOR x)) XOR take_bit 8 crc =
        crc XOR push_bit 8 (ucast x)"
      by (rule bit_word_eqI) (auto simp: bit_simps)
    moreover have "push_bit 8 (take_bit 8 crc) = push_bit 8 crc"
      by (rule bit_word_eqI) (auto simp: bit_simps)
    moreover have "bit (take_bit 8 crc) i \<Longrightarrow> i + 8 < LENGTH(16)" for i
      by (simp add: bit_simps)
    then have "(crc_shift (Poly16 p) ^^ 8)
        (push_bit 8 (ucast (ucast (drop_bit 8 crc) XOR x)) XOR take_bit 8 crc) =
        (crc_shift (Poly16 p) ^^ 8) (push_bit 8 (ucast (ucast (drop_bit 8 crc) XOR x))) XOR
          push_bit 8 (take_bit 8 crc)"
      by (rule crc_shift_funpow_xor)
    ultimately show ?thesis
      by (subst foldl_crc_bit)
        (simp_all add: left_aligned_msb16 data16_MakeTable16 xor.commute del: funpow.simps)
  qed
  have [simp]: "params16 (MakeTable16 p) = p" by (simp add: MakeTable16_def)
  from * [of d] * [of "ReverseByte d"] show ?thesis
    by (simp add: Update_step16_def Let_def msb_first_ReverseByte)
qed

lemma params_MakeTable [simp]: "params8 (MakeTable8 p8) = p8" "params16 (MakeTable16 p16) = p16"
  by (simp_all add: MakeTable8_def MakeTable16_def)

lemma Update8_crc_reg: "Update8 crc data (MakeTable8 p) = crc_reg (Poly8 p) (RefIn8 p) crc data"
  unfolding Update8_def crc_reg_def
  by (induction data arbitrary: crc) (simp_all add: Update_step8_bits)

lemma Update16_crc_reg: "Update16 crc data (MakeTable16 p) = crc_reg (Poly16 p) (RefIn16 p) crc data"
  unfolding Update16_def crc_reg_def
  by (induction data arbitrary: crc) (simp_all add: Update_step16_bits)

section \<open>Error detection\<close>

text \<open>
  What detecting a changed byte needs of the byte step: for a fixed data byte the step loses
  nothing of the register, and for a fixed register it loses nothing of the data byte.
\<close>

locale byte_register =
  fixes step :: "'c \<Rightarrow> u8 \<Rightarrow> 'c"
  assumes register_inj: "step c d = step c' d \<Longrightarrow> c = c'"
    and data_inj: "step c d = step c d' \<Longrightarrow> d = d'"
begin

lemma foldl_register_inj: "foldl step c ds = foldl step c' ds \<Longrightarrow> c = c'"
  by (induction ds arbitrary: c c') (auto dest: register_inj)

lemma changed_byte:
  "foldl step c (xs @ a # ys) = foldl step c (xs @ b # ys) \<Longrightarrow> a = b"
  by (auto dest!: foldl_register_inj data_inj)

lemma changed_nth:
  assumes "i < length ds" "b \<noteq> ds ! i"
  shows "foldl step c (ds[i := b]) \<noteq> foldl step c ds"
proof
  assume "foldl step c (ds[i := b]) = foldl step c ds"
  then have "foldl step c (take i ds @ b # drop (Suc i) ds) =
      foldl step c (take i ds @ ds ! i # drop (Suc i) ds)"
    using assms(1) by (simp add: upd_conv_take_nth_drop id_take_nth_drop [symmetric])
  then show False using changed_byte assms(2) by blast
qed

end

lemma xor_cancel: "x XOR z = y XOR z \<Longrightarrow> x = y" "z XOR x = z XOR y \<Longrightarrow> x = y"
  for x y z :: "'a::len word"
  by (metis xor.assoc xor_self_eq xor.right_neutral, metis xor.assoc xor_self_eq xor.left_neutral)

lemma crc_shift_inj:
  fixes x y poly :: "'a::len word"
  assumes "bit poly 0" "crc_shift poly x = crc_shift poly y"
  shows "x = y"
proof -
  have low: "bit (crc_shift poly z) 0 \<longleftrightarrow> bit z (LENGTH('a) - 1)" for z
    using assms(1) by (simp add: crc_shift_def bit_0 even_xor_iff)
  then have msb: "bit x (LENGTH('a) - 1) \<longleftrightarrow> bit y (LENGTH('a) - 1)"
    using assms(2) by metis
  with assms(2) have sh: "push_bit 1 x = push_bit 1 y"
    by (auto simp: crc_shift_def dest: xor_cancel(1) split: if_splits)
  show "x = y"
  proof (rule bit_word_eqI)
    fix n
    assume n: "n < LENGTH('a)"
    show "bit x n \<longleftrightarrow> bit y n"
    proof (cases "n = LENGTH('a) - 1")
      case True
      then show ?thesis using msb by simp
    next
      case False
      then have "Suc n < LENGTH('a)" using n by simp
      moreover have "bit (push_bit 1 x) (Suc n) \<longleftrightarrow> bit (push_bit 1 y) (Suc n)"
        by (simp only: sh)
      ultimately show ?thesis by (simp only: bit_push_bit_iff) simp
    qed
  qed
qed

lemma crc_shift_funpow_inj:
  "bit poly 0 \<Longrightarrow> (crc_shift poly ^^ n) x = (crc_shift poly ^^ n) y \<Longrightarrow> x = y"
  by (induction n) (auto dest: crc_shift_inj)

lemma foldl_crc_bit_inj:
  fixes r r' poly :: "'a::len word"
  assumes "bit poly 0" "length bs \<le> LENGTH('a)" "length bs' = length bs"
    and "foldl (crc_bit poly) r bs = foldl (crc_bit poly) r' bs'"
  shows "r XOR left_aligned bs = r' XOR left_aligned bs'"
  using assms crc_shift_funpow_inj [of poly "length bs"] by (simp add: foldl_crc_bit)

lemma left_aligned_inj:
  assumes "length bs \<le> LENGTH('a)" "length bs' = length bs"
    and "(left_aligned bs :: 'a::len word) = left_aligned bs'"
  shows "bs = bs'"
proof (rule nth_equalityI)
  fix i
  assume i: "i < length bs"
  let ?k = "LENGTH('a) - 1 - i"
  have "LENGTH('a) - 1 - ?k = i" "?k < LENGTH('a)" using i assms(1) by auto
  with i assms(1,2) have "bit (left_aligned bs :: 'a word) ?k \<longleftrightarrow> bs ! i"
    and "bit (left_aligned bs' :: 'a word) ?k \<longleftrightarrow> bs' ! i"
    using bit_left_aligned [of bs ?k, where 'a = 'a] bit_left_aligned [of bs' ?k, where 'a = 'a]
    by simp_all
  with assms(3) show "bs ! i = bs' ! i" by simp
qed (simp add: assms(2))

lemma bits_first_inj:
  assumes "(if refin then lsb_first else msb_first) a = (if refin then lsb_first else msb_first) b"
  shows "a = b"
proof (rule bit_word_eqI)
  fix n
  assume "n < LENGTH(8)"
  then have "n \<in> set [0, 1, 2, 3, 4, 5, 6, 7]" using nat_less_8 [of n] by simp
  moreover have "map (bit a) [0, 1, 2, 3, 4, 5, 6, 7] = map (bit b) [0, 1, 2, 3, 4, 5, 6, 7]"
    using assms by (cases refin) (simp_all add: lsb_first_def msb_first_def)
  ultimately show "bit a n \<longleftrightarrow> bit b n" by (simp only: map_eq_conv)
qed

text \<open>An odd polynomial makes the byte step of either width lossless.\<close>

lemma byte_register_bits:
  fixes poly :: "'a::len word"
  assumes "bit poly 0" "8 \<le> LENGTH('a)"
  shows "byte_register (\<lambda>r d. foldl (crc_bit poly) r ((if refin then lsb_first else msb_first) d))"
    (is "byte_register ?step")
proof
  have len: "length ((if refin then lsb_first else msb_first) d) = 8" for d by simp
  fix c c' d
  assume "?step c d = ?step c' d"
  then have "c XOR left_aligned ((if refin then lsb_first else msb_first) d) =
      c' XOR left_aligned ((if refin then lsb_first else msb_first) d)"
    by (rule foldl_crc_bit_inj [OF assms(1) _ refl, rotated]) (simp only: len assms(2))
  then show "c = c'" by (rule xor_cancel)
next
  have len: "length ((if refin then lsb_first else msb_first) d) = 8" for d by simp
  fix c d d'
  assume "?step c d = ?step c d'"
  then have "c XOR left_aligned ((if refin then lsb_first else msb_first) d) =
      c XOR left_aligned ((if refin then lsb_first else msb_first) d')"
    by (rule foldl_crc_bit_inj [OF assms(1), rotated 2]) (simp_all only: len assms(2))
  then have "(left_aligned ((if refin then lsb_first else msb_first) d) :: 'a word) =
      left_aligned ((if refin then lsb_first else msb_first) d')"
    by (rule xor_cancel)
  then have "(if refin then lsb_first else msb_first) d = (if refin then lsb_first else msb_first) d'"
    by (rule left_aligned_inj [rotated 2]) (simp_all only: len assms(2))
  then show "d = d'" by (rule bits_first_inj)
qed

section \<open>The EGTS checksums\<close>

definition table8 :: Table8 where
  "table8 = MakeTable8
     \<lparr>Poly8 = 0x31, Init8 = 0xFF, RefIn8 = False, RefOut8 = False, XorOut8 = 0x00,
      Check8 = 0xF7, Name8 = ''CRC-8/EGTS''\<rparr>"

definition table16 :: Table16 where
  "table16 = MakeTable16
     \<lparr>Poly16 = 0x1021, Init16 = 0xFFFF, RefIn16 = False, RefOut16 = False, XorOut16 = 0x0,
      Check16 = 0x29B1, Name16 = ''CRC-16/EGTS''\<rparr>"

definition Crc :: "int \<Rightarrow> bytes \<Rightarrow> int" where
  "Crc bits data =
     (if bits = 8 then uint (Checksum8 data table8)
      else if bits = 16 then uint (Checksum16 data table16)
      else 0)"

interpretation egts8: byte_register "Update_step8 table8"
  using byte_register_bits [of "0x31 :: u8" False]
  by (simp add: table8_def Update_step8_bits [abs_def])

interpretation egts16: byte_register "Update_step16 table16"
  using byte_register_bits [of "0x1021 :: u16" False]
  by (simp add: table16_def Update_step16_bits [abs_def])

lemma Checksum8_table8: "Checksum8 data table8 = foldl (Update_step8 table8) 0xFF data"
  by (simp add: Checksum8_def Complete8_def Update8_def Init_crc8_def Let_def) (simp add: table8_def)

lemma Checksum16_table16: "Checksum16 data table16 = foldl (Update_step16 table16) 0xFFFF data"
  by (simp add: Checksum16_def Complete16_def Update16_def Init_crc16_def Let_def) (simp add: table16_def)

text \<open>Evaluation without building the table: eight shifts for each byte.\<close>

lemma Checksum8_eval: "Checksum8 data table8 = crc_reg 0x31 False 0xFF data"
  by (simp add: Checksum8_def Complete8_def Init_crc8_def table8_def Update8_crc_reg Let_def)

lemma Checksum16_eval: "Checksum16 data table16 = crc_reg 0x1021 False 0xFFFF data"
  by (simp add: Checksum16_def Complete16_def Init_crc16_def table16_def Update16_crc_reg)

lemma Crc8_eq [simp]: "Crc 8 data = uint (Checksum8 data table8)"
  by (simp add: Crc_def)

lemma Crc16_eq [simp]: "Crc 16 data = uint (Checksum16 data table16)"
  by (simp add: Crc_def)

lemmas crc_eval = Checksum8_eval Checksum16_eval crc_reg_def crc_bit_def msb_first_def

section \<open>Errors the checksums detect\<close>

lemma Checksum8_changed:
  "i < length ds \<Longrightarrow> b \<noteq> ds ! i \<Longrightarrow> Checksum8 (ds[i := b]) table8 \<noteq> Checksum8 ds table8"
  unfolding Checksum8_table8 by (rule egts8.changed_nth)

lemma Checksum16_changed:
  "i < length ds \<Longrightarrow> b \<noteq> ds ! i \<Longrightarrow> Checksum16 (ds[i := b]) table16 \<noteq> Checksum16 ds table16"
  unfolding Checksum16_table16 by (rule egts16.changed_nth)

text \<open>A burst within two adjacent bytes is as long as the 16-bit register.\<close>

lemma Checksum16_burst:
  assumes "Checksum16 (xs @ [a, b] @ ys) table16 = Checksum16 (xs @ [a', b'] @ ys) table16"
  shows "a = a' \<and> b = b'"
proof -
  define c where "c = foldl (Update_step16 table16) 0xFFFF xs"
  have step: "Update_step16 table16 r d = foldl (crc_bit 0x1021) r (msb_first d)" for r d
    by (simp add: table16_def Update_step16_bits)
  from assms have "foldl (Update_step16 table16) c [a, b] = foldl (Update_step16 table16) c [a', b']"
    unfolding Checksum16_table16 foldl_append c_def by (rule egts16.foldl_register_inj)
  then have "foldl (crc_bit 0x1021) c (msb_first a @ msb_first b) =
      foldl (crc_bit 0x1021) c (msb_first a' @ msb_first b')"
    by (simp only: foldl.simps foldl_append step)
  then have "c XOR left_aligned (msb_first a @ msb_first b) = c XOR left_aligned (msb_first a' @ msb_first b')"
    by (intro foldl_crc_bit_inj [of "0x1021 :: u16"]) simp_all
  then have "(left_aligned (msb_first a @ msb_first b) :: u16) = left_aligned (msb_first a' @ msb_first b')"
    by (rule xor_cancel)
  then have "msb_first a @ msb_first b = msb_first a' @ msb_first b'"
    by (rule left_aligned_inj [rotated 2]) simp_all
  then show ?thesis
    using bits_first_inj [of False a a'] bits_first_inj [of False b b'] by simp
qed

end
