(* ===== verification/Packets.thy ===== *)
theory Packets
  imports Services Crc
begin

text \<open>
  The transport packet, \<open>egts/packet/packet.go\<close> and \<open>pt_response.go\<close>: the header with its CRC-8,
  the frame data with its CRC-16, the confirmation packets and the answers a receiver prepares.
\<close>

section \<open>EGTS\_PT\_RESPONSE\<close>

text \<open>
  The response's \<open>SDR\<close> is a \<open>BytesData\<close> value. Only \<open>*ServicesFrameData\<close> is accepted, so every
  other dynamic type is one constructor.
\<close>

datatype ResponseData = RD_SFRD "ServicesFrameData option" | RD_Other

record PTResponse =
  ResponsePacketID :: u16
  ProcessingResult :: u8
  SDR :: "ResponseData option"

definition PTResponse_Decode :: "bytes \<Rightarrow> PTResponse result" where
  "PTResponse_Decode b =
     bindR (wrapf ''EGTS_PT_RESPONSE; Error reading RPID'' (ReadUint16 b)) (\<lambda>(rpid, r).
     bindR (wrapf ''EGTS_PT_RESPONSE; Error reading PR'' (ReadByte r)) (\<lambda>(pr, r).
     if length r > 0 then
       bindR (wrapf ''EGTS_PT_RESPONSE'' (ServicesFrameData_Decode r)) (\<lambda>sfrd.
       Inr \<lparr>ResponsePacketID = rpid, ProcessingResult = pr, SDR = Some (RD_SFRD (Some sfrd))\<rparr>)
     else Inr \<lparr>ResponsePacketID = rpid, ProcessingResult = pr, SDR = None\<rparr>))"

fun PTResponse_Encode :: "PTResponse option \<Rightarrow> bytes result" where
  "PTResponse_Encode None = Inl (Errorf ''EGTS_PT_RESPONSE; Response is nil'')"
| "PTResponse_Encode (Some response) =
     (let buffer = PutUint16 (ResponsePacketID response) @ [ProcessingResult response] in
      case SDR response of
        None \<Rightarrow> Inr buffer
      | Some RD_Other \<Rightarrow> Inl (Errorf ''EGTS_PT_RESPONSE; SDR requires ServicesFrameData'')
      | Some (RD_SFRD None) \<Rightarrow> Inl (Errorf ''EGTS_PT_RESPONSE; SDR requires ServicesFrameData'')
      | Some (RD_SFRD (Some data)) \<Rightarrow>
          bindR (wrapf ''EGTS_PT_RESPONSE'' (ServicesFrameData_Encode (Some data))) (\<lambda>sdr.
          if length sdr + 3 > 65535
          then Inl (Errorf ''EGTS_PT_RESPONSE; Response data exceeds 65535 bytes'')
          else Inr (buffer @ sdr)))"

definition PTResponse_Len :: "PTResponse option \<Rightarrow> u16" where
  "PTResponse_Len response = Len_of (PTResponse_Encode response)"

text \<open>Service data that is there is not empty: an empty sequence is read back as none.\<close>

definition wf_Response :: "PTResponse \<Rightarrow> bool" where
  "wf_Response p \<longleftrightarrow>
     (case SDR p of
        None \<Rightarrow> True
      | Some (RD_SFRD (Some sfrd)) \<Rightarrow>
          sfrd \<noteq> [] \<and> wf_SFRD sfrd \<and> length (SFRD_bytes sfrd) + 3 \<le> 65535
      | _ \<Rightarrow> False)"

lemma SDR_bytes_not_Nil: "wf_SDR s \<Longrightarrow> SDR_bytes s \<noteq> []"
  by (auto simp: wf_SDR_def SDR_bytes_def SDR_header_def split: option.splits)

lemma SFRD_bytes_not_Nil: "wf_SFRD sfrd \<Longrightarrow> sfrd \<noteq> [] \<Longrightarrow> SFRD_bytes sfrd \<noteq> []"
  by (cases sfrd) (auto simp: wf_SFRD_def dest: SDR_bytes_not_Nil)

lemma Response_roundtrip:
  assumes "wf_Response p"
  shows "\<exists>bs. PTResponse_Encode (Some p) = Inr bs \<and> PTResponse_Decode bs = Inr p \<and> 3 \<le> length bs \<and>
    length bs \<le> 65535"
proof (cases "SDR p")
  case None
  then show ?thesis
    by (cases p) (simp add: PTResponse_Decode_def go_simps)
next
  case (Some d)
  with assms obtain sfrd where d: "d = RD_SFRD (Some sfrd)" "sfrd \<noteq> []" "wf_SFRD sfrd"
    "length (SFRD_bytes sfrd) + 3 \<le> 65535"
    by (auto simp: wf_Response_def split: ResponseData.splits option.splits)
  let ?bs = "PutUint16 (ResponsePacketID p) @ [ProcessingResult p] @ SFRD_bytes sfrd"
  have "PTResponse_Encode (Some p) = Inr ?bs"
    using d(4) by (simp add: Some d(1) SFRD_roundtrip(1) [OF d(3)] del: ServicesFrameData_Encode.simps)
  moreover have "PTResponse_Decode ?bs = Inr p"
    using SFRD_bytes_not_Nil [OF d(3,2)] Some d(1)
    by (simp add: PTResponse_Decode_def go_simps SFRD_roundtrip(2) [OF d(3)] del: concat_eq_Nil_conv)
  ultimately show ?thesis using d(4) by simp
qed

interpretation response: bytes_data PTResponse_Decode PTResponse_Encode wf_Response
  by unfold_locales (use Response_roundtrip in auto)

section \<open>Packets\<close>

text \<open>
  The packet's \<open>ServicesFrameData\<close> is a \<open>BytesData\<close> value of one of the two frame data types;
  any other dynamic type fails the type assertions.
\<close>

datatype FrameData =
    FD_SFRD "ServicesFrameData option"
  | FD_Response "PTResponse option"
  | FD_Other

record Packet =
  ProtocolVersion :: u8
  SecurityKeyID :: u8
  PRF :: string
  PR :: string
  CMP :: string
  ENA :: string
  RTE :: string
  HeaderLength :: u8
  HeaderEncoding :: u8
  FrameDataLength :: u16
  PacketID :: u16
  PacketType :: u8
  PeerAddress :: u16
  RecipientAddress :: u16
  TimeToLive :: u8
  HeaderCheckSum :: u8
  PacketServicesFrameData :: "FrameData option"
  ServicesFrameDataCheckSum :: u16
  ErrorCode :: u8

text \<open>\<open>Packet\{\}\<close>: the zero value.\<close>

definition Packet0 :: Packet where
  "Packet0 = \<lparr>ProtocolVersion = 0, SecurityKeyID = 0, PRF = [], PR = [], CMP = [], ENA = [], RTE = [],
     HeaderLength = 0, HeaderEncoding = 0, FrameDataLength = 0, PacketID = 0, PacketType = 0,
     PeerAddress = 0, RecipientAddress = 0, TimeToLive = 0, HeaderCheckSum = 0,
     PacketServicesFrameData = None, ServicesFrameDataCheckSum = 0, ErrorCode = 0\<rparr>"

subsection \<open>ReadPacket\<close>

text \<open>
  A failing \<open>ReadPacket\<close> returns the packet as far as it was filled, with \<open>ErrorCode\<close> set, beside
  the error. A stage is therefore a sum: the packet and the error on the left, the packet and
  the unread bytes on the right.
\<close>

type_synonym 'a stage = "(Packet \<times> goerr) + 'a"

definition bindS :: "'a stage \<Rightarrow> ('a \<Rightarrow> 'b stage) \<Rightarrow> 'b stage" where
  "bindS m f = (case m of Inl e \<Rightarrow> Inl e | Inr x \<Rightarrow> f x)"

definition failS :: "Packet \<Rightarrow> u8 \<Rightarrow> goerr \<Rightarrow> 'a stage" where
  "failS p code e = Inl (p\<lparr>ErrorCode := code\<rparr>, e)"

text \<open>Reading one header field; every failure is \<open>EGTS_PC_INC_HEADERFORM\<close>.\<close>

definition header_field :: "Packet \<Rightarrow> (('a \<times> bytes) result) \<Rightarrow> ('a \<Rightarrow> Packet \<Rightarrow> Packet) \<Rightarrow> (Packet \<times> bytes) stage" where
  "header_field p m upd =
     (case m of
        Inl e \<Rightarrow> failS p EGTS_PC_INC_HEADERFORM (Wrapf ''Packet; EGTS_PC_INC_HEADERFORM'' e)
      | Inr (x, r) \<Rightarrow> Inr (upd x p, r))"

definition set_flags :: "u8 \<Rightarrow> Packet \<Rightarrow> Packet" where
  "set_flags flagByte p =
     (let bits = bits08 flagByte in
      p\<lparr>PRF := substr bits 0 2, RTE := substr bits 2 3, ENA := substr bits 3 5,
        CMP := substr bits 5 6, PR := substr bits 6 8\<rparr>)"

text \<open>The header up to its checksum, which is read but not yet checked.\<close>

definition read_header :: "bytes \<Rightarrow> (Packet \<times> bytes) stage" where
  "read_header b =
     bindS (header_field Packet0 (ReadByte b) (\<lambda>x p. p\<lparr>ProtocolVersion := x\<rparr>)) (\<lambda>(p, r).
     bindS (header_field p (ReadByte r) (\<lambda>x p. p\<lparr>SecurityKeyID := x\<rparr>)) (\<lambda>(p, r).
     bindS (header_field p (ReadByte r) set_flags) (\<lambda>(p, r).
     bindS (header_field p (ReadByte r) (\<lambda>x p. p\<lparr>HeaderLength := x\<rparr>)) (\<lambda>(p, r).
     if RTE p = ''0'' \<and> HeaderLength p \<noteq> 11
     then failS p EGTS_PC_INC_HEADERFORM
       (Errorf ''Packet; EGTS_PC_INC_HEADERFORM; Header length must be 11 without routing'')
     else if RTE p = ''1'' \<and> HeaderLength p \<noteq> 16
     then failS p EGTS_PC_INC_HEADERFORM
       (Errorf ''Packet; EGTS_PC_INC_HEADERFORM; Header length must be 16 with routing'')
     else
     bindS (header_field p (ReadByte r) (\<lambda>x p. p\<lparr>HeaderEncoding := x\<rparr>)) (\<lambda>(p, r).
     bindS (header_field p (ReadUint16 r) (\<lambda>x p. p\<lparr>FrameDataLength := x\<rparr>)) (\<lambda>(p, r).
     bindS (header_field p (ReadUint16 r) (\<lambda>x p. p\<lparr>PacketID := x\<rparr>)) (\<lambda>(p, r).
     bindS (header_field p (ReadByte r) (\<lambda>x p. p\<lparr>PacketType := x\<rparr>)) (\<lambda>(p, r).
     bindS
       (if RTE p = ''1'' then
          bindS (header_field p (ReadUint16 r) (\<lambda>x p. p\<lparr>PeerAddress := x\<rparr>)) (\<lambda>(p, r).
          bindS (header_field p (ReadUint16 r) (\<lambda>x p. p\<lparr>RecipientAddress := x\<rparr>)) (\<lambda>(p, r).
          header_field p (ReadByte r) (\<lambda>x p. p\<lparr>TimeToLive := x\<rparr>)))
        else Inr (p, r)) (\<lambda>(p, r).
     header_field p (ReadByte r) (\<lambda>x p. p\<lparr>HeaderCheckSum := x\<rparr>))))))))))"

text \<open>The checks between the header and the data, \<open>b\<close> being the whole input.\<close>

definition check_header :: "bytes \<Rightarrow> Packet \<Rightarrow> unit stage" where
  "check_header b p =
     (if uint (HeaderCheckSum p) \<noteq> Crc 8 (take (unat (HeaderLength p) - 1) b)
      then failS p EGTS_PC_HEADERCRC_ERROR (Errorf ''Packet; EGTS_PC_HEADERCRC_ERROR'')
      else if ProtocolVersion p \<noteq> 1
      then failS p EGTS_PC_UNS_PROTOCOL (Errorf ''Packet; EGTS_PC_UNS_PROTOCOL'')
      else if PRF p \<noteq> ''00'' \<or> HeaderEncoding p \<noteq> 0
      then failS p EGTS_PC_INC_HEADERFORM
        (Errorf ''Packet; EGTS_PC_INC_HEADERFORM; Unsupported header format'')
      else if ENA p \<noteq> ''00''
      then failS p EGTS_PC_DECRYPT_ERROR
        (Errorf ''Packet; EGTS_PC_DECRYPT_ERROR; Encryption is not supported'')
      else if CMP p \<noteq> ''0''
      then failS p EGTS_PC_UNS_TYPE
        (Errorf ''Packet; EGTS_PC_UNS_TYPE; Compression is not supported'')
      else
        (let packetLength = unat (HeaderLength p) + unat (FrameDataLength p) +
               (if FrameDataLength p > 0 then 2 else 0) in
         if packetLength \<noteq> length b \<or> packetLength > 65535
         then failS p EGTS_PC_INVDATALEN (Errorf ''Packet; EGTS_PC_INVDATALEN'')
         else Inr ()))"

text \<open>The frame data and its checksum, from the unread bytes \<open>r\<close>.\<close>

definition read_data :: "Packet \<Rightarrow> bytes \<Rightarrow> (Packet \<times> bytes) stage" where
  "read_data p r =
     (case ReadFull (unat (FrameDataLength p)) r of
        Inl e \<Rightarrow> failS p EGTS_PC_INVDATALEN (Wrapf ''Packet; EGTS_PC_INVDATALEN'' e)
      | Inr (dataFrameBytes, r) \<Rightarrow>
          if FrameDataLength p > 0 then
            (case ReadUint16 r of
               Inl e \<Rightarrow> failS p EGTS_PC_INVDATALEN (Wrapf ''Packet crc16; EGTS_PC_INVDATALEN'' e)
             | Inr (crc16, r) \<Rightarrow>
                 (let p = p\<lparr>ServicesFrameDataCheckSum := crc16\<rparr> in
                  if uint crc16 \<noteq> Crc 16 dataFrameBytes
                  then failS p EGTS_PC_DATACRC_ERROR (Errorf ''Packet; EGTS_PC_DATACRC_ERROR'')
                  else Inr (p, dataFrameBytes)))
          else Inr (p, dataFrameBytes))"

text \<open>The switch on the packet type; a failed decoding leaves a fresh value in the packet.\<close>

definition decode_data :: "Packet \<Rightarrow> bytes \<Rightarrow> Packet stage" where
  "decode_data p dataFrameBytes =
     (if PacketType p = EGTS_PT_RESPONSE then
        (case PTResponse_Decode dataFrameBytes of
           Inl e \<Rightarrow> failS (p\<lparr>PacketServicesFrameData := Some (FD_Response (Some
               \<lparr>ResponsePacketID = 0, ProcessingResult = 0, SDR = None\<rparr>))\<rparr>)
             EGTS_PC_INC_DATAFORM (Wrapf ''Packet dataFrame; EGTS_PC_INC_DATAFORM'' e)
         | Inr resp \<Rightarrow> Inr (p\<lparr>PacketServicesFrameData := Some (FD_Response (Some resp))\<rparr>))
      else if PacketType p = EGTS_PT_APPDATA then
        (case ServicesFrameData_Decode dataFrameBytes of
           Inl e \<Rightarrow> failS (p\<lparr>PacketServicesFrameData := Some (FD_SFRD (Some []))\<rparr>)
             EGTS_PC_INC_DATAFORM (Wrapf ''Packet dataFrame; EGTS_PC_INC_DATAFORM'' e)
         | Inr sfrd \<Rightarrow> Inr (p\<lparr>PacketServicesFrameData := Some (FD_SFRD (Some sfrd))\<rparr>))
      else if PacketType p = EGTS_PT_SIGNED_APPDATA then
        failS p EGTS_PC_UNS_TYPE (Errorf ''Packet; EGTS_PC_UNS_TYPE; Signed packets are not supported'')
      else failS p EGTS_PC_UNS_TYPE (Errorf ''Packet; EGTS_PC_UNS_TYPE; Packet type %d''))"

definition ReadPacket :: "bytes \<Rightarrow> Packet \<times> goerr option" where
  "ReadPacket b =
     (case
        bindS (read_header b) (\<lambda>(p, r).
        bindS (check_header b p) (\<lambda>_.
        bindS (read_data p r) (\<lambda>(p, dataFrameBytes).
        decode_data p dataFrameBytes)))
      of Inl (p, e) \<Rightarrow> (p, Some e) | Inr p \<Rightarrow> (p, None))"

subsection \<open>Encode\<close>

text \<open>The frame data, with the type assertions each packet type makes.\<close>

definition encode_data :: "Packet \<Rightarrow> bytes result" where
  "encode_data p =
     (if PacketType p = EGTS_PT_APPDATA then
        (case PacketServicesFrameData p of
           None \<Rightarrow> Inr []
         | Some (FD_SFRD (Some data)) \<Rightarrow>
             wrapf ''Packet; Error encoding SFRD'' (ServicesFrameData_Encode (Some data))
         | _ \<Rightarrow> Inl (Errorf ''Packet; APPDATA requires ServicesFrameData''))
      else if PacketType p = EGTS_PT_RESPONSE then
        (case PacketServicesFrameData p of
           Some (FD_Response (Some data)) \<Rightarrow>
             wrapf ''Packet; Error encoding SFRD'' (PTResponse_Encode (Some data))
         | _ \<Rightarrow> Inl (Errorf ''Packet; RESPONSE requires PTResponse''))
      else Inl (Errorf ''Packet; Unsupported packet type %d''))"

text \<open>The header without its checksum.\<close>

definition header_bytes :: "u8 \<Rightarrow> Packet \<Rightarrow> bytes" where
  "header_bytes flags p =
     [ProtocolVersion p, SecurityKeyID p, flags, HeaderLength p, HeaderEncoding p] @
     PutUint16 (FrameDataLength p) @ PutUint16 (PacketID p) @ [PacketType p] @
     flag_bytes (RTE p)
       (PutUint16 (PeerAddress p) @ PutUint16 (RecipientAddress p) @ [TimeToLive p])"

fun Packet_Encode :: "Packet option \<Rightarrow> bytes result" where
  "Packet_Encode None = Inl (Errorf ''Packet; Packet is nil'')"
| "Packet_Encode (Some p) =
     (if ProtocolVersion p \<noteq> 1 then Inl (Errorf ''Packet; Unsupported protocol version'')
      else if PRF p \<noteq> ''00'' \<or> HeaderEncoding p \<noteq> 0
      then Inl (Errorf ''Packet; Unsupported header format'')
      else if ENA p \<noteq> ''00'' \<or> CMP p \<noteq> ''0''
      then Inl (Errorf ''Packet; Encryption and compression are not supported'')
      else if \<not> is_flag (RTE p) then Inl (Errorf ''Packet; Invalid RTE flag'')
      else if length (PR p) \<noteq> 2 then Inl (Errorf ''Packet; PR must contain 2 bits'')
      else if RTE p = ''0'' \<and> HeaderLength p \<noteq> 11
      then Inl (Errorf ''Packet; Header length must be 11 without routing'')
      else if RTE p = ''1'' \<and> HeaderLength p \<noteq> 16
      then Inl (Errorf ''Packet; Header length must be 16 with routing'')
      else
        bindR (wrapf ''Packet; Error parsing flags''
          (parse_flags (PRF p @ RTE p @ ENA p @ CMP p @ PR p))) (\<lambda>flags.
        bindR (encode_data p) (\<lambda>sfrd.
        if unat (FrameDataLength p) \<noteq> length sfrd
        then Inl (Errorf ''Packet; FDL does not match encoded data length'')
        else if unat (HeaderLength p) + length sfrd + (if length sfrd > 0 then 2 else 0) > 65535
        then Inl (Errorf ''Packet; Packet length exceeds 65535 bytes'')
        else
          (let b = header_bytes flags p; crc8 = word_of_int (Crc 8 b) in
           Inr (b @ [crc8] @
             (if length sfrd > 0
              then sfrd @ PutUint16 (word_of_int (Crc 16 sfrd))
              else []))))))"

section \<open>What an accepted packet is\<close>

lemma bindS_eq_Inr [simp]: "bindS m f = Inr y \<longleftrightarrow> (\<exists>x. m = Inr x \<and> f x = Inr y)"
  by (auto simp: bindS_def split: sum.splits)

lemma failS_neq_Inr [simp]: "failS p c e \<noteq> Inr x"
  by (simp add: failS_def)

lemma guardS_eq_Inr [simp]: "(if c then failS p k e else m) = Inr x \<longleftrightarrow> \<not> c \<and> m = Inr x"
  by simp

lemma header_field_Inr [simp]:
  "header_field p m upd = Inr (q, r) \<longleftrightarrow> (\<exists>x. m = Inr (x, r) \<and> q = upd x p)"
  by (auto simp: header_field_def split: sum.splits)

text \<open>The flag strings of a packet, for a flag byte \<open>w\<close>; the header's length and its route.\<close>

definition packet_flags :: "u8 \<Rightarrow> Packet \<Rightarrow> bool" where
  "packet_flags w p \<longleftrightarrow>
     PRF p = bitstr w 7 @ bitstr w 6 \<and> RTE p = bitstr w 5 \<and> ENA p = bitstr w 4 @ bitstr w 3 \<and>
     CMP p = bitstr w 2 \<and> PR p = bitstr w 1 @ bitstr w 0"

definition header_ok :: "Packet \<Rightarrow> bool" where
  "header_ok p \<longleftrightarrow>
     HeaderLength p = (if RTE p = ''1'' then 16 else 11) \<and>
     (RTE p \<noteq> ''1'' \<longrightarrow> PeerAddress p = 0 \<and> RecipientAddress p = 0 \<and> TimeToLive p = 0)"

text \<open>Nothing of the data has been read.\<close>

definition no_data :: "Packet \<Rightarrow> bool" where
  "no_data p \<longleftrightarrow> PacketServicesFrameData p = None \<and> ServicesFrameDataCheckSum p = 0 \<and> ErrorCode p = 0"

lemma set_flags_eq:
  "set_flags w p = p\<lparr>PRF := bitstr w 7 @ bitstr w 6, RTE := bitstr w 5,
     ENA := bitstr w 4 @ bitstr w 3, CMP := bitstr w 2, PR := bitstr w 1 @ bitstr w 0\<rparr>"
  by (simp add: set_flags_def Let_def go_simps)

lemma read_header_Inr:
  "read_header b = Inr (p, r) \<longleftrightarrow>
   (\<exists>w. b = header_bytes w p @ [HeaderCheckSum p] @ r \<and> packet_flags w p \<and> header_ok p \<and> no_data p)"
proof
  assume "read_header b = Inr (p, r)"
  then show "\<exists>w. b = header_bytes w p @ [HeaderCheckSum p] @ r \<and> packet_flags w p \<and> header_ok p \<and>
      no_data p"
    by (clarsimp simp: read_header_def set_flags_eq go_inv Packet0_def)
      (auto simp: header_bytes_def packet_flags_def header_ok_def no_data_def flag_bytes_def go_inv
        split: if_splits)
next
  assume "\<exists>w. b = header_bytes w p @ [HeaderCheckSum p] @ r \<and> packet_flags w p \<and> header_ok p \<and>
      no_data p"
  then obtain w where w: "b = header_bytes w p @ [HeaderCheckSum p] @ r" "packet_flags w p"
    "header_ok p" "no_data p" by blast
  show "read_header b = Inr (p, r)"
    using w(2-4)
    by (cases p; cases "bit w 5")
      (simp_all add: w(1) read_header_def set_flags_eq header_bytes_def flag_bytes_def go_simps
        Packet0_def packet_flags_def header_ok_def no_data_def header_field_def bindS_def)
qed

lemma uint_eq_iff [simp]: "uint a = uint b \<longleftrightarrow> a = b" for a b :: "'a::len word"
  by (simp add: word_uint_eq_iff)

lemma check_header_Inr:
  "check_header b p = Inr u \<longleftrightarrow>
   HeaderCheckSum p = Checksum8 (take (unat (HeaderLength p) - 1) b) table8 \<and>
   ProtocolVersion p = 1 \<and> PRF p = ''00'' \<and> HeaderEncoding p = 0 \<and> ENA p = ''00'' \<and> CMP p = ''0'' \<and>
   unat (HeaderLength p) + unat (FrameDataLength p) + (if FrameDataLength p > 0 then 2 else 0) =
     length b \<and> length b \<le> 65535"
  by (auto simp: check_header_def Let_def)

lemma read_data_Inr:
  "read_data p r = Inr (q, d) \<longleftrightarrow>
   (\<exists>r'. length d = unat (FrameDataLength p) \<and>
      (if FrameDataLength p > 0
       then q = p\<lparr>ServicesFrameDataCheckSum := Checksum16 d table16\<rparr> \<and>
         r = d @ PutUint16 (Checksum16 d table16) @ r'
       else q = p \<and> r = r'))"
proof (cases "FrameDataLength p > 0")
  case True
  have "read_data p r = Inr (q, d) \<longleftrightarrow> (\<exists>c s r'. ReadFull (unat (FrameDataLength p)) r = Inr (d, s) \<and>
      ReadUint16 s = Inr (c, r') \<and> c = Checksum16 d table16 \<and> q = p\<lparr>ServicesFrameDataCheckSum := c\<rparr>)"
    using True by (auto simp: read_data_def Let_def split: sum.splits)
  also have "\<dots> \<longleftrightarrow> (\<exists>r'. length d = unat (FrameDataLength p) \<and>
      q = p\<lparr>ServicesFrameDataCheckSum := Checksum16 d table16\<rparr> \<and>
      r = d @ PutUint16 (Checksum16 d table16) @ r')"
    by (auto simp: go_inv)
  finally show ?thesis using True by simp
next
  case False
  then have "FrameDataLength p = 0" by (simp add: word_gt_0)
  then show ?thesis by (auto simp: read_data_def ReadFull_def)
qed

lemma decode_data_Inr:
  "decode_data p d = Inr q \<longleftrightarrow>
   (PacketType p = EGTS_PT_RESPONSE \<and> (\<exists>resp. PTResponse_Decode d = Inr resp \<and>
      q = p\<lparr>PacketServicesFrameData := Some (FD_Response (Some resp))\<rparr>)) \<or>
   (PacketType p = EGTS_PT_APPDATA \<and> (\<exists>sfrd. ServicesFrameData_Decode d = Inr sfrd \<and>
      q = p\<lparr>PacketServicesFrameData := Some (FD_SFRD (Some sfrd))\<rparr>))"
  by (auto simp: decode_data_def codes split: sum.splits)

lemma length_header_bytes: "header_ok p \<Longrightarrow> length (header_bytes w p) = unat (HeaderLength p) - 1"
  by (simp add: header_bytes_def header_ok_def flag_bytes_def)

text \<open>
  The specification of \<open>ReadPacket\<close>, with the bytes on one side and the packet's fields on the
  other: what the header, the data and the two checksums are.
\<close>

definition decodes_to :: "u8 \<Rightarrow> bytes \<Rightarrow> FrameData option \<Rightarrow> bool" where
  "decodes_to pt data fd \<longleftrightarrow>
     (pt = EGTS_PT_RESPONSE \<and> (\<exists>resp. PTResponse_Decode data = Inr resp \<and> fd = Some (FD_Response (Some resp)))) \<or>
     (pt = EGTS_PT_APPDATA \<and> (\<exists>sfrd. ServicesFrameData_Decode data = Inr sfrd \<and> fd = Some (FD_SFRD (Some sfrd))))"

definition frame_of :: "u8 \<Rightarrow> bytes \<Rightarrow> Packet \<Rightarrow> bytes" where
  "frame_of w data p = header_bytes w p @ [HeaderCheckSum p] @ data @
     (if FrameDataLength p > 0 then PutUint16 (ServicesFrameDataCheckSum p) else [])"

definition packet_spec :: "bytes \<Rightarrow> Packet \<Rightarrow> bool" where
  "packet_spec b p \<longleftrightarrow>
     (\<exists>w data. b = frame_of w data p \<and> packet_flags w p \<and> header_ok p \<and>
        ProtocolVersion p = 1 \<and> PRF p = ''00'' \<and> HeaderEncoding p = 0 \<and> ENA p = ''00'' \<and> CMP p = ''0'' \<and>
        HeaderCheckSum p = Checksum8 (header_bytes w p) table8 \<and>
        length data = unat (FrameDataLength p) \<and> length b \<le> 65535 \<and>
        ServicesFrameDataCheckSum p =
          (if FrameDataLength p > 0 then Checksum16 data table16 else 0) \<and>
        decodes_to (PacketType p) data (PacketServicesFrameData p) \<and> ErrorCode p = 0)"

lemma ReadPacket_None:
  "ReadPacket b = (p, None) \<longleftrightarrow>
   (\<exists>h r q data u. read_header b = Inr (h, r) \<and> check_header b h = Inr u \<and>
      read_data h r = Inr (q, data) \<and> decode_data q data = Inr p)"
  by (auto simp: ReadPacket_def bindS_def split: sum.splits prod.splits)

lemma header_bytes_cong:
  "header_bytes w (p\<lparr>ServicesFrameDataCheckSum := c, PacketServicesFrameData := d\<rparr>) = header_bytes w p"
  "header_bytes w (p\<lparr>PacketServicesFrameData := d\<rparr>) = header_bytes w p"
  "header_bytes w (p\<lparr>ServicesFrameDataCheckSum := c\<rparr>) = header_bytes w p"
  "header_bytes w (p\<lparr>ErrorCode := e\<rparr>) = header_bytes w p"
  by (simp_all add: header_bytes_def)

lemma ReadPacket_sound:
  assumes "ReadPacket b = (p, None)"
  shows "packet_spec b p"
proof -
  from assms obtain h r q data u where s: "read_header b = Inr (h, r)" "check_header b h = Inr u"
      "read_data h r = Inr (q, data)" "decode_data q data = Inr p"
    unfolding ReadPacket_None by blast
  from s(1) obtain w where w: "b = header_bytes w h @ [HeaderCheckSum h] @ r" "packet_flags w h"
      "header_ok h" "no_data h"
    unfolding read_header_Inr by blast
  from s(3) obtain r' where d: "length data = unat (FrameDataLength h)"
      "if FrameDataLength h > 0
       then q = h\<lparr>ServicesFrameDataCheckSum := Checksum16 data table16\<rparr> \<and>
         r = data @ PutUint16 (Checksum16 data table16) @ r'
       else q = h \<and> r = r'"
    unfolding read_data_Inr by blast
  have len: "length (header_bytes w h) = unat (HeaderLength h) - 1"
    by (rule length_header_bytes [OF w(3)])
  have hl: "unat (HeaderLength h) \<ge> 11" using w(3) by (simp add: header_ok_def)
  note c = s(2) [unfolded check_header_Inr]
  have r': "r' = []"
    using c d w(1) len hl by (cases "FrameDataLength h = 0") (auto simp: word_gt_0)
  have crc: "HeaderCheckSum h = Checksum8 (header_bytes w h) table8"
    using c len by (simp add: w(1))
  obtain fd where p: "p = q\<lparr>PacketServicesFrameData := fd\<rparr>"
      "decodes_to (PacketType q) data fd"
    using s(4) unfolding decode_data_Inr decodes_to_def by blast
  show ?thesis
    unfolding packet_spec_def
  proof (intro exI [of _ w] exI [of _ data] conjI)
    show "b = frame_of w data p"
      using w(1) d r' p(1) by (auto simp: frame_of_def header_bytes_cong word_gt_0 split: if_splits)
  qed (use w c d p crc in \<open>auto simp: packet_flags_def header_ok_def no_data_def header_bytes_cong
      word_gt_0 split: if_splits\<close>)
qed

lemma ReadPacket_complete:
  assumes "packet_spec b p"
  shows "ReadPacket b = (p, None)"
proof -
  from assms obtain w data where s: "b = frame_of w data p" "packet_flags w p" "header_ok p"
      "ProtocolVersion p = 1" "PRF p = ''00''" "HeaderEncoding p = 0" "ENA p = ''00''" "CMP p = ''0''"
      "HeaderCheckSum p = Checksum8 (header_bytes w p) table8"
      "length data = unat (FrameDataLength p)" "length b \<le> 65535"
      "ServicesFrameDataCheckSum p = (if FrameDataLength p > 0 then Checksum16 data table16 else 0)"
      "decodes_to (PacketType p) data (PacketServicesFrameData p)" "ErrorCode p = 0"
    unfolding packet_spec_def by blast
  define h where "h = p\<lparr>PacketServicesFrameData := None, ServicesFrameDataCheckSum := 0\<rparr>"
  define q where "q = p\<lparr>PacketServicesFrameData := None\<rparr>"
  define r where "r = data @ (if FrameDataLength p > 0 then PutUint16 (ServicesFrameDataCheckSum p) else [])"
  have hb: "header_bytes w h = header_bytes w p" by (simp add: h_def header_bytes_def)
  have len: "length (header_bytes w p) = unat (HeaderLength p) - 1"
    by (rule length_header_bytes [OF s(3)])
  have hl: "1 \<le> unat (HeaderLength p)" using s(3) by (simp add: header_ok_def)
  have "read_header b = Inr (h, r)"
    unfolding read_header_Inr
  proof (intro exI [of _ w] conjI)
    show "b = header_bytes w h @ [HeaderCheckSum h] @ r"
      unfolding hb by (simp add: s(1) frame_of_def r_def h_def)
    show "packet_flags w h" using s(2) by (simp add: packet_flags_def h_def)
    show "header_ok h" using s(3) by (simp add: header_ok_def h_def)
    show "no_data h" using s(14) by (simp add: no_data_def h_def)
  qed
  moreover have "check_header b h = Inr ()"
    unfolding check_header_Inr using s len hl
    by (auto simp: h_def frame_of_def split: if_splits)
  moreover have "read_data h r = Inr (q, data)"
    unfolding read_data_Inr r_def h_def q_def using s(10,12)
    by (auto simp: word_gt_0 intro!: exI [of _ "[]"])
  moreover have "decode_data q data = Inr p"
    using s(13) by (cases p) (auto simp: decode_data_Inr decodes_to_def q_def)
  ultimately show ?thesis unfolding ReadPacket_None by blast
qed

lemma ReadPacket_spec: "ReadPacket b = (p, None) \<longleftrightarrow> packet_spec b p"
  using ReadPacket_sound ReadPacket_complete by blast

section \<open>What the encoder writes\<close>

text \<open>A packet that the encoder takes, except for its frame data.\<close>

definition wf_header :: "Packet \<Rightarrow> bool" where
  "wf_header p \<longleftrightarrow>
     ProtocolVersion p = 1 \<and> PRF p = ''00'' \<and> HeaderEncoding p = 0 \<and> ENA p = ''00'' \<and> CMP p = ''0'' \<and>
     is_flag (RTE p) \<and> length (PR p) = 2 \<and> set (PR p) \<subseteq> {CHR ''0'', CHR ''1''} \<and>
     HeaderLength p = (if RTE p = ''1'' then 16 else 11)"

lemma wf_header_flags:
  assumes "wf_header p"
  obtains w where "packet_flags w p" "parse_flags (PRF p @ RTE p @ ENA p @ CMP p @ PR p) = Inr w"
proof -
  have z: "is_flag ''0''" by simp
  from assms obtain a b where pr: "PR p = [a] @ [b]" "is_flag [a]" "is_flag [b]"
    by (auto simp: wf_header_def is_flag_def dest!: length_2D)
  have r: "is_flag (RTE p)" using assms by (simp add: wf_header_def)
  have f: "PRF p = ''0'' @ ''0''" "ENA p = ''0'' @ ''0''" "CMP p = ''0''"
    using assms by (simp_all add: wf_header_def)
  obtain w where w: "''0'' = bitstr w 7" "''0'' = bitstr w 6" "RTE p = bitstr w 5"
    "''0'' = bitstr w 4" "''0'' = bitstr w 3" "''0'' = bitstr w 2" "[a] = bitstr w 1" "[b] = bitstr w 0"
    by (rule flags8 [OF z z r z z z pr(2,3)])
  have pf: "packet_flags w p"
    unfolding packet_flags_def
  proof (intro conjI)
    show "PRF p = bitstr w 7 @ bitstr w 6" by (simp only: f w(1,2) [symmetric])
    show "RTE p = bitstr w 5" by (rule w(3))
    show "ENA p = bitstr w 4 @ bitstr w 3" by (simp only: f w(4,5) [symmetric])
    show "CMP p = bitstr w 2" by (simp only: f w(6) [symmetric])
    show "PR p = bitstr w 1 @ bitstr w 0" by (simp only: pr(1) w(7,8))
  qed
  moreover have "parse_flags (PRF p @ RTE p @ ENA p @ CMP p @ PR p) = Inr w"
    using pf by (simp add: packet_flags_def go_simps)
  ultimately show thesis by (rule that)
qed

text \<open>The checksums that go with a flag byte and the frame data.\<close>

definition sealed :: "u8 \<Rightarrow> bytes \<Rightarrow> Packet \<Rightarrow> Packet" where
  "sealed w data p =
     p\<lparr>HeaderCheckSum := Checksum8 (header_bytes w p) table8,
       ServicesFrameDataCheckSum := (if FrameDataLength p > 0 then Checksum16 data table16 else 0)\<rparr>"

lemma frame_of_sealed:
  "frame_of w data (sealed w data p) = header_bytes w p @ [Checksum8 (header_bytes w p) table8] @ data @
     (if FrameDataLength p > 0 then PutUint16 (Checksum16 data table16) else [])"
  by (simp add: frame_of_def sealed_def header_bytes_def)

text \<open>Sealing touches the checksums only.\<close>

lemma sealed_simps [simp]:
  "packet_flags v (sealed w d p) \<longleftrightarrow> packet_flags v p"
  "header_ok (sealed w d p) \<longleftrightarrow> header_ok p"
  "header_bytes v (sealed w d p) = header_bytes v p"
  "ProtocolVersion (sealed w d p) = ProtocolVersion p" "PRF (sealed w d p) = PRF p"
  "HeaderEncoding (sealed w d p) = HeaderEncoding p" "ENA (sealed w d p) = ENA p"
  "CMP (sealed w d p) = CMP p" "FrameDataLength (sealed w d p) = FrameDataLength p"
  "PacketType (sealed w d p) = PacketType p" "ErrorCode (sealed w d p) = ErrorCode p"
  "PacketServicesFrameData (sealed w d p) = PacketServicesFrameData p"
  by (simp_all add: sealed_def packet_flags_def header_ok_def header_bytes_def)

lemma sealed_checksums:
  "HeaderCheckSum (sealed w d p) = Checksum8 (header_bytes w p) table8"
  "ServicesFrameDataCheckSum (sealed w d p) =
     (if FrameDataLength p > 0 then Checksum16 d table16 else 0)"
  by (simp_all add: sealed_def)

lemma unat_gt_0: "0 < unat w \<longleftrightarrow> w > 0" for w :: "'a::len word"
  by (simp add: word_gt_0 unat_gt_0)

lemma Packet_Encode_wf:
  assumes "wf_header p" "encode_data p = Inr data" "length data = unat (FrameDataLength p)"
    and "unat (HeaderLength p) + length data + 2 \<le> 65535 \<or>
      (data = [] \<and> unat (HeaderLength p) \<le> 65535)"
  obtains w where "packet_flags w p"
    "Packet_Encode (Some p) = Inr (frame_of w data (sealed w data p))"
proof -
  from wf_header_flags [OF assms(1)] obtain w where w: "packet_flags w p"
    "parse_flags (PRF p @ RTE p @ ENA p @ CMP p @ PR p) = Inr w" by blast
  have pos: "FrameDataLength p > 0 \<longleftrightarrow> data \<noteq> []"
    using assms(3) by (simp add: unat_gt_0 [symmetric] flip: length_greater_0_conv)
  have "Packet_Encode (Some p) = Inr (frame_of w data (sealed w data p))"
    using assms(1,3,4)
    unfolding Packet_Encode.simps w(2) assms(2) frame_of_sealed
    by (cases "data = []")
      (auto simp: wf_header_def Let_def unat_gt_0 pos is_flag_def split: if_splits)
  with w(1) show thesis by (rule that)
qed

text \<open>And only such packets: the encoder's output is always a sealed frame.\<close>

lemma Packet_Encode_frame:
  assumes "Packet_Encode (Some p) = Inr b"
  obtains w data where "wf_header p" "packet_flags w p" "encode_data p = Inr data"
    "length data = unat (FrameDataLength p)" "b = frame_of w data (sealed w data p)"
    "length b \<le> 65535"
proof -
  from assms obtain w data where s: "ProtocolVersion p = 1" "PRF p = ''00''" "HeaderEncoding p = 0"
    "ENA p = ''00''" "CMP p = ''0''" "is_flag (RTE p)" "length (PR p) = 2"
    "RTE p = ''0'' \<longrightarrow> HeaderLength p = 11" "RTE p = ''1'' \<longrightarrow> HeaderLength p = 16"
    "parse_flags (PRF p @ RTE p @ ENA p @ CMP p @ PR p) = Inr w" "encode_data p = Inr data"
    "length data = unat (FrameDataLength p)"
    "unat (HeaderLength p) + length data + (if length data > 0 then 2 else 0) \<le> 65535"
    "b = header_bytes w p @ [word_of_int (Crc 8 (header_bytes w p))] @
       (if length data > 0 then data @ PutUint16 (word_of_int (Crc 16 data)) else [])"
    by (auto simp: Let_def not_less simp del: Crc8_eq Crc16_eq)
  have hl: "HeaderLength p = (if RTE p = ''1'' then 16 else 11)"
    using s(6,8,9) by (auto simp: is_flag_def)
  have pos: "FrameDataLength p > 0 \<longleftrightarrow> length data > 0"
    using s(12) by (simp add: unat_gt_0)
  have b: "b = frame_of w data (sealed w data p)"
    using s(14) pos by (auto simp: frame_of_sealed)
  obtain c d where pr: "PR p = [c] @ [d]" using s(7) by (auto dest!: length_2D)
  have "length (PRF p @ RTE p @ ENA p @ CMP p @ PR p) = 8"
    using s(2,4,5,6,7) by (simp add: is_flag_length)
  with s(10) have "''0'' @ ''0'' @ RTE p @ ''0'' @ ''0'' @ ''0'' @ [c] @ [d] = bits08 w"
    by (simp add: parse_flags_Inr s(2,4,5) pr)
  from bitstr_flags [OF this] s(6) have w: "''0'' = bitstr w 7" "''0'' = bitstr w 6"
    "RTE p = bitstr w 5" "''0'' = bitstr w 4" "''0'' = bitstr w 3" "''0'' = bitstr w 2"
    "[c] = bitstr w 1" "[d] = bitstr w 0"
    by (simp_all add: is_flag_length)
  have "packet_flags w p"
    unfolding packet_flags_def s(2,4,5) pr w(7,8) w(3) [symmetric]
    using w(1,2,4,5,6) by (auto simp: bitstr_def)
  moreover have "set (PR p) \<subseteq> {CHR ''0'', CHR ''1''}"
    unfolding pr w(7,8) by simp
  then have "wf_header p"
    using s hl by (simp add: wf_header_def)
  moreover have "length b \<le> 65535"
  proof -
    have "length (header_bytes w p) = unat (HeaderLength p) - 1"
      by (simp add: header_bytes_def flag_bytes_def hl)
    then show ?thesis
      using s(13) hl by (simp add: b frame_of_sealed pos split: if_splits)
  qed
  ultimately show thesis using s(11,12) b by (intro that)
qed

section \<open>Round trip\<close>

definition wf_data :: "Packet \<Rightarrow> bool" where
  "wf_data p \<longleftrightarrow>
     (case PacketServicesFrameData p of
        Some (FD_Response (Some r)) \<Rightarrow> PacketType p = EGTS_PT_RESPONSE \<and> wf_Response r
      | Some (FD_SFRD (Some s)) \<Rightarrow> PacketType p = EGTS_PT_APPDATA \<and> wf_SFRD s
      | _ \<Rightarrow> False)"

text \<open>The announced length is that of the data, and the frame fits in 65535 bytes.\<close>

definition fits :: "Packet \<Rightarrow> bool" where
  "fits p \<longleftrightarrow>
     (case encode_data p of
        Inl _ \<Rightarrow> False
      | Inr data \<Rightarrow> length data = unat (FrameDataLength p) \<and>
          unat (HeaderLength p) + length data + (if data = [] then 0 else 2) \<le> 65535)"

definition wf_Packet :: "Packet \<Rightarrow> bool" where
  "wf_Packet p \<longleftrightarrow> wf_header p \<and> header_ok p \<and> wf_data p \<and> fits p \<and> ErrorCode p = 0"

lemma wf_data_decodes:
  assumes "wf_data p"
  obtains data where "encode_data p = Inr data"
    "decodes_to (PacketType p) data (PacketServicesFrameData p)"
proof -
  from assms consider
      (resp) r where "PacketServicesFrameData p = Some (FD_Response (Some r))"
        "PacketType p = EGTS_PT_RESPONSE" "wf_Response r"
    | (app) s where "PacketServicesFrameData p = Some (FD_SFRD (Some s))"
        "PacketType p = EGTS_PT_APPDATA" "wf_SFRD s"
    by (auto simp: wf_data_def split: option.splits FrameData.splits)
  then show thesis
  proof cases
    case resp
    from response.roundtrip [OF resp(3)] obtain data
      where "PTResponse_Encode (Some r) = Inr data" "PTResponse_Decode data = Inr r" by blast
    with resp show thesis
      by (intro that [of data]) (simp_all add: encode_data_def decodes_to_def codes)
  next
    case app
    from services.roundtrip [OF app(3)] obtain data
      where "ServicesFrameData_Encode (Some s) = Inr data" "ServicesFrameData_Decode data = Inr s"
      by blast
    with app show thesis
      by (intro that [of data]) (simp_all add: encode_data_def decodes_to_def codes)
  qed
qed

lemma Packet_roundtrip_sealed:
  assumes "wf_Packet p"
  obtains w data where "Packet_Encode (Some p) = Inr (frame_of w data (sealed w data p))"
    "ReadPacket (frame_of w data (sealed w data p)) = (sealed w data p, None)"
proof -
  from assms have wf: "wf_header p" "header_ok p" "wf_data p" "fits p" "ErrorCode p = 0"
    by (simp_all add: wf_Packet_def)
  from wf_data_decodes [OF wf(3)] obtain data where d: "encode_data p = Inr data"
    "decodes_to (PacketType p) data (PacketServicesFrameData p)" by blast
  from wf(4) d(1) have fit: "length data = unat (FrameDataLength p)"
    "unat (HeaderLength p) + length data + (if data = [] then 0 else 2) \<le> 65535"
    by (simp_all add: fits_def)
  have "unat (HeaderLength p) + length data + 2 \<le> 65535 \<or>
      (data = [] \<and> unat (HeaderLength p) \<le> 65535)"
    using fit(2) by (cases "data = []") simp_all
  from Packet_Encode_wf [OF wf(1) d(1) fit(1) this] obtain w where w: "packet_flags w p"
    "Packet_Encode (Some p) = Inr (frame_of w data (sealed w data p))" .
  have len: "length (frame_of w data (sealed w data p)) \<le> 65535"
    using Packet_Encode_frame [OF w(2)] by blast
  have "packet_spec (frame_of w data (sealed w data p)) (sealed w data p)"
    unfolding packet_spec_def
    by (intro exI [of _ w] exI [of _ data])
      (use wf w(1) d(2) fit(1) len in \<open>simp add: sealed_checksums wf_header_def\<close>)
  then have "ReadPacket (frame_of w data (sealed w data p)) = (sealed w data p, None)"
    by (simp add: ReadPacket_spec)
  with w(2) show thesis by (rule that)
qed

section \<open>Result codes of refused packets\<close>

text \<open>The codes a stage can fail with, composed along the stages.\<close>

definition fails_with :: "u8 set \<Rightarrow> 'a stage \<Rightarrow> bool" where
  "fails_with cs m \<longleftrightarrow> (\<forall>p e. m = Inl (p, e) \<longrightarrow> ErrorCode p \<in> cs)"

lemma fails_with_Inr [intro!]: "fails_with cs (Inr x)"
  by (simp add: fails_with_def)

lemma fails_with_failS [intro]: "c \<in> cs \<Longrightarrow> fails_with cs (failS p c e)"
  by (auto simp: fails_with_def failS_def)

lemma fails_with_bindS [intro]:
  "fails_with cs m \<Longrightarrow> (\<And>x. fails_with cs (f x)) \<Longrightarrow> fails_with cs (bindS m f)"
  by (auto simp: fails_with_def bindS_def split: sum.splits)

lemma fails_with_if [intro]: "fails_with cs a \<Longrightarrow> fails_with cs b \<Longrightarrow> fails_with cs (if c then a else b)"
  by simp

lemma fails_with_header_field [intro]:
  "EGTS_PC_INC_HEADERFORM \<in> cs \<Longrightarrow> fails_with cs (header_field p m upd)"
  by (auto simp: header_field_def split: sum.splits)

lemma fails_with_mono: "fails_with cs m \<Longrightarrow> cs \<subseteq> ds \<Longrightarrow> fails_with ds m"
  by (auto simp: fails_with_def)

lemma fails_with_prod [intro]:
  "(\<And>a b. fails_with cs (f a b)) \<Longrightarrow> fails_with cs (case x of (a, b) \<Rightarrow> f a b)"
  by (cases x) simp

lemmas fails_with_intros = fails_with_bindS fails_with_prod fails_with_header_field fails_with_if
  fails_with_failS fails_with_Inr

lemma fails_with_read_header: "fails_with {EGTS_PC_INC_HEADERFORM} (read_header b)"
  unfolding read_header_def by (intro fails_with_intros) simp_all

lemma fails_with_check_header:
  "fails_with {EGTS_PC_HEADERCRC_ERROR, EGTS_PC_UNS_PROTOCOL, EGTS_PC_INC_HEADERFORM,
     EGTS_PC_DECRYPT_ERROR, EGTS_PC_UNS_TYPE, EGTS_PC_INVDATALEN} (check_header b p)"
  unfolding check_header_def Let_def by (intro fails_with_intros) simp_all

lemma fails_with_read_data: "fails_with {EGTS_PC_INVDATALEN, EGTS_PC_DATACRC_ERROR} (read_data p r)"
  by (auto simp: read_data_def Let_def split: sum.splits)

lemma fails_with_decode_data: "fails_with {EGTS_PC_UNS_TYPE, EGTS_PC_INC_DATAFORM} (decode_data p d)"
  by (auto simp: decode_data_def split: sum.splits)

definition read_errors :: "u8 set" where
  "read_errors = {EGTS_PC_INC_HEADERFORM, EGTS_PC_HEADERCRC_ERROR, EGTS_PC_UNS_PROTOCOL,
     EGTS_PC_DECRYPT_ERROR, EGTS_PC_UNS_TYPE, EGTS_PC_INVDATALEN, EGTS_PC_DATACRC_ERROR,
     EGTS_PC_INC_DATAFORM}"

lemma ReadPacket_error:
  assumes "ReadPacket b = (p, Some e)"
  shows "ErrorCode p \<in> read_errors"
proof -
  have "fails_with read_errors
      (bindS (read_header b) (\<lambda>(p, r).
       bindS (check_header b p) (\<lambda>_.
       bindS (read_data p r) (\<lambda>(p, dataFrameBytes).
       decode_data p dataFrameBytes))))"
    by (intro fails_with_bindS fails_with_prod
        fails_with_mono [OF fails_with_read_header] fails_with_mono [OF fails_with_check_header]
        fails_with_mono [OF fails_with_read_data] fails_with_mono [OF fails_with_decode_data])
      (auto simp: read_errors_def)
  with assms show ?thesis
    by (auto simp: ReadPacket_def fails_with_def split: sum.splits prod.splits)
qed

end
