(* ===== verification/Answers.thy ===== *)
theory Answers
  imports Packets "HOL-Library.Multiset"
begin

text \<open>
  The answers a receiver prepares, \<open>PrepareAnswer\<close> and \<open>PrepareSRResultCode\<close> of
  \<open>egts/packet/packet.go\<close>. The confirmations of a packet are grouped by service pair; the
  grouping loop is shown equal to a specification with one service record per pair.
\<close>

section \<open>PrepareAnswer\<close>

text \<open>
  The inner loop over a record's subrecords: whether there is anything but confirmations, and
  \<open>None\<close> when a nil subrecord stops it.
\<close>

fun has_data :: "RecordsData \<Rightarrow> bool \<Rightarrow> bool option" where
  "has_data [] hasData = Some hasData"
| "has_data (None # rds) hasData = None"
| "has_data (Some rd # rds) hasData =
     has_data rds (if SubrecordType rd \<noteq> RecordResponse then True else hasData)"

definition confirmation :: "u16 \<Rightarrow> RecordData" where
  "confirmation crn =
     \<lparr>SubrecordType = RecordResponse, SubrecordLength = 3,
      SubrecordData = Some (SD_RecordResponse (Some
        \<lparr>ConfirmedRecordNumber = crn, RecordStatus = EGTS_PC_OK\<rparr>))\<rparr>"

definition new_service :: "u16 \<Rightarrow> ServiceDataRecord \<Rightarrow> ServiceDataRecord" where
  "new_service recordNum r =
     \<lparr>RecordLength = 0, RecordNumber = recordNum,
      SSOD = ''0'', RSOD = ''1'', GRP = ''0'', RPP = ''11'', TMFE = ''0'', EVFE = ''0'', OBFE = ''0'',
      ObjectIdentifier = 0, EventIdentifier = 0, Time = 0,
      SourceServiceType = RecipientServiceType r, RecipientServiceType = SourceServiceType r,
      RecordsData = []\<rparr>"

definition confirm :: "ServiceDataRecord \<Rightarrow> ServiceDataRecord \<Rightarrow> ServiceDataRecord" where
  "confirm service r =
     service\<lparr>RecordsData := RecordsData service @ [Some (confirmation (RecordNumber r))],
       RecordLength := RecordLength service + 6\<rparr>"

text \<open>
  The search for the first service record with the swapped pair, the update of the record found
  in place, and the new record at the end otherwise.
\<close>

fun add_confirmation :: "ServiceDataRecord list \<times> u16 \<Rightarrow> ServiceDataRecord \<Rightarrow>
    ServiceDataRecord list \<times> u16" where
  "add_confirmation ([], recordNum) r = ([confirm (new_service recordNum r) r], recordNum + 1)"
| "add_confirmation (existing # services, recordNum) r =
     (if SourceServiceType existing = RecipientServiceType r \<and>
         RecipientServiceType existing = SourceServiceType r
      then (confirm existing r # services, recordNum)
      else case add_confirmation (services, recordNum) r of
             (services', recordNum') \<Rightarrow> (existing # services', recordNum'))"

text \<open>The loop over the incoming records; \<open>None\<close> is the result \<open>EGTS_PC_INC_DATAFORM\<close>.\<close>

fun answer_loop :: "ServiceDataRecord list \<times> u16 \<Rightarrow> ServicesFrameData \<Rightarrow> ServiceDataRecord list option" where
  "answer_loop st [] = Some (fst st)"
| "answer_loop st (None # rs) = None"
| "answer_loop st (Some r # rs) =
     (case has_data (RecordsData r) False of
        None \<Rightarrow> None
      | Some False \<Rightarrow> answer_loop st rs
      | Some True \<Rightarrow> answer_loop (add_confirmation st r) rs)"

definition PrepareAnswer :: "Packet option \<Rightarrow> u16 \<Rightarrow> u16 \<Rightarrow> Packet" where
  "PrepareAnswer p recordNum pid =
     (case p of
        None \<Rightarrow> Packet0
      | Some p \<Rightarrow>
          if PacketType p \<noteq> EGTS_PT_APPDATA then Packet0
          else
            (let (processingResult, services) =
               (if ErrorCode p = EGTS_PC_OK \<and> PacketServicesFrameData p \<noteq> None then
                  (case PacketServicesFrameData p of
                     Some (FD_SFRD (Some incoming)) \<Rightarrow>
                       (case answer_loop ([], recordNum) incoming of
                          None \<Rightarrow> (EGTS_PC_INC_DATAFORM, [])
                        | Some services \<Rightarrow> (ErrorCode p, services))
                   | _ \<Rightarrow> (EGTS_PC_INC_DATAFORM, []))
                else (ErrorCode p, []));
               resp = \<lparr>ResponsePacketID = PacketID p, ProcessingResult = processingResult,
                 SDR = (if length services > 0
                   then Some (RD_SFRD (Some (map Some services))) else None)\<rparr>
             in Packet0
               \<lparr>ProtocolVersion := 1, SecurityKeyID := 0, PRF := ''00'', RTE := ''0'', ENA := ''00'',
                CMP := ''0'', PR := ''11'', HeaderLength := 11, HeaderEncoding := 0,
                FrameDataLength := PTResponse_Len (Some resp), PacketID := pid,
                PacketType := EGTS_PT_RESPONSE,
                PacketServicesFrameData := Some (FD_Response (Some resp))\<rparr>))"

section \<open>PrepareSRResultCode\<close>

definition PrepareSRResultCode :: "u8 \<Rightarrow> u16 \<Rightarrow> u16 \<Rightarrow> Packet" where
  "PrepareSRResultCode c recordNum pid =
     (let data = [Some \<lparr>SubrecordType = ResultCode, SubrecordLength = 1,
            SubrecordData = Some (SD_ResultCode (Some \<lparr>RCD = c\<rparr>))\<rparr>];
          sfrd = [Some
            \<lparr>RecordLength = RecordsData_Len (Some data), RecordNumber = recordNum,
             SSOD = ''0'', RSOD = ''1'', GRP = ''0'', RPP = ''00'', TMFE = ''0'', EVFE = ''0'',
             OBFE = ''0'', ObjectIdentifier = 0, EventIdentifier = 0, Time = 0,
             SourceServiceType = SERVICE_AUTH, RecipientServiceType = SERVICE_AUTH,
             RecordsData = data\<rparr>]
      in Packet0
        \<lparr>ProtocolVersion := 1, SecurityKeyID := 0, PRF := ''00'', RTE := ''0'', ENA := ''00'',
         CMP := ''0'', PR := ''00'', HeaderLength := 11, HeaderEncoding := 0,
         FrameDataLength := ServicesFrameData_Len (Some sfrd), PacketID := pid,
         PacketType := EGTS_PT_APPDATA,
         PacketServicesFrameData := Some (FD_SFRD (Some sfrd))\<rparr>)"

section \<open>The grouping\<close>

text \<open>The records to confirm, and \<open>None\<close> when the packet holds a nil record or subrecord.\<close>

definition nil_free :: "ServicesFrameData \<Rightarrow> bool" where
  "nil_free rs \<longleftrightarrow> list_all (\<lambda>r. case r of None \<Rightarrow> False | Some r \<Rightarrow> None \<notin> set (RecordsData r)) rs"

definition carries_data :: "ServiceDataRecord \<Rightarrow> bool" where
  "carries_data r \<longleftrightarrow>
     (\<exists>rd\<in>set (RecordsData r). case rd of None \<Rightarrow> False | Some d \<Rightarrow> SubrecordType d \<noteq> RecordResponse)"

definition data_records :: "ServicesFrameData \<Rightarrow> ServiceDataRecord list" where
  "data_records rs = filter carries_data (map the rs)"

lemma has_data_eq:
  "has_data rds h = (if None \<in> set rds then None
     else Some (h \<or> (\<exists>rd\<in>set rds. case rd of None \<Rightarrow> False | Some d \<Rightarrow> SubrecordType d \<noteq> RecordResponse)))"
  by (induction rds h rule: has_data.induct) auto

lemma answer_loop_eq:
  "answer_loop st rs =
     (if nil_free rs then Some (fst (foldl add_confirmation st (data_records rs))) else None)"
proof (induction st rs rule: answer_loop.induct)
  case (3 st r rs)
  then show ?case
    by (cases "None \<in> set (RecordsData r)"; cases "carries_data r")
      (auto simp: has_data_eq nil_free_def data_records_def carries_data_def[symmetric] split: if_splits)
qed (auto simp: nil_free_def data_records_def)

text \<open>
  The specification: one service record for each pair, in the order the pairs first occur, with
  consecutive numbers and the confirmations in the order of the records.
\<close>

definition pair_of :: "ServiceDataRecord \<Rightarrow> u8 \<times> u8" where
  "pair_of r = (SourceServiceType r, RecipientServiceType r)"

definition first_pairs :: "ServiceDataRecord list \<Rightarrow> (u8 \<times> u8) list" where
  "first_pairs rs = rev (remdups (rev (map pair_of rs)))"

definition service_for :: "u16 \<Rightarrow> u8 \<times> u8 \<Rightarrow> u16 list \<Rightarrow> ServiceDataRecord" where
  "service_for n k crns =
     \<lparr>RecordLength = word_of_nat (6 * length crns), RecordNumber = n,
      SSOD = ''0'', RSOD = ''1'', GRP = ''0'', RPP = ''11'', TMFE = ''0'', EVFE = ''0'', OBFE = ''0'',
      ObjectIdentifier = 0, EventIdentifier = 0, Time = 0,
      SourceServiceType = snd k, RecipientServiceType = fst k,
      RecordsData = map (\<lambda>crn. Some (confirmation crn)) crns\<rparr>"

definition numbers_for :: "ServiceDataRecord list \<Rightarrow> u8 \<times> u8 \<Rightarrow> u16 list" where
  "numbers_for rs k = map RecordNumber (filter (\<lambda>r. pair_of r = k) rs)"

definition answer_services :: "u16 \<Rightarrow> ServiceDataRecord list \<Rightarrow> ServiceDataRecord list" where
  "answer_services n rs =
     map (\<lambda>(i, k). service_for (n + word_of_nat i) k (numbers_for rs k))
       (enumerate 0 (first_pairs rs))"

lemma first_pairs_snoc:
  "first_pairs (rs @ [r]) =
     (if pair_of r \<in> set (first_pairs rs) then first_pairs rs else first_pairs rs @ [pair_of r])"
  by (simp add: first_pairs_def)

lemma first_pairs_distinct [simp]: "distinct (first_pairs rs)"
  by (simp add: first_pairs_def)

lemma set_first_pairs [simp]: "set (first_pairs rs) = pair_of ` set rs"
  by (simp add: first_pairs_def)

lemma confirm_service_for: "confirm (service_for n k crns) r = service_for n k (crns @ [RecordNumber r])"
  by (simp add: confirm_def service_for_def)

lemma new_service_eq: "new_service n r = service_for n (pair_of r) []"
  by (simp add: new_service_def service_for_def pair_of_def)

lemma service_for_matches:
  "SourceServiceType (service_for n k crns) = RecipientServiceType r \<and>
   RecipientServiceType (service_for n k crns) = SourceServiceType r \<longleftrightarrow> k = pair_of r"
  by (cases k) (auto simp: service_for_def pair_of_def)

lemma enumerate_snd: "(i, k) \<in> set (enumerate m ks) \<Longrightarrow> k \<in> set ks"
  by (auto simp: in_set_enumerate_eq)

lemma add_confirmation_old:
  "distinct ks \<Longrightarrow> pair_of r \<in> set ks \<Longrightarrow>
   add_confirmation (map (\<lambda>(i, k). service_for (f i) k (g k)) (enumerate m ks), num) r =
   (map (\<lambda>(i, k). service_for (f i) k
      (if k = pair_of r then g k @ [RecordNumber r] else g k)) (enumerate m ks), num)"
proof (induction ks arbitrary: m)
  case (Cons k ks)
  show ?case
  proof (cases "k = pair_of r")
    case True
    with Cons.prems have "pair_of r \<notin> set ks" by auto
    then have no: "(i, pair_of r) \<notin> set (enumerate (Suc m) ks)" for i
      using enumerate_snd by metis
    have "map (\<lambda>(i, k). service_for (f i) k (g k)) (enumerate (Suc m) ks) =
        map (\<lambda>(i, k). service_for (f i) k (if k = pair_of r then g k @ [RecordNumber r] else g k))
          (enumerate (Suc m) ks)"
      using no by auto
    with True show ?thesis by (simp add: service_for_matches confirm_service_for)
  next
    case False
    with Cons show ?thesis by (simp add: service_for_matches)
  qed
qed simp

lemma add_confirmation_new:
  "pair_of r \<notin> set ks \<Longrightarrow>
   add_confirmation (map (\<lambda>(i, k). service_for (f i) k (g k)) (enumerate m ks), num) r =
   (map (\<lambda>(i, k). service_for (f i) k (g k)) (enumerate m ks) @
      [service_for num (pair_of r) [RecordNumber r]], num + 1)"
  by (induction ks arbitrary: m) (auto simp: service_for_matches new_service_eq confirm_service_for)

lemma numbers_for_snoc:
  "numbers_for (rs @ [r]) k = (if k = pair_of r then numbers_for rs k @ [RecordNumber r] else numbers_for rs k)"
  by (auto simp: numbers_for_def)

lemma numbers_for_none: "k \<notin> pair_of ` set rs \<Longrightarrow> numbers_for rs k = []"
  by (auto simp: numbers_for_def filter_empty_conv)

lemma foldl_add_confirmation:
  "foldl add_confirmation ([], n) rs =
   (answer_services n rs, n + word_of_nat (length (first_pairs rs)))"
proof (induction rs rule: rev_induct)
  case Nil
  then show ?case by (simp add: answer_services_def first_pairs_def)
next
  case (snoc r rs)
  let ?ks = "first_pairs rs" and ?num = "n + word_of_nat (length (first_pairs rs))"
  have "foldl add_confirmation ([], n) (rs @ [r]) = add_confirmation (answer_services n rs, ?num) r"
    by (simp add: snoc.IH)
  also have "\<dots> = (answer_services n (rs @ [r]), n + word_of_nat (length (first_pairs (rs @ [r]))))"
  proof (cases "pair_of r \<in> set ?ks")
    case True
    then show ?thesis
      unfolding answer_services_def
      by (subst add_confirmation_old) (simp_all add: first_pairs_snoc numbers_for_snoc)
  next
    case False
    then have no: "(i, pair_of r) \<notin> set (enumerate 0 ?ks)" for i
      using enumerate_snd by metis
    have "map (\<lambda>(i, k). service_for (n + word_of_nat i) k (numbers_for (rs @ [r]) k)) (enumerate 0 ?ks) =
        map (\<lambda>(i, k). service_for (n + word_of_nat i) k (numbers_for rs k)) (enumerate 0 ?ks)"
      using no by (auto simp: numbers_for_snoc)
    moreover have "enumerate 0 (?ks @ [pair_of r]) = enumerate 0 ?ks @ [(length ?ks, pair_of r)]"
      by (simp add: enumerate_append_eq)
    ultimately show ?thesis
      unfolding answer_services_def using False
      by (subst add_confirmation_new)
        (simp_all add: first_pairs_snoc numbers_for_snoc numbers_for_none add.assoc)
  qed
  finally show ?case .
qed

lemma answer_loop_spec:
  "answer_loop ([], n) rs = (if nil_free rs then Some (answer_services n (data_records rs)) else None)"
  by (simp add: answer_loop_eq foldl_add_confirmation)

section \<open>Every record is confirmed once\<close>

text \<open>Distinct keys that cover a list split it.\<close>

lemma mset_partition:
  "distinct ks \<Longrightarrow> pair_of ` set rs \<subseteq> set ks \<Longrightarrow>
   mset (concat (map (numbers_for rs) ks)) = mset (map RecordNumber rs)"
proof (induction rs)
  case Nil
  then show ?case by (induction ks) (simp_all add: numbers_for_def)
next
  case (Cons r rs)
  have "mset (concat (map (numbers_for (r # rs)) ks)) =
      (if pair_of r \<in> set ks then {#RecordNumber r#} else {#}) + mset (concat (map (numbers_for rs) ks))"
    using Cons.prems(1) by (induction ks) (auto simp: numbers_for_def)
  with Cons show ?case by simp
qed

definition confirmed :: "ServiceDataRecord \<Rightarrow> u16 list" where
  "confirmed s = concat (map (\<lambda>rd. case rd of
       None \<Rightarrow> []
     | Some r \<Rightarrow>
         (case SubrecordData r of
            Some (SD_RecordResponse (Some rr)) \<Rightarrow> [ConfirmedRecordNumber rr]
          | _ \<Rightarrow> [])) (RecordsData s))"

lemma confirmed_service_for [simp]: "confirmed (service_for n k crns) = crns"
  by (induction crns) (simp_all add: confirmed_def service_for_def confirmation_def)

lemma map_snd_enumerate: "map (\<lambda>(i, k). f k) (enumerate m ks) = map f ks"
  by (induction ks arbitrary: m) simp_all

lemma confirmed_answer_services:
  "concat (map confirmed (answer_services n rs)) = concat (map (numbers_for rs) (first_pairs rs))"
proof -
  have "map confirmed (answer_services n rs) = map (\<lambda>(i, k). numbers_for rs k) (enumerate 0 (first_pairs rs))"
    by (auto simp: answer_services_def)
  then show ?thesis by (simp only: map_snd_enumerate)
qed

lemma mset_confirmed:
  "mset (concat (map confirmed (answer_services n rs))) = mset (map RecordNumber rs)"
  unfolding confirmed_answer_services by (rule mset_partition) simp_all

section \<open>The answer is a packet\<close>

lemma wf_confirmation: "wf_Record (Some (confirmation crn))"
  by (simp add: wf_Record_def confirmation_def codes)

lemma record_bytes_confirmation [simp]:
  "record_bytes (Some (confirmation crn)) = [0, 3, 0] @ PutUint16 crn @ [0]"
  by (simp add: record_bytes_def confirmation_def codes) (simp add: PutUint16_def)

lemma records_bytes_confirmations [simp]:
  "length (records_bytes (map (\<lambda>crn. Some (confirmation crn)) crns)) = 6 * length crns"
  by (induction crns) simp_all

lemma service_for_flags: "SDR_flags 0x58 (service_for n k crns)"
  by (simp add: SDR_flags_def service_for_def bitstr_def bitc_def)

lemma unat_word_of_nat_u16: "m \<le> 65535 \<Longrightarrow> unat (word_of_nat m :: u16) = m"
  by (simp add: unat_of_nat take_bit_nat_eq_self)

lemma length_service_for: "length (SDR_bytes (Some (service_for n k crns))) = 7 + 6 * length crns"
  using records_bytes_confirmations [of crns]
  by (simp add: SDR_bytes_def SDR_header_def SDR_flag_byte_eq [OF service_for_flags])
    (simp add: service_for_def flag_bytes_def del: map_map)

lemma wf_service_for:
  assumes "crns \<noteq> []" "6 * length crns \<le> 65535"
  shows "wf_SDR (Some (service_for n k crns))"
proof -
  let ?s = "service_for n k crns"
  have fb: "SDR_flag_byte ?s = 0x58" by (rule SDR_flag_byte_eq [OF service_for_flags])
  have "RecordLength ?s = word_of_nat (6 * length crns)" by (simp add: service_for_def)
  then have rl: "unat (RecordLength ?s) = 6 * length crns"
    using unat_word_of_nat_u16 [OF assms(2)] by simp
  moreover from this assms(1) have "RecordLength ?s \<noteq> 0" by auto
  moreover have "list_all wf_Record (RecordsData ?s)" "length (records_bytes (RecordsData ?s)) = 6 * length crns"
    using records_bytes_confirmations [of crns]
    by (simp_all add: service_for_def list_all_iff wf_confirmation del: map_map)
  moreover have "SDR_absent ?s" by (simp add: SDR_absent_def service_for_def)
  ultimately show ?thesis
    using service_for_flags by (simp add: wf_SDR_def fb)
qed

lemma numbers_for_bounds:
  "k \<in> set (first_pairs rs) \<Longrightarrow> numbers_for rs k \<noteq> []" "length (numbers_for rs k) \<le> length rs"
  by (auto simp: numbers_for_def filter_empty_conv)

lemma length_first_pairs: "length (first_pairs rs) \<le> length rs"
proof -
  have "length (first_pairs rs) \<le> length (rev (map pair_of rs))"
    unfolding first_pairs_def length_rev by (metis length_remdups_leq length_rev length_map)
  then show ?thesis by simp
qed

lemma length_answer_services:
  "length (SFRD_bytes (map Some (answer_services n rs))) = 7 * length (first_pairs rs) + 6 * length rs"
proof -
  have "map SDR_bytes (map Some (answer_services n rs)) = map (\<lambda>(i, k).
      SDR_bytes (Some (service_for (n + word_of_nat i) k (numbers_for rs k)))) (enumerate 0 (first_pairs rs))"
    by (auto simp: answer_services_def)
  moreover have len: "length (concat (map (\<lambda>(i, k).
      SDR_bytes (Some (service_for (n + word_of_nat i) k (numbers_for rs k)))) (enumerate m ks))) =
      7 * length ks + 6 * length (concat (map (numbers_for rs) ks))" for m ks
    by (induction ks arbitrary: m) (auto simp: length_service_for)
  moreover have "length (concat (map (numbers_for rs) (first_pairs rs))) = length rs"
    using mset_partition [of "first_pairs rs" rs] by (metis first_pairs_distinct set_first_pairs
        order_refl size_mset length_map)
  ultimately show ?thesis by simp
qed

lemma answer_services_Nil [simp]: "answer_services n rs = [] \<longleftrightarrow> rs = []"
proof -
  have "length (answer_services n rs) = length (first_pairs rs)"
    by (simp add: answer_services_def)
  moreover have "first_pairs rs = [] \<longleftrightarrow> rs = []"
    by (simp add: first_pairs_def)
  ultimately show ?thesis by (metis length_0_conv)
qed

lemma answer_services_wf:
  assumes "length rs \<le> 5039"
  shows "list_all wf_SDR (map Some (answer_services n rs))"
    and "length (SFRD_bytes (map Some (answer_services n rs))) \<le> 13 * length rs"
proof -
  have bound: "6 * length (numbers_for rs k) \<le> 65535" for k
    using assms numbers_for_bounds(2) [of rs k] by linarith
  have in_first: "(i, k) \<in> set (enumerate m (first_pairs rs)) \<Longrightarrow> numbers_for rs k \<noteq> []" for i k m
    by (rule numbers_for_bounds(1)) (rule enumerate_snd)
  show "list_all wf_SDR (map Some (answer_services n rs))"
    by (auto simp: list_all_iff answer_services_def in_first bound intro!: wf_service_for)
  show "length (SFRD_bytes (map Some (answer_services n rs))) \<le> 13 * length rs"
    unfolding length_answer_services using length_first_pairs [of rs] by linarith
qed

lemma first_pairs_distinct_eq: "distinct (map pair_of rs) \<Longrightarrow> first_pairs rs = map pair_of rs"
  by (simp add: first_pairs_def distinct_remdups_id)

text \<open>With many different pairs the answer outgrows a packet.\<close>

lemma answer_response_too_long:
  assumes "5041 \<le> length rs" "distinct (map pair_of rs)"
    and "SDR resp = Some (RD_SFRD (Some (map Some (answer_services n rs))))"
  shows "\<exists>e. PTResponse_Encode (Some resp) = Inl e"
proof (cases "PTResponse_Encode (Some resp)")
  case (Inr bs)
  then obtain sdr where "ServicesFrameData_Encode (Some (map Some (answer_services n rs))) = Inr sdr"
    "length sdr + 3 \<le> 65535"
    by (auto simp: assms(3) simp del: ServicesFrameData_Encode.simps split: if_splits)
  with length_answer_services [of n rs] first_pairs_distinct_eq [OF assms(2)] assms(1) show ?thesis
    by (simp add: ServicesFrameData_Encode_Inr del: ServicesFrameData_Encode.simps)
qed simp

text \<open>What the answer to a packet without an error confirms.\<close>

definition answer_data :: "Packet \<Rightarrow> u16 \<Rightarrow> (u8 \<times> ServiceDataRecord list)" where
  "answer_data p recordNum =
     (if ErrorCode p = EGTS_PC_OK \<and> PacketServicesFrameData p \<noteq> None then
        (case PacketServicesFrameData p of
           Some (FD_SFRD (Some incoming)) \<Rightarrow>
             (if nil_free incoming then (ErrorCode p, answer_services recordNum (data_records incoming))
              else (EGTS_PC_INC_DATAFORM, []))
         | _ \<Rightarrow> (EGTS_PC_INC_DATAFORM, []))
      else (ErrorCode p, []))"

definition answer_response :: "Packet \<Rightarrow> u16 \<Rightarrow> PTResponse" where
  "answer_response p recordNum =
     \<lparr>ResponsePacketID = PacketID p, ProcessingResult = fst (answer_data p recordNum),
      SDR = (if snd (answer_data p recordNum) \<noteq> []
        then Some (RD_SFRD (Some (map Some (snd (answer_data p recordNum))))) else None)\<rparr>"

definition response_packet :: "u16 \<Rightarrow> PTResponse \<Rightarrow> Packet" where
  "response_packet pid resp = Packet0
     \<lparr>ProtocolVersion := 1, SecurityKeyID := 0, PRF := ''00'', RTE := ''0'', ENA := ''00'',
      CMP := ''0'', PR := ''11'', HeaderLength := 11, HeaderEncoding := 0,
      FrameDataLength := PTResponse_Len (Some resp), PacketID := pid,
      PacketType := EGTS_PT_RESPONSE,
      PacketServicesFrameData := Some (FD_Response (Some resp))\<rparr>"

lemma PrepareAnswer_eq:
  "PacketType p = EGTS_PT_APPDATA \<Longrightarrow>
   PrepareAnswer (Some p) recordNum pid = response_packet pid (answer_response p recordNum)"
  by (auto simp: PrepareAnswer_def answer_response_def answer_data_def response_packet_def
      answer_loop_spec Let_def split: option.splits FrameData.splits)

lemma wf_response_packet:
  assumes "PTResponse_Encode (Some resp) = Inr bs" "wf_Response resp" "length bs \<le> 65522"
  shows "wf_Packet (response_packet pid resp)"
proof -
  have len: "unat (PTResponse_Len (Some resp)) = length bs"
    using unat_word_of_nat_u16 [of "length bs"] assms(1,3)
    by (simp add: PTResponse_Len_def del: PTResponse_Encode.simps)
  then show ?thesis
    using assms
    by (simp add: wf_Packet_def response_packet_def Packet0_def wf_header_def header_ok_def
        wf_data_def fits_def encode_data_def codes del: PTResponse_Encode.simps)
qed

lemma answer_response_encode:
  assumes "\<And>incoming. ErrorCode p = EGTS_PC_OK \<Longrightarrow>
      PacketServicesFrameData p = Some (FD_SFRD (Some incoming)) \<Longrightarrow>
      length (data_records incoming) \<le> 5039"
  obtains bs where "PTResponse_Encode (Some (answer_response p n)) = Inr bs"
    "wf_Response (answer_response p n)" "length bs \<le> 65522"
proof (cases "snd (answer_data p n) = []")
  case True
  then show thesis
    by (intro that [of "PutUint16 (PacketID p) @ [fst (answer_data p n)]"])
      (simp_all add: answer_response_def wf_Response_def)
next
  case False
  then obtain incoming where inc: "ErrorCode p = EGTS_PC_OK"
    "PacketServicesFrameData p = Some (FD_SFRD (Some incoming))"
    "snd (answer_data p n) = answer_services n (data_records incoming)"
    by (auto simp: answer_data_def split: if_splits option.splits FrameData.splits)
  let ?ss = "map Some (snd (answer_data p n))"
  note small = assms [OF inc(1,2)]
  have len: "length (SFRD_bytes ?ss) \<le> 65507"
    using answer_services_wf(2) [OF small, of n] small inc(3) by simp
  then have wf: "wf_SFRD ?ss"
    using answer_services_wf(1) [OF small, of n] inc(3) by (simp add: wf_SFRD_def)
  have sdr: "SDR (answer_response p n) = Some (RD_SFRD (Some ?ss))"
    using False by (simp add: answer_response_def)
  have wfr: "wf_Response (answer_response p n)"
    using False wf len by (simp add: wf_Response_def sdr)
  show thesis
    by (rule that [OF _ wfr, of "PutUint16 (PacketID p) @ [fst (answer_data p n)] @ SFRD_bytes ?ss"])
      (use len in \<open>simp_all add: sdr SFRD_roundtrip(1) [OF wf] del: ServicesFrameData_Encode.simps\<close>,
        simp add: answer_response_def)
qed

lemma PrepareAnswer_wf:
  assumes "PacketType p = EGTS_PT_APPDATA"
    and "\<And>incoming. ErrorCode p = EGTS_PC_OK \<Longrightarrow>
      PacketServicesFrameData p = Some (FD_SFRD (Some incoming)) \<Longrightarrow>
      length (data_records incoming) \<le> 5039"
  shows "wf_Packet (PrepareAnswer (Some p) n pid)"
  unfolding PrepareAnswer_eq [OF assms(1)]
  by (rule answer_response_encode [OF assms(2), where n = n]) (auto intro: wf_response_packet)

text \<open>The flag byte of the packets prepared here.\<close>

lemma parse_flags_zero: "parse_flags ''00000000'' = Inr 0"
proof -
  have "bits08 0 = ''00000000''" by (simp add: bits08_def bitc_def)
  then show ?thesis using parse_flags_bits08 [of 0] by simp
qed

section \<open>The result code is a packet\<close>

definition result_record :: "u8 \<Rightarrow> RecordData option" where
  "result_record c = Some \<lparr>SubrecordType = ResultCode, SubrecordLength = 1,
     SubrecordData = Some (SD_ResultCode (Some \<lparr>RCD = c\<rparr>))\<rparr>"

definition result_service :: "u8 \<Rightarrow> u16 \<Rightarrow> ServiceDataRecord" where
  "result_service c n =
     \<lparr>RecordLength = 4, RecordNumber = n,
      SSOD = ''0'', RSOD = ''1'', GRP = ''0'', RPP = ''00'', TMFE = ''0'', EVFE = ''0'', OBFE = ''0'',
      ObjectIdentifier = 0, EventIdentifier = 0, Time = 0,
      SourceServiceType = SERVICE_AUTH, RecipientServiceType = SERVICE_AUTH,
      RecordsData = [result_record c]\<rparr>"

lemma result_record_bytes [simp]: "record_bytes (result_record c) = [9, 1, 0, c]"
  by (simp add: record_bytes_def result_record_def codes PutUint16_def)

lemma wf_result_record: "wf_Record (result_record c)"
  by (simp add: wf_Record_def result_record_def codes)

lemma wf_result_service:
  "wf_SDR (Some (result_service c n))" "length (SDR_bytes (Some (result_service c n))) = 11"
proof -
  have f: "SDR_flags 0x40 (result_service c n)"
    by (simp add: SDR_flags_def result_service_def bitstr_def bitc_def)
  note fb = SDR_flag_byte_eq [OF f]
  show "wf_SDR (Some (result_service c n))"
    using f by (simp add: wf_SDR_def fb)
      (simp add: result_service_def SDR_absent_def wf_result_record)
  show "length (SDR_bytes (Some (result_service c n))) = 11"
    by (simp add: SDR_bytes_def SDR_header_def fb) (simp add: result_service_def flag_bytes_def)
qed

lemma wf_result_services: "wf_SFRD [Some (result_service c n)]"
  using wf_result_service [of c n] by (simp add: wf_SFRD_def)

lemma PrepareSRResultCode_eq:
  "PrepareSRResultCode c n pid = Packet0
     \<lparr>ProtocolVersion := 1, SecurityKeyID := 0, PRF := ''00'', RTE := ''0'', ENA := ''00'',
      CMP := ''0'', PR := ''00'', HeaderLength := 11, HeaderEncoding := 0,
      FrameDataLength := 11, PacketID := pid, PacketType := EGTS_PT_APPDATA,
      PacketServicesFrameData := Some (FD_SFRD (Some [Some (result_service c n)]))\<rparr>"
proof -
  have "RecordsData_Encode (Some [result_record c]) = Inr (records_bytes [result_record c])"
    by (rule Records_roundtrip(1)) (simp add: wf_Records_def wf_result_record)
  then have "RecordsData_Len (Some [result_record c]) = 4"
    by (simp add: RecordsData_Len_def del: RecordsData_Encode.simps)
  moreover have "ServicesFrameData_Len (Some [Some (result_service c n)]) = 11"
    using SFRD_roundtrip(1) [OF wf_result_services, of c n] wf_result_service(2) [of c n]
    by (simp add: ServicesFrameData_Len_def del: ServicesFrameData_Encode.simps)
  ultimately show ?thesis
    by (simp add: PrepareSRResultCode_def Let_def result_record_def result_service_def)
qed

lemma PrepareSRResultCode_wf: "wf_Packet (PrepareSRResultCode c n pid)"
proof -
  note enc = SFRD_roundtrip(1) [OF wf_result_services, of c n]
  show ?thesis
    using wf_result_services [of c n] wf_result_service(2) [of c n]
    by (simp add: PrepareSRResultCode_eq wf_Packet_def Packet0_def wf_header_def header_ok_def
        wf_data_def fits_def encode_data_def codes enc del: ServicesFrameData_Encode.simps)
qed

section \<open>Decoded packets hold no nil records\<close>

lemma RecordsData_Decode_Some: "RecordsData_Decode bs = Inr rs \<Longrightarrow> None \<notin> set rs"
  using RecordsData_Decode_all [where P = "\<lambda>rd. rd \<noteq> None"] by (auto simp: list_all_iff)

lemma ServicesFrameData_Decode_nil_free: "ServicesFrameData_Decode bs = Inr rs \<Longrightarrow> nil_free rs"
  unfolding nil_free_def by (rule ServicesFrameData_Decode_all) (auto dest: RecordsData_Decode_Some)

end
