(* ===== verification/Crc_Catalogue.thy ===== *)
theory Crc_Catalogue
  imports Crc
begin

text \<open>
  The predefined parameter sets of \<open>crc/crc8/crc8.go\<close> and \<open>crc/crc16/crc16.go\<close>, as lists in
  the order of the two \<open>var\<close> blocks, checked against the \<open>Check\<close> value each of them records:
  the checksum of the nine bytes of the string 123456789.
\<close>

section \<open>The predefined algorithms\<close>

definition crc8_catalogue :: "Params8 list" where
  "crc8_catalogue =
    [\<lparr>Poly8 = 0x07, Init8 = 0x00, RefIn8 = False, RefOut8 = False, XorOut8 = 0x00, Check8 = 0xF4, Name8 = ''CRC-8''\<rparr>,
     \<lparr>Poly8 = 0x9B, Init8 = 0xFF, RefIn8 = False, RefOut8 = False, XorOut8 = 0x00, Check8 = 0xDA, Name8 = ''CRC-8/CDMA2000''\<rparr>,
     \<lparr>Poly8 = 0x39, Init8 = 0x00, RefIn8 = True, RefOut8 = True, XorOut8 = 0x00, Check8 = 0x15, Name8 = ''CRC-8/DARC''\<rparr>,
     \<lparr>Poly8 = 0xD5, Init8 = 0x00, RefIn8 = False, RefOut8 = False, XorOut8 = 0x00, Check8 = 0xBC, Name8 = ''CRC-8/DVB-S2''\<rparr>,
     \<lparr>Poly8 = 0x1D, Init8 = 0xFF, RefIn8 = True, RefOut8 = True, XorOut8 = 0x00, Check8 = 0x97, Name8 = ''CRC-8/EBU''\<rparr>,
     \<lparr>Poly8 = 0x1D, Init8 = 0xFD, RefIn8 = False, RefOut8 = False, XorOut8 = 0x00, Check8 = 0x7E, Name8 = ''CRC-8/I-CODE''\<rparr>,
     \<lparr>Poly8 = 0x07, Init8 = 0x00, RefIn8 = False, RefOut8 = False, XorOut8 = 0x55, Check8 = 0xA1, Name8 = ''CRC-8/ITU''\<rparr>,
     \<lparr>Poly8 = 0x31, Init8 = 0x00, RefIn8 = True, RefOut8 = True, XorOut8 = 0x00, Check8 = 0xA1, Name8 = ''CRC-8/MAXIM''\<rparr>,
     \<lparr>Poly8 = 0x07, Init8 = 0xFF, RefIn8 = True, RefOut8 = True, XorOut8 = 0x00, Check8 = 0xD0, Name8 = ''CRC-8/ROHC''\<rparr>,
     \<lparr>Poly8 = 0x9B, Init8 = 0x00, RefIn8 = True, RefOut8 = True, XorOut8 = 0x00, Check8 = 0x25, Name8 = ''CRC-8/WCDMA''\<rparr>]"

definition crc16_catalogue :: "Params16 list" where
  "crc16_catalogue =
    [\<lparr>Poly16 = 0x8005, Init16 = 0x0000, RefIn16 = True, RefOut16 = True, XorOut16 = 0x0000, Check16 = 0xBB3D, Name16 = ''CRC-16/ARC''\<rparr>,
     \<lparr>Poly16 = 0x1021, Init16 = 0x1D0F, RefIn16 = False, RefOut16 = False, XorOut16 = 0x0000, Check16 = 0xE5CC, Name16 = ''CRC-16/AUG-CCITT''\<rparr>,
     \<lparr>Poly16 = 0x8005, Init16 = 0x0000, RefIn16 = False, RefOut16 = False, XorOut16 = 0x0000, Check16 = 0xFEE8, Name16 = ''CRC-16/BUYPASS''\<rparr>,
     \<lparr>Poly16 = 0x1021, Init16 = 0xFFFF, RefIn16 = False, RefOut16 = False, XorOut16 = 0x0000, Check16 = 0x29B1, Name16 = ''CRC-16/CCITT-FALSE''\<rparr>,
     \<lparr>Poly16 = 0xC867, Init16 = 0xFFFF, RefIn16 = False, RefOut16 = False, XorOut16 = 0x0000, Check16 = 0x4C06, Name16 = ''CRC-16/CDMA2000''\<rparr>,
     \<lparr>Poly16 = 0x8005, Init16 = 0x800D, RefIn16 = False, RefOut16 = False, XorOut16 = 0x0000, Check16 = 0x9ECF, Name16 = ''CRC-16/DDS-110''\<rparr>,
     \<lparr>Poly16 = 0x0589, Init16 = 0x0000, RefIn16 = False, RefOut16 = False, XorOut16 = 0x0001, Check16 = 0x007E, Name16 = ''CRC-16/DECT-R''\<rparr>,
     \<lparr>Poly16 = 0x0589, Init16 = 0x0000, RefIn16 = False, RefOut16 = False, XorOut16 = 0x0000, Check16 = 0x007F, Name16 = ''CRC-16/DECT-X''\<rparr>,
     \<lparr>Poly16 = 0x3D65, Init16 = 0x0000, RefIn16 = True, RefOut16 = True, XorOut16 = 0xFFFF, Check16 = 0xEA82, Name16 = ''CRC-16/DNP''\<rparr>,
     \<lparr>Poly16 = 0x3D65, Init16 = 0x0000, RefIn16 = False, RefOut16 = False, XorOut16 = 0xFFFF, Check16 = 0xC2B7, Name16 = ''CRC-16/EN-13757''\<rparr>,
     \<lparr>Poly16 = 0x1021, Init16 = 0xFFFF, RefIn16 = False, RefOut16 = False, XorOut16 = 0xFFFF, Check16 = 0xD64E, Name16 = ''CRC-16/GENIBUS''\<rparr>,
     \<lparr>Poly16 = 0x8005, Init16 = 0x0000, RefIn16 = True, RefOut16 = True, XorOut16 = 0xFFFF, Check16 = 0x44C2, Name16 = ''CRC-16/MAXIM''\<rparr>,
     \<lparr>Poly16 = 0x1021, Init16 = 0xFFFF, RefIn16 = True, RefOut16 = True, XorOut16 = 0x0000, Check16 = 0x6F91, Name16 = ''CRC-16/MCRF4XX''\<rparr>,
     \<lparr>Poly16 = 0x1021, Init16 = 0xB2AA, RefIn16 = True, RefOut16 = True, XorOut16 = 0x0000, Check16 = 0x63D0, Name16 = ''CRC-16/RIELLO''\<rparr>,
     \<lparr>Poly16 = 0x8BB7, Init16 = 0x0000, RefIn16 = False, RefOut16 = False, XorOut16 = 0x0000, Check16 = 0xD0DB, Name16 = ''CRC-16/T10-DIF''\<rparr>,
     \<lparr>Poly16 = 0xA097, Init16 = 0x0000, RefIn16 = False, RefOut16 = False, XorOut16 = 0x0000, Check16 = 0x0FB3, Name16 = ''CRC-16/TELEDISK''\<rparr>,
     \<lparr>Poly16 = 0x1021, Init16 = 0x89EC, RefIn16 = True, RefOut16 = True, XorOut16 = 0x0000, Check16 = 0x26B1, Name16 = ''CRC-16/TMS37157''\<rparr>,
     \<lparr>Poly16 = 0x8005, Init16 = 0xFFFF, RefIn16 = True, RefOut16 = True, XorOut16 = 0xFFFF, Check16 = 0xB4C8, Name16 = ''CRC-16/USB''\<rparr>,
     \<lparr>Poly16 = 0x1021, Init16 = 0xC6C6, RefIn16 = True, RefOut16 = True, XorOut16 = 0x0000, Check16 = 0xBF05, Name16 = ''CRC-16/CRC-A''\<rparr>,
     \<lparr>Poly16 = 0x1021, Init16 = 0x0000, RefIn16 = True, RefOut16 = True, XorOut16 = 0x0000, Check16 = 0x2189, Name16 = ''CRC-16/KERMIT''\<rparr>,
     \<lparr>Poly16 = 0x8005, Init16 = 0xFFFF, RefIn16 = True, RefOut16 = True, XorOut16 = 0x0000, Check16 = 0x4B37, Name16 = ''CRC-16/MODBUS''\<rparr>,
     \<lparr>Poly16 = 0x1021, Init16 = 0xFFFF, RefIn16 = True, RefOut16 = True, XorOut16 = 0xFFFF, Check16 = 0x906E, Name16 = ''CRC-16/X-25''\<rparr>,
     \<lparr>Poly16 = 0x1021, Init16 = 0x0000, RefIn16 = False, RefOut16 = False, XorOut16 = 0x0000, Check16 = 0x31C3, Name16 = ''CRC-16/XMODEM''\<rparr>]"

definition check_input :: bytes where
  "check_input = bytes_of_string ''123456789''"

lemma Checksum8_params:
  "Checksum8 data (MakeTable8 p) =
     (let crc = crc_reg (Poly8 p) (RefIn8 p) (Init8 p) data
      in (if RefOut8 p then ReverseUint8 crc else crc) XOR XorOut8 p)"
  by (simp add: Checksum8_def Complete8_def Init_crc8_def Update8_crc_reg Let_def)

lemma Checksum16_params:
  "Checksum16 data (MakeTable16 p) =
     (let crc = crc_reg (Poly16 p) (RefIn16 p) (Init16 p) data
      in (if RefOut16 p then ReverseUint16 crc else crc) XOR XorOut16 p)"
  by (simp add: Checksum16_def Complete16_def Init_crc16_def Update16_crc_reg Let_def)

lemma check_input_eval: "check_input = [49, 50, 51, 52, 53, 54, 55, 56, 57]"
  by (simp add: check_input_def bytes_of_string_def byte_of_char_def)

lemma catalogue8:
  "list_all (\<lambda>p. Checksum8 check_input (MakeTable8 p) = Check8 p) crc8_catalogue"
  by (simp add: crc8_catalogue_def Checksum8_params check_input_eval crc_reg_def crc_bit_def msb_first_def
      lsb_first_def ReverseUint8_def ReverseByte_def upt_rec)

lemma catalogue16:
  "list_all (\<lambda>p. Checksum16 check_input (MakeTable16 p) = Check16 p) crc16_catalogue"
  by (simp add: crc16_catalogue_def Checksum16_params check_input_eval crc_reg_def crc_bit_def msb_first_def
      lsb_first_def ReverseUint16_def upt_rec)
end
