(* ===== verification/Encoding_Properties.thy ===== *)
theory Encoding_Properties
  imports Answers Crc_Catalogue
begin

text \<open>
  The properties of the checksums, the subrecords, the record data and the service records. Each
  follows from the facts of the component it is about.
\<close>

section \<open>Checksums\<close>

text \<open>
  C40. The table-driven update of both CRC packages computes the bit-by-bit definition, for every
  polynomial, reflection, register and input.
\<close>

theorem crc_tables_implement_definition:
  "Update8 r8 data (MakeTable8 p8) = crc_reg (Poly8 p8) (RefIn8 p8) r8 data \<and>
   Update16 r16 data (MakeTable16 p16) = crc_reg (Poly16 p16) (RefIn16 p16) r16 data"
  by (simp add: Update8_crc_reg Update16_crc_reg)

text \<open>
  Bit reversal of bytes and of 16-bit words swaps bit \<open>i\<close> with bit \<open>7 - i\<close> or \<open>15 - i\<close>, and is
  its own inverse.
\<close>

theorem reverse_bits:
  "map (bit (ReverseByte b)) [0, 1, 2, 3, 4, 5, 6, 7] = rev (map (bit b) [0, 1, 2, 3, 4, 5, 6, 7]) \<and>
   map (bit (ReverseUint16 w)) [0..<16] = rev (map (bit w) [0..<16]) \<and>
   ReverseByte (ReverseByte b) = b \<and> ReverseUint16 (ReverseUint16 w) = w"
  by (auto simp: bit_ReverseByte bit_ReverseUint16 rev_map rev_nth intro!: nth_equalityI)

text \<open>
  The CRC-16 of the frame data detects every error burst that lies within two adjacent bytes.
\<close>

theorem crc16_detects_bursts:
  "Crc 16 (xs @ [a, b] @ ys) = Crc 16 (xs @ [a', b'] @ ys) \<longleftrightarrow> a = a' \<and> b = b'"
  using Checksum16_burst [of xs a b ys a' b'] by (auto simp flip: word_uint_eq_iff)

section \<open>Subrecords that re-encode to the same bytes\<close>

text \<open>
  EGTS_SR_AUTH_INFO: the decoder accepts exactly the encodings of well-formed credentials
  (strings within 32 and 255 bytes without NUL) and inverts the encoder.
\<close>

theorem AuthInfo_codec:
  "SRAuthInfo_Decode bs = Inr s \<longleftrightarrow> wf_AuthInfo s \<and> SRAuthInfo_Encode (Some s) = Inr bs"
  by (rule auth_info.decode_iff)

text \<open>
  EGTS_SR_TERM_IDENTITY: the decoder accepts exactly the encodings of well-formed values, with
  every optional field present or absent as its flag says.
\<close>

theorem TermIdentity_codec:
  "SRTermIdentity_Decode bs = Inr s \<longleftrightarrow>
   wf_TermIdentity s \<and> SRTermIdentity_Encode (Some s) = Inr bs"
  by (rule term_identity.decode_iff)

text \<open>
  The encoder of EGTS_SR_TERM_IDENTITY checks nothing: flags that are not bits and strings of
  the wrong length are written without an error, and no input is decoded to such a value.
\<close>

theorem TermIdentity_unchecked:
  assumes "\<not> wf_TermIdentity s"
  shows "(\<exists>bs. SRTermIdentity_Encode (Some s) = Inr bs) \<and> (\<forall>bs. SRTermIdentity_Decode bs \<noteq> Inr s)"
  using assms TermIdentity_exact by (auto simp: Let_def)

theorem TermIdentity_unchecked_witness:
  "\<exists>bs. SRTermIdentity_Encode (Some
     \<lparr>TerminalIdentifier = 1, MNE = ''0'', BSE = ''0'', NIDE = ''0'', SSRA = ''0'', LNGCE = ''0'',
      IMSIE = ''0'', IMEIE = ''1'', HDIDE = ''0'', HomeDispatcherIdentifier = 0,
      InternationalMobileEquipmentIdentity = ''12'', InternationalMobileSubscriberIdentity = [],
      LanguageCode = [], NetworkIdentifier = [], BufferSize = 0,
      MobileStationIntegratedServicesDigitalNetworkNumber = []\<rparr>) = Inr bs"
  by (rule TermIdentity_unchecked [THEN conjunct1]) (simp add: wf_TermIdentity_def opt_length_def)

text \<open>
  The confirmation, result code and authentication parameters subrecords are decoded exactly
  from their encodings.
\<close>

theorem fixed_subrecords_codec:
  "(SRRecordResponse_Decode bs = Inr rr \<longleftrightarrow> SRRecordResponse_Encode (Some rr) = Inr bs) \<and>
   (SRResultCode_Decode bs = Inr rc \<longleftrightarrow> SRResultCode_Encode (Some rc) = Inr bs) \<and>
   (SRAuthParams_Decode bs = Inr ap \<longleftrightarrow> Flags ap = 0 \<and> SRAuthParams_Encode (Some ap) = Inr bs)"
  using record_response.decode_iff result_code.decode_iff auth_params.decode_iff by blast

text \<open>
  EGTS_SR_COUNTERS_DATA: eight flags select the 24-bit counters that follow; decoder and encoder
  are inverse on the well-formed values and nothing else decodes.
\<close>

theorem Counters_codec:
  "SRCountersData_Decode bs = Inr s \<longleftrightarrow> wf_Counters s \<and> SRCountersData_Encode (Some s) = Inr bs"
  by (rule counters.decode_iff)

text \<open>
  EGTS_SR_AD_SENSORS_DATA: the two flag bytes select the digital and the 24-bit analog inputs;
  decoder and encoder are inverse on the well-formed values and nothing else decodes.
\<close>

theorem AdSensors_codec:
  "SRAdSensorsData_Decode bs = Inr s \<longleftrightarrow>
   wf_AdSensors s \<and> SRAdSensorsData_Encode (Some s) = Inr bs"
  by (rule ad_sensors.decode_iff)

text \<open>
  EGTS_SR_ACCEL_DATA: the announced number of structures, the time in whole seconds since 2010
  and the structures themselves are decoded exactly from their encoding.
\<close>

theorem Acceleration_codec:
  "SRAccelerationHeader_Decode bs = Inr s \<longleftrightarrow>
   wf_Acceleration s \<and> SRAccelerationHeader_Encode (Some s) = Inr bs"
  by (rule acceleration_header.decode_iff)

section \<open>Subrecords with reserved bits\<close>

text \<open>
  The terminal state, the extended position and the liquid level sensor survive being encoded
  and decoded exactly when they are well formed, and every decoded one is.
\<close>

theorem reserved_bits_codec:
  "(wf_StateData st \<longleftrightarrow> (\<exists>bs. SRStateData_Encode (Some st) = Inr bs \<and> SRStateData_Decode bs = Inr st)) \<and>
   (wf_ExPos xp \<longleftrightarrow>
      (\<exists>bs. SRExPosDataRecord_Encode (Some xp) = Inr bs \<and> SRExPosDataRecord_Decode bs = Inr xp)) \<and>
   (wf_LiquidLevel ll \<longleftrightarrow>
      (\<exists>bs. SRLiquidLevelSensor_Encode (Some ll) = Inr bs \<and> SRLiquidLevelSensor_Decode bs = Inr ll))"
  using state_data.wf_iff_survives ex_pos.wf_iff_survives liquid_level.wf_iff_survives by blast

section \<open>Positions\<close>

text \<open>
  A decoded position can always be encoded again, and what the next receiver decodes differs
  only in the coordinates, each by at most one unit of its 32-bit raw value and never upwards.
\<close>

theorem PosData_recode:
  assumes "SRPosData_Decode bs = Inr s"
  shows "\<exists>bs' s' u u' v v'. SRPosData_Encode (Some s) = Inr bs' \<and> SRPosData_Decode bs' = Inr s' \<and>
    s' = s\<lparr>Latitude := Latitude s', Longitude := Longitude s'\<rparr> \<and>
    Latitude s = signed_degrees (LAHS s) (degrees 90 u) \<and>
    Latitude s' = signed_degrees (LAHS s) (degrees 90 u') \<and> uint u - 1 \<le> uint u' \<and> uint u' \<le> uint u \<and>
    Longitude s = signed_degrees (LOHS s) (degrees 180 v) \<and>
    Longitude s' = signed_degrees (LOHS s) (degrees 180 v') \<and> uint v - 1 \<le> uint v' \<and> uint v' \<le> uint v"
proof -
  from PosData_encode_decode [OF PosData_decode_fields [OF assms]] obtain bs' where
    b: "SRPosData_Encode (Some s) = Inr bs'" "SRPosData_Decode bs' = Inr (recoded s)" by blast
  from PosData_decode_degrees [OF assms] obtain u v where
    uv: "Latitude s = signed_degrees (LAHS s) (degrees 90 u)"
      "Longitude s = signed_degrees (LOHS s) (degrees 180 v)" by blast
  have near: "uint u - 1 \<le> uint (raw_degrees 90 (degrees 90 u))"
    "uint (raw_degrees 90 (degrees 90 u)) \<le> uint u"
    "uint v - 1 \<le> uint (raw_degrees 180 (degrees 180 v))"
    "uint (raw_degrees 180 (degrees 180 v)) \<le> uint v"
    using raw_degrees_near [of 90 u] raw_degrees_near [of 180 v] by simp_all
  show ?thesis
    by (rule exI [of _ bs'], rule exI [of _ "recoded s"], rule exI [of _ u],
        rule exI [of _ "raw_degrees 90 (degrees 90 u)"], rule exI [of _ v],
        rule exI [of _ "raw_degrees 180 (degrees 180 v)"])
      (use b near in \<open>simp add: recoded_def uv\<close>)
qed

theorem PosData_recode_witness:
  "\<exists>s bs' s' u u' v v'. SRPosData_Decode
     [0, 0, 0, 0, 1, 2, 3, 4, 5, 6, 7, 8, 0x21, 100, 0, 90, 1, 2, 3, 0, 0] = Inr s \<and>
    SRPosData_Encode (Some s) = Inr bs' \<and> SRPosData_Decode bs' = Inr s' \<and>
    s' = s\<lparr>Latitude := Latitude s', Longitude := Longitude s'\<rparr> \<and>
    Latitude s = signed_degrees (LAHS s) (degrees 90 u) \<and>
    Latitude s' = signed_degrees (LAHS s) (degrees 90 u') \<and> uint u - 1 \<le> uint u' \<and> uint u' \<le> uint u \<and>
    Longitude s = signed_degrees (LOHS s) (degrees 180 v) \<and>
    Longitude s' = signed_degrees (LOHS s) (degrees 180 v') \<and> uint v - 1 \<le> uint v' \<and> uint v' \<le> uint v"
proof -
  obtain s where s: "SRPosData_Decode
      [0, 0, 0, 0, 1, 2, 3, 4, 5, 6, 7, 8, 0x21, 100, 0, 90, 1, 2, 3, 0, 0] = Inr s"
    by (simp add: SRPosData_Decode_def ReadUint32_def ReadUint16_def ReadFull_def when_flag_def
        go_simps Let_def)
  from PosData_recode [OF s] s show ?thesis by blast
qed

lemma drift_1: "f64 (90 * of_int (uint (186415 :: u32))) = 16777350"
  using fround_of_int [of 16777350 53] by simp

lemma drift_2: "f64 (16777350 / 0xFFFFFFFF) = 4503635598770184 / 1152921504606846976"
  by (subst fround_eqI [of "-8" _ _ 4503635598770184])
    (simp_all add: power_int_def power_divide abs_if)

lemma drift_3: "f64 (4503635598770184 / 1152921504606846976 / 90) = 6405170629362039 / 147573952589676412928"
  by (subst fround_eqI [of "-15" _ _ 6405170629362039])
    (simp_all add: power_int_def power_divide abs_if)

lemma drift_4: "f64 (6405170629362039 / 147573952589676412928 * 0xFFFFFFFF) = 6405170627870719 / 34359738368"
  by (subst fround_eqI [of "17" _ _ 6405170627870719])
    (simp_all add: power_int_def power_divide abs_if)

lemma raw_degrees_drift: "raw_degrees 90 (degrees 90 186415) = 186414"
proof -
  have "\<bar>degrees 90 186415\<bar> = 4503635598770184 / 1152921504606846976"
    unfolding degrees_def drift_1 drift_2 by simp
  then have "raw_degrees 90 (degrees 90 186415) = uint32_of_float (6405170627870719 / 34359738368)"
    unfolding raw_degrees_def by (simp only: drift_3 drift_4)
  also have "\<dots> = word_of_int \<lfloor>6405170627870719 / 34359738368 :: rat\<rfloor>"
    by (rule uint32_of_float_nonneg) simp_all
  also have "\<lfloor>6405170627870719 / 34359738368 :: rat\<rfloor> = 186414" by (simp add: floor_eq_iff)
  finally show ?thesis by simp
qed

text \<open>
  Truncation instead of rounding loses a unit: a position whose raw latitude is 186415 is
  encoded with 186414, so each relay can move a position towards zero.
\<close>

theorem PosData_drift:
  "\<exists>s bs s'. SRPosData_Decode
      [0, 0, 0, 0, 0x2F, 0xD8, 2, 0, 0, 0, 0, 0, 0, 0, 0, 0, 0, 0, 0, 0, 0] = Inr s \<and>
    Latitude s = degrees 90 186415 \<and>
    SRPosData_Encode (Some s) = Inr bs \<and> SRPosData_Decode bs = Inr s' \<and>
    Latitude s' = degrees 90 186414"
proof -
  obtain s where s: "SRPosData_Decode
      [0, 0, 0, 0, 0x2F, 0xD8, 2, 0, 0, 0, 0, 0, 0, 0, 0, 0, 0, 0, 0, 0, 0] = Inr s"
    and lat: "Latitude s = signed_degrees (LAHS s) (degrees 90 186415)" "LAHS s = ''0''"
    by (simp add: SRPosData_Decode_def ReadUint32_def ReadUint16_def ReadFull_def when_flag_def
        go_simps Let_def bits08_def bitc_def substr_def)
  from PosData_encode_decode [OF PosData_decode_fields [OF s]] obtain bs where
    "SRPosData_Encode (Some s) = Inr bs" "SRPosData_Decode bs = Inr (recoded s)" by blast
  with s lat show ?thesis
    by (intro exI [of _ s] exI [of _ bs] exI [of _ "recoded s"])
      (simp add: recoded_def raw_degrees_drift signed_degrees_def del: SRPosData_Encode.simps)
qed

section \<open>Record data and service records\<close>

text \<open>
  Any of the twelve subrecord values, under its own subrecord type, is read back by the decoder
  that the type selects.
\<close>

theorem SubData_codec:
  assumes "wf_SubData t d"
  shows "\<exists>bs dec. SubData_Encode d = Inr bs \<and> new_SubData t = Some dec \<and> dec bs = Inr d"
  using assms by (rule SubData_roundtrip)

theorem SubData_codec_witness:
  "\<exists>bs dec. SubData_Encode (SD_AuthInfo (Some \<lparr>UserName = ''device'', Password = ''secret'',
       ServerSequence = None\<rparr>)) = Inr bs \<and>
     new_SubData AuthInfo = Some dec \<and>
     dec bs = Inr (SD_AuthInfo (Some \<lparr>UserName = ''device'', Password = ''secret'',
       ServerSequence = None\<rparr>))"
  by (rule SubData_codec) (simp add: wf_AuthInfo_def contains_null_def)

text \<open>
  The record data decoder frames its input: an accepted block is the concatenation of type,
  length and exactly that many bytes of each subrecord, which the type's decoder accepted.
\<close>

theorem RecordsData_framing:
  assumes "RecordsData_Decode b = Inr rs"
  shows "\<exists>blocks. b = concat blocks \<and>
    list_all2 (\<lambda>block r. \<exists>rd bb dec sd. r = Some rd \<and>
      block = [SubrecordType rd] @ PutUint16 (SubrecordLength rd) @ bb \<and>
      length bb = unat (SubrecordLength rd) \<and> new_SubData (SubrecordType rd) = Some dec \<and>
      dec bb = Inr sd \<and> SubrecordData rd = Some sd) blocks rs"
  using assms
proof (induction b arbitrary: rs rule: RecordsData_Decode.induct)
  case (1 b)
  show ?case
  proof (cases "b = []")
    case True
    with "1.prems" show ?thesis by (intro exI [of _ "[]"]) simp
  next
    case False
    with "1.prems" obtain rd r rest where s: "RecordData_step b = Inr (rd, r)"
      "RecordsData_Decode r = Inr rest" "rs = Some rd # rest"
      by (subst (asm) RecordsData_Decode.simps) (auto split: prod.splits)
    from "1.IH" [OF False s(1) refl s(2)] obtain blocks where IH: "r = concat blocks"
      "list_all2 (\<lambda>block r. \<exists>rd bb dec sd. r = Some rd \<and>
        block = [SubrecordType rd] @ PutUint16 (SubrecordLength rd) @ bb \<and>
        length bb = unat (SubrecordLength rd) \<and> new_SubData (SubrecordType rd) = Some dec \<and>
        dec bb = Inr sd \<and> SubrecordData rd = Some sd) blocks rest" by blast
    from s(1) obtain bb dec sd where "b = [SubrecordType rd] @ PutUint16 (SubrecordLength rd) @ bb @ r"
      "length bb = unat (SubrecordLength rd)" "new_SubData (SubrecordType rd) = Some dec"
      "dec bb = Inr sd" "SubrecordData rd = Some sd"
      unfolding RecordData_step_Inr by blast
    with IH s(3) show ?thesis
      by (intro exI [of _ "([SubrecordType rd] @ PutUint16 (SubrecordLength rd) @ bb) # blocks"]) simp
  qed
qed

theorem RecordsData_framing_witness:
  "\<exists>rs blocks. RecordsData_Decode [9, 1, 0, 151, 0, 3, 0, 7, 0, 0] = Inr rs \<and>
    [9, 1, 0, 151, 0, 3, 0, 7, 0, 0] = concat blocks \<and>
    list_all2 (\<lambda>block r. \<exists>rd bb dec sd. r = Some rd \<and>
      block = [SubrecordType rd] @ PutUint16 (SubrecordLength rd) @ bb \<and>
      length bb = unat (SubrecordLength rd) \<and> new_SubData (SubrecordType rd) = Some dec \<and>
      dec bb = Inr sd \<and> SubrecordData rd = Some sd) blocks rs"
proof -
  have "records_bytes [result_record 151, Some (confirmation 7)] = [9, 1, 0, 151, 0, 3, 0, 7, 0, 0]"
    by (simp add: PutUint16_def)
  then have "RecordsData_Decode [9, 1, 0, 151, 0, 3, 0, 7, 0, 0] =
      Inr [result_record 151, Some (confirmation 7)]"
    using RecordsData_Decode_bytes [of "[result_record 151, Some (confirmation 7)]"]
    by (simp add: wf_result_record wf_confirmation)
  from RecordsData_framing [OF this] this show ?thesis by blast
qed

text \<open>
  The record data encoder succeeds exactly when every subrecord encodes to its announced length
  and the whole fits in 65535 bytes, and then writes the subrecords one after the other.
\<close>

theorem RecordsData_Encode_iff:
  "RecordsData_Encode (Some rs) = Inr bs \<longleftrightarrow>
   list_all codable rs \<and> bs = records_bytes rs \<and> length bs \<le> 65535"
  by (rule RecordsData_Encode_Inr)

text \<open>
  Well-formed service records are read back from their encoding, which is at most 65535 bytes.
\<close>

theorem ServicesFrameData_codec:
  assumes "wf_SFRD sfrd"
  shows "\<exists>bs. ServicesFrameData_Encode (Some sfrd) = Inr bs \<and>
    ServicesFrameData_Decode bs = Inr sfrd \<and> length bs \<le> 65535"
  using SFRD_roundtrip [OF assms] assms by (simp add: wf_SFRD_def)

theorem ServicesFrameData_codec_witness:
  "\<exists>bs. ServicesFrameData_Encode (Some [Some (result_service 151 7)]) = Inr bs \<and>
    ServicesFrameData_Decode bs = Inr [Some (result_service 151 7)] \<and> length bs \<le> 65535"
  by (rule ServicesFrameData_codec) (rule wf_result_services)

end
