(* ===== verification/Frames.thy ===== *)
theory Frames
  imports Packets
begin

text \<open>
  Frames on a connection, \<open>egts/packet/reader.go\<close>, and what the two checksums protect. A transport
  frame is specified on its raw bytes: where the header ends, how long the data is and which
  checksums have to hold. \<open>ReadFrame\<close> cuts exactly these frames off the stream, and every packet
  that \<open>ReadPacket\<close> accepts is one.
\<close>

section \<open>ReadFrame\<close>

text \<open>
  A connection as its reader sees it: the bytes that arrive and the error after the last of
  them. How the bytes are split over reads does not matter to \<open>io.ReadFull\<close>.
\<close>

type_synonym conn = "bytes \<times> goerr"

definition ReadFull_conn :: "nat \<Rightarrow> conn \<Rightarrow> (bytes \<times> conn) result" where
  "ReadFull_conn n c =
     (case c of (s, e) \<Rightarrow>
        if n \<le> length s then Inr (take n s, (drop n s, e))
        else if s \<noteq> [] \<and> e = EOF then Inl ErrUnexpectedEOF
        else Inl e)"

text \<open>The second and third read: \<open>io.EOF\<close> there is in the middle of a frame.\<close>

definition read_rest :: "nat \<Rightarrow> conn \<Rightarrow> (bytes \<times> conn) result" where
  "read_rest n c =
     (case ReadFull_conn n c of
        Inl e \<Rightarrow> Inl (if errors_Is e EOF then ErrUnexpectedEOF else e)
      | Inr x \<Rightarrow> Inr x)"

definition ReadFrame :: "conn \<Rightarrow> (bytes \<times> conn) result" where
  "ReadFrame c =
     bindR (ReadFull_conn 10 c) (\<lambda>(header, c).
     let headerLength = (if header ! 2 AND 0x20 \<noteq> 0 then 16 else 11) in
     if header ! 0 \<noteq> 1 \<or> unat (header ! 3) \<noteq> headerLength
     then Inl (Errorf ''Invalid EGTS header'')
     else
     bindR (read_rest (headerLength - 10) c) (\<lambda>(rest, c).
     let header = header @ rest in
     if word_of_int (Crc 8 (take (headerLength - 1) header)) \<noteq> header ! (headerLength - 1)
     then Inl (Errorf ''Invalid EGTS header checksum'')
     else
       (let bodyLength = unat (LittleEndian_Uint16 (take 2 (drop 5 header)));
            bodyLength = (if bodyLength > 0 then bodyLength + 2 else bodyLength) in
        if headerLength + bodyLength > 65535
        then Inl (Errorf ''EGTS packet exceeds 65535 bytes'')
        else
        bindR (read_rest bodyLength c) (\<lambda>(body, c).
        Inr (header @ body, c)))))"

section \<open>Transport frames\<close>

text \<open>The lengths a frame's first bytes announce.\<close>

definition hlen :: "bytes \<Rightarrow> nat" where
  "hlen b = (if bit (b ! 2) 5 then 16 else 11)"

definition dlen :: "bytes \<Rightarrow> nat" where
  "dlen b = unat (LittleEndian_Uint16 (take 2 (drop 5 b)))"

definition blen :: "bytes \<Rightarrow> nat" where
  "blen b = (if dlen b > 0 then dlen b + 2 else dlen b)"

definition flen :: "bytes \<Rightarrow> nat" where
  "flen b = hlen b + blen b"

definition frame_header :: "bytes \<Rightarrow> bool" where
  "frame_header b \<longleftrightarrow> hlen b \<le> length b \<and> b ! 0 = 1 \<and> unat (b ! 3) = hlen b \<and>
     b ! (hlen b - 1) = Checksum8 (take (hlen b - 1) b) table8"

definition transport_frame :: "bytes \<Rightarrow> bool" where
  "transport_frame b \<longleftrightarrow> frame_header b \<and> length b = flen b \<and> length b \<le> 65535"

text \<open>The data checksum, which \<open>ReadFrame\<close> leaves to \<open>ReadPacket\<close>.\<close>

definition data_sum_ok :: "bytes \<Rightarrow> bool" where
  "data_sum_ok b \<longleftrightarrow> dlen b = 0 \<or>
     LittleEndian_Uint16 (drop (hlen b + dlen b) b) =
       Checksum16 (take (dlen b) (drop (hlen b) b)) table16"

lemma hlen_cases: "hlen b = 11 \<or> hlen b = 16"
  by (simp add: hlen_def)

lemma hlen_bounds [simp]: "11 \<le> hlen b" "hlen b \<le> 16"
  by (simp_all add: hlen_def)

lemma and_0x20: "x AND 0x20 \<noteq> 0 \<longleftrightarrow> bit (x :: u8) 5"
  using and_push_bit_1 [of x 5] by simp

text \<open>The announced lengths are in the first seven bytes.\<close>

lemma hlen_take: "10 \<le> n \<Longrightarrow> hlen (take n b) = hlen b"
  by (simp add: hlen_def)

lemma dlen_take: "10 \<le> n \<Longrightarrow> dlen (take n b) = dlen b"
  by (simp add: dlen_def drop_take min_def)

lemma blen_take: "10 \<le> n \<Longrightarrow> blen (take n b) = blen b"
  by (simp add: blen_def dlen_take)

lemma hlen_append: "10 \<le> length b \<Longrightarrow> hlen (b @ r) = hlen b"
  by (simp add: hlen_def nth_append)

lemma dlen_append: "10 \<le> length b \<Longrightarrow> dlen (b @ r) = dlen b"
  by (simp add: dlen_def)

lemma blen_append: "10 \<le> length b \<Longrightarrow> blen (b @ r) = blen b"
  by (simp add: blen_def dlen_append)

lemma ReadFull_conn_Inr:
  "ReadFull_conn n c = Inr (xs, d) \<longleftrightarrow> fst c = xs @ fst d \<and> length xs = n \<and> snd d = snd c"
  by (cases c; cases d) (auto simp: ReadFull_conn_def split: if_splits)

lemma read_rest_Inr: "read_rest n c = Inr (xs, d) \<longleftrightarrow> ReadFull_conn n c = Inr (xs, d)"
  by (auto simp: read_rest_def split: sum.splits)

text \<open>\<open>ReadFrame\<close> in terms of the announced lengths.\<close>

lemma ReadFrame_eq:
  "ReadFrame c =
     bindR (ReadFull_conn 10 c) (\<lambda>(h, c).
     if h ! 0 \<noteq> 1 \<or> unat (h ! 3) \<noteq> hlen h then Inl (Errorf ''Invalid EGTS header'')
     else
     bindR (read_rest (hlen h - 10) c) (\<lambda>(rest, c).
     if Checksum8 (take (hlen h - 1) (h @ rest)) table8 \<noteq> (h @ rest) ! (hlen h - 1)
     then Inl (Errorf ''Invalid EGTS header checksum'')
     else if hlen h + blen (h @ rest) > 65535
     then Inl (Errorf ''EGTS packet exceeds 65535 bytes'')
     else
     bindR (read_rest (blen (h @ rest)) c) (\<lambda>(body, c).
     Inr ((h @ rest) @ body, c))))"
  unfolding ReadFrame_def and_0x20 hlen_def [symmetric] dlen_def [symmetric] Let_def
    blen_def [symmetric] Crc8_eq word_of_int_uint ..

lemma ReadFrame_steps:
  "ReadFrame c = Inr (b, d) \<longleftrightarrow>
   (\<exists>h c1 rest c2 body.
      ReadFull_conn 10 c = Inr (h, c1) \<and> h ! 0 = 1 \<and> unat (h ! 3) = hlen h \<and>
      ReadFull_conn (hlen h - 10) c1 = Inr (rest, c2) \<and>
      Checksum8 (take (hlen h - 1) (h @ rest)) table8 = (h @ rest) ! (hlen h - 1) \<and>
      hlen h + blen (h @ rest) \<le> 65535 \<and>
      ReadFull_conn (blen (h @ rest)) c2 = Inr (body, d) \<and>
      b = (h @ rest) @ body)"
  unfolding ReadFrame_eq bindR_eq_Inr split_paired_Ex prod.case guard_eq_Inr read_rest_Inr
  by (simp only: sum.inject prod.inject de_Morgan_disj not_less not_not)
    (cases d, safe; simp del: append_assoc; blast)

lemma ReadFrame_Inr:
  "ReadFrame c = Inr (b, d) \<longleftrightarrow> transport_frame b \<and> fst c = b @ fst d \<and> snd d = snd c"
proof
  assume "ReadFrame c = Inr (b, d)"
  then obtain h c1 rest c2 body where s: "ReadFull_conn 10 c = Inr (h, c1)" "h ! 0 = 1"
      "unat (h ! 3) = hlen h" "ReadFull_conn (hlen h - 10) c1 = Inr (rest, c2)"
      "Checksum8 (take (hlen h - 1) (h @ rest)) table8 = (h @ rest) ! (hlen h - 1)"
      "hlen h + blen (h @ rest) \<le> 65535" "ReadFull_conn (blen (h @ rest)) c2 = Inr (body, d)"
      "b = (h @ rest) @ body"
    unfolding ReadFrame_steps by blast
  have len: "length h = 10" "length (h @ rest) = hlen h"
    using s(1,4) hlen_cases [of h] by (auto simp: ReadFull_conn_Inr)
  have eqs: "hlen b = hlen h" "blen b = blen (h @ rest)"
    using len hlen_bounds [of h] hlen_append [of h "rest @ body"] blen_append [of "h @ rest" body]
    by (simp_all add: s(8))
  have "transport_frame b"
    unfolding transport_frame_def frame_header_def flen_def eqs
    using s len hlen_cases [of h] by (auto simp: ReadFull_conn_Inr nth_append)
  with s show "transport_frame b \<and> fst c = b @ fst d \<and> snd d = snd c"
    by (simp add: ReadFull_conn_Inr)
next
  assume *: "transport_frame b \<and> fst c = b @ fst d \<and> snd d = snd c"
  let ?h = "take 10 b" and ?n = "hlen b"
  have len: "?n \<le> length b" using * by (simp add: transport_frame_def frame_header_def)
  have split: "take 10 b @ take (?n - 10) (drop 10 b) = take ?n b"
    using hlen_cases [of b] by (auto simp flip: take_add)
  have rest: "drop 10 b = take (?n - 10) (drop 10 b) @ drop ?n b"
    using append_take_drop_id [of "?n - 10" "drop 10 b"] hlen_cases [of b] by auto
  have bl: "blen (take ?n b) = blen b"
    using hlen_bounds [of b] by (intro blen_take) linarith
  have nth: "take ?n b ! (?n - 1) = b ! (?n - 1)"
    by (rule nth_take) (use hlen_bounds [of b] in linarith)
  have ten: "min (hlen b + blen b) 10 = 10"
    using hlen_bounds(1) [of b] by linarith
  show "ReadFrame c = Inr (b, d)"
    unfolding ReadFrame_steps
    by (rule exI [of _ ?h], rule exI [of _ "(drop 10 b @ fst d, snd c)"],
        rule exI [of _ "take (?n - 10) (drop 10 b)"], rule exI [of _ "(drop ?n b @ fst d, snd c)"],
        rule exI [of _ "drop ?n b"])
      (use * len hlen_bounds [of b] nth rest [symmetric] in \<open>simp add: split ten hlen_take bl
        ReadFull_conn_Inr transport_frame_def frame_header_def flen_def\<close>)
qed

section \<open>The contract of a frame reader\<close>

text \<open>
  What the loops over a stream rely on, whatever their reader reports as an error: it takes exactly
  one frame off the front and leaves the rest. Then no frame is the beginning of another, so a
  stream is divided into frames in one way only.
\<close>

locale frame_reader =
  fixes read_frame :: "conn \<Rightarrow> 'e + (bytes \<times> conn)" and frame :: "bytes \<Rightarrow> bool"
  assumes exact: "read_frame c = Inr (b, d) \<longleftrightarrow> frame b \<and> fst c = b @ fst d \<and> snd d = snd c"
    and not_empty: "frame b \<Longrightarrow> b \<noteq> []"
begin

lemma front: "frame b \<Longrightarrow> read_frame (b @ r, e) = Inr (b, (r, e))"
  by (simp add: exact)

lemma shorter: "read_frame c = Inr (b, d) \<Longrightarrow> length (fst d) < length (fst c)"
  using not_empty by (auto simp: exact)

lemma self_delimiting:
  assumes "frame b" "frame b'" "b @ r = b' @ r'"
  shows "b = b' \<and> r = r'"
proof -
  have "read_frame (b @ r, EOF) = Inr (b', (r', EOF))" unfolding assms(3) by (rule front [OF assms(2)])
  with front [OF assms(1), of r EOF] show ?thesis by simp
qed

lemma unique_division:
  "list_all frame bs \<Longrightarrow> list_all frame bs' \<Longrightarrow> concat bs = concat bs' \<Longrightarrow> bs = bs'"
proof (induction bs arbitrary: bs')
  case Nil
  then show ?case using not_empty by (cases bs') auto
next
  case (Cons b bs)
  then obtain b' cs where bs': "bs' = b' # cs" using not_empty by (cases bs') auto
  with Cons.prems self_delimiting [of b b' "concat bs" "concat cs"] Cons.IH [of cs] show ?case by simp
qed

end

lemma transport_frame_not_empty: "transport_frame b \<Longrightarrow> b \<noteq> []"
proof -
  have "0 < hlen b" using hlen_bounds(1) [of b] by linarith
  then show "transport_frame b \<Longrightarrow> b \<noteq> []" by (auto simp: transport_frame_def flen_def)
qed

interpretation frames: frame_reader ReadFrame transport_frame
  by unfold_locales (auto simp: ReadFrame_Inr transport_frame_not_empty)

text \<open>A frame that is cut off is an unexpected end, never a shorter frame.\<close>

lemma read_rest_short: "length s < n \<Longrightarrow> read_rest n (s, EOF) = Inl ErrUnexpectedEOF"
  by (auto simp: read_rest_def ReadFull_conn_def)

lemma read_rest_enough: "n \<le> length s \<Longrightarrow> read_rest n (s, e) = Inr (take n s, (drop n s, e))"
  by (simp add: read_rest_def ReadFull_conn_def)

lemma frame_header_take:
  assumes "frame_header b"
  shows "Checksum8 (take (hlen b - 1) (take (hlen b) b)) table8 = take (hlen b) b ! (hlen b - 1)"
proof -
  have "take (hlen b) b ! (hlen b - 1) = b ! (hlen b - 1)"
    by (rule nth_take) (use hlen_bounds [of b] in linarith)
  with assms show ?thesis by (simp add: frame_header_def min_def)
qed

lemma ReadFrame_truncated:
  assumes fr: "transport_frame (x @ y)" and x: "x \<noteq> []" and y: "y \<noteq> []"
  shows "ReadFrame (x, EOF) = Inl ErrUnexpectedEOF"
proof -
  let ?b = "x @ y" and ?n = "hlen (x @ y)"
  have len: "length x < flen ?b" using fr y by (simp add: transport_frame_def flip: length_greater_0_conv)
  show ?thesis
  proof (cases "length x < 10")
    case True
    with x show ?thesis by (simp add: ReadFrame_def ReadFull_conn_def)
  next
    case False
    then have h: "take 10 x = take 10 ?b" by simp
    then have hl: "hlen (take 10 x) = ?n" by (simp only: h hlen_take)
    have ok: "take 10 x ! 0 = 1" "unat (take 10 x ! 3) = ?n"
      using fr False x by (simp_all add: transport_frame_def frame_header_def nth_append)
    have first: "ReadFull_conn 10 (x, EOF) = Inr (take 10 x, (drop 10 x, EOF))"
      using False by (simp add: ReadFull_conn_def)
    show ?thesis
    proof (cases "length x < ?n")
      case True
      then have "read_rest (?n - 10) (drop 10 x, EOF) = Inl ErrUnexpectedEOF"
        using False by (intro read_rest_short) simp
      then show ?thesis unfolding ReadFrame_eq first bindR_Inr prod.case hl ok by simp
    next
      case long: False
      have hd: "take 10 x @ take (?n - 10) (drop 10 x) = take ?n ?b"
        using long hlen_cases [of ?b] by (auto simp flip: take_add)
      have sum: "Checksum8 (take (?n - 1) (take ?n ?b)) table8 = take ?n ?b ! (?n - 1)"
        using fr by (intro frame_header_take) (simp add: transport_frame_def)
      have second: "read_rest (?n - 10) (drop 10 x, EOF) =
          Inr (take (?n - 10) (drop 10 x), (drop ?n x, EOF))"
        using long hlen_cases [of ?b] by (auto simp: read_rest_enough)
      have bl: "blen (take ?n ?b) = blen ?b"
        using hlen_bounds [of ?b] by (intro blen_take) linarith
      have third: "read_rest (blen ?b) (drop ?n x, EOF) = Inl ErrUnexpectedEOF"
        using len long by (intro read_rest_short) (simp add: flen_def)
      have "\<not> ?n + blen ?b > 65535"
        using fr by (simp add: transport_frame_def flen_def)
      then show ?thesis
        unfolding ReadFrame_eq first bindR_Inr prod.case hl ok second hd bl sum third by simp
    qed
  qed
qed

section \<open>Packets are frames\<close>

lemma frame_of_nth:
  "frame_of w data p ! 0 = ProtocolVersion p" "frame_of w data p ! 2 = w"
  "frame_of w data p ! 3 = HeaderLength p"
  "take 2 (drop 5 (frame_of w data p)) = PutUint16 (FrameDataLength p)"
  by (simp_all add: frame_of_def header_bytes_def numeral_eq_Suc PutUint16_def)

lemma sealed_frame:
  assumes "b = frame_of w data p" "packet_flags w p" "HeaderLength p = (if RTE p = ''1'' then 16 else 11)"
    and "ProtocolVersion p = 1" "HeaderCheckSum p = Checksum8 (header_bytes w p) table8"
    and "length data = unat (FrameDataLength p)" "length b \<le> 65535"
    and "ServicesFrameDataCheckSum p = (if FrameDataLength p > 0 then Checksum16 data table16 else 0)"
  shows "transport_frame b \<and> data_sum_ok b \<and> hlen b = unat (HeaderLength p) \<and>
    dlen b = unat (FrameDataLength p)"
proof -
  note s = assms
  have hl: "hlen b = unat (HeaderLength p)"
    using s(2,3) by (simp add: hlen_def s(1) frame_of_nth packet_flags_def)
  have dl: "dlen b = unat (FrameDataLength p)"
    by (simp add: dlen_def s(1) frame_of_nth)
  have len: "unat (HeaderLength p) = Suc (length (header_bytes w p))"
    using s(3) by (simp add: header_bytes_def flag_bytes_def)
  have hdr: "take (hlen b - 1) b = header_bytes w p" "b ! (hlen b - 1) = HeaderCheckSum p"
    unfolding hl len by (simp_all add: s(1) frame_of_def)
  have total: "length b = flen b"
    unfolding flen_def blen_def hl dl len using s(6)
    by (simp add: s(1) frame_of_def unat_gt_0)
  have dat: "take (dlen b) (drop (hlen b) b) = data"
    "drop (hlen b + dlen b) b = (if FrameDataLength p > 0 then PutUint16 (ServicesFrameDataCheckSum p) else [])"
    unfolding hl dl len using s(6) by (simp_all add: s(1) frame_of_def)
  have "transport_frame b"
    unfolding transport_frame_def frame_header_def hdr
    using total s(4,5,7) hl hlen_bounds [of b] by (simp add: flen_def) (simp add: s(1) frame_of_nth)
  moreover have "data_sum_ok b"
    unfolding data_sum_ok_def dat unfolding dl s(8) by (auto simp: unat_gt_0 [symmetric])
  ultimately show ?thesis using hl dl by simp
qed

lemma packet_spec_frame:
  assumes "packet_spec b p"
  shows "transport_frame b \<and> data_sum_ok b \<and> hlen b = unat (HeaderLength p) \<and>
    dlen b = unat (FrameDataLength p)"
proof -
  from assms obtain w data where s: "b = frame_of w data p" "packet_flags w p" "header_ok p"
      "ProtocolVersion p = 1" "HeaderCheckSum p = Checksum8 (header_bytes w p) table8"
      "length data = unat (FrameDataLength p)" "length b \<le> 65535"
      "ServicesFrameDataCheckSum p = (if FrameDataLength p > 0 then Checksum16 data table16 else 0)"
    unfolding packet_spec_def by blast
  from sealed_frame [OF s(1,2) _ s(4-8)] s(3) show ?thesis by (simp add: header_ok_def)
qed

text \<open>What the encoder writes is a transport frame too.\<close>

lemma Encode_transport_frame:
  assumes "Packet_Encode (Some p) = Inr b"
  shows "transport_frame b \<and> data_sum_ok b"
proof -
  from Packet_Encode_frame [OF assms] obtain w data where s: "wf_header p" "packet_flags w p"
    "length data = unat (FrameDataLength p)" "b = frame_of w data (sealed w data p)"
    "length b \<le> 65535" .
  have "HeaderLength (sealed w data p) = HeaderLength p" "RTE (sealed w data p) = RTE p"
    by (simp_all add: sealed_def)
  then show ?thesis
    using sealed_frame [OF s(4)] s(1-3,5) by (simp add: wf_header_def sealed_checksums)
qed

section \<open>What the checksums detect\<close>

lemma LittleEndian_Uint16_inj:
  "length xs = 2 \<Longrightarrow> length ys = 2 \<Longrightarrow> LittleEndian_Uint16 xs = LittleEndian_Uint16 ys \<Longrightarrow> xs = ys"
  by (metis PutUint16_LittleEndian)

lemma frame_hlen_update:
  assumes "frame_header b" "frame_header (b[i := x])"
  shows "hlen (b[i := x]) = hlen b"
proof (cases "i = 2")
  case True
  then have "b[i := x] ! 3 = b ! 3" by simp
  with assms show ?thesis by (simp add: frame_header_def)
qed (simp add: hlen_def)

lemma data_update_detected:
  assumes fr: "length b = flen b" and i: "hlen b \<le> i" "i < length b" and x: "x \<noteq> b ! i"
    and same: "hlen (b[i := x]) = hlen b" "dlen (b[i := x]) = dlen b"
    and ok: "data_sum_ok b"
  shows "\<not> data_sum_ok (b[i := x])"
proof -
  let ?h = "hlen b" and ?d = "dlen b"
  have pos: "?d > 0" and len: "length b = ?h + ?d + 2"
    using fr i by (auto simp: flen_def blen_def split: if_splits)
  show ?thesis
  proof (cases "i < ?h + ?d")
    case True
    have upd: "take ?d (drop ?h (b[i := x])) = (take ?d (drop ?h b))[i - ?h := x]"
      using i by (simp add: drop_update_swap take_update_swap)
    have "Checksum16 ((take ?d (drop ?h b))[i - ?h := x]) table16 \<noteq> Checksum16 (take ?d (drop ?h b)) table16"
      using True i x len by (intro Checksum16_changed) auto
    moreover have "drop (?h + ?d) (b[i := x]) = drop (?h + ?d) b"
      using True by (simp add: drop_update_cancel)
    ultimately show ?thesis
      using ok pos upd by (simp add: data_sum_ok_def same)
  next
    case False
    have "take ?d (drop ?h (b[i := x])) = take ?d (drop ?h b)"
      using False i by (simp add: drop_update_swap take_update_cancel)
    moreover have "drop (?h + ?d) (b[i := x]) \<noteq> drop (?h + ?d) b"
    proof
      assume "drop (?h + ?d) (b[i := x]) = drop (?h + ?d) b"
      then have "drop (?h + ?d) (b[i := x]) ! (i - (?h + ?d)) = drop (?h + ?d) b ! (i - (?h + ?d))"
        by simp
      then show False using False i x len by simp
    qed
    then have "LittleEndian_Uint16 (drop (?h + ?d) (b[i := x])) \<noteq> LittleEndian_Uint16 (drop (?h + ?d) b)"
      using len by (auto dest: LittleEndian_Uint16_inj [rotated 2])
    ultimately show ?thesis
      using ok pos by (auto simp: data_sum_ok_def same)
  qed
qed

lemma header_update_detected:
  assumes fr: "frame_header b" and i: "i < hlen b" and x: "x \<noteq> b ! i"
  shows "\<not> frame_header (b[i := x])"
proof
  assume fr': "frame_header (b[i := x])"
  let ?n = "hlen b - 1"
  have len: "hlen b \<le> length b" using fr by (simp add: frame_header_def)
  note same = frame_hlen_update [OF fr fr']
  have sums: "b ! ?n = Checksum8 (take ?n b) table8"
    "b[i := x] ! ?n = Checksum8 (take ?n (b[i := x])) table8"
    using fr fr' by (simp_all add: frame_header_def same)
  show False
  proof (cases "i < ?n")
    case True
    then have "Checksum8 ((take ?n b)[i := x]) table8 \<noteq> Checksum8 (take ?n b) table8"
      using len x by (intro Checksum8_changed) auto
    with True sums show False by (simp add: take_update_swap)
  next
    case False
    then have "i = ?n" using i by simp
    with sums len i x show False by (simp add: take_update_cancel)
  qed
qed

text \<open>One changed byte, anywhere in a frame.\<close>

lemma byte_change_detected:
  assumes "transport_frame b" "data_sum_ok b" "i < length b" "x \<noteq> b ! i"
  shows "\<not> (transport_frame (b[i := x]) \<and> data_sum_ok (b[i := x]))"
proof (cases "i < hlen b")
  case True
  with assms show ?thesis by (auto simp: transport_frame_def dest: header_update_detected)
next
  case False
  have "hlen (b[i := x]) = hlen b" "dlen (b[i := x]) = dlen b"
    using False hlen_bounds [of b] by (simp_all add: hlen_def dlen_def drop_update_swap take_update_cancel)
  moreover have "length b = flen b" using assms(1) by (simp add: transport_frame_def)
  ultimately show ?thesis
    using data_update_detected [of b i x] assms(2-4) False by simp
qed

text \<open>A burst within two adjacent bytes of the data.\<close>

lemma burst_detected:
  assumes fr: "transport_frame b" "data_sum_ok b" and i: "hlen b \<le> i" "i + 1 < hlen b + dlen b"
    and x: "x \<noteq> b ! i \<or> y \<noteq> b ! (i + 1)"
  shows "\<not> data_sum_ok (b[i := x, i + 1 := y])"
proof
  let ?h = "hlen b" and ?d = "dlen b" and ?b = "b[i := x, i + 1 := y]"
  assume ok: "data_sum_ok ?b"
  have pos: "?d > 0" using i by simp
  have len: "length b = ?h + ?d + 2"
    using fr(1) pos by (simp add: transport_frame_def flen_def blen_def)
  have same: "hlen ?b = ?h" "dlen ?b = ?d"
    using i hlen_bounds [of b] by (simp_all add: hlen_def dlen_def drop_update_swap take_update_cancel)
  define ds where "ds = take ?d (drop ?h b)"
  define k where "k = i - ?h"
  have k: "k + 1 < length ds" using i len by (simp add: k_def ds_def)
  have "take ?d (drop ?h ?b) = ds[k := x, k + 1 := y]"
    using i by (simp add: drop_update_swap take_update_swap ds_def k_def Suc_diff_le)
  moreover have "drop (?h + ?d) ?b = drop (?h + ?d) b"
    using i by (simp add: drop_update_cancel)
  ultimately have sum: "Checksum16 (ds[k := x, k + 1 := y]) table16 = Checksum16 ds table16"
    using ok fr(2) pos unfolding data_sum_ok_def same ds_def by auto
  have split: "ds = take k ds @ [ds ! k, ds ! (k + 1)] @ drop (k + 2) ds"
    using k by (simp add: Cons_nth_drop_Suc id_take_nth_drop)
  have "ds[k := x, k + 1 := y] = take k ds @ [x, y] @ drop (k + 2) ds"
    using k by (subst split) (simp add: list_update_append)
  then have "x = ds ! k \<and> y = ds ! (k + 1)"
    using sum split by (metis Checksum16_burst)
  then show False using x i len k by (auto simp: ds_def k_def)
qed

section \<open>The result code, from the bytes\<close>

text \<open>
  What \<open>ReadPacket\<close> reports of any input, without decoding: the first of its checks that the raw
  bytes fail.
\<close>

definition readable :: "bytes \<Rightarrow> bool" where
  "readable b \<longleftrightarrow> 4 \<le> length b \<and> unat (b ! 3) = hlen b \<and> hlen b \<le> length b"

definition undecodable :: "u8 \<Rightarrow> bytes \<Rightarrow> bool" where
  "undecodable pt data \<longleftrightarrow>
     (if pt = EGTS_PT_RESPONSE then \<exists>e. PTResponse_Decode data = Inl e
      else \<exists>e. ServicesFrameData_Decode data = Inl e)"

definition result_code_of :: "bytes \<Rightarrow> u8" where
  "result_code_of b =
     (if \<not> readable b then EGTS_PC_INC_HEADERFORM
      else if b ! (hlen b - 1) \<noteq> Checksum8 (take (hlen b - 1) b) table8 then EGTS_PC_HEADERCRC_ERROR
      else if b ! 0 \<noteq> 1 then EGTS_PC_UNS_PROTOCOL
      else if bit (b ! 2) 7 \<or> bit (b ! 2) 6 \<or> b ! 4 \<noteq> 0 then EGTS_PC_INC_HEADERFORM
      else if bit (b ! 2) 4 \<or> bit (b ! 2) 3 then EGTS_PC_DECRYPT_ERROR
      else if bit (b ! 2) 2 then EGTS_PC_UNS_TYPE
      else if length b \<noteq> flen b \<or> length b > 65535 then EGTS_PC_INVDATALEN
      else if \<not> data_sum_ok b then EGTS_PC_DATACRC_ERROR
      else if b ! 9 \<noteq> EGTS_PT_RESPONSE \<and> b ! 9 \<noteq> EGTS_PT_APPDATA then EGTS_PC_UNS_TYPE
      else if undecodable (b ! 9) (take (dlen b) (drop (hlen b) b)) then EGTS_PC_INC_DATAFORM
      else EGTS_PC_OK)"

lemma header_nth:
  "(header_bytes w p @ r) ! 0 = ProtocolVersion p" "(header_bytes w p @ r) ! 2 = w"
  "(header_bytes w p @ r) ! 3 = HeaderLength p" "(header_bytes w p @ r) ! 4 = HeaderEncoding p"
  "(header_bytes w p @ r) ! 9 = PacketType p"
  "take 2 (drop 5 (header_bytes w p @ r)) = PutUint16 (FrameDataLength p)"
  by (simp_all add: header_bytes_def numeral_eq_Suc PutUint16_def)

lemma read_header_lens:
  assumes "read_header b = Inr (h, r)"
  obtains w where "b = header_bytes w h @ [HeaderCheckSum h] @ r" "packet_flags w h"
    "b ! 2 = w" "hlen b = unat (HeaderLength h)" "dlen b = unat (FrameDataLength h)"
    "length (header_bytes w h) = hlen b - 1" "ErrorCode h = 0"
proof -
  from assms obtain w where w: "b = header_bytes w h @ [HeaderCheckSum h] @ r" "packet_flags w h"
    "header_ok h" "no_data h" unfolding read_header_Inr by blast
  have "b ! 2 = w" by (simp only: w(1) header_nth)
  moreover from this have hl: "hlen b = unat (HeaderLength h)"
    using w(2,3) by (simp add: hlen_def header_ok_def packet_flags_def)
  moreover have "dlen b = unat (FrameDataLength h)"
    unfolding dlen_def by (simp only: w(1) header_nth) simp
  moreover have "length (header_bytes w h) = hlen b - 1"
    by (simp add: hl length_header_bytes [OF w(3)])
  ultimately show thesis using w by (intro that) (simp_all add: no_data_def)
qed

lemma read_header_readable:
  assumes "read_header b = Inr (h, r)"
  shows "readable b"
proof -
  from read_header_lens [OF assms] obtain w where w: "b = header_bytes w h @ [HeaderCheckSum h] @ r"
    "hlen b = unat (HeaderLength h)" "length (header_bytes w h) = hlen b - 1" .
  have "b ! 3 = HeaderLength h" by (simp only: w(1) header_nth)
  moreover have "length b = length (header_bytes w h) + 1 + length r"
    by (subst w(1)) simp
  then have "length b = hlen b + length r"
    using w(3) hlen_bounds(1) [of b] by linarith
  ultimately show ?thesis
    using w(2) hlen_bounds(1) [of b] by (simp add: readable_def)
qed

lemma readable_read_header:
  assumes "readable b"
  obtains h r where "read_header b = Inr (h, r)"
proof -
  define w where "w = b ! 2"
  define h where "h = (set_flags w Packet0)
    \<lparr>ProtocolVersion := b ! 0, SecurityKeyID := b ! 1, HeaderLength := b ! 3, HeaderEncoding := b ! 4,
     FrameDataLength := LittleEndian_Uint16 [b ! 5, b ! 6], PacketID := LittleEndian_Uint16 [b ! 7, b ! 8],
     PacketType := b ! 9,
     PeerAddress := (if bit w 5 then LittleEndian_Uint16 [b ! 10, b ! 11] else 0),
     RecipientAddress := (if bit w 5 then LittleEndian_Uint16 [b ! 12, b ! 13] else 0),
     TimeToLive := (if bit w 5 then b ! 14 else 0), HeaderCheckSum := b ! (hlen b - 1)\<rparr>"
  have len: "hlen b \<le> length b" and hl: "unat (b ! 3) = hlen b" using assms by (simp_all add: readable_def)
  have pf: "packet_flags w h"
    by (simp add: h_def set_flags_eq packet_flags_def)
  have rt: "RTE h = ''1'' \<longleftrightarrow> bit w 5" by (simp add: h_def set_flags_eq)
  have "b ! 3 = word_of_nat (unat (b ! 3))" by simp
  also have "\<dots> = (if bit w 5 then 16 else 11)" by (simp only: hl) (simp add: hlen_def w_def)
  finally have "b ! 3 = (if bit w 5 then 16 else 11)" .
  then have ok: "header_ok h" using rt by (simp add: header_ok_def h_def)
  have nd: "no_data h" by (simp add: no_data_def h_def set_flags_eq Packet0_def)
  have put: "PutUint16 (LittleEndian_Uint16 [x, y]) = [x, y]" for x y
    by (rule PutUint16_LittleEndian) simp
  have upto: "[0..<11] = [0, 1, 2, 3, 4, 5, 6, 7, 8, 9, 10]"
    "[0..<16] = [0, 1, 2, 3, 4, 5, 6, 7, 8, 9, 10, 11, 12, 13, 14, 15]"
    by (simp_all add: upt_rec)
  have "take (hlen b) b = map ((!) b) [0..<hlen b]"
    using len by (intro nth_equalityI) simp_all
  also have "\<dots> = header_bytes w h @ [HeaderCheckSum h]"
    by (cases "bit w 5")
      (simp_all add: header_bytes_def flag_bytes_def put rt h_def hlen_def w_def [symmetric] upto
        set_flags_eq del: LittleEndian_Uint16.simps One_nat_def)
  finally have "b = (header_bytes w h @ [HeaderCheckSum h]) @ drop (hlen b) b"
    by (metis append_take_drop_id)
  then have "read_header b = Inr (h, drop (hlen b) b)"
    unfolding read_header_Inr using pf ok nd by (intro exI [of _ w]) simp
  then show thesis by (rule that)
qed

lemma code_of_failure:
  "read_header b = Inl (p, e) \<Longrightarrow> ErrorCode (fst (ReadPacket b)) = ErrorCode p"
  "read_header b = Inr (h, r) \<Longrightarrow> check_header b h = Inl (p, e) \<Longrightarrow>
   ErrorCode (fst (ReadPacket b)) = ErrorCode p"
  "read_header b = Inr (h, r) \<Longrightarrow> check_header b h = Inr u \<Longrightarrow> read_data h r = Inl (p, e) \<Longrightarrow>
   ErrorCode (fst (ReadPacket b)) = ErrorCode p"
  by (simp_all add: ReadPacket_def bindS_def)

lemma code_of_data:
  "read_header b = Inr (h, r) \<Longrightarrow> check_header b h = Inr u \<Longrightarrow> read_data h r = Inr (q, d) \<Longrightarrow>
   ErrorCode q = 0 \<Longrightarrow>
   ErrorCode (fst (ReadPacket b)) =
     (if PacketType q \<noteq> EGTS_PT_RESPONSE \<and> PacketType q \<noteq> EGTS_PT_APPDATA then EGTS_PC_UNS_TYPE
      else if undecodable (PacketType q) d then EGTS_PC_INC_DATAFORM else EGTS_PC_OK)"
  by (auto simp: ReadPacket_def bindS_def decode_data_def undecodable_def failS_def codes
      split: sum.splits)

lemma header_view:
  assumes "b = header_bytes w h @ [HeaderCheckSum h] @ r" "packet_flags w h"
    "hlen b = unat (HeaderLength h)" "dlen b = unat (FrameDataLength h)"
    "length (header_bytes w h) = hlen b - 1"
  shows "b ! 0 = ProtocolVersion h" "b ! 4 = HeaderEncoding h" "b ! 9 = PacketType h" "b ! 2 = w"
    "b ! (hlen b - 1) = HeaderCheckSum h" "take (hlen b - 1) b = header_bytes w h"
    "drop (hlen b) b = r"
    "PRF h = ''00'' \<longleftrightarrow> \<not> bit w 7 \<and> \<not> bit w 6" "ENA h = ''00'' \<longleftrightarrow> \<not> bit w 4 \<and> \<not> bit w 3"
    "CMP h = ''0'' \<longleftrightarrow> \<not> bit w 2"
    "flen b = unat (HeaderLength h) + unat (FrameDataLength h) + (if FrameDataLength h > 0 then 2 else 0)"
proof -
  have n: "hlen b = Suc (length (header_bytes w h))"
    using assms(5) hlen_bounds(1) [of b] by linarith
  show "b ! 0 = ProtocolVersion h" "b ! 4 = HeaderEncoding h" "b ! 9 = PacketType h" "b ! 2 = w"
    by (simp_all only: assms(1) header_nth)
  show "b ! (hlen b - 1) = HeaderCheckSum h" "take (hlen b - 1) b = header_bytes w h"
    "drop (hlen b) b = r"
    unfolding n by (simp_all add: assms(1))
  show "PRF h = ''00'' \<longleftrightarrow> \<not> bit w 7 \<and> \<not> bit w 6" "ENA h = ''00'' \<longleftrightarrow> \<not> bit w 4 \<and> \<not> bit w 3"
    "CMP h = ''0'' \<longleftrightarrow> \<not> bit w 2"
    using assms(2) by (simp_all add: packet_flags_def bitstr_def bitc_def)
  show "flen b = unat (HeaderLength h) + unat (FrameDataLength h) + (if FrameDataLength h > 0 then 2 else 0)"
    unfolding flen_def blen_def assms(3,4) by (simp add: unat_gt_0)
qed

lemma read_data_code:
  assumes "length r = unat (FrameDataLength h) + (if FrameDataLength h > 0 then 2 else 0)"
    and "ErrorCode h = 0"
  defines "d \<equiv> take (unat (FrameDataLength h)) r"
  shows "if FrameDataLength h > 0 \<and>
      LittleEndian_Uint16 (drop (unat (FrameDataLength h)) r) \<noteq> Checksum16 d table16
    then \<exists>p e. read_data h r = Inl (p, e) \<and> ErrorCode p = EGTS_PC_DATACRC_ERROR
    else \<exists>q. read_data h r = Inr (q, d) \<and> ErrorCode q = 0 \<and> PacketType q = PacketType h"
proof (cases "FrameDataLength h > 0")
  case True
  have "length (drop (unat (FrameDataLength h)) r) = 2" using assms(1) True by simp
  then have "ReadUint16 (drop (unat (FrameDataLength h)) r) =
      Inr (LittleEndian_Uint16 (drop (unat (FrameDataLength h)) r), [])"
    by (simp add: ReadUint16_def go_simps)
  moreover have "ReadFull (unat (FrameDataLength h)) r = Inr (d, drop (unat (FrameDataLength h)) r)"
    using assms(1) by (simp add: ReadFull_def d_def)
  ultimately show ?thesis
    using True assms(2) by (auto simp: read_data_def failS_def Let_def)
next
  case False
  then have "FrameDataLength h = 0" by (simp add: word_gt_0)
  with assms show ?thesis by (simp add: read_data_def ReadFull_def)
qed

lemma check_header_code:
  "check_header b h = Inl (p, e) \<Longrightarrow> ErrorCode p =
     (if HeaderCheckSum h \<noteq> Checksum8 (take (unat (HeaderLength h) - 1) b) table8
      then EGTS_PC_HEADERCRC_ERROR
      else if ProtocolVersion h \<noteq> 1 then EGTS_PC_UNS_PROTOCOL
      else if PRF h \<noteq> ''00'' \<or> HeaderEncoding h \<noteq> 0 then EGTS_PC_INC_HEADERFORM
      else if ENA h \<noteq> ''00'' then EGTS_PC_DECRYPT_ERROR
      else if CMP h \<noteq> ''0'' then EGTS_PC_UNS_TYPE
      else EGTS_PC_INVDATALEN)"
  by (auto simp: check_header_def failS_def Let_def split: if_splits)

text \<open>The header checks, in the raw bytes.\<close>

definition header_fails :: "bytes \<Rightarrow> bool" where
  "header_fails b \<longleftrightarrow> b ! (hlen b - 1) \<noteq> Checksum8 (take (hlen b - 1) b) table8 \<or> b ! 0 \<noteq> 1 \<or>
     bit (b ! 2) 7 \<or> bit (b ! 2) 6 \<or> b ! 4 \<noteq> 0 \<or> bit (b ! 2) 4 \<or> bit (b ! 2) 3 \<or> bit (b ! 2) 2 \<or>
     length b \<noteq> flen b \<or> length b > 65535"

text \<open>A header that is refused, and one that is accepted.\<close>

lemma refused_header_code:
  assumes "read_header b = Inr (h, r)" "check_header b h = Inl (p, e)" "readable b"
  shows "ErrorCode (fst (ReadPacket b)) = result_code_of b"
proof -
  from read_header_lens [OF assms(1)] obtain w where w: "b = header_bytes w h @ [HeaderCheckSum h] @ r"
    "packet_flags w h" "b ! 2 = w" "hlen b = unat (HeaderLength h)"
    "dlen b = unat (FrameDataLength h)" "length (header_bytes w h) = hlen b - 1" "ErrorCode h = 0" .
  note view = header_view [OF w(1,2,4-6)]
  have "header_fails b"
  proof (rule ccontr)
    assume "\<not> header_fails b"
    then have "check_header b h = Inr ()"
      unfolding header_fails_def check_header_Inr w(4) [symmetric] view(6,8-10)
      using view w(3,4) by auto
    with assms(2) show False by simp
  qed
  then have "ErrorCode p = result_code_of b"
    unfolding check_header_code [OF assms(2)] w(4) [symmetric] view(6) view(8-10) result_code_of_def
    using assms(3) view(1,2,4-6) by (auto simp: header_fails_def)
  with code_of_failure(2) [OF assms(1,2)] show ?thesis by simp
qed

lemma accepted_header_code:
  assumes "read_header b = Inr (h, r)" "check_header b h = Inr u" "readable b"
  shows "ErrorCode (fst (ReadPacket b)) = result_code_of b"
proof -
  from read_header_lens [OF assms(1)] obtain w where w: "b = header_bytes w h @ [HeaderCheckSum h] @ r"
    "packet_flags w h" "b ! 2 = w" "hlen b = unat (HeaderLength h)"
    "dlen b = unat (FrameDataLength h)" "length (header_bytes w h) = hlen b - 1" "ErrorCode h = 0" .
  note view = header_view [OF w(1,2,4-6)]
  let ?n = "unat (FrameDataLength h)"
  note c = assms(2) [unfolded check_header_Inr]
  have len: "length b = flen b" "length b \<le> 65535" using c by (simp_all add: view(11))
  have "length b = length (header_bytes w h) + 1 + length r" by (subst w(1)) simp
  then have "length r = ?n + (if FrameDataLength h > 0 then 2 else 0)"
    using len(1) w(6) view(11) w(4) hlen_bounds(1) [of b] by linarith
  note data = read_data_code [OF this w(7)]
  have "drop (hlen b + ?n) b = drop ?n r" by (metis view(7) drop_drop add.commute)
  then have sum: "data_sum_ok b \<longleftrightarrow> \<not> (FrameDataLength h > 0 \<and>
      LittleEndian_Uint16 (drop ?n r) \<noteq> Checksum16 (take ?n r) table16)"
    by (simp add: data_sum_ok_def w(5) view(7) unat_gt_0 [symmetric])
  have "\<not> header_fails b"
    using c [unfolded w(4) [symmetric] view(6) view(8-10)] len
    unfolding header_fails_def view by simp
  then have rest: "result_code_of b =
      (if \<not> data_sum_ok b then EGTS_PC_DATACRC_ERROR
       else if PacketType h \<noteq> EGTS_PT_RESPONSE \<and> PacketType h \<noteq> EGTS_PT_APPDATA then EGTS_PC_UNS_TYPE
       else if undecodable (PacketType h) (take ?n r) then EGTS_PC_INC_DATAFORM
       else EGTS_PC_OK)"
    using assms(3) by (simp add: result_code_of_def header_fails_def view(3,7) w(5))
  show ?thesis
  proof (cases "data_sum_ok b")
    case False
    with data sum obtain p e where pe: "read_data h r = Inl (p, e)" "ErrorCode p = EGTS_PC_DATACRC_ERROR"
      by auto
    with code_of_failure(3) [OF assms(1,2) pe(1)] False show ?thesis by (simp add: rest)
  next
    case ok: True
    with data sum obtain q where q: "read_data h r = Inr (q, take ?n r)" "ErrorCode q = 0" "PacketType q = PacketType h" by auto
    show ?thesis unfolding code_of_data [OF assms(1,2) q(1,2)] rest q(3) using ok by simp
  qed
qed

lemma ReadPacket_code: "ErrorCode (fst (ReadPacket b)) = result_code_of b"
proof (cases "readable b")
  case False
  then obtain p e where "read_header b = Inl (p, e)"
    using read_header_readable by (cases "read_header b") auto
  with False show ?thesis
    using fails_with_read_header [of b] by (auto simp: code_of_failure fails_with_def result_code_of_def)
next
  case True
  then obtain h r where h: "read_header b = Inr (h, r)" by (rule readable_read_header)
  show ?thesis
  proof (cases "check_header b h")
    case (Inl pe)
    then show ?thesis by (cases pe) (use refused_header_code [OF h _ True] in simp)
  qed (rule accepted_header_code [OF h _ True])
qed

end
