(* ===== verification/Packet_Properties.thy ===== *)
theory Packet_Properties
  imports Answers Frames
begin

text \<open>
  The properties of the transport layer: packets, frames on a stream, error detection and the
  answers, with one concrete frame the witnesses share.
\<close>

section \<open>A concrete frame\<close>

text \<open>The result code 0 in packet 3, record 7, as it goes over the wire.\<close>

definition sample_frame :: bytes where
  "sample_frame = [1, 0, 0, 11, 0, 11, 0, 3, 0, 1, 149, 4, 0, 7, 0, 64, 1, 1, 9, 1, 0, 0, 185, 194]"

lemma sample_data:
  "encode_data (PrepareSRResultCode 0 7 3) = Inr [4, 0, 7, 0, 64, 1, 1, 9, 1, 0, 0]"
proof -
  have f: "SDR_flags 0x40 (result_service 0 7)"
    by (simp add: SDR_flags_def result_service_def bitstr_def bitc_def)
  note fb = SDR_flag_byte_eq [OF f]
  have "SFRD_bytes [Some (result_service 0 7)] = [4, 0, 7, 0, 64, 1, 1, 9, 1, 0, 0]"
    by (simp add: SDR_bytes_def SDR_header_def fb)
      (simp add: result_service_def flag_bytes_def PutUint16_def codes)
  then show ?thesis
    using SFRD_roundtrip(1) [OF wf_result_services, of 0 7]
    by (simp add: PrepareSRResultCode_eq encode_data_def codes del: ServicesFrameData_Encode.simps)
qed

lemma sample_crc8: "Checksum8 [1, 0, 0, 11, 0, 11, 0, 3, 0, 1] table8 = 149"
  by (simp add: crc_eval)

lemma sample_crc16: "Checksum16 [4, 0, 7, 0, 64, 1, 1, 9, 1, 0, 0] table16 = 0xC2B9"
  by (simp add: crc_eval)

lemma sample_encode: "Packet_Encode (Some (PrepareSRResultCode 0 7 3)) = Inr sample_frame"
proof -
  have h: "header_bytes 0 (PrepareSRResultCode 0 7 3) = [1, 0, 0, 11, 0, 11, 0, 3, 0, 1]"
    by (simp add: PrepareSRResultCode_eq header_bytes_def flag_bytes_def PutUint16_def Packet0_def
        codes)
  show ?thesis
    unfolding Packet_Encode.simps sample_data
    by (simp add: PrepareSRResultCode_eq Packet0_def parse_flags_zero)
      (simp add: h [unfolded PrepareSRResultCode_eq Packet0_def, simplified] sample_crc8 sample_crc16
        sample_frame_def PutUint16_def Let_def)
qed

lemma sample_read: "\<exists>p. ReadPacket sample_frame = (p, None)"
proof -
  obtain w data where e: "Packet_Encode (Some (PrepareSRResultCode 0 7 3)) =
      Inr (frame_of w data (sealed w data (PrepareSRResultCode 0 7 3)))"
    and r: "ReadPacket (frame_of w data (sealed w data (PrepareSRResultCode 0 7 3))) =
      (sealed w data (PrepareSRResultCode 0 7 3), None)"
    using Packet_roundtrip_sealed [OF PrepareSRResultCode_wf [of 0 7 3]] by blast
  from e have "sample_frame = frame_of w data (sealed w data (PrepareSRResultCode 0 7 3))"
    by (simp only: sample_encode sum.inject)
  with r show ?thesis by metis
qed

lemma sample_transport: "transport_frame sample_frame" "data_sum_ok sample_frame"
  using sample_read packet_spec_frame by (auto simp: ReadPacket_spec)

section \<open>Packets\<close>

text \<open>
  C1. Every well-formed packet, with any frame data, encodes to a frame that \<open>ReadPacket\<close> accepts,
  and the packet it returns differs from the original in the two computed checksums only.
\<close>

theorem Packet_roundtrip:
  assumes "wf_Packet p"
  shows "\<exists>b q. Packet_Encode (Some p) = Inr b \<and> ReadPacket b = (q, None) \<and>
    p = q\<lparr>HeaderCheckSum := HeaderCheckSum p,
      ServicesFrameDataCheckSum := ServicesFrameDataCheckSum p\<rparr>"
proof -
  obtain w data where e: "Packet_Encode (Some p) = Inr (frame_of w data (sealed w data p))"
    and r: "ReadPacket (frame_of w data (sealed w data p)) = (sealed w data p, None)"
    using Packet_roundtrip_sealed [OF assms] by blast
  have "p = (sealed w data p)\<lparr>HeaderCheckSum := HeaderCheckSum p,
      ServicesFrameDataCheckSum := ServicesFrameDataCheckSum p\<rparr>"
    by (simp add: sealed_def)
  with e r show ?thesis by blast
qed

theorem Packet_roundtrip_witness:
  "\<exists>b q. Packet_Encode (Some (PrepareSRResultCode 151 7 3)) = Inr b \<and> ReadPacket b = (q, None) \<and>
    PrepareSRResultCode 151 7 3 = q\<lparr>HeaderCheckSum := HeaderCheckSum (PrepareSRResultCode 151 7 3),
      ServicesFrameDataCheckSum := ServicesFrameDataCheckSum (PrepareSRResultCode 151 7 3)\<rparr>"
  by (rule Packet_roundtrip [OF PrepareSRResultCode_wf])

text \<open>
  C2. \<open>ReadPacket\<close> returns a packet without an error exactly when the input is the frame of that
  packet: the header fields in their places, version 1 without encryption or compression, the
  header and data checksums, the lengths, and frame data that its type's decoder accepts.
\<close>

theorem ReadPacket_accepts: "ReadPacket b = (p, None) \<longleftrightarrow> packet_spec b p"
  by (rule ReadPacket_spec)

text \<open>
  On any input the packet that \<open>ReadPacket\<close> returns carries the result code of the first check
  the raw bytes fail: header form, header checksum, version, prefix, encryption, compression,
  length, data checksum, packet type, data form; and 0 when there is none.
\<close>

theorem ReadPacket_result_code: "ErrorCode (fst (ReadPacket b)) = result_code_of b"
  by (rule ReadPacket_code)

text \<open>
  Every error of \<open>ReadPacket\<close> comes with one of eight result codes, all different from
  \<open>EGTS_PC_OK\<close>, so an answer never confirms a refused packet.
\<close>

theorem ReadPacket_errors:
  assumes "ReadPacket b = (p, Some e)"
  shows "ErrorCode p \<in> {128, 129, 131, 132, 133, 137, 138, 139}"
  using ReadPacket_error [OF assms] by (auto simp: read_errors_def codes)

theorem ReadPacket_errors_witness:
  "\<exists>p e. ReadPacket [2] = (p, Some e) \<and> ErrorCode p \<in> {128, 129, 131, 132, 133, 137, 138, 139}"
proof -
  obtain p e where "ReadPacket [2] = (p, Some e)"
    by (simp add: ReadPacket_def read_header_def header_field_def bindS_def failS_def)
  with ReadPacket_errors [OF this] show ?thesis by blast
qed

text \<open>
  Whatever the encoder writes is a valid transport frame with a correct data checksum of at most
  65535 bytes, so it never sends a packet that a receiver refuses for its form or checksums.
\<close>

theorem Packet_Encode_sound:
  assumes "Packet_Encode (Some p) = Inr b"
  shows "transport_frame b \<and> data_sum_ok b \<and> length b \<le> 65535"
  using Encode_transport_frame [OF assms] by (simp add: transport_frame_def)

theorem Packet_Encode_sound_witness:
  "\<exists>b. Packet_Encode (Some (PrepareSRResultCode 0 7 3)) = Inr b \<and>
    transport_frame b \<and> data_sum_ok b \<and> length b \<le> 65535"
  using sample_encode Packet_Encode_sound [OF sample_encode] by blast

section \<open>Error detection\<close>

text \<open>
  C25. Changing any one byte of an accepted packet, in the header, the data or a checksum, makes
  \<open>ReadPacket\<close> refuse it.
\<close>

theorem corrupted_byte_refused:
  assumes "ReadPacket b = (p, None)" "i < length b" "x \<noteq> b ! i"
  shows "snd (ReadPacket (b[i := x])) \<noteq> None"
proof
  assume "snd (ReadPacket (b[i := x])) = None"
  then obtain q where "ReadPacket (b[i := x]) = (q, None)" by (metis prod.collapse)
  with assms show False
    using byte_change_detected packet_spec_frame unfolding ReadPacket_spec by metis
qed

theorem corrupted_byte_refused_witness:
  "(\<exists>p. ReadPacket sample_frame = (p, None)) \<and> 16 < length sample_frame \<and> 2 \<noteq> sample_frame ! 16 \<and>
   snd (ReadPacket (sample_frame[16 := 2])) \<noteq> None"
proof -
  obtain p where p: "ReadPacket sample_frame = (p, None)" using sample_read by blast
  have i: "16 < length sample_frame" "2 \<noteq> sample_frame ! 16" by (simp_all add: sample_frame_def)
  from p i corrupted_byte_refused [OF p i] show ?thesis by blast
qed

text \<open>
  Changing any two adjacent bytes of the data of an accepted packet makes \<open>ReadPacket\<close> refuse
  it.
\<close>

theorem corrupted_burst_refused:
  assumes "ReadPacket b = (p, None)" "hlen b \<le> i" "i + 1 < hlen b + dlen b"
    and "x \<noteq> b ! i \<or> y \<noteq> b ! (i + 1)"
  shows "snd (ReadPacket (b[i := x, i + 1 := y])) \<noteq> None"
proof
  assume "snd (ReadPacket (b[i := x, i + 1 := y])) = None"
  then obtain q where "ReadPacket (b[i := x, i + 1 := y]) = (q, None)" by (metis prod.collapse)
  with assms show False
    using burst_detected packet_spec_frame unfolding ReadPacket_spec by metis
qed

theorem corrupted_burst_refused_witness:
  "hlen sample_frame \<le> 12 \<and> 12 + 1 < hlen sample_frame + dlen sample_frame \<and>
   snd (ReadPacket (sample_frame[12 := 1, 12 + 1 := 9])) \<noteq> None"
proof -
  obtain p where p: "ReadPacket sample_frame = (p, None)" using sample_read by blast
  have i: "hlen sample_frame \<le> 12" "12 + 1 < hlen sample_frame + dlen sample_frame"
    "1 \<noteq> sample_frame ! 12 \<or> 9 \<noteq> sample_frame ! (12 + 1)"
    by (simp_all add: sample_frame_def hlen_def dlen_def)
  from p i corrupted_burst_refused [OF p i] show ?thesis by blast
qed

section \<open>Frames on a stream\<close>

text \<open>
  C26. \<open>ReadFrame\<close> returns bytes exactly when they are a transport frame at the front of the
  stream, and leaves the stream right behind it.
\<close>

theorem ReadFrame_exact:
  "ReadFrame (s, e) = Inr (b, c) \<longleftrightarrow> transport_frame b \<and> (\<exists>r. s = b @ r \<and> c = (r, e))"
  by (cases c) (auto simp: ReadFrame_Inr)

text \<open>
  A packet that \<open>ReadPacket\<close> accepts passes through a stream unchanged, whatever follows it.
\<close>

theorem accepted_packet_framed:
  assumes "ReadPacket b = (p, None)"
  shows "ReadFrame (b @ r, e) = Inr (b, (r, e))"
  using packet_spec_frame [of b p] assms by (simp add: ReadPacket_spec ReadFrame_Inr)

theorem accepted_packet_framed_witness:
  "ReadFrame (sample_frame @ [1, 2, 3], EOF) = Inr (sample_frame, ([1, 2, 3], EOF))"
proof -
  obtain p where p: "ReadPacket sample_frame = (p, None)" using sample_read by blast
  show ?thesis by (rule accepted_packet_framed [OF p])
qed

text \<open>
  When the connection ends inside a frame, \<open>ReadFrame\<close> reports an unexpected end and returns
  nothing of the frame.
\<close>

theorem truncated_frame_refused:
  assumes "transport_frame (x @ y)" "x \<noteq> []" "y \<noteq> []"
  shows "ReadFrame (x, EOF) = Inl ErrUnexpectedEOF"
  using assms by (rule ReadFrame_truncated)

theorem truncated_frame_refused_witness:
  "ReadFrame (take 17 sample_frame, EOF) = Inl ErrUnexpectedEOF"
  by (rule truncated_frame_refused [of _ "drop 17 sample_frame"])
    (simp_all only: append_take_drop_id sample_transport, simp_all add: sample_frame_def)

end
