(* ===== verification/Answer_Properties.thy ===== *)
theory Answer_Properties
  imports Answers Frames
begin

text \<open>
  The properties of the answers: what a platform sends back for a packet it received, what the
  other side reads from it, and where the answer does not fit a packet.
\<close>

section \<open>Concrete packets\<close>

definition sample_record :: "u8 \<Rightarrow> u8 \<Rightarrow> ServiceDataRecord" where
  "sample_record s r = (result_service 0 1)\<lparr>SourceServiceType := s, RecipientServiceType := r\<rparr>"

definition sample_packet :: "ServicesFrameData \<Rightarrow> Packet" where
  "sample_packet rs = Packet0\<lparr>PacketType := EGTS_PT_APPDATA, PacketID := 9,
     PacketServicesFrameData := Some (FD_SFRD (Some rs))\<rparr>"

lemma sample_record_data [simp]: "carries_data (sample_record s r)" "pair_of (sample_record s r) = (s, r)"
  by (simp_all add: carries_data_def sample_record_def result_service_def result_record_def pair_of_def
      codes)

lemma data_records_samples:
  "data_records (map (\<lambda>k. Some (sample_record (f k) (g k))) ks) = map (\<lambda>k. sample_record (f k) (g k)) ks"
  by (simp add: data_records_def comp_def filter_map)

lemma nil_free_samples: "nil_free (map (\<lambda>k. Some (sample_record (f k) (g k))) ks)"
  by (simp add: nil_free_def list_all_iff sample_record_def result_service_def result_record_def)

lemma bad_crc8: "Checksum8 [1, 0, 0, 11, 0, 0, 0, 3, 0, 1] table8 \<noteq> 0"
  by (simp add: crc_eval)

section \<open>Reading an answer\<close>

text \<open>The other side reads the response that was prepared, whatever its content.\<close>

lemma answer_read:
  assumes "PacketType p = EGTS_PT_APPDATA"
    and "\<And>incoming. ErrorCode p = EGTS_PC_OK \<Longrightarrow>
      PacketServicesFrameData p = Some (FD_SFRD (Some incoming)) \<Longrightarrow>
      length (data_records incoming) \<le> 5039"
  obtains b q where "Packet_Encode (Some (PrepareAnswer (Some p) n pid)) = Inr b"
    "ReadPacket b = (q, None)" "PacketType q = EGTS_PT_RESPONSE" "PacketID q = pid"
    "PacketServicesFrameData q = Some (FD_Response (Some (answer_response p n)))"
proof -
  note eq = PrepareAnswer_eq [OF assms(1), of n pid]
  obtain w data where "Packet_Encode (Some (PrepareAnswer (Some p) n pid)) =
      Inr (frame_of w data (sealed w data (PrepareAnswer (Some p) n pid)))"
    "ReadPacket (frame_of w data (sealed w data (PrepareAnswer (Some p) n pid))) =
      (sealed w data (PrepareAnswer (Some p) n pid), None)"
    using Packet_roundtrip_sealed [OF PrepareAnswer_wf [OF assms]] by blast
  then show thesis
    by (rule that) (simp_all add: eq response_packet_def sealed_def Packet0_def)
qed

lemma result_code_read:
  obtains b q where "Packet_Encode (Some (PrepareSRResultCode c n pid)) = Inr b"
    "ReadPacket b = (q, None)" "PacketType q = EGTS_PT_APPDATA" "PacketID q = pid"
    "PacketServicesFrameData q = Some (FD_SFRD (Some [Some (result_service c n)]))" "length b = 24"
proof -
  have len: "length b = 24" if "ReadPacket b = (sealed w data (PrepareSRResultCode c n pid), None)" for b w data
    using that unfolding ReadPacket_spec packet_spec_def
    by (auto simp: frame_of_def length_header_bytes)
      (auto simp: PrepareSRResultCode_eq sealed_def Packet0_def header_bytes_def)
  obtain w data where e: "Packet_Encode (Some (PrepareSRResultCode c n pid)) =
      Inr (frame_of w data (sealed w data (PrepareSRResultCode c n pid)))"
    and r: "ReadPacket (frame_of w data (sealed w data (PrepareSRResultCode c n pid))) =
      (sealed w data (PrepareSRResultCode c n pid), None)"
    using Packet_roundtrip_sealed [OF PrepareSRResultCode_wf] by blast
  show thesis
    by (rule that [OF e r _ _ _ len [OF r]]) (simp_all add: PrepareSRResultCode_eq sealed_def Packet0_def)
qed

text \<open>What a packet that decoded holds, when its type is application data.\<close>

lemma accepted_data:
  assumes "ReadPacket b = (p, None)" "PacketType p = EGTS_PT_APPDATA"
  obtains incoming where "PacketServicesFrameData p = Some (FD_SFRD (Some incoming))" "nil_free incoming"
    "ErrorCode p = EGTS_PC_OK"
proof -
  from assms obtain data where "decodes_to (PacketType p) data (PacketServicesFrameData p)" "ErrorCode p = 0"
    by (auto simp: ReadPacket_spec packet_spec_def)
  with assms(2) show thesis
    by (auto simp: decodes_to_def codes dest: ServicesFrameData_Decode_nil_free intro: that)
qed

section \<open>Answers\<close>



text \<open>
  C4. A packet that \<open>ReadPacket\<close> refuses, with its type already read as application data, is answered
  with the code of the check it failed and confirms no record.
\<close>

theorem refused_packet_answered:
  assumes "ReadPacket b = (p, Some e)" "PacketType p = EGTS_PT_APPDATA"
  shows "\<exists>a q. Packet_Encode (Some (PrepareAnswer (Some p) n pid)) = Inr a \<and>
    ReadPacket a = (q, None) \<and> PacketID q = pid \<and>
    PacketServicesFrameData q = Some (FD_Response (Some
      \<lparr>ResponsePacketID = PacketID p, ProcessingResult = result_code_of b, SDR = None\<rparr>)) \<and>
    result_code_of b \<noteq> EGTS_PC_OK"
proof -
  have code: "ErrorCode p = result_code_of b" "ErrorCode p \<noteq> EGTS_PC_OK"
    using ReadPacket_code [of b] ReadPacket_error [OF assms(1)] assms(1)
    by (auto simp: read_errors_def codes)
  from code(2) have small: "length (data_records incoming) \<le> 5039" if "ErrorCode p = EGTS_PC_OK"
    for incoming using that by simp
  obtain a q where aq: "Packet_Encode (Some (PrepareAnswer (Some p) n pid)) = Inr a"
    "ReadPacket a = (q, None)" "PacketType q = EGTS_PT_RESPONSE" "PacketID q = pid"
    "PacketServicesFrameData q = Some (FD_Response (Some (answer_response p n)))"
    by (rule answer_read [OF assms(2) small])
  have "answer_response p n =
      \<lparr>ResponsePacketID = PacketID p, ProcessingResult = result_code_of b, SDR = None\<rparr>"
    using code by (simp add: answer_response_def answer_data_def)
  with aq code show ?thesis by (metis (no_types, lifting))
qed

theorem refused_packet_answered_witness:
  "\<exists>p e a q. ReadPacket [1, 0, 0, 11, 0, 0, 0, 3, 0, 1, 0] = (p, Some e) \<and> PacketType p = EGTS_PT_APPDATA \<and>
    Packet_Encode (Some (PrepareAnswer (Some p) 4 5)) = Inr a \<and> ReadPacket a = (q, None) \<and>
    PacketServicesFrameData q = Some (FD_Response (Some
      \<lparr>ResponsePacketID = PacketID p,
       ProcessingResult = result_code_of [1, 0, 0, 11, 0, 0, 0, 3, 0, 1, 0], SDR = None\<rparr>))"
proof -
  obtain p e where p: "ReadPacket [1, 0, 0, 11, 0, 0, 0, 3, 0, 1, 0] = (p, Some e)" "PacketType p = EGTS_PT_APPDATA"
    by (simp add: ReadPacket_def read_header_def header_field_def bindS_def failS_def check_header_def
        set_flags_def bits08_def bitc_def substr_def Let_def codes bad_crc8 ReadUint16_def ReadFull_def
        bindR_def)
  then show ?thesis
    using refused_packet_answered [OF p, of 4 5] by metis
qed

text \<open>
  The grouping loop, which searches the services made so far for the swapped pair and updates
  the one it finds, yields one service record per pair of source and recipient service, in the
  order the pairs first occur, numbered consecutively, with the confirmations in the order of the
  records; a nil record or subrecord stops it.
\<close>

theorem answer_grouping:
  "answer_loop ([], n) rs = (if nil_free rs then Some (answer_services n (data_records rs)) else None)"
  by (rule answer_loop_spec)

text \<open>
  A response, or a packet of another type, is never answered: what is prepared for it does not
  encode.
\<close>

theorem response_not_answered:
  assumes "PacketType p \<noteq> EGTS_PT_APPDATA"
  shows "\<exists>e. Packet_Encode (Some (PrepareAnswer (Some p) n pid)) = Inl e"
  using assms by (simp add: PrepareAnswer_def Packet0_def)

theorem response_not_answered_witness:
  "\<exists>e. Packet_Encode (Some (PrepareAnswer (Some (response_packet 1
     \<lparr>ResponsePacketID = 2, ProcessingResult = 0, SDR = None\<rparr>)) 4 5)) = Inl e"
  by (rule response_not_answered) (simp add: response_packet_def codes)

text \<open>
  The authorization result the gateway sends is a packet of which the terminal reads exactly
  the code, in one record with the given number.
\<close>

theorem result_code_delivered:
  "\<exists>b q s. Packet_Encode (Some (PrepareSRResultCode c n pid)) = Inr b \<and> length b = 24 \<and>
    ReadPacket b = (q, None) \<and> PacketType q = EGTS_PT_APPDATA \<and> PacketID q = pid \<and>
    PacketServicesFrameData q = Some (FD_SFRD (Some [Some s])) \<and> RecordNumber s = n \<and>
    SourceServiceType s = SERVICE_AUTH \<and> RecipientServiceType s = SERVICE_AUTH \<and>
    RecordsData s = [Some \<lparr>SubrecordType = ResultCode, SubrecordLength = 1,
      SubrecordData = Some (SD_ResultCode (Some \<lparr>RCD = c\<rparr>))\<rparr>]"
proof -
  obtain b q where bq: "Packet_Encode (Some (PrepareSRResultCode c n pid)) = Inr b"
    "ReadPacket b = (q, None)" "PacketType q = EGTS_PT_APPDATA" "PacketID q = pid"
    "PacketServicesFrameData q = Some (FD_SFRD (Some [Some (result_service c n)]))" "length b = 24"
    by (rule result_code_read [of c n pid])
  with bq show ?thesis
    by (intro exI [of _ b] exI [of _ q] exI [of _ "result_service c n"])
      (simp add: result_service_def result_record_def del: Packet_Encode.simps)
qed

section \<open>Answers that are too long\<close>

text \<open>
  The answer to a packet with 5041 or more data records between different pairs of services
  exceeds a packet: the length of the response is computed as 0 and the answer does not encode,
  so such a packet is left without an answer.
\<close>

theorem oversized_answer:
  assumes "PacketType p = EGTS_PT_APPDATA" "ErrorCode p = EGTS_PC_OK"
    and "PacketServicesFrameData p = Some (FD_SFRD (Some incoming))" "nil_free incoming"
    and "distinct (map pair_of (data_records incoming))" "5041 \<le> length (data_records incoming)"
  shows "FrameDataLength (PrepareAnswer (Some p) n pid) = 0 \<and>
    (\<exists>e. Packet_Encode (Some (PrepareAnswer (Some p) n pid)) = Inl e)"
proof -
  let ?rs = "data_records incoming"
  have "?rs \<noteq> []" using assms(6) by auto
  then have "SDR (answer_response p n) = Some (RD_SFRD (Some (map Some (answer_services n ?rs))))"
    by (simp add: answer_response_def answer_data_def assms)
  from answer_response_too_long [OF assms(6,5) this] obtain e where
    e: "PTResponse_Encode (Some (answer_response p n)) = Inl e" by blast
  then show ?thesis
    unfolding PrepareAnswer_eq [OF assms(1)]
    by (simp add: response_packet_def Packet0_def encode_data_def PTResponse_Len_def codes bindR_def
        del: PTResponse_Encode.simps split: sum.splits)
qed

text \<open>The 5041 records between the services \<open>k mod 256\<close> and \<open>k div 256\<close>.\<close>

definition many_records :: ServicesFrameData where
  "many_records = map (\<lambda>k. Some (sample_record (word_of_nat (k mod 256)) (word_of_nat (k div 256)))) [0..<5041]"

lemma many_records_pairs:
  "map pair_of (data_records many_records) =
   map (\<lambda>k. (word_of_nat (k mod 256), word_of_nat (k div 256))) [0..<5041]"
  by (simp add: many_records_def data_records_samples comp_def)

lemma many_records_distinct: "distinct (map pair_of (data_records many_records))"
proof -
  have "k = l" if "k < 5041" "l < 5041" "(word_of_nat (k mod 256) :: u8) = word_of_nat (l mod 256)"
    "(word_of_nat (k div 256) :: u8) = word_of_nat (l div 256)" for k l :: nat
  proof -
    from that have "k mod 256 = l mod 256" "k div 256 = l div 256"
      by (simp_all add: word_of_nat_eq_iff take_bit_nat_eq_self_iff take_bit_nat_def)
    then show ?thesis by (metis div_mult_mod_eq)
  qed
  then show ?thesis
    by (auto simp: many_records_pairs distinct_map inj_on_def)
qed

theorem oversized_answer_witness:
  "\<exists>e. Packet_Encode (Some (PrepareAnswer (Some (sample_packet many_records)) 4 5)) = Inl e"
proof -
  have "5041 \<le> length (data_records many_records)"
    by (simp add: many_records_def data_records_samples)
  with many_records_distinct oversized_answer [of "sample_packet many_records" many_records 4 5] show ?thesis
    by (simp add: sample_packet_def Packet0_def codes many_records_def nil_free_samples del: Packet_Encode.simps)
qed

end
