(* ===== verification/Relay.thy ===== *)
theory Relay
  imports Answers
begin

text \<open>
  What the gateway relays, \<open>shouldRelay\<close> of \<open>gateway/server/relay.go\<close>: packets with data, but none
  in which data comes with the terminal's credentials. A failed type assertion or a nil record
  is a run-time panic, the outer \<open>None\<close>; a packet that \<open>ReadPacket\<close> accepted never causes one.
\<close>

section \<open>The scan\<close>

definition ErrRelayCredentials :: goerr where
  "ErrRelayCredentials = ErrNew ''A relayed data packet must not contain incoming authentication credentials''"

definition auth_service :: "ServiceDataRecord \<Rightarrow> bool" where
  "auth_service s \<longleftrightarrow> SourceServiceType s = SERVICE_AUTH \<and> RecipientServiceType s = SERVICE_AUTH"

text \<open>The two loops, with \<open>hasData\<close> and \<open>hasCredentials\<close> as their state.\<close>

fun scan_records :: "bool \<Rightarrow> RecordsData \<Rightarrow> bool \<times> bool \<Rightarrow> (bool \<times> bool) option" where
  "scan_records auth [] st = Some st"
| "scan_records auth (None # rds) st = None"
| "scan_records auth (Some rd # rds) (hasData, hasCredentials) =
     scan_records auth rds
       (hasData \<or> (\<not> auth \<and> SubrecordType rd \<noteq> RecordResponse),
        hasCredentials \<or> SubrecordType rd = AuthInfo)"

fun scan_services :: "ServicesFrameData \<Rightarrow> bool \<times> bool \<Rightarrow> (bool \<times> bool) option" where
  "scan_services [] st = Some st"
| "scan_services (None # ss) st = None"
| "scan_services (Some s # ss) (hasData, hasCredentials) =
     (case scan_records (auth_service s) (RecordsData s)
         (hasData \<or> (RecordsData s = [] \<and> \<not> auth_service s), hasCredentials) of
        None \<Rightarrow> None
      | Some st \<Rightarrow> scan_services ss st)"

definition shouldRelay :: "Packet \<Rightarrow> bool result option" where
  "shouldRelay pkg =
     (if PacketType pkg \<noteq> EGTS_PT_APPDATA then Some (Inl (Errorf ''EGTS relay requires an APPDATA packet''))
      else
        (case PacketServicesFrameData pkg of
           Some (FD_SFRD (Some services)) \<Rightarrow>
             (case scan_services services (services = [], False) of
                None \<Rightarrow> None
              | Some (hasData, hasCredentials) \<Rightarrow>
                  if hasData \<and> hasCredentials then Some (Inl ErrRelayCredentials)
                  else Some (Inr hasData))
         | _ \<Rightarrow> None))"

section \<open>What is relayed\<close>

text \<open>A record has data unless it belongs to the authentication service or only confirms.\<close>

definition record_types :: "ServiceDataRecord \<Rightarrow> u8 set" where
  "record_types s = {SubrecordType rd | rd. Some rd \<in> set (RecordsData s)}"

definition relay_data :: "ServiceDataRecord \<Rightarrow> bool" where
  "relay_data s \<longleftrightarrow> \<not> auth_service s \<and> (RecordsData s = [] \<or> \<not> record_types s \<subseteq> {RecordResponse})"

definition credentials :: "ServiceDataRecord \<Rightarrow> bool" where
  "credentials s \<longleftrightarrow> AuthInfo \<in> record_types s"

lemma scan_records_eq:
  "None \<notin> set rds \<Longrightarrow> scan_records auth rds (d, c) = Some
     (d \<or> (\<not> auth \<and> (\<exists>rd. Some rd \<in> set rds \<and> SubrecordType rd \<noteq> RecordResponse)),
      c \<or> (\<exists>rd. Some rd \<in> set rds \<and> SubrecordType rd = AuthInfo))"
proof (induction rds arbitrary: d c)
  case (Cons rd rds)
  then obtain r where "rd = Some r" by (cases rd) auto
  with Cons show ?case by auto
qed simp

lemma scan_services_eq:
  "nil_free ss \<Longrightarrow> scan_services ss (d, c) = Some
     (d \<or> (\<exists>s. Some s \<in> set ss \<and> relay_data s), c \<or> (\<exists>s. Some s \<in> set ss \<and> credentials s))"
proof (induction ss arbitrary: d c)
  case (Cons s ss)
  then obtain r where r: "s = Some r" "None \<notin> set (RecordsData r)" "nil_free ss"
    by (cases s) (auto simp: nil_free_def)
  have "relay_data r \<longleftrightarrow> RecordsData r = [] \<and> \<not> auth_service r \<or>
      \<not> auth_service r \<and> (\<exists>rd. Some rd \<in> set (RecordsData r) \<and> SubrecordType rd \<noteq> RecordResponse)"
    "credentials r \<longleftrightarrow> (\<exists>rd. Some rd \<in> set (RecordsData r) \<and> SubrecordType rd = AuthInfo)"
    by (auto simp: relay_data_def credentials_def record_types_def) (metis (lifting))
  then show ?case
    using Cons.IH [OF r(3)] r(1,2) by (auto simp: scan_records_eq)
qed (simp add: nil_free_def)

lemma shouldRelay_eq:
  assumes "PacketType p = EGTS_PT_APPDATA" "PacketServicesFrameData p = Some (FD_SFRD (Some ss))" "nil_free ss"
  shows "shouldRelay p = Some
    (if ss = [] \<or> (\<exists>s. Some s \<in> set ss \<and> relay_data s)
     then if \<exists>s. Some s \<in> set ss \<and> credentials s then Inl ErrRelayCredentials else Inr True
     else Inr False)"
  using assms by (auto simp: shouldRelay_def scan_services_eq)

end
