(* ===== verification/Gateway_Config.thy ===== *)
theory Gateway_Config
  imports Go_Prelude
begin

text \<open>
  The gateway's configuration, \<open>gateway/configuration\<close>: the records and their defaults, and the
  validation of each part. Which files the outputs share depends on the file system, so
  \<open>ValidateOutputs\<close> is a parameter of \<open>Validate\<close> here.
\<close>

section \<open>Strings\<close>

text \<open>
  \<open>strings.TrimSpace\<close>: the UTF-8 encodings of the characters \<open>unicode.IsSpace\<close> holds for, removed
  from both ends. A Go string is a sequence of bytes, here of characters below 256.
\<close>

definition chars :: "nat list \<Rightarrow> string" where
  "chars = map char_of"

definition space_runes :: "string list" where
  "space_runes =
     map chars [[9], [10], [11], [12], [13], [32], [0xC2, 0x85], [0xC2, 0xA0], [0xE1, 0x9A, 0x80]] @
     map (\<lambda>n. chars [0xE2, 0x80, n]) ([0x80..<0x8B] @ [0xA8, 0xA9, 0xAF]) @
     map chars [[0xE2, 0x81, 0x9F], [0xE3, 0x80, 0x80]]"

lemma space_runes_not_Nil: "r \<in> set space_runes \<Longrightarrow> r \<noteq> []"
  by (auto simp: space_runes_def chars_def)

definition starts_with :: "string \<Rightarrow> string \<Rightarrow> bool" where
  "starts_with p s \<longleftrightarrow> take (length p) s = p"

function trim_left :: "string list \<Rightarrow> string \<Rightarrow> string" where
  "trim_left runes s =
     (case find (\<lambda>r. r \<noteq> [] \<and> starts_with r s) runes of
        None \<Rightarrow> s
      | Some r \<Rightarrow> trim_left runes (drop (length r) s))"
  by auto
termination
proof (relation "measure (\<lambda>(runes, s). length s)")
  fix runes :: "string list" and s r
  assume "find (\<lambda>r. r \<noteq> [] \<and> starts_with r s) runes = Some r"
  then have "r \<noteq> []" "take (length r) s = r"
    by (auto simp: find_Some_iff starts_with_def)
  then have "0 < length r" "s \<noteq> []" by auto
  then show "((runes, drop (length r) s), runes, s) \<in> measure (\<lambda>(runes, s). length s)" by simp
qed simp

declare trim_left.simps [simp del]

definition TrimSpace :: "string \<Rightarrow> string" where
  "TrimSpace s = rev (trim_left (map rev space_runes) (rev (trim_left space_runes s)))"

lemma trim_left_Nil [simp]: "trim_left runes [] = []"
proof -
  have "find (\<lambda>r. r \<noteq> [] \<and> starts_with r []) runes = None"
    by (auto simp: find_None_iff starts_with_def)
  then show ?thesis by (subst trim_left.simps) simp
qed

lemma TrimSpace_Nil [simp]: "TrimSpace [] = []"
  by (simp add: TrimSpace_def)

section \<open>The records\<close>

record ServerConf =
  ServerHost :: string
  ServerPort :: int

record AuthConf =
  AuthEnabled :: bool
  AuthPassword :: string

record DeliveryConf =
  AckMode :: string
  QueueCapacity :: int
  DumpAfterSeconds :: int
  DumpDirectory :: string

record RotationConf =
  MaxFileSizeBytes :: int
  MaxBackups :: int
  MaxAgeDays :: int
  MaxTotalSizeBytes :: int

record LogsConf =
  LogsOutput :: string
  LogsDirectory :: string
  LogsRotation :: RotationConf

record EGTSAuthConf =
  EgtsAuthEnabled :: bool
  EgtsAuthUserName :: string
  EgtsAuthPassword :: string

record EGTSDestinationConf =
  EgtsID :: string
  EgtsEnabled :: bool
  EgtsHost :: string
  EgtsPort :: int
  EgtsConnectTimeoutSeconds :: int
  EgtsAckTimeoutSeconds :: int
  EgtsAuth :: EGTSAuthConf

record RabbitMQDestinationConf =
  RabbitID :: string
  RabbitEnabled :: bool
  RabbitHost :: string
  RabbitPort :: int
  RabbitUserName :: string
  RabbitPassword :: string
  RabbitVhost :: string
  RabbitQueueName :: string
  RabbitQueueType :: string
  RabbitConnectTimeoutSeconds :: int
  RabbitPublishTimeoutSeconds :: int

record ValkeyDestinationConf =
  ValkeyID :: string
  ValkeyEnabled :: bool
  ValkeyHost :: string
  ValkeyPort :: int
  ValkeyUserName :: string
  ValkeyPassword :: string
  ValkeyDatabase :: int
  ValkeyStreamName :: string
  ValkeyConnectTimeoutSeconds :: int
  ValkeyWriteTimeoutSeconds :: int

record FileDestinationConf =
  FileEnabled :: bool
  FileDirectory :: string
  FileRotation :: RotationConf

record DestinationsConf =
  DestStdout :: bool
  DestFile :: FileDestinationConf
  DestEGTS :: "EGTSDestinationConf list"
  DestRabbitMQ :: "RabbitMQDestinationConf list"
  DestValkey :: "ValkeyDestinationConf list"

record Configuration =
  ServerCfg :: ServerConf
  AuthCfg :: AuthConf
  DeliveryCfg :: DeliveryConf
  LogsCfg :: LogsConf
  DestinationsCfg :: DestinationsConf

section \<open>Defaults\<close>

definition default_rotation :: RotationConf where
  "default_rotation = \<lparr>MaxFileSizeBytes = 10485760, MaxBackups = 5, MaxAgeDays = 7,
     MaxTotalSizeBytes = 62914560\<rparr>"

definition DefaultConfiguration :: Configuration where
  "DefaultConfiguration =
     \<lparr>ServerCfg = \<lparr>ServerHost = ''0.0.0.0'', ServerPort = 8081\<rparr>,
      AuthCfg = \<lparr>AuthEnabled = False, AuthPassword = []\<rparr>,
      DeliveryCfg = \<lparr>AckMode = ''queued'', QueueCapacity = 1024, DumpAfterSeconds = 60,
        DumpDirectory = ''./data/queue''\<rparr>,
      LogsCfg = \<lparr>LogsOutput = ''stderr'', LogsDirectory = ''./data/logs'',
        LogsRotation = default_rotation\<rparr>,
      DestinationsCfg = \<lparr>DestStdout = True,
        DestFile = \<lparr>FileEnabled = False, FileDirectory = ''./data/packets'',
          FileRotation = default_rotation\<rparr>,
        DestEGTS = [], DestRabbitMQ = [], DestValkey = []\<rparr>\<rparr>"

definition DefaultEGTSDestination :: EGTSDestinationConf where
  "DefaultEGTSDestination =
     \<lparr>EgtsID = [], EgtsEnabled = False, EgtsHost = ''127.0.0.1'', EgtsPort = 8082,
      EgtsConnectTimeoutSeconds = 5, EgtsAckTimeoutSeconds = 10,
      EgtsAuth = \<lparr>EgtsAuthEnabled = False, EgtsAuthUserName = [], EgtsAuthPassword = []\<rparr>\<rparr>"

definition DefaultRabbitMQDestination :: RabbitMQDestinationConf where
  "DefaultRabbitMQDestination =
     \<lparr>RabbitID = [], RabbitEnabled = False, RabbitHost = ''127.0.0.1'', RabbitPort = 5672,
      RabbitUserName = [], RabbitPassword = [], RabbitVhost = ''/'', RabbitQueueName = ''egts.packets'',
      RabbitQueueType = ''classic'', RabbitConnectTimeoutSeconds = 5, RabbitPublishTimeoutSeconds = 10\<rparr>"

definition DefaultValkeyDestination :: ValkeyDestinationConf where
  "DefaultValkeyDestination =
     \<lparr>ValkeyID = [], ValkeyEnabled = False, ValkeyHost = ''127.0.0.1'', ValkeyPort = 6379,
      ValkeyUserName = [], ValkeyPassword = [], ValkeyDatabase = 0, ValkeyStreamName = ''egts.packets'',
      ValkeyConnectTimeoutSeconds = 5, ValkeyWriteTimeoutSeconds = 10\<rparr>"

section \<open>Validation\<close>

text \<open>
  A validation returns the first error, \<open>None\<close> being \<open>nil\<close>. \<open>first_error\<close> runs a list of checks
  in order.
\<close>

fun first_error :: "(bool \<times> goerr) list \<Rightarrow> goerr option" where
  "first_error [] = None"
| "first_error ((failed, e) # checks) = (if failed then Some e else first_error checks)"

lemma first_error_None: "first_error cs = None \<longleftrightarrow> list_all (\<lambda>(failed, e). \<not> failed) cs"
  by (induction cs rule: first_error.induct) auto

definition wrap_error :: "string \<Rightarrow> goerr option \<Rightarrow> goerr option" where
  "wrap_error m e = map_option (Wrapf m) e"

definition then_check :: "goerr option \<Rightarrow> goerr option \<Rightarrow> goerr option" where
  "then_check a b = (case a of None \<Rightarrow> b | Some e \<Rightarrow> Some e)"

lemma wrap_error_None [simp]: "wrap_error m e = None \<longleftrightarrow> e = None"
  by (simp add: wrap_error_def)

lemma then_check_None [simp]: "then_check a b = None \<longleftrightarrow> a = None \<and> b = None"
  by (auto simp: then_check_def split: option.splits)

definition id_char :: "char \<Rightarrow> bool" where
  "id_char c \<longleftrightarrow> (of_char c :: nat) \<in> {97..122} \<or> (of_char c :: nat) \<in> {48..57} \<or> c = CHR ''_''"

definition blank :: "string \<Rightarrow> bool" where
  "blank s \<longleftrightarrow> TrimSpace s = []"

abbreviation bad_port :: "int \<Rightarrow> bool" where
  "bad_port n \<equiv> n < 1 \<or> n > 65535"

abbreviation bad_seconds :: "int \<Rightarrow> bool" where
  "bad_seconds n \<equiv> n < 1 \<or> n > 9223372036"

definition RotationConf_Validate :: "RotationConf \<Rightarrow> goerr option" where
  "RotationConf_Validate cfg = first_error
     [(MaxFileSizeBytes cfg < 1, Errorf ''max_file_size_bytes must be positive''),
      (MaxBackups cfg < 0, Errorf ''max_backups must not be negative''),
      (MaxAgeDays cfg < 0 \<or> MaxAgeDays cfg > 106751, Errorf ''max_age_days must be between 0 and 106751''),
      (MaxTotalSizeBytes cfg < MaxFileSizeBytes cfg,
       Errorf ''max_total_size_bytes must be at least max_file_size_bytes'')]"

definition EGTSDestination_Validate :: "EGTSDestinationConf \<Rightarrow> goerr option" where
  "EGTSDestination_Validate cfg = then_check
     (first_error
       [(EgtsID cfg = [], Errorf ''destinations_cfg.egts.id must not be empty''),
        (\<not> list_all id_char (EgtsID cfg), Errorf ''destinations_cfg.egts.id may contain only lowercase Latin letters, digits and underscores'')])
     (if \<not> EgtsEnabled cfg then None
      else then_check
       (first_error
         [(blank (EgtsHost cfg), Errorf ''destinations_cfg.egts.host must not be empty''),
          (bad_port (EgtsPort cfg), Errorf ''destinations_cfg.egts.port must be between 1 and 65535''),
          (bad_seconds (EgtsConnectTimeoutSeconds cfg), Errorf ''destinations_cfg.egts.connect_timeout_seconds must be between 1 and 9223372036''),
          (bad_seconds (EgtsAckTimeoutSeconds cfg), Errorf ''destinations_cfg.egts.ack_timeout_seconds must be between 1 and 9223372036'')])
       (if EgtsAuthEnabled (EgtsAuth cfg) then first_error
          [(length (EgtsAuthUserName (EgtsAuth cfg)) > 32 \<or> contains_null (EgtsAuthUserName (EgtsAuth cfg)),
            Errorf ''destinations_cfg.egts.auth.username must not exceed 32 bytes or contain a null byte''),
           (EgtsAuthPassword (EgtsAuth cfg) = [] \<or> length (EgtsAuthPassword (EgtsAuth cfg)) > 32 \<or>
              contains_null (EgtsAuthPassword (EgtsAuth cfg)),
            Errorf ''destinations_cfg.egts.auth.password must contain 1 to 32 bytes without a null byte'')]
        else None))"

definition RabbitMQDestination_Validate :: "RabbitMQDestinationConf \<Rightarrow> goerr option" where
  "RabbitMQDestination_Validate cfg = then_check
     (first_error
       [(RabbitID cfg = [], Errorf ''destinations_cfg.rabbitmq.id must not be empty''),
        (\<not> list_all id_char (RabbitID cfg), Errorf ''destinations_cfg.rabbitmq.id may contain only lowercase Latin letters, digits and underscores'')])
     (if \<not> RabbitEnabled cfg then None
      else first_error
       [(blank (RabbitHost cfg), Errorf ''destinations_cfg.rabbitmq.host must not be empty''),
        (bad_port (RabbitPort cfg), Errorf ''destinations_cfg.rabbitmq.port must be between 1 and 65535''),
        (RabbitUserName cfg = [] \<or> contains_null (RabbitUserName cfg), Errorf ''destinations_cfg.rabbitmq.username must not be empty or contain a null byte''),
        (RabbitPassword cfg = [] \<or> contains_null (RabbitPassword cfg), Errorf ''destinations_cfg.rabbitmq.password must not be empty or contain a null byte''),
        (RabbitVhost cfg = [] \<or> length (RabbitVhost cfg) > 255 \<or> contains_null (RabbitVhost cfg),
         Errorf ''destinations_cfg.rabbitmq.vhost must contain 1 to 255 bytes without a null byte''),
        (RabbitQueueName cfg = [] \<or> length (RabbitQueueName cfg) > 255 \<or> contains_null (RabbitQueueName cfg) \<or>
           starts_with ''amq.'' (RabbitQueueName cfg),
         Errorf ''destinations_cfg.rabbitmq.queue_name must contain 1 to 255 bytes without a null byte and must not start with amq.''),
        (RabbitQueueType cfg \<noteq> ''classic'' \<and> RabbitQueueType cfg \<noteq> ''quorum'', Errorf ''destinations_cfg.rabbitmq.queue_type must be classic or quorum''),
        (bad_seconds (RabbitConnectTimeoutSeconds cfg), Errorf ''destinations_cfg.rabbitmq.connect_timeout_seconds must be between 1 and 9223372036''),
        (bad_seconds (RabbitPublishTimeoutSeconds cfg), Errorf ''destinations_cfg.rabbitmq.publish_timeout_seconds must be between 1 and 9223372036'')])"

definition ValkeyDestination_Validate :: "ValkeyDestinationConf \<Rightarrow> goerr option" where
  "ValkeyDestination_Validate cfg = then_check
     (first_error
       [(ValkeyID cfg = [], Errorf ''destinations_cfg.valkey.id must not be empty''),
        (\<not> list_all id_char (ValkeyID cfg), Errorf ''destinations_cfg.valkey.id may contain only lowercase Latin letters, digits and underscores'')])
     (if \<not> ValkeyEnabled cfg then None
      else first_error
       [(blank (ValkeyHost cfg), Errorf ''destinations_cfg.valkey.host must not be empty''),
        (bad_port (ValkeyPort cfg), Errorf ''destinations_cfg.valkey.port must be between 1 and 65535''),
        (ValkeyUserName cfg \<noteq> [] \<and> ValkeyPassword cfg = [], Errorf ''destinations_cfg.valkey.password is required when username is set''),
        (ValkeyDatabase cfg < 0, Errorf ''destinations_cfg.valkey.database must not be negative''),
        (blank (ValkeyStreamName cfg), Errorf ''destinations_cfg.valkey.stream_name must not be empty''),
        (bad_seconds (ValkeyConnectTimeoutSeconds cfg), Errorf ''destinations_cfg.valkey.connect_timeout_seconds must be between 1 and 9223372036''),
        (bad_seconds (ValkeyWriteTimeoutSeconds cfg), Errorf ''destinations_cfg.valkey.write_timeout_seconds must be between 1 and 9223372036'')])"

text \<open>
  The loop over one kind of destination: each is valid on its own and no identifier comes twice;
  the result is whether one is enabled.
\<close>

fun validate_destinations ::
  "string \<Rightarrow> ('a \<Rightarrow> goerr option) \<Rightarrow> ('a \<Rightarrow> string) \<Rightarrow> ('a \<Rightarrow> bool) \<Rightarrow>
   'a list \<Rightarrow> string set \<Rightarrow> bool \<Rightarrow> bool result" where
  "validate_destinations kind validate ident enabled [] ids has = Inr has"
| "validate_destinations kind validate ident enabled (d # ds) ids has =
     (case validate d of
        Some e \<Rightarrow> Inl (Wrapf (kind @ '' destination %q'') e)
      | None \<Rightarrow>
          if ident d \<in> ids then Inl (Errorf (''Duplicate '' @ kind @ '' destination ID %q''))
          else validate_destinations kind validate ident enabled ds (insert (ident d) ids) (has \<or> enabled d))"

lemma validate_destinations_Inr:
  "validate_destinations kind validate ident enabled ds ids has = Inr h \<longleftrightarrow>
   list_all (\<lambda>d. validate d = None) ds \<and> distinct (map ident ds) \<and> ident ` set ds \<inter> ids = {} \<and>
   h = (has \<or> list_ex enabled ds)"
  by (induction ds arbitrary: ids has) (auto split: option.splits)

definition Validate_settings :: "Configuration \<Rightarrow> goerr option" where
  "Validate_settings cfg = then_check
     (first_error
       [(blank (ServerHost (ServerCfg cfg)), Errorf ''server_cfg.host must not be empty''),
        (bad_port (ServerPort (ServerCfg cfg)), Errorf ''server_cfg.port must be between 1 and 65535''),
        (AuthEnabled (AuthCfg cfg) \<and> AuthPassword (AuthCfg cfg) = [], Errorf ''auth_cfg.password is required when authentication is enabled''),
        (AuthEnabled (AuthCfg cfg) \<and> (length (AuthPassword (AuthCfg cfg)) > 32 \<or> contains_null (AuthPassword (AuthCfg cfg))),
         Errorf ''auth_cfg.password must not exceed 32 bytes or contain a null byte''),
        (AckMode (DeliveryCfg cfg) \<noteq> ''queued'' \<and> AckMode (DeliveryCfg cfg) \<noteq> ''delivered'', Errorf ''delivery_cfg.ack_mode must be queued or delivered''),
        (QueueCapacity (DeliveryCfg cfg) < 1, Errorf ''delivery_cfg.queue_capacity must be positive''),
        (bad_seconds (DumpAfterSeconds (DeliveryCfg cfg)), Errorf ''delivery_cfg.dump_after_seconds must be between 1 and 9223372036''),
        (blank (DumpDirectory (DeliveryCfg cfg)), Errorf ''delivery_cfg.dump_directory must not be empty''),
        (LogsOutput (LogsCfg cfg) \<noteq> ''stdout'' \<and> LogsOutput (LogsCfg cfg) \<noteq> ''stderr'' \<and> LogsOutput (LogsCfg cfg) \<noteq> ''file'',
         Errorf ''logs_cfg.output must be stdout, stderr or file''),
        (LogsOutput (LogsCfg cfg) = ''file'' \<and> blank (LogsDirectory (LogsCfg cfg)), Errorf ''logs_cfg.directory must not be empty for file output'')])
     (then_check
       (if LogsOutput (LogsCfg cfg) = ''file''
        then wrap_error ''logs_cfg.rotation'' (RotationConf_Validate (LogsRotation (LogsCfg cfg))) else None)
     (then_check
       (first_error
         [(FileEnabled (DestFile (DestinationsCfg cfg)) \<and> blank (FileDirectory (DestFile (DestinationsCfg cfg))),
           Errorf ''destinations_cfg.file.directory must not be empty for file output'')])
       (if FileEnabled (DestFile (DestinationsCfg cfg))
        then wrap_error ''destinations_cfg.file.rotation'' (RotationConf_Validate (FileRotation (DestFile (DestinationsCfg cfg)))) else None)))"

definition Validate_destinations :: "DestinationsConf \<Rightarrow> goerr option" where
  "Validate_destinations dests =
     (case
        bindR (validate_destinations ''EGTS'' EGTSDestination_Validate EgtsID EgtsEnabled (DestEGTS dests) {} False) (\<lambda>hasRelay.
        bindR (validate_destinations ''RabbitMQ'' RabbitMQDestination_Validate RabbitID RabbitEnabled (DestRabbitMQ dests) {} False) (\<lambda>hasRabbit.
        bindR (validate_destinations ''Valkey'' ValkeyDestination_Validate ValkeyID ValkeyEnabled (DestValkey dests) {} False) (\<lambda>hasValkey.
        if \<not> DestStdout dests \<and> \<not> FileEnabled (DestFile dests) \<and> \<not> hasRelay \<and> \<not> hasRabbit \<and> \<not> hasValkey
        then Inl (Errorf ''At least one packet destination must be enabled'') else Inr ())))
      of Inl e \<Rightarrow> Some e | Inr _ \<Rightarrow> None)"

definition Validate :: "(Configuration \<Rightarrow> goerr option) \<Rightarrow> Configuration \<Rightarrow> goerr option" where
  "Validate validate_outputs cfg =
     then_check (Validate_settings cfg)
       (then_check (Validate_destinations (DestinationsCfg cfg)) (validate_outputs cfg))"

section \<open>What a valid configuration is\<close>

definition valid_rotation :: "RotationConf \<Rightarrow> bool" where
  "valid_rotation r \<longleftrightarrow> 1 \<le> MaxFileSizeBytes r \<and> MaxFileSizeBytes r \<le> MaxTotalSizeBytes r \<and>
     0 \<le> MaxBackups r \<and> MaxAgeDays r \<in> {0..106751}"

definition valid_id :: "string \<Rightarrow> bool" where
  "valid_id s \<longleftrightarrow> s \<noteq> [] \<and> list_all id_char s"

text \<open>A password or name the authentication subrecord can carry.\<close>

definition auth_string :: "string \<Rightarrow> bool" where
  "auth_string s \<longleftrightarrow> length s \<le> 32 \<and> \<not> contains_null s"

abbreviation seconds_range :: "int set" where
  "seconds_range \<equiv> {1..9223372036}"

abbreviation port_range :: "int set" where
  "port_range \<equiv> {1..65535}"

definition valid_egts :: "EGTSDestinationConf \<Rightarrow> bool" where
  "valid_egts c \<longleftrightarrow> valid_id (EgtsID c) \<and>
     (EgtsEnabled c \<longrightarrow> \<not> blank (EgtsHost c) \<and> EgtsPort c \<in> port_range \<and>
        EgtsConnectTimeoutSeconds c \<in> seconds_range \<and> EgtsAckTimeoutSeconds c \<in> seconds_range \<and>
        (EgtsAuthEnabled (EgtsAuth c) \<longrightarrow> auth_string (EgtsAuthUserName (EgtsAuth c)) \<and>
           auth_string (EgtsAuthPassword (EgtsAuth c)) \<and> EgtsAuthPassword (EgtsAuth c) \<noteq> []))"

definition valid_rabbitmq :: "RabbitMQDestinationConf \<Rightarrow> bool" where
  "valid_rabbitmq c \<longleftrightarrow> valid_id (RabbitID c) \<and>
     (RabbitEnabled c \<longrightarrow> \<not> blank (RabbitHost c) \<and> RabbitPort c \<in> port_range \<and>
        RabbitUserName c \<noteq> [] \<and> \<not> contains_null (RabbitUserName c) \<and>
        RabbitPassword c \<noteq> [] \<and> \<not> contains_null (RabbitPassword c) \<and>
        length (RabbitVhost c) \<in> {1..255} \<and> \<not> contains_null (RabbitVhost c) \<and>
        length (RabbitQueueName c) \<in> {1..255} \<and> \<not> contains_null (RabbitQueueName c) \<and>
        \<not> starts_with ''amq.'' (RabbitQueueName c) \<and> RabbitQueueType c \<in> {''classic'', ''quorum''} \<and>
        RabbitConnectTimeoutSeconds c \<in> seconds_range \<and> RabbitPublishTimeoutSeconds c \<in> seconds_range)"

definition valid_valkey :: "ValkeyDestinationConf \<Rightarrow> bool" where
  "valid_valkey c \<longleftrightarrow> valid_id (ValkeyID c) \<and>
     (ValkeyEnabled c \<longrightarrow> \<not> blank (ValkeyHost c) \<and> ValkeyPort c \<in> port_range \<and>
        (ValkeyUserName c \<noteq> [] \<longrightarrow> ValkeyPassword c \<noteq> []) \<and> 0 \<le> ValkeyDatabase c \<and>
        \<not> blank (ValkeyStreamName c) \<and>
        ValkeyConnectTimeoutSeconds c \<in> seconds_range \<and> ValkeyWriteTimeoutSeconds c \<in> seconds_range)"

definition valid_destinations :: "DestinationsConf \<Rightarrow> bool" where
  "valid_destinations d \<longleftrightarrow>
     list_all valid_egts (DestEGTS d) \<and> distinct (map EgtsID (DestEGTS d)) \<and>
     list_all valid_rabbitmq (DestRabbitMQ d) \<and> distinct (map RabbitID (DestRabbitMQ d)) \<and>
     list_all valid_valkey (DestValkey d) \<and> distinct (map ValkeyID (DestValkey d)) \<and>
     (DestStdout d \<or> FileEnabled (DestFile d) \<or> list_ex EgtsEnabled (DestEGTS d) \<or>
      list_ex RabbitEnabled (DestRabbitMQ d) \<or> list_ex ValkeyEnabled (DestValkey d))"

definition valid_configuration :: "Configuration \<Rightarrow> bool" where
  "valid_configuration c \<longleftrightarrow>
     \<not> blank (ServerHost (ServerCfg c)) \<and> ServerPort (ServerCfg c) \<in> port_range \<and>
     (AuthEnabled (AuthCfg c) \<longrightarrow> auth_string (AuthPassword (AuthCfg c)) \<and> AuthPassword (AuthCfg c) \<noteq> []) \<and>
     AckMode (DeliveryCfg c) \<in> {''queued'', ''delivered''} \<and> 1 \<le> QueueCapacity (DeliveryCfg c) \<and>
     DumpAfterSeconds (DeliveryCfg c) \<in> seconds_range \<and> \<not> blank (DumpDirectory (DeliveryCfg c)) \<and>
     LogsOutput (LogsCfg c) \<in> {''stdout'', ''stderr'', ''file''} \<and>
     (LogsOutput (LogsCfg c) = ''file'' \<longrightarrow> \<not> blank (LogsDirectory (LogsCfg c)) \<and> valid_rotation (LogsRotation (LogsCfg c))) \<and>
     (FileEnabled (DestFile (DestinationsCfg c)) \<longrightarrow> \<not> blank (FileDirectory (DestFile (DestinationsCfg c))) \<and>
        valid_rotation (FileRotation (DestFile (DestinationsCfg c)))) \<and>
     valid_destinations (DestinationsCfg c)"

lemma RotationConf_Validate_None: "RotationConf_Validate r = None \<longleftrightarrow> valid_rotation r"
  by (auto simp: RotationConf_Validate_def valid_rotation_def first_error_None)

lemma EGTSDestination_Validate_None: "EGTSDestination_Validate c = None \<longleftrightarrow> valid_egts c"
  by (auto simp: EGTSDestination_Validate_def valid_egts_def valid_id_def auth_string_def first_error_None)

lemma RabbitMQDestination_Validate_None: "RabbitMQDestination_Validate c = None \<longleftrightarrow> valid_rabbitmq c"
  by (auto simp: RabbitMQDestination_Validate_def valid_rabbitmq_def valid_id_def first_error_None
      Suc_le_eq)

lemma ValkeyDestination_Validate_None: "ValkeyDestination_Validate c = None \<longleftrightarrow> valid_valkey c"
  by (auto simp: ValkeyDestination_Validate_def valid_valkey_def valid_id_def first_error_None)

lemma Validate_settings_None:
  "Validate_settings c = None \<and> valid_destinations (DestinationsCfg c) \<longleftrightarrow> valid_configuration c"
  by (auto simp: Validate_settings_def valid_configuration_def auth_string_def first_error_None
      RotationConf_Validate_None)

lemma Validate_destinations_None: "Validate_destinations d = None \<longleftrightarrow> valid_destinations d"
proof -
  have "Validate_destinations d = None \<longleftrightarrow> (\<exists>a b c.
      validate_destinations ''EGTS'' EGTSDestination_Validate EgtsID EgtsEnabled (DestEGTS d) {} False = Inr a \<and>
      validate_destinations ''RabbitMQ'' RabbitMQDestination_Validate RabbitID RabbitEnabled (DestRabbitMQ d) {} False = Inr b \<and>
      validate_destinations ''Valkey'' ValkeyDestination_Validate ValkeyID ValkeyEnabled (DestValkey d) {} False = Inr c \<and>
      (DestStdout d \<or> FileEnabled (DestFile d) \<or> a \<or> b \<or> c))"
    by (auto simp: Validate_destinations_def bindR_def split: sum.splits if_splits)
  then show ?thesis
    by (simp add: validate_destinations_Inr valid_destinations_def EGTSDestination_Validate_None
        RabbitMQDestination_Validate_None ValkeyDestination_Validate_None)
qed

lemma Validate_None: "Validate out c = None \<longleftrightarrow> valid_configuration c \<and> out c = None"
  using Validate_settings_None [of c] by (auto simp: Validate_def Validate_destinations_None)

end
