(* ===== verification/Gateway_State.thy ===== *)
theory Gateway_State
  imports Relay Gateway_Config Go_Float
begin

text \<open>
  The gateway's shared state and the operations the connections perform on it under its lock:
  \<open>enqueue\<close> of \<open>gateway/server/queue.go\<close> and the relay sessions of \<open>relay.go\<close>. Pending packets
  and relay sessions are referred to by pointers; the state holds two heaps, lists that only
  grow, and an address is an index. A map to \<open>bool\<close> whose values are all \<open>true\<close> is the set of
  its keys.
\<close>

section \<open>Records\<close>

record Source =
  RemoteAddress :: string
  TerminalID :: "u32 option"

record Record =
  ReceivedAt :: gotime
  RecSource :: Source
  RecPacket :: Packet
  RecRaw :: bytes

text \<open>\<open>NewRecord\<close> of \<open>gateway/destination/record.go\<close>.\<close>

definition NewRecord :: "gotime \<Rightarrow> Source \<Rightarrow> bytes \<Rightarrow> Record result" where
  "NewRecord receivedAt source raw =
     (case ReadPacket raw of
        (decoded, Some e) \<Rightarrow> Inl (Wrapf ''Can't decode packet for destination'' e)
      | (decoded, None) \<Rightarrow> Inr \<lparr>ReceivedAt = receivedAt, RecSource = source, RecPacket = decoded, RecRaw = raw\<rparr>)"

section \<open>Relay sessions and pending packets\<close>

text \<open>
  A session's writers are its outgoing connections, one for each enabled destination;
  \<open>writersClosed\<close> says that \<open>close\<close> has closed them all.
\<close>

record relaySession =
  sessionID :: string
  writers :: "string set"
  pending :: int
  closed :: bool
  writersClosed :: bool

record relayPacket =
  session :: "nat option"
  identity :: bytes

record pendingPacket =
  pRecord :: Record
  pStdout :: bool
  pFile :: bool
  pEGTS :: "string set"
  pRabbitMQ :: "string set"
  pValkey :: "string set"
  pRelay :: "relayPacket option"
  pDone :: bool

record server =
  cfg :: Configuration
  accepting :: bool
  queue :: "nat list"
  wake :: bool
  hasDump :: bool
  relays :: "string \<rightharpoonup> nat"
  items :: "pendingPacket list"
  sessions :: "relaySession list"

abbreviation dests :: "server \<Rightarrow> DestinationsConf" where
  "dests s \<equiv> DestinationsCfg (cfg s)"

definition enabled_egts :: "DestinationsConf \<Rightarrow> string list" where
  "enabled_egts d = map EgtsID (filter EgtsEnabled (DestEGTS d))"

definition enabled_rabbitmq :: "DestinationsConf \<Rightarrow> string list" where
  "enabled_rabbitmq d = map RabbitID (filter RabbitEnabled (DestRabbitMQ d))"

definition enabled_valkey :: "DestinationsConf \<Rightarrow> string list" where
  "enabled_valkey d = map ValkeyID (filter ValkeyEnabled (DestValkey d))"

section \<open>Relay sessions\<close>

text \<open>
  \<open>newRelaySession\<close> with the identifier that \<open>rand.Read\<close> gave, or its error. \<open>PrepareEGTS\<close> fails
  only for a destination that is disabled or invalid. No enabled destination means no session.
\<close>

fun prepare_writers :: "EGTSDestinationConf list \<Rightarrow> string set \<Rightarrow> string set result" where
  "prepare_writers [] ws = Inr ws"
| "prepare_writers (c # cs) ws =
     (if \<not> EgtsEnabled c then prepare_writers cs ws
      else case EGTSDestination_Validate c of
        Some e \<Rightarrow> Inl e
      | None \<Rightarrow> prepare_writers cs (insert (EgtsID c) ws))"

definition newRelaySession :: "string result \<Rightarrow> server \<Rightarrow> nat option result \<times> server" where
  "newRelaySession random s =
     (case random of
        Inl e \<Rightarrow> (Inl e, s)
      | Inr ident \<Rightarrow>
          (case prepare_writers (DestEGTS (dests s)) {} of
             Inl e \<Rightarrow> (Inl e, s)
           | Inr ws \<Rightarrow>
               if ws = {} then (Inr None, s)
               else (let sid = length (sessions s) in
                 (Inr (Some sid), s
                   \<lparr>sessions := sessions s @ [\<lparr>sessionID = ident, writers = ws, pending = 0,
                      closed = False, writersClosed = False\<rparr>],
                    relays := (relays s)(ident \<mapsto> sid)\<rparr>))))"

abbreviation upd_session :: "nat \<Rightarrow> (relaySession \<Rightarrow> relaySession) \<Rightarrow> server \<Rightarrow> server" where
  "upd_session sid f s \<equiv> s\<lparr>sessions := (sessions s)[sid := f (sessions s ! sid)]\<rparr>"

text \<open>\<open>close\<close> closes every writer, whatever errors that returns.\<close>

definition close_session :: "nat \<Rightarrow> server \<Rightarrow> server" where
  "close_session sid s = upd_session sid (\<lambda>x. x\<lparr>writersClosed := True\<rparr>) s"

definition unregister :: "nat \<Rightarrow> server \<Rightarrow> server" where
  "unregister sid s = s\<lparr>relays := (relays s)(sessionID (sessions s ! sid) := None)\<rparr>"

text \<open>The part of \<open>endRelaySession\<close> under the lock, and whether \<open>close\<close> follows.\<close>

definition endRelaySession :: "nat \<Rightarrow> server \<Rightarrow> bool \<times> server" where
  "endRelaySession sid s =
     (let s1 = upd_session sid (\<lambda>x. x\<lparr>closed := True\<rparr>) s;
          finished = (pending (sessions s ! sid) = 0)
      in (finished, if finished then unregister sid s1 else s1))"

section \<open>enqueue\<close>

definition ErrQueueFull :: goerr where
  "ErrQueueFull = ErrNew ''Packet queue is full''"

definition ErrStopped :: goerr where
  "ErrStopped = ErrNew ''Gateway is stopping''"

text \<open>The loop over the EGTS destinations; \<open>None\<close> is a panic in \<open>shouldRelay\<close>.\<close>

fun relay_targets :: "bool result option \<Rightarrow> relayPacket option \<Rightarrow> EGTSDestinationConf list \<Rightarrow>
    string set \<Rightarrow> (string set) result option" where
  "relay_targets sr relay [] ids = Some (Inr ids)"
| "relay_targets sr relay (c # cs) ids =
     (if \<not> EgtsEnabled c then relay_targets sr relay cs ids
      else case sr of
        None \<Rightarrow> None
      | Some (Inl e) \<Rightarrow> Some (Inl e)
      | Some (Inr False) \<Rightarrow> Some (Inr ids)
      | Some (Inr True) \<Rightarrow>
          (case relay of
             None \<Rightarrow> Some (Inl (Errorf ''Missing EGTS relay session''))
           | Some r \<Rightarrow>
               if session r = None then Some (Inl (Errorf ''Missing EGTS relay session''))
               else relay_targets sr relay cs (insert (EgtsID c) ids)))"

definition new_item :: "server \<Rightarrow> Record \<Rightarrow> relayPacket option \<Rightarrow> string set \<Rightarrow> pendingPacket" where
  "new_item s record relay ids =
     \<lparr>pRecord = record, pStdout = DestStdout (dests s), pFile = FileEnabled (DestFile (dests s)),
      pEGTS = ids, pRabbitMQ = set (enabled_rabbitmq (dests s)), pValkey = set (enabled_valkey (dests s)),
      pRelay = (if ids = {} then None else relay), pDone = False\<rparr>"

definition count_pending :: "pendingPacket \<Rightarrow> server \<Rightarrow> server" where
  "count_pending item s =
     (case pRelay item of
        None \<Rightarrow> s
      | Some r \<Rightarrow>
          (case session r of
             None \<Rightarrow> s
           | Some sid \<Rightarrow>
               upd_session sid (\<lambda>x. x\<lparr>pending := pending x + int (card (pEGTS item))\<rparr>) s))"

definition enqueue :: "Record \<Rightarrow> relayPacket option \<Rightarrow> server \<Rightarrow> (nat result \<times> server) option" where
  "enqueue record relay s =
     (if \<not> accepting s then Some (Inl ErrStopped, s)
      else if int (length (queue s)) \<ge> QueueCapacity (DeliveryCfg (cfg s)) then Some (Inl ErrQueueFull, s)
      else
        (case relay_targets (shouldRelay (RecPacket record)) relay (DestEGTS (dests s)) {} of
           None \<Rightarrow> None
         | Some (Inl e) \<Rightarrow> Some (Inl e, s)
         | Some (Inr ids) \<Rightarrow>
             (let item = new_item s record relay ids; a = length (items s) in
              Some (Inr a, (count_pending item s)
                \<lparr>items := items s @ [item], queue := queue s @ [a], wake := True\<rparr>))))"

end
