(* ===== verification/Connection.thy ===== *)
theory Connection
  imports Gateway_State Frames
begin

text \<open>
  A terminal's connection, \<open>handleConnection\<close> of \<open>gateway/server/connection.go\<close>: its state, what
  the loop does with one frame, and the loop. A run-time panic, such as the use of a nil
  record, is the outer \<open>None\<close>. Log entries are left out.
\<close>

section \<open>The state of a connection\<close>

record terminal =
  authorized :: bool
  source :: Source
  connPid :: u16
  connRn :: u16
  connSession :: "nat option"
  relayIdentity :: bytes

text \<open>
  What the world does while a frame is handled: what others did to the shared state since the
  last frame, the time, whether \<open>done\<close> was closed before the context was, the outcome of
  \<open>SetWriteDeadline\<close> and of each \<open>Write\<close>.
\<close>

record exchange_env =
  envWorld :: "server \<Rightarrow> server"
  envNow :: gotime
  envDelivered :: bool
  envDeadline :: "goerr option"
  envWrite :: "nat \<Rightarrow> bytes \<Rightarrow> nat \<times> goerr option"

section \<open>The authentication records of a packet\<close>

record auth_scan =
  authRequest :: bool
  identityRequest :: bool
  hasCredentials :: bool
  onlyIdentity :: bool
  nextAuthorized :: bool
  nextSource :: Source
  nextRelayIdentity :: bytes
  scanCode :: u8

definition no_scan :: "terminal \<Rightarrow> u8 \<Rightarrow> auth_scan" where
  "no_scan t c = \<lparr>authRequest = False, identityRequest = False, hasCredentials = False, onlyIdentity = True,
     nextAuthorized = authorized t, nextSource = source t, nextRelayIdentity = relayIdentity t, scanCode = c\<rparr>"

definition scan_identity :: "nat option \<Rightarrow> SRTermIdentity \<Rightarrow> auth_scan \<Rightarrow> auth_scan result" where
  "scan_identity sess data sc =
     (let sc1 = sc\<lparr>nextSource := (nextSource sc)\<lparr>TerminalID := Some (TerminalIdentifier data)\<rparr>,
        authRequest := True, identityRequest := True\<rparr> in
      if sess = None then Inr sc1
      else
        (case SRTermIdentity_Encode (Some data) of
           Inl e \<Rightarrow> Inl e
         | Inr b \<Rightarrow> Inr (sc1\<lparr>nextRelayIdentity := b\<rparr>)))"

definition scan_credentials :: "AuthConf \<Rightarrow> SRAuthInfo \<Rightarrow> auth_scan \<Rightarrow> auth_scan" where
  "scan_credentials auth data sc =
     (let sc1 = sc\<lparr>hasCredentials := True, onlyIdentity := False, authRequest := True\<rparr> in
      if \<not> AuthEnabled auth then sc1
      else if Password data \<noteq> AuthPassword auth \<or> ServerSequence data \<noteq> None
      then sc1\<lparr>scanCode := EGTS_PC_AUTH_DENIED\<rparr>
      else sc1\<lparr>nextAuthorized := True\<rparr>)"

fun scan_data :: "AuthConf \<Rightarrow> nat option \<Rightarrow> RecordData option \<Rightarrow> auth_scan \<Rightarrow> auth_scan result option" where
  "scan_data auth sess None sc = None"
| "scan_data auth sess (Some rd) sc =
     (case SubrecordData rd of
        Some (SD_TermIdentity data) \<Rightarrow>
          (case data of None \<Rightarrow> None | Some data \<Rightarrow> Some (scan_identity sess data sc))
      | Some (SD_AuthInfo data) \<Rightarrow>
          (case data of
             None \<Rightarrow> if AuthEnabled auth then None
               else Some (Inr (sc\<lparr>hasCredentials := True, onlyIdentity := False, authRequest := True\<rparr>))
           | Some data \<Rightarrow> Some (Inr (scan_credentials auth data sc)))
      | _ \<Rightarrow> Some (Inr (sc\<lparr>onlyIdentity := False\<rparr>)))"

fun scan_auth_records :: "AuthConf \<Rightarrow> nat option \<Rightarrow> RecordsData \<Rightarrow> auth_scan \<Rightarrow> auth_scan result option" where
  "scan_auth_records auth sess [] sc = Some (Inr sc)"
| "scan_auth_records auth sess (rd # rds) sc =
     (case scan_data auth sess rd sc of
        None \<Rightarrow> None
      | Some (Inl e) \<Rightarrow> Some (Inl e)
      | Some (Inr sc') \<Rightarrow> scan_auth_records auth sess rds sc')"

fun scan_auth :: "AuthConf \<Rightarrow> nat option \<Rightarrow> ServicesFrameData \<Rightarrow> auth_scan \<Rightarrow> auth_scan result option" where
  "scan_auth auth sess [] sc = Some (Inr sc)"
| "scan_auth auth sess (None # ss) sc = None"
| "scan_auth auth sess (Some s # ss) sc =
     (if SourceServiceType s \<noteq> SERVICE_AUTH \<or> RecipientServiceType s \<noteq> SERVICE_AUTH
      then scan_auth auth sess ss (sc\<lparr>onlyIdentity := False\<rparr>)
      else
        (case scan_auth_records auth sess (RecordsData s) sc of
           None \<Rightarrow> None
         | Some (Inl e) \<Rightarrow> Some (Inl e)
         | Some (Inr sc') \<Rightarrow> scan_auth auth sess ss sc'))"

definition requestCredentials :: "terminal \<Rightarrow> auth_scan \<Rightarrow> bool" where
  "requestCredentials t sc \<longleftrightarrow>
     \<not> authorized t \<and> identityRequest sc \<and> onlyIdentity sc \<and> \<not> hasCredentials sc"

text \<open>The result code behind the scan.\<close>

definition admit :: "terminal \<Rightarrow> auth_scan \<Rightarrow> u8" where
  "admit t sc =
     (if \<not> nextAuthorized sc \<and> \<not> requestCredentials t sc then EGTS_PC_AUTH_DENIED else scanCode sc)"

section \<open>Enqueueing\<close>

text \<open>
  An admitted packet goes to the queue. The result is the packet's code and whether the
  connection goes on: in the \<open>delivered\<close> mode it waits for the delivery first.
\<close>

definition submit :: "exchange_env \<Rightarrow> bytes \<Rightarrow> Packet \<Rightarrow> terminal \<Rightarrow> auth_scan \<Rightarrow> server \<Rightarrow>
    (u8 \<times> bool \<times> server) option" where
  "submit env raw pkg t sc s =
     (case enqueue \<lparr>ReceivedAt = envNow env, RecSource = nextSource sc, RecPacket = pkg, RecRaw = raw\<rparr>
         (Some \<lparr>session = connSession t, identity = nextRelayIdentity sc\<rparr>) s of
        None \<Rightarrow> None
      | Some (Inl err, s') \<Rightarrow>
          Some (if errors_Is err ErrRelayCredentials then EGTS_PC_INC_DATAFORM else EGTS_PC_NO_RES_AVAIL, True, s')
      | Some (Inr a, s') \<Rightarrow>
          Some (EGTS_PC_OK, AckMode (DeliveryCfg (cfg s)) \<noteq> ''delivered'' \<or> envDelivered env, s'))"

definition dispose :: "exchange_env \<Rightarrow> bytes \<Rightarrow> Packet \<Rightarrow> terminal \<Rightarrow> auth_scan \<Rightarrow> server \<Rightarrow>
    (u8 \<times> bool \<times> server) option" where
  "dispose env raw pkg t sc s =
     (if admit t sc = EGTS_PC_OK \<and> \<not> requestCredentials t sc then submit env raw pkg t sc s
      else Some (admit t sc, True, s))"

section \<open>Answering\<close>

text \<open>The services of the response get the connection's record numbers.\<close>

fun renumber :: "u16 \<Rightarrow> ServicesFrameData \<Rightarrow> (ServicesFrameData \<times> u16) option" where
  "renumber rn [] = Some ([], rn)"
| "renumber rn (None # ss) = None"
| "renumber rn (Some s # ss) =
     (case renumber (rn + 1) ss of
        None \<Rightarrow> None
      | Some (ss', rn') \<Rightarrow> Some (Some (s\<lparr>RecordNumber := rn + 1\<rparr>) # ss', rn'))"

text \<open>The answer with its record numbers and the last of them.\<close>

definition numbered_answer :: "Packet \<Rightarrow> u16 \<Rightarrow> u16 \<Rightarrow> (Packet \<times> u16) option" where
  "numbered_answer pkg rn pid =
     (let answer = PrepareAnswer (Some pkg) rn pid in
      case PacketServicesFrameData answer of
        Some (FD_Response (Some response)) \<Rightarrow>
          (case SDR response of
             None \<Rightarrow> Some (answer, rn)
           | Some (RD_SFRD (Some services)) \<Rightarrow>
               (case renumber rn services of
                  None \<Rightarrow> None
                | Some (services', rn') \<Rightarrow>
                    Some (answer\<lparr>PacketServicesFrameData :=
                      Some (FD_Response (Some (response\<lparr>SDR := Some (RD_SFRD (Some services'))\<rparr>)))\<rparr>, rn'))
           | Some _ \<Rightarrow> None)
      | _ \<Rightarrow> None)"

text \<open>The authentication result, or the request for credentials in its place.\<close>

definition auth_result :: "bool \<Rightarrow> u8 \<Rightarrow> u16 \<Rightarrow> u16 \<Rightarrow> Packet" where
  "auth_result request code rn pid =
     (let result = PrepareSRResultCode code rn pid in
      if \<not> request then result
      else
        (case PacketServicesFrameData result of
           Some (FD_SFRD (Some (Some s # ss))) \<Rightarrow> result\<lparr>PacketServicesFrameData := Some (FD_SFRD (Some (Some
             (s\<lparr>RecordsData := (RecordsData s)[0 := Some \<lparr>SubrecordType = AuthParams, SubrecordLength = 1,
                SubrecordData = Some (SD_AuthParams (Some \<lparr>Flags = 0\<rparr>))\<rparr>]\<rparr>) # ss)))\<rparr>
         | _ \<Rightarrow> result))"

definition write_frame :: "exchange_env \<Rightarrow> nat \<Rightarrow> string \<Rightarrow> bytes \<Rightarrow> goerr option" where
  "write_frame env i msg encoded =
     (case envWrite env i encoded of
        (n, Some e) \<Rightarrow> Some (Wrapf msg e)
      | (n, None) \<Rightarrow> if n \<noteq> length encoded then Some ErrShortWrite else None)"

datatype verdict = Goes_on | Returns "goerr option"

text \<open>The end of a turn, with the packet's final code.\<close>

definition conclude :: "u8 \<Rightarrow> auth_scan \<Rightarrow> terminal \<Rightarrow> verdict \<times> terminal" where
  "conclude code sc t =
     (if code = EGTS_PC_AUTH_DENIED then Returns None else Goes_on,
      if code = EGTS_PC_OK
      then t\<lparr>authorized := nextAuthorized sc, source := nextSource sc, relayIdentity := nextRelayIdentity sc\<rparr>
      else t)"

text \<open>
  Behind the decision: the response, the authentication result when the packet asked for one,
  and the new state. Also gives the frames passed to \<open>Write\<close>.
\<close>

definition answer_frame :: "exchange_env \<Rightarrow> Packet \<Rightarrow> bool \<Rightarrow> auth_scan \<Rightarrow> bool \<Rightarrow> terminal \<Rightarrow>
    (verdict \<times> bytes list \<times> terminal) option" where
  "answer_frame env pkg decoded sc request t =
     (case numbered_answer pkg (connRn t) (connPid t + 1) of
        None \<Rightarrow> None
      | Some (answer, rn) \<Rightarrow>
          (let t1 = t\<lparr>connPid := connPid t + 1, connRn := rn\<rparr> in
           case Packet_Encode (Some answer) of
             Inl e \<Rightarrow> Some (Returns (Some e), [], t1)
           | Inr encoded \<Rightarrow>
               if envDeadline env \<noteq> None then Some (Returns (envDeadline env), [], t1)
               else
                 (case write_frame env 0 ''Can't write EGTS response'' encoded of
                    Some e \<Rightarrow> Some (Returns (Some e), [encoded], t1)
                  | None \<Rightarrow>
                      if authRequest sc \<and> decoded then
                        (let t2 = t1\<lparr>connPid := connPid t1 + 1, connRn := rn + 1\<rparr> in
                         case Packet_Encode (Some (auth_result request (ErrorCode pkg) (rn + 1) (connPid t1 + 1))) of
                           Inl e \<Rightarrow> Some (Returns (Some e), [encoded], t2)
                         | Inr encoded2 \<Rightarrow>
                             (case write_frame env 1 ''Can't write EGTS authentication result'' encoded2 of
                                Some e \<Rightarrow> Some (Returns (Some e), [encoded, encoded2], t2)
                              | None \<Rightarrow>
                                  (case conclude (ErrorCode pkg) sc t2 of
                                     (v, t3) \<Rightarrow> Some (v, [encoded, encoded2], t3))))
                      else
                        (case conclude (ErrorCode pkg) sc t1 of (v, t3) \<Rightarrow> Some (v, [encoded], t3)))))"

section \<open>One frame\<close>

definition handle_frame :: "exchange_env \<Rightarrow> bytes \<Rightarrow> server \<Rightarrow> terminal \<Rightarrow>
    (verdict \<times> bytes list \<times> server \<times> terminal) option" where
  "handle_frame env raw s t =
     (let (pkg, decodeErr) = ReadPacket raw in
      if PacketType pkg \<noteq> EGTS_PT_APPDATA then Some (Goes_on, [], s, t)
      else if decodeErr \<noteq> None then
        (case answer_frame env pkg False (no_scan t (ErrorCode pkg)) False t of
           None \<Rightarrow> None
         | Some (v, out, t') \<Rightarrow> Some (v, out, s, t'))
      else
        (case PacketServicesFrameData pkg of
           Some (FD_SFRD (Some services)) \<Rightarrow>
             (case scan_auth (AuthCfg (cfg s)) (connSession t) services (no_scan t (ErrorCode pkg)) of
                None \<Rightarrow> None
              | Some (Inl e) \<Rightarrow> Some (Returns (Some e), [], s, t)
              | Some (Inr sc) \<Rightarrow>
                  (case dispose env raw pkg t sc s of
                     None \<Rightarrow> None
                   | Some (code, False, s') \<Rightarrow> Some (Returns None, [], s', t)
                   | Some (code, True, s') \<Rightarrow>
                       (case answer_frame env (pkg\<lparr>ErrorCode := code\<rparr>) True sc (requestCredentials t sc) t of
                          None \<Rightarrow> None
                        | Some (v, out, t') \<Rightarrow> Some (v, out, s', t'))))
         | _ \<Rightarrow> None))"

section \<open>The connection\<close>

function handle_frames :: "(nat \<Rightarrow> exchange_env) \<Rightarrow> nat \<Rightarrow> conn \<Rightarrow> server \<Rightarrow> terminal \<Rightarrow>
    (goerr option \<times> bytes list \<times> server) option" where
  "handle_frames env n c s t =
     (case ReadFrame c of
        Inl e \<Rightarrow> Some (if errors_Is e EOF then None else Some (Wrapf ''Can't read EGTS packet'' e), [], s)
      | Inr (raw, c') \<Rightarrow>
          (case handle_frame (env n) raw (envWorld (env n) s) t of
             None \<Rightarrow> None
           | Some (Returns e, out, s', t') \<Rightarrow> Some (e, out, s')
           | Some (Goes_on, out, s', t') \<Rightarrow>
               (case handle_frames env (n + 1) c' s' t' of
                  None \<Rightarrow> None
                | Some (e, out', s'') \<Rightarrow> Some (e, out @ out', s''))))"
  by auto
termination
  by (relation "measure (\<lambda>(env, n, c, s, t). length (fst c))") (auto dest: frames.shorter)

declare handle_frames.simps [simp del]

definition finish_session :: "nat option \<Rightarrow> server \<Rightarrow> server" where
  "finish_session sess s =
     (case sess of
        None \<Rightarrow> s
      | Some sid \<Rightarrow> (case endRelaySession sid s of (fin, s') \<Rightarrow> if fin then close_session sid s' else s'))"

definition handleConnection :: "string result \<Rightarrow> string \<Rightarrow> (nat \<Rightarrow> exchange_env) \<Rightarrow> conn \<Rightarrow> server \<Rightarrow>
    (goerr option \<times> bytes list \<times> server) option" where
  "handleConnection random addr env c s =
     (let t = \<lparr>authorized = \<not> AuthEnabled (AuthCfg (cfg s)), source = \<lparr>RemoteAddress = addr, TerminalID = None\<rparr>,
        connPid = 0, connRn = 0, connSession = None, relayIdentity = []\<rparr> in
      if DestEGTS (dests s) \<noteq> [] then
        (case newRelaySession random s of
           (Inl e, s') \<Rightarrow> Some (Some e, [], s')
         | (Inr sess, s') \<Rightarrow>
             (case handle_frames env 0 c s' (t\<lparr>connSession := sess\<rparr>) of
                None \<Rightarrow> None
              | Some (e, out, s'') \<Rightarrow> Some (e, out, finish_session sess s'')))
      else handle_frames env 0 c s t)"

end
