(* ===== verification/Connection_Lemmas.thy ===== *)
theory Connection_Lemmas
  imports Connection Answer_Properties
begin

text \<open>
  What one turn of a connection's loop does: it never panics, and its effects on the terminal's
  state, on the shared state and on the wire, branch by branch.
\<close>

section \<open>Decoded packets are free of nil pointers\<close>

text \<open>An identity that was decoded encodes again, so the relay can keep it.\<close>

fun pointed :: "SubData \<Rightarrow> bool" where
  "pointed (SD_TermIdentity None) = False"
| "pointed (SD_TermIdentity (Some d)) = (\<exists>b. SRTermIdentity_Encode (Some d) = Inr b \<and> SRTermIdentity_Decode b = Inr d)"
| "pointed (SD_AuthInfo None) = False"
| "pointed (SD_RecordResponse None) = False"
| "pointed (SD_ResultCode None) = False"
| "pointed (SD_AuthParams None) = False"
| "pointed _ = True"

definition sound_record :: "RecordData option \<Rightarrow> bool" where
  "sound_record rd \<longleftrightarrow> (case rd of None \<Rightarrow> False | Some rd \<Rightarrow>
     (case SubrecordData rd of None \<Rightarrow> True | Some d \<Rightarrow> pointed d))"

definition sound_services :: "ServicesFrameData \<Rightarrow> bool" where
  "sound_services ss \<longleftrightarrow> list_all (\<lambda>s. case s of None \<Rightarrow> False | Some s \<Rightarrow> list_all sound_record (RecordsData s)) ss"

lemma new_SubData_pointed: "new_SubData t = Some dec \<Longrightarrow> dec b = Inr d \<Longrightarrow> pointed d"
  by (auto simp: new_SubData_def simp del: SRTermIdentity_Encode.simps split: if_splits)
    (metis TermIdentity_exact TermIdentity_roundtrip)

lemma RecordsData_Decode_sound: "RecordsData_Decode bs = Inr rs \<Longrightarrow> list_all sound_record rs"
  by (rule RecordsData_Decode_all)
    (auto simp: RecordData_step_Inr sound_record_def dest: new_SubData_pointed)

lemma ServicesFrameData_Decode_sound: "ServicesFrameData_Decode bs = Inr rs \<Longrightarrow> sound_services rs"
  unfolding sound_services_def by (rule ServicesFrameData_Decode_all) (auto dest: RecordsData_Decode_sound)

lemma decoded_services:
  assumes "ReadPacket b = (p, None)" "PacketType p = EGTS_PT_APPDATA"
  obtains ss where "PacketServicesFrameData p = Some (FD_SFRD (Some ss))" "nil_free ss" "sound_services ss"
    "ErrorCode p = EGTS_PC_OK"
proof -
  from assms obtain data where "decodes_to (PacketType p) data (PacketServicesFrameData p)" "ErrorCode p = 0"
    by (auto simp: ReadPacket_spec packet_spec_def)
  with assms(2) show thesis
    by (auto simp: decodes_to_def codes dest: ServicesFrameData_Decode_nil_free ServicesFrameData_Decode_sound
        intro: that)
qed

section \<open>No panics\<close>

lemma scan_data_total: "sound_record rd \<Longrightarrow> \<exists>sc'. scan_data auth sess rd sc = Some (Inr sc')"
  by (cases rd) (auto simp: sound_record_def scan_identity_def Let_def simp del: SRTermIdentity_Encode.simps
      split: option.splits SubData.splits)

lemma scan_auth_records_total: "list_all sound_record rds \<Longrightarrow> \<exists>sc'. scan_auth_records auth sess rds sc = Some (Inr sc')"
proof (induction rds arbitrary: sc)
  case (Cons rd rds)
  then obtain sc' where "scan_data auth sess rd sc = Some (Inr sc')"
    using scan_data_total [of rd auth sess sc] by auto
  with Cons show ?case by simp
qed simp

lemma scan_auth_total: "sound_services ss \<Longrightarrow> \<exists>sc'. scan_auth auth sess ss sc = Some (Inr sc')"
proof (induction ss arbitrary: sc)
  case (Cons s ss)
  then obtain r where r: "s = Some r" "list_all sound_record (RecordsData r)" "sound_services ss"
    by (cases s) (auto simp: sound_services_def)
  then obtain sc' where "scan_auth_records auth sess (RecordsData r) sc = Some (Inr sc')"
    using scan_auth_records_total by blast
  with r Cons.IH [OF r(3)] show ?case by simp
qed simp

lemma relay_targets_total: "sr \<noteq> None \<Longrightarrow> relay_targets sr relay cs ids \<noteq> None"
  by (induction cs arbitrary: ids) (auto split: option.splits sum.splits bool.splits)

lemma enqueue_total: "shouldRelay (RecPacket r) \<noteq> None \<Longrightarrow> enqueue r relay s \<noteq> None"
  using relay_targets_total [of "shouldRelay (RecPacket r)" relay "DestEGTS (dests s)" "{}"]
  by (auto simp: enqueue_def Let_def split: option.splits sum.splits)

lemma shouldRelay_total:
  assumes "ReadPacket b = (p, None)" "PacketType p = EGTS_PT_APPDATA"
  shows "shouldRelay p \<noteq> None"
  by (rule decoded_services [OF assms]) (simp add: shouldRelay_eq [OF assms(2)])

lemma renumber_total: "None \<notin> set ss \<Longrightarrow> renumber rn ss \<noteq> None"
  by (induction rn ss rule: renumber.induct) auto

lemma numbered_answer_total: "PacketType p = EGTS_PT_APPDATA \<Longrightarrow> numbered_answer p rn pid \<noteq> None"
  using renumber_total [of "map Some (snd (answer_data p rn))" rn]
  by (auto simp: numbered_answer_def PrepareAnswer_eq response_packet_def answer_response_def)

lemma answer_frame_total:
  "PacketType p = EGTS_PT_APPDATA \<Longrightarrow> answer_frame env p decoded sc request t \<noteq> None"
  using numbered_answer_total [of p "connRn t" "connPid t + 1"]
  by (auto simp: answer_frame_def Let_def simp del: Packet_Encode.simps split: option.splits sum.splits prod.splits)

lemma submit_total:
  assumes "ReadPacket b = (p, None)" "PacketType p = EGTS_PT_APPDATA"
  shows "submit env raw p t sc s \<noteq> None"
  using enqueue_total [of "\<lparr>ReceivedAt = envNow env, RecSource = nextSource sc, RecPacket = p, RecRaw = raw\<rparr>"]
    shouldRelay_total [OF assms]
  by (auto simp: submit_def split: option.splits sum.splits prod.splits)

lemma dispose_total:
  "ReadPacket b = (p, None) \<Longrightarrow> PacketType p = EGTS_PT_APPDATA \<Longrightarrow> dispose env raw p t sc s \<noteq> None"
  using submit_total [of b p env raw t sc s] by (auto simp: dispose_def)

section \<open>The branches of a turn\<close>

text \<open>One turn takes one of four ways.\<close>

lemma handle_frame_branches:
  obtains (ignored) "PacketType (fst (ReadPacket raw)) \<noteq> EGTS_PT_APPDATA"
    "handle_frame env raw s t = Some (Goes_on, [], s, t)"
  | (refused) p e v out t' where "ReadPacket raw = (p, Some e)" "PacketType p = EGTS_PT_APPDATA"
    "answer_frame env p False (no_scan t (ErrorCode p)) False t = Some (v, out, t')"
    "handle_frame env raw s t = Some (v, out, s, t')"
  | (cut_off) p ss sc code s' where "ReadPacket raw = (p, None)" "PacketType p = EGTS_PT_APPDATA"
    "PacketServicesFrameData p = Some (FD_SFRD (Some ss))"
    "scan_auth (AuthCfg (cfg s)) (connSession t) ss (no_scan t EGTS_PC_OK) = Some (Inr sc)"
    "dispose env raw p t sc s = Some (code, False, s')"
    "handle_frame env raw s t = Some (Returns None, [], s', t)"
  | (answered) p ss sc code s' v out t' where "ReadPacket raw = (p, None)" "PacketType p = EGTS_PT_APPDATA"
    "PacketServicesFrameData p = Some (FD_SFRD (Some ss))" "ErrorCode p = EGTS_PC_OK"
    "scan_auth (AuthCfg (cfg s)) (connSession t) ss (no_scan t EGTS_PC_OK) = Some (Inr sc)"
    "dispose env raw p t sc s = Some (code, True, s')"
    "answer_frame env (p\<lparr>ErrorCode := code\<rparr>) True sc (requestCredentials t sc) t = Some (v, out, t')"
    "handle_frame env raw s t = Some (v, out, s', t')"
proof -
  obtain p d where r: "ReadPacket raw = (p, d)" by force
  show thesis
  proof (cases "PacketType p = EGTS_PT_APPDATA")
    case type: True
    show thesis
    proof (cases d)
      case None
      with r have r: "ReadPacket raw = (p, None)" by simp
      obtain ss where ss: "PacketServicesFrameData p = Some (FD_SFRD (Some ss))" "sound_services ss"
        "ErrorCode p = EGTS_PC_OK"
        by (rule decoded_services [OF r type])
      obtain sc where sc: "scan_auth (AuthCfg (cfg s)) (connSession t) ss (no_scan t EGTS_PC_OK) = Some (Inr sc)"
        using scan_auth_total [OF ss(2)] by blast
        obtain code go s' where d: "dispose env raw p t sc s = Some (code, go, s')"
          using dispose_total [OF r type, of env raw t sc s] by auto
        show thesis
        proof (cases go)
          case True
          obtain v out t' where a: "answer_frame env (p\<lparr>ErrorCode := code\<rparr>) True sc (requestCredentials t sc) t = Some (v, out, t')"
            using answer_frame_total [of "p\<lparr>ErrorCode := code\<rparr>" env True sc "requestCredentials t sc" t] type by auto
          from d a True sc r type ss show thesis
            by (intro answered [of p ss sc code s' v out t']) (simp_all add: handle_frame_def)
        next
          case False
          with d sc r type ss show thesis by (intro cut_off) (simp_all add: handle_frame_def)
        qed
    next
      case (Some e)
      obtain v out t' where a: "answer_frame env p False (no_scan t (ErrorCode p)) False t = Some (v, out, t')"
        using answer_frame_total [OF type, of env False "no_scan t (ErrorCode p)" False t] by auto
      with r Some type show thesis by (intro refused [of p e v out t']) (simp_all add: handle_frame_def)
    qed
  next
    case False
    with r show thesis by (intro ignored) (simp_all add: handle_frame_def)
  qed
qed

lemma handle_frame_total: "handle_frame env raw s t \<noteq> None"
  by (rule handle_frame_branches [of raw env s t]) auto

lemma handle_frames_total: "handle_frames env n c s t \<noteq> None"
proof (induction env n c s t rule: handle_frames.induct)
  case (1 env n c s t)
  show ?case
  proof (cases "ReadFrame c")
    case (Inr rc)
    obtain raw c' where rc: "rc = (raw, c')" by (cases rc)
    obtain v out s' t' where h: "handle_frame (env n) raw (envWorld (env n) s) t = Some (v, out, s', t')"
      using handle_frame_total [of "env n" raw "envWorld (env n) s" t] by auto
    show ?thesis
    proof (cases v)
      case Goes_on
      with "1.IH" [OF Inr rc [symmetric] h] Inr rc h show ?thesis
        by (subst handle_frames.simps) (auto split: option.splits)
    next
      case (Returns e)
      with Inr rc h show ?thesis by (subst handle_frames.simps) simp
    qed
  qed (subst handle_frames.simps, simp)
qed

section \<open>The response\<close>

text \<open>The response of a packet takes the same room whatever its record numbers are.\<close>

definition small_packet :: "Packet \<Rightarrow> bool" where
  "small_packet p \<longleftrightarrow> (case PacketServicesFrameData p of
     Some (FD_SFRD (Some incoming)) \<Rightarrow> length (data_records incoming) \<le> 5039 | _ \<Rightarrow> True)"

lemma small_packetD:
  "small_packet p \<Longrightarrow> PacketServicesFrameData p = Some (FD_SFRD (Some incoming)) \<Longrightarrow> length (data_records incoming) \<le> 5039"
  by (simp add: small_packet_def)

lemma small_packet_code [simp]: "small_packet (p\<lparr>ErrorCode := c\<rparr>) = small_packet p"
  by (simp add: small_packet_def)

lemma answer_data_cases:
  obtains "\<And>n. answer_data p n = (fst (answer_data p 0), [])"
  | incoming where "\<And>n. answer_data p n = (EGTS_PC_OK, answer_services n (data_records incoming))"
    "PacketServicesFrameData p = Some (FD_SFRD (Some incoming))" "data_records incoming \<noteq> []"
proof (cases "ErrorCode p = EGTS_PC_OK \<and> (\<exists>ss. PacketServicesFrameData p = Some (FD_SFRD (Some ss)) \<and>
    nil_free ss \<and> data_records ss \<noteq> [])")
  case True
  then show thesis by (auto simp: answer_data_def intro: that(2))
next
  case False
  then have "answer_data p n = (fst (answer_data p 0), [])" for n
    by (auto simp: answer_data_def split: option.splits FrameData.splits)
  then show thesis by (rule that(1))
qed

lemma PTResponse_Len_answer:
  assumes "small_packet p"
  shows "PTResponse_Len (Some (answer_response p n)) = PTResponse_Len (Some (answer_response p m))"
proof (cases rule: answer_data_cases [of p])
  case 1
  have "answer_data p n = answer_data p m" by (simp add: 1 [of n] 1 [of m])
  then show ?thesis by (simp add: answer_response_def)
next
  case (2 incoming)
  let ?rs = "data_records incoming"
  note small = small_packetD [OF assms 2(2)]
  have e: "PTResponse_Encode (Some (answer_response p n)) =
      Inr (PutUint16 (PacketID p) @ [EGTS_PC_OK] @ SFRD_bytes (map Some (answer_services n ?rs)))" for n
  proof -
    have len: "length (SFRD_bytes (map Some (answer_services n ?rs))) \<le> 65507"
      using answer_services_wf(2) [OF small, of n] small by linarith
    moreover have "wf_SFRD (map Some (answer_services n ?rs))"
      using len answer_services_wf(1) [OF small, of n] by (simp add: wf_SFRD_def)
    ultimately show ?thesis
      using 2(3) by (simp add: answer_response_def 2(1) SFRD_roundtrip(1) del: ServicesFrameData_Encode.simps)
  qed
  show ?thesis
    unfolding PTResponse_Len_def e by (simp only: Len_of_simps length_append length_answer_services)
qed

lemma renumber_services:
  "renumber (rn + word_of_nat m) (map Some (map (\<lambda>(i, k). service_for (n + word_of_nat i) k (f k)) (enumerate m ks))) =
   Some (map Some (map (\<lambda>(i, k). service_for (rn + 1 + word_of_nat i) k (f k)) (enumerate m ks)),
     rn + word_of_nat (m + length ks))"
proof (induction ks arbitrary: m)
  case (Cons k ks)
  have "(service_for a k (f k))\<lparr>RecordNumber := b\<rparr> = service_for b k (f k)" for a b
    by (simp add: service_for_def)
  with Cons [of "Suc m"] show ?case by (simp add: algebra_simps)
qed simp

lemma renumber_answer:
  "renumber rn (map Some (answer_services rn rs)) =
   Some (map Some (answer_services (rn + 1) rs), rn + word_of_nat (length (answer_services rn rs)))"
  using renumber_services [of rn 0 rn "numbers_for rs" "first_pairs rs"] by (simp add: answer_services_def)

lemma numbered_answer_eq:
  assumes "PacketType p = EGTS_PT_APPDATA" "small_packet p"
  shows "numbered_answer p rn pid = Some (response_packet pid (answer_response p (rn + 1)),
    rn + word_of_nat (length (snd (answer_data p rn))))"
proof -
  note len = PTResponse_Len_answer [OF assms(2), of rn "rn + 1"]
  show ?thesis
  proof (cases rule: answer_data_cases [of p])
    case 1
    have "answer_data p (rn + 1) = answer_data p rn" by (simp add: 1 [of rn] 1 [of "rn + 1"])
    then show ?thesis
      using 1 [of rn] assms(1)
      by (simp add: numbered_answer_def PrepareAnswer_eq response_packet_def answer_response_def)
  next
    case (2 incoming)
    then show ?thesis
      using assms(1) len
      by (simp add: numbered_answer_def PrepareAnswer_eq response_packet_def answer_response_def renumber_answer)
  qed
qed

lemma numbered_answer_read:
  assumes "PacketType p = EGTS_PT_APPDATA" "small_packet p"
  obtains b q where
    "numbered_answer p rn pid = Some (response_packet pid (answer_response p (rn + 1)),
       rn + word_of_nat (length (snd (answer_data p rn))))"
    "Packet_Encode (Some (response_packet pid (answer_response p (rn + 1)))) = Inr b"
    "ReadPacket b = (q, None)" "PacketType q = EGTS_PT_RESPONSE" "PacketID q = pid"
    "PacketServicesFrameData q = Some (FD_Response (Some (answer_response p (rn + 1))))"
proof (rule answer_read [OF assms(1), of "rn + 1" pid])
  show "length (data_records incoming) \<le> 5039"
    if "PacketServicesFrameData p = Some (FD_SFRD (Some incoming))" for incoming
    using that assms(2) by (rule small_packetD [rotated])
qed (use numbered_answer_eq [OF assms, of rn pid] PrepareAnswer_eq [OF assms(1), of "rn + 1" pid] that in
    \<open>simp_all del: Packet_Encode.simps\<close>)

section \<open>The authentication result\<close>

definition params_record :: "RecordData option" where
  "params_record = Some \<lparr>SubrecordType = AuthParams, SubrecordLength = 1,
     SubrecordData = Some (SD_AuthParams (Some \<lparr>Flags = 0\<rparr>))\<rparr>"

definition params_service :: "u16 \<Rightarrow> ServiceDataRecord" where
  "params_service n = (result_service 0 n)\<lparr>RecordsData := [params_record]\<rparr>"

lemma params_record_bytes [simp]: "record_bytes params_record = [6, 1, 0, 0]"
  by (simp add: record_bytes_def params_record_def codes PutUint16_def)

lemma wf_params_record: "wf_Record params_record"
  by (simp add: wf_Record_def params_record_def codes)

lemma wf_params_service:
  "wf_SDR (Some (params_service n))" "length (SDR_bytes (Some (params_service n))) = 11"
proof -
  have f: "SDR_flags 0x40 (params_service n)"
    by (simp add: SDR_flags_def params_service_def result_service_def bitstr_def bitc_def)
  note fb = SDR_flag_byte_eq [OF f]
  show "wf_SDR (Some (params_service n))"
    using f by (simp add: wf_SDR_def fb)
      (simp add: params_service_def result_service_def SDR_absent_def wf_params_record)
  show "length (SDR_bytes (Some (params_service n))) = 11"
    by (simp add: SDR_bytes_def SDR_header_def fb) (simp add: params_service_def result_service_def flag_bytes_def)
qed

definition auth_service_for :: "bool \<Rightarrow> u8 \<Rightarrow> u16 \<Rightarrow> ServiceDataRecord" where
  "auth_service_for request c n = (if request then params_service n else result_service c n)"

lemma auth_result_eq:
  "auth_result request c n pid = (PrepareSRResultCode c n pid)
     \<lparr>PacketServicesFrameData := Some (FD_SFRD (Some [Some (auth_service_for request c n)]))\<rparr>"
  by (simp add: auth_result_def PrepareSRResultCode_eq auth_service_for_def params_service_def params_record_def
      result_service_def)

lemma wf_auth_service: "wf_SDR (Some (auth_service_for request c n))"
  "length (SDR_bytes (Some (auth_service_for request c n))) = 11"
  by (simp_all add: auth_service_for_def wf_params_service wf_result_service)

lemma auth_result_wf: "wf_Packet (auth_result request c n pid)"
proof -
  have wf: "wf_SFRD [Some (auth_service_for request c n)]"
    using wf_auth_service [of request c n] by (simp add: wf_SFRD_def)
  note enc = SFRD_roundtrip(1) [OF wf]
  show ?thesis
    using wf wf_auth_service(2) [of request c n]
    by (simp add: auth_result_eq PrepareSRResultCode_eq wf_Packet_def Packet0_def wf_header_def header_ok_def
        wf_data_def fits_def encode_data_def codes enc del: ServicesFrameData_Encode.simps)
qed

lemma auth_result_read:
  obtains b q where "Packet_Encode (Some (auth_result request c n pid)) = Inr b"
    "ReadPacket b = (q, None)" "PacketType q = EGTS_PT_APPDATA" "PacketID q = pid"
    "PacketServicesFrameData q = Some (FD_SFRD (Some [Some (auth_service_for request c n)]))"
proof -
  obtain w data where e: "Packet_Encode (Some (auth_result request c n pid)) =
      Inr (frame_of w data (sealed w data (auth_result request c n pid)))"
    and r: "ReadPacket (frame_of w data (sealed w data (auth_result request c n pid))) =
      (sealed w data (auth_result request c n pid), None)"
    using Packet_roundtrip_sealed [OF auth_result_wf] by blast
  show thesis
    by (rule that [OF e r]) (simp_all add: auth_result_eq PrepareSRResultCode_eq sealed_def Packet0_def)
qed

section \<open>What is on the wire\<close>

text \<open>The first frame is the response, the second, if there is one, the authentication result.\<close>

lemma conclude_fields [simp]:
  "connPid (snd (conclude c sc t)) = connPid t" "connRn (snd (conclude c sc t)) = connRn t"
  "connSession (snd (conclude c sc t)) = connSession t"
  "fst (conclude c sc t) = (if c = EGTS_PC_AUTH_DENIED then Returns None else Goes_on)"
  by (simp_all add: conclude_def)

definition response_frame :: "bytes \<Rightarrow> Packet \<Rightarrow> terminal \<Rightarrow> bool" where
  "response_frame b p t \<longleftrightarrow> (\<exists>q. ReadPacket b = (q, None) \<and> PacketType q = EGTS_PT_RESPONSE \<and>
     PacketID q = connPid t + 1 \<and>
     PacketServicesFrameData q = Some (FD_Response (Some (answer_response p (connRn t + 1)))))"

definition result_frame :: "bytes \<Rightarrow> bool \<Rightarrow> u8 \<Rightarrow> terminal \<Rightarrow> terminal \<Rightarrow> bool" where
  "result_frame b request c t t' \<longleftrightarrow> (\<exists>q. ReadPacket b = (q, None) \<and> PacketType q = EGTS_PT_APPDATA \<and>
     PacketID q = connPid t + 2 \<and>
     PacketServicesFrameData q = Some (FD_SFRD (Some [Some (auth_service_for request c (connRn t'))])))"

lemma answer_frame_cases:
  assumes "answer_frame env p decoded sc request t = Some (v, out, t')" "PacketType p = EGTS_PT_APPDATA" "small_packet p"
  shows "length out \<le> 2"
    and "out \<noteq> [] \<Longrightarrow> response_frame (hd out) p t"
    and "length out = 2 \<Longrightarrow> authRequest sc \<and> decoded \<and> result_frame (out ! 1) request (ErrorCode p) t t'"
    and "out \<noteq> [] \<Longrightarrow> connPid t' = connPid t + word_of_nat (length out)"
    and "v \<noteq> Goes_on \<and> v \<noteq> Returns None \<or> out \<noteq> [] \<and>
      v = fst (conclude (ErrorCode p) sc t) \<and> (length out = 2 \<longleftrightarrow> authRequest sc \<and> decoded)"
proof -
  obtain b q where n: "numbered_answer p (connRn t) (connPid t + 1) =
      Some (response_packet (connPid t + 1) (answer_response p (connRn t + 1)),
       connRn t + word_of_nat (length (snd (answer_data p (connRn t)))))"
    and b: "Packet_Encode (Some (response_packet (connPid t + 1) (answer_response p (connRn t + 1)))) = Inr b"
    and r: "ReadPacket b = (q, None)" "PacketType q = EGTS_PT_RESPONSE" "PacketID q = connPid t + 1"
    "PacketServicesFrameData q = Some (FD_Response (Some (answer_response p (connRn t + 1))))"
    by (rule numbered_answer_read [OF assms(2,3)])
  have rf: "response_frame b p t" using r by (simp add: response_frame_def)
  let ?rn = "connRn t + word_of_nat (length (snd (answer_data p (connRn t))))"
  let ?t1 = "t\<lparr>connPid := connPid t + 1, connRn := ?rn\<rparr>"
  let ?t2 = "t\<lparr>connPid := connPid t + 2, connRn := ?rn + 1\<rparr>"
  obtain b2 q2 where b2: "Packet_Encode (Some (auth_result request (ErrorCode p) (?rn + 1) (connPid t + 2))) = Inr b2"
    and r2: "ReadPacket b2 = (q2, None)" "PacketType q2 = EGTS_PT_APPDATA" "PacketID q2 = connPid t + 2"
    "PacketServicesFrameData q2 = Some (FD_SFRD (Some [Some (auth_service_for request (ErrorCode p) (?rn + 1))]))"
    by (rule auth_result_read)
  have rf2: "result_frame b2 request (ErrorCode p) t t'" if "connRn t' = ?rn + 1" for t'
    using r2 that by (simp add: result_frame_def)
  have two: "connPid t + 1 + 1 = connPid t + 2" by simp
  consider (none) e where "v = Returns (Some e)" "out = []"
    | (first) e where "v = Returns (Some e)" "out = [b]" "t' = ?t1"
    | (second) e where "v = Returns (Some e)" "out = [b, b2]" "t' = ?t2" "authRequest sc" "decoded"
    | (both) "conclude (ErrorCode p) sc ?t2 = (v, t')" "out = [b, b2]" "authRequest sc" "decoded"
    | (one) "conclude (ErrorCode p) sc ?t1 = (v, t')" "out = [b]" "\<not> (authRequest sc \<and> decoded)"
    using assms(1) unfolding answer_frame_def n
    by (auto simp: Let_def b two b2 simp del: Packet_Encode.simps split: option.splits if_splits prod.splits)
  note split = this
  show "length out \<le> 2" using split by cases auto
  show "response_frame (hd out) p t" if "out \<noteq> []" using split that rf by cases auto
  have c: "conclude (ErrorCode p) sc t = (v, t') \<Longrightarrow> connPid t' = connPid t \<and> connRn t' = connRn t" for t
    using conclude_fields [of "ErrorCode p" sc t] by simp
  show "authRequest sc \<and> decoded \<and> result_frame (out ! 1) request (ErrorCode p) t t'" if "length out = 2"
    using split that rf2 by cases (auto dest: c)
  show "connPid t' = connPid t + word_of_nat (length out)" if "out \<noteq> []"
    using split that by cases (auto dest: c)
  show "v \<noteq> Goes_on \<and> v \<noteq> Returns None \<or> out \<noteq> [] \<and>
      v = fst (conclude (ErrorCode p) sc t) \<and> (length out = 2 \<longleftrightarrow> authRequest sc \<and> decoded)"
    using split conclude_fields(4) [of "ErrorCode p" sc] by cases (force simp: conclude_def)+
qed

text \<open>What the connection keeps of a turn after which it goes on.\<close>

lemma answer_frame_state:
  assumes "answer_frame env p decoded sc request t = Some (Goes_on, out, t')"
  shows "ErrorCode p \<noteq> EGTS_PC_AUTH_DENIED \<and> connSession t' = connSession t \<and>
    authorized t' = (if ErrorCode p = EGTS_PC_OK then nextAuthorized sc else authorized t) \<and>
    source t' = (if ErrorCode p = EGTS_PC_OK then nextSource sc else source t) \<and>
    relayIdentity t' = (if ErrorCode p = EGTS_PC_OK then nextRelayIdentity sc else relayIdentity t)"
  using assms
  by (auto simp: answer_frame_def Let_def conclude_def simp del: Packet_Encode.simps
      split: option.splits sum.splits prod.splits if_splits)

lemma answer_frame_authorized:
  assumes "answer_frame env p decoded sc request t = Some (v, out, t')" "authorized t'"
  shows "authorized t \<or> nextAuthorized sc"
  using assms
  by (auto simp: answer_frame_def Let_def conclude_def simp del: Packet_Encode.simps
      split: option.splits sum.splits prod.splits if_splits)

end
