(* ===== verification/Delivery.thy ===== *)
theory Delivery
  imports Gateway_State
begin

text \<open>
  The delivery loop \<open>deliver\<close> of \<open>gateway/server/queue.go\<close>. Each passage of the loop that the
  code runs without giving up the lock is one function on the state; the step relation in
  \<open>Delivery_Steps\<close> interleaves them with the connections and with the workers.
\<close>

datatype kind = K_stdout | K_file | K_egts | K_rabbitmq | K_valkey

record deliveryTarget =
  kind :: kind
  tid :: string
  busy :: bool
  started :: gotime
  failedSince :: "gotime option"
  retryAt :: "gotime option"

record deliveryResult =
  resTarget :: nat
  resItem :: nat
  resErr :: "goerr option"

text \<open>A running worker: the target's index, the item and the time the attempt may take.\<close>

record worker =
  wTarget :: nat
  wItem :: nat
  wTimeout :: int

text \<open>
  Where the loop is: at its top, at the target with index \<open>i\<close>, at the \<open>select\<close>, with a received
  result, between the update of the queue and \<open>saveDump\<close>, before \<open>finished.close()\<close>, or
  returned.
\<close>

datatype location =
    L_top
  | L_target nat bool "gotime option" nat
  | L_select bool "gotime option"
  | L_result deliveryResult
  | L_dump "nat option"
  | L_close "nat option"
  | L_returned "goerr option"

record delivery =
  targets :: "deliveryTarget list"
  workers :: "worker list"
  results :: "deliveryResult list"
  resultErr :: "goerr option"
  cancelled :: bool
  loc :: location

definition Second :: int where
  "Second = 10 ^ 9"

section \<open>The targets\<close>

definition new_target :: "kind \<Rightarrow> string \<Rightarrow> deliveryTarget" where
  "new_target k i = \<lparr>kind = k, tid = i, busy = False, started = 0, failedSince = None, retryAt = None\<rparr>"

definition initial_targets :: "DestinationsConf \<Rightarrow> deliveryTarget list" where
  "initial_targets d =
     (if DestStdout d then [new_target K_stdout []] else []) @
     (if FileEnabled (DestFile d) then [new_target K_file []] else []) @
     map (new_target K_egts) (enabled_egts d) @
     map (new_target K_rabbitmq) (enabled_rabbitmq d) @
     map (new_target K_valkey) (enabled_valkey d)"

definition initial_delivery :: "DestinationsConf \<Rightarrow> delivery" where
  "initial_delivery d =
     \<lparr>targets = initial_targets d, workers = [], results = [], resultErr = None, cancelled = False, loc = L_top\<rparr>"

text \<open>The condition of the search for a target's next item, and of an item that is finished.\<close>

definition wants :: "kind \<Rightarrow> string \<Rightarrow> pendingPacket \<Rightarrow> bool" where
  "wants k i p =
     (case k of
        K_stdout \<Rightarrow> pStdout p
      | K_file \<Rightarrow> pFile p
      | K_egts \<Rightarrow> i \<in> pEGTS p
      | K_rabbitmq \<Rightarrow> i \<in> pRabbitMQ p
      | K_valkey \<Rightarrow> i \<in> pValkey p)"

definition finished_item :: "pendingPacket \<Rightarrow> bool" where
  "finished_item p \<longleftrightarrow>
     \<not> pStdout p \<and> \<not> pFile p \<and> pEGTS p = {} \<and> pRabbitMQ p = {} \<and> pValkey p = {}"

section \<open>The passages of the loop\<close>

text \<open>
  Finished items leave the queue and their \<open>done\<close> channels are closed. Closing a closed channel
  panics, which is \<open>None\<close>.
\<close>

fun compact :: "nat list \<Rightarrow> server \<Rightarrow> (nat list \<times> server) option" where
  "compact [] s = Some ([], s)"
| "compact (a # as) s =
     (let p = items s ! a in
      if finished_item p then
        (if pDone p then None
         else compact as (s\<lparr>items := (items s)[a := p\<lparr>pDone := True\<rparr>]\<rparr>))
      else (case compact as s of None \<Rightarrow> None | Some (as', s') \<Rightarrow> Some (a # as', s')))"

definition loop_top :: "server \<Rightarrow> delivery \<Rightarrow> (server \<times> delivery) option" where
  "loop_top s d =
     (case compact (queue s) s of
        None \<Rightarrow> None
      | Some (q, s') \<Rightarrow> Some (s'\<lparr>queue := q\<rparr>, d\<lparr>loc := L_target 0 (cancelled d) None 0\<rparr>))"

definition earlier :: "gotime \<Rightarrow> gotime option \<Rightarrow> gotime option" where
  "earlier t r = (case r of None \<Rightarrow> Some t | Some u \<Rightarrow> Some (if t < u then t else u))"

definition attempt_timeout :: "Configuration \<Rightarrow> gotime \<Rightarrow> deliveryTarget \<Rightarrow> int" where
  "attempt_timeout c now t =
     (let remaining = DumpAfterSeconds (DeliveryCfg c) * Second -
            (case failedSince t of None \<Rightarrow> 0 | Some f \<Rightarrow> now - f)
      in if kind t = K_stdout \<and> remaining > Second then Second else remaining)"

text \<open>
  One target: nothing, or a worker for the first item that wants it. The clock is read at the
  retry check, at the start of the attempt and for the time that remains.
\<close>

definition waits :: "gotime \<Rightarrow> deliveryTarget \<Rightarrow> bool" where
  "waits now t = (case retryAt t of None \<Rightarrow> False | Some r \<Rightarrow> now < r)"

definition next_item :: "server \<Rightarrow> deliveryTarget \<Rightarrow> nat option" where
  "next_item s t = find (\<lambda>a. wants (kind t) (tid t) (items s ! a)) (queue s)"

definition at_target :: "gotime \<Rightarrow> gotime \<Rightarrow> gotime \<Rightarrow> server \<Rightarrow> nat \<Rightarrow> bool \<Rightarrow> gotime option \<Rightarrow> nat \<Rightarrow> delivery \<Rightarrow> delivery" where
  "at_target now now1 now2 s i stopping retry active d =
     (let t = targets d ! i in
      if busy t then d\<lparr>loc := L_target (i + 1) stopping retry (active + 1)\<rparr>
      else if stopping then d\<lparr>loc := L_target (i + 1) stopping retry active\<rparr>
      else if waits now t then d\<lparr>loc := L_target (i + 1) stopping (earlier (the (retryAt t)) retry) active\<rparr>
      else
        (case next_item s t of
           None \<Rightarrow> d\<lparr>loc := L_target (i + 1) stopping retry active\<rparr>
         | Some a \<Rightarrow> d
             \<lparr>targets := (targets d)[i := t\<lparr>busy := True, started := now1\<rparr>],
              workers := workers d @ [\<lparr>wTarget = i, wItem = a, wTimeout = attempt_timeout (cfg s) now2 (t\<lparr>busy := True, started := now1\<rparr>)\<rparr>],
              loc := L_target (i + 1) stopping retry (active + 1)\<rparr>))"

text \<open>Behind the last target.\<close>

definition after_targets :: "bool \<Rightarrow> gotime option \<Rightarrow> nat \<Rightarrow> delivery \<Rightarrow> delivery" where
  "after_targets stopping retry active d =
     (if stopping \<and> active = 0 then d\<lparr>loc := L_returned (resultErr d)\<rparr>
      else d\<lparr>loc := L_select stopping retry\<rparr>)"

text \<open>A failed attempt: the clock is read for the deadline and for the next retry.\<close>

definition failed_result :: "gotime \<Rightarrow> gotime \<Rightarrow> Configuration \<Rightarrow> nat \<Rightarrow> goerr \<Rightarrow> delivery \<Rightarrow> delivery" where
  "failed_result now now1 c i e d =
     (let t = targets d ! i;
          since = (case failedSince t of None \<Rightarrow> started t | Some f \<Rightarrow> f);
          deadline = since + DumpAfterSeconds (DeliveryCfg c) * Second in
      if cancelled d then d\<lparr>targets := (targets d)[i := t\<lparr>busy := False\<rparr>], loc := L_top\<rparr>
      else if \<not> now < deadline then d
        \<lparr>targets := (targets d)[i := t\<lparr>busy := False, failedSince := Some since\<rparr>],
         resultErr := Some (Wrapf ''Packet delivery stalled for %s %s'' e), cancelled := True, loc := L_top\<rparr>
      else d
        \<lparr>targets := (targets d)[i := t\<lparr>busy := False, failedSince := Some since,
           retryAt := Some (if deadline < now1 + Second then deadline else now1 + Second)\<rparr>],
         loc := L_top\<rparr>)"

text \<open>A delivered item, under the lock; the session that is finished with it.\<close>

definition delivered_item :: "kind \<Rightarrow> string \<Rightarrow> pendingPacket \<Rightarrow> pendingPacket" where
  "delivered_item k i p =
     (case k of
        K_stdout \<Rightarrow> p\<lparr>pStdout := False\<rparr>
      | K_file \<Rightarrow> p\<lparr>pFile := False\<rparr>
      | K_egts \<Rightarrow> p\<lparr>pEGTS := pEGTS p - {i}\<rparr>
      | K_rabbitmq \<Rightarrow> p\<lparr>pRabbitMQ := pRabbitMQ p - {i}\<rparr>
      | K_valkey \<Rightarrow> p\<lparr>pValkey := pValkey p - {i}\<rparr>)"

definition item_session :: "pendingPacket \<Rightarrow> nat option" where
  "item_session p = (case pRelay p of None \<Rightarrow> None | Some r \<Rightarrow> session r)"

definition count_delivered :: "kind \<Rightarrow> nat \<Rightarrow> server \<Rightarrow> nat option \<times> server" where
  "count_delivered k a s =
     (if k \<noteq> K_egts then (None, s)
      else
        (case item_session (items s ! a) of
           None \<Rightarrow> (None, s)
         | Some sid \<Rightarrow>
             (let s1 = upd_session sid (\<lambda>x. x\<lparr>pending := pending x - 1\<rparr>) s;
                  x = sessions s1 ! sid in
              if pending x = 0 \<and> closed x then (Some sid, unregister sid s1) else (None, s1))))"

definition delivered_result :: "nat \<Rightarrow> nat \<Rightarrow> server \<Rightarrow> delivery \<Rightarrow> server \<times> delivery" where
  "delivered_result i a s d =
     (let t = targets d ! i;
          s1 = s\<lparr>items := (items s)[a := delivered_item (kind t) (tid t) (items s ! a)]\<rparr>;
          (finished, s2) = count_delivered (kind t) a s1
      in (s2, d\<lparr>targets := (targets d)[i := t\<lparr>busy := False, failedSince := None, retryAt := None\<rparr>],
                loc := L_dump finished\<rparr>))"

text \<open>\<open>resultErr\<close> keeps the first error; an error cancels the context.\<close>

definition note_error :: "goerr option \<Rightarrow> delivery \<Rightarrow> delivery" where
  "note_error err d =
     (case err of
        None \<Rightarrow> d
      | Some e \<Rightarrow> d\<lparr>resultErr := (if resultErr d = None then Some e else resultErr d), cancelled := True\<rparr>)"

end
