(* ===== verification/Delivery_Steps.thy ===== *)
theory Delivery_Steps
  imports Delivery
begin

text \<open>
  The delivery loop, its workers and the connections as one transition system, and its
  invariants. Every passage that runs under the lock, or between two points where the loop
  lets others run, is one step. The results of the writers, of \<open>saveDump\<close> and of the clock are
  arbitrary.
\<close>

section \<open>Steps\<close>

record gateway =
  srv :: server
  dlv :: delivery

text \<open>What a step does to a packet or a session.\<close>

datatype label =
    Enqueued nat pendingPacket
  | Delivered kind string nat
  | Finished "nat list"
  | Closed nat
  | Internal

text \<open>A connection enqueues with its own relay session, which it closes only when it ends.\<close>

definition open_session :: "relayPacket option \<Rightarrow> server \<Rightarrow> bool" where
  "open_session relay s \<longleftrightarrow>
     (case relay of
        None \<Rightarrow> True
      | Some r \<Rightarrow>
          (case session r of
             None \<Rightarrow> True
           | Some sid \<Rightarrow> sid < length (sessions s) \<and> \<not> closed (sessions s ! sid) \<and>
               set (enabled_egts (dests s)) \<subseteq> writers (sessions s ! sid)))"

definition finish_close :: "nat option \<Rightarrow> server \<Rightarrow> server" where
  "finish_close f s = (case f of None \<Rightarrow> s | Some sid \<Rightarrow> close_session sid s)"

definition closed_label :: "nat option \<Rightarrow> label" where
  "closed_label f = (case f of None \<Rightarrow> Internal | Some sid \<Rightarrow> Closed sid)"

inductive gstep :: "gateway \<Rightarrow> label \<Rightarrow> gateway \<Rightarrow> bool" where
  g_enqueue: "enqueue r relay (srv g) = Some (Inr a, s') \<Longrightarrow> open_session relay (srv g) \<Longrightarrow>
     gstep g (Enqueued a (items s' ! a)) (g\<lparr>srv := s'\<rparr>)"
| g_new_session: "newRelaySession random (srv g) = (res, s') \<Longrightarrow> gstep g Internal (g\<lparr>srv := s'\<rparr>)"
| g_end_session: "sid < length (sessions (srv g)) \<Longrightarrow> \<not> closed (sessions (srv g) ! sid) \<Longrightarrow>
     endRelaySession sid (srv g) = (fin, s') \<Longrightarrow>
     gstep g (closed_label (if fin then Some sid else None))
       (g\<lparr>srv := finish_close (if fin then Some sid else None) s'\<rparr>)"
| g_stop: "gstep g Internal (g\<lparr>srv := (srv g)\<lparr>accepting := False\<rparr>\<rparr>)"
| g_cancel: "gstep g Internal (g\<lparr>dlv := (dlv g)\<lparr>cancelled := True\<rparr>\<rparr>)"
| g_worker: "workers (dlv g) = ws @ w # ws' \<Longrightarrow>
     gstep g Internal (g\<lparr>dlv := (dlv g)\<lparr>workers := ws @ ws',
       results := results (dlv g) @ [\<lparr>resTarget = wTarget w, resItem = wItem w, resErr = err\<rparr>]\<rparr>\<rparr>)"
| g_top: "loc (dlv g) = L_top \<Longrightarrow> loop_top (srv g) (dlv g) = Some (s', d') \<Longrightarrow>
     gstep g (Finished (filter (\<lambda>a. finished_item (items (srv g) ! a)) (queue (srv g)))) (g\<lparr>srv := s', dlv := d'\<rparr>)"
| g_target: "loc (dlv g) = L_target i stopping retry active \<Longrightarrow> i < length (targets (dlv g)) \<Longrightarrow>
     gstep g Internal (g\<lparr>dlv := at_target now now1 now2 (srv g) i stopping retry active (dlv g)\<rparr>)"
| g_after: "loc (dlv g) = L_target i stopping retry active \<Longrightarrow> i = length (targets (dlv g)) \<Longrightarrow>
     gstep g Internal (g\<lparr>dlv := after_targets stopping retry active (dlv g)\<rparr>)"
| g_context: "loc (dlv g) = L_select False retry \<Longrightarrow> cancelled (dlv g) \<Longrightarrow>
     gstep g Internal (g\<lparr>dlv := (dlv g)\<lparr>loc := L_top\<rparr>\<rparr>)"
| g_wake: "loc (dlv g) = L_select stopping retry \<Longrightarrow> wake (srv g) \<Longrightarrow>
     gstep g Internal (g\<lparr>srv := (srv g)\<lparr>wake := False\<rparr>, dlv := (dlv g)\<lparr>loc := L_top\<rparr>\<rparr>)"
| g_retry: "loc (dlv g) = L_select stopping (Some t) \<Longrightarrow>
     gstep g Internal (g\<lparr>dlv := (dlv g)\<lparr>loc := L_top\<rparr>\<rparr>)"
| g_receive: "loc (dlv g) = L_select stopping retry \<Longrightarrow> results (dlv g) = r # rs \<Longrightarrow>
     gstep g Internal (g\<lparr>dlv := (dlv g)\<lparr>results := rs, loc := L_result r\<rparr>\<rparr>)"
| g_failed: "loc (dlv g) = L_result r \<Longrightarrow> resErr r = Some e \<Longrightarrow>
     gstep g Internal (g\<lparr>dlv := failed_result now now1 (cfg (srv g)) (resTarget r) e (dlv g)\<rparr>)"
| g_delivered: "loc (dlv g) = L_result r \<Longrightarrow> resErr r = None \<Longrightarrow>
     delivered_result (resTarget r) (resItem r) (srv g) (dlv g) = (s', d') \<Longrightarrow>
     gstep g (Delivered (kind (targets (dlv g) ! resTarget r)) (tid (targets (dlv g) ! resTarget r)) (resItem r))
       (g\<lparr>srv := s', dlv := d'\<rparr>)"
| g_dump: "loc (dlv g) = L_dump f \<Longrightarrow> hasDump (srv g) \<or> err = None \<Longrightarrow>
     gstep g Internal (g\<lparr>dlv := (note_error err (dlv g))\<lparr>loc := L_close f\<rparr>\<rparr>)"
| g_close: "loc (dlv g) = L_close f \<Longrightarrow> f \<noteq> None \<or> err = None \<Longrightarrow>
     gstep g (closed_label f) (g\<lparr>srv := finish_close f (srv g), dlv := (note_error err (dlv g))\<lparr>loc := L_top\<rparr>\<rparr>)"

inductive_cases gstep_cases: "gstep g l g'"
inductive_cases enqueued_step: "gstep g (Enqueued a p) g'"
inductive_cases delivered_step: "gstep g (Delivered k i a) g'"

inductive grun :: "gateway \<Rightarrow> label list \<Rightarrow> gateway \<Rightarrow> bool" where
  run_nil: "grun g [] g"
| run_snoc: "grun g ls g' \<Longrightarrow> gstep g' l g'' \<Longrightarrow> grun g (ls @ [l]) g''"

section \<open>The initial state\<close>

text \<open>
  \<open>newServer\<close> starts with a queue restored from the dump, or an empty one: every item is in the
  queue, no channel is closed, and the sessions count what the items wait for. The targets an
  item waits for are enabled, and the sessions of the dump have writers for all of them.
\<close>

definition configured :: "DestinationsConf \<Rightarrow> pendingPacket \<Rightarrow> bool" where
  "configured d p \<longleftrightarrow>
     (pStdout p \<longrightarrow> DestStdout d) \<and> (pFile p \<longrightarrow> FileEnabled (DestFile d)) \<and>
     pEGTS p \<subseteq> set (enabled_egts d) \<and> pRabbitMQ p \<subseteq> set (enabled_rabbitmq d) \<and>
     pValkey p \<subseteq> set (enabled_valkey d)"

definition open_targets :: "nat \<Rightarrow> pendingPacket \<Rightarrow> int" where
  "open_targets sid p = (if item_session p = Some sid then int (card (pEGTS p)) else 0)"

definition session_total :: "server \<Rightarrow> nat \<Rightarrow> int" where
  "session_total s sid = sum_list (map (open_targets sid) (items s))"

definition item_ok :: "server \<Rightarrow> pendingPacket \<Rightarrow> bool" where
  "item_ok s p \<longleftrightarrow> configured (dests s) p \<and>
     (pEGTS p \<noteq> {} \<longrightarrow> (\<exists>sid. item_session p = Some sid)) \<and>
     (\<forall>sid. item_session p = Some sid \<longrightarrow> sid < length (sessions s) \<and>
        set (enabled_egts (dests s)) \<subseteq> writers (sessions s ! sid))"

definition queue_inv :: "server \<Rightarrow> bool" where
  "queue_inv s \<longleftrightarrow>
     distinct (queue s) \<and> set (queue s) \<subseteq> {..<length (items s)} \<and>
     int (length (queue s)) \<le> QueueCapacity (DeliveryCfg (cfg s)) \<and>
     (\<forall>a<length (items s). pDone (items s ! a) \<longleftrightarrow> a \<notin> set (queue s)) \<and>
     (\<forall>a<length (items s). a \<notin> set (queue s) \<longrightarrow> finished_item (items s ! a))"

definition session_inv :: "server \<Rightarrow> bool" where
  "session_inv s \<longleftrightarrow>
     (\<forall>p\<in>set (items s). item_ok s p) \<and>
     (\<forall>sid<length (sessions s). pending (sessions s ! sid) = session_total s sid \<and>
        (writersClosed (sessions s ! sid) \<longrightarrow> closed (sessions s ! sid) \<and> pending (sessions s ! sid) = 0))"

definition started_server :: "server \<Rightarrow> bool" where
  "started_server s \<longleftrightarrow> valid_destinations (dests s) \<and> queue_inv s \<and> session_inv s"

definition started_gateway :: "gateway \<Rightarrow> bool" where
  "started_gateway g \<longleftrightarrow> started_server (srv g) \<and> dlv g = initial_delivery (dests (srv g))"

section \<open>The invariant of the loop\<close>

text \<open>The attempts on their way: in a worker, in the channel, or in the loop's hand.\<close>

definition in_flight :: "delivery \<Rightarrow> (nat \<times> nat) list" where
  "in_flight d =
     map (\<lambda>w. (wTarget w, wItem w)) (workers d) @
     map (\<lambda>r. (resTarget r, resItem r)) (results d) @
     (case loc d of L_result r \<Rightarrow> [(resTarget r, resItem r)] | _ \<Rightarrow> [])"

definition waiting :: "server \<Rightarrow> kind \<Rightarrow> string \<Rightarrow> nat list" where
  "waiting s k i = filter (\<lambda>a. wants k i (items s ! a)) (queue s)"

text \<open>An attempt is for the first item that waits for its target.\<close>

definition flight_inv :: "server \<Rightarrow> delivery \<Rightarrow> bool" where
  "flight_inv s d \<longleftrightarrow>
     distinct (map fst (in_flight d)) \<and>
     fst ` set (in_flight d) = {i. i < length (targets d) \<and> busy (targets d ! i)} \<and>
     (\<forall>(i, a)\<in>set (in_flight d). \<exists>as. waiting s (kind (targets d ! i)) (tid (targets d ! i)) = a # as)"

definition target_names :: "delivery \<Rightarrow> (kind \<times> string) list" where
  "target_names d = map (\<lambda>t. (kind t, tid t)) (targets d)"

definition busy_below :: "delivery \<Rightarrow> nat \<Rightarrow> nat" where
  "busy_below d i = length (filter busy (take i (targets d)))"

text \<open>A session whose writers the loop is about to close.\<close>

definition ready :: "relaySession \<Rightarrow> bool" where
  "ready x \<longleftrightarrow> closed x \<and> pending x = 0 \<and> \<not> writersClosed x"

definition loop_inv :: "server \<Rightarrow> delivery \<Rightarrow> bool" where
  "loop_inv s d \<longleftrightarrow>
     (case loc d of
        L_target i stopping retry active \<Rightarrow>
          i \<le> length (targets d) \<and> active = busy_below d i \<and> (stopping \<longrightarrow> cancelled d)
      | L_select stopping retry \<Rightarrow> stopping \<longrightarrow> in_flight d \<noteq> []
      | L_result r \<Rightarrow> True
      | L_dump f \<Rightarrow> (case f of None \<Rightarrow> True
          | Some sid \<Rightarrow> sid < length (sessions s) \<and> ready (sessions s ! sid))
      | L_close f \<Rightarrow> (case f of None \<Rightarrow> True
          | Some sid \<Rightarrow> sid < length (sessions s) \<and> ready (sessions s ! sid))
      | L_returned e \<Rightarrow> cancelled d \<and> in_flight d = []
      | L_top \<Rightarrow> True)"

definition ginv :: "gateway \<Rightarrow> bool" where
  "ginv g \<longleftrightarrow> started_server (srv g) \<and> flight_inv (srv g) (dlv g) \<and> loop_inv (srv g) (dlv g) \<and>
     target_names (dlv g) = target_names (initial_delivery (dests (srv g)))"

end
