(* ===== verification/Delivery_Inv.thy ===== *)
theory Delivery_Inv
  imports Delivery_Steps
begin

text \<open>
  Every operation on the shared state keeps the invariants of the queue and of the relay
  sessions, and every step of the gateway keeps the invariant of the delivery loop.
\<close>

section \<open>Configured targets\<close>

lemma set_enabled:
  "set (enabled_egts d) = EgtsID ` {c \<in> set (DestEGTS d). EgtsEnabled c}"
  "set (enabled_rabbitmq d) = RabbitID ` {c \<in> set (DestRabbitMQ d). RabbitEnabled c}"
  "set (enabled_valkey d) = ValkeyID ` {c \<in> set (DestValkey d). ValkeyEnabled c}"
  by (simp_all add: enabled_egts_def enabled_rabbitmq_def enabled_valkey_def)

lemma distinct_map_filter': "distinct (map f xs) \<Longrightarrow> distinct (map f (filter P xs))"
  by (rule distinct_map_filter)

lemma distinct_enabled:
  assumes "valid_destinations d"
  shows "distinct (enabled_egts d)" "distinct (enabled_rabbitmq d)" "distinct (enabled_valkey d)"
  using assms
  by (simp_all add: valid_destinations_def enabled_egts_def enabled_rabbitmq_def enabled_valkey_def
      distinct_map_filter')

lemma target_names_initial:
  "target_names (initial_delivery d) =
     (if DestStdout d then [(K_stdout, [])] else []) @
     (if FileEnabled (DestFile d) then [(K_file, [])] else []) @
     map (Pair K_egts) (enabled_egts d) @ map (Pair K_rabbitmq) (enabled_rabbitmq d) @
     map (Pair K_valkey) (enabled_valkey d)"
  by (simp add: target_names_def initial_delivery_def initial_targets_def new_target_def)

lemma distinct_target_names:
  "valid_destinations d \<Longrightarrow> distinct (target_names (initial_delivery d))"
  by (auto simp: target_names_initial distinct_map inj_on_def distinct_enabled)

text \<open>The single stdout and file targets have no identifier.\<close>

definition proper :: "kind \<Rightarrow> string \<Rightarrow> bool" where
  "proper k i \<longleftrightarrow> (k = K_stdout \<or> k = K_file \<longrightarrow> i = [])"

lemma proper_names: "(k, i) \<in> set (target_names (initial_delivery d)) \<Longrightarrow> proper k i"
  by (auto simp: target_names_initial proper_def split: if_splits)

lemma wants_delivered:
  "proper k i \<Longrightarrow> proper k' i' \<Longrightarrow>
   wants k i (delivered_item k' i' p) \<longleftrightarrow> wants k i p \<and> (k, i) \<noteq> (k', i')"
  by (cases k; cases k') (auto simp: wants_def delivered_item_def proper_def)

lemma delivered_item_fields [simp]:
  "pDone (delivered_item k i p) = pDone p" "pRelay (delivered_item k i p) = pRelay p"
  "pRecord (delivered_item k i p) = pRecord p"
  "item_session (delivered_item k i p) = item_session p"
  by (cases k; simp add: delivered_item_def item_session_def)+

lemma wants_not_finished: "wants k i p \<Longrightarrow> \<not> finished_item p"
  by (cases k) (auto simp: wants_def finished_item_def)

lemma finished_iff: "configured d p \<Longrightarrow>
  finished_item p \<longleftrightarrow> (\<forall>(k, i)\<in>set (target_names (initial_delivery d)). \<not> wants k i p)"
  by (auto simp: configured_def finished_item_def target_names_initial wants_def ball_Un)

section \<open>Enqueueing\<close>

lemma relay_targets_forward:
  "relay_targets (Some (Inr True)) relay cs ids = Some (Inr ids') \<Longrightarrow>
   ids' = ids \<union> set (map EgtsID (filter EgtsEnabled cs)) \<and>
   (list_ex EgtsEnabled cs \<longrightarrow> (\<exists>r sid. relay = Some r \<and> session r = Some sid))"
  by (induction cs arbitrary: ids) (auto simp del: set_filter split: if_splits option.splits)

lemma relay_targets_none:
  "relay_targets sr relay cs ids = Some (Inr ids') \<Longrightarrow> sr \<noteq> Some (Inr True) \<Longrightarrow> ids' = ids"
  by (induction cs arbitrary: ids) (auto split: if_splits option.splits sum.splits bool.splits)

lemma relay_targets_Inr:
  assumes "relay_targets sr relay cs {} = Some (Inr ids)"
  shows "ids = {} \<or> (ids = set (map EgtsID (filter EgtsEnabled cs)) \<and> (\<exists>r sid. relay = Some r \<and> session r = Some sid))"
proof (cases "sr = Some (Inr True) \<and> list_ex EgtsEnabled cs")
  case True
  with assms relay_targets_forward [of relay cs "{}" ids] show ?thesis by simp
next
  case False
  with assms relay_targets_forward [of relay cs "{}" ids] relay_targets_none [of sr relay cs "{}" ids]
  show ?thesis by (auto simp: list_ex_iff filter_empty_conv)
qed

lemma enqueue_Inr:
  assumes "enqueue r relay s = Some (Inr a, s')"
  obtains ids where "accepting s" "int (length (queue s)) < QueueCapacity (DeliveryCfg (cfg s))"
    "relay_targets (shouldRelay (RecPacket r)) relay (DestEGTS (dests s)) {} = Some (Inr ids)"
    "a = length (items s)"
    "s' = (count_pending (new_item s r relay ids) s)
      \<lparr>items := items s @ [new_item s r relay ids], queue := queue s @ [a], wake := True\<rparr>"
  using assms
  by (auto simp: enqueue_def Let_def split: if_splits option.splits sum.splits)

lemma count_pending_simps [simp]:
  "cfg (count_pending p s) = cfg s" "queue (count_pending p s) = queue s"
  "items (count_pending p s) = items s" "accepting (count_pending p s) = accepting s"
  "hasDump (count_pending p s) = hasDump s" "wake (count_pending p s) = wake s"
  "relays (count_pending p s) = relays s" "length (sessions (count_pending p s)) = length (sessions s)"
  by (auto simp: count_pending_def split: option.splits)

text \<open>What an accepted packet adds, seen from the state before.\<close>

lemma enqueue_effect:
  assumes "enqueue r relay s = Some (Inr a, s')" "open_session relay s"
  obtains ids where "a = length (items s)" "items s' ! a = new_item s r relay ids"
    "items s' = items s @ [new_item s r relay ids]" "queue s' = queue s @ [a]" "cfg s' = cfg s"
    "int (length (queue s')) \<le> QueueCapacity (DeliveryCfg (cfg s))"
    "sessions s' = sessions (count_pending (new_item s r relay ids) s)"
    "ids = {} \<or> (ids = set (enabled_egts (dests s)) \<and> (\<exists>sid. item_session (new_item s r relay ids) = Some sid))"
    "\<And>sid. item_session (new_item s r relay ids) = Some sid \<Longrightarrow> sid < length (sessions s) \<and>
       \<not> closed (sessions s ! sid) \<and> set (enabled_egts (dests s)) \<subseteq> writers (sessions s ! sid)"
proof -
  obtain ids where e: "int (length (queue s)) < QueueCapacity (DeliveryCfg (cfg s))"
    "relay_targets (shouldRelay (RecPacket r)) relay (DestEGTS (dests s)) {} = Some (Inr ids)"
    "a = length (items s)"
    "s' = (count_pending (new_item s r relay ids) s)
      \<lparr>items := items s @ [new_item s r relay ids], queue := queue s @ [a], wake := True\<rparr>"
    using enqueue_Inr [OF assms(1)] by metis
  have ids: "ids = {} \<or> (ids = set (enabled_egts (dests s)) \<and> (\<exists>r sid. relay = Some r \<and> session r = Some sid))"
    using relay_targets_Inr [OF e(2)] by (simp add: enabled_egts_def)
  have sess: "item_session (new_item s r relay ids) = (if ids = {} then None else
      (case relay of None \<Rightarrow> None | Some r \<Rightarrow> session r))"
    by (simp add: item_session_def new_item_def)
  show thesis
  proof (rule that [of ids])
    show "ids = {} \<or> (ids = set (enabled_egts (dests s)) \<and> (\<exists>sid. item_session (new_item s r relay ids) = Some sid))"
      using ids by (auto simp: sess)
    fix sid
    assume "item_session (new_item s r relay ids) = Some sid"
    with assms(2) show "sid < length (sessions s) \<and> \<not> closed (sessions s ! sid) \<and>
        set (enabled_egts (dests s)) \<subseteq> writers (sessions s ! sid)"
      by (auto simp: sess open_session_def split: if_splits option.splits)
  qed (use e in simp_all)
qed

section \<open>The server's invariant\<close>

lemma started_server_cong:
  assumes "cfg s' = cfg s" "queue s' = queue s" "items s' = items s" "sessions s' = sessions s"
  shows "started_server s' \<longleftrightarrow> started_server s"
  by (simp add: started_server_def queue_inv_def session_inv_def item_ok_def session_total_def assms)

lemma count_pending_session:
  "j < length (sessions s) \<Longrightarrow> sessions (count_pending p s) ! j =
     (sessions s ! j)\<lparr>pending := pending (sessions s ! j) + open_targets j p\<rparr>"
  by (auto simp: count_pending_def open_targets_def item_session_def nth_list_update split: option.splits)

lemma configured_new_item:
  "ids \<subseteq> set (enabled_egts (dests s)) \<Longrightarrow> configured (dests s) (new_item s r relay ids)"
  by (simp add: configured_def new_item_def)

text \<open>One more item in the queue: what \<open>enqueue\<close> and the restored dump add.\<close>

lemma add_item_started:
  assumes "started_server s" "int (length (queue s)) < QueueCapacity (DeliveryCfg (cfg s))"
    and "\<not> pDone p" "item_ok s p"
    and "\<And>sid. item_session p = Some sid \<Longrightarrow> pEGTS p \<noteq> {} \<Longrightarrow> \<not> writersClosed (sessions s ! sid)"
    and s': "items s' = items s @ [p]" "queue s' = queue s @ [length (items s)]" "cfg s' = cfg s"
      "sessions s' = sessions (count_pending p s)"
  shows "started_server s'"
proof -
  have sess: "length (sessions s') = length (sessions s)"
    "j < length (sessions s) \<Longrightarrow> sessions s' ! j =
       (sessions s ! j)\<lparr>pending := pending (sessions s ! j) + open_targets j p\<rparr>" for j
    by (simp_all add: s'(4) count_pending_session)
  from assms(1) have q: "queue_inv s" and si: "session_inv s" and v: "valid_destinations (dests s)"
    by (simp_all add: started_server_def)
  have ok: "item_ok s' r" if "item_ok s r" for r
    using that by (auto simp: item_ok_def s'(3) sess)
  have "queue_inv s'"
    using q assms(2,3) unfolding queue_inv_def s'
    by (auto simp: nth_append less_Suc_eq)
  moreover have "session_inv s'"
    unfolding session_inv_def
  proof (intro conjI ballI allI impI)
    fix r
    assume "r \<in> set (items s')"
    then show "item_ok s' r" using si ok assms(4) by (auto simp: s'(1) session_inv_def)
  next
    fix j
    assume j: "j < length (sessions s')"
    with si show "pending (sessions s' ! j) = session_total s' j"
      by (simp add: sess session_inv_def session_total_def s'(1))
    assume w: "writersClosed (sessions s' ! j)"
    with j have "writersClosed (sessions s ! j)" by (simp add: sess)
    with si j have c: "closed (sessions s ! j)" "pending (sessions s ! j) = 0"
      by (auto simp: sess(1) session_inv_def)
    have "open_targets j p = 0"
      using assms(5) \<open>writersClosed (sessions s ! j)\<close> by (cases "pEGTS p = {}") (auto simp: open_targets_def)
    with c j show "closed (sessions s' ! j)" "pending (sessions s' ! j) = 0"
      by (simp_all add: sess)
  qed
  ultimately show ?thesis using v by (simp add: started_server_def s'(3))
qed

lemma enqueue_started:
  assumes "enqueue r relay s = Some (Inr a, s')" "open_session relay s" "started_server s"
  shows "started_server s'"
proof -
  obtain ids where e: "items s' = items s @ [new_item s r relay ids]" "queue s' = queue s @ [length (items s)]"
    "cfg s' = cfg s" "int (length (queue s')) \<le> QueueCapacity (DeliveryCfg (cfg s))"
    "sessions s' = sessions (count_pending (new_item s r relay ids) s)"
    "ids = {} \<or> (ids = set (enabled_egts (dests s)) \<and> (\<exists>sid. item_session (new_item s r relay ids) = Some sid))"
    and own: "\<And>sid. item_session (new_item s r relay ids) = Some sid \<Longrightarrow> sid < length (sessions s) \<and>
       \<not> closed (sessions s ! sid) \<and> set (enabled_egts (dests s)) \<subseteq> writers (sessions s ! sid)"
    by (rule enqueue_effect [OF assms(1,2)]) blast
  have "configured (dests s) (new_item s r relay ids)"
    using e(6) configured_new_item [of ids s r relay] by auto
  moreover have "pEGTS (new_item s r relay ids) = ids" by (simp add: new_item_def)
  ultimately have "item_ok s (new_item s r relay ids)"
    using e(6) own unfolding item_ok_def by (auto simp del: not_None_eq)
  moreover have "\<not> writersClosed (sessions s ! sid)" if "item_session (new_item s r relay ids) = Some sid" for sid
    using own [OF that] assms(3) by (auto simp: started_server_def session_inv_def)
  ultimately show ?thesis
    using e(4) by (intro add_item_started [OF assms(3) _ _ _ _ e(1,2,3,5)]) (simp_all add: e(2) new_item_def)
qed

lemma prepare_writers_Inr:
  "prepare_writers cs ws = Inr ws' \<Longrightarrow> ws' = ws \<union> set (map EgtsID (filter EgtsEnabled cs))"
  by (induction cs ws rule: prepare_writers.induct) (auto simp del: set_filter split: if_splits option.splits)

lemma new_session_effect:
  assumes "newRelaySession random s = (res, s')"
  obtains "s' = s" "\<And>sid. res \<noteq> Inr (Some sid)"
  | ident where "res = Inr (Some (length (sessions s)))"
    "s' = s\<lparr>sessions := sessions s @ [\<lparr>sessionID = ident, writers = set (enabled_egts (dests s)),
        pending = 0, closed = False, writersClosed = False\<rparr>],
      relays := (relays s)(ident \<mapsto> length (sessions s))\<rparr>"
proof (cases random)
  case (Inl e)
  with assms show thesis by (intro that(1)) (auto simp: newRelaySession_def)
next
  case (Inr ident)
  show thesis
  proof (cases "prepare_writers (DestEGTS (dests s)) {}")
    case (Inl e)
    with assms Inr show thesis by (intro that(1)) (auto simp: newRelaySession_def)
  next
    case (Inr ws)
    then have ws: "ws = set (enabled_egts (dests s))"
      using prepare_writers_Inr by (force simp: enabled_egts_def)
    show thesis
    proof (cases "ws = {}")
      case True
      with assms Inr \<open>random = Inr ident\<close> show thesis
        by (intro that(1)) (auto simp: newRelaySession_def)
    next
      case False
      with assms Inr \<open>random = Inr ident\<close> show thesis
        by (intro that(2) [of ident]) (simp_all add: newRelaySession_def Let_def flip: ws)
    qed
  qed
qed

text \<open>A session without pending packets is added.\<close>

lemma append_session_started:
  assumes "started_server s" "sessions s' = sessions s @ [x]" "pending x = 0" "\<not> writersClosed x"
    and "cfg s' = cfg s" "queue s' = queue s" "items s' = items s"
  shows "started_server s'"
proof -
  let ?n = "length (sessions s)"
  from assms(1) have si: "session_inv s" by (simp add: started_server_def)
  have ok: "item_ok s' p" if "item_ok s p" for p
    using that by (auto simp: item_ok_def assms(2,5) nth_append less_SucI)
  have total: "session_total s' j = session_total s j" for j by (simp add: session_total_def assms(7))
  have "open_targets ?n p = 0" if "p \<in> set (items s)" for p
    using si that by (auto simp: session_inv_def item_ok_def open_targets_def)
  then have "session_total s ?n = 0"
    by (simp add: session_total_def sum_list_0 cong: map_cong)
  with si ok have "session_inv s'"
    unfolding session_inv_def total by (auto simp: assms nth_append less_Suc_eq)
  with assms show ?thesis by (simp add: started_server_def queue_inv_def)
qed

lemma new_session_started:
  assumes "newRelaySession random s = (res, s')" "started_server s"
  shows "started_server s'"
  using assms(1)
proof (cases rule: new_session_effect)
  case (2 ident)
  then have "sessions s' = sessions s @ [\<lparr>sessionID = ident, writers = set (enabled_egts (dests s)),
      pending = 0, closed = False, writersClosed = False\<rparr>]" by simp
  from append_session_started [OF assms(2) this] 2 show ?thesis by simp
qed (use assms in simp)

text \<open>An update of one session that keeps what the other invariants are about.\<close>

lemma upd_session_started:
  assumes "started_server s" "sid < length (sessions s)" "\<And>x. writers (f x) = writers x" "\<And>x. pending (f x) = pending x"
    and "writersClosed (f (sessions s ! sid)) \<Longrightarrow> closed (f (sessions s ! sid)) \<and> pending (sessions s ! sid) = 0"
  shows "started_server (upd_session sid f s)"
proof -
  from assms(1) have q: "queue_inv s" "session_inv s" "valid_destinations (dests s)"
    by (simp_all add: started_server_def)
  have "item_ok (upd_session sid f s) p" if "item_ok s p" for p
    using that assms(2,3) by (auto simp: item_ok_def nth_list_update)
  then have "session_inv (upd_session sid f s)"
    using q(2) assms(2,4,5) by (auto simp: session_inv_def session_total_def nth_list_update)
  with q show ?thesis by (simp add: started_server_def queue_inv_def)
qed

lemma unregister_started [simp]: "started_server (unregister sid s) \<longleftrightarrow> started_server s"
  by (rule started_server_cong) (simp_all add: unregister_def)

lemma unregister_simps [simp]:
  "cfg (unregister sid s) = cfg s" "queue (unregister sid s) = queue s" "items (unregister sid s) = items s"
  "sessions (unregister sid s) = sessions s" "hasDump (unregister sid s) = hasDump s"
  "accepting (unregister sid s) = accepting s"
  by (simp_all add: unregister_def)

lemma close_session_started:
  assumes "started_server s" "sid < length (sessions s)" "closed (sessions s ! sid)" "pending (sessions s ! sid) = 0"
  shows "started_server (close_session sid s)"
  unfolding close_session_def by (rule upd_session_started) (use assms in simp_all)

lemma end_session_started:
  assumes "started_server s" "sid < length (sessions s)" "\<not> closed (sessions s ! sid)"
    and "endRelaySession sid s = (fin, s')"
  shows "started_server s'" "fin \<Longrightarrow> closed (sessions s' ! sid) \<and> pending (sessions s' ! sid) = 0"
    "length (sessions s') = length (sessions s)" "cfg s' = cfg s" "items s' = items s" "queue s' = queue s"
proof -
  have "\<not> writersClosed (sessions s ! sid)"
    using assms(1-3) by (auto simp: started_server_def session_inv_def)
  then have "started_server (upd_session sid (\<lambda>x. x\<lparr>closed := True\<rparr>) s)"
    by (intro upd_session_started) (use assms in simp_all)
  then show "started_server s'" using assms(4) by (auto simp: endRelaySession_def Let_def)
qed (use assms in \<open>auto simp: endRelaySession_def Let_def\<close>)

section \<open>Compaction\<close>

definition marked :: "pendingPacket \<Rightarrow> pendingPacket" where
  "marked p = p\<lparr>pDone := True\<rparr>"

lemma marked_simps [simp]:
  "pDone (marked p)" "wants k i (marked p) = wants k i p" "finished_item (marked p) = finished_item p"
  "item_session (marked p) = item_session p" "open_targets j (marked p) = open_targets j p"
  "configured d (marked p) = configured d p" "item_ok s (marked p) = item_ok s p"
  by (cases k; simp add: marked_def wants_def finished_item_def item_session_def open_targets_def
      configured_def item_ok_def)+

lemma compact_eq:
  assumes "distinct as" "\<forall>a\<in>set as. a < length (items s) \<and> \<not> pDone (items s ! a)"
  shows "\<exists>its. compact as s = Some (filter (\<lambda>a. \<not> finished_item (items s ! a)) as, s\<lparr>items := its\<rparr>) \<and>
    length its = length (items s) \<and> (\<forall>b<length its. its ! b =
      (if b \<in> set as \<and> finished_item (items s ! b) then marked (items s ! b) else items s ! b))"
  using assms
proof (induction as arbitrary: s)
  case Nil
  then show ?case by (intro exI [of _ "items s"]) simp
next
  case (Cons a as)
  let ?p = "items s ! a"
  show ?case
  proof (cases "finished_item ?p")
    case False
    obtain its where i: "compact as s = Some (filter (\<lambda>a. \<not> finished_item (items s ! a)) as, s\<lparr>items := its\<rparr>)"
      "length its = length (items s)" "\<forall>b<length its. its ! b =
        (if b \<in> set as \<and> finished_item (items s ! b) then marked (items s ! b) else items s ! b)"
      using Cons.IH [of s] Cons.prems by auto
    with False show ?thesis by (intro exI [of _ its]) (auto simp: Let_def)
  next
    case True
    let ?s = "s\<lparr>items := (items s)[a := marked ?p]\<rparr>"
    from Cons.prems have a: "a < length (items s)" "\<not> pDone ?p" "a \<notin> set as" by auto
    have same: "items ?s ! b = items s ! b" if "b \<in> set as" for b
    proof -
      from that a(3) have "a \<noteq> b" by blast
      then show ?thesis by simp
    qed
    with Cons.prems have "\<forall>b\<in>set as. b < length (items ?s) \<and> \<not> pDone (items ?s ! b)" by auto
    then obtain its where i: "compact as ?s = Some (filter (\<lambda>a. \<not> finished_item (items ?s ! a)) as, ?s\<lparr>items := its\<rparr>)"
      "length its = length (items ?s)" "\<forall>b<length its. its ! b =
        (if b \<in> set as \<and> finished_item (items ?s ! b) then marked (items ?s ! b) else items ?s ! b)"
      using Cons.IH [of ?s] Cons.prems by auto
    have "filter (\<lambda>a. \<not> finished_item (items ?s ! a)) as = filter (\<lambda>a. \<not> finished_item (items s ! a)) as"
      using same by (intro filter_cong) simp_all
    then have "compact (a # as) s = Some (filter (\<lambda>a. \<not> finished_item (items s ! a)) (a # as), s\<lparr>items := its\<rparr>)"
      using True a i(1) by (simp add: Let_def marked_def)
    moreover have "its ! b = (if b \<in> set (a # as) \<and> finished_item (items s ! b) then marked (items s ! b) else items s ! b)"
      if "b < length its" for b
      using i(2,3) that a True by (cases "b = a") auto
    ultimately show ?thesis using i(2) by auto
  qed
qed

text \<open>A passage of the loop's top: no channel is closed twice and nothing that waits is lost.\<close>

lemma loop_top_effect:
  assumes "started_server s"
  obtains its where "loop_top s d = Some
      (s\<lparr>items := its, queue := filter (\<lambda>a. \<not> finished_item (items s ! a)) (queue s)\<rparr>,
       d\<lparr>loc := L_target 0 (cancelled d) None 0\<rparr>)"
    "length its = length (items s)"
    "\<forall>b<length its. its ! b = (if b \<in> set (queue s) \<and> finished_item (items s ! b) then marked (items s ! b) else items s ! b)"
proof -
  have "distinct (queue s)" "\<forall>a\<in>set (queue s). a < length (items s) \<and> \<not> pDone (items s ! a)"
    using assms by (auto simp: started_server_def queue_inv_def)
  from compact_eq [OF this] obtain its where
    "compact (queue s) s = Some (filter (\<lambda>a. \<not> finished_item (items s ! a)) (queue s), s\<lparr>items := its\<rparr>)"
    "length its = length (items s)"
    "\<forall>b<length its. its ! b = (if b \<in> set (queue s) \<and> finished_item (items s ! b) then marked (items s ! b) else items s ! b)"
    by blast
  then show thesis by (intro that [of its]) (simp_all add: loop_top_def)
qed

lemma loop_top_started:
  assumes "started_server s" "loop_top s d = Some (s', d')"
  shows "started_server s'" "waiting s' k i = waiting s k i" "sessions s' = sessions s" "cfg s' = cfg s"
    "d' = d\<lparr>loc := L_target 0 (cancelled d) None 0\<rparr>"
proof -
  obtain its where i: "loop_top s d = Some
      (s\<lparr>items := its, queue := filter (\<lambda>a. \<not> finished_item (items s ! a)) (queue s)\<rparr>,
       d\<lparr>loc := L_target 0 (cancelled d) None 0\<rparr>)" "length its = length (items s)"
    "\<forall>b<length its. its ! b = (if b \<in> set (queue s) \<and> finished_item (items s ! b) then marked (items s ! b) else items s ! b)"
    by (rule loop_top_effect [OF assms(1)])
  with assms(2) have s': "s' = s\<lparr>items := its, queue := filter (\<lambda>a. \<not> finished_item (items s ! a)) (queue s)\<rparr>"
    and d': "d' = d\<lparr>loc := L_target 0 (cancelled d) None 0\<rparr>" by auto
  from assms(1) have q: "queue_inv s" "session_inv s" "valid_destinations (dests s)"
    by (simp_all add: started_server_def)
  have "queue_inv s'"
    using q(1) i(2,3) le_trans [OF length_filter_le]
    by (auto simp: queue_inv_def s' intro: order_trans [rotated])
  moreover have "map (open_targets j) its = map (open_targets j) (items s)" for j
    using i(2,3) by (intro nth_equalityI) auto
  then have "session_total s' j = session_total s j" for j by (simp add: session_total_def s')
  moreover have "item_ok s' p" if "p \<in> set its" for p
  proof -
    from that obtain b where "b < length its" "its ! b = p" by (auto simp: in_set_conv_nth)
    with i(2,3) q(2) have "item_ok s p"
      by (auto simp: session_inv_def all_set_conv_all_nth split: if_splits)
    then show ?thesis by (simp add: item_ok_def s')
  qed
  ultimately show "started_server s'"
    using q by (auto simp: started_server_def session_inv_def s')
  have "a < length its" if "a \<in> set (queue s)" for a
    using q(1) i(2) that by (auto simp: queue_inv_def)
  then show "waiting s' k i = waiting s k i"
    using i(3) by (auto simp: waiting_def s' wants_not_finished intro!: filter_cong)
  show "sessions s' = sessions s" "cfg s' = cfg s" "d' = d\<lparr>loc := L_target 0 (cancelled d) None 0\<rparr>"
    by (simp_all add: s' d')
qed

section \<open>A delivered item\<close>

lemma open_targets_delivered:
  assumes "wants k i p" "finite (pEGTS p)"
  shows "open_targets j (delivered_item k i p) =
    open_targets j p - (if k = K_egts \<and> item_session p = Some j then 1 else 0)"
proof (cases "k = K_egts")
  case True
  with assms have "i \<in> pEGTS p" by (simp add: wants_def)
  with assms(2) have "int (card (pEGTS p - {i})) = int (card (pEGTS p)) - 1"
    by (simp add: card_Diff_singleton int_ops card_gt_0_iff) (metis card_gt_0_iff empty_iff less_one not_le of_nat_1 of_nat_diff)
  with True show ?thesis by (auto simp: open_targets_def delivered_item_def item_session_def)
next
  case False
  then show ?thesis
    by (cases k) (auto simp: open_targets_def delivered_item_def item_session_def)
qed

lemma configured_delivered: "configured d p \<Longrightarrow> configured d (delivered_item k i p)"
  by (cases k) (auto simp: configured_def delivered_item_def)

lemma pEGTS_delivered: "pEGTS (delivered_item k i p) \<subseteq> pEGTS p"
  by (cases k) (auto simp: delivered_item_def)

lemma finite_configured: "configured d p \<Longrightarrow> finite (pEGTS p)"
  by (auto simp: configured_def intro: finite_subset)

lemma item_ok_delivered: "item_ok s p \<Longrightarrow> item_ok s (delivered_item k i p)"
  using pEGTS_delivered [of k i p] by (auto simp: item_ok_def configured_delivered)

text \<open>The state after \<open>count_delivered\<close>, whatever the kind of the target.\<close>

lemma count_delivered_effect:
  assumes "count_delivered k a s = (fin, s')"
  shows "cfg s' = cfg s" "queue s' = queue s" "items s' = items s" "length (sessions s') = length (sessions s)"
    "hasDump s' = hasDump s"
    "j < length (sessions s) \<Longrightarrow> sessions s' ! j = (sessions s ! j)
      \<lparr>pending := pending (sessions s ! j) -
        (if k = K_egts \<and> item_session (items s ! a) = Some j then 1 else 0)\<rparr>"
    "fin = Some sid \<Longrightarrow> k = K_egts \<and> item_session (items s ! a) = Some sid \<and>
      pending (sessions s' ! sid) = 0 \<and> closed (sessions s' ! sid)"
  using assms
  by (auto simp: count_delivered_def Let_def nth_list_update split: if_splits option.splits)

lemma sum_list_update_int: "k < length xs \<Longrightarrow> sum_list (xs[k := x]) = sum_list xs + x - (xs ! k :: int)"
  by (induction xs arbitrary: k) (auto split: nat.splits)

lemma open_targets_le: "p \<in> set ps \<Longrightarrow> open_targets j p \<le> sum_list (map (open_targets j) ps)"
proof (induction ps)
  case (Cons q ps)
  have "0 \<le> open_targets j p" for p by (simp add: open_targets_def)
  then have "0 \<le> sum_list (map (open_targets j) ps)" "0 \<le> open_targets j q"
    by (auto intro!: sum_list_nonneg)
  with Cons show ?case by auto
qed simp

text \<open>A delivery takes one from the session of its packet, and from nothing else.\<close>

lemma delivered_sessions:
  fixes k i s a
  defines "p \<equiv> delivered_item k i (items s ! a)"
  assumes "count_delivered k a (s\<lparr>items := (items s)[a := p]\<rparr>) = (f, s')" "a < length (items s)"
    and "wants k i (items s ! a)" "finite (pEGTS (items s ! a))"
  shows "j < length (sessions s) \<Longrightarrow> sessions s' ! j = (sessions s ! j)\<lparr>pending := pending (sessions s ! j) -
      (if k = K_egts \<and> item_session (items s ! a) = Some j then 1 else 0)\<rparr>"
    and "session_total s' j = session_total s j - (if k = K_egts \<and> item_session (items s ! a) = Some j then 1 else 0)"
proof -
  note e = count_delivered_effect [OF assms(2)]
  show "sessions s' ! j = (sessions s ! j)\<lparr>pending := pending (sessions s ! j) -
      (if k = K_egts \<and> item_session (items s ! a) = Some j then 1 else 0)\<rparr>" if "j < length (sessions s)"
    using e(6) [of j] that assms(3) by (simp add: p_def)
  show "session_total s' j = session_total s j - (if k = K_egts \<and> item_session (items s ! a) = Some j then 1 else 0)"
    using assms(3) open_targets_delivered [OF assms(4,5), of j]
    by (simp add: session_total_def e p_def map_update sum_list_update_int)
qed

text \<open>A session whose connections are closed has no packet to deliver.\<close>

lemma closed_undelivered:
  assumes "session_total s j = 0" "a < length (items s)" "wants k i (items s ! a)" "finite (pEGTS (items s ! a))"
  shows "\<not> (k = K_egts \<and> item_session (items s ! a) = Some j)"
proof
  assume "k = K_egts \<and> item_session (items s ! a) = Some j"
  with assms(3,4) have "0 < open_targets j (items s ! a)"
    by (auto simp: open_targets_def wants_def card_gt_0_iff)
  moreover have "open_targets j (items s ! a) \<le> session_total s j"
    unfolding session_total_def using assms(2) by (intro open_targets_le) simp
  ultimately show False using assms(1) by simp
qed

lemma delivered_session_inv:
  fixes k i s a
  defines "p \<equiv> delivered_item k i (items s ! a)"
  assumes "count_delivered k a (s\<lparr>items := (items s)[a := p]\<rparr>) = (f, s')" "a < length (items s)"
    and "wants k i (items s ! a)" "session_inv s" "finite (pEGTS (items s ! a))"
  shows "session_inv s'"
proof -
  note e = count_delivered_effect [OF assms(2)]
  have simple: "cfg s' = cfg s" "length (sessions s') = length (sessions s)" "items s' = (items s)[a := p]"
    by (simp_all add: e)
  note sess = delivered_sessions [OF assms(2) [unfolded p_def] assms(3,4,6)]
  have "item_ok s' x" if "x \<in> set (items s')" for x
  proof -
    from that assms(3) have "x = p \<or> x \<in> set (items s)" by (auto simp: simple dest!: set_update_subset_insert [THEN subsetD])
    with assms(3,5) have "item_ok s x" by (auto simp: session_inv_def p_def item_ok_delivered)
    then show ?thesis by (auto simp: item_ok_def simple sess(1))
  qed
  moreover have "closed (sessions s' ! j) \<and> pending (sessions s' ! j) = 0"
    if j: "j < length (sessions s)" and w: "writersClosed (sessions s' ! j)" for j
  proof -
    from j w assms(5) have w: "closed (sessions s ! j)" "pending (sessions s ! j) = 0" "session_total s j = 0"
      by (auto simp: sess(1) session_inv_def)
    with j closed_undelivered [OF w(3) assms(3,4,6)] show ?thesis by (simp add: sess(1))
  qed
  ultimately show ?thesis using assms(5) by (auto simp: session_inv_def simple sess)
qed

lemma delivered_result_effect:
  assumes "started_server s" "a \<in> set (queue s)" "delivered_result i a s d = (s', d')"
    and "wants (kind (targets d ! i)) (tid (targets d ! i)) (items s ! a)"
  shows "started_server s'" "cfg s' = cfg s" "queue s' = queue s" "length (sessions s') = length (sessions s)"
    "items s' = (items s)[a := delivered_item (kind (targets d ! i)) (tid (targets d ! i)) (items s ! a)]"
    "d' = d\<lparr>targets := (targets d)[i := (targets d ! i)\<lparr>busy := False, failedSince := None, retryAt := None\<rparr>],
       loc := loc d'\<rparr>"
    "\<exists>f. loc d' = L_dump f \<and> (\<forall>sid. f = Some sid \<longrightarrow> sid < length (sessions s') \<and> ready (sessions s' ! sid))"
proof -
  let ?k = "kind (targets d ! i)" and ?i = "tid (targets d ! i)"
  obtain f where c: "count_delivered ?k a (s\<lparr>items := (items s)[a := delivered_item ?k ?i (items s ! a)]\<rparr>) = (f, s')"
    and d': "d' = d\<lparr>targets := (targets d)[i := (targets d ! i)\<lparr>busy := False, failedSince := None, retryAt := None\<rparr>],
       loc := L_dump f\<rparr>"
    using assms(3) by (auto simp: delivered_result_def Let_def split: prod.splits)
  note e = count_delivered_effect [OF c]
  from assms(1) have q: "queue_inv s" "session_inv s" "valid_destinations (dests s)"
    by (simp_all add: started_server_def)
  with assms(2) have a: "a < length (items s)" by (auto simp: queue_inv_def)
  with q(2) have ok: "item_ok s (items s ! a)" by (simp add: session_inv_def)
  then have fin: "finite (pEGTS (items s ! a))" by (auto simp: item_ok_def finite_configured)
  note sess = delivered_sessions(1) [OF c a assms(4) fin]
  show simple: "cfg s' = cfg s" "queue s' = queue s" "length (sessions s') = length (sessions s)"
    "items s' = (items s)[a := delivered_item ?k ?i (items s ! a)]"
    by (simp_all add: e)
  show "d' = d\<lparr>targets := (targets d)[i := (targets d ! i)\<lparr>busy := False, failedSince := None, retryAt := None\<rparr>],
       loc := loc d'\<rparr>"
    by (simp add: d')
  have "queue_inv s'"
    using q(1) assms(2) by (auto simp: queue_inv_def simple nth_list_update [OF a])
  with delivered_session_inv [OF c a assms(4) q(2) fin] q(3) show "started_server s'" by (simp add: started_server_def simple)
  have "sid < length (sessions s') \<and> ready (sessions s' ! sid)" if f: "f = Some sid" for sid
  proof -
    have sid: "sid < length (sessions s)" and c: "?k = K_egts" "item_session (items s ! a) = Some sid"
      "pending (sessions s' ! sid) = 0" "closed (sessions s' ! sid)"
      using e(7) [OF f] ok a by (auto simp: item_ok_def)
    then have "pending (sessions s ! sid) = 1" "writersClosed (sessions s' ! sid) = writersClosed (sessions s ! sid)"
      by (simp_all add: sess)
    with q(2) sid c simple(3) show ?thesis by (auto simp: ready_def session_inv_def)
  qed
  then show "\<exists>f. loc d' = L_dump f \<and> (\<forall>sid. f = Some sid \<longrightarrow> sid < length (sessions s') \<and> ready (sessions s' ! sid))"
    by (intro exI [of _ f]) (simp add: d')
qed

text \<open>The item is done with for this target, and every other target waits for what it did.\<close>

lemma delivered_waiting:
  assumes "items s' = (items s)[a := delivered_item k i (items s ! a)]" "queue s' = queue s"
    and "a < length (items s)" "proper k i" "proper k' i'"
  shows "waiting s' k' i' = filter (\<lambda>b. b \<noteq> a \<or> (k', i') \<noteq> (k, i)) (waiting s k' i')"
proof -
  have "wants k' i' (items s' ! b) \<longleftrightarrow> wants k' i' (items s ! b) \<and> (b \<noteq> a \<or> (k', i') \<noteq> (k, i))" for b
    using wants_delivered [OF assms(5,4)] assms(3) by (cases "b = a") (simp_all add: assms(1))
  then show ?thesis by (simp add: waiting_def assms(2) conj_commute)
qed

end
