(* ===== verification/Delivery_Loop.thy ===== *)
theory Delivery_Loop
  imports Delivery_Inv
begin

text \<open>
  Every step of the gateway keeps the invariant of the delivery loop: the attempts on their way
  are for different targets, the loop knows which targets are busy, and each attempt is for the
  first packet that waits for its target.
\<close>

section \<open>Steps of one side\<close>

text \<open>A change of the server that keeps the head of every target's line and every finished session.\<close>

definition sessions_kept :: "server \<Rightarrow> server \<Rightarrow> bool" where
  "sessions_kept s s' \<longleftrightarrow>
     (\<forall>sid<length (sessions s). ready (sessions s ! sid) \<longrightarrow> sid < length (sessions s') \<and> ready (sessions s' ! sid))"

lemma loop_inv_server:
  assumes "loop_inv s d" "sessions_kept s s'"
  shows "loop_inv s' d"
  using assms by (auto simp: loop_inv_def sessions_kept_def split: location.splits option.splits)

lemma flight_inv_server:
  assumes "flight_inv s d"
    and "\<And>k i a as. waiting s k i = a # as \<Longrightarrow> \<exists>as'. waiting s' k i = a # as'"
  shows "flight_inv s' d"
  using assms(1) unfolding flight_inv_def by (auto dest: assms(2))

text \<open>A change of the loop that keeps its targets and the attempts on their way.\<close>

lemma flight_inv_delivery:
  assumes "flight_inv s d" "targets d' = targets d" "mset (in_flight d') = mset (in_flight d)"
  shows "flight_inv s d'"
proof -
  have "mset (map fst (in_flight d')) = mset (map fst (in_flight d))" by (simp add: assms(3))
  then have "distinct (map fst (in_flight d')) \<longleftrightarrow> distinct (map fst (in_flight d))"
    by (rule mset_eq_imp_distinct_iff)
  moreover have "set (in_flight d') = set (in_flight d)" by (rule mset_eq_setD [OF assms(3)])
  ultimately show ?thesis using assms(1,2) by (simp add: flight_inv_def)
qed

text \<open>The lists of attempts when the loop's hand is empty.\<close>

definition underway :: "delivery \<Rightarrow> (nat \<times> nat) list" where
  "underway d = map (\<lambda>w. (wTarget w, wItem w)) (workers d) @ map (\<lambda>r. (resTarget r, resItem r)) (results d)"

lemma in_flight_underway:
  "in_flight d = underway d @ (case loc d of L_result r \<Rightarrow> [(resTarget r, resItem r)] | _ \<Rightarrow> [])"
  by (simp add: in_flight_def underway_def)

lemma underway_cong [simp]:
  "underway (d\<lparr>targets := ts\<rparr>) = underway d" "underway (d\<lparr>loc := l\<rparr>) = underway d"
  "underway (d\<lparr>cancelled := c\<rparr>) = underway d" "underway (d\<lparr>resultErr := e\<rparr>) = underway d"
  by (simp_all add: underway_def)

lemma note_error_simps [simp]:
  "targets (note_error e d) = targets d" "underway (note_error e d) = underway d"
  "loc (note_error e d) = loc d" "cancelled d \<Longrightarrow> cancelled (note_error e d)"
  "workers (note_error e d) = workers d" "results (note_error e d) = results d"
  by (auto simp: note_error_def underway_def split: option.splits)

lemma target_names_same:
  assumes "map (\<lambda>t. (kind t, tid t)) ts = map (\<lambda>t. (kind t, tid t)) (targets d)" "targets d' = ts"
  shows "target_names d' = target_names d"
  using assms by (simp add: target_names_def)

lemma names_update:
  assumes "kind t = kind (ts ! i)" "tid t = tid (ts ! i)"
  shows "map (\<lambda>t. (kind t, tid t)) (ts[i := t]) = map (\<lambda>t. (kind t, tid t)) ts"
proof -
  have "map (\<lambda>t. (kind t, tid t)) (ts[i := t]) = (map (\<lambda>t. (kind t, tid t)) ts)[i := (kind t, tid t)]"
    by (simp add: map_update)
  also have "\<dots> = map (\<lambda>t. (kind t, tid t)) ts"
    using assms by (cases "i < length ts") (simp_all add: list_update_same_conv list_update_beyond)
  finally show ?thesis .
qed

section \<open>The server's steps\<close>

lemma waiting_same: "queue s' = queue s \<Longrightarrow> items s' = items s \<Longrightarrow> waiting s' k i = waiting s k i"
  by (simp add: waiting_def)

lemma waiting_enqueue:
  assumes "enqueue r relay s = Some (Inr a, s')" "open_session relay s" "started_server s"
  shows "waiting s' k i = waiting s k i @ (if wants k i (items s' ! a) then [a] else [])"
proof -
  obtain ids where e: "a = length (items s)" "items s' = items s @ [new_item s r relay ids]" "queue s' = queue s @ [a]"
    using enqueue_effect [OF assms(1,2)] by metis
  have "a' < length (items s)" if "a' \<in> set (queue s)" for a'
    using assms(3) that by (auto simp: started_server_def queue_inv_def)
  then have "filter (\<lambda>b. wants k i (items s' ! b)) (queue s) = waiting s k i"
    by (auto simp: waiting_def e(2) nth_append intro!: filter_cong)
  then show ?thesis by (simp add: waiting_def e(3))
qed

lemma enqueue_sessions_kept:
  assumes "enqueue r relay s = Some (Inr a, s')" "open_session relay s"
  shows "sessions_kept s s'"
proof -
  obtain ids where e: "sessions s' = sessions (count_pending (new_item s r relay ids) s)"
    and own: "\<And>sid. item_session (new_item s r relay ids) = Some sid \<Longrightarrow> \<not> closed (sessions s ! sid)"
    using enqueue_effect [OF assms] by metis
  show ?thesis
    unfolding sessions_kept_def
  proof (intro allI impI)
    fix sid
    assume sid: "sid < length (sessions s)" "ready (sessions s ! sid)"
    with own have "open_targets sid (new_item s r relay ids) = 0" by (auto simp: open_targets_def ready_def)
    with sid show "sid < length (sessions s') \<and> ready (sessions s' ! sid)"
      by (simp add: e count_pending_session ready_def)
  qed
qed

lemma new_session_kept:
  assumes "newRelaySession random s = (res, s')"
  shows "sessions_kept s s'" "cfg s' = cfg s" "queue s' = queue s" "items s' = items s"
  using new_session_effect [OF assms]
  by (cases; auto simp: sessions_kept_def nth_append)+

lemma end_session_kept:
  assumes "sid < length (sessions s)" "\<not> closed (sessions s ! sid)" "endRelaySession sid s = (fin, s')"
  shows "sessions_kept s s'"
proof -
  have "sessions s' = (sessions s)[sid := (sessions s ! sid)\<lparr>closed := True\<rparr>]"
    using assms(3) by (auto simp: endRelaySession_def Let_def)
  with assms(1,2) show ?thesis by (auto simp: sessions_kept_def nth_list_update ready_def)
qed

lemma close_session_nth: "sid < length (sessions s) \<Longrightarrow> sessions (close_session j s) ! sid =
    (if j = sid then (sessions s ! sid)\<lparr>writersClosed := True\<rparr> else sessions s ! sid)"
  by (simp add: close_session_def)

lemma finish_close_simps [simp]:
  "cfg (finish_close f s) = cfg s" "queue (finish_close f s) = queue s" "items (finish_close f s) = items s"
  "length (sessions (finish_close f s)) = length (sessions s)"
  by (simp_all add: finish_close_def close_session_def split: option.splits)

lemma finish_close_session [simp]:
  assumes "sid < length (sessions s)"
  shows "closed (sessions (finish_close f s) ! sid) = closed (sessions s ! sid)"
    "pending (sessions (finish_close f s) ! sid) = pending (sessions s ! sid)"
    "writersClosed (sessions (finish_close f s) ! sid) \<longleftrightarrow> f = Some sid \<or> writersClosed (sessions s ! sid)"
  using assms by (auto simp: finish_close_def close_session_nth split: option.splits)

lemma finish_close_kept:
  assumes "sessions_kept s s'" "\<And>sid. f = Some sid \<Longrightarrow> sid < length (sessions s) \<Longrightarrow> \<not> ready (sessions s ! sid)"
  shows "sessions_kept s (finish_close f s')"
  using assms by (auto simp: sessions_kept_def ready_def)

lemma finish_close_started:
  assumes "started_server s" "\<And>sid. f = Some sid \<Longrightarrow> sid < length (sessions s) \<and>
     closed (sessions s ! sid) \<and> pending (sessions s ! sid) = 0"
  shows "started_server (finish_close f s)"
  using assms by (auto simp: finish_close_def close_session_started split: option.splits)

section \<open>The loop's steps\<close>

lemma busy_below_Suc:
  "i < length (targets d) \<Longrightarrow> busy_below d (Suc i) = busy_below d i + (if busy (targets d ! i) then 1 else 0)"
  by (simp add: busy_below_def take_Suc_conv_app_nth)

lemma busy_below_update:
  "i \<le> j \<Longrightarrow> busy_below (d\<lparr>targets := (targets d)[j := t]\<rparr>) i = busy_below d i"
  by (simp add: busy_below_def)

lemma find_filter: "find P xs = Some a \<Longrightarrow> \<exists>as. filter P xs = a # as"
  by (induction xs) (auto split: if_splits)

lemma next_item_waiting: "next_item s t = Some a \<Longrightarrow> \<exists>as. waiting s (kind t) (tid t) = a # as"
  by (simp add: next_item_def waiting_def find_filter)

text \<open>A target that is not busy has no attempt on its way.\<close>

lemma flight_not_busy:
  "flight_inv s d \<Longrightarrow> \<not> busy (targets d ! i) \<Longrightarrow> i \<notin> fst ` set (in_flight d)"
  by (auto simp: flight_inv_def)

lemma spawn_flight:
  assumes "flight_inv s d" "i < length (targets d)" "\<not> busy (targets d ! i)"
    and "next_item s (targets d ! i) = Some a" "loc d = L_target j stopping retry active"
    and "kind t = kind (targets d ! i)" "tid t = tid (targets d ! i)" "busy t"
    and "wTarget w = i" "wItem w = a"
  shows "flight_inv s (d\<lparr>targets := (targets d)[i := t], workers := workers d @ [w], loc := L_target j' stopping' retry' active'\<rparr>)"
    (is "flight_inv s ?d")
proof -
  have m: "mset (in_flight ?d) = add_mset (i, a) (mset (in_flight d))"
    using assms(5,9,10) by (simp add: in_flight_def)
  then have set: "set (in_flight ?d) = insert (i, a) (set (in_flight d))"
    by (metis set_mset_add_mset_insert set_mset_mset)
  have new: "i \<notin> fst ` set (in_flight d)" by (rule flight_not_busy [OF assms(1,3)])
  have "mset (map fst (in_flight ?d)) = mset (i # map fst (in_flight d))" by (simp add: m)
  then have "distinct (map fst (in_flight ?d)) \<longleftrightarrow> distinct (i # map fst (in_flight d))"
    by (rule mset_eq_imp_distinct_iff)
  with assms(1) new have "distinct (map fst (in_flight ?d))" by (simp add: flight_inv_def)
  moreover have "fst ` set (in_flight ?d) = {j. j < length (targets ?d) \<and> busy (targets ?d ! j)}"
    using assms(1,2,8) by (auto simp: set flight_inv_def nth_list_update)
  moreover have "\<exists>as. waiting s (kind (targets ?d ! j)) (tid (targets ?d ! j)) = b # as"
    if "(j, b) \<in> set (in_flight ?d)" for j b
  proof (cases "j = i")
    case True
    with that new have "b = a" by (force simp: set)
    with True assms(2,4,6,7) next_item_waiting show ?thesis by simp
  next
    case False
    with that have "(j, b) \<in> set (in_flight d)" by (simp add: set)
    with assms(1) False show ?thesis by (auto simp: flight_inv_def)
  qed
  ultimately show ?thesis unfolding flight_inv_def by auto
qed

text \<open>At a target the loop goes on, or starts an attempt first.\<close>

lemma at_target_split:
  obtains retry' where "at_target now now1 now2 s i stopping retry active d =
      d\<lparr>loc := L_target (Suc i) stopping retry' (active + (if busy (targets d ! i) then 1 else 0))\<rparr>"
  | a t w where "\<not> busy (targets d ! i)" "next_item s (targets d ! i) = Some a" "\<not> stopping"
    "\<not> waits now (targets d ! i)"
    "t = (targets d ! i)\<lparr>busy := True, started := now1\<rparr>" "wTarget w = i" "wItem w = a"
    "at_target now now1 now2 s i stopping retry active d =
      d\<lparr>targets := (targets d)[i := t], workers := workers d @ [w], loc := L_target (Suc i) stopping retry (Suc active)\<rparr>"
proof -
  let ?t = "targets d ! i"
  consider "busy ?t" | "\<not> busy ?t" "stopping" | "\<not> busy ?t" "\<not> stopping" "waits now ?t"
    | "\<not> busy ?t" "\<not> stopping" "\<not> waits now ?t" "next_item s ?t = None"
    | a where "\<not> busy ?t" "\<not> stopping" "\<not> waits now ?t" "next_item s ?t = Some a"
    by blast
  then show thesis
  proof cases
    case (5 a)
    then show thesis
      by (intro that(2) [of a "?t\<lparr>busy := True, started := now1\<rparr>"
            "\<lparr>wTarget = i, wItem = a, wTimeout = attempt_timeout (cfg s) now2 (?t\<lparr>busy := True, started := now1\<rparr>)\<rparr>"])
        (simp_all add: at_target_def Let_def)
  qed (simp_all add: at_target_def that(1))
qed

lemma at_target_inv:
  assumes "flight_inv s d" "loop_inv s d" "loc d = L_target i stopping retry active" "i < length (targets d)"
  shows "flight_inv s (at_target now now1 now2 s i stopping retry active d) \<and>
    loop_inv s (at_target now now1 now2 s i stopping retry active d) \<and>
    target_names (at_target now now1 now2 s i stopping retry active d) = target_names d"
proof -
  have l: "active = busy_below d i" "stopping \<longrightarrow> cancelled d"
    using assms(2,3) by (simp_all add: loop_inv_def)
  show ?thesis
  proof (rule at_target_split [of now now1 now2 s i stopping retry active d])
    fix retry'
    let ?d = "d\<lparr>loc := L_target (Suc i) stopping retry' (active + (if busy (targets d ! i) then 1 else 0))\<rparr>"
    assume e: "at_target now now1 now2 s i stopping retry active d = ?d"
    have "flight_inv s ?d"
      using assms(3) by (intro flight_inv_delivery [OF assms(1)]) (simp_all add: in_flight_underway)
    moreover have "loop_inv s ?d"
      using assms(4) l(2) busy_below_Suc [OF assms(4)] unfolding l(1) by (simp add: loop_inv_def busy_below_def)
    ultimately show ?thesis by (simp add: e target_names_def)
  next
    fix a t w
    let ?d = "d\<lparr>targets := (targets d)[i := t], workers := workers d @ [w], loc := L_target (Suc i) stopping retry (Suc active)\<rparr>"
    assume c: "\<not> busy (targets d ! i)" "next_item s (targets d ! i) = Some a" "\<not> stopping"
      and t: "t = (targets d ! i)\<lparr>busy := True, started := now1\<rparr>" and w: "wTarget w = i" "wItem w = a"
      and e: "at_target now now1 now2 s i stopping retry active d = ?d"
    have "flight_inv s ?d"
      by (rule spawn_flight [OF assms(1,4) c(1,2) assms(3)]) (simp_all add: t w)
    moreover have "busy_below ?d (Suc i) = Suc (busy_below d i)"
      using assms(4) by (simp add: busy_below_def take_Suc_conv_app_nth t)
    then have "loop_inv s ?d" using l c assms(4) by (auto simp: loop_inv_def)
    moreover have "target_names ?d = target_names d"
      by (simp add: target_names_def t names_update)
    ultimately show ?thesis by (simp add: e)
  qed
qed

lemma after_targets_inv:
  assumes "flight_inv s d" "loop_inv s d" "loc d = L_target (length (targets d)) stopping retry active"
  shows "flight_inv s (after_targets stopping retry active d) \<and> loop_inv s (after_targets stopping retry active d) \<and>
    target_names (after_targets stopping retry active d) = target_names d"
proof -
  have l: "active = length (filter busy (targets d))" "stopping \<longrightarrow> cancelled d"
    using assms(2,3) by (simp_all add: loop_inv_def busy_below_def)
  have "in_flight d = [] \<longleftrightarrow> active = 0"
  proof -
    have "in_flight d = [] \<longleftrightarrow> fst ` set (in_flight d) = {}" by simp
    also have "\<dots> \<longleftrightarrow> {i. i < length (targets d) \<and> busy (targets d ! i)} = {}"
      using assms(1) by (simp add: flight_inv_def)
    finally have "in_flight d = [] \<longleftrightarrow> {i. i < length (targets d) \<and> busy (targets d ! i)} = {}" .
    then show ?thesis by (auto simp: l(1) filter_empty_conv all_set_conv_all_nth)
  qed
  moreover have f: "in_flight (d\<lparr>loc := L_select b retry\<rparr>) = in_flight d"
    "in_flight (d\<lparr>loc := L_returned e\<rparr>) = in_flight d" for b e
    using assms(3) by (simp_all add: in_flight_underway)
  then have "flight_inv s (after_targets stopping retry active d)"
    by (intro flight_inv_delivery [OF assms(1)]) (simp_all add: after_targets_def)
  ultimately show ?thesis
    using l(2) by (cases "stopping \<and> active = 0") (auto simp: after_targets_def loop_inv_def target_names_def f)
qed

text \<open>The result in the loop's hand is the only attempt of its target.\<close>

lemma result_flight:
  assumes "flight_inv s d" "loc d = L_result r"
  shows "resTarget r < length (targets d)"
    "\<exists>as. waiting s (kind (targets d ! resTarget r)) (tid (targets d ! resTarget r)) = resItem r # as"
    "resTarget r \<notin> fst ` set (underway d)" "distinct (map fst (underway d))"
    "fst ` set (underway d) = {i. i < length (targets d) \<and> busy (targets d ! i)} - {resTarget r}"
    "\<forall>(i, a)\<in>set (underway d). \<exists>as. waiting s (kind (targets d ! i)) (tid (targets d ! i)) = a # as"
proof -
  have f: "in_flight d = underway d @ [(resTarget r, resItem r)]" using assms(2) by (simp add: in_flight_underway)
  from assms(1) have "distinct (map fst (in_flight d))"
    and b: "fst ` set (in_flight d) = {i. i < length (targets d) \<and> busy (targets d ! i)}"
    and w: "\<forall>(i, a)\<in>set (in_flight d). \<exists>as. waiting s (kind (targets d ! i)) (tid (targets d ! i)) = a # as"
    by (simp_all add: flight_inv_def)
  then show n: "resTarget r \<notin> fst ` set (underway d)" "distinct (map fst (underway d))"
    by (simp_all add: f)
  from b have b': "insert (resTarget r) (fst ` set (underway d)) = {i. i < length (targets d) \<and> busy (targets d ! i)}"
    by (simp add: f)
  then show "resTarget r < length (targets d)" by blast
  from b' n(1) show "fst ` set (underway d) = {i. i < length (targets d) \<and> busy (targets d ! i)} - {resTarget r}"
    by (metis Diff_insert_absorb)
qed (use assms in \<open>auto simp: flight_inv_def in_flight_underway\<close>)

lemma release_flight:
  assumes "flight_inv s d" "loc d = L_result r" "kind t = kind (targets d ! resTarget r)"
    and "tid t = tid (targets d ! resTarget r)" "\<not> busy t" "targets d' = (targets d)[resTarget r := t]"
    and "underway d' = underway d" "\<And>r. loc d' \<noteq> L_result r"
    and "\<And>k i a as. (k, i) \<in> set (target_names d) \<Longrightarrow> (k, i) \<noteq> (kind t, tid t) \<Longrightarrow> waiting s k i = a # as \<Longrightarrow> \<exists>as'. waiting s' k i = a # as'"
    and "distinct (target_names d)"
  shows "flight_inv s' d'"
proof -
  note r = result_flight [OF assms(1,2)]
  have f: "in_flight d' = underway d" using assms(7,8) by (auto simp: in_flight_underway split: location.splits)
  have "fst ` set (underway d) = {i. i < length (targets d') \<and> busy (targets d' ! i)}"
    unfolding r(5) using assms(5,6) r(1) by (auto simp: nth_list_update)
  moreover have "\<exists>as. waiting s' (kind (targets d' ! i)) (tid (targets d' ! i)) = a # as"
    if "(i, a) \<in> set (underway d)" for i a
  proof -
    have i: "i < length (targets d)" "i \<noteq> resTarget r" using that r(3,5) by force+
    then have "target_names d ! i \<noteq> target_names d ! resTarget r"
      using nth_eq_iff_index_eq [OF assms(10), of i "resTarget r"] r(1) by (simp add: target_names_def)
    with i r(1) assms(3,4) have "(kind (targets d ! i), tid (targets d ! i)) \<noteq> (kind t, tid t)"
      by (simp add: target_names_def)
    moreover from i have "(kind (targets d ! i), tid (targets d ! i)) \<in> set (target_names d)"
      by (force simp: target_names_def)
    ultimately show ?thesis using assms(9) r(6) that i by (auto simp: assms(6))
  qed
  ultimately show ?thesis using r(4) by (auto simp: flight_inv_def f)
qed

section \<open>Every step keeps the invariant\<close>

lemma ginv_distinct: "ginv g \<Longrightarrow> distinct (target_names (dlv g))"
  by (simp add: ginv_def started_server_def distinct_target_names)

lemma ginv_server_step:
  assumes "ginv g" "started_server s'" "sessions_kept (srv g) s'" "cfg s' = cfg (srv g)"
    and "\<And>k i a as. waiting (srv g) k i = a # as \<Longrightarrow> \<exists>as'. waiting s' k i = a # as'"
  shows "ginv (g\<lparr>srv := s'\<rparr>)"
  using assms flight_inv_server [of "srv g" "dlv g" s'] loop_inv_server [of "srv g" "dlv g" s']
  by (auto simp: ginv_def)

lemma ginv_same_queue:
  assumes "ginv g" "started_server s'" "sessions_kept (srv g) s'" "cfg s' = cfg (srv g)"
    and "queue s' = queue (srv g)" "items s' = items (srv g)"
  shows "ginv (g\<lparr>srv := s'\<rparr>)"
  by (rule ginv_server_step [OF assms(1-4)]) (simp add: waiting_same [OF assms(5,6)])

lemma ginv_started: "ginv g \<Longrightarrow> started_server (srv g)"
  by (simp add: ginv_def)

text \<open>A step of the loop that puts its hand or the channels in order.\<close>

lemma ginv_loop_step:
  assumes "ginv g" "targets d' = targets (dlv g)" "mset (in_flight d') = mset (in_flight (dlv g))" "loop_inv (srv g) d'"
  shows "ginv (g\<lparr>dlv := d'\<rparr>)"
  using assms flight_inv_delivery [of "srv g" "dlv g" d'] by (auto simp: ginv_def target_names_def)

lemma ginv_result:
  assumes "ginv g" "loc (dlv g) = L_result r"
  shows "resTarget r < length (targets (dlv g))" "resItem r \<in> set (queue (srv g))"
    "wants (kind (targets (dlv g) ! resTarget r)) (tid (targets (dlv g) ! resTarget r)) (items (srv g) ! resItem r)"
    "(kind (targets (dlv g) ! resTarget r), tid (targets (dlv g) ! resTarget r))
      \<in> set (target_names (initial_delivery (dests (srv g))))"
proof -
  let ?t = "targets (dlv g) ! resTarget r"
  from assms have f: "flight_inv (srv g) (dlv g)" by (simp add: ginv_def)
  note r = result_flight [OF f assms(2)]
  then show "resTarget r < length (targets (dlv g))" by simp
  from r(2) have "resItem r \<in> set (waiting (srv g) (kind ?t) (tid ?t))" by auto
  then show "resItem r \<in> set (queue (srv g))" "wants (kind ?t) (tid ?t) (items (srv g) ! resItem r)"
    by (simp_all add: waiting_def)
  have "(kind ?t, tid ?t) \<in> set (target_names (dlv g))" using r(1) by (force simp: target_names_def)
  with assms(1) show "(kind ?t, tid ?t) \<in> set (target_names (initial_delivery (dests (srv g))))"
    by (simp add: ginv_def)
qed

lemma failed_result_cases:
  obtains t l where "failed_result now now1 c i e d = l" "targets l = (targets d)[i := t]" "\<not> busy t"
    "kind t = kind (targets d ! i)" "tid t = tid (targets d ! i)" "loc l = L_top" "underway l = underway d"
proof (cases "cancelled d")
  case True
  then show thesis
    by (intro that [OF refl, of "(targets d ! i)\<lparr>busy := False\<rparr>"]) (simp_all add: failed_result_def Let_def underway_def)
next
  case False
  let ?t = "targets d ! i"
  let ?since = "case failedSince ?t of None \<Rightarrow> started ?t | Some f \<Rightarrow> f"
  let ?deadline = "?since + DumpAfterSeconds (DeliveryCfg c) * Second"
  show thesis
  proof (cases "now < ?deadline")
    case True
    with False show thesis
      by (intro that [OF refl, of "?t\<lparr>busy := False, failedSince := Some ?since,
          retryAt := Some (if ?deadline < now1 + Second then ?deadline else now1 + Second)\<rparr>"])
        (simp_all only: failed_result_def Let_def, simp_all add: underway_def)
  next
    case False
    with \<open>\<not> cancelled d\<close> show thesis
      by (intro that [OF refl, of "?t\<lparr>busy := False, failedSince := Some ?since\<rparr>"])
        (simp_all only: failed_result_def Let_def, simp_all add: underway_def)
  qed
qed

lemma ginv_failed:
  assumes "ginv g" "loc (dlv g) = L_result r"
  shows "ginv (g\<lparr>dlv := failed_result now now1 c (resTarget r) e (dlv g)\<rparr>)"
proof -
  let ?d = "dlv g"
  obtain t l where f: "failed_result now now1 c (resTarget r) e ?d = l" "targets l = (targets ?d)[resTarget r := t]" "\<not> busy t"
    "kind t = kind (targets ?d ! resTarget r)" "tid t = tid (targets ?d ! resTarget r)" "loc l = L_top" "underway l = underway ?d"
    by (rule failed_result_cases)
  have "flight_inv (srv g) l"
    by (rule release_flight [where d = ?d and r = r and s = "srv g"])
      (use assms f ginv_distinct in \<open>auto simp: ginv_def\<close>)
  moreover have "target_names l = target_names ?d"
    using f(2,4,5) by (simp add: target_names_def names_update)
  ultimately show ?thesis using assms(1) f(1,6) by (simp add: ginv_def loop_inv_def)
qed

lemma ginv_delivered:
  assumes "ginv g" "loc (dlv g) = L_result r"
    and "delivered_result (resTarget r) (resItem r) (srv g) (dlv g) = (s', d')"
  shows "ginv (g\<lparr>srv := s', dlv := d'\<rparr>)"
proof -
  let ?d = "dlv g" and ?t = "targets (dlv g) ! resTarget r"
  note r = ginv_result [OF assms(1,2)]
  from assms(1) have s: "started_server (srv g)" and names: "target_names ?d = target_names (initial_delivery (dests (srv g)))"
    by (simp_all add: ginv_def)
  note e = delivered_result_effect [OF s r(2) assms(3) r(3)]
  from s r(2) have a: "resItem r < length (items (srv g))" by (auto simp: started_server_def queue_inv_def)
  have p: "proper (kind ?t) (tid ?t)" using r(4) by (rule proper_names)
  let ?t' = "?t\<lparr>busy := False, failedSince := None, retryAt := None\<rparr>"
  have t: "targets d' = (targets ?d)[resTarget r := ?t']" and u: "underway d' = underway ?d"
    by (subst e(6); simp add: underway_def)+
  have other: "waiting s' k i = waiting (srv g) k i" if "(k, i) \<in> set (target_names ?d)" "(k, i) \<noteq> (kind ?t, tid ?t)" for k i
    using delivered_waiting [OF e(5) e(3) a p] that proper_names names by (auto simp: filter_id_conv)
  have "flight_inv s' d'"
    by (rule release_flight [where d = ?d and r = r and s = "srv g" and t = ?t'])
      (use assms(1,2) t u e(7) other ginv_distinct [OF assms(1)] in \<open>auto simp: ginv_def\<close>)
  moreover have "target_names d' = target_names ?d"
    by (simp add: target_names_def t names_update)
  moreover have "loop_inv s' d'" using e(7) by (auto simp: loop_inv_def split: option.splits)
  ultimately show ?thesis using e(1,2) names by (simp add: ginv_def)
qed

text \<open>The steps that change the server.\<close>

lemma ginv_enqueue:
  assumes "enqueue r relay (srv g) = Some (Inr a, s')" "open_session relay (srv g)" "ginv g"
  shows "ginv (g\<lparr>srv := s'\<rparr>)"
proof (rule ginv_server_step [OF assms(3)])
  have s: "started_server (srv g)" using assms(3) by (simp add: ginv_def)
  show "started_server s'" by (rule enqueue_started [OF assms(1,2) s])
  show "sessions_kept (srv g) s'" by (rule enqueue_sessions_kept [OF assms(1,2)])
  show "cfg s' = cfg (srv g)" by (rule enqueue_effect [OF assms(1,2)])
qed (use assms in \<open>simp add: waiting_enqueue [OF assms(1,2)] ginv_def\<close>)

lemma ginv_end_session:
  assumes "sid < length (sessions (srv g))" "\<not> closed (sessions (srv g) ! sid)" "endRelaySession sid (srv g) = (fin, s')" "ginv g"
  shows "ginv (g\<lparr>srv := finish_close (if fin then Some sid else None) s'\<rparr>)"
proof -
  let ?f = "if fin then Some sid else None"
  have s: "started_server (srv g)" using assms(4) by (simp add: ginv_def)
  note e = end_session_started [OF s assms(1-3)]
  show ?thesis
  proof (rule ginv_same_queue [OF assms(4)])
    show "started_server (finish_close ?f s')"
      by (rule finish_close_started) (use e assms(1) in \<open>auto split: if_splits\<close>)
    show "sessions_kept (srv g) (finish_close ?f s')"
      by (rule finish_close_kept [OF end_session_kept [OF assms(1-3)]])
        (use assms(2) in \<open>auto simp: ready_def split: if_splits\<close>)
  qed (simp_all add: e(4-6))
qed

lemma ginv_wake:
  assumes "loc (dlv g) = L_select stopping retry" "ginv g"
  shows "ginv (g\<lparr>srv := (srv g)\<lparr>wake := False\<rparr>, dlv := (dlv g)\<lparr>loc := L_top\<rparr>\<rparr>)"
proof -
  have "ginv (g\<lparr>dlv := (dlv g)\<lparr>loc := L_top\<rparr>\<rparr>)"
    using assms by (intro ginv_loop_step) (simp_all add: in_flight_underway loop_inv_def)
  moreover have "started_server ((srv g)\<lparr>wake := False\<rparr>)"
    using assms(2) by (subst started_server_cong [of _ "srv g"]) (simp_all add: ginv_started)
  ultimately show ?thesis
    using ginv_same_queue [of "g\<lparr>dlv := (dlv g)\<lparr>loc := L_top\<rparr>\<rparr>" "(srv g)\<lparr>wake := False\<rparr>"]
    by (cases g) (simp add: sessions_kept_def)
qed

lemma ginv_close:
  assumes "loc (dlv g) = L_close f" "ginv g"
  shows "ginv (g\<lparr>srv := finish_close f (srv g), dlv := (note_error err (dlv g))\<lparr>loc := L_top\<rparr>\<rparr>)"
proof -
  have s: "started_server (srv g)" "loop_inv (srv g) (dlv g)" using assms(2) by (simp_all add: ginv_def)
  have "ginv (g\<lparr>dlv := (note_error err (dlv g))\<lparr>loc := L_top\<rparr>\<rparr>)"
    using assms by (intro ginv_loop_step) (simp_all add: in_flight_underway loop_inv_def)
  moreover have "started_server (finish_close f (srv g))"
    by (rule finish_close_started) (use s assms(1) in \<open>auto simp: loop_inv_def ready_def\<close>)
  moreover have "flight_inv (finish_close f (srv g)) d" if "flight_inv (srv g) d" for d
    by (rule flight_inv_server [OF that]) (auto simp: waiting_def)
  ultimately show ?thesis by (simp add: ginv_def loop_inv_def)
qed

theorem ginv_step: "gstep g l g' \<Longrightarrow> ginv g \<Longrightarrow> ginv g'"
proof (induction rule: gstep.induct)
  case (g_enqueue r relay g a s')
  then show ?case by (rule ginv_enqueue)
next
  case (g_new_session random g res s')
  note k = new_session_kept [OF g_new_session.hyps]
  have "started_server s'"
    using new_session_started [OF g_new_session.hyps] g_new_session.prems by (simp add: ginv_def)
  then show ?case by (rule ginv_same_queue [OF g_new_session.prems _ k])
next
  case (g_end_session sid g fin s')
  then show ?case by (rule ginv_end_session)
next
  case (g_stop g)
  from g_stop.prems have "started_server ((srv g)\<lparr>accepting := False\<rparr>)"
    by (subst started_server_cong [of _ "srv g"]) (simp_all add: ginv_started)
  then show ?case by (rule ginv_same_queue [OF g_stop.prems]) (simp_all add: sessions_kept_def)
next
  case (g_cancel g)
  then show ?case
    by (intro ginv_loop_step) (auto simp: in_flight_underway ginv_def loop_inv_def busy_below_def split: location.splits)
next
  case (g_worker g ws w ws' err)
  then show ?case
    by (intro ginv_loop_step) (auto simp: in_flight_underway underway_def ginv_def loop_inv_def busy_below_def split: location.splits)
next
  case (g_top g s' d')
  then have s: "started_server (srv g)" by (simp add: ginv_def)
  note e = loop_top_started [OF s g_top.hyps(2)]
  from g_top.prems e show ?case
    by (simp add: ginv_def loop_inv_def flight_inv_def in_flight_underway g_top.hyps(1) target_names_def busy_below_def)
next
  case (g_target g i stopping retry active now now1 now2)
  then show ?case using at_target_inv [of "srv g" "dlv g" i stopping retry active now now1 now2] by (simp add: ginv_def)
next
  case (g_after g i stopping retry active)
  then show ?case using after_targets_inv [of "srv g" "dlv g" stopping retry active] by (simp add: ginv_def)
next
  case (g_context g retry)
  then show ?case by (intro ginv_loop_step) (simp_all add: in_flight_underway loop_inv_def)
next
  case (g_wake g stopping retry)
  from g_wake.hyps(1) g_wake.prems show ?case by (rule ginv_wake)
next
  case (g_retry g stopping t)
  then show ?case by (intro ginv_loop_step) (simp_all add: in_flight_underway loop_inv_def)
next
  case (g_receive g stopping retry r rs)
  then show ?case by (intro ginv_loop_step) (simp_all add: in_flight_underway underway_def loop_inv_def)
next
  case (g_failed g r e now now1)
  then show ?case by (intro ginv_failed)
next
  case (g_delivered g r s' d')
  then show ?case by (intro ginv_delivered)
next
  case (g_dump g f err)
  then show ?case
    by (intro ginv_loop_step) (auto simp: in_flight_underway ginv_def loop_inv_def)
next
  case (g_close g f err)
  from g_close.hyps(1) g_close.prems show ?case by (rule ginv_close)
qed

section \<open>The initial state and runs\<close>

lemma started_ginv: "started_gateway g \<Longrightarrow> ginv g"
proof -
  assume g: "started_gateway g"
  have "\<not> busy t" if "t \<in> set (initial_targets d)" for t d
    using that by (auto simp: initial_targets_def new_target_def split: if_splits)
  then have "flight_inv s (initial_delivery d)" for s d
    using nth_mem by (fastforce simp: flight_inv_def in_flight_def initial_delivery_def)
  with g show "ginv g" by (simp add: started_gateway_def ginv_def loop_inv_def initial_delivery_def)
qed

lemma ginv_run: "grun g ls g' \<Longrightarrow> ginv g \<Longrightarrow> ginv g'"
  by (induction rule: grun.induct) (auto intro: ginv_step)

lemma started_run_ginv: "started_gateway g \<Longrightarrow> grun g ls g' \<Longrightarrow> ginv g'"
  using ginv_run started_ginv by blast

end
