(* ===== verification/Delivery_Properties.thy ===== *)
theory Delivery_Properties
  imports Delivery_Loop
begin

text \<open>
  What the delivery loop promises over whole runs, for any interleaving with the connections and
  any results of the writers: each destination gets the packets accepted for it in their order,
  none lost and none twice; a connection is told of a delivery when it is complete; the
  outgoing connections of a session are closed once, behind its last packet.
\<close>

section \<open>The line of a target\<close>

definition accepted1 :: "kind \<Rightarrow> string \<Rightarrow> label \<Rightarrow> nat list" where
  "accepted1 k i l = (case l of Enqueued a p \<Rightarrow> if wants k i p then [a] else [] | _ \<Rightarrow> [])"

definition delivered1 :: "kind \<Rightarrow> string \<Rightarrow> label \<Rightarrow> nat list" where
  "delivered1 k i l = (case l of Delivered k' i' a \<Rightarrow> if (k', i') = (k, i) then [a] else [] | _ \<Rightarrow> [])"

text \<open>The packets accepted for a target and the packets delivered to it, in order.\<close>

definition accepted :: "kind \<Rightarrow> string \<Rightarrow> label list \<Rightarrow> nat list" where
  "accepted k i ls = concat (map (accepted1 k i) ls)"

definition delivered :: "kind \<Rightarrow> string \<Rightarrow> label list \<Rightarrow> nat list" where
  "delivered k i ls = concat (map (delivered1 k i) ls)"

lemma accepted_simps [simp]: "accepted k i [] = []" "accepted k i (ls @ ls') = accepted k i ls @ accepted k i ls'"
  "accepted k i [l] = accepted1 k i l"
  by (simp_all add: accepted_def)

lemma delivered_simps [simp]: "delivered k i [] = []" "delivered k i (ls @ ls') = delivered k i ls @ delivered k i ls'"
  "delivered k i [l] = delivered1 k i l"
  by (simp_all add: delivered_def)

lemma closed_label_moves [simp]: "accepted1 k i (closed_label f) = []" "delivered1 k i (closed_label f) = []"
  by (cases f; simp add: closed_label_def accepted1_def delivered1_def)+

lemma in_accepted: "a \<in> set (accepted k i ls) \<longleftrightarrow> (\<exists>p. Enqueued a p \<in> set ls \<and> wants k i p)"
  by (induction ls) (auto simp: accepted_def accepted1_def split: label.splits)

lemma count_delivered_list: "count_list (delivered k i ls) a = count_list ls (Delivered k i a)"
  by (induction ls) (auto simp: delivered_def delivered1_def split: label.splits)

lemma waiting_delivered:
  assumes "ginv g" "loc (dlv g) = L_result r" "(k, i) \<in> set (target_names (dlv g))"
    and "delivered_result (resTarget r) (resItem r) (srv g) (dlv g) = (s', d')"
  shows "waiting (srv g) k i =
    (if (kind (targets (dlv g) ! resTarget r), tid (targets (dlv g) ! resTarget r)) = (k, i) then [resItem r] else [])
      @ waiting s' k i"
proof -
  let ?t = "targets (dlv g) ! resTarget r"
  note r = ginv_result [OF assms(1,2)]
  from assms(1) have s: "started_server (srv g)" and f: "flight_inv (srv g) (dlv g)"
    and names: "target_names (dlv g) = target_names (initial_delivery (dests (srv g)))"
    by (simp_all add: ginv_def)
  note e = delivered_result_effect [OF s r(2) assms(4) r(3)]
  from s r(2) have a: "resItem r < length (items (srv g))" and q: "distinct (queue (srv g))"
    by (auto simp: started_server_def queue_inv_def)
  have w: "waiting s' k i = filter (\<lambda>b. b \<noteq> resItem r \<or> (k, i) \<noteq> (kind ?t, tid ?t)) (waiting (srv g) k i)"
    using assms(3) r(4) names by (intro delivered_waiting [OF e(5,3) a]) (auto intro: proper_names)
  show ?thesis
  proof (cases "(kind ?t, tid ?t) = (k, i)")
    case True
    with result_flight(2) [OF f assms(2)] obtain as where as: "waiting (srv g) k i = resItem r # as" by auto
    moreover from q have "distinct (waiting (srv g) k i)" by (simp add: waiting_def)
    ultimately have "resItem r \<notin> set as" by simp
    then have "filter (\<lambda>b. b \<noteq> resItem r) as = as" by (auto simp: filter_id_conv)
    with True as show ?thesis by (simp add: w)
  next
    case False
    then show ?thesis by (auto simp: w filter_id_conv)
  qed
qed

lemma line_step:
  assumes "gstep g l g'" "ginv g" "(k, i) \<in> set (target_names (initial_delivery (dests (srv g))))"
  shows "waiting (srv g) k i @ accepted1 k i l = delivered1 k i l @ waiting (srv g') k i"
  using assms
proof (induction rule: gstep.induct)
  case (g_enqueue r relay g a s')
  then show ?case
    using waiting_enqueue [OF g_enqueue.hyps ginv_started] by (simp add: accepted1_def delivered1_def)
next
  case (g_new_session random g res s')
  note k = new_session_kept [OF g_new_session.hyps]
  show ?case using waiting_same [OF k(3,4)] by (simp add: accepted1_def delivered1_def)
next
  case (g_end_session sid g fin s')
  note e = end_session_started [OF ginv_started [OF g_end_session.prems(1)] g_end_session.hyps]
  have "waiting (finish_close f s') k i = waiting (srv g) k i" for f
    by (rule waiting_same) (simp_all add: e(5,6))
  then show ?case by simp
next
  case (g_top g s' d')
  then show ?case using loop_top_started(2) [OF ginv_started g_top.hyps(2)]
    by (simp add: accepted1_def delivered1_def)
next
  case (g_delivered g r s' d')
  then have "(k, i) \<in> set (target_names (dlv g))" by (simp add: ginv_def)
  from waiting_delivered [OF g_delivered.prems(1) g_delivered.hyps(1) this g_delivered.hyps(3)]
  show ?case by (simp add: accepted1_def delivered1_def)
next
  case (g_close g f err)
  have "waiting (finish_close f (srv g)) k i = waiting (srv g) k i"
    by (rule waiting_same) simp_all
  then show ?case by simp
qed (simp_all add: accepted1_def delivered1_def waiting_def)

lemma cfg_step: "gstep g l g' \<Longrightarrow> ginv g \<Longrightarrow> cfg (srv g') = cfg (srv g)"
proof (induction rule: gstep.induct)
  case (g_enqueue r relay g a s')
  have "cfg s' = cfg (srv g)" by (rule enqueue_effect [OF g_enqueue.hyps])
  then show ?case by simp
next
  case (g_new_session random g res s')
  show ?case using new_session_kept(2) [OF g_new_session.hyps] by simp
next
  case (g_end_session sid g fin s')
  show ?case using end_session_started(4) [OF ginv_started [OF g_end_session.prems(1)] g_end_session.hyps] by simp
next
  case (g_top g s' d')
  then show ?case using loop_top_started(4) [OF ginv_started g_top.hyps(2)] by simp
next
  case (g_delivered g r s' d')
  note r = ginv_result [OF g_delivered.prems g_delivered.hyps(1)]
  show ?case
    using delivered_result_effect(2) [OF ginv_started [OF g_delivered.prems] r(2) g_delivered.hyps(3) r(3)] by simp
qed simp_all

lemma cfg_run: "grun g ls g' \<Longrightarrow> ginv g \<Longrightarrow> cfg (srv g') = cfg (srv g)"
  by (induction rule: grun.induct) (auto simp: cfg_step ginv_run)

lemma line_run:
  assumes "grun g ls g'" "ginv g" "(k, i) \<in> set (target_names (initial_delivery (dests (srv g))))"
  shows "waiting (srv g) k i @ accepted k i ls = delivered k i ls @ waiting (srv g') k i"
  using assms
proof (induction rule: grun.induct)
  case (run_snoc g ls g' l g'')
  from run_snoc have "ginv g'" "cfg (srv g') = cfg (srv g)" by (auto intro: ginv_run cfg_run)
  with line_step [OF run_snoc.hyps(2), of k i] run_snoc
  have step: "waiting (srv g') k i @ accepted1 k i l = delivered1 k i l @ waiting (srv g'') k i"
    and run: "waiting (srv g) k i @ accepted k i ls = delivered k i ls @ waiting (srv g') k i" by simp_all
  have "waiting (srv g) k i @ accepted k i (ls @ [l]) = (delivered k i ls @ waiting (srv g') k i) @ accepted1 k i l"
    by (simp flip: run)
  also have "\<dots> = delivered k i (ls @ [l]) @ waiting (srv g'') k i" by (simp add: step)
  finally show ?case .
qed simp

section \<open>Addresses and sessions over a run\<close>

lemma line_distinct_step:
  assumes "gstep g l g'" "ginv g"
  shows "length (items (srv g')) \<ge> length (items (srv g)) \<and>
    (\<forall>a p. l = Enqueued a p \<longrightarrow> a = length (items (srv g)) \<and> a < length (items (srv g')))"
  using assms
proof (induction rule: gstep.induct)
  case (g_enqueue r relay g a s')
  obtain ids where "a = length (items (srv g))" "items s' = items (srv g) @ [new_item (srv g) r relay ids]"
    using enqueue_effect [OF g_enqueue.hyps] by metis
  then show ?case by simp
next
  case (g_new_session random g res s')
  show ?case using new_session_kept(4) [OF g_new_session.hyps] by simp
next
  case (g_end_session sid g fin s')
  show ?case using end_session_started(5) [OF ginv_started [OF g_end_session.prems] g_end_session.hyps]
    by (auto simp: closed_label_def)
next
  case (g_top g s' d')
  obtain its where "loop_top (srv g) (dlv g) = Some
      ((srv g)\<lparr>items := its, queue := filter (\<lambda>a. \<not> finished_item (items (srv g) ! a)) (queue (srv g))\<rparr>,
       (dlv g)\<lparr>loc := L_target 0 (cancelled (dlv g)) None 0\<rparr>)" "length its = length (items (srv g))"
    by (rule loop_top_effect [OF ginv_started [OF g_top.prems]])
  with g_top.hyps(2) show ?case by auto
next
  case (g_delivered g r s' d')
  note r = ginv_result [OF g_delivered.prems g_delivered.hyps(1)]
  show ?case
    using delivered_result_effect(5) [OF ginv_started [OF g_delivered.prems] r(2) g_delivered.hyps(3) r(3)] by simp
next
  case (g_close g f err)
  show ?case by (auto simp: closed_label_def split: option.splits)
qed simp_all

text \<open>No address is accepted twice.\<close>

lemma line_distinct:
  assumes "grun g ls g'" "ginv g"
  shows "distinct (waiting (srv g) k i @ accepted k i ls) \<and>
    set (waiting (srv g) k i @ accepted k i ls) \<subseteq> {..<length (items (srv g'))}"
  using assms
proof (induction rule: grun.induct)
  case (run_nil g)
  then show ?case by (auto simp: ginv_def started_server_def queue_inv_def waiting_def)
next
  case (run_snoc g ls g' l g'')
  then have "ginv g'" by (auto intro: ginv_run)
  from line_distinct_step [OF run_snoc.hyps(2) this] run_snoc show ?case
    by (auto simp: accepted1_def split: label.splits)
qed

lemma kept_waiting_accepted:
  assumes "grun g ls g'" "ginv g" "(k, i) \<in> set (target_names (initial_delivery (dests (srv g))))"
  shows "distinct (delivered k i ls @ waiting (srv g') k i)"
  using line_distinct [OF assms(1,2), of k i] line_run [OF assms] by simp

text \<open>What a closing step says of its session.\<close>

lemma closing_step:
  assumes "gstep g (Closed sid) g'" "ginv g"
  shows "sid < length (sessions (srv g))" "\<not> writersClosed (sessions (srv g) ! sid)"
    "sid < length (sessions (srv g'))" "writersClosed (sessions (srv g') ! sid)"
proof -
  have *: "sid < length (sessions (srv g)) \<and> \<not> writersClosed (sessions (srv g) ! sid) \<and>
    sid < length (sessions (srv g')) \<and> writersClosed (sessions (srv g') ! sid)"
    using assms
  proof (induction g "Closed sid" g' rule: gstep.induct)
    case (g_end_session sid' g fin s')
    then have f: "fin" "sid' = sid" by (auto simp: closed_label_def split: if_splits)
    have "\<not> writersClosed (sessions (srv g) ! sid)"
      using ginv_started [OF g_end_session.prems] g_end_session.hyps f by (auto simp: started_server_def session_inv_def)
    with g_end_session.hyps f end_session_started(3) [OF ginv_started [OF g_end_session.prems] g_end_session.hyps(1-3)]
    show ?case by simp
  next
    case (g_close g f err)
    then have f: "f = Some sid" by (simp add: closed_label_def split: option.splits)
    with g_close have "sid < length (sessions (srv g))" "ready (sessions (srv g) ! sid)"
      by (simp_all add: ginv_def loop_inv_def)
    with f show ?case by (simp add: ready_def)
  qed
  then show "sid < length (sessions (srv g))" "\<not> writersClosed (sessions (srv g) ! sid)"
    "sid < length (sessions (srv g'))" "writersClosed (sessions (srv g') ! sid)" by simp_all
qed

lemma writersClosed_step:
  assumes "gstep g l g'" "ginv g" "sid < length (sessions (srv g))" "writersClosed (sessions (srv g) ! sid)"
  shows "sid < length (sessions (srv g')) \<and> writersClosed (sessions (srv g') ! sid)"
  using assms
proof (induction rule: gstep.induct)
  case (g_enqueue r relay g a s')
  obtain ids where "sessions s' = sessions (count_pending (new_item (srv g) r relay ids) (srv g))"
    using enqueue_effect [OF g_enqueue.hyps] by metis
  with g_enqueue.prems show ?case by (simp add: count_pending_session)
next
  case (g_new_session random g res s')
  from new_session_effect [OF g_new_session.hyps] g_new_session.prems show ?case
    by cases (auto simp: nth_append)
next
  case (g_end_session sid' g fin s')
  then have "sessions s' = (sessions (srv g))[sid' := (sessions (srv g) ! sid')\<lparr>closed := True\<rparr>]"
    by (auto simp: endRelaySession_def Let_def)
  with g_end_session show ?case by (auto simp: nth_list_update)
next
  case (g_top g s' d')
  then show ?case using loop_top_started(3) [OF ginv_started g_top.hyps(2)] by simp
next
  case (g_delivered g r s' d')
  note r = ginv_result [OF g_delivered.prems(1) g_delivered.hyps(1)]
  obtain f where "count_delivered (kind (targets (dlv g) ! resTarget r)) (resItem r)
      ((srv g)\<lparr>items := (items (srv g))[resItem r := delivered_item (kind (targets (dlv g) ! resTarget r))
        (tid (targets (dlv g) ! resTarget r)) (items (srv g) ! resItem r)]\<rparr>) = (f, s')"
    using g_delivered.hyps(3) by (auto simp: delivered_result_def Let_def split: prod.splits)
  from count_delivered_effect(4,6) [OF this] g_delivered.prems show ?case by simp
qed simp_all

lemma closed_writers:
  assumes "grun g ls g'" "ginv g" "Closed sid \<in> set ls"
  shows "sid < length (sessions (srv g')) \<and> writersClosed (sessions (srv g') ! sid)"
  using assms
proof (induction rule: grun.induct)
  case (run_snoc g ls g' l g'')
  then have i: "ginv g'" by (auto intro: ginv_run)
  show ?case
  proof (cases "l = Closed sid")
    case True
    with closing_step [OF _ i] run_snoc.hyps(2) show ?thesis by blast
  next
    case False
    with run_snoc writersClosed_step [OF run_snoc.hyps(2) i] show ?thesis by auto
  qed
qed simp

inductive_cases grun_snoc: "grun g (ls @ [l]) g'"

lemma grun_last: "grun g (ls @ [l]) g'' \<Longrightarrow> \<exists>g'. grun g ls g' \<and> gstep g' l g''"
  by (erule grun_snoc) auto

text \<open>When the writers of a session are closed, nothing waits for them.\<close>

lemma writersClosed_empty:
  assumes "session_inv s" "sid < length (sessions s)" "writersClosed (sessions s ! sid)"
    and "p \<in> set (items s)" "item_session p = Some sid"
  shows "pEGTS p = {}"
proof -
  from assms have "session_total s sid = 0" "item_ok s p" by (auto simp: session_inv_def)
  with open_targets_le [OF assms(4), of sid] have "open_targets sid p \<le> 0" by (simp add: session_total_def)
  with assms(5) \<open>item_ok s p\<close> finite_configured show ?thesis
    by (auto simp: open_targets_def item_ok_def)
qed

text \<open>An attempt on its way finds its packet waiting, and its session's writer open.\<close>

lemma attempt_sound:
  assumes "ginv g" "(j, a) \<in> set (in_flight (dlv g))"
  shows "\<exists>t. t = targets (dlv g) ! j \<and> j < length (targets (dlv g)) \<and>
      (\<exists>as. waiting (srv g) (kind t) (tid t) = a # as) \<and>
      (kind t = K_egts \<longrightarrow> (\<exists>sid. item_session (items (srv g) ! a) = Some sid \<and>
         tid t \<in> writers (sessions (srv g) ! sid) \<and> \<not> writersClosed (sessions (srv g) ! sid)))"
proof -
  from assms(1) have f: "flight_inv (srv g) (dlv g)" and s: "session_inv (srv g)" "queue_inv (srv g)"
    by (simp_all add: ginv_def started_server_def)
  let ?t = "targets (dlv g) ! j"
  from f assms(2) obtain as where j: "j < length (targets (dlv g))" and w: "waiting (srv g) (kind ?t) (tid ?t) = a # as"
    by (force simp: flight_inv_def)
  then have "a \<in> set (waiting (srv g) (kind ?t) (tid ?t))" by simp
  then have a: "a < length (items (srv g))" "wants (kind ?t) (tid ?t) (items (srv g) ! a)"
    using s(2) by (auto simp: waiting_def queue_inv_def)
  with s(1) have ok: "item_ok (srv g) (items (srv g) ! a)" by (simp add: session_inv_def)
  have "\<exists>sid. item_session (items (srv g) ! a) = Some sid \<and> tid ?t \<in> writers (sessions (srv g) ! sid) \<and>
      \<not> writersClosed (sessions (srv g) ! sid)" if "kind ?t = K_egts"
  proof -
    from that a(2) have e: "tid ?t \<in> pEGTS (items (srv g) ! a)" by (simp add: wants_def)
    with ok obtain sid where sid: "item_session (items (srv g) ! a) = Some sid" "sid < length (sessions (srv g))"
      "tid ?t \<in> writers (sessions (srv g) ! sid)"
      by (fastforce simp: item_ok_def configured_def)
    with writersClosed_empty [OF s(1) sid(2) _ nth_mem [OF a(1)] sid(1)] e show ?thesis by auto
  qed
  with j w show ?thesis by simp
qed

end
