(* ===== verification/Delivery_Wake.thy ===== *)
theory Delivery_Wake
  imports Delivery_Properties
begin

text \<open>
  Two invariants of the delivery loop about what it must not forget: a session that ended is
  closed, and a loop that sleeps has nothing to do.
\<close>

section \<open>Sessions that ended\<close>

text \<open>A session that is closed with nothing pending has its writers closed, or the loop is about to.\<close>

definition leak_inv :: "gateway \<Rightarrow> bool" where
  "leak_inv g \<longleftrightarrow>
     (\<forall>sid<length (sessions (srv g)). ready (sessions (srv g) ! sid) \<longrightarrow>
        loc (dlv g) = L_dump (Some sid) \<or> loc (dlv g) = L_close (Some sid))"

lemma leak_inv_idle:
  assumes "leak_inv g" "\<And>f. loc (dlv g) \<noteq> L_dump f" "\<And>f. loc (dlv g) \<noteq> L_close f"
    and "\<And>sid. sid < length (sessions s') \<Longrightarrow> ready (sessions s' ! sid) \<Longrightarrow>
      sid < length (sessions (srv g)) \<and> ready (sessions (srv g) ! sid)"
  shows "leak_inv (g\<lparr>srv := s', dlv := d'\<rparr>)"
  using assms by (auto simp: leak_inv_def)

lemma leak_inv_server:
  assumes "leak_inv g" "\<And>sid. sid < length (sessions s') \<Longrightarrow> ready (sessions s' ! sid) \<Longrightarrow>
      sid < length (sessions (srv g)) \<and> ready (sessions (srv g) ! sid)"
  shows "leak_inv (g\<lparr>srv := s'\<rparr>)"
  using assms by (auto simp: leak_inv_def)

lemma at_target_loc: "\<exists>r n. loc (at_target now now1 now2 s i b r' n' d) = L_target (Suc i) b r n"
  by (rule at_target_split [of now now1 now2 s i b r' n' d]) auto

lemma count_delivered_ready:
  assumes "count_delivered k a s = (f, s')" "sid < length (sessions s)" "ready (sessions s' ! sid)"
  shows "ready (sessions s ! sid) \<or> f = Some sid"
proof (cases "k = K_egts \<and> item_session (items s ! a) = Some sid")
  case True
  with assms show ?thesis
    by (auto simp: count_delivered_def Let_def ready_def split: if_splits)
next
  case False
  with count_delivered_effect(6) [OF assms(1,2)] assms(3) show ?thesis by (auto simp: ready_def)
qed

lemma leak_step: "gstep g l g' \<Longrightarrow> ginv g \<Longrightarrow> leak_inv g \<Longrightarrow> leak_inv g'"
proof (induction rule: gstep.induct)
  case (g_enqueue r relay g a s')
  obtain ids where e: "sessions s' = sessions (count_pending (new_item (srv g) r relay ids) (srv g))"
    and own: "\<And>sid. item_session (new_item (srv g) r relay ids) = Some sid \<Longrightarrow> \<not> closed (sessions (srv g) ! sid)"
    using enqueue_effect [OF g_enqueue.hyps] by metis
  show ?case
  proof (rule leak_inv_server [OF g_enqueue.prems(2)])
    fix sid
    assume sid: "sid < length (sessions s')" "ready (sessions s' ! sid)"
    then have "closed (sessions (srv g) ! sid)" by (simp add: e count_pending_session ready_def)
    with own have "open_targets sid (new_item (srv g) r relay ids) = 0" by (auto simp: open_targets_def)
    with sid show "sid < length (sessions (srv g)) \<and> ready (sessions (srv g) ! sid)"
      by (simp add: e count_pending_session ready_def)
  qed
next
  case (g_new_session random g res s')
  from new_session_effect [OF g_new_session.hyps] g_new_session.prems(2) show ?case
    by cases (auto simp: nth_append ready_def split: if_splits intro!: leak_inv_server)
next
  case (g_end_session sid g fin s')
  then have s': "sessions s' = (sessions (srv g))[sid := (sessions (srv g) ! sid)\<lparr>closed := True\<rparr>]"
    "fin \<longleftrightarrow> pending (sessions (srv g) ! sid) = 0"
    by (auto simp: endRelaySession_def Let_def)
  show ?case
    using g_end_session.hyps(1)
    by (intro leak_inv_server [OF g_end_session.prems(2)]) (auto simp: s' nth_list_update ready_def split: if_splits)
next
  case (g_delivered g r s' d')
  note r = ginv_result [OF g_delivered.prems(1) g_delivered.hyps(1)]
  let ?k = "kind (targets (dlv g) ! resTarget r)"
  obtain f where c: "count_delivered ?k (resItem r)
      ((srv g)\<lparr>items := (items (srv g))[resItem r := delivered_item ?k
        (tid (targets (dlv g) ! resTarget r)) (items (srv g) ! resItem r)]\<rparr>) = (f, s')"
    and d': "loc d' = L_dump f"
    using g_delivered.hyps(3) by (auto simp: delivered_result_def Let_def split: prod.splits)
  have "ready (sessions s' ! sid) \<Longrightarrow> sid < length (sessions s') \<Longrightarrow> ready (sessions (srv g) ! sid) \<or> f = Some sid" for sid
    using count_delivered_ready [OF c, of sid] count_delivered_effect(4) [OF c] by simp
  moreover have "length (sessions s') = length (sessions (srv g))"
    using count_delivered_effect(4) [OF c] by simp
  ultimately show ?case using g_delivered.prems(2) g_delivered.hyps(1) by (auto simp: leak_inv_def d')
next
  case (g_target g i stopping retry active now now1 now2)
  then show ?case
    using at_target_loc [of now now1 now2 "srv g" i stopping retry active "dlv g"] by (auto simp: leak_inv_def)
next
  case (g_close g f err)
  then show ?case by (auto simp: leak_inv_def ready_def)
qed (auto simp: leak_inv_def loop_top_started(3,5) [OF ginv_started] after_targets_def failed_result_def Let_def)

lemma leak_run: "grun g ls g' \<Longrightarrow> ginv g \<Longrightarrow> leak_inv g \<Longrightarrow> leak_inv g'"
  by (induction rule: grun.induct) (auto intro: leak_step ginv_run)

section \<open>Waking up\<close>

text \<open>
  A target that the loop has passed has an attempt on its way, or nothing waits for it, or the
  loop will try again: by the timer or because a packet came in since.
\<close>

definition attended :: "server \<Rightarrow> delivery \<Rightarrow> bool \<Rightarrow> gotime option \<Rightarrow> deliveryTarget \<Rightarrow> bool" where
  "attended s d stopping retry t \<longleftrightarrow>
     busy t \<or> stopping \<or> waiting s (kind t) (tid t) = [] \<or> retry \<noteq> None \<or> wake s"

definition wake_inv :: "gateway \<Rightarrow> bool" where
  "wake_inv g \<longleftrightarrow>
     (case loc (dlv g) of
        L_target i stopping retry active \<Rightarrow>
          \<forall>t\<in>set (take i (targets (dlv g))). attended (srv g) (dlv g) stopping retry t
      | L_select stopping retry \<Rightarrow> \<forall>t\<in>set (targets (dlv g)). attended (srv g) (dlv g) stopping retry t
      | _ \<Rightarrow> True)"

lemma wake_inv_same:
  assumes "wake_inv g" "targets d' = targets (dlv g)" "loc d' = loc (dlv g)"
    and "\<And>k i. waiting s' k i = waiting (srv g) k i" "wake s' = wake (srv g)"
  shows "wake_inv \<lparr>srv = s', dlv = d'\<rparr>"
  using assms by (auto simp: wake_inv_def attended_def split: location.splits)

lemma next_item_None: "next_item s t = None \<Longrightarrow> waiting s (kind t) (tid t) = []"
  by (auto simp: next_item_def waiting_def find_None_iff filter_empty_conv)

lemma attended_target:
  assumes "attended s d stopping retry t"
  shows "attended s d stopping (earlier u retry) t"
  using assms by (auto simp: attended_def earlier_def split: option.splits)

text \<open>Only a step of the loop empties its wake channel or moves it; a packet that comes in fills it.\<close>

lemma wake_server:
  assumes "wake_inv g" "dlv g' = dlv g"
    and "wake (srv g') \<or> wake (srv g') = wake (srv g) \<and> (\<forall>k i. waiting (srv g') k i = waiting (srv g) k i)"
  shows "wake_inv g'"
  using assms by (auto simp: wake_inv_def attended_def split: location.splits)

lemma wake_at_target:
  assumes "wake_inv g" "loc (dlv g) = L_target i stopping retry active" "i < length (targets (dlv g))"
  shows "wake_inv (g\<lparr>dlv := at_target now now1 now2 (srv g) i stopping retry active (dlv g)\<rparr>)"
proof -
  let ?d = "dlv g" and ?t = "targets (dlv g) ! i"
  have before: "\<forall>t\<in>set (take i (targets ?d)). attended (srv g) d stopping retry t" for d
    using assms(1,2) by (simp add: wake_inv_def attended_def)
  consider "busy ?t" | "\<not> busy ?t" "stopping" | "\<not> busy ?t" "\<not> stopping" "waits now ?t"
    | "\<not> busy ?t" "\<not> stopping" "\<not> waits now ?t" "next_item (srv g) ?t = None"
    | a where "\<not> busy ?t" "\<not> stopping" "\<not> waits now ?t" "next_item (srv g) ?t = Some a"
    by blast
  then show ?thesis
  proof cases
    case 3
    then have "earlier (the (retryAt ?t)) retry \<noteq> None" by (simp add: earlier_def split: option.splits)
    with 3 show ?thesis by (simp add: at_target_def wake_inv_def attended_def)
  next
    case 5
    then show ?thesis
      using before assms(3) by (auto simp: at_target_def Let_def wake_inv_def take_Suc_conv_app_nth attended_def)
  qed (use before assms(3) in \<open>auto simp: at_target_def Let_def wake_inv_def take_Suc_conv_app_nth attended_def
        dest: next_item_None\<close>)
qed

lemma wake_step: "gstep g l g' \<Longrightarrow> ginv g \<Longrightarrow> wake_inv g \<Longrightarrow> wake_inv g'"
proof (induction rule: gstep.induct)
  case (g_enqueue r relay g a s')
  have "wake s'" using g_enqueue.hyps(1)
    by (auto simp: enqueue_def Let_def split: if_splits option.splits sum.splits)
  then show ?case by (intro wake_server [OF g_enqueue.prems(2)]) simp_all
next
  case (g_new_session random g res s')
  note k = new_session_kept [OF g_new_session.hyps]
  have "wake s' = wake (srv g)" by (rule new_session_effect [OF g_new_session.hyps]) simp_all
  then show ?case using waiting_same [OF k(3,4)] by (intro wake_server [OF g_new_session.prems(2)]) simp_all
next
  case (g_end_session sid g fin s')
  note e = end_session_started [OF ginv_started [OF g_end_session.prems(1)] g_end_session.hyps]
  have "waiting (finish_close f s') k i = waiting (srv g) k i" for f k i
    by (rule waiting_same) (simp_all add: e(5,6))
  moreover have "wake (finish_close f s') = wake (srv g)" for f
    using g_end_session.hyps(3)
    by (auto simp: endRelaySession_def Let_def unregister_def finish_close_def close_session_def split: option.splits)
  ultimately show ?case by (intro wake_server [OF g_end_session.prems(2)]) simp_all
next
  case (g_stop g)
  then show ?case by (intro wake_server [OF g_stop.prems(2)]) (simp_all add: waiting_def)
next
  case (g_top g s' d')
  then show ?case by (simp add: wake_inv_def loop_top_started(5) [OF ginv_started g_top.hyps(2)])
next
  case (g_target g i stopping retry active now now1 now2)
  then show ?case by (intro wake_at_target)
next
  case (g_delivered g r s' d')
  then show ?case by (auto simp: delivered_result_def Let_def wake_inv_def split: prod.splits)
qed (auto simp: wake_inv_def attended_def after_targets_def failed_result_def Let_def
      split: location.splits)

lemma wake_run: "grun g ls g' \<Longrightarrow> ginv g \<Longrightarrow> wake_inv g \<Longrightarrow> wake_inv g'"
  by (induction rule: grun.induct) (auto intro: wake_step ginv_run)

end
