(* ===== verification/Gateway_Demo.thy ===== *)
theory Gateway_Demo
  imports Delivery_Wake
begin

text \<open>
  A small gateway and one run of it, at which the properties of the delivery loop are applied: a
  packet comes in over a session with one outgoing connection, the session ends, the packet is
  delivered, and the session's connection is closed.
\<close>

definition demo_cfg :: Configuration where
  "demo_cfg = DefaultConfiguration
     \<lparr>DeliveryCfg := (DeliveryCfg DefaultConfiguration)\<lparr>DumpDirectory := ''/q''\<rparr>,
      DestinationsCfg := (DestinationsCfg DefaultConfiguration)
       \<lparr>DestStdout := False, DestEGTS := [DefaultEGTSDestination\<lparr>EgtsID := ''peer'', EgtsEnabled := True\<rparr>]\<rparr>\<rparr>"

definition demo_record :: Record where
  "demo_record = \<lparr>ReceivedAt = 0, RecSource = \<lparr>RemoteAddress = [], TerminalID = None\<rparr>,
     RecPacket = Packet0\<lparr>PacketType := EGTS_PT_APPDATA, PacketServicesFrameData := Some (FD_SFRD (Some []))\<rparr>,
     RecRaw = []\<rparr>"

definition demo_item :: "string set \<Rightarrow> bool \<Rightarrow> pendingPacket" where
  "demo_item ids b = \<lparr>pRecord = demo_record, pStdout = False, pFile = False, pEGTS = ids, pRabbitMQ = {},
     pValkey = {}, pRelay = Some \<lparr>session = Some 0, identity = []\<rparr>, pDone = b\<rparr>"

definition demo_session :: "int \<Rightarrow> bool \<Rightarrow> bool \<Rightarrow> relaySession" where
  "demo_session n c w = \<lparr>sessionID = ''session'', writers = {''peer''}, pending = n, closed = c, writersClosed = w\<rparr>"

definition demo_state :: "nat list \<Rightarrow> bool \<Rightarrow> pendingPacket list \<Rightarrow> relaySession \<Rightarrow> bool \<Rightarrow>
    worker list \<Rightarrow> deliveryResult list \<Rightarrow> location \<Rightarrow> gateway" where
  "demo_state q w ps x b ws rs l =
     \<lparr>srv = \<lparr>cfg = demo_cfg, accepting = True, queue = q, wake = w, hasDump = False, relays = Map.empty,
        items = ps, sessions = [x]\<rparr>,
      dlv = \<lparr>targets = [(new_target K_egts ''peer'')\<lparr>busy := b\<rparr>], workers = ws, results = rs, resultErr = None,
        cancelled = False, loc = l\<rparr>\<rparr>"

definition demo_start :: gateway where
  "demo_start = demo_state [] False [] (demo_session 0 False False) False [] [] L_top"

definition demo_worker :: worker where
  "demo_worker = \<lparr>wTarget = 0, wItem = 0, wTimeout = 60 * 10 ^ 9\<rparr>"

definition demo_result :: deliveryResult where
  "demo_result = \<lparr>resTarget = 0, resItem = 0, resErr = None\<rparr>"

lemmas demo_defs = demo_state_def demo_session_def demo_item_def demo_worker_def demo_result_def new_target_def

lemma demo_dests: "enabled_egts (DestinationsCfg demo_cfg) = [''peer'']" "enabled_rabbitmq (DestinationsCfg demo_cfg) = []"
  "enabled_valkey (DestinationsCfg demo_cfg) = []" "DestStdout (DestinationsCfg demo_cfg) = False"
  "FileEnabled (DestFile (DestinationsCfg demo_cfg)) = False" "QueueCapacity (DeliveryCfg demo_cfg) = 1024"
  "DumpAfterSeconds (DeliveryCfg demo_cfg) = 60"
  "DestEGTS (DestinationsCfg demo_cfg) = [DefaultEGTSDestination\<lparr>EgtsID := ''peer'', EgtsEnabled := True\<rparr>]"
  by (simp_all add: demo_cfg_def DefaultConfiguration_def enabled_egts_def enabled_rabbitmq_def enabled_valkey_def
      DefaultEGTSDestination_def)

lemma demo_host: "\<not> blank ''127.0.0.1''"
  by code_simp

lemma demo_started: "started_gateway demo_start"
proof -
  have "valid_egts (DefaultEGTSDestination\<lparr>EgtsID := ''peer'', EgtsEnabled := True\<rparr>)"
    by (simp add: DefaultEGTSDestination_def valid_egts_def valid_id_def id_char_def demo_host)
  then have "valid_destinations (DestinationsCfg demo_cfg)"
    by (simp add: valid_destinations_def demo_cfg_def DefaultConfiguration_def)
  then show ?thesis
    by (simp add: started_gateway_def demo_start_def demo_defs started_server_def queue_inv_def session_inv_def
        session_total_def initial_delivery_def initial_targets_def demo_dests)
qed

text \<open>The steps of the run.\<close>

lemma demo_enqueue: "gstep demo_start (Enqueued 0 (demo_item {''peer''} False))
   (demo_state [0] True [demo_item {''peer''} False] (demo_session 1 False False) False [] [] L_top)"
proof -
  have "enqueue demo_record (Some \<lparr>session = Some 0, identity = []\<rparr>) (srv demo_start) = Some (Inr 0,
    srv (demo_state [0] True [demo_item {''peer''} False] (demo_session 1 False False) False [] [] L_top))"
    by (simp add: enqueue_def demo_start_def demo_defs demo_dests demo_record_def shouldRelay_def new_item_def
        count_pending_def codes DefaultEGTSDestination_def Let_def)
  from g_enqueue [OF this] show ?thesis
    by (simp add: demo_start_def demo_defs open_session_def demo_dests)
qed


abbreviation demo_top :: "bool \<Rightarrow> location \<Rightarrow> gateway" where
  "demo_top b l \<equiv> demo_state [0] True [demo_item {''peer''} False] (demo_session 1 True False) b
     (if b then [demo_worker] else []) [] l"

abbreviation demo_done :: "nat list \<Rightarrow> bool \<Rightarrow> bool \<Rightarrow> location \<Rightarrow> gateway" where
  "demo_done q c w l \<equiv> demo_state q True [demo_item {} c] (demo_session 0 True w) False [] [] l"

lemma demo_end: "gstep (demo_state [0] True [demo_item {''peer''} False] (demo_session 1 False False) False [] [] L_top)
    Internal (demo_top False L_top)" (is "gstep ?g _ _")
proof -
  have "endRelaySession 0 (srv ?g) = (False, srv (demo_top False L_top))"
    by (simp add: endRelaySession_def demo_defs)
  from g_end_session [OF _ _ this] show ?thesis
    by (simp add: demo_defs closed_label_def finish_close_def)
qed

lemma demo_unfinished: "gstep (demo_top False L_top) (Finished []) (demo_top False (L_target 0 False None 0))"
  using g_top [of "demo_top False L_top" "srv (demo_top False L_top)" "dlv (demo_top False (L_target 0 False None 0))"]
  by (simp add: demo_defs loop_top_def finished_item_def)

lemma demo_spawn: "gstep (demo_top False (L_target 0 False None 0)) Internal (demo_top True (L_target 1 False None 1))"
  using g_target [of "demo_top False (L_target 0 False None 0)" 0 False None 0 0 0 0]
  by (simp add: demo_defs at_target_def waits_def next_item_def wants_def attempt_timeout_def demo_dests Second_def)

lemma demo_after: "gstep (demo_top True (L_target 1 False None 1)) Internal (demo_top True (L_select False None))"
  using g_after [of "demo_top True (L_target 1 False None 1)" 1 False None 1]
  by (simp add: demo_defs after_targets_def)

lemma demo_attempt: "gstep (demo_top True (L_select False None)) Internal
    (demo_state [0] True [demo_item {''peer''} False] (demo_session 1 True False) True [] [demo_result] (L_select False None))"
  using g_worker [of "demo_top True (L_select False None)" "[]" demo_worker "[]" None]
  by (simp add: demo_defs)

lemma demo_receive: "gstep
    (demo_state [0] True [demo_item {''peer''} False] (demo_session 1 True False) True [] [demo_result] (L_select False None)) Internal
    (demo_state [0] True [demo_item {''peer''} False] (demo_session 1 True False) True [] [] (L_result demo_result))" (is "gstep ?g _ _")
  using g_receive [of ?g False None demo_result "[]"] by (simp add: demo_state_def)

lemma demo_deliver: "gstep
    (demo_state [0] True [demo_item {''peer''} False] (demo_session 1 True False) True [] [] (L_result demo_result))
    (Delivered K_egts ''peer'' 0) (demo_done [0] False False (L_dump (Some 0)))" (is "gstep ?g _ ?g'")
proof -
  have "delivered_result (resTarget demo_result) (resItem demo_result) (srv ?g) (dlv ?g) = (srv ?g', dlv ?g')"
    by (simp add: demo_defs delivered_result_def delivered_item_def count_delivered_def item_session_def unregister_def)
  from g_delivered [OF _ _ this] show ?thesis by (simp add: demo_defs)
qed

lemma demo_dump: "gstep (demo_done [0] False False (L_dump (Some 0))) Internal (demo_done [0] False False (L_close (Some 0)))"
  using g_dump [of "demo_done [0] False False (L_dump (Some 0))" "Some 0" None]
  by (simp add: demo_defs note_error_def)

lemma demo_close: "gstep (demo_done [0] False False (L_close (Some 0))) (Closed 0) (demo_done [0] False True L_top)"
  using g_close [of "demo_done [0] False False (L_close (Some 0))" "Some 0" None]
  by (simp add: demo_defs note_error_def closed_label_def finish_close_def close_session_def)

lemma demo_finish: "gstep (demo_done [0] False True L_top) (Finished [0]) (demo_done [] True True (L_target 0 False None 0))"
  using g_top [of "demo_done [0] False True L_top" "srv (demo_done [] True True (L_target 0 False None 0))"
      "dlv (demo_done [] True True (L_target 0 False None 0))"]
  by (simp add: demo_defs loop_top_def finished_item_def)

definition demo_labels :: "label list" where
  "demo_labels = [Enqueued 0 (demo_item {''peer''} False), Internal, Finished [], Internal, Internal, Internal, Internal,
     Delivered K_egts ''peer'' 0, Internal]"

lemma grun_snocI: "grun g ls g' \<Longrightarrow> gstep g' l g'' \<Longrightarrow> ls' = ls @ [l] \<Longrightarrow> grun g ls' g''"
  using run_snoc by blast

lemmas demo_steps = demo_enqueue demo_end demo_unfinished demo_spawn demo_after demo_attempt demo_receive demo_deliver demo_dump

lemma demo_run: "grun demo_start demo_labels (demo_done [0] False False (L_close (Some 0)))"
  by (rule run_nil demo_steps [THEN [2] grun_snocI])+ (simp_all add: demo_labels_def)

lemma demo_run_closed: "grun demo_start (demo_labels @ [Closed 0]) (demo_done [0] False True L_top)"
  by (rule run_snoc [OF demo_run demo_close])

lemma demo_run_finished: "grun demo_start ((demo_labels @ [Closed 0]) @ [Finished [0]]) (demo_done [] True True (L_target 0 False None 0))"
  by (rule run_snoc [OF demo_run_closed demo_finish])

lemma demo_run_attempt: "grun demo_start (take 5 demo_labels) (demo_top True (L_select False None))"
  by (rule run_nil demo_steps [THEN [2] grun_snocI])+ (simp_all add: demo_labels_def)

text \<open>A run in which the gateway is told to stop before the packet is delivered.\<close>

definition demo_stop_labels :: "label list" where
  "demo_stop_labels = [Enqueued 0 (demo_item {''peer''} False), Internal, Internal, Finished [], Internal, Internal]"

lemma demo_run_stop:
  obtains g where "grun demo_start demo_stop_labels g" "loc (dlv g) = L_returned None"
proof -
  let ?g = "\<lambda>l. (demo_top False l)\<lparr>dlv := (dlv (demo_top False l))\<lparr>cancelled := True\<rparr>\<rparr>"
  have a: "grun demo_start [Enqueued 0 (demo_item {''peer''} False), Internal] (demo_top False L_top)"
    by (rule run_nil demo_steps(1,2) [THEN [2] grun_snocI])+ simp_all
  have b: "gstep (demo_top False L_top) Internal (?g L_top)" by (rule g_cancel)
  have c: "gstep (?g L_top) (Finished []) (?g (L_target 0 True None 0))"
    using g_top [of "?g L_top" "srv (?g L_top)" "dlv (?g (L_target 0 True None 0))"]
    by (simp add: demo_defs loop_top_def finished_item_def)
  have d: "gstep (?g (L_target 0 True None 0)) Internal (?g (L_target 1 True None 0))"
    using g_target [of "?g (L_target 0 True None 0)" 0 True None 0 0 0 0]
    by (simp add: demo_defs at_target_def)
  have e: "gstep (?g (L_target 1 True None 0)) Internal (?g (L_returned None))"
    using g_after [of "?g (L_target 1 True None 0)" 1 True None 0]
    by (simp add: demo_defs after_targets_def)
  have "grun demo_start demo_stop_labels (?g (L_returned None))"
    using run_snoc [OF run_snoc [OF run_snoc [OF run_snoc [OF a b] c] d] e]
    unfolding demo_stop_labels_def by (simp only: append.simps)
  then show thesis by (rule that) (simp add: demo_defs)
qed

end
