(* ===== verification/Connection_Properties.thy ===== *)
theory Connection_Properties
  imports Connection_Lemmas Gateway_Demo
begin

text \<open>
  What the gateway promises a terminal, and what it demands of it: the answers to its packets,
  the authentication dialogue, and the packets that reach the queue.
\<close>

section \<open>The scan of the authentication records\<close>

definition auth_records :: "ServicesFrameData \<Rightarrow> RecordsData" where
  "auth_records ss =
     concat (map (\<lambda>s. case s of None \<Rightarrow> [] | Some s \<Rightarrow> if auth_service s then RecordsData s else []) ss)"

definition identity_record :: "RecordData option \<Rightarrow> bool" where
  "identity_record rd \<longleftrightarrow> (\<exists>r d. rd = Some r \<and> SubrecordData r = Some (SD_TermIdentity d))"

definition credentials_record :: "(SRAuthInfo \<Rightarrow> bool) \<Rightarrow> RecordData option \<Rightarrow> bool" where
  "credentials_record P rd \<longleftrightarrow> (\<exists>r d. rd = Some r \<and> SubrecordData r = Some (SD_AuthInfo (Some d)) \<and> P d)"

definition valid_credentials :: "AuthConf \<Rightarrow> SRAuthInfo \<Rightarrow> bool" where
  "valid_credentials auth d \<longleftrightarrow> Password d = AuthPassword auth \<and> ServerSequence d = None"

text \<open>What a scan made of the records, whatever their order.\<close>

definition scan_of :: "AuthConf \<Rightarrow> RecordsData \<Rightarrow> bool \<Rightarrow> auth_scan \<Rightarrow> auth_scan \<Rightarrow> bool" where
  "scan_of auth rds other sc sc' \<longleftrightarrow>
     (onlyIdentity sc' \<longleftrightarrow> onlyIdentity sc \<and> \<not> other \<and> list_all identity_record rds) \<and>
     (identityRequest sc' \<longleftrightarrow> identityRequest sc \<or> list_ex identity_record rds) \<and>
     (hasCredentials sc' \<longleftrightarrow> hasCredentials sc \<or> list_ex (credentials_record (\<lambda>d. True)) rds) \<and>
     (authRequest sc' \<longleftrightarrow> authRequest sc \<or> list_ex identity_record rds \<or>
        list_ex (credentials_record (\<lambda>d. True)) rds) \<and>
     (nextAuthorized sc' \<longleftrightarrow> nextAuthorized sc \<or>
        (AuthEnabled auth \<and> list_ex (credentials_record (valid_credentials auth)) rds)) \<and>
     scanCode sc' = (if AuthEnabled auth \<and> list_ex (credentials_record (\<lambda>d. \<not> valid_credentials auth d)) rds
       then EGTS_PC_AUTH_DENIED else scanCode sc)"

lemma scan_of_refl: "scan_of auth [] False sc sc"
  by (simp add: scan_of_def)

lemma scan_of_trans: "scan_of auth rds o1 sc sc1 \<Longrightarrow> scan_of auth rds' o2 sc1 sc2 \<Longrightarrow>
   scan_of auth (rds @ rds') (o1 \<or> o2) sc sc2"
  unfolding scan_of_def list_all_append list_ex_append
  by (elim conjE, intro conjI; simp; blast?)

lemma scan_data_of:
  assumes "scan_data auth sess rd sc = Some (Inr sc')" "sound_record rd"
  shows "scan_of auth [rd] False sc sc'"
proof -
  obtain r where r: "rd = Some r" using assms(1) by (cases rd) auto
  have "pointed d" if "SubrecordData r = Some d" for d
    using assms(2) that by (simp add: r sound_record_def)
  then consider d where "SubrecordData r = Some (SD_TermIdentity (Some d))"
    | d where "SubrecordData r = Some (SD_AuthInfo (Some d))"
    | "\<forall>d. SubrecordData r \<noteq> Some (SD_TermIdentity d)" "\<forall>d. SubrecordData r \<noteq> Some (SD_AuthInfo d)"
    by (metis not_None_eq pointed.simps(1,3))
  then show ?thesis
  proof cases
    case (1 d)
    with assms(1) have "scan_identity sess d sc = Inr sc'" by (simp add: r)
    then obtain b where "sc' = sc\<lparr>nextSource := (nextSource sc)\<lparr>TerminalID := Some (TerminalIdentifier d)\<rparr>,
        authRequest := True, identityRequest := True, nextRelayIdentity := b\<rparr>"
      by (auto simp: scan_identity_def Let_def simp del: SRTermIdentity_Encode.simps split: if_splits sum.splits)
        (metis auth_scan.surjective auth_scan.update_convs(7))
    with 1 show ?thesis by (simp add: r scan_of_def identity_record_def credentials_record_def)
  next
    case (2 d)
    with assms(1) have "sc' = scan_credentials auth d sc" by (simp add: r)
    with 2 show ?thesis
      by (simp add: r scan_credentials_def Let_def scan_of_def identity_record_def credentials_record_def
          valid_credentials_def) auto
  next
    case 3
    then have "sc' = sc\<lparr>onlyIdentity := False\<rparr>"
      using assms(1) by (auto simp: r split: option.splits SubData.splits)
    with 3 show ?thesis by (simp add: r scan_of_def identity_record_def credentials_record_def)
  qed
qed

lemma scan_auth_records_of:
  "scan_auth_records auth sess rds sc = Some (Inr sc') \<Longrightarrow> list_all sound_record rds \<Longrightarrow> scan_of auth rds False sc sc'"
proof (induction rds arbitrary: sc)
  case (Cons rd rds)
  then obtain sc1 where "scan_data auth sess rd sc = Some (Inr sc1)" "scan_auth_records auth sess rds sc1 = Some (Inr sc')"
    by (auto split: option.splits sum.splits)
  with scan_of_trans [OF scan_data_of [of auth sess rd sc sc1] Cons.IH [of sc1]] Cons.prems(2) show ?case by simp
qed (simp add: scan_of_refl)

lemma auth_records_Cons [simp]:
  "auth_records (Some r # ss) = (if auth_service r then RecordsData r else []) @ auth_records ss"
  by (simp add: auth_records_def)

lemma scan_auth_of:
  "scan_auth auth sess ss sc = Some (Inr sc') \<Longrightarrow> sound_services ss \<Longrightarrow>
   scan_of auth (auth_records ss) (\<exists>s. Some s \<in> set ss \<and> \<not> auth_service s) sc sc'"
proof (induction ss arbitrary: sc)
  case (Cons s ss)
  then obtain r where r: "s = Some r" "list_all sound_record (RecordsData r)" "sound_services ss"
    by (cases s) (auto simp: sound_services_def)
  show ?case
  proof (cases "auth_service r")
    case True
    with Cons.prems(1) r(1) obtain sc1 where s1: "scan_auth_records auth sess (RecordsData r) sc = Some (Inr sc1)"
      "scan_auth auth sess ss sc1 = Some (Inr sc')"
      by (auto simp: auth_service_def split: option.splits sum.splits)
    moreover have "(\<exists>q. Some q \<in> set (s # ss) \<and> \<not> auth_service q) \<longleftrightarrow> (\<exists>q. Some q \<in> set ss \<and> \<not> auth_service q)"
      using True by (auto simp: r(1))
    ultimately show ?thesis
      using scan_of_trans [OF scan_auth_records_of [OF s1(1) r(2)] Cons.IH [OF s1(2) r(3)]] True
      by (simp add: r(1))
  next
    case False
    with Cons.prems(1) r(1) have "scan_auth auth sess ss (sc\<lparr>onlyIdentity := False\<rparr>) = Some (Inr sc')"
      by (auto simp: auth_service_def)
    from Cons.IH [OF this r(3)] False show ?thesis
      by (auto simp: r(1) scan_of_def)
  qed
qed (simp add: scan_of_refl auth_records_def)

text \<open>The packets with valid credentials, and with nothing but the terminal's identity.\<close>

definition presents :: "AuthConf \<Rightarrow> bytes \<Rightarrow> bool" where
  "presents auth raw \<longleftrightarrow> (\<exists>p ss. ReadPacket raw = (p, None) \<and>
     PacketServicesFrameData p = Some (FD_SFRD (Some ss)) \<and>
     list_ex (credentials_record (valid_credentials auth)) (auth_records ss))"

definition only_identity :: "ServicesFrameData \<Rightarrow> bool" where
  "only_identity ss \<longleftrightarrow> (\<forall>s. Some s \<in> set ss \<longrightarrow> auth_service s) \<and>
     auth_records ss \<noteq> [] \<and> list_all identity_record (auth_records ss)"

lemma dispose_unsubmitted:
  "dispose env raw p t sc s = Some (code, go, s') \<Longrightarrow> admit t sc \<noteq> EGTS_PC_OK \<or> requestCredentials t sc \<Longrightarrow>
   code = admit t sc \<and> go \<and> s' = s"
  by (auto simp: dispose_def)

lemma admitted_authorized: "admit t sc = EGTS_PC_OK \<Longrightarrow> \<not> requestCredentials t sc \<Longrightarrow> nextAuthorized sc"
  by (auto simp: admit_def codes split: if_splits)

section \<open>Answers over the wire\<close>

text \<open>A connection on which everything can be written.\<close>

definition good_env :: "exchange_env \<Rightarrow> bool" where
  "good_env env \<longleftrightarrow> envDelivered env \<and> envDeadline env = None \<and> (\<forall>i b. envWrite env i b = (length b, None))"

lemma answer_frame_good:
  assumes "answer_frame env p decoded sc request t = Some (v, out, t')" "PacketType p = EGTS_PT_APPDATA"
    and "small_packet p" "good_env env"
  shows "v = (if ErrorCode p = EGTS_PC_AUTH_DENIED then Returns None else Goes_on) \<and> out \<noteq> [] \<and>
    (length out = 2 \<longleftrightarrow> authRequest sc \<and> decoded)"
proof -
  obtain b where n: "numbered_answer p (connRn t) (connPid t + 1) =
      Some (response_packet (connPid t + 1) (answer_response p (connRn t + 1)),
       connRn t + word_of_nat (length (snd (answer_data p (connRn t)))))"
    and b: "Packet_Encode (Some (response_packet (connPid t + 1) (answer_response p (connRn t + 1)))) = Inr b"
    by (rule numbered_answer_read [OF assms(2,3)])
  let ?rn = "connRn t + word_of_nat (length (snd (answer_data p (connRn t))))"
  obtain b2 where b2: "Packet_Encode (Some (auth_result request (ErrorCode p) (?rn + 1) (2 + connPid t))) = Inr b2"
    by (rule auth_result_read)
  have "v \<noteq> Returns (Some e)" for e
    using assms(1,4) unfolding answer_frame_def n good_env_def
    by (auto simp: Let_def b b2 write_frame_def conclude_def simp del: Packet_Encode.simps split: if_splits)
  then have "v = Goes_on \<or> v = Returns None" by (metis not_None_eq verdict.exhaust)
  with answer_frame_cases(5) [OF assms(1-3)] show ?thesis by auto
qed

text \<open>
  C29. No input makes a connection panic: whatever bytes arrive, whatever the other connections do
  and however the writes end, \<open>handleConnection\<close> returns.
\<close>

theorem connection_never_panics: "handleConnection random addr env c s \<noteq> None"
proof -
  have total: "\<exists>e out s'. handle_frames env 0 c s t = Some (e, out, s')" for s t
    using handle_frames_total [of env 0 c s t] by auto
  show ?thesis
    by (auto simp: handleConnection_def Let_def elim!: notE [OF handle_frames_total] intro!: total
        split: prod.splits sum.splits option.splits)
qed

text \<open>
  C8. Over a working connection (every write succeeds, no deadline fails, a wait for the delivery is
  not cut short) every frame that \<open>ReadPacket\<close> recognises as application data, with at most 5039 data
  records, is answered, also when its contents are refused: first a response to its id that the
  terminal can read, then, for a packet of the authentication dialogue, one result packet, both with
  the next packet ids; the connection is closed exactly when authentication is denied.
\<close>

theorem every_packet_answered:
  assumes "ReadPacket raw = (p, d)" "PacketType p = EGTS_PT_APPDATA" "small_packet p" "good_env env"
  shows "\<exists>code out s' t'. handle_frame env raw s t =
      Some (if code = EGTS_PC_AUTH_DENIED then Returns None else Goes_on, out, s', t') \<and>
    out \<noteq> [] \<and> length out \<le> 2 \<and> response_frame (hd out) (p\<lparr>ErrorCode := code\<rparr>) t \<and>
    (length out = 2 \<longrightarrow> (\<exists>request. result_frame (out ! 1) request code t t')) \<and>
    connPid t' = connPid t + word_of_nat (length out) \<and> (d \<noteq> None \<longrightarrow> code = ErrorCode p)"
proof -
  have fin: ?thesis if "answer_frame env (p\<lparr>ErrorCode := code\<rparr>) dec sc req t = Some (v, out, t')"
    "handle_frame env raw s t = Some (v, out, s', t')" "d \<noteq> None \<longrightarrow> code = ErrorCode p" for code dec sc req v out t' s'
  proof -
    have p: "PacketType (p\<lparr>ErrorCode := code\<rparr>) = EGTS_PT_APPDATA" "small_packet (p\<lparr>ErrorCode := code\<rparr>)"
      using assms(2,3) by simp_all
    note a = answer_frame_cases(1-4) [OF that(1) p] answer_frame_good [OF that(1) p assms(4)]
    with that(2,3) show ?thesis by (intro exI [of _ code] exI [of _ out] exI [of _ s'] exI [of _ t']) auto
  qed
  show ?thesis
  proof (cases rule: handle_frame_branches [of raw env s t])
    case ignored
    with assms(1,2) show ?thesis by simp
  next
    case (refused q e v out t')
    with assms(1) show ?thesis by (intro fin [of "ErrorCode p" False "no_scan t (ErrorCode p)" False v out t' s]) simp_all
  next
    case (cut_off q ss sc code s')
    with assms(1,4) show ?thesis
      by (auto simp: dispose_def submit_def good_env_def split: if_splits option.splits sum.splits)
  next
    case (answered q ss sc code s' v out t')
    with assms(1) show ?thesis by (intro fin [of code True sc "requestCredentials t sc" v out t' s']) simp_all
  qed
qed

section \<open>Authentication\<close>

text \<open>The turns of one connection under one configuration, with any changes by others between them.\<close>

inductive conn_run :: "Configuration \<Rightarrow> terminal \<Rightarrow> bytes list \<Rightarrow> terminal \<Rightarrow> bool" where
  conn_start: "conn_run c t [] t"
| conn_turn: "conn_run c t raws t' \<Longrightarrow> cfg s = c \<Longrightarrow> handle_frame env raw s t' = Some (Goes_on, out, s', t'') \<Longrightarrow>
     conn_run c t (raws @ [raw]) t''"

lemma scan_authorized:
  assumes "scan_auth auth sess ss (no_scan t c) = Some (Inr sc)" "sound_services ss" "nextAuthorized sc"
  shows "authorized t \<or> AuthEnabled auth \<and> list_ex (credentials_record (valid_credentials auth)) (auth_records ss)"
  using scan_auth_of [OF assms(1,2)] assms(3) by (simp add: scan_of_def no_scan_def)

lemma disposed_authorized:
  assumes "ReadPacket raw = (p, None)" "PacketType p = EGTS_PT_APPDATA"
    "PacketServicesFrameData p = Some (FD_SFRD (Some ss))"
    and "scan_auth auth sess ss (no_scan t c) = Some (Inr sc)"
    and "nextAuthorized sc"
  shows "authorized t \<or> presents auth raw"
proof -
  have "sound_services ss" using decoded_services [OF assms(1,2)] assms(3) by auto
  from scan_authorized [OF assms(4) this assms(5)] assms(1,3) show ?thesis by (auto simp: presents_def)
qed

lemma dispose_changes:
  "dispose env raw p t sc s = Some (code, go, s') \<Longrightarrow> s' \<noteq> s \<Longrightarrow> nextAuthorized sc"
  by (auto simp: dispose_def dest: admitted_authorized split: if_splits)

lemma turn_authorized:
  assumes "handle_frame env raw s t = Some (v, out, s', t')" "v = Goes_on \<and> authorized t' \<or> s' \<noteq> s"
  shows "authorized t \<or> presents (AuthCfg (cfg s)) raw"
proof (cases rule: handle_frame_branches [of raw env s t])
  case ignored
  with assms show ?thesis by auto
next
  case (refused p e v' out' t'')
  with assms answer_frame_state [of env p False "no_scan t (ErrorCode p)" False t out t'] show ?thesis
    by (auto simp: no_scan_def split: if_splits)
next
  case (cut_off p ss sc code s'')
  with assms dispose_changes [OF cut_off(5)] disposed_authorized [OF cut_off(1-4)] show ?thesis by auto
next
  case (answered p ss sc code s'' v' out' t'')
  with assms have "s' \<noteq> s \<or> v' = Goes_on \<and> authorized t''" "s'' = s'" by auto
  then show ?thesis
  proof (elim disjE conjE)
    assume "s' \<noteq> s"
    with dispose_changes [OF answered(6)] disposed_authorized [OF answered(1-3,5)] \<open>s'' = s'\<close> show ?thesis by auto
  next
    assume "v' = Goes_on" "authorized t''"
    with answer_frame_state [of env "p\<lparr>ErrorCode := code\<rparr>" True sc "requestCredentials t sc" t out' t''] answered(7)
    have "nextAuthorized sc \<or> authorized t" by (auto split: if_splits)
    with disposed_authorized [OF answered(1-3,5)] show ?thesis by auto
  qed
qed

lemma run_authorized:
  "conn_run c t raws t' \<Longrightarrow> authorized t' \<Longrightarrow> authorized t \<or> (\<exists>r\<in>set raws. presents (AuthCfg c) r)"
  by (induction rule: conn_run.induct) (auto dest: turn_authorized)

text \<open>
  C6. When authentication is enabled, nothing a connection sends reaches the queue before a packet
  with the right password and no server sequence has come over this connection.
\<close>

theorem credentials_before_queue:
  assumes "AuthEnabled (AuthCfg c)" "t = \<lparr>authorized = \<not> AuthEnabled (AuthCfg c), source = src, connPid = 0,
      connRn = 0, connSession = sess, relayIdentity = []\<rparr>"
    and "conn_run c t raws t'" "cfg s = c" "handle_frame env raw s t' = Some (v, out, s', t'')" "s' \<noteq> s"
  shows "\<exists>r\<in>set (raws @ [raw]). presents (AuthCfg c) r"
  using turn_authorized [OF assms(5)] run_authorized [OF assms(3)] assms(1,2,4,6) by auto

text \<open>Records that are all identities hold no credentials.\<close>

lemma identities_only:
  assumes "list_all identity_record rds"
  shows "\<not> list_ex (credentials_record P) rds" "list_ex identity_record rds \<longleftrightarrow> rds \<noteq> []"
  using assms by (induction rds) (auto simp: credentials_record_def identity_record_def)

lemma only_identityD:
  assumes "only_identity ss"
  shows "\<not> list_ex (credentials_record P) (auth_records ss)" "list_ex identity_record (auth_records ss)"
  using assms identities_only [of "auth_records ss"] by (auto simp: only_identity_def)

text \<open>What an unauthorized terminal is asked for, and what it is answered.\<close>

lemma unauthorized_scan:
  assumes "scan_of auth (auth_records ss) (\<exists>s. Some s \<in> set ss \<and> \<not> auth_service s) (no_scan t EGTS_PC_OK) sc"
    and "\<not> authorized t" "\<not> nextAuthorized sc"
  shows "requestCredentials t sc \<longleftrightarrow> only_identity ss"
    and "admit t sc = (if only_identity ss then EGTS_PC_OK else EGTS_PC_AUTH_DENIED)"
    and "only_identity ss \<Longrightarrow> authRequest sc"
proof -
  have f: "onlyIdentity sc \<longleftrightarrow> (\<forall>s. Some s \<in> set ss \<longrightarrow> auth_service s) \<and> list_all identity_record (auth_records ss)"
    "identityRequest sc \<longleftrightarrow> list_ex identity_record (auth_records ss)"
    "hasCredentials sc \<longleftrightarrow> list_ex (credentials_record (\<lambda>d. True)) (auth_records ss)"
    using assms(1) by (auto simp: scan_of_def no_scan_def)
  show req: "requestCredentials t sc \<longleftrightarrow> only_identity ss"
    using assms(2) f identities_only [of "auth_records ss"] unfolding requestCredentials_def only_identity_def by metis
  have "scanCode sc = EGTS_PC_OK" if "only_identity ss"
    using assms(1) only_identityD [OF that] by (simp add: scan_of_def no_scan_def)
  then show "admit t sc = (if only_identity ss then EGTS_PC_OK else EGTS_PC_AUTH_DENIED)"
    using assms(3) by (simp add: admit_def req)
  show "authRequest sc" if "only_identity ss"
    using assms(1) only_identityD [OF that] identities_only [of "auth_records ss"] that
    by (auto simp: scan_of_def only_identity_def)
qed

text \<open>The answer of a turn whose packet was decided on without the queue.\<close>

lemma unauthorized_answer:
  assumes "answer_frame env (p\<lparr>ErrorCode := code\<rparr>) True sc request t = Some (v, out, t')"
    and "PacketType p = EGTS_PT_APPDATA" "small_packet p" "good_env env" "ErrorCode p = EGTS_PC_OK"
  shows "code = EGTS_PC_AUTH_DENIED \<Longrightarrow> v = Returns None \<and> response_frame (hd out) (p\<lparr>ErrorCode := EGTS_PC_AUTH_DENIED\<rparr>) t"
    and "code = EGTS_PC_OK \<Longrightarrow> authRequest sc \<Longrightarrow> v = Goes_on \<and> response_frame (hd out) p t \<and> length out = 2 \<and>
      result_frame (out ! 1) request EGTS_PC_OK t t'"
proof -
  let ?p = "p\<lparr>ErrorCode := code\<rparr>"
  have p: "PacketType ?p = EGTS_PT_APPDATA" "small_packet ?p" using assms(2,3) by simp_all
  note f = answer_frame_cases [OF assms(1) p] answer_frame_good [OF assms(1) p assms(4)]
  show "v = Returns None \<and> response_frame (hd out) (p\<lparr>ErrorCode := EGTS_PC_AUTH_DENIED\<rparr>) t" if "code = EGTS_PC_AUTH_DENIED"
    using that f(2,6) by simp
  show "v = Goes_on \<and> response_frame (hd out) p t \<and> length out = 2 \<and> result_frame (out ! 1) request EGTS_PC_OK t t'"
    if "code = EGTS_PC_OK" "authRequest sc"
  proof -
    have same: "?p = p" using that(1) assms(5) by simp
    have ok: "EGTS_PC_OK \<noteq> EGTS_PC_AUTH_DENIED" by (simp add: codes)
    from f(6) that ok have v: "v = Goes_on" "out \<noteq> []" "length out = 2" by simp_all
    with f(2,3) same that(1) show ?thesis by simp
  qed
qed

text \<open>
  C10. Over a working connection, a terminal that is not authorized and sends an accepted packet of
  application data, of at most 5039 data records, without valid credentials leaves the server unchanged
  and stays unauthorized: when the packet is its identity alone it is asked for credentials and the
  connection goes on; any other such packet is refused and the terminal disconnected. Packets that
  \<open>ReadPacket\<close> refuses are answered as in the theorem on every packet, responses are skipped.
\<close>

theorem unauthorized_packet:
  assumes "\<not> authorized t" "ReadPacket raw = (p, None)" "PacketType p = EGTS_PT_APPDATA"
    and "PacketServicesFrameData p = Some (FD_SFRD (Some ss))" "small_packet p" "good_env env"
    and "\<not> presents (AuthCfg (cfg s)) raw"
  shows "\<exists>v out t'. handle_frame env raw s t = Some (v, out, s, t') \<and> \<not> authorized t' \<and>
    (if only_identity ss
     then v = Goes_on \<and> response_frame (hd out) p t \<and> length out = 2 \<and> result_frame (out ! 1) True EGTS_PC_OK t t'
     else v = Returns None \<and> response_frame (hd out) (p\<lparr>ErrorCode := EGTS_PC_AUTH_DENIED\<rparr>) t)"
proof (cases rule: handle_frame_branches [of raw env s t])
  case ignored
  with assms show ?thesis by simp
next
  case (refused p e v' out' t'')
  with assms show ?thesis by simp
next
  case (cut_off q ss' sc code s'')
  with assms show ?thesis
    by (auto simp: dispose_def submit_def good_env_def split: if_splits option.splits sum.splits)
next
  case (answered q ss' sc code s' v out t')
  with assms(2,4) have eq: "q = p" "ss' = ss" by auto
  note a = answered [unfolded eq]
  obtain ss0 where "PacketServicesFrameData p = Some (FD_SFRD (Some ss0))" "sound_services ss0" and ok: "ErrorCode p = EGTS_PC_OK"
    by (rule decoded_services [OF assms(2,3)])
  with assms(4) have "sound_services ss" by simp
  note scan = scan_auth_of [OF a(5) this]
  have na: "\<not> nextAuthorized sc"
    using disposed_authorized [OF assms(2-4) a(5)] assms(1,7) by blast
  note u = unauthorized_scan [OF scan assms(1) na]
  have d: "code = admit t sc" "s' = s"
    using dispose_unsubmitted [OF a(6)] u(1,2) by (auto simp: codes split: if_splits)
  note f = unauthorized_answer [OF a(7) assms(3,5,6) ok]
  have "\<not> authorized t'" using answer_frame_authorized [OF a(7)] assms(1) na by blast
  then show ?thesis
    using a(8) f(1) f(2) [OF _ u(3)] unfolding d u(2) u(1) by (cases "only_identity ss") auto
qed

section \<open>Admission to the queue\<close>

lemma relay_targets_ok:
  "list_ex EgtsEnabled cs \<longrightarrow> session r \<noteq> None \<Longrightarrow> relay_targets (Some (Inr fwd)) (Some r) cs ids =
     Some (Inr (ids \<union> (if fwd then set (map EgtsID (filter EgtsEnabled cs)) else {})))"
  by (induction cs arbitrary: ids) (auto simp del: set_filter split: if_splits bool.splits)

lemma enqueue_ok:
  assumes "accepting s" "int (length (queue s)) < QueueCapacity (DeliveryCfg (cfg s))"
    and "shouldRelay (RecPacket r) = Some (Inr fwd)" "enabled_egts (dests s) \<noteq> [] \<longrightarrow> session rel \<noteq> None"
  obtains s' where "enqueue r (Some rel) s = Some (Inr (length (items s)), s')"
    "queue s' = queue s @ [length (items s)]"
    "items s' = items s @ [new_item s r (Some rel) (if fwd then set (enabled_egts (dests s)) else {})]"
proof -
  have "list_ex EgtsEnabled (DestEGTS (dests s)) \<longrightarrow> session rel \<noteq> None"
    using assms(4) by (auto simp: enabled_egts_def list_ex_iff filter_empty_conv)
  then have "relay_targets (shouldRelay (RecPacket r)) (Some rel) (DestEGTS (dests s)) {} =
      Some (Inr (if fwd then set (enabled_egts (dests s)) else {}))"
    using relay_targets_ok [of "DestEGTS (dests s)" rel fwd "{}"] by (simp add: assms(3) enabled_egts_def)
  with assms(1,2) show thesis by (rule_tac that, simp add: enqueue_def Let_def) simp_all
qed

lemma wants_new_item:
  "(k, i) \<in> set (target_names (initial_delivery (dests s))) \<Longrightarrow>
   wants k i (new_item s r rel (if fwd then set (enabled_egts (dests s)) else {})) \<longleftrightarrow> (k = K_egts \<longrightarrow> fwd)"
  by (auto simp: target_names_initial wants_def new_item_def split: if_splits)

text \<open>A terminal that is authorized, or becomes so with this packet, is admitted.\<close>

lemma admitted_scan:
  assumes "scan_of auth (auth_records ss) other (no_scan t EGTS_PC_OK) sc"
    and "authorized t \<or> AuthEnabled auth \<and> list_ex (credentials_record (valid_credentials auth)) (auth_records ss)"
    and "AuthEnabled auth \<Longrightarrow> \<not> list_ex (credentials_record (\<lambda>d. \<not> valid_credentials auth d)) (auth_records ss)"
  shows "nextAuthorized sc" "admit t sc = EGTS_PC_OK" "\<not> requestCredentials t sc"
proof -
  show na: "nextAuthorized sc" using assms(1,2) by (auto simp: scan_of_def no_scan_def)
  have "scanCode sc = EGTS_PC_OK" using assms(1,3) by (auto simp: scan_of_def no_scan_def)
  with na show "admit t sc = EGTS_PC_OK" by (simp add: admit_def)
  show "\<not> requestCredentials t sc"
  proof
    assume r: "requestCredentials t sc"
    then have "\<not> authorized t" by (simp add: requestCredentials_def)
    with assms(2) have "list_ex (credentials_record (\<lambda>d. True)) (auth_records ss)"
      by (auto simp: list_ex_iff credentials_record_def)
    with assms(1) r show False by (auto simp: scan_of_def requestCredentials_def)
  qed
qed

lemma packet_admitted:
  assumes "ReadPacket raw = (p, None)" "PacketType p = EGTS_PT_APPDATA"
    and "PacketServicesFrameData p = Some (FD_SFRD (Some ss))" "small_packet p" "good_env env"
    and "authorized t \<or> AuthEnabled (AuthCfg (cfg s)) \<and> presents (AuthCfg (cfg s)) raw"
    and "AuthEnabled (AuthCfg (cfg s)) \<Longrightarrow>
      \<not> list_ex (credentials_record (\<lambda>d. \<not> valid_credentials (AuthCfg (cfg s)) d)) (auth_records ss)"
    and "accepting s" "int (length (queue s)) < QueueCapacity (DeliveryCfg (cfg s))"
    and "shouldRelay p = Some (Inr fwd)" "enabled_egts (dests s) \<noteq> [] \<Longrightarrow> connSession t \<noteq> None"
  shows "\<exists>out s' t' item. handle_frame env raw s t = Some (Goes_on, out, s', t') \<and> authorized t' \<and>
    response_frame (hd out) p t \<and> queue s' = queue s @ [length (items s)] \<and> items s' = items s @ [item] \<and>
    RecRaw (pRecord item) = raw \<and> RecSource (pRecord item) = source t' \<and>
    (\<forall>(k, i)\<in>set (target_names (initial_delivery (dests s))). wants k i item \<longleftrightarrow> (k = K_egts \<longrightarrow> fwd))"
proof -
  obtain ss0 where "PacketServicesFrameData p = Some (FD_SFRD (Some ss0))" "sound_services ss0" and ec: "ErrorCode p = EGTS_PC_OK"
    by (rule decoded_services [OF assms(1,2)])
  with assms(3) have sound: "sound_services ss" by simp
  obtain sc where sc: "scan_auth (AuthCfg (cfg s)) (connSession t) ss (no_scan t EGTS_PC_OK) = Some (Inr sc)"
    using scan_auth_total [OF sound] by blast
  have "authorized t \<or> AuthEnabled (AuthCfg (cfg s)) \<and>
      list_ex (credentials_record (valid_credentials (AuthCfg (cfg s)))) (auth_records ss)"
    using assms(1,3,6) by (auto simp: presents_def)
  note adm = admitted_scan [OF scan_auth_of [OF sc sound] this assms(7)]
  let ?r = "\<lparr>ReceivedAt = envNow env, RecSource = nextSource sc, RecPacket = p, RecRaw = raw\<rparr>"
  let ?rel = "\<lparr>session = connSession t, identity = nextRelayIdentity sc\<rparr>"
  let ?item = "new_item s ?r (Some ?rel) (if fwd then set (enabled_egts (dests s)) else {})"
  obtain s' where e: "enqueue ?r (Some ?rel) s = Some (Inr (length (items s)), s')"
    "queue s' = queue s @ [length (items s)]" "items s' = items s @ [?item]"
    by (rule enqueue_ok [of s ?r fwd ?rel]) (use assms(8-11) in simp_all)
  have d: "dispose env raw p t sc s = Some (EGTS_PC_OK, True, s')"
    using e(1) assms(5) by (simp add: dispose_def adm submit_def good_env_def)
  have p: "p\<lparr>ErrorCode := EGTS_PC_OK\<rparr> = p" using ec by simp
  obtain v out t' where a: "answer_frame env p True sc False t = Some (v, out, t')"
    using answer_frame_total [OF assms(2), of env True sc False t] by auto
  have v: "v = Goes_on" "out \<noteq> []"
    using answer_frame_good [OF a assms(2,4,5)] by (simp_all add: ec codes)
  have "handle_frame env raw s t = Some (v, out, s', t')"
    using assms(1-3) by (simp add: handle_frame_def ec sc d adm p a)
  moreover have "authorized t'" "source t' = nextSource sc"
    using answer_frame_state [of env p True sc False t out t'] a v(1) adm(1) ec by simp_all
  moreover have "response_frame (hd out) p t" by (rule answer_frame_cases(2) [OF a assms(2,4) v(2)])
  moreover have "RecRaw (pRecord ?item) = raw" "RecSource (pRecord ?item) = nextSource sc" by (simp_all add: new_item_def)
  ultimately show ?thesis
    using e v(1) wants_new_item [of _ _ s ?r "Some ?rel" fwd]
    by (intro exI [of _ out] exI [of _ s'] exI [of _ t'] exI [of _ ?item]) auto
qed

text \<open>
  C9. Over a working connection, while the server accepts packets, the queue has room, the terminal has
  its relay session if there are EGTS destinations, and \<open>shouldRelay\<close> decides without an error: an accepted
  packet of at most 5039 data records, from an authorized terminal or with valid credentials in it, and
  with no invalid ones when authentication is enabled, is queued with its raw bytes for every enabled
  destination, for the EGTS destinations exactly when it is to be relayed; the terminal is answered with
  success and is authorized from then on.
\<close>

theorem admitted_packet_queued:
  assumes "ReadPacket raw = (p, None)" "PacketType p = EGTS_PT_APPDATA"
    and "PacketServicesFrameData p = Some (FD_SFRD (Some ss))" "small_packet p" "good_env env"
    and "authorized t \<or> AuthEnabled (AuthCfg (cfg s)) \<and> presents (AuthCfg (cfg s)) raw"
    and "AuthEnabled (AuthCfg (cfg s)) \<Longrightarrow>
      \<not> list_ex (credentials_record (\<lambda>d. \<not> valid_credentials (AuthCfg (cfg s)) d)) (auth_records ss)"
    and "accepting s" "int (length (queue s)) < QueueCapacity (DeliveryCfg (cfg s))"
    and "shouldRelay p = Some (Inr fwd)" "enabled_egts (dests s) \<noteq> [] \<Longrightarrow> connSession t \<noteq> None"
  shows "\<exists>out s' t' item. handle_frame env raw s t = Some (Goes_on, out, s', t') \<and> authorized t' \<and>
    response_frame (hd out) p t \<and> queue s' = queue s @ [length (items s)] \<and> items s' = items s @ [item] \<and>
    RecRaw (pRecord item) = raw \<and> RecSource (pRecord item) = source t' \<and>
    (\<forall>(k, i)\<in>set (target_names (initial_delivery (dests s))). wants k i item \<longleftrightarrow> (k = K_egts \<longrightarrow> fwd))"
  using packet_admitted [OF assms] .

section \<open>A concrete dialogue\<close>

definition creds_record :: "RecordData option" where
  "creds_record = Some \<lparr>SubrecordType = AuthInfo, SubrecordLength = 3,
     SubrecordData = Some (SD_AuthInfo (Some \<lparr>UserName = [], Password = ''x'', ServerSequence = None\<rparr>))\<rparr>"

definition creds_service :: ServiceDataRecord where
  "creds_service = (result_service 0 1)\<lparr>RecordLength := 6, RecordsData := [creds_record]\<rparr>"

definition creds_packet :: Packet where
  "creds_packet = (PrepareSRResultCode 0 1 1)
     \<lparr>FrameDataLength := 13, PacketServicesFrameData := Some (FD_SFRD (Some [Some creds_service]))\<rparr>"

definition ok_env :: exchange_env where
  "ok_env = \<lparr>envWorld = id, envNow = 0, envDelivered = True, envDeadline = None,
     envWrite = (\<lambda>i b. (length b, None))\<rparr>"

definition locked_server :: server where
  "locked_server = (srv demo_start)\<lparr>cfg := demo_cfg\<lparr>AuthCfg := \<lparr>AuthEnabled = True, AuthPassword = ''x''\<rparr>\<rparr>\<rparr>"

definition demo_terminal :: terminal where
  "demo_terminal = \<lparr>authorized = \<not> AuthEnabled (AuthCfg (cfg locked_server)),
     source = \<lparr>RemoteAddress = [], TerminalID = None\<rparr>, connPid = 0, connRn = 0, connSession = Some 0, relayIdentity = []\<rparr>"

lemma locked_simps: "accepting locked_server" "queue locked_server = []" "items locked_server = []"
  "QueueCapacity (DeliveryCfg (cfg locked_server)) = 1024" "AuthEnabled (AuthCfg (cfg locked_server))"
  "connSession demo_terminal = Some 0" "\<not> authorized demo_terminal"
  by (simp_all add: locked_server_def demo_start_def demo_state_def demo_terminal_def demo_cfg_def DefaultConfiguration_def)

lemma good_ok_env: "good_env ok_env"
  by (simp add: good_env_def ok_env_def)

lemma creds_packet_wf: "wf_Packet creds_packet"
proof -
  have b: "record_bytes creds_record = [7, 3, 0, 0, 120, 0]"
    by (simp add: record_bytes_def creds_record_def codes PutUint16_def bytes_of_string_def byte_of_char_def contains_null_def)
  have wr: "wf_Record creds_record"
    by (simp add: wf_Record_def creds_record_def codes wf_AuthInfo_def contains_null_def bytes_of_string_def)
  have f: "SDR_flags 0x40 creds_service"
    by (simp add: SDR_flags_def creds_service_def result_service_def bitstr_def bitc_def)
  note fb = SDR_flag_byte_eq [OF f]
  have ws: "wf_SDR (Some creds_service)"
    using f by (simp add: wf_SDR_def fb)
      (simp add: creds_service_def result_service_def SDR_absent_def wr b)
  have len: "length (SDR_bytes (Some creds_service)) = 13"
    by (simp add: SDR_bytes_def SDR_header_def fb) (simp add: creds_service_def result_service_def flag_bytes_def b)
  have wf: "wf_SFRD [Some creds_service]" using ws len by (simp add: wf_SFRD_def)
  note enc = SFRD_roundtrip(1) [OF wf]
  show ?thesis
    using wf len
    by (simp add: creds_packet_def PrepareSRResultCode_eq wf_Packet_def Packet0_def wf_header_def header_ok_def
        wf_data_def fits_def encode_data_def codes enc del: ServicesFrameData_Encode.simps)
qed

lemma creds_read:
  obtains b q where "ReadPacket b = (q, None)" "PacketType q = EGTS_PT_APPDATA"
    "PacketServicesFrameData q = Some (FD_SFRD (Some [Some creds_service]))"
proof -
  obtain w data where "ReadPacket (frame_of w data (sealed w data creds_packet)) = (sealed w data creds_packet, None)"
    using Packet_roundtrip_sealed [OF creds_packet_wf] by blast
  then show thesis
    by (rule that) (simp_all add: creds_packet_def PrepareSRResultCode_eq sealed_def Packet0_def)
qed

lemma creds_auth_records: "auth_records [Some creds_service] = [creds_record]"
  by (simp add: auth_records_def creds_service_def result_service_def auth_service_def)

lemma creds_valid:
  "list_ex (credentials_record (valid_credentials (AuthCfg (cfg locked_server)))) [creds_record]"
  "\<not> list_ex (credentials_record (\<lambda>d. \<not> valid_credentials (AuthCfg (cfg locked_server)) d)) [creds_record]"
  by (auto simp: credentials_record_def creds_record_def valid_credentials_def locked_server_def)

theorem admitted_packet_queued_witness:
  "\<exists>raw out s' t'. handle_frame ok_env raw locked_server demo_terminal = Some (Goes_on, out, s', t') \<and>
     authorized t' \<and> queue s' = [0]"
proof -
  obtain raw q where r: "ReadPacket raw = (q, None)" "PacketType q = EGTS_PT_APPDATA"
    "PacketServicesFrameData q = Some (FD_SFRD (Some [Some creds_service]))"
    by (rule creds_read)
  have small: "small_packet q"
    by (simp add: small_packet_def r(3) data_records_def)
  have "shouldRelay q = Some (Inr False)"
    by (simp add: shouldRelay_def r creds_service_def result_service_def auth_service_def creds_record_def codes)
  moreover have "presents (AuthCfg (cfg locked_server)) raw"
    unfolding presents_def by (intro exI conjI, rule r(1), rule r(3), unfold creds_auth_records, rule creds_valid)
  ultimately show ?thesis
    using admitted_packet_queued [OF r small good_ok_env, of demo_terminal locked_server False] creds_valid(2)
    unfolding creds_auth_records
    by (auto simp: locked_simps)
qed

lemma refused_sample:
  obtains p e where "ReadPacket [1, 0, 0, 11, 0, 0, 0, 3, 0, 1, 0] = (p, Some e)" "PacketType p = EGTS_PT_APPDATA"
    "small_packet p"
  by (simp add: ReadPacket_def read_header_def header_field_def bindS_def failS_def check_header_def
      set_flags_def bits08_def bitc_def substr_def Let_def codes bad_crc8 ReadUint16_def ReadFull_def
      bindR_def small_packet_def Packet0_def)

theorem every_packet_answered_witness:
  "\<exists>p e code v out s' t'. ReadPacket [1, 0, 0, 11, 0, 0, 0, 3, 0, 1, 0] = (p, Some e) \<and>
     handle_frame ok_env [1, 0, 0, 11, 0, 0, 0, 3, 0, 1, 0] locked_server demo_terminal = Some (v, out, s', t') \<and>
     response_frame (hd out) (p\<lparr>ErrorCode := code\<rparr>) demo_terminal"
proof -
  obtain p e where p: "ReadPacket [1, 0, 0, 11, 0, 0, 0, 3, 0, 1, 0] = (p, Some e)" "PacketType p = EGTS_PT_APPDATA"
    "small_packet p"
    by (rule refused_sample)
  from every_packet_answered [OF p good_ok_env, of locked_server demo_terminal] p(1) show ?thesis by blast
qed

theorem unauthorized_packet_witness:
  "\<exists>raw out t'. handle_frame ok_env raw locked_server demo_terminal = Some (Returns None, out, locked_server, t') \<and>
     \<not> authorized t'"
proof -
  obtain raw q where r: "ReadPacket raw = (q, None)" "PacketType q = EGTS_PT_APPDATA"
    "PacketServicesFrameData q = Some (FD_SFRD (Some [Some (result_service 0 7)]))"
    by (rule result_code_read [of 0 7 3])
  have rds: "auth_records [Some (result_service 0 7)] = [result_record 0]"
    by (simp add: auth_records_def result_service_def auth_service_def)
  have small: "small_packet q" by (simp add: small_packet_def r(3) data_records_def)
  have no: "\<not> list_ex (credentials_record P) [result_record 0]" "\<not> list_all identity_record [result_record 0]" for P
    by (simp_all add: credentials_record_def identity_record_def result_record_def)
  have "\<not> presents (AuthCfg (cfg locked_server)) raw"
    using r no(1) by (auto simp: presents_def rds simp del: auth_records_Cons)
  moreover have "\<not> only_identity [Some (result_service 0 7)]"
    using no(2) by (simp add: only_identity_def rds del: auth_records_Cons)
  moreover have "\<not> authorized demo_terminal" by (simp add: demo_terminal_def locked_server_def)
  ultimately show ?thesis
    using unauthorized_packet [OF _ r small good_ok_env, of demo_terminal locked_server] by auto
qed

theorem credentials_before_queue_witness:
  "\<exists>raw. \<exists>r\<in>set ([] @ [raw]). presents (AuthCfg (cfg locked_server)) r"
proof -
  obtain raw q where r: "ReadPacket raw = (q, None)" "PacketType q = EGTS_PT_APPDATA"
    "PacketServicesFrameData q = Some (FD_SFRD (Some [Some creds_service]))"
    by (rule creds_read)
  have small: "small_packet q" by (simp add: small_packet_def r(3) data_records_def)
  have rel: "shouldRelay q = Some (Inr False)"
    by (simp add: shouldRelay_def r creds_service_def result_service_def auth_service_def creds_record_def codes)
  have "presents (AuthCfg (cfg locked_server)) raw"
    unfolding presents_def by (intro exI conjI, rule r(1), rule r(3), unfold creds_auth_records, rule creds_valid)
  with rel obtain out s' t' where h: "handle_frame ok_env raw locked_server demo_terminal = Some (Goes_on, out, s', t')"
    "queue s' = [0]"
    using packet_admitted [OF r small good_ok_env, of demo_terminal locked_server False] creds_valid(2)
    unfolding creds_auth_records
    by (auto simp: locked_simps)
  have "s' \<noteq> locked_server" using h(2) by (auto simp: locked_server_def demo_start_def demo_state_def)
  with credentials_before_queue [OF _ demo_terminal_def conn_start refl h(1)] show ?thesis
    by (intro exI [of _ raw]) (simp add: locked_server_def)
qed

end
