(* ===== verification/Gateway_Properties.thy ===== *)
theory Gateway_Properties
  imports Connection_Properties
begin

text \<open>
  The properties of the gateway's queue, its delivery loop and its relay sessions, over every run
  from a state \<open>newServer\<close> can start in.
\<close>

lemma count_list_distinct: "distinct xs \<Longrightarrow> a \<in> set xs \<Longrightarrow> count_list xs a = 1"
  by (induction xs) (auto simp: count_notin)

text \<open>
  C5. For each destination the packets leave the queue in the order they were accepted: at any
  moment, those waiting at the start and those accepted since are those confirmed, by an attempt that
  ended without an error, and those still waiting, in this order. What the destination itself has
  received can be more: an attempt that failed after the packet had arrived is repeated.
\<close>

theorem delivery_fifo:
  assumes "started_gateway g" "grun g ls g'" "(k, i) \<in> set (target_names (initial_delivery (dests (srv g))))"
  shows "waiting (srv g) k i @ accepted k i ls = delivered k i ls @ waiting (srv g') k i"
  by (rule line_run [OF assms(2) started_ginv [OF assms(1)] assms(3)])

theorem delivery_fifo_witness:
  "accepted K_egts ''peer'' demo_labels = [0] \<and> delivered K_egts ''peer'' demo_labels = [0] \<and>
   waiting (srv demo_start) K_egts ''peer'' @ accepted K_egts ''peer'' demo_labels =
   delivered K_egts ''peer'' demo_labels @ waiting (srv (demo_done [0] False False (L_close (Some 0)))) K_egts ''peer''"
proof -
  have "(K_egts, ''peer'') \<in> set (target_names (initial_delivery (dests (srv demo_start))))"
    by (simp add: target_names_initial demo_start_def demo_defs demo_dests)
  from delivery_fifo [OF demo_started demo_run this] show ?thesis
    by (simp add: demo_labels_def accepted_def accepted1_def delivered_def delivered1_def demo_item_def wants_def)
qed



text \<open>
  The queue stays within its capacity, holds no packet twice, and the loop never closes a
  channel twice, which would panic.
\<close>

theorem queue_bounded:
  assumes "started_gateway g" "grun g ls g'"
  shows "int (length (queue (srv g'))) \<le> QueueCapacity (DeliveryCfg (cfg (srv g'))) \<and>
    distinct (queue (srv g')) \<and> loop_top (srv g') (dlv g') \<noteq> None"
proof -
  have s: "started_server (srv g')" using started_run_ginv [OF assms] by (rule ginv_started)
  then have "loop_top (srv g') (dlv g') \<noteq> None" by (rule loop_top_effect [of _ "dlv g'"]) simp
  with s show ?thesis by (simp add: started_server_def queue_inv_def)
qed

theorem queue_bounded_witness:
  "int (length (queue (srv (demo_done [0] False True L_top)))) \<le> 1024 \<and>
   loop_top (srv (demo_done [0] False True L_top)) (dlv (demo_done [0] False True L_top)) \<noteq> None"
  using queue_bounded [OF demo_started demo_run_closed] by (simp add: demo_defs demo_dests)

text \<open>
  C27. While the gateway runs, the delivery loop and the end of a connection close the outgoing
  connections of a session at most once, only when the incoming connection has ended, and when no
  packet waits for any of them. The closing of the remaining sessions by \<open>serve\<close>, at its end, is apart:
  packets may wait then, and are in the dump.
\<close>

theorem session_closed_after_last_packet:
  assumes "started_gateway g" "grun g (ls @ [Closed sid]) g'"
  shows "Closed sid \<notin> set ls \<and> closed (sessions (srv g') ! sid) \<and>
    (\<forall>p\<in>set (items (srv g')). item_session p = Some sid \<longrightarrow> pEGTS p = {})"
proof -
  obtain h where h: "grun g ls h" "gstep h (Closed sid) g'" using grun_last [OF assms(2)] by blast
  have i: "ginv h" by (rule started_run_ginv [OF assms(1) h(1)])
  note c = closing_step [OF h(2) i]
  then have "Closed sid \<notin> set ls" using closed_writers [OF h(1) started_ginv [OF assms(1)]] by blast
  moreover have "session_inv (srv g')"
    using started_run_ginv [OF assms] by (simp add: ginv_def started_server_def)
  ultimately show ?thesis using c writersClosed_empty by (auto simp: session_inv_def)
qed

theorem session_closed_after_last_packet_witness:
  "Closed 0 \<notin> set demo_labels \<and> closed (demo_session 0 True True)"
  using session_closed_after_last_packet [OF demo_started demo_run_closed] by (simp add: demo_state_def)

text \<open>
  No session is forgotten: whenever the delivery loop is not about to close one, every session
  that ended and has nothing pending has its outgoing connections closed.
\<close>

theorem session_not_forgotten:
  assumes "started_gateway g" "leak_inv g" "grun g ls g'" "sid < length (sessions (srv g'))"
    and "closed (sessions (srv g') ! sid)" "pending (sessions (srv g') ! sid) = 0"
    and "\<forall>f. loc (dlv g') \<noteq> L_dump f \<and> loc (dlv g') \<noteq> L_close f"
  shows "writersClosed (sessions (srv g') ! sid)"
  using leak_run [OF assms(3) started_ginv [OF assms(1)] assms(2)] assms(4-7)
  by (auto simp: leak_inv_def ready_def)

theorem session_not_forgotten_witness:
  "writersClosed (sessions (srv (demo_done [0] False True L_top)) ! 0)"
proof (rule session_not_forgotten [OF demo_started _ demo_run_closed])
  show "leak_inv demo_start" by (simp add: leak_inv_def ready_def demo_start_def demo_defs)
qed (simp_all add: demo_defs)

text \<open>
  A destination never has two attempts at once. Each attempt is for the first packet that
  waits for the destination, and an attempt over a relay session finds its writer open.
\<close>

theorem attempts_sound:
  assumes "started_gateway g" "grun g ls g'"
  shows "distinct (map fst (in_flight (dlv g'))) \<and>
    (\<forall>(j, a)\<in>set (in_flight (dlv g')). \<exists>t. t = targets (dlv g') ! j \<and> j < length (targets (dlv g')) \<and>
      (\<exists>as. waiting (srv g') (kind t) (tid t) = a # as) \<and>
      (kind t = K_egts \<longrightarrow> (\<exists>sid. item_session (items (srv g') ! a) = Some sid \<and>
         tid t \<in> writers (sessions (srv g') ! sid) \<and> \<not> writersClosed (sessions (srv g') ! sid))))"
  using attempt_sound [OF started_run_ginv [OF assms]] started_run_ginv [OF assms]
  by (auto simp: ginv_def flight_inv_def)

theorem attempts_sound_witness:
  "\<exists>t. t = targets (dlv (demo_top True (L_select False None))) ! 0 \<and>
     (\<exists>as. waiting (srv (demo_top True (L_select False None))) (kind t) (tid t) = 0 # as)"
proof -
  have "in_flight (dlv (demo_top True (L_select False None))) = [(0, 0)]"
    by (simp add: in_flight_def demo_defs)
  with attempts_sound [OF demo_started demo_run_attempt] show ?thesis by auto
qed

text \<open>
  When the loop returns, no attempt is under way, and each packet accepted for a destination
  is delivered to it or still in the queue, which the gateway then saves.
\<close>

theorem loop_returns_nothing_lost:
  assumes "started_gateway g" "grun g ls g'" "loc (dlv g') = L_returned e"
  shows "in_flight (dlv g') = [] \<and> cancelled (dlv g') \<and>
    (\<forall>(k, i)\<in>set (target_names (initial_delivery (dests (srv g)))). \<forall>a\<in>set (accepted k i ls).
       (a \<in> set (delivered k i ls)) \<noteq> (a \<in> set (queue (srv g')) \<and> wants k i (items (srv g') ! a)))"
proof -
  have g: "ginv g" "ginv g'" using started_ginv [OF assms(1)] started_run_ginv [OF assms(1,2)] by simp_all
  have "(a \<in> set (delivered k i ls)) \<noteq> (a \<in> set (waiting (srv g') k i))"
    if "(k, i) \<in> set (target_names (initial_delivery (dests (srv g))))" "a \<in> set (accepted k i ls)" for k i a
  proof -
    have "a \<in> set (delivered k i ls @ waiting (srv g') k i)"
      using that(2) line_run [OF assms(2) g(1) that(1)] by (metis Un_iff set_append)
    with kept_waiting_accepted [OF assms(2) g(1) that(1)] show ?thesis by auto
  qed
  with g(2) assms(3) show ?thesis by (auto simp: ginv_def loop_inv_def waiting_def)
qed

theorem loop_returns_nothing_lost_witness:
  "\<exists>g :: gateway. loc (dlv g) = L_returned None \<and> in_flight (dlv g) = [] \<and>
     (0 \<in> set (delivered K_egts ''peer'' demo_stop_labels)) \<noteq>
     (0 \<in> set (queue (srv g)) \<and> wants K_egts ''peer'' (items (srv g) ! 0))"
proof -
  obtain g where g: "grun demo_start demo_stop_labels g" "loc (dlv g) = L_returned None" by (rule demo_run_stop)
  have k: "(K_egts, ''peer'') \<in> set (target_names (initial_delivery (dests (srv demo_start))))"
    and a: "0 \<in> set (accepted K_egts ''peer'' demo_stop_labels)"
    by (simp_all add: target_names_initial demo_start_def demo_defs demo_dests demo_stop_labels_def accepted_def
        accepted1_def wants_def)
  note n = loop_returns_nothing_lost [OF demo_started g]
  have "\<forall>a\<in>set (accepted K_egts ''peer'' demo_stop_labels). (a \<in> set (delivered K_egts ''peer'' demo_stop_labels)) \<noteq>
      (a \<in> set (queue (srv g)) \<and> wants K_egts ''peer'' (items (srv g) ! a))"
    using bspec [OF conjunct2 [OF conjunct2 [OF n]] k] by (simp only: prod.case)
  from bspec [OF this a] conjunct1 [OF n] g(2) show ?thesis by blast
qed

text \<open>
  C28. The loop never sleeps while there is work: when it waits and a packet waits for one of its
  destinations, an attempt is under way, a retry is timed, a wake-up is in the channel, or the
  gateway is stopping with an attempt to wait for.
\<close>

theorem no_lost_wakeup:
  assumes "started_gateway g" "grun g ls g'" "loc (dlv g') = L_select stopping retry"
    and "a \<in> set (queue (srv g'))" "\<not> finished_item (items (srv g') ! a)"
  shows "in_flight (dlv g') \<noteq> [] \<or> retry \<noteq> None \<or> wake (srv g')"
proof -
  have g: "ginv g'" by (rule started_run_ginv [OF assms(1,2)])
  have "wake_inv g" using assms(1) by (simp add: started_gateway_def wake_inv_def initial_delivery_def)
  with wake_run [OF assms(2) started_ginv [OF assms(1)]]
  have w: "\<forall>t\<in>set (targets (dlv g')). attended (srv g') (dlv g') stopping retry t"
    using assms(3) by (simp add: wake_inv_def)
  from g assms(4) have "configured (dests (srv g')) (items (srv g') ! a)"
    by (auto simp: ginv_def started_server_def queue_inv_def session_inv_def item_ok_def)
  then obtain k i where "(k, i) \<in> set (target_names (dlv g'))" "wants k i (items (srv g') ! a)"
    using assms(5) g by (auto simp: finished_iff ginv_def)
  then obtain t where t: "t \<in> set (targets (dlv g'))" "waiting (srv g') (kind t) (tid t) \<noteq> []"
    using assms(4) by (auto simp: target_names_def waiting_def filter_empty_conv)
  have "in_flight (dlv g') \<noteq> []" if "busy t"
    using that t(1) g by (auto simp: ginv_def flight_inv_def in_set_conv_nth)
  moreover have "in_flight (dlv g') \<noteq> []" if "stopping"
    using that g assms(3) by (simp add: ginv_def loop_inv_def)
  ultimately show ?thesis using w t by (auto simp: attended_def)
qed

theorem no_lost_wakeup_witness:
  "0 < length (in_flight (dlv (demo_top True (L_select False None)))) \<or> wake (srv (demo_top True (L_select False None)))"
  using no_lost_wakeup [OF demo_started demo_run_attempt, of False None 0]
  by (simp add: demo_defs finished_item_def)

text \<open>
  A failed attempt is retried within a second and no later than the time the queue is dumped
  after; only when that time is over, counted from the first failure, is the gateway stopped.
\<close>

theorem failed_attempt:
  assumes "i < length (targets d)" "\<not> cancelled d"
    and "since = (case failedSince (targets d ! i) of None \<Rightarrow> started (targets d ! i) | Some f \<Rightarrow> f)"
    and "deadline = since + DumpAfterSeconds (DeliveryCfg c) * Second"
  shows "let d' = failed_result now now1 c i e d; t = targets d' ! i in
    \<not> busy t \<and> failedSince t = Some since \<and>
    (cancelled d' \<longleftrightarrow> deadline \<le> now) \<and> (cancelled d' \<longrightarrow> resultErr d' \<noteq> None) \<and>
    (\<not> cancelled d' \<longrightarrow> (\<exists>r. retryAt t = Some r \<and> r \<le> now1 + Second \<and> r \<le> deadline))"
  using assms(1,2) unfolding failed_result_def assms(4) assms(3) by (auto simp: Let_def)

theorem failed_attempt_witness:
  "let d' = failed_result (60 * 10 ^ 9) (60 * 10 ^ 9) demo_cfg 0 (ErrNew ''refused'') (dlv (demo_top True (L_result demo_result)))
   in cancelled d' \<and> resultErr d' \<noteq> None"
  using failed_attempt [of 0 "dlv (demo_top True (L_result demo_result))" 0 "60 * 10 ^ 9" demo_cfg
      "60 * 10 ^ 9" "60 * 10 ^ 9" "ErrNew ''refused''"]
  by (simp add: demo_defs demo_dests Second_def Let_def)

text \<open>
  Which packets go to the EGTS destinations: a packet without records and one with a record
  that carries data, but none whose data comes with credentials of the incoming connection.
\<close>

theorem relay_decision:
  assumes "ReadPacket b = (p, None)" "PacketType p = EGTS_PT_APPDATA"
    and "PacketServicesFrameData p = Some (FD_SFRD (Some ss))"
  shows "shouldRelay p = Some
    (if ss = [] \<or> (\<exists>s. Some s \<in> set ss \<and> relay_data s)
     then if \<exists>s. Some s \<in> set ss \<and> credentials s then Inl ErrRelayCredentials else Inr True
     else Inr False)"
  by (rule decoded_services [OF assms(1,2)]) (use assms(3) in \<open>simp add: shouldRelay_eq [OF assms(2,3)]\<close>)

theorem relay_decision_witness:
  "\<exists>b p ss. ReadPacket b = (p, None) \<and> PacketServicesFrameData p = Some (FD_SFRD (Some ss)) \<and>
     shouldRelay p = Some (Inr False)"
proof -
  obtain b p where r: "ReadPacket b = (p, None)" "PacketType p = EGTS_PT_APPDATA"
    "PacketServicesFrameData p = Some (FD_SFRD (Some [Some creds_service]))"
    by (rule creds_read)
  have "\<not> relay_data creds_service"
    by (simp add: relay_data_def creds_service_def result_service_def auth_service_def)
  with relay_decision [OF r] r show ?thesis by auto
qed

text \<open>
  C30. \<open>Validate\<close> accepts exactly the configurations in which every setting is in its range, the
  identifiers of each kind of destination are well formed and different, some destination is
  enabled, and the outputs do not clash.
\<close>

theorem configuration_accepted: "Validate out c = None \<longleftrightarrow> valid_configuration c \<and> out c = None"
  by (rule Validate_None)

end
