(* ===== verification/Egts_Client.thy ===== *)
theory Egts_Client
  imports Frames Answers Gateway_Config
begin

text \<open>
  The outgoing side of the relay, \<open>gateway/destination/egts.go\<close>: the exchange of one packet with
  the platform behind, its authentication, and the connection the writer keeps. The platform is
  the stream of bytes it sends; what the writer sends is a result. A run-time panic is the outer
  \<open>None\<close>.
\<close>

section \<open>One exchange\<close>

record recordConfirmation =
  number :: u16
  source_service :: u8
  recipient_service :: u8

record exchange_state =
  pendingConfs :: "recordConfirmation set"
  transportOK :: bool
  authOK :: bool
  required :: bool

text \<open>
  The outcomes of the calls on the connection and of the context, indexed by the number of writes
  made before them.
\<close>

record wire =
  wireContext :: "nat \<Rightarrow> goerr option"
  wireDeadline :: "nat \<Rightarrow> goerr option"
  wireWrite :: "nat \<Rightarrow> bytes \<Rightarrow> nat \<times> goerr option"

text \<open>The confirmations to wait for, one for each record that is not a confirmation itself.\<close>

fun pending_of_records :: "ServiceDataRecord \<Rightarrow> RecordsData \<Rightarrow> recordConfirmation set \<Rightarrow> recordConfirmation set option" where
  "pending_of_records s [] acc = Some acc"
| "pending_of_records s (None # rds) acc = None"
| "pending_of_records s (Some rd # rds) acc =
     pending_of_records s rds
       (if SubrecordType rd \<noteq> RecordResponse
        then insert \<lparr>number = RecordNumber s, source_service = RecipientServiceType s,
          recipient_service = SourceServiceType s\<rparr> acc else acc)"

fun pending_of :: "ServicesFrameData \<Rightarrow> recordConfirmation set \<Rightarrow> recordConfirmation set option" where
  "pending_of [] acc = Some acc"
| "pending_of (None # ss) acc = None"
| "pending_of (Some s # ss) acc =
     (case pending_of_records s (RecordsData s) acc of None \<Rightarrow> None | Some acc' \<Rightarrow> pending_of ss acc')"

text \<open>One record of an answer.\<close>

definition confirm_record :: "ServiceDataRecord \<Rightarrow> SRRecordResponse \<Rightarrow> exchange_state \<Rightarrow> exchange_state result" where
  "confirm_record s data st =
     (let key = \<lparr>number = ConfirmedRecordNumber data, source_service = SourceServiceType s,
        recipient_service = RecipientServiceType s\<rparr> in
      if key \<notin> pendingConfs st then Inr st
      else if RecordStatus data = EGTS_PC_OK then Inr (st\<lparr>pendingConfs := pendingConfs st - {key}\<rparr>)
      else if RecordStatus data \<noteq> EGTS_PC_IN_PROGRESS then Inl (Errorf ''EGTS record %d rejected with code %d'')
      else Inr st)"

definition auth_pair :: "ServiceDataRecord \<Rightarrow> bool" where
  "auth_pair s \<longleftrightarrow> SourceServiceType s = SERVICE_AUTH \<and> RecipientServiceType s = SERVICE_AUTH"

definition confirm_code :: "bool \<Rightarrow> ServiceDataRecord \<Rightarrow> SRResultCode \<Rightarrow> exchange_state \<Rightarrow> exchange_state result" where
  "confirm_code expectAuth s data st =
     (if RCD data \<noteq> EGTS_PC_OK \<and> RCD data \<noteq> EGTS_PC_IN_PROGRESS
      then Inl (Errorf ''EGTS authentication rejected with code %d'')
      else Inr (st\<lparr>authOK := (RCD data = EGTS_PC_OK)\<rparr>))"

definition answer_record :: "bool \<Rightarrow> ServiceDataRecord \<Rightarrow> RecordData option \<Rightarrow> exchange_state \<Rightarrow>
    exchange_state result option" where
  "answer_record expectAuth s rd st =
     (case rd of
        None \<Rightarrow> None
      | Some rd \<Rightarrow>
          (case SubrecordData rd of
             Some (SD_RecordResponse data) \<Rightarrow>
               (case data of None \<Rightarrow> None | Some data \<Rightarrow> Some (confirm_record s data st))
           | Some (SD_ResultCode data) \<Rightarrow>
               if \<not> expectAuth \<or> \<not> auth_pair s then Some (Inr st)
               else (case data of None \<Rightarrow> None | Some data \<Rightarrow> Some (confirm_code expectAuth s data st))
           | Some (SD_AuthParams data) \<Rightarrow>
               if \<not> expectAuth \<or> \<not> auth_pair s then Some (Inl (Errorf ''Unexpected EGTS authentication request''))
               else Some (Inr (st\<lparr>required := True, authOK := True\<rparr>))
           | _ \<Rightarrow> Some (Inl (Errorf ''Unexpected EGTS destination subrecord %d''))))"

fun answer_records :: "bool \<Rightarrow> ServiceDataRecord \<Rightarrow> RecordsData \<Rightarrow> exchange_state \<Rightarrow> exchange_state result option" where
  "answer_records expectAuth s [] st = Some (Inr st)"
| "answer_records expectAuth s (rd # rds) st =
     (case answer_record expectAuth s rd st of
        None \<Rightarrow> None
      | Some (Inl e) \<Rightarrow> Some (Inl e)
      | Some (Inr st') \<Rightarrow> answer_records expectAuth s rds st')"

fun answer_services_loop :: "bool \<Rightarrow> ServicesFrameData \<Rightarrow> exchange_state \<Rightarrow> exchange_state result option" where
  "answer_services_loop expectAuth [] st = Some (Inr st)"
| "answer_services_loop expectAuth (None # ss) st = None"
| "answer_services_loop expectAuth (Some s # ss) st =
     (case answer_records expectAuth s (RecordsData s) st of
        None \<Rightarrow> None
      | Some (Inl e) \<Rightarrow> Some (Inl e)
      | Some (Inr st') \<Rightarrow> answer_services_loop expectAuth ss st')"

text \<open>
  The part of an answer that is looked at: \<open>None\<close> inside for a response to another packet, which
  is passed over.
\<close>

definition answer_part :: "u16 \<Rightarrow> Packet \<Rightarrow> exchange_state \<Rightarrow>
    (ServicesFrameData \<times> exchange_state) option result option" where
  "answer_part pid response st =
     (if PacketType response = EGTS_PT_RESPONSE then
        (case PacketServicesFrameData response of
           Some (FD_Response (Some conf)) \<Rightarrow>
             if ResponsePacketID conf \<noteq> pid then Some (Inr None)
             else if ProcessingResult conf \<noteq> EGTS_PC_OK \<and> ProcessingResult conf \<noteq> EGTS_PC_IN_PROGRESS
             then Some (Inl (Errorf ''EGTS packet %d rejected with code %d''))
             else
               (let st1 = st\<lparr>transportOK := (ProcessingResult conf = EGTS_PC_OK)\<rparr> in
                case SDR conf of
                  None \<Rightarrow> Some (Inr (Some ([], st1)))
                | Some (RD_SFRD (Some services)) \<Rightarrow> Some (Inr (Some (services, st1)))
                | Some (RD_SFRD None) \<Rightarrow> Some (Inr (Some ([], st1)))
                | Some RD_Other \<Rightarrow> None)
         | _ \<Rightarrow> None)
      else
        (case PacketServicesFrameData response of
           Some (FD_SFRD (Some services)) \<Rightarrow> Some (Inr (Some (services, st)))
         | Some (FD_SFRD None) \<Rightarrow> Some (Inr (Some ([], st)))
         | _ \<Rightarrow> None))"

definition exchanged :: "exchange_state \<Rightarrow> bool" where
  "exchanged st \<longleftrightarrow> transportOK st \<and> pendingConfs st = {} \<and> authOK st"

definition write_wire :: "wire \<Rightarrow> nat \<Rightarrow> bytes \<Rightarrow> (goerr \<Rightarrow> goerr) \<Rightarrow> goerr option" where
  "write_wire w n b wrap =
     (case wireWrite w n b of
        (k, Some e) \<Rightarrow> Some (wrap e)
      | (k, None) \<Rightarrow> if k \<noteq> length b then Some ErrShortWrite else None)"

text \<open>
  The loop over the answers. It ends when the packet and all of its records are confirmed, or at
  the first error; every frame takes bytes off the stream.
\<close>

lemma ReadFrame_less: "ReadFrame c = Inr (raw, c') \<Longrightarrow> length (fst c') < length (fst c)"
proof -
  assume r: "ReadFrame c = Inr (raw, c')"
  have "0 < hlen raw" using hlen_bounds(1) [of raw] by linarith
  with r show ?thesis by (auto simp: ReadFrame_Inr transport_frame_def flen_def)
qed

function exchange_loop :: "wire \<Rightarrow> bool \<Rightarrow> u16 \<Rightarrow> nat \<Rightarrow> conn \<Rightarrow> exchange_state \<Rightarrow>
    (bool result \<times> bytes list \<times> conn) option" where
  "exchange_loop w expectAuth pid n c st =
     (if exchanged st then Some (Inr (required st), [], c)
      else
        (case ReadFrame c of
           Inl e \<Rightarrow> Some (Inl (Wrapf ''Can't receive EGTS confirmation'' e), [], c)
         | Inr (frame, c') \<Rightarrow>
             (case ReadPacket frame of
                (response, Some e) \<Rightarrow> Some (Inl (Wrapf ''Invalid EGTS confirmation'' e), [], c')
              | (response, None) \<Rightarrow>
                  (case answer_part pid response st of
                     None \<Rightarrow> None
                   | Some (Inl e) \<Rightarrow> Some (Inl e, [], c')
                   | Some (Inr None) \<Rightarrow> exchange_loop w expectAuth pid n c' st
                   | Some (Inr (Some (services, st1))) \<Rightarrow>
                       (case answer_services_loop expectAuth services st1 of
                          None \<Rightarrow> None
                        | Some (Inl e) \<Rightarrow> Some (Inl e, [], c')
                        | Some (Inr st2) \<Rightarrow>
                            if PacketType response \<noteq> EGTS_PT_APPDATA
                            then exchange_loop w expectAuth pid n c' st2
                            else
                              (case Packet_Encode (Some (PrepareAnswer (Some response) 0 (PacketID response))) of
                                 Inl e \<Rightarrow> Some (Inl e, [], c')
                               | Inr encoded \<Rightarrow>
                                   (case write_wire w n encoded id of
                                      Some e \<Rightarrow> Some (Inl e, [encoded], c')
                                    | None \<Rightarrow>
                                        (case exchange_loop w expectAuth pid (n + 1) c' st2 of
                                           None \<Rightarrow> None
                                         | Some (res, out, c'') \<Rightarrow> Some (res, encoded # out, c'')))))))))"
  by auto
termination
  by (relation "measure (\<lambda>(w, expectAuth, pid, n, c, st). length (fst c))") (auto dest: ReadFrame_less)

declare exchange_loop.simps [simp del]

definition exchange :: "wire \<Rightarrow> nat \<Rightarrow> conn \<Rightarrow> Packet \<Rightarrow> bytes \<Rightarrow> bool \<Rightarrow> (bool result \<times> bytes list \<times> conn) option" where
  "exchange w n c pkg raw expectAuth =
     (if wireContext w n \<noteq> None then Some (Inl (the (wireContext w n)), [], c)
      else if wireDeadline w n \<noteq> None then Some (Inl (the (wireDeadline w n)), [], c)
      else
        (case PacketServicesFrameData pkg of
           Some (FD_SFRD (Some services)) \<Rightarrow>
             (case pending_of services {} of
                None \<Rightarrow> None
              | Some pending \<Rightarrow>
                  (case write_wire w n raw (Wrapf ''Can't send EGTS packet'') of
                     Some e \<Rightarrow> Some (Inl e, [raw], c)
                   | None \<Rightarrow>
                       (case exchange_loop w expectAuth (PacketID pkg) (n + 1) c
                           \<lparr>pendingConfs = pending, transportOK = False, authOK = \<not> expectAuth, required = False\<rparr> of
                          None \<Rightarrow> None
                        | Some (res, out, c') \<Rightarrow> Some (res, raw # out, c'))))
         | _ \<Rightarrow> None))"

section \<open>Authentication\<close>

text \<open>The records to send: the terminal's identity, when there is one, and the credentials.\<close>

definition relay_identity :: "bytes \<Rightarrow> SubData list result" where
  "relay_identity identity =
     (if identity = [] then Inr []
      else (case SRTermIdentity_Decode identity of
          Inl e \<Rightarrow> Inl (Wrapf ''Invalid relay terminal identity'' e)
        | Inr term \<Rightarrow> Inr [SD_TermIdentity (Some term)]))"

definition credential_record :: "EGTSAuthConf \<Rightarrow> SubData list" where
  "credential_record a =
     (if EgtsAuthEnabled a
      then [SD_AuthInfo (Some \<lparr>UserName = EgtsAuthUserName a, Password = EgtsAuthPassword a, ServerSequence = None\<rparr>)] else [])"

fun is_credentials :: "SubData \<Rightarrow> bool" where
  "is_credentials (SD_AuthInfo a) \<longleftrightarrow> True"
| "is_credentials d \<longleftrightarrow> False"

fun auth_Len :: "SubData \<Rightarrow> u16" where
  "auth_Len (SD_TermIdentity t) = SRTermIdentity_Len t"
| "auth_Len (SD_AuthInfo a) = SRAuthInfo_Len a"
| "auth_Len d = 0"

definition auth_packet :: "u16 \<Rightarrow> SubData \<Rightarrow> Packet" where
  "auth_packet pid data =
     (let srt = (if is_credentials data then AuthInfo else TermIdentity);
          rds = [Some \<lparr>SubrecordType = srt, SubrecordLength = auth_Len data, SubrecordData = Some data\<rparr>];
          service = \<lparr>RecordLength = RecordsData_Len (Some rds), RecordNumber = pid,
            SSOD = ''0'', RSOD = ''0'', GRP = ''0'', RPP = ''00'', TMFE = ''0'', EVFE = ''0'', OBFE = ''0'',
            ObjectIdentifier = 0, EventIdentifier = 0, Time = 0,
            SourceServiceType = SERVICE_AUTH, RecipientServiceType = SERVICE_AUTH, RecordsData = rds\<rparr>;
          services = [Some service]
      in Packet0\<lparr>ProtocolVersion := 1, PRF := ''00'', PR := ''00'', CMP := ''0'', ENA := ''00'', RTE := ''0'',
        HeaderLength := 11, FrameDataLength := ServicesFrameData_Len (Some services), PacketID := pid,
        PacketType := EGTS_PT_APPDATA, PacketServicesFrameData := Some (FD_SFRD (Some services))\<rparr>)"

text \<open>One exchange for each record; \<open>n\<close> counts the writes made on the connection.\<close>

fun authenticate_loop :: "wire \<Rightarrow> EGTSAuthConf \<Rightarrow> u16 \<Rightarrow> SubData list \<Rightarrow> nat \<Rightarrow> conn \<Rightarrow>
    (unit result \<times> bytes list \<times> conn) option" where
  "authenticate_loop w a pid [] n c = Some (Inr (), [], c)"
| "authenticate_loop w a pid (data # records) n c =
     (case Packet_Encode (Some (auth_packet pid data)) of
        Inl e \<Rightarrow> Some (Inl e, [], c)
      | Inr raw \<Rightarrow>
          (case exchange w n c (auth_packet pid data) raw True of
             None \<Rightarrow> None
           | Some (Inl e, out, c') \<Rightarrow> Some (Inl (Wrapf ''EGTS destination authentication failed'' e), out, c')
           | Some (Inr req, out, c') \<Rightarrow>
               if req \<and> (\<not> EgtsAuthEnabled a \<or> is_credentials data)
               then Some (Inl (Errorf ''EGTS destination requires authentication''), out, c')
               else (case authenticate_loop w a (pid + 1) records (n + length out) c' of
                   None \<Rightarrow> None
                 | Some (res, out', c'') \<Rightarrow> Some (res, out @ out', c''))))"

definition authenticate :: "wire \<Rightarrow> EGTSAuthConf \<Rightarrow> u16 \<Rightarrow> bytes \<Rightarrow> conn \<Rightarrow> (unit result \<times> bytes list \<times> conn) option" where
  "authenticate w a pid identity c =
     (case relay_identity identity of
        Inl e \<Rightarrow> Some (Inl e, [], c)
      | Inr ts \<Rightarrow>
          (let records = ts @ credential_record a in
           authenticate_loop w a (pid - word_of_nat (length records)) records 0 c))"

section \<open>The writer\<close>

record EGTS =
  egtsCfg :: EGTSDestinationConf
  egtsServer :: ServerConf
  egtsConn :: "conn option"
  egtsIdentity :: bytes
  egtsClosed :: bool

definition PrepareEGTS :: "EGTSDestinationConf \<Rightarrow> ServerConf \<Rightarrow> EGTS result" where
  "PrepareEGTS c s =
     (if \<not> EgtsEnabled c then Inl (Errorf ''EGTS destination is disabled'')
      else (case EGTSDestination_Validate c of
          Some e \<Rightarrow> Inl e
        | None \<Rightarrow> Inr \<lparr>egtsCfg = c, egtsServer = s, egtsConn = None, egtsIdentity = [], egtsClosed = False\<rparr>))"

text \<open>
  The calls of one \<open>WriteContext\<close>: the context, the dialled connection with its remote and local
  addresses, \<open>net.ParseIP\<close>, the results of closing connections, what the interruption of the
  context left, and the calls on the connection.
\<close>

record tcpAddr =
  ip :: bytes
  port :: int

record calls =
  callContext :: "goerr option"
  callDial :: "(conn \<times> tcpAddr \<times> tcpAddr) result"
  callParseIP :: "string \<Rightarrow> bytes"
  callClose :: "goerr option"
  callDrop :: "goerr option"
  callInterrupt :: "goerr option"
  callWire :: wire

text \<open>\<open>IP.Equal\<close> and \<open>IP.IsUnspecified\<close> of the package \<open>net\<close>, on addresses of 4 or 16 bytes.\<close>

definition v4InV6Prefix :: bytes where
  "v4InV6Prefix = replicate 10 0 @ [0xff, 0xff]"

definition IP_Equal :: "bytes \<Rightarrow> bytes \<Rightarrow> bool" where
  "IP_Equal a b \<longleftrightarrow>
     (if length a = length b then a = b
      else if length a = 4 \<and> length b = 16 then b = v4InV6Prefix @ a
      else if length a = 16 \<and> length b = 4 then a = v4InV6Prefix @ b
      else False)"

definition IP_IsUnspecified :: "bytes \<Rightarrow> bool" where
  "IP_IsUnspecified a \<longleftrightarrow> IP_Equal a (v4InV6Prefix @ [0, 0, 0, 0]) \<or> IP_Equal a (replicate 16 0)"

definition points_back :: "calls \<Rightarrow> ServerConf \<Rightarrow> tcpAddr \<Rightarrow> tcpAddr \<Rightarrow> bool" where
  "points_back k s remote local \<longleftrightarrow>
     (let listening = callParseIP k (ServerHost s) in
      port remote = ServerPort s \<and> IP_Equal (ip remote) (ip local) \<and>
      (IP_IsUnspecified listening \<or> IP_Equal listening (ip remote) \<or> ServerHost s = ''localhost''))"

text \<open>The scan of the packet: credentials are refused, a terminal identity asks for a result code.\<close>

fun outgoing_records :: "ServiceDataRecord \<Rightarrow> RecordsData \<Rightarrow> bool \<Rightarrow> bool result option" where
  "outgoing_records s [] expectAuth = Some (Inr expectAuth)"
| "outgoing_records s (None # rds) expectAuth = None"
| "outgoing_records s (Some rd # rds) expectAuth =
     (if SubrecordType rd = AuthInfo
      then Some (Inl (Errorf ''Incoming credentials cannot be relayed; configure destination authentication''))
      else outgoing_records s rds (expectAuth \<or> (SubrecordType rd = TermIdentity \<and> auth_pair s)))"

fun outgoing_services :: "ServicesFrameData \<Rightarrow> bool \<Rightarrow> bool result option" where
  "outgoing_services [] expectAuth = Some (Inr expectAuth)"
| "outgoing_services (None # ss) expectAuth = None"
| "outgoing_services (Some s # ss) expectAuth =
     (case outgoing_records s (RecordsData s) expectAuth of
        None \<Rightarrow> None
      | Some (Inl e) \<Rightarrow> Some (Inl e)
      | Some (Inr expectAuth') \<Rightarrow> outgoing_services ss expectAuth')"

text \<open>
  From the check of the connection to the return, with its deferred calls left to the callers:
  the interruption of the context first, then the connection is dropped after an error.
\<close>

definition interrupted :: "calls \<Rightarrow> goerr option \<Rightarrow> goerr option" where
  "interrupted k err = (if err = None \<and> callInterrupt k \<noteq> None then callInterrupt k else err)"

definition transfer :: "calls \<Rightarrow> bool \<Rightarrow> Packet \<Rightarrow> bytes \<Rightarrow> bool \<Rightarrow> bytes \<Rightarrow> conn \<Rightarrow> EGTS \<Rightarrow>
    (goerr option \<times> bytes list \<times> EGTS) option" where
  "transfer k fresh pkg raw expectAuth identity c e =
     (case (if fresh then authenticate (callWire k) (EgtsAuth (egtsCfg e)) (PacketID pkg) identity c
            else Some (Inr (), [], c)) of
        None \<Rightarrow> None
      | Some (Inl err, out, c') \<Rightarrow> Some (Some err, out, e\<lparr>egtsConn := Some c'\<rparr>)
      | Some (Inr _, out, c') \<Rightarrow>
          (let e' = (if fresh then e\<lparr>egtsIdentity := identity\<rparr> else e) in
           case exchange (callWire k) (length out) c' pkg raw expectAuth of
             None \<Rightarrow> None
           | Some (Inl err, out', c'') \<Rightarrow> Some (Some err, out @ out', e'\<lparr>egtsConn := Some c''\<rparr>)
           | Some (Inr req, out', c'') \<Rightarrow>
               Some ((if req then Some (Errorf ''EGTS destination requested authentication while receiving data'') else None),
                 out @ out', e'\<lparr>egtsConn := Some c''\<rparr>)))"

definition connect_and_send :: "calls \<Rightarrow> Packet \<Rightarrow> bytes \<Rightarrow> bool \<Rightarrow> bytes \<Rightarrow> EGTS \<Rightarrow>
    (goerr option \<times> bytes list \<times> EGTS) option" where
  "connect_and_send k pkg raw expectAuth identity e =
     (let stale = (egtsConn e \<noteq> None \<and> egtsIdentity e \<noteq> identity);
          e1 = (if stale then e\<lparr>egtsConn := None\<rparr> else e) in
      if stale \<and> callClose k \<noteq> None then Some (callClose k, [], e1)
      else
        (case egtsConn e1 of
           None \<Rightarrow>
             (case callDial k of
                Inl err \<Rightarrow> Some (Some (Wrapf ''Can't connect to EGTS destination'' err), [], e1)
              | Inr (c, remote, local) \<Rightarrow>
                  if points_back k (egtsServer e) remote local
                  then Some (Some (Errorf ''EGTS destination points back to this gateway''), [], e1\<lparr>egtsConn := Some c\<rparr>)
                  else map_option (\<lambda>(err, r). (interrupted k err, r))
                    (transfer k True pkg raw expectAuth identity c (e1\<lparr>egtsConn := Some c\<rparr>)))
         | Some c \<Rightarrow> map_option (\<lambda>(err, r). (interrupted k err, r))
             (transfer k False pkg raw expectAuth identity c e1)))"

definition drop_connection :: "calls \<Rightarrow> goerr option \<times> bytes list \<times> EGTS \<Rightarrow> goerr option \<times> bytes list \<times> EGTS" where
  "drop_connection k r =
     (case r of (err, out, e) \<Rightarrow>
        if err \<noteq> None \<and> egtsConn e \<noteq> None
        then ((if callDrop k \<noteq> None then map_option (Wrapf ''%w; Can't close EGTS connection: %v'') err else err),
          out, e\<lparr>egtsConn := None\<rparr>)
        else r)"

definition WriteContext :: "calls \<Rightarrow> bytes option \<Rightarrow> bytes \<Rightarrow> EGTS \<Rightarrow> (goerr option \<times> bytes list \<times> EGTS) option" where
  "WriteContext k packetRecord identity e =
     (if egtsClosed e then Some (Some (ErrNew ''use of closed network connection''), [], e)
      else
        (case packetRecord of
           None \<Rightarrow> Some (Some (Errorf ''EGTS packet record is nil''), [], e)
         | Some raw \<Rightarrow>
             if callContext k \<noteq> None then Some (callContext k, [], e)
             else
               (case ReadPacket raw of
                  (pkg, Some err) \<Rightarrow> Some (Some err, [], e)
                | (pkg, None) \<Rightarrow>
                    if PacketType pkg \<noteq> EGTS_PT_APPDATA
                    then Some (Some (Errorf ''EGTS relay requires an APPDATA packet''), [], e)
                    else
                      (case PacketServicesFrameData pkg of
                         Some (FD_SFRD (Some services)) \<Rightarrow>
                           (case outgoing_services services False of
                              None \<Rightarrow> None
                            | Some (Inl err) \<Rightarrow> Some (Some err, [], e)
                            | Some (Inr expectAuth) \<Rightarrow>
                                map_option (drop_connection k) (connect_and_send k pkg raw expectAuth identity e))
                       | _ \<Rightarrow> None))))"

definition EGTS_Close :: "goerr option \<Rightarrow> EGTS \<Rightarrow> goerr option \<times> EGTS" where
  "EGTS_Close closeErr e =
     (let e1 = e\<lparr>egtsClosed := True\<rparr> in
      if egtsConn e1 = None then (None, e1) else (closeErr, e1\<lparr>egtsConn := None\<rparr>))"

end
