(* ===== verification/Egts_Client_Lemmas.thy ===== *)
theory Egts_Client_Lemmas
  imports Egts_Client Connection_Lemmas
begin

text \<open>
  What the exchange with the next platform needs before it calls a packet delivered, that it and
  the writer never panic, and how the answer of another gateway is taken.
\<close>

section \<open>Evidence in the stream\<close>

text \<open>The frames a connection gave, one after the other.\<close>

fun frames_read :: "conn \<Rightarrow> bytes list \<Rightarrow> conn \<Rightarrow> bool" where
  "frames_read c [] c' \<longleftrightarrow> c' = c"
| "frames_read c (f # fs) c' \<longleftrightarrow> (\<exists>d. ReadFrame c = Inr (f, d) \<and> frames_read d fs c')"

text \<open>The response that accepts the packet with an id.\<close>

definition accepts :: "u16 \<Rightarrow> bytes \<Rightarrow> bool" where
  "accepts pid f \<longleftrightarrow> (\<exists>q conf. ReadPacket f = (q, None) \<and> PacketType q = EGTS_PT_RESPONSE \<and>
     PacketServicesFrameData q = Some (FD_Response (Some conf)) \<and>
     ResponsePacketID conf = pid \<and> ProcessingResult conf = EGTS_PC_OK)"

text \<open>The service records of a frame that is not the response to another packet.\<close>

definition carries :: "u16 \<Rightarrow> bytes \<Rightarrow> ServiceDataRecord \<Rightarrow> SubData \<Rightarrow> bool" where
  "carries pid f s d \<longleftrightarrow> (\<exists>q ss rd. ReadPacket f = (q, None) \<and>
     (PacketServicesFrameData q = Some (FD_SFRD (Some ss)) \<or>
      (\<exists>conf. PacketServicesFrameData q = Some (FD_Response (Some conf)) \<and>
        ResponsePacketID conf = pid \<and> SDR conf = Some (RD_SFRD (Some ss)))) \<and>
     Some s \<in> set ss \<and> Some rd \<in> set (RecordsData s) \<and> SubrecordData rd = Some d)"

definition confirms :: "u16 \<Rightarrow> bytes \<Rightarrow> recordConfirmation \<Rightarrow> bool" where
  "confirms pid f key \<longleftrightarrow> (\<exists>s r. carries pid f s (SD_RecordResponse (Some r)) \<and> RecordStatus r = EGTS_PC_OK \<and>
     key = \<lparr>number = ConfirmedRecordNumber r, source_service = SourceServiceType s, recipient_service = RecipientServiceType s\<rparr>)"

text \<open>The platform takes an authentication: with a result code, or by asking for credentials.\<close>

definition grants :: "u16 \<Rightarrow> bytes \<Rightarrow> bool" where
  "grants pid f \<longleftrightarrow> (\<exists>s r. auth_pair s \<and> carries pid f s (SD_ResultCode (Some r)) \<and> RCD r = EGTS_PC_OK)"

definition demands :: "u16 \<Rightarrow> bytes \<Rightarrow> bool" where
  "demands pid f \<longleftrightarrow> (\<exists>s r. auth_pair s \<and> carries pid f s (SD_AuthParams r))"

definition authorizes :: "u16 \<Rightarrow> bytes \<Rightarrow> bool" where
  "authorizes pid f \<longleftrightarrow> grants pid f \<or> demands pid f"

definition key_of :: "ServiceDataRecord \<Rightarrow> recordConfirmation" where
  "key_of s = \<lparr>number = RecordNumber s, source_service = RecipientServiceType s,
     recipient_service = SourceServiceType s\<rparr>"

text \<open>What one record, one service and one frame add to the state of an exchange.\<close>

definition grows :: "(recordConfirmation \<Rightarrow> bool) \<Rightarrow> bool \<Rightarrow> bool \<Rightarrow> exchange_state \<Rightarrow> exchange_state \<Rightarrow> bool" where
  "grows C G D st st' \<longleftrightarrow> transportOK st' = transportOK st \<and>
     (\<forall>key\<in>pendingConfs st. key \<notin> pendingConfs st' \<longrightarrow> C key) \<and> (authOK st' \<longrightarrow> authOK st \<or> G \<or> required st') \<and>
     (required st \<longrightarrow> required st') \<and> (required st' \<longrightarrow> required st \<or> D)"

lemma grows_refl: "grows C G D st st"
  by (simp add: grows_def)

lemma grows_trans: "grows C G D st st1 \<Longrightarrow> grows C G D st1 st2 \<Longrightarrow> grows C G D st st2"
  by (auto simp: grows_def)

lemma grows_mono: "grows C G D st st' \<Longrightarrow> (\<And>key. C key \<Longrightarrow> C' key) \<Longrightarrow> (G \<Longrightarrow> G') \<Longrightarrow> (D \<Longrightarrow> D') \<Longrightarrow> grows C' G' D' st st'"
  by (auto simp: grows_def)

definition record_evidence :: "ServiceDataRecord \<Rightarrow> RecordsData \<Rightarrow> exchange_state \<Rightarrow> exchange_state \<Rightarrow> bool" where
  "record_evidence s rds = grows
     (\<lambda>key. \<exists>rd r. Some rd \<in> set rds \<and> SubrecordData rd = Some (SD_RecordResponse (Some r)) \<and>
        RecordStatus r = EGTS_PC_OK \<and> key = \<lparr>number = ConfirmedRecordNumber r,
          source_service = SourceServiceType s, recipient_service = RecipientServiceType s\<rparr>)
     (auth_pair s \<and> (\<exists>rd r. Some rd \<in> set rds \<and> SubrecordData rd = Some (SD_ResultCode (Some r)) \<and> RCD r = EGTS_PC_OK))
     (auth_pair s \<and> (\<exists>rd r. Some rd \<in> set rds \<and> SubrecordData rd = Some (SD_AuthParams r)))"

lemma answer_record_evidence:
  "answer_record x s rd st = Some (Inr st') \<Longrightarrow> record_evidence s (rd # rds) st st'"
  by (auto simp: answer_record_def confirm_record_def confirm_code_def record_evidence_def grows_def Let_def
      split: option.splits SubData.splits if_splits)

lemma record_evidence_mono: "record_evidence s rds st st' \<Longrightarrow> record_evidence s (rd # rds) st st'"
  unfolding record_evidence_def by (erule grows_mono) auto

lemma answer_records_evidence:
  "answer_records x s rds st = Some (Inr st') \<Longrightarrow> record_evidence s rds st st'"
proof (induction rds arbitrary: st)
  case (Cons rd rds)
  then obtain st1 where "answer_record x s rd st = Some (Inr st1)" "answer_records x s rds st1 = Some (Inr st')"
    by (auto split: option.splits sum.splits)
  with answer_record_evidence record_evidence_mono Cons.IH
  have "record_evidence s (rd # rds) st st1" "record_evidence s (rd # rds) st1 st'" by blast+
  then show ?case unfolding record_evidence_def by (rule grows_trans)
qed (simp add: record_evidence_def grows_refl)

definition service_evidence :: "ServicesFrameData \<Rightarrow> exchange_state \<Rightarrow> exchange_state \<Rightarrow> bool" where
  "service_evidence ss = grows
     (\<lambda>key. \<exists>s rd r. Some s \<in> set ss \<and> Some rd \<in> set (RecordsData s) \<and>
        SubrecordData rd = Some (SD_RecordResponse (Some r)) \<and> RecordStatus r = EGTS_PC_OK \<and>
        key = \<lparr>number = ConfirmedRecordNumber r, source_service = SourceServiceType s,
          recipient_service = RecipientServiceType s\<rparr>)
     (\<exists>s rd r. Some s \<in> set ss \<and> auth_pair s \<and> Some rd \<in> set (RecordsData s) \<and>
        SubrecordData rd = Some (SD_ResultCode (Some r)) \<and> RCD r = EGTS_PC_OK)
     (\<exists>s rd r. Some s \<in> set ss \<and> auth_pair s \<and> Some rd \<in> set (RecordsData s) \<and> SubrecordData rd = Some (SD_AuthParams r))"

lemma service_evidence_mono: "service_evidence ss st st' \<Longrightarrow> service_evidence (s # ss) st st'"
  unfolding service_evidence_def by (erule grows_mono) auto

lemma record_service_evidence:
  "record_evidence s (RecordsData s) st st' \<Longrightarrow> service_evidence (Some s # ss) st st'"
  unfolding record_evidence_def service_evidence_def by (erule grows_mono) auto

lemma answer_services_evidence:
  "answer_services_loop x ss st = Some (Inr st') \<Longrightarrow> service_evidence ss st st'"
proof (induction x ss st rule: answer_services_loop.induct)
  case (3 x s ss st)
  then obtain st1 where r: "answer_records x s (RecordsData s) st = Some (Inr st1)"
    "answer_services_loop x ss st1 = Some (Inr st')"
    by (auto split: option.splits sum.splits)
  with "3.IH" have "service_evidence (Some s # ss) st st1" "service_evidence (Some s # ss) st1 st'"
    using record_service_evidence answer_records_evidence service_evidence_mono by auto
  then show ?case unfolding service_evidence_def by (rule grows_trans)
qed (auto simp: service_evidence_def grows_refl)

text \<open>One frame: what it leaves to wait for is still to come, what it takes off it carries.\<close>

definition frame_evidence :: "u16 \<Rightarrow> bytes \<Rightarrow> exchange_state \<Rightarrow> exchange_state \<Rightarrow> bool" where
  "frame_evidence pid f st st' \<longleftrightarrow>
     (transportOK st' \<longrightarrow> transportOK st \<or> accepts pid f) \<and>
     (\<forall>key\<in>pendingConfs st. key \<notin> pendingConfs st' \<longrightarrow> confirms pid f key) \<and>
     (authOK st' \<longrightarrow> authOK st \<or> grants pid f \<or> required st') \<and>
     (required st \<longrightarrow> required st') \<and> (required st' \<longrightarrow> required st \<or> demands pid f)"

lemma answer_frame_evidence:
  assumes "ReadPacket f = (q, None)" "answer_part pid q st = Some (Inr (Some (ss, st1)))"
    and "answer_services_loop x ss st1 = Some (Inr st')"
  shows "frame_evidence pid f st st'"
proof -
  have part: "pendingConfs st1 = pendingConfs st" "authOK st1 = authOK st" "required st1 = required st"
    "transportOK st1 \<Longrightarrow> transportOK st \<or> accepts pid f"
    "ss \<noteq> [] \<Longrightarrow> PacketServicesFrameData q = Some (FD_SFRD (Some ss)) \<or>
      (\<exists>conf. PacketServicesFrameData q = Some (FD_Response (Some conf)) \<and>
        ResponsePacketID conf = pid \<and> SDR conf = Some (RD_SFRD (Some ss)))"
    using assms(1,2) by (auto simp: answer_part_def accepts_def Let_def
        split: if_splits option.splits FrameData.splits ResponseData.splits)
  have carried: "carries pid f s d" if "Some s \<in> set ss" "Some rd \<in> set (RecordsData s)" "SubrecordData rd = Some d" for s rd d
    using that part(5) assms(1) unfolding carries_def by (cases ss) auto
  from answer_services_evidence [OF assms(3)] part(1-4) show ?thesis
    unfolding service_evidence_def grows_def frame_evidence_def confirms_def grants_def demands_def
    by (metis carried)
qed

text \<open>The loop ends well only with evidence for all that it waits for.\<close>

lemma exchange_loop_Inr:
  assumes "exchange_loop w x pid n c st = Some (Inr r, out, c')"
  obtains (finished) "exchanged st" "c' = c" "r = required st"
  | (skipped) f d where "ReadFrame c = Inr (f, d)" "exchange_loop w x pid n d st = Some (Inr r, out, c')"
  | (taken) f d st' m out' where "ReadFrame c = Inr (f, d)" "frame_evidence pid f st st'"
      "exchange_loop w x pid m d st' = Some (Inr r, out', c')"
proof -
  note e = assms [unfolded exchange_loop.simps [of w x pid n c st]]
  show thesis
  proof (cases "exchanged st")
    case True
    with e show thesis by (intro finished) auto
  next
    case False
    with e obtain f d where f: "ReadFrame c = Inr (f, d)" by (cases "ReadFrame c") auto
    with e False obtain q where q: "ReadPacket f = (q, None)"
      by (cases "ReadPacket f"; cases "snd (ReadPacket f)") auto
    from e False f q obtain o' where part: "answer_part pid q st = Some (Inr o')"
      by (auto split: option.splits sum.splits)
    show thesis
    proof (cases o')
      case None
      with e False f q part show thesis by (intro skipped [of f d]) auto
    next
      case (Some sst)
      obtain ss st1 where ss: "o' = Some (ss, st1)" using Some by (cases sst) auto
      with e False f q part obtain st' where st': "answer_services_loop x ss st1 = Some (Inr st')"
        by (auto split: option.splits sum.splits)
      obtain m out' where "exchange_loop w x pid m d st' = Some (Inr r, out', c')"
        using e False f q part ss st'
        by (auto split: option.splits sum.splits if_splits simp del: Packet_Encode.simps)
      with f answer_frame_evidence [OF q part [unfolded ss] st'] show thesis by (rule taken)
    qed
  qed
qed

text \<open>
  The connection's frames, from the state at their beginning: the acceptance of the packet, the
  confirmations, and the acceptance of an authentication, or else a request for credentials, which
  is the result.
\<close>

definition exchange_evidence_from :: "u16 \<Rightarrow> bytes list \<Rightarrow> exchange_state \<Rightarrow> bool \<Rightarrow> bool" where
  "exchange_evidence_from pid fs st r \<longleftrightarrow>
     (transportOK st \<or> (\<exists>f\<in>set fs. accepts pid f)) \<and>
     (\<forall>key\<in>pendingConfs st. \<exists>f\<in>set fs. confirms pid f key) \<and>
     (authOK st \<or> (\<exists>f\<in>set fs. grants pid f) \<or> r) \<and>
     (required st \<longrightarrow> r) \<and> (r \<longrightarrow> required st \<or> (\<exists>f\<in>set fs. demands pid f))"

lemma exchange_loop_evidence:
  assumes "exchange_loop w x pid n c st = Some (Inr r, out, c')"
  shows "\<exists>fs. frames_read c fs c' \<and> exchange_evidence_from pid fs st r"
  using assms
proof (induction "length (fst c)" arbitrary: n c st out rule: less_induct)
  case less
  from less.prems show ?case
  proof (cases rule: exchange_loop_Inr)
    case finished
    then show ?thesis by (intro exI [of _ "[]"]) (auto simp: exchanged_def exchange_evidence_from_def)
  next
    case (skipped f d)
    with less.hyps [OF ReadFrame_less [OF skipped(1)] skipped(2)] obtain fs where
      "frames_read d fs c'" "exchange_evidence_from pid fs st r" by blast
    with skipped(1) show ?thesis by (intro exI [of _ "f # fs"]) (auto simp: exchange_evidence_from_def)
  next
    case (taken f d st' m out')
    with less.hyps [OF ReadFrame_less [OF taken(1)] taken(3)] obtain fs where
      fs: "frames_read d fs c'" "exchange_evidence_from pid fs st' r" by blast
    from taken(2) fs(2) have "exchange_evidence_from pid (f # fs) st r"
      unfolding frame_evidence_def exchange_evidence_from_def by (auto 4 3)
    with taken(1) fs(1) show ?thesis by (intro exI [of _ "f # fs"]) auto
  qed
qed

section \<open>No panics\<close>

lemma pending_of_records_eq:
  "None \<notin> set rds \<Longrightarrow> pending_of_records s rds acc = Some (acc \<union>
     (if \<exists>rd. Some rd \<in> set rds \<and> SubrecordType rd \<noteq> RecordResponse then {key_of s} else {}))"
  by (induction s rds acc rule: pending_of_records.induct) (auto simp: key_of_def)

lemma pending_of_eq: "nil_free ss \<Longrightarrow> pending_of ss acc = Some (acc \<union> key_of ` set (data_records ss))"
proof (induction ss acc rule: pending_of.induct)
  case (3 s ss acc)
  then have "None \<notin> set (RecordsData s)" "nil_free ss" by (simp_all add: nil_free_def)
  moreover have "carries_data s \<longleftrightarrow> (\<exists>rd. Some rd \<in> set (RecordsData s) \<and> SubrecordType rd \<noteq> RecordResponse)"
    unfolding carries_data_def by (auto split: option.splits)
  ultimately show ?case
    using 3 by (auto simp: pending_of_records_eq data_records_def)
qed (auto simp: nil_free_def data_records_def)

lemma answer_record_total: "sound_record rd \<Longrightarrow> answer_record x s rd st \<noteq> None"
  by (auto simp: answer_record_def sound_record_def split: option.splits SubData.splits)

lemma answer_records_total: "list_all sound_record rds \<Longrightarrow> answer_records x s rds st \<noteq> None"
proof (induction rds arbitrary: st)
  case (Cons rd rds)
  then show ?case using answer_record_total [of rd x s st] by (auto split: sum.splits)
qed simp

lemma answer_services_total: "sound_services ss \<Longrightarrow> answer_services_loop x ss st \<noteq> None"
proof (induction x ss st rule: answer_services_loop.induct)
  case (3 x s ss st)
  then have s: "list_all sound_record (RecordsData s)" "sound_services ss" by (simp_all add: sound_services_def)
  then show ?case using 3 answer_records_total [OF s(1), of x s st] by (auto split: sum.splits)
qed (auto simp: sound_services_def)

lemma answer_part_total:
  assumes "ReadPacket f = (q, None)"
  shows "answer_part pid q st \<noteq> None \<and>
    (\<forall>ss st1. answer_part pid q st = Some (Inr (Some (ss, st1))) \<longrightarrow> sound_services ss)"
proof -
  from assms obtain data where d: "decodes_to (PacketType q) data (PacketServicesFrameData q)"
    by (auto simp: ReadPacket_spec packet_spec_def)
  show ?thesis
  proof (cases "PacketType q = EGTS_PT_RESPONSE")
    case True
    with d obtain resp where r: "PTResponse_Decode data = Inr resp"
      "PacketServicesFrameData q = Some (FD_Response (Some resp))"
      by (auto simp: decodes_to_def codes)
    from r(1) have "SDR resp = None \<or> (\<exists>ss. SDR resp = Some (RD_SFRD (Some ss)) \<and> sound_services ss)"
      by (auto simp: PTResponse_Decode_def dest: ServicesFrameData_Decode_sound split: if_splits)
    with r True show ?thesis by (auto simp: answer_part_def Let_def sound_services_def split: if_splits)
  next
    case False
    with d show ?thesis
      by (auto simp: answer_part_def decodes_to_def dest: ServicesFrameData_Decode_sound)
  qed
qed

declare not_None_eq [iff del]

lemma exchange_loop_total: "exchange_loop w x pid n c st \<noteq> None"
proof (induction "length (fst c)" arbitrary: n c st rule: less_induct)
  case less
  note e = exchange_loop.simps [of w x pid n c st]
  show ?case
  proof (cases "exchanged st \<or> (\<exists>e. ReadFrame c = Inl e)")
    case False
    then obtain f d where f: "ReadFrame c = Inr (f, d)" "\<not> exchanged st" by (cases "ReadFrame c") auto
    have IH: "exchange_loop w x pid m d st' \<noteq> None" for m st'
      by (rule less.hyps [OF ReadFrame_less [OF f(1)]])
    show ?thesis
    proof (cases "snd (ReadPacket f)")
      case None
      then obtain q where q: "ReadPacket f = (q, None)" by (cases "ReadPacket f") auto
      have total: "answer_services_loop x ss st1 \<noteq> None" if "answer_part pid q st = Some (Inr (Some (ss, st1)))" for ss st1
        using that answer_part_total [OF q] answer_services_total by blast
      show ?thesis
        unfolding e using f q answer_part_total [OF q, of pid st]
        by (simp add: IH del: Packet_Encode.simps split: option.split sum.split prod.split) (use total in blast)
    qed (use f in \<open>auto simp: e split: prod.splits\<close>)
  qed (auto simp: e)
qed

lemma exchange_total:
  assumes "PacketServicesFrameData pkg = Some (FD_SFRD (Some ss))" "nil_free ss"
  shows "exchange w n c pkg raw x \<noteq> None"
  by (simp add: exchange_def assms pending_of_eq exchange_loop_total split: option.split prod.split)

lemma auth_packet_data: "\<exists>ss. PacketServicesFrameData (auth_packet pid d) = Some (FD_SFRD (Some ss)) \<and> nil_free ss"
  by (simp add: auth_packet_def Let_def nil_free_def)

lemma authenticate_loop_total: "authenticate_loop w a pid ds n c \<noteq> None"
proof (induction ds arbitrary: pid n c)
  case (Cons d ds)
  obtain ss where ss: "PacketServicesFrameData (auth_packet pid d) = Some (FD_SFRD (Some ss))" "nil_free ss"
    using auth_packet_data by blast
  show ?case
    by (simp add: exchange_total [OF ss] Cons.IH del: Packet_Encode.simps split: sum.split option.split prod.split)
qed simp

lemma authenticate_total: "authenticate w a pid ident c \<noteq> None"
  by (simp add: authenticate_def Let_def authenticate_loop_total del: authenticate_loop.simps split: sum.split)

lemma outgoing_records_total: "None \<notin> set rds \<Longrightarrow> outgoing_records s rds x \<noteq> None"
  by (induction s rds x rule: outgoing_records.induct) auto

lemma outgoing_services_total: "nil_free ss \<Longrightarrow> outgoing_services ss x \<noteq> None"
proof (induction ss x rule: outgoing_services.induct)
  case (3 s ss x)
  then have "None \<notin> set (RecordsData s)" "nil_free ss" by (simp_all add: nil_free_def)
  with 3 outgoing_records_total [of "RecordsData s" s x] show ?case by (auto split: sum.splits option.splits)
qed (auto simp: nil_free_def)

lemma transfer_total:
  assumes "PacketServicesFrameData pkg = Some (FD_SFRD (Some ss))" "nil_free ss"
  shows "transfer k fresh pkg raw x ident c e \<noteq> None"
  by (auto simp: transfer_def Let_def authenticate_total exchange_total [OF assms]
      split: sum.splits option.splits)

lemma connect_and_send_total:
  assumes "PacketServicesFrameData pkg = Some (FD_SFRD (Some ss))" "nil_free ss"
  shows "connect_and_send k pkg raw x ident e \<noteq> None"
  by (simp add: connect_and_send_def Let_def transfer_total [OF assms] del: not_None_eq split: option.split sum.split prod.split)

lemma WriteContext_total: "WriteContext k rec ident e \<noteq> None"
proof (cases "egtsClosed e \<or> rec = None \<or> callContext k \<noteq> None")
  case False
  then obtain raw where raw: "rec = Some raw" "\<not> egtsClosed e" "callContext k = None" by (cases rec) auto
  obtain pkg d where p: "ReadPacket raw = (pkg, d)" by force
  show ?thesis
  proof (cases "d = None \<and> PacketType pkg = EGTS_PT_APPDATA")
    case True
    then obtain ss where ss: "PacketServicesFrameData pkg = Some (FD_SFRD (Some ss))" "nil_free ss"
      using decoded_services [of raw pkg] p by metis
    from p raw ss True show ?thesis
      by (simp add: WriteContext_def outgoing_services_total connect_and_send_total [OF ss]
          split: sum.split option.split)
  qed (use raw p in \<open>auto simp: WriteContext_def split: option.splits\<close>)
qed (auto simp: WriteContext_def split: option.splits)

declare not_None_eq [iff]

section \<open>The answer of a gateway\<close>

text \<open>Confirmations take exactly their keys off the records waited for.\<close>

lemma answer_confirmations:
  "answer_records x s (map (\<lambda>crn. Some (confirmation crn)) crns) st = Some (Inr (st\<lparr>pendingConfs := pendingConfs st -
     (\<lambda>crn. \<lparr>number = crn, source_service = SourceServiceType s, recipient_service = RecipientServiceType s\<rparr>) ` set crns\<rparr>))"
proof (induction crns arbitrary: st)
  case (Cons crn crns)
  show ?case
    using Cons by (auto simp: answer_record_def confirmation_def confirm_record_def Let_def codes
        intro!: arg_cong [where f = "\<lambda>p. st\<lparr>pendingConfs := p\<rparr>"])
qed simp

definition confirmed_keys :: "ServiceDataRecord list \<Rightarrow> recordConfirmation set" where
  "confirmed_keys ss = {\<lparr>number = crn, source_service = SourceServiceType s, recipient_service = RecipientServiceType s\<rparr> | crn s.
     s \<in> set ss \<and> crn \<in> set (confirmed s)}"

lemma answer_services_confirm:
  assumes "\<forall>s\<in>set ss. \<exists>n k crns. s = service_for n k crns"
  shows "answer_services_loop x (map Some ss) st = Some (Inr (st\<lparr>pendingConfs := pendingConfs st - confirmed_keys ss\<rparr>))"
  using assms
proof (induction ss arbitrary: st)
  case (Cons s ss)
  then obtain n k crns where s: "s = service_for n k crns" by auto
  have "RecordsData s = map (\<lambda>crn. Some (confirmation crn)) (confirmed s)" by (simp add: s) (simp add: service_for_def)
  with Cons show ?case
    by (auto simp: answer_confirmations confirmed_keys_def intro!: arg_cong [where f = "\<lambda>p. st\<lparr>pendingConfs := p\<rparr>"])
qed (simp add: confirmed_keys_def)

lemma answer_services_are: "s \<in> set (answer_services n rs) \<Longrightarrow> \<exists>m k crns. s = service_for m k crns"
  by (auto simp: answer_services_def)

lemma first_pairs_enumerate:
  assumes "k \<in> set (first_pairs rs)"
  obtains i where "(i, k) \<in> set (enumerate 0 (first_pairs rs))"
  using assms by (metis in_set_conv_nth in_set_enumerate_eq plus_nat.add_0 zero_le diff_zero add.commute fst_conv snd_conv)

lemma key_of_confirmed:
  assumes "r \<in> set rs"
  shows "key_of r \<in> confirmed_keys (answer_services n rs)"
proof -
  let ?k = "pair_of r"
  obtain i where i: "(i, ?k) \<in> set (enumerate 0 (first_pairs rs))"
    by (rule first_pairs_enumerate [of ?k rs]) (use assms in auto)
  have "service_for (n + word_of_nat i) ?k (numbers_for rs ?k) \<in> set (answer_services n rs)"
    unfolding answer_services_def set_map by (rule image_eqI [OF _ i]) simp
  moreover have "RecordNumber r \<in> set (numbers_for rs ?k)"
    using assms by (auto simp: numbers_for_def)
  ultimately show ?thesis
    unfolding confirmed_keys_def mem_Collect_eq key_of_def
    by (intro exI [of _ "RecordNumber r"] exI [of _ "service_for (n + word_of_nat i) ?k (numbers_for rs ?k)"])
      (simp, simp add: service_for_def pair_of_def)
qed

section \<open>The writer's connection\<close>

lemma transfer_state:
  assumes "transfer k fresh pkg raw x ident c e = Some (err, out, e')"
  shows "egtsCfg e' = egtsCfg e \<and> egtsClosed e' = egtsClosed e \<and> egtsConn e' \<noteq> None \<and>
    (err = None \<longrightarrow> egtsIdentity e' = (if fresh then ident else egtsIdentity e))"
  using assms by (auto simp: transfer_def Let_def split: if_splits option.splits sum.splits prod.splits)

lemma connect_and_send_state:
  assumes "connect_and_send k pkg raw x ident e = Some (err, out, e')"
  shows "egtsCfg e' = egtsCfg e \<and> egtsClosed e' = egtsClosed e \<and>
    (err = None \<longrightarrow> egtsConn e' \<noteq> None \<and> egtsIdentity e' = ident)"
  using assms
  by (auto simp: connect_and_send_def Let_def interrupted_def dest!: transfer_state
      split: if_splits option.splits sum.splits prod.splits)

lemma WriteContext_cases:
  assumes "WriteContext k rec ident e = Some (err, out, e')"
  obtains (early) e0 where "err = Some e0" "out = []" "e' = e"
  | (sent) raw pkg ss x err1 e1 where "rec = Some raw" "ReadPacket raw = (pkg, None)" "\<not> egtsClosed e"
      "PacketServicesFrameData pkg = Some (FD_SFRD (Some ss))" "outgoing_services ss False = Some (Inr x)"
      "connect_and_send k pkg raw x ident e = Some (err1, out, e1)"
      "(err, out, e') = drop_connection k (err1, out, e1)"
proof (cases "egtsClosed e \<or> rec = None \<or> callContext k \<noteq> None")
  case True
  with assms show thesis by (auto simp: WriteContext_def intro: early split: option.splits if_splits)
next
  case False
  then obtain raw where raw: "rec = Some raw" by (cases rec) auto
  obtain pkg d where p: "ReadPacket raw = (pkg, d)" by force
  have w: "WriteContext k rec ident e =
    (case d of Some e' \<Rightarrow> Some (Some e', [], e) | None \<Rightarrow>
       if PacketType pkg \<noteq> EGTS_PT_APPDATA then Some (Some (Errorf ''EGTS relay requires an APPDATA packet''), [], e)
       else case PacketServicesFrameData pkg of
           Some (FD_SFRD (Some services)) \<Rightarrow>
             (case outgoing_services services False of
                None \<Rightarrow> None
              | Some (Inl err) \<Rightarrow> Some (Some err, [], e)
              | Some (Inr x) \<Rightarrow> map_option (drop_connection k) (connect_and_send k pkg raw x ident e))
         | _ \<Rightarrow> None)"
    using False raw p by (auto simp: WriteContext_def split: option.split)
  show thesis
  proof (cases "d = None \<and> PacketType pkg = EGTS_PT_APPDATA")
    case True
    with p obtain ss where ss: "PacketServicesFrameData pkg = Some (FD_SFRD (Some ss))" "nil_free ss"
      using decoded_services [of raw pkg] by metis
    with outgoing_services_total obtain o' where o': "outgoing_services ss False = Some o'" by fast
    show thesis
    proof (cases o')
      case (Inl a)
      with assms w True ss o' show thesis by (intro early) auto
    next
      case (Inr x)
      with assms w True ss o' obtain r where r: "connect_and_send k pkg raw x ident e = Some r"
        "drop_connection k r = (err, out, e')" by auto
      moreover obtain err1 out1 e1 where "r = (err1, out1, e1)" by (cases r) auto
      moreover from calculation have "out1 = out" by (auto simp: drop_connection_def split: if_splits)
      ultimately show thesis using p raw ss o' Inr True False by (intro sent) auto
    qed
  qed (use assms w in \<open>auto split: option.splits intro: early\<close>)
qed

end
