(* ===== verification/Egts_Client_Properties.thy ===== *)
theory Egts_Client_Properties
  imports Egts_Client_Lemmas
begin

text \<open>
  The properties of the outgoing side: what a confirmed packet stands on, the exchange of two
  gateways, and the state of the writer's connection.
\<close>

declare Packet_Encode.simps [simp del]

section \<open>Steps of an exchange\<close>

text \<open>A wire on which every call works.\<close>

definition working :: "wire \<Rightarrow> bool" where
  "working w \<longleftrightarrow> (\<forall>n. wireContext w n = None \<and> wireDeadline w n = None) \<and>
     (\<forall>n b. wireWrite w n b = (length b, None))"

lemma ReadFrame_encoded: "Packet_Encode (Some q) = Inr b \<Longrightarrow> ReadFrame (b @ rest, e) = Inr (b, (rest, e))"
  using Encode_transport_frame [of q b] by (simp add: ReadFrame_Inr)

lemma exchange_loop_done: "exchanged st \<Longrightarrow> exchange_loop w x pid n c st = Some (Inr (required st), [], c)"
  by (simp add: exchange_loop.simps)

lemma exchange_loop_frame:
  assumes "\<not> exchanged st" "Packet_Encode (Some p0) = Inr f" "ReadPacket f = (q, None)"
    "answer_part pid q st = Some (Inr (Some (ss, st1)))" "answer_services_loop x ss st1 = Some (Inr st2)"
    "PacketType q = EGTS_PT_RESPONSE"
  shows "exchange_loop w x pid n (f @ rest, e) st = exchange_loop w x pid n (rest, e) st2"
  using assms(1,3-6) ReadFrame_encoded [OF assms(2)]
  by (subst exchange_loop.simps) (simp add: codes)

lemma data_keys_confirmed:
  "nil_free incoming \<Longrightarrow> key_of ` set (data_records incoming) - confirmed_keys (answer_services n (data_records incoming)) = {}"
  using key_of_confirmed by blast

lemma answered_with:
  assumes "PacketType p = EGTS_PT_APPDATA" "PacketServicesFrameData p = Some (FD_SFRD (Some incoming))"
    "length (data_records incoming) \<le> 5039"
  obtains a q where "Packet_Encode (Some (PrepareAnswer (Some (p\<lparr>ErrorCode := code\<rparr>)) n pid)) = Inr a"
    "ReadPacket a = (q, None)" "PacketType q = EGTS_PT_RESPONSE"
    "PacketServicesFrameData q = Some (FD_Response (Some (answer_response (p\<lparr>ErrorCode := code\<rparr>) n)))"
  by (rule answer_read [of "p\<lparr>ErrorCode := code\<rparr>" n pid]) (use assms in \<open>auto intro: that\<close>)

lemma answer_accepts:
  assumes "nil_free incoming" "PacketServicesFrameData p = Some (FD_SFRD (Some incoming))"
    "PacketType q = EGTS_PT_RESPONSE"
    "PacketServicesFrameData q = Some (FD_Response (Some (answer_response (p\<lparr>ErrorCode := EGTS_PC_OK\<rparr>) n)))"
    "pendingConfs st \<subseteq> key_of ` set (data_records incoming)"
  shows "\<exists>ss st1. answer_part (PacketID p) q st = Some (Inr (Some (ss, st1))) \<and>
    answer_services_loop x ss st1 = Some (Inr (st\<lparr>transportOK := True, pendingConfs := {}\<rparr>))"
proof -
  let ?ss = "answer_services n (data_records incoming)"
  have loop: "answer_services_loop x (map Some ?ss) (st\<lparr>transportOK := True\<rparr>) =
      Some (Inr (st\<lparr>transportOK := True, pendingConfs := {}\<rparr>))"
    using answer_services_confirm [of ?ss x "st\<lparr>transportOK := True\<rparr>"] answer_services_are
      data_keys_confirmed [OF assms(1), of n] assms(5) by fastforce
  show ?thesis
  proof (cases "?ss = []")
    case True
    then have "pendingConfs st = {}" using assms(5) by simp
    then show ?thesis using True assms
      by (cases st) (auto simp: answer_part_def answer_response_def answer_data_def Let_def codes)
  next
    case False
    then show ?thesis using loop assms
      by (auto simp: answer_part_def answer_response_def answer_data_def Let_def codes)
  qed
qed

text \<open>The answer of a gateway settles all records of the packet.\<close>

lemma exchange_answered:
  assumes "PacketServicesFrameData p = Some (FD_SFRD (Some incoming))" "nil_free incoming"
    "Packet_Encode (Some (PrepareAnswer (Some (p\<lparr>ErrorCode := EGTS_PC_OK\<rparr>)) n pid)) = Inr a"
    "PacketType p = EGTS_PT_APPDATA" "length (data_records incoming) \<le> 5039"
    "\<not> exchanged st" "pendingConfs st \<subseteq> key_of ` set (data_records incoming)"
  shows "exchange_loop w x (PacketID p) m (a @ rest, e) st =
    exchange_loop w x (PacketID p) m (rest, e) (st\<lparr>transportOK := True, pendingConfs := {}\<rparr>)"
proof -
  obtain a' q where q: "Packet_Encode (Some (PrepareAnswer (Some (p\<lparr>ErrorCode := EGTS_PC_OK\<rparr>)) n pid)) = Inr a'"
    "ReadPacket a' = (q, None)" "PacketType q = EGTS_PT_RESPONSE"
    "PacketServicesFrameData q = Some (FD_Response (Some (answer_response (p\<lparr>ErrorCode := EGTS_PC_OK\<rparr>) n)))"
    by (rule answered_with [OF assms(4,1,5)])
  with assms(3) have a: "a' = a" by (simp)
  from answer_accepts [OF assms(2,1) q(3,4) assms(7)] obtain ss st1 where
    "answer_part (PacketID p) q st = Some (Inr (Some (ss, st1)))"
    "answer_services_loop x ss st1 = Some (Inr (st\<lparr>transportOK := True, pendingConfs := {}\<rparr>))" by blast
  from exchange_loop_frame [OF assms(6) q(1,2) this q(3)] show ?thesis by (simp add: a)
qed

text \<open>The result code that follows an accepted authentication, which is itself a packet to answer.\<close>

lemma exchange_result_code:
  assumes "working w" "Packet_Encode (Some (PrepareSRResultCode EGTS_PC_OK n pid)) = Inr b" "\<not> exchanged st"
  obtains ack where "exchange_loop w True pid0 m (b @ rest, e) st =
    map_option (\<lambda>(res, out, c). (res, ack # out, c)) (exchange_loop w True pid0 (m + 1) (rest, e) (st\<lparr>authOK := True\<rparr>))"
proof -
  obtain b' q where q: "Packet_Encode (Some (PrepareSRResultCode EGTS_PC_OK n pid)) = Inr b'"
    "ReadPacket b' = (q, None)" "PacketType q = EGTS_PT_APPDATA" "PacketID q = pid"
    "PacketServicesFrameData q = Some (FD_SFRD (Some [Some (result_service EGTS_PC_OK n)]))"
    by (rule result_code_read [of EGTS_PC_OK n pid])
  with assms(2) have b: "b' = b" by (simp)
  obtain ack where ack: "Packet_Encode (Some (PrepareAnswer (Some q) 0 pid)) = Inr ack"
    by (rule answer_read [OF q(3), of 0 pid]) (auto simp: data_records_def q(5))
  have part: "answer_part pid0 q st = Some (Inr (Some ([Some (result_service EGTS_PC_OK n)], st)))"
    using q by (simp add: answer_part_def codes)
  have rec: "answer_services_loop True [Some (result_service EGTS_PC_OK n)] st = Some (Inr (st\<lparr>authOK := True\<rparr>))"
    by (simp add: result_service_def result_record_def answer_record_def auth_pair_def confirm_code_def codes)
  show thesis
    by (rule that [of ack])
      (use assms(1,3) q(2-4) ack ReadFrame_encoded [OF q(1), of rest e] in \<open>subst exchange_loop.simps,
        simp add: b part rec working_def write_wire_def split: option.split
          del: answer_services_loop.simps\<close>)
qed

section \<open>Confirmation\<close>

text \<open>The start of an exchange and the loop behind it.\<close>

lemma exchange_eq:
  assumes "PacketServicesFrameData pkg = Some (FD_SFRD (Some ss))" "nil_free ss" "working w"
  shows "exchange w n c pkg raw x = map_option (\<lambda>(res, out, c'). (res, raw # out, c'))
    (exchange_loop w x (PacketID pkg) (n + 1) c
      \<lparr>pendingConfs = key_of ` set (data_records ss), transportOK = False, authOK = \<not> x, required = False\<rparr>)"
  using assms by (simp add: exchange_def pending_of_eq working_def write_wire_def split: option.split)

lemma exchange_Inr:
  assumes "exchange w n c pkg raw x = Some (Inr r, out, c')"
    and "PacketServicesFrameData pkg = Some (FD_SFRD (Some ss))" "nil_free ss"
  obtains out' where "out = raw # out'" "exchange_loop w x (PacketID pkg) (n + 1) c
      \<lparr>pendingConfs = key_of ` set (data_records ss), transportOK = False, authOK = \<not> x, required = False\<rparr> =
      Some (Inr r, out', c')"
  using assms by (auto simp: exchange_def pending_of_eq split: if_splits option.splits)

lemma exchange_evidence:
  assumes "exchange w n c pkg raw x = Some (Inr r, out, c')"
    and "PacketServicesFrameData pkg = Some (FD_SFRD (Some ss))" "nil_free ss"
  obtains fs out' where "out = raw # out'" "frames_read c fs c'" "\<exists>f\<in>set fs. accepts (PacketID pkg) f"
    "\<forall>s\<in>set (data_records ss). \<exists>f\<in>set fs. confirms (PacketID pkg) f (key_of s)"
    "\<not> x \<or> (\<exists>f\<in>set fs. grants (PacketID pkg) f) \<or> r" "r \<longrightarrow> (\<exists>f\<in>set fs. demands (PacketID pkg) f)"
  by (rule exchange_Inr [OF assms]) (auto simp: exchange_evidence_from_def dest!: exchange_loop_evidence)


text \<open>A wire that works, and the exchange with another gateway over it.\<close>

definition demo_wire :: wire where
  "demo_wire = \<lparr>wireContext = \<lambda>_. None, wireDeadline = \<lambda>_. None, wireWrite = \<lambda>_ b. (length b, None)\<rparr>"

lemma working_demo [simp]: "working demo_wire"
  by (simp add: working_def demo_wire_def)

lemma exchange_with_gateway:
  assumes "PacketServicesFrameData p = Some (FD_SFRD (Some ss))" "nil_free ss" "PacketType p = EGTS_PT_APPDATA"
    "length (data_records ss) \<le> 5039" "working w"
    "Packet_Encode (Some (PrepareAnswer (Some (p\<lparr>ErrorCode := EGTS_PC_OK\<rparr>)) n pid)) = Inr a"
  shows "exchange w m (a @ rest, e) p raw False = Some (Inr False, [raw], (rest, e))"
  using exchange_answered [OF assms(1,2,6,3,4), of _ w False "m + 1" rest e]
  by (simp add: exchange_eq [OF assms(1,2,5)] exchanged_def exchange_loop_done)

lemma exchange_refused:
  assumes "PacketServicesFrameData p = Some (FD_SFRD (Some ss))" "nil_free ss" "PacketType p = EGTS_PT_APPDATA"
    "length (data_records ss) \<le> 5039" "working w" "code \<notin> {EGTS_PC_OK, EGTS_PC_IN_PROGRESS}"
    "Packet_Encode (Some (PrepareAnswer (Some (p\<lparr>ErrorCode := code\<rparr>)) n pid)) = Inr a"
  shows "exchange w m (a @ rest, e) p raw False =
    Some (Inl (Errorf ''EGTS packet %d rejected with code %d''), [raw], (rest, e))"
proof -
  obtain a' q where q: "Packet_Encode (Some (PrepareAnswer (Some (p\<lparr>ErrorCode := code\<rparr>)) n pid)) = Inr a'"
    "ReadPacket a' = (q, None)" "PacketType q = EGTS_PT_RESPONSE"
    "PacketServicesFrameData q = Some (FD_Response (Some (answer_response (p\<lparr>ErrorCode := code\<rparr>) n)))"
    by (rule answered_with [OF assms(3,1,4)])
  with assms(7) have a: "a' = a" by (simp)
  have "answer_part (PacketID p) q st = Some (Inl (Errorf ''EGTS packet %d rejected with code %d''))" for st
    using q assms(6) by (simp add: answer_part_def answer_response_def answer_data_def)
  then show ?thesis
    using q(2,3) ReadFrame_encoded [OF q(1), of rest e] a
    by (simp add: exchange_eq [OF assms(1,2,5)]) (simp add: exchange_loop.simps exchanged_def)
qed

lemma demo_packet:
  obtains raw p a where "ReadPacket raw = (p, None)" "PacketType p = EGTS_PT_APPDATA" "PacketID p = 3"
    "PacketServicesFrameData p = Some (FD_SFRD (Some [Some (result_service 0 7)]))"
    "data_records [Some (result_service 0 7)] = [result_service 0 7]" "nil_free [Some (result_service 0 7)]"
    "Packet_Encode (Some (PrepareAnswer (Some (p\<lparr>ErrorCode := EGTS_PC_OK\<rparr>)) 4 5)) = Inr a"
proof -
  obtain raw p where p: "ReadPacket raw = (p, None)" "PacketType p = EGTS_PT_APPDATA" "PacketID p = 3"
    "PacketServicesFrameData p = Some (FD_SFRD (Some [Some (result_service 0 7)]))"
    by (rule result_code_read [of 0 7 3])
  have d: "data_records [Some (result_service 0 7)] = [result_service 0 7]" "nil_free [Some (result_service 0 7)]"
    by (simp_all add: data_records_def carries_data_def result_service_def result_record_def codes nil_free_def)
  obtain a where "Packet_Encode (Some (PrepareAnswer (Some (p\<lparr>ErrorCode := EGTS_PC_OK\<rparr>)) 4 5)) = Inr a"
    by (rule answered_with [OF p(2,4), of EGTS_PC_OK 4 5]) (simp add: d)
  with p d show thesis by (rule that)
qed


text \<open>
  C17. Two gateways: for an accepted packet of at most 5039 data records, over a connection that takes
  the writes, and when no authentication result is awaited, the answer another gateway prepares with its
  final code ends the exchange. Code 0 settles every data record and the exchange succeeds with nothing
  else read or sent; any other code, the one for a packet in progress aside, is an error, so the packet
  stays to be delivered.
\<close>

theorem relayed_packet_settled:
  assumes "ReadPacket raw = (p, None)" "PacketType p = EGTS_PT_APPDATA"
    and "PacketServicesFrameData p = Some (FD_SFRD (Some ss))" "length (data_records ss) \<le> 5039"
    and "working w" "code \<noteq> EGTS_PC_IN_PROGRESS"
  shows "\<exists>a. Packet_Encode (Some (PrepareAnswer (Some (p\<lparr>ErrorCode := code\<rparr>)) n pid)) = Inr a \<and>
    exchange w m (a @ rest, e) p raw False =
      Some (if code = EGTS_PC_OK then Inr False
        else Inl (Errorf ''EGTS packet %d rejected with code %d''), [raw], (rest, e))"
proof -
  have free: "nil_free ss" using accepted_data [OF assms(1,2)] assms(3) by auto
  obtain a where a: "Packet_Encode (Some (PrepareAnswer (Some (p\<lparr>ErrorCode := code\<rparr>)) n pid)) = Inr a"
    by (rule answered_with [OF assms(2-4)])
  show ?thesis
  proof (cases "code = EGTS_PC_OK")
    case True
    with exchange_with_gateway [OF assms(3) free assms(2,4,5)] a show ?thesis by auto
  next
    case False
    with exchange_refused [OF assms(3) free assms(2,4,5) _ a] assms(6) a show ?thesis by auto
  qed
qed

theorem relayed_packet_settled_witness:
  "\<exists>raw p a b. exchange demo_wire 0 (a, EOF) p raw False = Some (Inr False, [raw], ([], EOF)) \<and>
    exchange demo_wire 0 (b, EOF) p raw False =
      Some (Inl (Errorf ''EGTS packet %d rejected with code %d''), [raw], ([], EOF))"
proof -
  obtain raw p a where p: "ReadPacket raw = (p, None)" "PacketType p = EGTS_PT_APPDATA" "PacketID p = 3"
    "PacketServicesFrameData p = Some (FD_SFRD (Some [Some (result_service 0 7)]))"
    "data_records [Some (result_service 0 7)] = [result_service 0 7]"
    by (rule demo_packet)
  then have len: "length (data_records [Some (result_service 0 7)]) \<le> 5039" by simp
  have c: "EGTS_PC_OK \<noteq> EGTS_PC_IN_PROGRESS" "EGTS_PC_AUTH_DENIED \<noteq> EGTS_PC_IN_PROGRESS"
    "EGTS_PC_AUTH_DENIED \<noteq> EGTS_PC_OK" by (simp_all add: codes)
  from relayed_packet_settled [OF p(1,2,4) len working_demo c(1), of 4 5 0 "[]" EOF]
    relayed_packet_settled [OF p(1,2,4) len working_demo c(2), of 4 5 0 "[]" EOF] c(3)
  show ?thesis by auto
qed

section \<open>The writer\<close>

text \<open>
  C18. One call of the writer always returns, and it leaves the connection in a state that the next
  call can rely on: after a success there is a connection and it belongs to the session identity
  of the packet; after an error there is none, unless the packet was refused before the
  connection was looked at, in which case nothing was sent and nothing changed.
\<close>

theorem writer_returns:
  "\<exists>err out e'. WriteContext k rec ident e = Some (err, out, e') \<and>
    egtsCfg e' = egtsCfg e \<and> egtsClosed e' = egtsClosed e \<and>
    (if err = None then egtsConn e' \<noteq> None \<and> egtsIdentity e' = ident
     else egtsConn e' = None \<or> (out = [] \<and> e' = e))"
proof -
  obtain err out e' where w: "WriteContext k rec ident e = Some (err, out, e')"
    using WriteContext_total [of k rec ident e] by auto
  from w show ?thesis
  proof (cases rule: WriteContext_cases)
    case early
    with w show ?thesis by auto
  next
    case (sent raw pkg ss x err1 e1)
    note s = connect_and_send_state [OF sent(6)]
    have "egtsCfg e' = egtsCfg e1 \<and> egtsClosed e' = egtsClosed e1 \<and> (err = None \<longleftrightarrow> err1 = None) \<and>
      (err1 = None \<longrightarrow> e' = e1) \<and> (err1 \<noteq> None \<longrightarrow> egtsConn e' = None)"
      using sent(7) by (cases "egtsConn e1"; cases err1) (auto simp: drop_connection_def split: if_splits)
    with s w show ?thesis by (auto intro!: exI [of _ err] exI [of _ out] exI [of _ e'])
  qed
qed

section \<open>Authentication comes first\<close>

lemma frames_read_append: "frames_read c fs d \<Longrightarrow> frames_read d gs d' \<Longrightarrow> frames_read c (fs @ gs) d'"
  by (induction fs arbitrary: c) auto

text \<open>
  The record with a packet id was sent, and the platform took it: it granted the authentication, or,
  when credentials are configured and still to be sent, it asked for them.
\<close>

definition authenticated_with :: "EGTSAuthConf \<Rightarrow> u16 \<Rightarrow> SubData \<Rightarrow> bytes list \<Rightarrow> bytes list \<Rightarrow> bool" where
  "authenticated_with a pid d out fs \<longleftrightarrow> (\<exists>raw\<in>set out. Packet_Encode (Some (auth_packet pid d)) = Inr raw) \<and>
     (\<exists>f\<in>set fs. accepts pid f) \<and>
     ((\<exists>f\<in>set fs. grants pid f) \<or> EgtsAuthEnabled a \<and> \<not> is_credentials d \<and> (\<exists>f\<in>set fs. demands pid f))"

lemma authenticated_with_mono:
  "authenticated_with a pid d out fs \<Longrightarrow> set out \<subseteq> set out' \<Longrightarrow> set fs \<subseteq> set fs' \<Longrightarrow> authenticated_with a pid d out' fs'"
  unfolding authenticated_with_def by blast

lemma exchange_authenticates:
  assumes "exchange w n c (auth_packet pid d) raw True = Some (Inr r, out, c')"
    and "Packet_Encode (Some (auth_packet pid d)) = Inr raw" "\<not> (r \<and> (\<not> EgtsAuthEnabled a \<or> is_credentials d))"
  obtains fs where "frames_read c fs c'" "authenticated_with a pid d out fs"
proof -
  obtain ss where ss: "PacketServicesFrameData (auth_packet pid d) = Some (FD_SFRD (Some ss))" "nil_free ss"
    using auth_packet_data by blast
  have pid: "PacketID (auth_packet pid d) = pid" by (simp add: auth_packet_def Let_def)
  obtain fs out' where "out = raw # out'" "frames_read c fs c'" "\<exists>f\<in>set fs. accepts pid f"
    "(\<exists>f\<in>set fs. grants pid f) \<or> r" "r \<longrightarrow> (\<exists>f\<in>set fs. demands pid f)"
    by (rule exchange_evidence [OF assms(1) ss, unfolded pid]) blast
  with assms(2,3) show thesis by (intro that [of fs]) (auto simp: authenticated_with_def)
qed

lemma authenticate_loop_evidence:
  assumes "authenticate_loop w a pid ds n c = Some (Inr (), out, c')"
  shows "\<exists>fs. frames_read c fs c' \<and> (\<forall>i<length ds. authenticated_with a (pid + word_of_nat i) (ds ! i) out fs)"
  using assms
proof (induction ds arbitrary: pid n c out)
  case (Cons d ds)
  then obtain raw where raw: "Packet_Encode (Some (auth_packet pid d)) = Inr raw"
    by (auto split: sum.splits)
  with Cons.prems obtain r out1 c1 where e: "exchange w n c (auth_packet pid d) raw True = Some (Inr r, out1, c1)"
    by (auto split: sum.splits option.splits)
  from Cons.prems obtain out2 where l: "\<not> (r \<and> (\<not> EgtsAuthEnabled a \<or> is_credentials d))"
    "authenticate_loop w a (pid + 1) ds (n + length out1) c1 = Some (Inr (), out2, c')" "out = out1 @ out2"
    by (auto simp: raw e split: if_splits option.splits)
  obtain fs where fs: "frames_read c fs c1" "authenticated_with a pid d out1 fs"
    by (rule exchange_authenticates [OF e raw l(1)])
  from Cons.IH [OF l(2)] obtain gs where gs: "frames_read c1 gs c'"
    "\<And>i. i < length ds \<Longrightarrow> authenticated_with a (pid + 1 + word_of_nat i) (ds ! i) out2 gs" by blast
  have "authenticated_with a (pid + word_of_nat i) ((d # ds) ! i) out (fs @ gs)" if "i < Suc (length ds)" for i
    using that fs(2) gs(2) [of "i - 1"] l(3)
    by (cases i) (auto simp: algebra_simps elim!: authenticated_with_mono)
  with frames_read_append [OF fs(1) gs(1)] show ?case by auto
qed (auto intro: exI [of _ "[]"])

lemma authenticate_evidence:
  assumes "authenticate w a pid ident c = Some (Inr (), out, c')"
  obtains ts fs where "relay_identity ident = Inr ts" "frames_read c fs c'"
    "\<And>i. i < length (ts @ credential_record a) \<Longrightarrow> authenticated_with a
      (pid - word_of_nat (length (ts @ credential_record a)) + word_of_nat i) ((ts @ credential_record a) ! i) out fs"
proof -
  from assms obtain ts where ts: "relay_identity ident = Inr ts"
    "authenticate_loop w a (pid - word_of_nat (length (ts @ credential_record a))) (ts @ credential_record a) 0 c =
      Some (Inr (), out, c')"
    by (auto simp: authenticate_def Let_def simp del: authenticate_loop.simps split: sum.splits)
  from authenticate_loop_evidence [OF ts(2)] that [OF ts(1)] show thesis by blast
qed

section \<open>What the authentication sends\<close>

text \<open>A frame says which packet it is.\<close>

lemma encoded_identity:
  assumes "Packet_Encode (Some p) = Inr b" "ReadPacket b = (q, None)"
  shows "PacketID q = PacketID p \<and> PacketType q = PacketType p"
proof -
  obtain w data where b: "b = frame_of w data (sealed w data p)" by (rule Packet_Encode_frame [OF assms(1)])
  from assms(2) obtain w' data' where b': "b = frame_of w' data' q" by (auto simp: ReadPacket_spec packet_spec_def)
  have "take 5 (drop 5 b) = PutUint16 (FrameDataLength p) @ PutUint16 (PacketID p) @ [PacketType p]"
    unfolding b frame_of_def header_bytes_def by (simp add: sealed_def)
  moreover have "take 5 (drop 5 b) = PutUint16 (FrameDataLength q) @ PutUint16 (PacketID q) @ [PacketType q]"
    unfolding b' frame_of_def header_bytes_def by simp
  ultimately have "PutUint16 (PacketID q) = PutUint16 (PacketID p)" "PacketType q = PacketType p" by simp_all
  then show ?thesis by (metis LittleEndian_PutUint16)
qed

text \<open>Beside the packet of an exchange, only responses are sent.\<close>

definition is_response :: "bytes \<Rightarrow> bool" where
  "is_response b \<longleftrightarrow> (\<exists>p. PacketType p = EGTS_PT_RESPONSE \<and> Packet_Encode (Some p) = Inr b)"

lemma response_of_answer: "PacketType p = EGTS_PT_APPDATA \<Longrightarrow> PacketType (PrepareAnswer (Some p) n pid) = EGTS_PT_RESPONSE"
  by (simp add: PrepareAnswer_def Let_def split: prod.split)

lemma exchange_loop_sends:
  assumes "exchange_loop w x pid n c st = Some (res, out, c')"
  shows "list_all is_response out"
  using assms
proof (induction "length (fst c)" arbitrary: n c st res out c' rule: less_induct)
  case less
  note e = less.prems [unfolded exchange_loop.simps [of w x pid n c st]]
  show ?case
  proof (cases "\<not> exchanged st \<and> (\<exists>f d. ReadFrame c = Inr (f, d))")
    case True
    then obtain f d where f: "\<not> exchanged st" "ReadFrame c = Inr (f, d)" by blast
    note IH = less.hyps [OF ReadFrame_less [OF f(2)]]
    obtain q er where q: "ReadPacket f = (q, er)" by (cases "ReadPacket f")
    consider "out = []" | st1 where "exchange_loop w x pid n d st1 = Some (res, out, c')"
      | b where "PacketType q = EGTS_PT_APPDATA" "Packet_Encode (Some (PrepareAnswer (Some q) 0 (PacketID q))) = Inr b" "out = [b]"
      | b st1 out' where "PacketType q = EGTS_PT_APPDATA" "Packet_Encode (Some (PrepareAnswer (Some q) 0 (PacketID q))) = Inr b"
          "out = b # out'" "exchange_loop w x pid (n + 1) d st1 = Some (res, out', c')"
      using e f q by (auto split: option.splits sum.splits if_splits simp del: not_None_eq)
    then show ?thesis
    proof cases
      case 4
      with IH [OF 4(4)] show ?thesis by (auto simp: is_response_def intro: response_of_answer)
    qed (use IH in \<open>auto simp: is_response_def intro: response_of_answer\<close>)
  qed (use e in \<open>auto split: sum.splits if_splits\<close>)
qed

lemma exchange_sends: "exchange w n c pkg raw x = Some (res, out, c') \<Longrightarrow> list_all (\<lambda>b. b = raw \<or> is_response b) out"
  by (auto simp: exchange_def list_all_iff split: if_splits option.splits FrameData.splits dest!: exchange_loop_sends)

text \<open>An authentication sends its own packets and responses, whether it succeeds or not.\<close>

definition auth_sends :: "u16 \<Rightarrow> SubData list \<Rightarrow> bytes \<Rightarrow> bool" where
  "auth_sends pid ds b \<longleftrightarrow> is_response b \<or> (\<exists>i<length ds. Packet_Encode (Some (auth_packet (pid + word_of_nat i) (ds ! i))) = Inr b)"

lemma auth_sends_Cons: "auth_sends (pid + 1) ds b \<Longrightarrow> auth_sends pid (d # ds) b"
  unfolding auth_sends_def by (force simp: algebra_simps)

lemma authenticate_loop_sends:
  "authenticate_loop w a pid ds n c = Some (res, out, c') \<Longrightarrow> list_all (auth_sends pid ds) out"
proof (induction ds arbitrary: pid n c res out c')
  case (Cons d ds)
  show ?case
  proof (cases "Packet_Encode (Some (auth_packet pid d))")
    case (Inl e)
    with Cons.prems show ?thesis by auto
  next
    case (Inr raw)
    have raw: "auth_sends pid (d # ds) raw" using Inr by (auto simp: auth_sends_def intro!: exI [of _ 0])
    obtain r out1 c1 where e: "exchange w n c (auth_packet pid d) raw True = Some (r, out1, c1)"
      using Cons.prems Inr by (cases "exchange w n c (auth_packet pid d) raw True") auto
    have out1: "list_all (auth_sends pid (d # ds)) out1"
      using exchange_sends [OF e] raw by (auto simp: list_all_iff auth_sends_def)
    from Cons.prems Inr e consider "out = out1"
      | out2 res' c2 where "out = out1 @ out2" "authenticate_loop w a (pid + 1) ds (n + length out1) c1 = Some (res', out2, c2)"
      by (auto split: sum.splits if_splits option.splits)
    then show ?thesis
    proof cases
      case 2
      from Cons.IH [OF 2(2)] auth_sends_Cons out1 show ?thesis by (auto simp: 2(1) list_all_iff)
    qed (use out1 in simp)
  qed
qed simp

lemma relay_identity_length: "relay_identity ident = Inr ts \<Longrightarrow> length (ts @ credential_record a) \<le> 2"
  by (auto simp: relay_identity_def credential_record_def split: if_splits sum.splits)

text \<open>None of it is the packet to deliver, which is no response and has an id of its own.\<close>

lemma authenticate_sends_no_data:
  assumes "authenticate w a (PacketID pkg) ident c = Some (res, out, c')" "ReadPacket raw = (pkg, None)"
    and "PacketType pkg = EGTS_PT_APPDATA"
  shows "raw \<notin> set out"
proof
  assume raw: "raw \<in> set out"
  from assms(1) obtain ts where ts: "relay_identity ident = Inr ts"
    "authenticate_loop w a (PacketID pkg - word_of_nat (length (ts @ credential_record a))) (ts @ credential_record a) 0 c =
      Some (res, out, c')"
    using raw by (auto simp: authenticate_def Let_def simp del: authenticate_loop.simps split: sum.splits)
  let ?ds = "ts @ credential_record a"
  from authenticate_loop_sends [OF ts(2)] raw have "auth_sends (PacketID pkg - word_of_nat (length ?ds)) ?ds raw"
    by (simp add: list_all_iff)
  then show False unfolding auth_sends_def
  proof
    assume "is_response raw"
    with assms(2,3) show False by (auto simp: is_response_def codes dest: encoded_identity)
  next
    assume "\<exists>i<length ?ds. Packet_Encode (Some (auth_packet (PacketID pkg - word_of_nat (length ?ds) + word_of_nat i) (?ds ! i))) = Inr raw"
    then obtain i where i: "i < length ?ds"
      "Packet_Encode (Some (auth_packet (PacketID pkg - word_of_nat (length ?ds) + word_of_nat i) (?ds ! i))) = Inr raw" by blast
    from encoded_identity [OF i(2) assms(2)] have "PacketID pkg = PacketID pkg - word_of_nat (length ?ds) + word_of_nat i"
      by (simp add: auth_packet_def Let_def)
    then have eq: "(word_of_nat (length ?ds) :: u16) = word_of_nat i" by (simp add: algebra_simps)
    obtain k where k: "length ?ds = k" "k \<le> 2" using relay_identity_length [OF ts(1), of a] by blast
    from eq i(1) k(2) show False unfolding k(1) by (simp add: word_of_nat_eq_iff take_bit_nat_eq_self)
  qed
qed

section \<open>The writer's first packet\<close>

text \<open>On a connection that has just been made, the packet is sent behind a complete authentication or not at all.\<close>

lemma transfer_fresh:
  assumes "transfer k True pkg raw x ident c e = Some (err, out, e')" "err = None \<or> raw \<in> set out"
    "PacketServicesFrameData pkg = Some (FD_SFRD (Some ss))" "nil_free ss" "ReadPacket raw = (pkg, None)"
    "PacketType pkg = EGTS_PT_APPDATA"
  obtains out1 c1 out2 where "authenticate (callWire k) (EgtsAuth (egtsCfg e)) (PacketID pkg) ident c = Some (Inr (), out1, c1)"
    "out = out1 @ raw # out2" "raw \<notin> set out1"
proof -
  obtain res out1 c1 where auth: "authenticate (callWire k) (EgtsAuth (egtsCfg e)) (PacketID pkg) ident c = Some (res, out1, c1)"
    using authenticate_total by (metis not_None_eq prod_cases3)
  note no_data = authenticate_sends_no_data [OF auth assms(5,6)]
  from assms(1,2) auth no_data obtain r out2 c2 where t: "res = Inr ()"
    "exchange (callWire k) (length out1) c1 pkg raw x = Some (r, out2, c2)" "out = out1 @ out2" "r = Inr False \<or> raw \<in> set out2"
    by (auto simp: transfer_def Let_def split: option.splits sum.splits if_splits)
  have "\<exists>out3. out2 = raw # out3"
    using t(2,4) by (auto simp: exchange_def split: if_splits option.splits FrameData.splits)
  with t auth no_data show thesis by (auto intro: that)
qed

lemma connect_and_send_new:
  assumes "connect_and_send k pkg raw x ident e = Some (err, out, e')" "egtsConn e = None \<or> egtsIdentity e \<noteq> ident"
  obtains (unsent) "err \<noteq> None" "out = []"
  | (connected) c remote local err2 where "callDial k = Inr (c, remote, local)" "\<not> points_back k (egtsServer e) remote local"
      "transfer k True pkg raw x ident c (e\<lparr>egtsConn := Some c\<rparr>) = Some (err2, out, e')" "err = interrupted k err2"
proof -
  define stale where "stale \<longleftrightarrow> egtsConn e \<noteq> None \<and> egtsIdentity e \<noteq> ident"
  define e1 where "e1 = (if stale then e\<lparr>egtsConn := None\<rparr> else e)"
  have e1: "egtsConn e1 = None" "e1\<lparr>egtsConn := Some c\<rparr> = e\<lparr>egtsConn := Some c\<rparr>" "egtsServer e1 = egtsServer e" for c
    using assms(2) by (cases "egtsConn e"; auto simp: e1_def stale_def)+
  note r = assms(1) [unfolded connect_and_send_def Let_def, folded stale_def, folded e1_def, unfolded e1(1) e1(3), simplified]
  show thesis
  proof (cases "stale \<and> callClose k \<noteq> None")
    case True
    with r show thesis by (intro unsent) auto
  next
    case False
    show thesis
    proof (cases "callDial k")
      case (Inl d)
      with r False show thesis by (intro unsent) (auto split: if_splits)
    next
      case (Inr d)
      obtain c remote local where d: "callDial k = Inr (c, remote, local)" using Inr by (cases d) auto
      show thesis
      proof (cases "points_back k (egtsServer e) remote local")
        case True
        with r False d show thesis by (intro unsent) (auto split: if_splits)
      next
        case nb: False
        with r False d obtain err2 where "transfer k True pkg raw x ident c (e\<lparr>egtsConn := Some c\<rparr>) = Some (err2, out, e')"
          "err = interrupted k err2"
          by (auto simp: e1(2) split: if_splits)
        with nb d show thesis by (intro connected)
      qed
    qed
  qed
qed

text \<open>
  C15. A packet that needs a new connection, because there is none or it belongs to another identity,
  is sent only behind its authentication, whether the call then succeeds or fails: when the packet
  has been written, the connection does not lead back to this gateway, and the terminal's identity and
  the configured credentials were sent before it, with the packet ids before its id. The platform
  accepted each of these packets and granted each authentication with a result code; instead of
  granting the identity it may ask for credentials, but only when credentials are configured, and
  the credentials it has to grant.
\<close>

theorem authenticated_before_data:
  assumes "WriteContext k (Some raw) ident e = Some (err, out, e')" "err = None \<or> raw \<in> set out"
    and "egtsConn e = None \<or> egtsIdentity e \<noteq> ident" "ReadPacket raw = (pkg, None)"
  shows "\<exists>ts c remote local c1 fs outA outR. relay_identity ident = Inr ts \<and>
    callDial k = Inr (c, remote, local) \<and> \<not> points_back k (egtsServer e) remote local \<and>
    out = outA @ raw # outR \<and> raw \<notin> set outA \<and> frames_read c fs c1 \<and>
    (\<forall>i<length (ts @ credential_record (EgtsAuth (egtsCfg e))). authenticated_with (EgtsAuth (egtsCfg e))
      (PacketID pkg - word_of_nat (length (ts @ credential_record (EgtsAuth (egtsCfg e)))) + word_of_nat i)
      ((ts @ credential_record (EgtsAuth (egtsCfg e))) ! i) outA fs)"
  using assms(1)
proof (cases rule: WriteContext_cases)
  case (sent raw' pkg' ss x err1 e1)
  with assms(4) have same: "raw' = raw" "pkg' = pkg" by auto
  have ok: "err1 = None \<or> raw \<in> set out"
    using assms(2) sent(7) by (auto simp: drop_connection_def split: if_splits)
  have data: "PacketType pkg = EGTS_PT_APPDATA"
    by (rule ccontr) (use assms(1,2,4) sent(3) in \<open>simp add: WriteContext_def split: if_splits\<close>)
  then have "nil_free ss" using accepted_data [OF assms(4)] sent(4) same by auto
  from sent(6) [unfolded same] assms(3) show ?thesis
  proof (cases rule: connect_and_send_new)
    case unsent
    with ok show ?thesis by simp
  next
    case (connected c remote local err2)
    from connected(4) ok have sent2: "err2 = None \<or> raw \<in> set out" by (auto simp: interrupted_def split: if_splits)
    obtain outA c1 outR where t: "authenticate (callWire k) (EgtsAuth (egtsCfg e)) (PacketID pkg) ident c = Some (Inr (), outA, c1)"
      "out = outA @ raw # outR" "raw \<notin> set outA"
      by (rule transfer_fresh [OF connected(3) sent2 sent(4) [unfolded same] \<open>nil_free ss\<close> assms(4) data]) simp
    show ?thesis
      by (rule authenticate_evidence [OF t(1)]) (use connected(1,2) t(2,3) in blast)
  qed
next
  case early
  with assms(2) show ?thesis by simp
qed

section \<open>Authentication with another gateway\<close>

lemma exchange_authentication:
  assumes "PacketServicesFrameData p = Some (FD_SFRD (Some ss))" "nil_free ss" "PacketType p = EGTS_PT_APPDATA"
    "length (data_records ss) \<le> 5039" "working w"
    "Packet_Encode (Some (PrepareAnswer (Some (p\<lparr>ErrorCode := EGTS_PC_OK\<rparr>)) n pid)) = Inr a"
    "Packet_Encode (Some (PrepareSRResultCode EGTS_PC_OK n' pid')) = Inr b"
  obtains ack where "exchange w m (a @ b @ rest, e) p raw True = Some (Inr False, [raw, ack], (rest, e))"
proof -
  let ?st = "\<lparr>pendingConfs = {}, transportOK = True, authOK = False, required = False\<rparr>"
  obtain ack where ack: "exchange_loop w True (PacketID p) (m + 1) (b @ rest, e) ?st =
      map_option (\<lambda>(res, out, c). (res, ack # out, c))
        (exchange_loop w True (PacketID p) (m + 1 + 1) (rest, e) (?st\<lparr>authOK := True\<rparr>))"
    by (rule exchange_result_code [OF assms(5,7), of ?st "PacketID p" "m + 1" rest e]) (simp_all add: exchanged_def)
  show thesis
    using exchange_answered [OF assms(1,2,6,3,4), of _ w True "m + 1" "b @ rest" e] ack
    by (intro that [of ack]) (simp add: exchange_eq [OF assms(1,2,5)] exchanged_def exchange_loop_done)
qed

text \<open>The packets of the authentication encode, whenever their record does.\<close>

lemma auth_packet_wf:
  assumes "wf_SubData (if is_credentials d then AuthInfo else TermIdentity) d" "SubData_Encode d = Inr bs"
    "auth_Len d = word_of_nat (length bs)" "length bs \<le> 300"
  shows "wf_Packet (auth_packet pid d)"
proof -
  let ?rd = "\<lparr>SubrecordType = if is_credentials d then AuthInfo else TermIdentity, SubrecordLength = auth_Len d,
    SubrecordData = Some d\<rparr>"
  have rd: "wf_Record (Some ?rd)" "length (record_bytes (Some ?rd)) = 3 + length bs"
    using assms by (simp_all add: wf_Record_def record_bytes_def unat_word_of_nat_u16)
  then have rds: "RecordsData_Len (Some [Some ?rd]) = word_of_nat (3 + length bs)"
    using Records_roundtrip(1) [of "[Some ?rd]"] assms(4)
    by (simp add: RecordsData_Len_def wf_Records_def del: RecordsData_Encode.simps)
  define s where "s = \<lparr>RecordLength = RecordsData_Len (Some [Some ?rd]), RecordNumber = pid,
    SSOD = ''0'', RSOD = ''0'', GRP = ''0'', RPP = ''00'', TMFE = ''0'', EVFE = ''0'', OBFE = ''0'',
    ObjectIdentifier = 0, EventIdentifier = 0, Time = 0,
    SourceServiceType = SERVICE_AUTH, RecipientServiceType = SERVICE_AUTH, RecordsData = [Some ?rd]\<rparr>"
  have f: "SDR_flags 0 s" by (simp add: SDR_flags_def s_def bitstr_def bitc_def)
  have len: "unat (RecordLength s) = 3 + length bs"
    using unat_word_of_nat_u16 [of "3 + length bs"] assms(4) by (simp only: s_def rds ServiceDataRecord.simps)
  then have "RecordLength s \<noteq> 0" by (metis add_eq_0_iff_both_eq_0 unat_0 zero_neq_numeral)
  moreover have "SDR_absent s" "RecordsData s = [Some ?rd]" "length (SDR_header 0 s) = 7"
    by (simp_all add: s_def SDR_absent_def SDR_header_def flag_bytes_def)
  ultimately have "wf_SDR (Some s)" "length (SDR_bytes (Some s)) = 10 + length bs"
    using f rd len by (simp_all add: wf_SDR_def SDR_bytes_def SDR_flag_byte_eq [OF f])
  then have wf: "wf_SFRD [Some s]" and l: "length (SFRD_bytes [Some s]) = 10 + length bs"
    using assms(4) by (simp_all add: wf_SFRD_def)
  note enc = SFRD_roundtrip(1) [OF wf]
  have "auth_packet pid d = Packet0\<lparr>ProtocolVersion := 1, PRF := ''00'', PR := ''00'', CMP := ''0'', ENA := ''00'', RTE := ''0'',
      HeaderLength := 11, FrameDataLength := word_of_nat (10 + length bs), PacketID := pid,
      PacketType := EGTS_PT_APPDATA, PacketServicesFrameData := Some (FD_SFRD (Some [Some s]))\<rparr>"
    using enc l by (simp add: auth_packet_def Let_def s_def [symmetric] ServicesFrameData_Len_def del: ServicesFrameData_Encode.simps)
  then show ?thesis
    using wf l unat_word_of_nat_u16 [of "10 + length bs"] assms(4)
    by (simp add: wf_Packet_def Packet0_def wf_header_def header_ok_def wf_data_def fits_def encode_data_def codes enc
        del: ServicesFrameData_Encode.simps)
qed

definition demo_credentials :: SubData where
  "demo_credentials = SD_AuthInfo (Some \<lparr>UserName = ''u'', Password = ''p'', ServerSequence = None\<rparr>)"

definition demo_writer :: EGTS where
  "demo_writer = \<lparr>egtsCfg = DefaultEGTSDestination\<lparr>EgtsEnabled := True,
       EgtsAuth := \<lparr>EgtsAuthEnabled = True, EgtsAuthUserName = ''u'', EgtsAuthPassword = ''p''\<rparr>\<rparr>,
     egtsServer = \<lparr>ServerHost = ''0.0.0.0'', ServerPort = 8081\<rparr>, egtsConn = None, egtsIdentity = [], egtsClosed = False\<rparr>"

definition demo_calls :: "conn \<Rightarrow> calls" where
  "demo_calls c = \<lparr>callContext = None,
     callDial = Inr (c, \<lparr>ip = [127, 0, 0, 1], port = 8082\<rparr>, \<lparr>ip = [127, 0, 0, 1], port = 40000\<rparr>),
     callParseIP = \<lambda>_. [], callClose = None, callDrop = None, callInterrupt = None, callWire = demo_wire\<rparr>"

lemma demo_credentials_wf: "wf_Packet (auth_packet pid demo_credentials)"
proof -
  have enc: "SubData_Encode demo_credentials = Inr [117, 0, 112, 0]"
    by (simp add: demo_credentials_def contains_null_def bytes_of_string_def byte_of_char_def)
  show ?thesis
    by (rule auth_packet_wf [OF _ enc])
      (use enc in \<open>simp_all add: demo_credentials_def wf_AuthInfo_def contains_null_def SRAuthInfo_Len_def\<close>)
qed

lemma demo_authentication:
  obtains raw stream ack where "Packet_Encode (Some (auth_packet pid demo_credentials)) = Inr raw"
    "exchange demo_wire 0 (stream @ rest, e) (auth_packet pid demo_credentials) raw True =
       Some (Inr False, [raw, ack], (rest, e))"
proof -
  let ?p = "auth_packet pid demo_credentials"
  obtain raw where raw: "Packet_Encode (Some ?p) = Inr raw"
    using Packet_roundtrip_sealed [OF demo_credentials_wf] by metis
  obtain s where p: "PacketServicesFrameData ?p = Some (FD_SFRD (Some [Some s]))" "nil_free [Some s]" "PacketType ?p = EGTS_PT_APPDATA"
    by (simp add: auth_packet_def Let_def nil_free_def)
  have len: "length (data_records [Some s]) \<le> 5039"
    by (simp add: data_records_def)
  obtain a where a: "Packet_Encode (Some (PrepareAnswer (Some (?p\<lparr>ErrorCode := EGTS_PC_OK\<rparr>)) 4 5)) = Inr a"
    by (rule answered_with [OF p(3,1) len])
  obtain b where b: "Packet_Encode (Some (PrepareSRResultCode EGTS_PC_OK 5 6)) = Inr b"
    by (rule result_code_read)
  obtain ack where "exchange demo_wire 0 (a @ b @ rest, e) ?p raw True = Some (Inr False, [raw, ack], (rest, e))"
    by (rule exchange_authentication [OF p len working_demo a b])
  then show thesis using that [OF raw, of "a @ b" ack] by simp
qed

theorem authenticated_before_data_witness:
  "\<exists>raw c out e' fs outA outR. WriteContext (demo_calls c) (Some raw) [] demo_writer = Some (None, out, e') \<and>
    out = outA @ raw # outR \<and> authenticated_with (EgtsAuth (egtsCfg demo_writer)) 2 demo_credentials outA fs"
proof -
  obtain raw p a where p: "ReadPacket raw = (p, None)" "PacketType p = EGTS_PT_APPDATA" "PacketID p = 3"
    "PacketServicesFrameData p = Some (FD_SFRD (Some [Some (result_service 0 7)]))"
    "data_records [Some (result_service 0 7)] = [result_service 0 7]" "nil_free [Some (result_service 0 7)]"
    "Packet_Encode (Some (PrepareAnswer (Some (p\<lparr>ErrorCode := EGTS_PC_OK\<rparr>)) 4 5)) = Inr a"
    by (rule demo_packet)
  obtain auth stream ack where auth: "Packet_Encode (Some (auth_packet 2 demo_credentials)) = Inr auth"
    "exchange demo_wire 0 (stream @ a, EOF) (auth_packet 2 demo_credentials) auth True = Some (Inr False, [auth, ack], (a, EOF))"
    by (rule demo_authentication)
  let ?c = "(stream @ a, EOF)"
  have data: "exchange demo_wire 2 (a, EOF) p raw False = Some (Inr False, [raw], ([], EOF))"
    using exchange_with_gateway [OF p(4,6,2) _ working_demo p(7), of 2 "[]" EOF raw] p(5) by simp
  have creds: "credential_record (EgtsAuth (egtsCfg demo_writer)) = [demo_credentials]"
    by (simp add: demo_writer_def demo_credentials_def credential_record_def)
  have login: "authenticate demo_wire (EgtsAuth (egtsCfg demo_writer)) 3 [] ?c = Some (Inr (), [auth, ack], (a, EOF))"
    by (simp add: authenticate_def relay_identity_def creds auth)
  have scan: "outgoing_services [Some (result_service 0 7)] False = Some (Inr False)"
    by (simp add: result_service_def result_record_def codes)
  have wire: "callWire (demo_calls ?c) = demo_wire" "callDial (demo_calls ?c) =
      Inr (?c, \<lparr>ip = [127, 0, 0, 1], port = 8082\<rparr>, \<lparr>ip = [127, 0, 0, 1], port = 40000\<rparr>)"
    "callContext (demo_calls ?c) = None" "callInterrupt (demo_calls ?c) = None" for c
    by (simp_all add: demo_calls_def)
  have writer: "egtsConn demo_writer = None" "\<not> egtsClosed demo_writer" "ServerPort (egtsServer demo_writer) = 8081"
    by (simp_all add: demo_writer_def)
  obtain e' where "transfer (demo_calls ?c) True p raw False [] ?c (demo_writer\<lparr>egtsConn := Some ?c\<rparr>) = Some (None, [auth, ack, raw], e')"
    using login data p(3) by (simp add: transfer_def wire Let_def numeral_2_eq_2)
  then have "connect_and_send (demo_calls ?c) p raw False [] demo_writer = Some (None, [auth, ack, raw], e')"
    by (simp add: connect_and_send_def wire writer points_back_def interrupted_def)
  then have w: "WriteContext (demo_calls ?c) (Some raw) [] demo_writer = Some (None, [auth, ack, raw], e')"
    using p(1,2,4) scan by (simp add: WriteContext_def wire writer drop_connection_def del: outgoing_services.simps)
  have i: "relay_identity [] = Inr ts \<longleftrightarrow> ts = []" for ts by (auto simp: relay_identity_def)
  from authenticated_before_data [OF w disjI1 [OF refl] disjI1 [OF writer(1)] p(1)]
  have "\<exists>fs outA outR. [auth, ack, raw] = outA @ raw # outR \<and> authenticated_with (EgtsAuth (egtsCfg demo_writer)) 2 demo_credentials outA fs"
    unfolding i p(3) by (elim exE conjE) (simp add: creds, blast)
  with w show ?thesis by blast
qed

end
