(* ===== verification/Dump.thy ===== *)
theory Dump
  imports Gateway_State Delivery "HOL-Library.List_Lexorder" "HOL-Library.Char_ord"
begin

text \<open>
  The packet dump, \<open>saveDump\<close> and \<open>restoreDump\<close> of \<open>gateway/server/dump.go\<close>. The file is its
  header and its lines as \<open>encoding/json\<close> reads them, each of them a record or an error of
  \<open>Unmarshal\<close>; what the file system calls return is a parameter. A run-time panic is the outer
  \<open>None\<close>.
\<close>

section \<open>The file\<close>

record dumpRecord =
  savedReceivedAt :: gotime
  savedSource :: Source
  savedRaw :: bytes
  savedStdout :: bool
  savedFile :: bool
  savedEGTS :: bool
  savedEGTSIDs :: "string list"
  savedRabbitMQIDs :: "string list"
  savedValkeyIDs :: "string list"
  savedSessionID :: "string option"
  savedIdentity :: bytes

text \<open>The header is \<open>None\<close> when the scanner finds no first line.\<close>

record dumpFile =
  dumpVersion :: "int result option"
  dumpLines :: "dumpRecord result list"
  dumpScanErr :: "goerr option"

text \<open>The results of the calls on the file system: all of them, in the order they are made.\<close>

record save_calls =
  saveOutputs :: "goerr option"
  saveCreate :: "goerr option"
  saveHeader :: "goerr option"
  saveRecord :: "nat \<Rightarrow> goerr option"
  saveSync :: "goerr option"
  saveClose :: "goerr option"
  saveOutputsAgain :: "goerr option"
  saveRename :: "goerr option"
  saveOpenDir :: "goerr option"
  saveSyncDir :: "goerr option"
  saveCloseDir :: "goerr option"
  saveRemove :: "goerr option"

record restore_calls =
  restoreOutputs :: "goerr option"
  restoreOpen :: "goerr option"
  restoreClose :: "goerr option"
  restoreRandom :: "nat \<Rightarrow> string result"

section \<open>Saving\<close>

text \<open>The keys of a map, sorted; a nil relay behind EGTS destinations is a panic.\<close>

definition saved_record :: "server \<Rightarrow> pendingPacket \<Rightarrow> dumpRecord option" where
  "saved_record s p =
     (let saved = \<lparr>savedReceivedAt = ReceivedAt (pRecord p), savedSource = RecSource (pRecord p),
        savedRaw = RecRaw (pRecord p), savedStdout = pStdout p, savedFile = pFile p, savedEGTS = False,
        savedEGTSIDs = [], savedRabbitMQIDs = sorted_list_of_set (pRabbitMQ p),
        savedValkeyIDs = sorted_list_of_set (pValkey p), savedSessionID = None, savedIdentity = []\<rparr> in
      if pEGTS p = {} then Some saved
      else
        (case pRelay p of
           None \<Rightarrow> None
         | Some r \<Rightarrow>
             (case session r of
                None \<Rightarrow> None
              | Some sid \<Rightarrow> Some (saved\<lparr>savedEGTSIDs := sorted_list_of_set (pEGTS p),
                  savedSessionID := Some (sessionID (sessions s ! sid)), savedIdentity := identity r\<rparr>))))"

fun dump_records :: "server \<Rightarrow> nat list \<Rightarrow> dumpRecord list option" where
  "dump_records s [] = Some []"
| "dump_records s (a # as) =
     (if finished_item (items s ! a) then dump_records s as
      else
        (case saved_record s (items s ! a) of
           None \<Rightarrow> None
         | Some saved \<Rightarrow>
             (case dump_records s as of None \<Rightarrow> None | Some rs \<Rightarrow> Some (saved # rs))))"

definition dump_version :: "DestinationsConf \<Rightarrow> int" where
  "dump_version d =
     (let v = (if list_ex EgtsEnabled (DestEGTS d) then 3 else 1);
          v = (if list_ex RabbitEnabled (DestRabbitMQ d) then 4 else v)
      in if list_ex ValkeyEnabled (DestValkey d) then 5 else v)"

fun first_failure :: "goerr option list \<Rightarrow> goerr option" where
  "first_failure [] = None"
| "first_failure (None # es) = first_failure es"
| "first_failure (Some e # es) = Some e"

text \<open>The new file takes the place of the old one only when all of it is written and synced.\<close>

definition save_steps :: "save_calls \<Rightarrow> nat \<Rightarrow> goerr option list" where
  "save_steps k n =
     [saveOutputs k, wrap_error ''Can't create packet dump'' (saveCreate k),
      wrap_error ''Can't write packet dump header'' (saveHeader k)] @
     map (\<lambda>i. wrap_error ''Can't write packet dump'' (saveRecord k i)) [0..<n] @
     [wrap_error ''Can't sync packet dump'' (saveSync k), saveClose k, saveOutputsAgain k,
      wrap_error ''Can't replace packet dump'' (saveRename k)]"

definition saveDump :: "save_calls \<Rightarrow> server \<Rightarrow> dumpFile option \<Rightarrow> (goerr option \<times> server \<times> dumpFile option) option" where
  "saveDump k s file =
     (case dump_records s (queue s) of
        None \<Rightarrow> None
      | Some records \<Rightarrow> Some
          (case first_failure (save_steps k (length records)) of
             Some e \<Rightarrow> (Some e, s, file)
           | None \<Rightarrow>
               (first_failure [saveOpenDir k, wrap_error ''Can't sync packet dump directory'' (saveSyncDir k),
                  saveCloseDir k, saveRemove k],
                s\<lparr>hasDump := True\<rparr>,
                Some \<lparr>dumpVersion = Some (Inr (dump_version (dests s))), dumpLines = map Inr records, dumpScanErr = None\<rparr>)))"

section \<open>Restoring\<close>

fun restore_ids :: "string \<Rightarrow> string set \<Rightarrow> string list \<Rightarrow> string set \<Rightarrow> (string set) result" where
  "restore_ids what enabled [] ids = Inr ids"
| "restore_ids what enabled (i # is) ids =
     (if i \<notin> enabled then Inl (Errorf (''Packet dump requires an unavailable destination: '' @ what @ '' %s''))
      else if i \<in> ids then Inl (Errorf (''Duplicate '' @ what @ '' destination in packet dump: %s''))
      else restore_ids what enabled is (insert i ids))"

text \<open>The EGTS destinations of a record, which version 2 knew only as a flag.\<close>

definition legacy_ids :: "int \<Rightarrow> string list \<Rightarrow> dumpRecord \<Rightarrow> (string list) result" where
  "legacy_ids version enabled saved =
     (if version < 3 \<and> savedEGTSIDs saved \<noteq> []
      then Inl (Errorf ''Invalid EGTS destinations in legacy packet dump'')
      else if savedEGTS saved then
        (if version \<noteq> 2 \<or> length (remdups enabled) \<noteq> 1
         then Inl (Errorf ''Legacy relay dump requires exactly one enabled EGTS destination to restore'')
         else Inr (remdups enabled))
      else Inr (savedEGTSIDs saved))"

definition restore_targets :: "int \<Rightarrow> DestinationsConf \<Rightarrow> dumpRecord \<Rightarrow>
    (string set \<times> string set \<times> string set) result" where
  "restore_targets version d saved =
     bindR (legacy_ids version (enabled_egts d) saved) (\<lambda>egtsIDs.
     if (\<not> savedStdout saved \<and> \<not> savedFile saved \<and> egtsIDs = [] \<and> savedRabbitMQIDs saved = [] \<and> savedValkeyIDs saved = []) \<or>
        (savedStdout saved \<and> \<not> DestStdout d) \<or> (savedFile saved \<and> \<not> FileEnabled (DestFile d))
     then Inl (Errorf ''Packet dump requires an unavailable destination'')
     else bindR (restore_ids ''EGTS'' (set (enabled_egts d)) egtsIDs {}) (\<lambda>relayIDs.
     if version < 4 \<and> savedRabbitMQIDs saved \<noteq> []
     then Inl (Errorf ''Invalid RabbitMQ destinations in legacy packet dump'')
     else bindR (restore_ids ''RabbitMQ'' (set (enabled_rabbitmq d)) (savedRabbitMQIDs saved) {}) (\<lambda>rabbitIDs.
     if version < 5 \<and> savedValkeyIDs saved \<noteq> []
     then Inl (Errorf ''Invalid Valkey destinations in legacy packet dump'')
     else bindR (restore_ids ''Valkey'' (set (enabled_valkey d)) (savedValkeyIDs saved) {}) (\<lambda>valkeyIDs.
     Inr (relayIDs, rabbitIDs, valkeyIDs)))))"

definition hex_char :: "char \<Rightarrow> bool" where
  "hex_char c \<longleftrightarrow> c \<in> set ''0123456789abcdefABCDEF''"

text \<open>The session of a record; a session that is not known yet is one whose terminal has gone.\<close>

definition check_relay :: "dumpRecord \<Rightarrow> Packet \<Rightarrow> string result option" where
  "check_relay saved pkg =
     (case savedSessionID saved of
        None \<Rightarrow> Some (Inl (Errorf ''Invalid relay session in packet dump''))
      | Some sid \<Rightarrow>
          if length sid \<noteq> 32 then Some (Inl (Errorf ''Invalid relay session in packet dump''))
          else if \<not> list_all hex_char sid then Some (Inl (Errorf ''Invalid relay session identifier''))
          else if savedIdentity saved \<noteq> [] \<and> (\<exists>e. SRTermIdentity_Decode (savedIdentity saved) = Inl e)
          then Some (wrapf ''Invalid relay identity in packet dump'' (bindR (SRTermIdentity_Decode (savedIdentity saved)) (\<lambda>_. Inr sid)))
          else
            (case shouldRelay pkg of
               None \<Rightarrow> None
             | Some (Inr True) \<Rightarrow> Some (Inr sid)
             | _ \<Rightarrow> Some (Inl (Errorf ''Packet dump contains invalid relay data''))))"

definition restore_session :: "string result \<Rightarrow> string \<Rightarrow> server \<Rightarrow> (nat result \<times> server) option" where
  "restore_session random ident s =
     (case relays s ident of
        Some sid \<Rightarrow> Some (Inr sid, s)
      | None \<Rightarrow>
          (case newRelaySession random s of
             (Inl e, s') \<Rightarrow> Some (Inl e, s')
           | (Inr None, s') \<Rightarrow> None
           | (Inr (Some sid), s') \<Rightarrow>
               Some (Inr sid, (upd_session sid (\<lambda>x. x\<lparr>sessionID := ident, closed := True\<rparr>) s')
                 \<lparr>relays := ((relays s')(sessionID (sessions s' ! sid) := None))(ident \<mapsto> sid)\<rparr>)))"

definition restored_item :: "dumpRecord \<Rightarrow> Record \<Rightarrow> string set \<times> string set \<times> string set \<Rightarrow> relayPacket option \<Rightarrow> pendingPacket" where
  "restored_item saved r ids relay =
     \<lparr>pRecord = r, pStdout = savedStdout saved, pFile = savedFile saved, pEGTS = fst ids,
      pRabbitMQ = fst (snd ids), pValkey = snd (snd ids), pRelay = relay, pDone = False\<rparr>"

definition restore_record :: "(nat \<Rightarrow> string result) \<Rightarrow> int \<Rightarrow> dumpRecord \<Rightarrow> server \<Rightarrow> server result option" where
  "restore_record random version saved s =
     (case restore_targets version (dests s) saved of
        Inl e \<Rightarrow> Some (Inl e)
      | Inr ids \<Rightarrow>
          (case NewRecord (savedReceivedAt saved) (savedSource saved) (savedRaw saved) of
             Inl e \<Rightarrow> Some (Inl (Wrapf ''Invalid packet in dump'' e))
           | Inr r \<Rightarrow>
               if fst ids = {} then Some (Inr (s\<lparr>items := items s @ [restored_item saved r ids None]\<rparr>))
               else
                 (case check_relay saved (RecPacket r) of
                    None \<Rightarrow> None
                  | Some (Inl e) \<Rightarrow> Some (Inl e)
                  | Some (Inr ident) \<Rightarrow>
                      (case restore_session (random (length (sessions s))) ident s of
                         None \<Rightarrow> None
                       | Some (Inl e, s') \<Rightarrow> Some (Inl e)
                       | Some (Inr sid, s') \<Rightarrow>
                           (let item = restored_item saved r ids
                              (Some \<lparr>session = Some sid, identity = savedIdentity saved\<rparr>) in
                            Some (Inr ((count_pending item s')\<lparr>items := items s' @ [item]\<rparr>)))))))"

fun restore_lines :: "(nat \<Rightarrow> string result) \<Rightarrow> int \<Rightarrow> dumpRecord result list \<Rightarrow> nat list \<Rightarrow> server \<Rightarrow>
    (nat list \<times> server) result option" where
  "restore_lines random version [] pend s = Some (Inr (pend, s))"
| "restore_lines random version (line # lines) pend s =
     (if int (length pend) \<ge> QueueCapacity (DeliveryCfg (cfg s))
      then Some (Inl (Errorf ''Packet dump exceeds queue_capacity; increase it to restore pending packets''))
      else
        (case line of
           Inl e \<Rightarrow> Some (Inl (Wrapf ''Invalid packet dump record'' e))
         | Inr saved \<Rightarrow>
             (case restore_record random version saved s of
                None \<Rightarrow> None
              | Some (Inl e) \<Rightarrow> Some (Inl e)
              | Some (Inr s') \<Rightarrow> restore_lines random version lines (pend @ [length (items s)]) s')))"

definition restore_file :: "restore_calls \<Rightarrow> dumpFile \<Rightarrow> server \<Rightarrow> server result option" where
  "restore_file k f s =
     (case dumpVersion f of
        None \<Rightarrow> Some (Inl (Errorf ''Packet dump has no header''))
      | Some (Inl e) \<Rightarrow> Some (Inl (Errorf ''Invalid packet dump version''))
      | Some (Inr version) \<Rightarrow>
          if version \<notin> {1, 2, 3, 4, 5} then Some (Inl (Errorf ''Invalid packet dump version''))
          else
            (case restore_lines (restoreRandom k) version (dumpLines f) [] s of
               None \<Rightarrow> None
             | Some (Inl e) \<Rightarrow> Some (Inl e)
             | Some (Inr (pend, s')) \<Rightarrow>
                 if dumpScanErr f \<noteq> None then Some (Inl (Wrapf ''Can't read packet dump'' (the (dumpScanErr f))))
                 else if restoreClose k \<noteq> None then Some (Inl (the (restoreClose k)))
                 else Some (Inr (s'\<lparr>queue := pend, hasDump := True\<rparr>))))"

text \<open>\<open>restoreOpen\<close> is an error of \<open>os.Open\<close> other than \<open>ErrNotExist\<close>, which is the file \<open>None\<close>.\<close>

definition restoreDump :: "restore_calls \<Rightarrow> dumpFile option \<Rightarrow> server \<Rightarrow> server result option" where
  "restoreDump k file s =
     (if restoreOutputs k \<noteq> None then Some (Inl (the (restoreOutputs k)))
      else if restoreOpen k \<noteq> None then Some (Inl (Wrapf ''Can't open packet dump'' (the (restoreOpen k))))
      else (case file of None \<Rightarrow> Some (Inr s) | Some f \<Rightarrow> restore_file k f s))"

end
