(* ===== verification/Dump_Lemmas.thy ===== *)
theory Dump_Lemmas
  imports Dump Delivery_Inv Connection_Lemmas
begin

text \<open>
  What restoring a dump makes of the server: an invariant that holds at every line, whatever the
  file holds, and that a record of the server that saved it comes back as the same packet.
\<close>

section \<open>The invariant of restoring\<close>

text \<open>The server with the packets restored so far as its queue.\<close>

definition restoring :: "nat list \<Rightarrow> server \<Rightarrow> bool" where
  "restoring pend s \<longleftrightarrow> started_server (s\<lparr>queue := pend\<rparr>) \<and>
     (\<forall>x\<in>set (sessions s). \<not> writersClosed x \<and> closed x \<and> set (enabled_egts (dests s)) \<subseteq> writers x) \<and>
     (\<forall>ident sid. relays s ident = Some sid \<longrightarrow> sid < length (sessions s) \<and> sessionID (sessions s ! sid) = ident)"

definition fresh_server :: "server \<Rightarrow> bool" where
  "fresh_server s \<longleftrightarrow> valid_destinations (dests s) \<and> 0 \<le> QueueCapacity (DeliveryCfg (cfg s)) \<and> queue s = [] \<and>
     items s = [] \<and> sessions s = [] \<and> relays s = Map.empty"

lemma fresh_restoring: "fresh_server s \<Longrightarrow> restoring [] s"
  by (simp add: fresh_server_def restoring_def started_server_def queue_inv_def session_inv_def)

text \<open>A restored session: known already, or new and closed.\<close>

lemma restore_session_effect:
  assumes "restore_session random ident s = Some (Inr sid, s')" "restoring pend s"
  shows "restoring pend s' \<and> sid < length (sessions s') \<and> sessionID (sessions s' ! sid) = ident \<and>
    items s' = items s \<and> cfg s' = cfg s \<and> (\<exists>xs. sessions s' = sessions s @ xs)"
proof (cases "relays s ident")
  case (Some i)
  with assms show ?thesis by (auto simp: restore_session_def restoring_def)
next
  case None
  with assms(1) obtain s1 where n: "newRelaySession random s = (Inr (Some sid), s1)"
    "s' = (upd_session sid (\<lambda>x. x\<lparr>sessionID := ident, closed := True\<rparr>) s1)
       \<lparr>relays := ((relays s1)(sessionID (sessions s1 ! sid) := None))(ident \<mapsto> sid)\<rparr>"
    by (auto simp: restore_session_def split: prod.splits sum.splits option.splits)
  from n(1) show ?thesis
  proof (cases rule: new_session_effect)
    case (2 old)
    let ?x = "\<lparr>sessionID = ident, writers = set (enabled_egts (dests s)), pending = 0, closed = True, writersClosed = False\<rparr>"
    have e: "sessions s' = sessions s @ [?x]" "items s' = items s" "cfg s' = cfg s"
      "relays s' = ((relays s)(old := None))(ident \<mapsto> length (sessions s))" "sid = length (sessions s)"
      using 2 by (simp_all add: n(2))
    have "started_server (s'\<lparr>queue := pend\<rparr>)"
      by (rule append_session_started [where s = "s\<lparr>queue := pend\<rparr>" and x = ?x])
        (use assms(2) e in \<open>simp_all add: restoring_def\<close>)
    with assms(2) e show ?thesis
      by (auto simp: restoring_def nth_append less_SucI split: if_splits)
  qed blast
qed

lemma restore_ids_Inr:
  "restore_ids what enabled is ids = Inr ids' \<longleftrightarrow>
    ids' = ids \<union> set is \<and> set is \<subseteq> enabled \<and> distinct is \<and> set is \<inter> ids = {}"
  by (induction "is" arbitrary: ids) auto

lemma restore_targets_Inr:
  assumes "restore_targets v d saved = Inr ids"
  shows "fst ids \<subseteq> set (enabled_egts d) \<and> fst (snd ids) \<subseteq> set (enabled_rabbitmq d) \<and>
    snd (snd ids) \<subseteq> set (enabled_valkey d) \<and> (savedStdout saved \<longrightarrow> DestStdout d) \<and>
    (savedFile saved \<longrightarrow> FileEnabled (DestFile d))"
  using assms by (auto simp: restore_targets_def restore_ids_Inr split: if_splits)

text \<open>One restored record adds one item behind the others.\<close>

lemma restore_record_Inr:
  assumes "restore_record random v saved s = Some (Inr s')"
  obtains (plain) ids r where "restore_targets v (dests s) saved = Inr ids" "fst ids = {}"
      "NewRecord (savedReceivedAt saved) (savedSource saved) (savedRaw saved) = Inr r"
      "s' = s\<lparr>items := items s @ [restored_item saved r ids None]\<rparr>"
  | (relayed) ids r ident sid s1 item where "restore_targets v (dests s) saved = Inr ids"
      "NewRecord (savedReceivedAt saved) (savedSource saved) (savedRaw saved) = Inr r"
      "check_relay saved (RecPacket r) = Some (Inr ident)"
      "restore_session (random (length (sessions s))) ident s = Some (Inr sid, s1)"
      "item = restored_item saved r ids (Some \<lparr>session = Some sid, identity = savedIdentity saved\<rparr>)"
      "s' = (count_pending item s1)\<lparr>items := items s1 @ [item]\<rparr>" "fst ids \<noteq> {}"
proof -
  from assms obtain ids r where t: "restore_targets v (dests s) saved = Inr ids"
    "NewRecord (savedReceivedAt saved) (savedSource saved) (savedRaw saved) = Inr r"
    by (auto simp: restore_record_def split: sum.splits)
  show thesis
  proof (cases "fst ids = {}")
    case True
    with assms t show thesis by (intro plain [OF t(1) _ t(2)]) (auto simp: restore_record_def)
  next
    case False
    with assms t obtain ident where c: "check_relay saved (RecPacket r) = Some (Inr ident)"
      by (auto simp: restore_record_def split: option.splits sum.splits)
    with False assms t obtain x where "restore_session (random (length (sessions s))) ident s = Some x"
      by (auto simp: restore_record_def split: option.splits)
    moreover from this False assms t c obtain sid where "fst x = Inr sid"
      by (cases x; cases "fst x") (auto simp: restore_record_def)
    ultimately obtain sid s1 where r: "restore_session (random (length (sessions s))) ident s = Some (Inr sid, s1)"
      by (cases x) auto
    from False assms t c r show thesis by (intro relayed [OF t c r refl]) (auto simp: restore_record_def Let_def)
  qed
qed

definition extends :: "server \<Rightarrow> server \<Rightarrow> bool" where
  "extends s s' \<longleftrightarrow> cfg s' = cfg s \<and> (\<exists>is. items s' = items s @ is) \<and> length (sessions s) \<le> length (sessions s') \<and>
     (\<forall>sid<length (sessions s). sessionID (sessions s' ! sid) = sessionID (sessions s ! sid))"

lemma extends_trans: "extends s s1 \<Longrightarrow> extends s1 s2 \<Longrightarrow> extends s s2"
  by (auto simp: extends_def)

lemma extends_refl: "extends s s"
  by (simp add: extends_def)

lemma count_pending_sessionID:
  "sid < length (sessions s) \<Longrightarrow> sessionID (sessions (count_pending p s) ! sid) = sessionID (sessions s ! sid)"
  by (simp add: count_pending_session)

lemma restoring_add:
  assumes "restoring pend s" "int (length pend) < QueueCapacity (DeliveryCfg (cfg s))" "\<not> pDone p" "item_ok s p"
  shows "restoring (pend @ [length (items s)]) ((count_pending p s)\<lparr>items := items s @ [p]\<rparr>)"
proof -
  let ?s = "s\<lparr>queue := pend\<rparr>"
  have open_: "\<not> writersClosed (sessions ?s ! sid)" if "item_session p = Some sid" for sid
    using that assms(1,4) by (simp add: restoring_def item_ok_def)
  have ok: "item_ok ?s p" using assms(4) by (simp add: item_ok_def)
  have st: "started_server ?s" using assms(1) by (simp add: restoring_def)
  have sess: "sessions (count_pending p ?s) = sessions (count_pending p s)"
    by (simp add: count_pending_def split: option.split)
  have room: "int (length (queue ?s)) < QueueCapacity (DeliveryCfg (cfg ?s))" using assms(2) by simp
  have "started_server ((count_pending p s)\<lparr>items := items s @ [p], queue := pend @ [length (items s)]\<rparr>)"
    by (rule add_item_started [OF st room assms(3) ok open_]) (simp_all only: sess, simp_all)
  moreover have "\<forall>x\<in>set (sessions (count_pending p s)). \<not> writersClosed x \<and> closed x \<and> set (enabled_egts (dests s)) \<subseteq> writers x"
  proof
    fix x
    assume "x \<in> set (sessions (count_pending p s))"
    then obtain j where "j < length (sessions s)" "x = sessions (count_pending p s) ! j"
      by (auto simp: in_set_conv_nth)
    with assms(1) show "\<not> writersClosed x \<and> closed x \<and> set (enabled_egts (dests s)) \<subseteq> writers x"
      by (simp add: restoring_def count_pending_session)
  qed
  ultimately show ?thesis
    using assms(1) by (simp add: restoring_def count_pending_sessionID)
qed

lemma restore_record_restoring:
  assumes "restore_record random v saved s = Some (Inr s')" "restoring pend s"
    and "int (length pend) < QueueCapacity (DeliveryCfg (cfg s))"
  shows "restoring (pend @ [length (items s)]) s' \<and> extends s s'"
  using assms(1)
proof (cases rule: restore_record_Inr)
  case (plain ids r)
  have "item_ok s (restored_item saved r ids None)"
    using restore_targets_Inr [OF plain(1)] plain(2)
    by (auto simp: item_ok_def configured_def restored_item_def item_session_def)
  from restoring_add [OF assms(2,3) _ this] plain show ?thesis
    by (simp add: restored_item_def count_pending_def extends_def)
next
  case (relayed ids r ident sid s1 item)
  note e = restore_session_effect [OF relayed(4) assms(2)]
  then have "sessions s1 ! sid \<in> set (sessions s1)" "dests s1 = dests s" by simp_all
  with e have "set (enabled_egts (dests s)) \<subseteq> writers (sessions s1 ! sid)"
    unfolding restoring_def by metis
  with e have "item_ok s1 item"
    using restore_targets_Inr [OF relayed(1)] relayed(5)
    by (simp add: item_ok_def configured_def restored_item_def item_session_def)
  with e assms(3) have "restoring (pend @ [length (items s1)]) s'"
    unfolding relayed(6) by (intro restoring_add) (simp_all add: relayed(5) restored_item_def)
  with e show ?thesis by (auto simp: extends_def relayed(6) count_pending_sessionID nth_append)
qed

lemma restore_lines_restoring:
  assumes "restore_lines random v lines pend s = Some (Inr (pend', s'))" "restoring pend s"
  shows "restoring pend' s' \<and> extends s s'"
  using assms
proof (induction random v lines pend s rule: restore_lines.induct)
  case (2 random v line lines pend s)
  from "2.prems"(1) have room: "\<not> int (length pend) \<ge> QueueCapacity (DeliveryCfg (cfg s))" by (auto split: if_splits)
  with "2.prems"(1) obtain saved where l: "line = Inr saved" by (auto split: sum.splits)
  with room "2.prems"(1) obtain s1 where r: "restore_record random v saved s = Some (Inr s1)"
    "restore_lines random v lines (pend @ [length (items s)]) s1 = Some (Inr (pend', s'))"
    by (auto split: option.splits sum.splits)
  have s1: "restoring (pend @ [length (items s)]) s1 \<and> extends s s1"
    by (rule restore_record_restoring [OF r(1) "2.prems"(2)]) (use room in simp)
  with "2.IH" [OF room l r(1) refl r(2)] show ?case using extends_trans by blast
qed (simp add: extends_refl)

section \<open>What comes back\<close>

text \<open>A packet of the server and the record of the dump it stands for.\<close>

definition came_back :: "server \<Rightarrow> dumpRecord \<Rightarrow> pendingPacket \<Rightarrow> bool" where
  "came_back s saved p \<longleftrightarrow>
     RecRaw (pRecord p) = savedRaw saved \<and> RecSource (pRecord p) = savedSource saved \<and>
     ReceivedAt (pRecord p) = savedReceivedAt saved \<and> ReadPacket (savedRaw saved) = (RecPacket (pRecord p), None) \<and>
     pStdout p = savedStdout saved \<and> pFile p = savedFile saved \<and>
     pEGTS p = (if savedEGTS saved then set (enabled_egts (dests s)) else set (savedEGTSIDs saved)) \<and>
     pRabbitMQ p = set (savedRabbitMQIDs saved) \<and> pValkey p = set (savedValkeyIDs saved) \<and>
     (pEGTS p = {} \<or> (\<exists>r sid. pRelay p = Some r \<and> session r = Some sid \<and> sid < length (sessions s) \<and>
        savedSessionID saved = Some (sessionID (sessions s ! sid)) \<and> identity r = savedIdentity saved))"

definition holds_dump :: "server \<Rightarrow> dumpFile option \<Rightarrow> bool" where
  "holds_dump s dump \<longleftrightarrow>
     (case dump of
        None \<Rightarrow> queue s = []
      | Some f \<Rightarrow> list_all2 (\<lambda>line a. case line of Inl e \<Rightarrow> False | Inr saved \<Rightarrow> came_back s saved (items s ! a)) (dumpLines f) (queue s))"

lemma restore_targets_ids:
  assumes "restore_targets v d saved = Inr ids"
  shows "fst ids = (if savedEGTS saved then set (enabled_egts d) else set (savedEGTSIDs saved)) \<and>
    fst (snd ids) = set (savedRabbitMQIDs saved) \<and> snd (snd ids) = set (savedValkeyIDs saved)"
proof -
  from assms obtain es where "legacy_ids v (enabled_egts d) saved = Inr es" "fst ids = set es"
    "fst (snd ids) = set (savedRabbitMQIDs saved)" "snd (snd ids) = set (savedValkeyIDs saved)"
    by (auto simp: restore_targets_def restore_ids_Inr split: if_splits)
  then show ?thesis by (auto simp: legacy_ids_def split: if_splits)
qed

lemma came_back_extends:
  assumes "came_back s saved p" "extends s s'"
  shows "came_back s' saved p"
  using assms unfolding came_back_def extends_def by (auto 4 3)

lemma restore_record_back:
  assumes "restore_record random v saved s = Some (Inr s')" "restoring pend s"
  shows "length (items s') = Suc (length (items s)) \<and> came_back s' saved (items s' ! length (items s))"
  using assms(1)
proof (cases rule: restore_record_Inr)
  case (plain ids r)
  with restore_targets_ids [OF plain(1)] show ?thesis
    by (auto simp: came_back_def restored_item_def NewRecord_def split: prod.splits option.splits)
next
  case (relayed ids r ident sid s1 item)
  note e = restore_session_effect [OF relayed(4) assms(2)]
  have "savedSessionID saved = Some ident"
    using relayed(3) by (auto simp: check_relay_def wrapf_def bindR_def split: option.splits if_splits sum.splits bool.splits)
  with relayed e restore_targets_ids [OF relayed(1)] show ?thesis
    by (auto simp: came_back_def restored_item_def NewRecord_def count_pending_sessionID split: prod.splits option.splits)
qed

lemma restore_lines_back:
  assumes "restore_lines random v lines pend s = Some (Inr (pend', s'))" "restoring pend s"
  shows "\<exists>new. pend' = pend @ new \<and>
    list_all2 (\<lambda>line a. case line of Inl e \<Rightarrow> False | Inr saved \<Rightarrow> came_back s' saved (items s' ! a)) lines new"
  using assms
proof (induction random v lines pend s rule: restore_lines.induct)
  case (2 random v line lines pend s)
  from "2.prems"(1) have room: "\<not> int (length pend) \<ge> QueueCapacity (DeliveryCfg (cfg s))" by (auto split: if_splits)
  with "2.prems"(1) obtain saved where l: "line = Inr saved" by (auto split: sum.splits)
  with room "2.prems"(1) obtain s1 where r: "restore_record random v saved s = Some (Inr s1)"
    "restore_lines random v lines (pend @ [length (items s)]) s1 = Some (Inr (pend', s'))"
    by (auto split: option.splits sum.splits)
  have s1: "restoring (pend @ [length (items s)]) s1"
    using restore_record_restoring [OF r(1) "2.prems"(2)] room by simp
  have x: "extends s1 s'" using restore_lines_restoring [OF r(2) s1] by simp
  from "2.IH" [OF room l r(1) refl r(2) s1] obtain new where new: "pend' = pend @ length (items s) # new"
    "list_all2 (\<lambda>line a. case line of Inl e \<Rightarrow> False | Inr saved \<Rightarrow> came_back s' saved (items s' ! a)) lines new" by auto
  from restore_record_back [OF r(1) "2.prems"(2)] x have "items s' ! length (items s) = items s1 ! length (items s)"
    by (auto simp: extends_def nth_append)
  with came_back_extends [OF _ x] restore_record_back [OF r(1) "2.prems"(2)]
  have "came_back s' saved (items s' ! length (items s))" by simp
  with new l show ?case by (intro exI [of _ "length (items s) # new"]) simp
qed simp

lemma restoreDump_holds:
  assumes "restoreDump r dump t = Some (Inr s)" "fresh_server t"
  shows "holds_dump s dump"
proof (cases dump)
  case None
  with assms show ?thesis by (auto simp: restoreDump_def holds_dump_def fresh_server_def split: if_splits)
next
  case (Some f)
  with assms(1) obtain v pend s' where l: "restore_lines (restoreRandom r) v (dumpLines f) [] t = Some (Inr (pend, s'))"
    "s = s'\<lparr>queue := pend, hasDump := True\<rparr>"
    by (auto simp: restoreDump_def restore_file_def split: if_splits option.splits sum.splits)
  have "came_back (s'\<lparr>queue := pend, hasDump := True\<rparr>) = came_back s'" by (simp add: came_back_def fun_eq_iff)
  with restore_lines_back [OF l(1) fresh_restoring [OF assms(2)]] show ?thesis
    by (simp add: Some holds_dump_def l(2) cong del: sum.case_cong_weak)
qed

section \<open>A record survives the dump\<close>

text \<open>What the dump keeps of a packet: its session is known by its identifier.\<close>

definition packet_view :: "server \<Rightarrow> pendingPacket \<Rightarrow>
    Record \<times> (bool \<times> bool) \<times> (string set \<times> string set \<times> string set) \<times> (string \<times> bytes) option" where
  "packet_view s p =
     (pRecord p, (pStdout p, pFile p), (pEGTS p, pRabbitMQ p, pValkey p),
      if pEGTS p = {} then None
      else (case pRelay p of None \<Rightarrow> None
        | Some r \<Rightarrow> (case session r of None \<Rightarrow> None
          | Some sid \<Rightarrow> Some (sessionID (sessions s ! sid), identity r))))"

text \<open>What every packet of a running gateway has, as it went through \<open>ReadPacket\<close> and \<open>enqueue\<close>.\<close>

definition session_name :: "string \<Rightarrow> bool" where
  "session_name ident \<longleftrightarrow> length ident = 32 \<and> list_all hex_char ident"

definition savable :: "server \<Rightarrow> pendingPacket \<Rightarrow> bool" where
  "savable s p \<longleftrightarrow> ReadPacket (RecRaw (pRecord p)) = (RecPacket (pRecord p), None) \<and>
     (pEGTS p = {} \<or> shouldRelay (RecPacket (pRecord p)) = Some (Inr True) \<and>
        (\<exists>r sid. pRelay p = Some r \<and> session r = Some sid \<and> session_name (sessionID (sessions s ! sid)) \<and>
           (identity r = [] \<or> (\<exists>t. SRTermIdentity_Decode (identity r) = Inr t))))"

lemma newRelaySession_works:
  assumes "valid_destinations (dests s)" "enabled_egts (dests s) \<noteq> []" "random = Inr ident"
  shows "\<exists>s'. newRelaySession random s = (Inr (Some (length (sessions s))), s')"
proof -
  have p: "\<exists>ws'. prepare_writers cs ws = Inr ws' \<and> ws' = ws \<union> set (map EgtsID (filter EgtsEnabled cs))"
    if "list_all valid_egts cs" for cs ws
    using that by (induction cs arbitrary: ws) (auto simp flip: EGTSDestination_Validate_None)
  from p [of "DestEGTS (dests s)" "{}"] assms have "prepare_writers (DestEGTS (dests s)) {} = Inr (set (enabled_egts (dests s)))"
    by (simp add: valid_destinations_def enabled_egts_def)
  with assms show ?thesis by (simp add: newRelaySession_def Let_def)
qed

lemma restore_session_works:
  assumes "valid_destinations (dests s)" "enabled_egts (dests s) \<noteq> []" "\<exists>ident. random = Inr ident"
  shows "\<exists>sid s'. restore_session random name s = Some (Inr sid, s')"
proof (cases "relays s name")
  case None
  from assms obtain s' where "newRelaySession random s = (Inr (Some (length (sessions s))), s')"
    using newRelaySession_works by blast
  with None show ?thesis by (simp add: restore_session_def)
qed (simp add: restore_session_def)

lemma enabled_version:
  "enabled_egts d \<noteq> [] \<Longrightarrow> 3 \<le> dump_version d" "enabled_rabbitmq d \<noteq> [] \<Longrightarrow> 4 \<le> dump_version d"
  "enabled_valkey d \<noteq> [] \<Longrightarrow> dump_version d = 5"
  by (auto simp: dump_version_def Let_def enabled_egts_def enabled_rabbitmq_def enabled_valkey_def
      filter_empty_conv list_ex_iff)

lemma restore_targets_saved:
  assumes "configured d p" "\<not> finished_item p"
    and "savedEGTSIDs saved = sorted_list_of_set (pEGTS p)" "savedRabbitMQIDs saved = sorted_list_of_set (pRabbitMQ p)"
    and "savedValkeyIDs saved = sorted_list_of_set (pValkey p)" "savedStdout saved = pStdout p" "savedFile saved = pFile p"
    and "\<not> savedEGTS saved"
  shows "restore_targets (dump_version d) d saved = Inr (pEGTS p, pRabbitMQ p, pValkey p)"
proof -
  have fin: "finite (pEGTS p)" "finite (pRabbitMQ p)" "finite (pValkey p)"
    using assms(1) by (auto simp: configured_def intro: finite_subset)
  have v: "pEGTS p = {} \<or> 3 \<le> dump_version d" "pRabbitMQ p = {} \<or> 4 \<le> dump_version d" "pValkey p = {} \<or> 5 \<le> dump_version d"
    using enabled_version [of d] assms(1) by (force simp: configured_def)+
  have ids: "restore_ids w E (sorted_list_of_set X) {} = Inr X" if "finite X" "X \<subseteq> E" for w E and X :: "string set"
    using that by (simp add: restore_ids_Inr)
  have l: "legacy_ids (dump_version d) (enabled_egts d) saved = Inr (sorted_list_of_set (pEGTS p))"
    using v(1) fin(1) assms(3,8) by (auto simp: legacy_ids_def)
  have some: "savedStdout saved \<or> savedFile saved \<or> sorted_list_of_set (pEGTS p) \<noteq> [] \<or> savedRabbitMQIDs saved \<noteq> [] \<or> savedValkeyIDs saved \<noteq> []"
    using assms fin by (auto simp: finished_item_def)
  show ?thesis
    using assms(1,4-7) some v fin
    by (auto simp: restore_targets_def l ids configured_def)
qed

lemma restore_record_saved:
  assumes "saved_record s p = Some saved" "savable s p" "configured (dests s) p" "\<not> finished_item p"
    and "restoring pend t" "cfg t = cfg s" "\<forall>n. \<exists>ident. random n = Inr ident"
  shows "\<exists>t' item. restore_record random (dump_version (dests s)) saved t = Some (Inr t') \<and>
    items t' = items t @ [item] \<and> packet_view t' item = packet_view s p"
proof -
  have fields: "savedRabbitMQIDs saved = sorted_list_of_set (pRabbitMQ p)" "savedValkeyIDs saved = sorted_list_of_set (pValkey p)"
    "savedStdout saved = pStdout p" "savedFile saved = pFile p" "\<not> savedEGTS saved"
    "savedEGTSIDs saved = sorted_list_of_set (pEGTS p)" "savedReceivedAt saved = ReceivedAt (pRecord p)"
    "savedSource saved = RecSource (pRecord p)" "savedRaw saved = RecRaw (pRecord p)"
    using assms(1) by (auto simp: saved_record_def Let_def split: if_splits option.splits)
  have d: "dests t = dests s" using assms(6) by simp
  have ids: "restore_targets (dump_version (dests s)) (dests t) saved = Inr (pEGTS p, pRabbitMQ p, pValkey p)"
    unfolding d by (rule restore_targets_saved [OF assms(3,4)]) (simp_all add: fields)
  have rec: "NewRecord (savedReceivedAt saved) (savedSource saved) (savedRaw saved) = Inr (pRecord p)"
    using assms(2) by (cases "pRecord p") (simp add: NewRecord_def fields savable_def)
  show ?thesis
  proof (cases "pEGTS p = {}")
    case True
    then show ?thesis
      by (simp add: restore_record_def ids rec) (simp add: restored_item_def packet_view_def fields)
  next
    case False
    with assms(2) obtain r sid where r: "shouldRelay (RecPacket (pRecord p)) = Some (Inr True)" "pRelay p = Some r"
      "session r = Some sid" "session_name (sessionID (sessions s ! sid))"
      "identity r = [] \<or> (\<exists>t. SRTermIdentity_Decode (identity r) = Inr t)"
      by (auto simp: savable_def)
    have own: "savedSessionID saved = Some (sessionID (sessions s ! sid))" "savedIdentity saved = identity r"
      using assms(1) False r by (auto simp: saved_record_def Let_def)
    have c: "check_relay saved (RecPacket (pRecord p)) = Some (Inr (sessionID (sessions s ! sid)))"
      using r by (auto simp: check_relay_def own session_name_def)
    have en: "enabled_egts (dests t) \<noteq> []" using False assms(3) by (auto simp: configured_def d)
    have va: "valid_destinations (dests t)" using assms(5) by (simp add: restoring_def started_server_def)
    obtain i t1 where s: "restore_session (random (length (sessions t))) (sessionID (sessions s ! sid)) t = Some (Inr i, t1)"
      using restore_session_works [OF va en spec [OF assms(7), of "length (sessions t)"], of "sessionID (sessions s ! sid)"]
      by (elim exE)
    from restore_session_effect [OF s assms(5)] have e: "i < length (sessions t1)"
      "sessionID (sessions t1 ! i) = sessionID (sessions s ! sid)" "items t1 = items t" by blast+
    let ?item = "restored_item saved (pRecord p) (pEGTS p, pRabbitMQ p, pValkey p) (Some \<lparr>session = Some i, identity = identity r\<rparr>)"
    have "sessionID (sessions (count_pending ?item t1) ! i) = sessionID (sessions s ! sid)"
      using count_pending_sessionID [OF e(1)] e(2) by simp
    then have "packet_view ((count_pending ?item t1)\<lparr>items := items t1 @ [?item]\<rparr>) ?item = packet_view s p"
      using r(2,3) fields by (simp add: packet_view_def) (simp add: restored_item_def)
    then show ?thesis
      using e False by (simp add: restore_record_def ids rec c s own Let_def)
  qed
qed

lemma packet_view_extends:
  assumes "extends t t'" "restoring pend t" "a < length (items t)"
  shows "packet_view t' (items t' ! a) = packet_view t (items t ! a)"
proof -
  have same: "items t' ! a = items t ! a" using assms(1,3) by (auto simp: extends_def nth_append)
  have "item_ok (t\<lparr>queue := pend\<rparr>) (items t ! a)"
    using assms(2,3) by (simp add: restoring_def started_server_def session_inv_def)
  then have "sid < length (sessions t)" if "item_session (items t ! a) = Some sid" for sid
    using that by (simp add: item_ok_def)
  then show ?thesis
    using assms(1) by (auto simp: packet_view_def same extends_def item_session_def split: option.split)
qed

lemma restore_lines_saved:
  assumes "dump_records s as = Some rs" "\<forall>a\<in>set as. savable s (items s ! a) \<and> configured (dests s) (items s ! a)"
    and "restoring pend t" "cfg t = cfg s" "\<forall>n. \<exists>ident. random n = Inr ident"
    and "int (length pend + length as) \<le> QueueCapacity (DeliveryCfg (cfg s))"
  shows "\<exists>pend' t'. restore_lines random (dump_version (dests s)) (map Inr rs) pend t = Some (Inr (pend', t')) \<and>
    map (\<lambda>a. packet_view t' (items t' ! a)) pend' =
    map (\<lambda>a. packet_view t (items t ! a)) pend @
    map (\<lambda>a. packet_view s (items s ! a)) (filter (\<lambda>a. \<not> finished_item (items s ! a)) as)"
  using assms
proof (induction as arbitrary: rs pend t)
  case (Cons a as)
  show ?case
  proof (cases "finished_item (items s ! a)")
    case True
    with Cons.prems have "dump_records s as = Some rs" "int (length pend + length as) \<le> QueueCapacity (DeliveryCfg (cfg s))" by auto
    from Cons.IH [OF this(1) _ Cons.prems(3-5) this(2)] True Cons.prems(2) show ?thesis by simp
  next
    case False
    with Cons.prems(1) obtain saved rs' where rs: "saved_record s (items s ! a) = Some saved" "dump_records s as = Some rs'"
      "rs = saved # rs'" by (auto split: option.splits)
    have room: "int (length pend) < QueueCapacity (DeliveryCfg (cfg t))" using Cons.prems(4,6) by simp
    from restore_record_saved [OF rs(1) _ _ False Cons.prems(3-5)] Cons.prems(2) obtain t1 item where
      t1: "restore_record random (dump_version (dests s)) saved t = Some (Inr t1)" "items t1 = items t @ [item]"
        "packet_view t1 item = packet_view s (items s ! a)" by auto
    note i = restore_record_restoring [OF t1(1) Cons.prems(3) room]
    have c: "cfg t1 = cfg s" using i Cons.prems(4) by (simp add: extends_def)
    have "int (length (pend @ [length (items t)]) + length as) \<le> QueueCapacity (DeliveryCfg (cfg s))"
      using Cons.prems(6) by simp
    from Cons.IH [OF rs(2) _ conjunct1 [OF i] c Cons.prems(5) this] Cons.prems(2) obtain pend' t' where
      t': "restore_lines random (dump_version (dests s)) (map Inr rs') (pend @ [length (items t)]) t1 = Some (Inr (pend', t'))"
        "map (\<lambda>a. packet_view t' (items t' ! a)) pend' = map (\<lambda>a. packet_view t1 (items t1 ! a)) (pend @ [length (items t)]) @
          map (\<lambda>a. packet_view s (items s ! a)) (filter (\<lambda>a. \<not> finished_item (items s ! a)) as)" by auto
    have "map (\<lambda>a. packet_view t1 (items t1 ! a)) pend = map (\<lambda>a. packet_view t (items t ! a)) pend"
      using packet_view_extends [OF conjunct2 [OF i] Cons.prems(3)] Cons.prems(3)
      by (auto simp: restoring_def started_server_def queue_inv_def)
    with t' t1 room False show ?thesis by (simp add: rs(3))
  qed
qed simp

section \<open>Restoring never panics, and no session is left without packets\<close>

definition busy_sessions :: "server \<Rightarrow> bool" where
  "busy_sessions s \<longleftrightarrow> (\<forall>x\<in>set (sessions s). 0 < pending x)"

lemma restore_session_sessions:
  assumes "restore_session random ident s = Some (Inr sid, s')"
  shows "(sessions s' = sessions s \<and> relays s ident = Some sid) \<or>
    (\<exists>x. sessions s' = sessions s @ [x] \<and> sid = length (sessions s) \<and> pending x = 0)"
proof (cases "relays s ident")
  case (Some i)
  with assms show ?thesis by (auto simp: restore_session_def)
next
  case None
  with assms obtain s1 where n: "newRelaySession random s = (Inr (Some sid), s1)"
    "s' = (upd_session sid (\<lambda>x. x\<lparr>sessionID := ident, closed := True\<rparr>) s1)
       \<lparr>relays := ((relays s1)(sessionID (sessions s1 ! sid) := None))(ident \<mapsto> sid)\<rparr>"
    by (auto simp: restore_session_def split: prod.splits sum.splits option.splits)
  from n(1) show ?thesis
  proof (cases rule: new_session_effect)
    case (2 old)
    then show ?thesis by (intro disjI2) (simp add: n(2))
  qed blast
qed

lemma count_pending_busy:
  assumes "\<forall>x\<in>set (sessions s). 0 \<le> pending x" "finite (pEGTS p)" "pEGTS p \<noteq> {}" "item_session p = Some sid"
    "\<forall>j<length (sessions s). j \<noteq> sid \<longrightarrow> 0 < pending (sessions s ! j)"
  shows "\<forall>x\<in>set (sessions (count_pending p s)). 0 < pending x"
proof
  fix x
  assume "x \<in> set (sessions (count_pending p s))"
  then obtain j where j: "j < length (sessions s)" "x = sessions (count_pending p s) ! j"
    by (auto simp: in_set_conv_nth)
  then have "0 \<le> pending (sessions s ! j)" using assms(1) by simp
  moreover have "0 < card (pEGTS p)" using assms(2,3) by (simp add: card_gt_0_iff)
  ultimately show "0 < pending x"
    using j assms(4,5) by (cases "j = sid") (auto simp: count_pending_session open_targets_def)
qed

lemma restore_record_busy:
  assumes "restore_record random v saved s = Some (Inr s')" "restoring pend s" "busy_sessions s"
    "int (length pend) < QueueCapacity (DeliveryCfg (cfg s))"
  shows "busy_sessions s'"
  using assms(1)
proof (cases rule: restore_record_Inr)
  case (plain ids r)
  with assms(3) show ?thesis by (simp add: busy_sessions_def)
next
  case (relayed ids r ident sid s1 item)
  have it: "item_session item = Some sid" "pEGTS item = fst ids" by (simp_all add: relayed(5) restored_item_def item_session_def)
  have fin: "finite (pEGTS item)"
    using restore_targets_Inr [OF relayed(1)] by (auto simp: it intro: finite_subset)
  have s1: "\<forall>x\<in>set (sessions s1). 0 \<le> pending x" "\<forall>j<length (sessions s1). j \<noteq> sid \<longrightarrow> 0 < pending (sessions s1 ! j)"
    using restore_session_sessions [OF relayed(4)] assms(3)
    by (auto simp: busy_sessions_def nth_append less_Suc_eq intro: less_imp_le)
  from count_pending_busy [OF s1(1) fin _ it(1) s1(2)] relayed(7) show ?thesis
    by (simp add: busy_sessions_def relayed(6) it)
qed

lemma restore_lines_busy:
  assumes "restore_lines random v lines pend s = Some (Inr (pend', s'))" "restoring pend s" "busy_sessions s"
  shows "busy_sessions s'"
  using assms
proof (induction random v lines pend s rule: restore_lines.induct)
  case (2 random v line lines pend s)
  from "2.prems"(1) have room: "\<not> int (length pend) \<ge> QueueCapacity (DeliveryCfg (cfg s))" by (auto split: if_splits)
  then have lt: "int (length pend) < QueueCapacity (DeliveryCfg (cfg s))" by simp
  from room "2.prems"(1) obtain saved where l: "line = Inr saved" by (auto split: sum.splits)
  with room "2.prems"(1) obtain s1 where r: "restore_record random v saved s = Some (Inr s1)"
    "restore_lines random v lines (pend @ [length (items s)]) s1 = Some (Inr (pend', s'))"
    by (auto split: option.splits sum.splits)
  from "2.IH" [OF room l r(1) refl r(2) conjunct1 [OF restore_record_restoring [OF r(1) "2.prems"(2) lt]]
      restore_record_busy [OF r(1) "2.prems"(2,3) lt]]
  show ?case .
qed simp

text \<open>Without an enabled destination there is no record that needs a session.\<close>

lemma check_relay_total: "NewRecord t src raw = Inr r \<Longrightarrow> check_relay saved (RecPacket r) \<noteq> None"
proof -
  assume "NewRecord t src raw = Inr r"
  then have "ReadPacket raw = (RecPacket r, None)" by (auto simp: NewRecord_def split: prod.splits option.splits)
  then have "shouldRelay (RecPacket r) \<noteq> None"
    using shouldRelay_total by (cases "PacketType (RecPacket r) = EGTS_PT_APPDATA") (auto simp: shouldRelay_def)
  then show ?thesis by (auto simp: check_relay_def split: option.splits sum.splits bool.splits)
qed

lemma restore_session_total: "enabled_egts (dests s) \<noteq> [] \<Longrightarrow> restore_session random ident s \<noteq> None"
  using prepare_writers_Inr [of "DestEGTS (dests s)" "{}"]
  by (auto simp: restore_session_def newRelaySession_def Let_def enabled_egts_def simp del: set_filter
      split: option.splits sum.splits prod.splits if_splits)

lemma restore_record_total: "restore_record random v saved s \<noteq> None"
proof (cases "restore_targets v (dests s) saved")
  case (Inr ids)
  note t = Inr
  show ?thesis
  proof (cases "NewRecord (savedReceivedAt saved) (savedSource saved) (savedRaw saved)")
    case (Inr r)
    show ?thesis
    proof (cases "fst ids = {}")
      case False
      with restore_targets_Inr [OF t] have "enabled_egts (dests s) \<noteq> []" by auto
      from restore_session_total [OF this] check_relay_total [OF Inr] False t Inr show ?thesis
        by (simp add: restore_record_def Let_def del: not_None_eq split: option.split sum.split prod.split)
    qed (use t Inr in \<open>simp add: restore_record_def\<close>)
  qed (use t in \<open>simp add: restore_record_def\<close>)
qed (simp add: restore_record_def)

lemma restore_lines_total: "restore_lines random v lines pend s \<noteq> None"
proof (induction random v lines pend s rule: restore_lines.induct)
  case (2 random v line lines pend s)
  then show ?case
    using restore_record_total [of random v _ s]
    by (simp del: not_None_eq split: sum.split option.split)
qed simp

end
