(* ===== verification/Dump_Properties.thy ===== *)
theory Dump_Properties
  imports Dump_Lemmas Gateway_Demo
begin

text \<open>
  The properties of the dump: the packets that were waiting come back in their order, and a gateway
  that restored a file, whatever the file holds, satisfies the invariants that the properties of the
  delivery loop start from.
\<close>

lemma dump_records_total: "started_server s \<Longrightarrow> set as \<subseteq> {..<length (items s)} \<Longrightarrow> dump_records s as \<noteq> None"
proof (induction as)
  case (Cons a as)
  then have "item_ok s (items s ! a)" by (simp add: started_server_def session_inv_def)
  then have "saved_record s (items s ! a) \<noteq> None"
    by (auto simp: saved_record_def item_ok_def item_session_def Let_def split: option.splits)
  with Cons show ?case by (auto split: option.splits)
qed simp

lemma restore_saved:
  assumes "started_server s" "\<forall>a\<in>set (queue s). savable s (items s ! a)"
    and "saveDump k s file = Some (None, s', file')"
    and "fresh_server t" "cfg t = cfg s" "restoreOutputs r = None" "restoreOpen r = None" "restoreClose r = None"
    and "\<forall>n. \<exists>ident. restoreRandom r n = Inr ident"
  shows "\<exists>t'. restoreDump r file' t = Some (Inr t') \<and> hasDump t' \<and>
    map (\<lambda>a. packet_view t' (items t' ! a)) (queue t') =
    map (\<lambda>a. packet_view s (items s ! a)) (filter (\<lambda>a. \<not> finished_item (items s ! a)) (queue s))"
proof -
  from assms(3) obtain rs where rs: "dump_records s (queue s) = Some rs"
    "file' = Some \<lparr>dumpVersion = Some (Inr (dump_version (dests s))), dumpLines = map Inr rs, dumpScanErr = None\<rparr>"
    by (auto simp: saveDump_def split: option.splits)
  have items: "\<forall>a\<in>set (queue s). savable s (items s ! a) \<and> configured (dests s) (items s ! a)"
    using assms(1,2) by (auto simp: started_server_def queue_inv_def session_inv_def item_ok_def)
  have room: "int (length [] + length (queue s)) \<le> QueueCapacity (DeliveryCfg (cfg s))"
    using assms(1) by (simp add: started_server_def queue_inv_def)
  obtain pend t' where t': "restore_lines (restoreRandom r) (dump_version (dests s)) (map Inr rs) [] t = Some (Inr (pend, t'))"
    "map (\<lambda>a. packet_view t' (items t' ! a)) pend =
     map (\<lambda>a. packet_view s (items s ! a)) (filter (\<lambda>a. \<not> finished_item (items s ! a)) (queue s))"
    using restore_lines_saved [OF rs(1) items fresh_restoring [OF assms(4)] assms(5,9) room] by auto
  have v: "dump_version (dests s) \<in> {1, 2, 3, 4, 5}" by (simp add: dump_version_def)
  have view: "packet_view (t'\<lparr>queue := pend, hasDump := True\<rparr>) p = packet_view t' p" for p
    by (simp add: packet_view_def cong: option.case_cong)
  show ?thesis
    using t' v assms(6-8) by (simp add: restoreDump_def restore_file_def rs(2) view)
qed

text \<open>
  The packets that wait for a destination survive a restart: what a running gateway saved is
  restored by a gateway with the same configuration, in the same order, with the same bytes, sources
  and times, for exactly the destinations each packet was still waiting for and under the same relay
  session and identity.
\<close>

theorem dump_roundtrip:
  assumes "started_server s" "\<forall>a\<in>set (queue s). savable s (items s ! a)"
    and "saveDump k s file = Some (None, s', file')"
    and "fresh_server t" "cfg t = cfg s" "restoreOutputs r = None" "restoreOpen r = None" "restoreClose r = None"
    and "\<forall>n. \<exists>ident. restoreRandom r n = Inr ident"
  shows "\<exists>t'. restoreDump r file' t = Some (Inr t') \<and> hasDump t' \<and>
    map (\<lambda>a. packet_view t' (items t' ! a)) (queue t') =
    map (\<lambda>a. packet_view s (items s ! a)) (filter (\<lambda>a. \<not> finished_item (items s ! a)) (queue s))"
  by (rule restore_saved [OF assms])

text \<open>A gateway with one packet that waits for its relay, and the one that starts after it.\<close>

definition waiting_server :: "bytes \<Rightarrow> Packet \<Rightarrow> server" where
  "waiting_server raw p = \<lparr>cfg = demo_cfg, accepting = False, queue = [0], wake = False, hasDump = False, relays = Map.empty,
     items = [(demo_item {''peer''} False)\<lparr>pRecord := demo_record\<lparr>RecPacket := p, RecRaw := raw\<rparr>\<rparr>],
     sessions = [(demo_session 1 True False)\<lparr>sessionID := replicate 32 (CHR ''a'')\<rparr>]\<rparr>"

definition restarted_server :: server where
  "restarted_server = \<lparr>cfg = demo_cfg, accepting = False, queue = [], wake = False, hasDump = False, relays = Map.empty,
     items = [], sessions = []\<rparr>"

definition demo_save :: save_calls where
  "demo_save = \<lparr>saveOutputs = None, saveCreate = None, saveHeader = None, saveRecord = \<lambda>_. None, saveSync = None,
     saveClose = None, saveOutputsAgain = None, saveRename = None, saveOpenDir = None, saveSyncDir = None,
     saveCloseDir = None, saveRemove = None\<rparr>"

definition demo_restore :: restore_calls where
  "demo_restore = \<lparr>restoreOutputs = None, restoreOpen = None, restoreClose = None,
     restoreRandom = \<lambda>_. Inr (replicate 32 (CHR ''b''))\<rparr>"

lemma demo_valid: "valid_destinations (DestinationsCfg demo_cfg)"
  using demo_started by (simp add: started_gateway_def started_server_def demo_start_def demo_state_def)

lemma waiting_started: "started_server (waiting_server raw p)"
  using demo_valid
  by (simp add: waiting_server_def started_server_def queue_inv_def session_inv_def session_total_def open_targets_def
      item_ok_def configured_def item_session_def demo_item_def demo_session_def demo_dests)

lemma restarted_fresh: "fresh_server restarted_server"
  using demo_valid by (simp add: fresh_server_def restarted_server_def demo_dests)

lemma demo_saved:
  assumes "started_server s"
  shows "\<exists>f. saveDump demo_save s d = Some (None, s\<lparr>hasDump := True\<rparr>, Some f)"
proof -
  have "dump_records s (queue s) \<noteq> None"
    by (rule dump_records_total [OF assms]) (use assms in \<open>auto simp: started_server_def queue_inv_def\<close>)
  then obtain rs where "dump_records s (queue s) = Some rs" by auto
  moreover have "first_failure (save_steps demo_save n) = None" for n
  proof -
    have "first_failure (xs @ ys) = None \<longleftrightarrow> first_failure xs = None \<and> first_failure ys = None" for xs ys
      by (induction xs rule: first_failure.induct) auto
    moreover have "first_failure (map (\<lambda>i. None) is) = None" for "is" :: "nat list" by (induction "is") auto
    ultimately show ?thesis by (simp add: save_steps_def demo_save_def wrap_error_def)
  qed
  ultimately show ?thesis by (simp add: saveDump_def) (simp add: demo_save_def wrap_error_def)
qed

lemma waiting_saved: "\<exists>f. saveDump demo_save (waiting_server raw p) None = Some (None, (waiting_server raw p)\<lparr>hasDump := True\<rparr>, f)"
  using demo_saved [OF waiting_started] by blast

lemma empty_packet:
  obtains raw p where "ReadPacket raw = (p, None)" "PacketType p = EGTS_PT_APPDATA"
    "PacketServicesFrameData p = Some (FD_SFRD (Some []))"
proof -
  let ?p = "Packet0\<lparr>ProtocolVersion := 1, PRF := ''00'', RTE := ''0'', ENA := ''00'', CMP := ''0'', PR := ''00'',
    HeaderLength := 11, PacketType := EGTS_PT_APPDATA, PacketServicesFrameData := Some (FD_SFRD (Some []))\<rparr>"
  have "wf_Packet ?p"
    by (simp add: wf_Packet_def Packet0_def wf_header_def header_ok_def wf_data_def wf_SFRD_def fits_def encode_data_def codes)
  from Packet_roundtrip_sealed [OF this] obtain w data where "ReadPacket (frame_of w data (sealed w data ?p)) = (sealed w data ?p, None)"
    by metis
  then show thesis by (rule that) (simp_all add: sealed_def)
qed

lemma waiting_packet:
  obtains raw p f where "savable (waiting_server raw p) (items (waiting_server raw p) ! 0)"
    "saveDump demo_save (waiting_server raw p) None = Some (None, (waiting_server raw p)\<lparr>hasDump := True\<rparr>, f)"
proof -
  obtain raw p where p: "ReadPacket raw = (p, None)" "PacketType p = EGTS_PT_APPDATA"
    "PacketServicesFrameData p = Some (FD_SFRD (Some []))" by (rule empty_packet)
  then have "shouldRelay p = Some (Inr True)" by (simp add: shouldRelay_def)
  with p(1) have "savable (waiting_server raw p) (items (waiting_server raw p) ! 0)"
    by (simp add: savable_def waiting_server_def demo_item_def session_name_def hex_char_def list_all_iff)
  with waiting_saved [of raw p] that show thesis by blast
qed

lemma waiting_simps: "queue (waiting_server raw p) = [0]" "pEGTS (items (waiting_server raw p) ! 0) = {''peer''}"
  "cfg restarted_server = cfg (waiting_server raw p)" "restoreOutputs demo_restore = None" "restoreOpen demo_restore = None"
  "restoreClose demo_restore = None" "\<forall>n. \<exists>ident. restoreRandom demo_restore n = Inr ident"
  by (simp_all add: waiting_server_def restarted_server_def demo_item_def demo_restore_def)

theorem dump_roundtrip_witness:
  "\<exists>s file' t'. saveDump demo_save s None = Some (None, s\<lparr>hasDump := True\<rparr>, file') \<and>
    restoreDump demo_restore file' restarted_server = Some (Inr t') \<and> pEGTS (items s ! 0) = {''peer''} \<and>
    map (\<lambda>a. packet_view t' (items t' ! a)) (queue t') = [packet_view s (items s ! 0)]"
proof -
  obtain raw p f where f: "savable (waiting_server raw p) (items (waiting_server raw p) ! 0)"
    "saveDump demo_save (waiting_server raw p) None = Some (None, (waiting_server raw p)\<lparr>hasDump := True\<rparr>, f)"
    by (rule waiting_packet)
  then have "\<forall>a\<in>set (queue (waiting_server raw p)). savable (waiting_server raw p) (items (waiting_server raw p) ! a)"
    by (simp add: waiting_simps)
  from dump_roundtrip [OF waiting_started this f(2) restarted_fresh waiting_simps(3-7)] obtain t' where
    "restoreDump demo_restore f restarted_server = Some (Inr t')"
    "map (\<lambda>a. packet_view t' (items t' ! a)) (queue t') = [packet_view (waiting_server raw p) (items (waiting_server raw p) ! 0)]"
    by (auto simp: waiting_simps finished_item_def)
  with f show ?thesis
    by (intro exI [of _ "waiting_server raw p"] exI [of _ f] exI [of _ t']) (simp add: waiting_simps)
qed

text \<open>What a restored server is: one the delivery loop can start from.\<close>

definition starts_from :: "server \<Rightarrow> server \<Rightarrow> bool" where
  "starts_from s s' \<longleftrightarrow> cfg s' = cfg s \<and>
     started_gateway \<lparr>srv = s', dlv = initial_delivery (dests s')\<rparr> \<and>
     leak_inv \<lparr>srv = s', dlv = initial_delivery (dests s')\<rparr> \<and>
     list_all (\<lambda>x. closed x \<and> \<not> writersClosed x \<and> 0 < pending x) (sessions s')"

lemma starts_fromI:
  assumes "cfg s' = cfg s" "started_server s'" "list_all (\<lambda>x. closed x \<and> \<not> writersClosed x \<and> 0 < pending x) (sessions s')"
  shows "starts_from s s'"
  using assms by (auto simp: starts_from_def started_gateway_def leak_inv_def ready_def list_all_length)

lemma fresh_started: "fresh_server s \<Longrightarrow> started_server s \<and> sessions s = []"
  using fresh_restoring [of s] by (auto simp: restoring_def fresh_server_def started_server_def queue_inv_def session_inv_def)

lemma restore_lines_starts:
  assumes "restore_lines rnd v ls [] s = Some (Inr (pend, s'))" "fresh_server s"
  shows "starts_from s (s'\<lparr>queue := pend, hasDump := True\<rparr>)"
proof -
  have "busy_sessions s" by (simp add: busy_sessions_def fresh_started [OF assms(2)])
  from restore_lines_busy [OF assms(1) fresh_restoring [OF assms(2)] this] restore_lines_restoring [OF assms(1) fresh_restoring [OF assms(2)]]
  have "busy_sessions s'" "restoring pend s'" "cfg s' = cfg s" by (auto simp: extends_def)
  moreover have "started_server (s'\<lparr>queue := pend, hasDump := True\<rparr>) \<longleftrightarrow> started_server (s'\<lparr>queue := pend\<rparr>)"
    by (rule started_server_cong) simp_all
  ultimately show ?thesis by (intro starts_fromI) (simp_all add: restoring_def busy_sessions_def list_all_iff)
qed

lemma restore_file_starts:
  assumes "fresh_server s"
  shows "\<exists>res. restore_file r f s = Some res \<and> (case res of Inl e \<Rightarrow> True | Inr s' \<Rightarrow> starts_from s s')"
proof (cases "\<exists>v. dumpVersion f = Some (Inr v) \<and> v \<in> {1, 2, 3, 4, 5}")
  case True
  then obtain v where v: "dumpVersion f = Some (Inr v)" "v \<in> {1, 2, 3, 4, 5}" by blast
  obtain x where x: "restore_lines (restoreRandom r) v (dumpLines f) [] s = Some x"
    using restore_lines_total [of "restoreRandom r" v "dumpLines f" "[]" s] by auto
  show ?thesis
  proof (cases x)
    case (Inr ps)
    then obtain pend s' where ps: "x = Inr (pend, s')" by (cases ps) auto
    with restore_lines_starts [OF x [unfolded ps] assms] v x show ?thesis by (simp add: restore_file_def)
  qed (use v x in \<open>simp add: restore_file_def\<close>)
next
  case False
  then show ?thesis by (auto simp: restore_file_def split: option.split sum.split)
qed

lemma restoreDump_starts:
  assumes "fresh_server s"
  shows "\<exists>res. restoreDump r dump s = Some res \<and> (case res of Inl e \<Rightarrow> True | Inr s' \<Rightarrow> starts_from s s')"
  using restore_file_starts [OF assms, of r "the dump"] fresh_started [OF assms] starts_fromI [of s s]
  by (auto simp: restoreDump_def split: option.split)

text \<open>
  C19. Restoring never panics, whatever the file holds, and never gives a gateway that breaks an
  invariant: either it is refused, or the packets form a queue the delivery loop can start from, the
  outgoing connections of all its sessions are open, and none of the sessions is without packets.
\<close>

theorem restored_gateway:
  assumes "fresh_server s"
  shows "\<exists>res. restoreDump r file s = Some res \<and>
    (case res of Inl e \<Rightarrow> True | Inr s' \<Rightarrow> cfg s' = cfg s \<and>
       started_gateway \<lparr>srv = s', dlv = initial_delivery (dests s')\<rparr> \<and>
       leak_inv \<lparr>srv = s', dlv = initial_delivery (dests s')\<rparr> \<and>
       list_all (\<lambda>x. closed x \<and> \<not> writersClosed x \<and> 0 < pending x) (sessions s'))"
  using restoreDump_starts [OF assms, of r "file"] unfolding starts_from_def .

theorem restored_gateway_witness:
  "\<exists>f t'. restoreDump demo_restore f restarted_server = Some (Inr t') \<and> length (queue t') = 1 \<and>
     started_gateway \<lparr>srv = t', dlv = initial_delivery (dests t')\<rparr>"
proof -
  obtain raw p f where f: "savable (waiting_server raw p) (items (waiting_server raw p) ! 0)"
    "saveDump demo_save (waiting_server raw p) None = Some (None, (waiting_server raw p)\<lparr>hasDump := True\<rparr>, f)"
    by (rule waiting_packet)
  then have "\<forall>a\<in>set (queue (waiting_server raw p)). savable (waiting_server raw p) (items (waiting_server raw p) ! a)"
    by (simp add: waiting_simps)
  from restore_saved [OF waiting_started this f(2) restarted_fresh waiting_simps(3-7)] obtain t' where
    "restoreDump demo_restore f restarted_server = Some (Inr t')" "length (queue t') = 1"
    by (auto simp: waiting_simps finished_item_def dest: map_eq_imp_length_eq)
  with restored_gateway [OF restarted_fresh, of demo_restore f] show ?thesis by auto
qed

end
