(* ===== verification/Env_Config.thy ===== *)
theory Env_Config
  imports Gateway_Config
begin

text \<open>
  The configuration from the environment, \<open>PrepareEnvConfiguration\<close> and the two functions for the
  message brokers in \<open>gateway/configuration\<close>. The environment is its list of variables with their
  values. Each optional variable of the code is one row of a table, in the code's order: its name and
  what its value does to the configuration.
\<close>

section \<open>strconv and strings\<close>

definition Atoi :: "string \<Rightarrow> int result" where
  "Atoi s =
     (let (neg, digits) = (case s of CHR ''-'' # cs \<Rightarrow> (True, cs) | CHR ''+'' # cs \<Rightarrow> (False, cs) | _ \<Rightarrow> (False, s)) in
      case ParseUint 10 64 digits of
        (n, Some e) \<Rightarrow> Inl e
      | (n, None) \<Rightarrow>
          if (\<not> neg \<and> n \<ge> 2 ^ 63) \<or> (neg \<and> n > 2 ^ 63) then Inl ErrRange
          else Inr (if neg then - int n else int n))"

definition ParseBool :: "string \<Rightarrow> bool result" where
  "ParseBool s =
     (if s \<in> {''1'', ''t'', ''T'', ''true'', ''TRUE'', ''True''} then Inr True
      else if s \<in> {''0'', ''f'', ''F'', ''false'', ''FALSE'', ''False''} then Inr False
      else Inl ErrSyntax)"

text \<open>\<open>strings.ToUpper\<close> of an ASCII string; an id with any other character is refused by \<open>Validate\<close>.\<close>

definition upper_char :: "char \<Rightarrow> char" where
  "upper_char c = (if (of_char c :: nat) \<in> {97..122} then char_of (of_char c - 32 :: nat) else c)"

definition ToUpper :: "string \<Rightarrow> string" where
  "ToUpper = map upper_char"

fun Split :: "char \<Rightarrow> string \<Rightarrow> string list" where
  "Split sep [] = [[]]"
| "Split sep (c # cs) =
     (if c = sep then [] # Split sep cs
      else (case Split sep cs of [] \<Rightarrow> [[c]] | f # fs \<Rightarrow> (c # f) # fs))"

section \<open>Settings\<close>

type_synonym env = "(string \<times> string) list"
type_synonym 'c setting = "string \<times> (string \<Rightarrow> 'c \<Rightarrow> 'c result)"

definition LookupEnv :: "env \<Rightarrow> string \<Rightarrow> string option" where
  "LookupEnv env key = map_of env key"

definition str_setting :: "string \<Rightarrow> (string \<Rightarrow> 'c \<Rightarrow> 'c) \<Rightarrow> 'c setting" where
  "str_setting key upd = (key, \<lambda>value c. Inr (upd value c))"

definition int_setting :: "string \<Rightarrow> (int \<Rightarrow> 'c \<Rightarrow> 'c) \<Rightarrow> 'c setting" where
  "int_setting key upd = (key, \<lambda>value c. bindR (wrapf key (Atoi value)) (\<lambda>n. Inr (upd n c)))"

definition bool_setting :: "string \<Rightarrow> (bool \<Rightarrow> 'c \<Rightarrow> 'c) \<Rightarrow> 'c setting" where
  "bool_setting key upd = (key, \<lambda>value c. bindR (wrapf key (ParseBool value)) (\<lambda>b. Inr (upd b c)))"

fun apply_settings :: "env \<Rightarrow> 'c setting list \<Rightarrow> 'c \<Rightarrow> 'c result" where
  "apply_settings env [] c = Inr c"
| "apply_settings env ((key, f) # ss) c =
     (case LookupEnv env key of
        None \<Rightarrow> apply_settings env ss c
      | Some value \<Rightarrow> bindR (f value c) (apply_settings env ss))"

abbreviation upd_server :: "(ServerConf \<Rightarrow> ServerConf) \<Rightarrow> Configuration \<Rightarrow> Configuration" where
  "upd_server f c \<equiv> c\<lparr>ServerCfg := f (ServerCfg c)\<rparr>"

abbreviation upd_auth :: "(AuthConf \<Rightarrow> AuthConf) \<Rightarrow> Configuration \<Rightarrow> Configuration" where
  "upd_auth f c \<equiv> c\<lparr>AuthCfg := f (AuthCfg c)\<rparr>"

abbreviation upd_delivery :: "(DeliveryConf \<Rightarrow> DeliveryConf) \<Rightarrow> Configuration \<Rightarrow> Configuration" where
  "upd_delivery f c \<equiv> c\<lparr>DeliveryCfg := f (DeliveryCfg c)\<rparr>"

abbreviation upd_logs :: "(LogsConf \<Rightarrow> LogsConf) \<Rightarrow> Configuration \<Rightarrow> Configuration" where
  "upd_logs f c \<equiv> c\<lparr>LogsCfg := f (LogsCfg c)\<rparr>"

abbreviation upd_log_rotation :: "(RotationConf \<Rightarrow> RotationConf) \<Rightarrow> Configuration \<Rightarrow> Configuration" where
  "upd_log_rotation f \<equiv> upd_logs (\<lambda>l. l\<lparr>LogsRotation := f (LogsRotation l)\<rparr>)"

abbreviation upd_dests :: "(DestinationsConf \<Rightarrow> DestinationsConf) \<Rightarrow> Configuration \<Rightarrow> Configuration" where
  "upd_dests f c \<equiv> c\<lparr>DestinationsCfg := f (DestinationsCfg c)\<rparr>"

abbreviation upd_file :: "(FileDestinationConf \<Rightarrow> FileDestinationConf) \<Rightarrow> Configuration \<Rightarrow> Configuration" where
  "upd_file f \<equiv> upd_dests (\<lambda>d. d\<lparr>DestFile := f (DestFile d)\<rparr>)"

abbreviation upd_file_rotation :: "(RotationConf \<Rightarrow> RotationConf) \<Rightarrow> Configuration \<Rightarrow> Configuration" where
  "upd_file_rotation f \<equiv> upd_file (\<lambda>d. d\<lparr>FileRotation := f (FileRotation d)\<rparr>)"

abbreviation upd_relay_auth :: "(EGTSAuthConf \<Rightarrow> EGTSAuthConf) \<Rightarrow> EGTSDestinationConf \<Rightarrow> EGTSDestinationConf" where
  "upd_relay_auth f c \<equiv> c\<lparr>EgtsAuth := f (EgtsAuth c)\<rparr>"

definition server_settings :: "Configuration setting list" where
  "server_settings =
     [str_setting ''EGTS_SERVER_HOST'' (\<lambda>v. upd_server (\<lambda>s. s\<lparr>ServerHost := v\<rparr>)),
      int_setting ''EGTS_SERVER_PORT'' (\<lambda>v. upd_server (\<lambda>s. s\<lparr>ServerPort := v\<rparr>)),
      bool_setting ''EGTS_AUTH_ENABLED'' (\<lambda>v. upd_auth (\<lambda>a. a\<lparr>AuthEnabled := v\<rparr>)),
      str_setting ''EGTS_AUTH_PASSWORD'' (\<lambda>v. upd_auth (\<lambda>a. a\<lparr>AuthPassword := v\<rparr>)),
      str_setting ''EGTS_ACK_MODE'' (\<lambda>v. upd_delivery (\<lambda>d. d\<lparr>AckMode := v\<rparr>)),
      int_setting ''EGTS_QUEUE_CAPACITY'' (\<lambda>v. upd_delivery (\<lambda>d. d\<lparr>QueueCapacity := v\<rparr>)),
      int_setting ''EGTS_DUMP_AFTER_SECONDS'' (\<lambda>v. upd_delivery (\<lambda>d. d\<lparr>DumpAfterSeconds := v\<rparr>)),
      str_setting ''EGTS_DUMP_DIRECTORY'' (\<lambda>v. upd_delivery (\<lambda>d. d\<lparr>DumpDirectory := v\<rparr>)),
      str_setting ''EGTS_LOG_OUTPUT'' (\<lambda>v. upd_logs (\<lambda>l. l\<lparr>LogsOutput := v\<rparr>)),
      str_setting ''EGTS_LOG_DIRECTORY'' (\<lambda>v. upd_logs (\<lambda>l. l\<lparr>LogsDirectory := v\<rparr>)),
      int_setting ''EGTS_LOG_MAX_FILE_SIZE_BYTES'' (\<lambda>v. upd_log_rotation (\<lambda>r. r\<lparr>MaxFileSizeBytes := v\<rparr>)),
      int_setting ''EGTS_LOG_MAX_BACKUPS'' (\<lambda>v. upd_log_rotation (\<lambda>r. r\<lparr>MaxBackups := v\<rparr>)),
      int_setting ''EGTS_LOG_MAX_AGE_DAYS'' (\<lambda>v. upd_log_rotation (\<lambda>r. r\<lparr>MaxAgeDays := v\<rparr>)),
      int_setting ''EGTS_LOG_MAX_TOTAL_SIZE_BYTES'' (\<lambda>v. upd_log_rotation (\<lambda>r. r\<lparr>MaxTotalSizeBytes := v\<rparr>)),
      bool_setting ''EGTS_PACKETS_STDOUT'' (\<lambda>v. upd_dests (\<lambda>d. d\<lparr>DestStdout := v\<rparr>)),
      bool_setting ''EGTS_PACKETS_FILE_ENABLED'' (\<lambda>v. upd_file (\<lambda>f. f\<lparr>FileEnabled := v\<rparr>)),
      str_setting ''EGTS_PACKETS_FILE_DIRECTORY'' (\<lambda>v. upd_file (\<lambda>f. f\<lparr>FileDirectory := v\<rparr>)),
      int_setting ''EGTS_PACKETS_FILE_MAX_FILE_SIZE_BYTES'' (\<lambda>v. upd_file_rotation (\<lambda>r. r\<lparr>MaxFileSizeBytes := v\<rparr>)),
      int_setting ''EGTS_PACKETS_FILE_MAX_BACKUPS'' (\<lambda>v. upd_file_rotation (\<lambda>r. r\<lparr>MaxBackups := v\<rparr>)),
      int_setting ''EGTS_PACKETS_FILE_MAX_AGE_DAYS'' (\<lambda>v. upd_file_rotation (\<lambda>r. r\<lparr>MaxAgeDays := v\<rparr>)),
      int_setting ''EGTS_PACKETS_FILE_MAX_TOTAL_SIZE_BYTES'' (\<lambda>v. upd_file_rotation (\<lambda>r. r\<lparr>MaxTotalSizeBytes := v\<rparr>))]"

text \<open>The variables of one destination end with its id in upper case.\<close>

definition suffix :: "string \<Rightarrow> string" where
  "suffix ident = ''_'' @ ToUpper ident"

definition relay_settings :: "string \<Rightarrow> EGTSDestinationConf setting list" where
  "relay_settings ident =
     [bool_setting (''EGTS_RELAY_ENABLED'' @ suffix ident) (\<lambda>v c. c\<lparr>EgtsEnabled := v\<rparr>),
      str_setting (''EGTS_RELAY_HOST'' @ suffix ident) (\<lambda>v c. c\<lparr>EgtsHost := v\<rparr>),
      int_setting (''EGTS_RELAY_PORT'' @ suffix ident) (\<lambda>v c. c\<lparr>EgtsPort := v\<rparr>),
      int_setting (''EGTS_RELAY_CONNECT_TIMEOUT_SECONDS'' @ suffix ident) (\<lambda>v c. c\<lparr>EgtsConnectTimeoutSeconds := v\<rparr>),
      int_setting (''EGTS_RELAY_ACK_TIMEOUT_SECONDS'' @ suffix ident) (\<lambda>v c. c\<lparr>EgtsAckTimeoutSeconds := v\<rparr>),
      bool_setting (''EGTS_RELAY_AUTH_ENABLED'' @ suffix ident) (\<lambda>v. upd_relay_auth (\<lambda>a. a\<lparr>EgtsAuthEnabled := v\<rparr>)),
      str_setting (''EGTS_RELAY_AUTH_USERNAME'' @ suffix ident) (\<lambda>v. upd_relay_auth (\<lambda>a. a\<lparr>EgtsAuthUserName := v\<rparr>)),
      str_setting (''EGTS_RELAY_AUTH_PASSWORD'' @ suffix ident) (\<lambda>v. upd_relay_auth (\<lambda>a. a\<lparr>EgtsAuthPassword := v\<rparr>))]"

definition rabbitmq_settings :: "string \<Rightarrow> RabbitMQDestinationConf setting list" where
  "rabbitmq_settings ident =
     [bool_setting (''EGTS_RABBITMQ_ENABLED'' @ suffix ident) (\<lambda>v c. c\<lparr>RabbitEnabled := v\<rparr>),
      str_setting (''EGTS_RABBITMQ_HOST'' @ suffix ident) (\<lambda>v c. c\<lparr>RabbitHost := v\<rparr>),
      int_setting (''EGTS_RABBITMQ_PORT'' @ suffix ident) (\<lambda>v c. c\<lparr>RabbitPort := v\<rparr>),
      str_setting (''EGTS_RABBITMQ_USERNAME'' @ suffix ident) (\<lambda>v c. c\<lparr>RabbitUserName := v\<rparr>),
      str_setting (''EGTS_RABBITMQ_PASSWORD'' @ suffix ident) (\<lambda>v c. c\<lparr>RabbitPassword := v\<rparr>),
      str_setting (''EGTS_RABBITMQ_VHOST'' @ suffix ident) (\<lambda>v c. c\<lparr>RabbitVhost := v\<rparr>),
      str_setting (''EGTS_RABBITMQ_QUEUE_NAME'' @ suffix ident) (\<lambda>v c. c\<lparr>RabbitQueueName := v\<rparr>),
      str_setting (''EGTS_RABBITMQ_QUEUE_TYPE'' @ suffix ident) (\<lambda>v c. c\<lparr>RabbitQueueType := v\<rparr>),
      int_setting (''EGTS_RABBITMQ_CONNECT_TIMEOUT_SECONDS'' @ suffix ident) (\<lambda>v c. c\<lparr>RabbitConnectTimeoutSeconds := v\<rparr>),
      int_setting (''EGTS_RABBITMQ_PUBLISH_TIMEOUT_SECONDS'' @ suffix ident) (\<lambda>v c. c\<lparr>RabbitPublishTimeoutSeconds := v\<rparr>)]"

definition valkey_settings :: "string \<Rightarrow> ValkeyDestinationConf setting list" where
  "valkey_settings ident =
     [bool_setting (''EGTS_VALKEY_ENABLED'' @ suffix ident) (\<lambda>v c. c\<lparr>ValkeyEnabled := v\<rparr>),
      str_setting (''EGTS_VALKEY_HOST'' @ suffix ident) (\<lambda>v c. c\<lparr>ValkeyHost := v\<rparr>),
      int_setting (''EGTS_VALKEY_PORT'' @ suffix ident) (\<lambda>v c. c\<lparr>ValkeyPort := v\<rparr>),
      str_setting (''EGTS_VALKEY_USERNAME'' @ suffix ident) (\<lambda>v c. c\<lparr>ValkeyUserName := v\<rparr>),
      str_setting (''EGTS_VALKEY_PASSWORD'' @ suffix ident) (\<lambda>v c. c\<lparr>ValkeyPassword := v\<rparr>),
      int_setting (''EGTS_VALKEY_DATABASE'' @ suffix ident) (\<lambda>v c. c\<lparr>ValkeyDatabase := v\<rparr>),
      str_setting (''EGTS_VALKEY_STREAM_NAME'' @ suffix ident) (\<lambda>v c. c\<lparr>ValkeyStreamName := v\<rparr>),
      int_setting (''EGTS_VALKEY_CONNECT_TIMEOUT_SECONDS'' @ suffix ident) (\<lambda>v c. c\<lparr>ValkeyConnectTimeoutSeconds := v\<rparr>),
      int_setting (''EGTS_VALKEY_WRITE_TIMEOUT_SECONDS'' @ suffix ident) (\<lambda>v c. c\<lparr>ValkeyWriteTimeoutSeconds := v\<rparr>)]"

section \<open>Lists of destinations\<close>

definition env_ids :: "env \<Rightarrow> string \<Rightarrow> string list" where
  "env_ids env key =
     (case LookupEnv env key of
        None \<Rightarrow> []
      | Some ids \<Rightarrow> if ids = [] then [] else map TrimSpace (Split (CHR '','') ids))"

fun env_destinations :: "env \<Rightarrow> (string \<Rightarrow> 'c setting list) \<Rightarrow> (string \<Rightarrow> 'c) \<Rightarrow> string list \<Rightarrow> ('c list) result" where
  "env_destinations env settings dflt [] = Inr []"
| "env_destinations env settings dflt (i # is) =
     bindR (apply_settings env (settings i) (dflt i)) (\<lambda>c.
     bindR (env_destinations env settings dflt is) (\<lambda>cs. Inr (c # cs)))"

text \<open>A variable with the prefix that no destination of the list knows is refused.\<close>

definition prepare_destinations :: "env \<Rightarrow> string \<Rightarrow> string \<Rightarrow> (string \<Rightarrow> 'c setting list) \<Rightarrow> (string \<Rightarrow> 'c) \<Rightarrow> ('c list) result" where
  "prepare_destinations env prefix msg settings dflt =
     (let ids = env_ids env (prefix @ ''IDS'');
          known = (prefix @ ''IDS'') # concat (map (\<lambda>i. map fst (settings i)) ids) in
      bindR (env_destinations env settings dflt ids) (\<lambda>cs.
      if list_ex (\<lambda>key. starts_with prefix key \<and> key \<notin> set known) (map fst env)
      then Inl (Errorf msg) else Inr cs))"

definition prepareRelayEnv :: "env \<Rightarrow> (EGTSDestinationConf list) result" where
  "prepareRelayEnv env = prepare_destinations env ''EGTS_RELAY_''
     ''Unknown relay variable %s; use EGTS_RELAY_IDS and a destination ID suffix''
     relay_settings (\<lambda>i. DefaultEGTSDestination\<lparr>EgtsID := i\<rparr>)"

definition prepareRabbitMQEnvConfiguration :: "env \<Rightarrow> (RabbitMQDestinationConf list) result" where
  "prepareRabbitMQEnvConfiguration env = prepare_destinations env ''EGTS_RABBITMQ_''
     ''Unknown RabbitMQ variable %s; use EGTS_RABBITMQ_IDS and a destination ID suffix''
     rabbitmq_settings (\<lambda>i. DefaultRabbitMQDestination\<lparr>RabbitID := i\<rparr>)"

definition prepareValkeyEnvConfiguration :: "env \<Rightarrow> (ValkeyDestinationConf list) result" where
  "prepareValkeyEnvConfiguration env = prepare_destinations env ''EGTS_VALKEY_''
     ''Unknown Valkey variable %s; use EGTS_VALKEY_IDS and a destination ID suffix''
     valkey_settings (\<lambda>i. DefaultValkeyDestination\<lparr>ValkeyID := i\<rparr>)"

definition PrepareEnvConfiguration :: "(Configuration \<Rightarrow> goerr option) \<Rightarrow> env \<Rightarrow> Configuration result" where
  "PrepareEnvConfiguration validate_outputs env =
     bindR (apply_settings env server_settings DefaultConfiguration) (\<lambda>c.
     bindR (prepareRelayEnv env) (\<lambda>relays.
     bindR (prepareRabbitMQEnvConfiguration env) (\<lambda>rabbits.
     bindR (prepareValkeyEnvConfiguration env) (\<lambda>valkeys.
     let c = upd_dests (\<lambda>d. d\<lparr>DestEGTS := relays, DestRabbitMQ := rabbits, DestValkey := valkeys\<rparr>) c in
     case Validate validate_outputs c of Some e \<Rightarrow> Inl e | None \<Rightarrow> Inr c))))"

end
