(* ===== verification/Env_Properties.thy ===== *)
theory Env_Properties
  imports Env_Config
begin

text \<open>
  The property of the configuration from the environment: which environments are accepted, and the
  configuration each of them gives, field by field. The names of the variables and the defaults
  are written down here once more, from \<open>.env.example\<close> and the documentation, apart from the tables
  the program is modelled with.
\<close>

section \<open>Variables\<close>

definition env_string :: "env \<Rightarrow> string \<Rightarrow> string \<Rightarrow> string" where
  "env_string env key dflt = (case LookupEnv env key of None \<Rightarrow> dflt | Some v \<Rightarrow> v)"

definition int_value :: "env \<Rightarrow> string \<Rightarrow> int option" where
  "int_value env key = (case LookupEnv env key of None \<Rightarrow> None | Some v \<Rightarrow> (case Atoi v of Inl _ \<Rightarrow> None | Inr n \<Rightarrow> Some n))"

definition bool_value :: "env \<Rightarrow> string \<Rightarrow> bool option" where
  "bool_value env key = (case LookupEnv env key of None \<Rightarrow> None | Some v \<Rightarrow> (case ParseBool v of Inl _ \<Rightarrow> None | Inr b \<Rightarrow> Some b))"

definition env_int :: "env \<Rightarrow> string \<Rightarrow> int \<Rightarrow> int" where
  "env_int env key dflt = (case int_value env key of None \<Rightarrow> dflt | Some n \<Rightarrow> n)"

definition env_bool :: "env \<Rightarrow> string \<Rightarrow> bool \<Rightarrow> bool" where
  "env_bool env key dflt = (case bool_value env key of None \<Rightarrow> dflt | Some b \<Rightarrow> b)"

text \<open>A variable that is set has a value that can be read.\<close>

definition reads_int :: "env \<Rightarrow> string \<Rightarrow> bool" where
  "reads_int env key \<longleftrightarrow> LookupEnv env key = None \<or> int_value env key \<noteq> None"

definition reads_bool :: "env \<Rightarrow> string \<Rightarrow> bool" where
  "reads_bool env key \<longleftrightarrow> LookupEnv env key = None \<or> bool_value env key \<noteq> None"

section \<open>What an environment says\<close>

definition server_readable :: "env \<Rightarrow> bool" where
  "server_readable env \<longleftrightarrow>
     list_all (reads_int env)
       [''EGTS_SERVER_PORT'', ''EGTS_QUEUE_CAPACITY'', ''EGTS_DUMP_AFTER_SECONDS'', ''EGTS_LOG_MAX_FILE_SIZE_BYTES'',
        ''EGTS_LOG_MAX_BACKUPS'', ''EGTS_LOG_MAX_AGE_DAYS'', ''EGTS_LOG_MAX_TOTAL_SIZE_BYTES'',
        ''EGTS_PACKETS_FILE_MAX_FILE_SIZE_BYTES'', ''EGTS_PACKETS_FILE_MAX_BACKUPS'', ''EGTS_PACKETS_FILE_MAX_AGE_DAYS'',
        ''EGTS_PACKETS_FILE_MAX_TOTAL_SIZE_BYTES''] \<and>
     list_all (reads_bool env) [''EGTS_AUTH_ENABLED'', ''EGTS_PACKETS_STDOUT'', ''EGTS_PACKETS_FILE_ENABLED'']"

definition relay_readable :: "env \<Rightarrow> string \<Rightarrow> bool" where
  "relay_readable env i \<longleftrightarrow>
     list_all (\<lambda>key. reads_int env (key @ ''_'' @ ToUpper i))
       [''EGTS_RELAY_PORT'', ''EGTS_RELAY_CONNECT_TIMEOUT_SECONDS'', ''EGTS_RELAY_ACK_TIMEOUT_SECONDS''] \<and>
     list_all (\<lambda>key. reads_bool env (key @ ''_'' @ ToUpper i)) [''EGTS_RELAY_ENABLED'', ''EGTS_RELAY_AUTH_ENABLED'']"

definition rabbitmq_readable :: "env \<Rightarrow> string \<Rightarrow> bool" where
  "rabbitmq_readable env i \<longleftrightarrow>
     list_all (\<lambda>key. reads_int env (key @ ''_'' @ ToUpper i))
       [''EGTS_RABBITMQ_PORT'', ''EGTS_RABBITMQ_CONNECT_TIMEOUT_SECONDS'', ''EGTS_RABBITMQ_PUBLISH_TIMEOUT_SECONDS''] \<and>
     reads_bool env (''EGTS_RABBITMQ_ENABLED'' @ ''_'' @ ToUpper i)"

definition valkey_readable :: "env \<Rightarrow> string \<Rightarrow> bool" where
  "valkey_readable env i \<longleftrightarrow>
     list_all (\<lambda>key. reads_int env (key @ ''_'' @ ToUpper i))
       [''EGTS_VALKEY_PORT'', ''EGTS_VALKEY_DATABASE'', ''EGTS_VALKEY_CONNECT_TIMEOUT_SECONDS'',
        ''EGTS_VALKEY_WRITE_TIMEOUT_SECONDS''] \<and>
     reads_bool env (''EGTS_VALKEY_ENABLED'' @ ''_'' @ ToUpper i)"

text \<open>The ids of the destinations: the fields of the list, without the space around them.\<close>

definition listed :: "env \<Rightarrow> string \<Rightarrow> string list" where
  "listed env key = (let ids = env_string env key [] in if ids = [] then [] else map TrimSpace (Split (CHR '','') ids))"

text \<open>Every variable with a prefix is the list of ids or one of the names, for an id of the list.\<close>

definition only_known :: "env \<Rightarrow> string \<Rightarrow> string list \<Rightarrow> bool" where
  "only_known env prefix names \<longleftrightarrow>
     list_all (\<lambda>key. starts_with prefix key \<longrightarrow> key = prefix @ ''IDS'' \<or>
       list_ex (\<lambda>i. list_ex (\<lambda>nm. key = prefix @ nm @ ''_'' @ ToUpper i) names) (listed env (prefix @ ''IDS''))) (map fst env)"

definition acceptable :: "env \<Rightarrow> bool" where
  "acceptable env \<longleftrightarrow> server_readable env \<and>
     list_all (relay_readable env) (listed env ''EGTS_RELAY_IDS'') \<and>
     list_all (rabbitmq_readable env) (listed env ''EGTS_RABBITMQ_IDS'') \<and>
     list_all (valkey_readable env) (listed env ''EGTS_VALKEY_IDS'') \<and>
     only_known env ''EGTS_RELAY_'' [''ENABLED'', ''HOST'', ''PORT'', ''CONNECT_TIMEOUT_SECONDS'', ''ACK_TIMEOUT_SECONDS'',
       ''AUTH_ENABLED'', ''AUTH_USERNAME'', ''AUTH_PASSWORD''] \<and>
     only_known env ''EGTS_RABBITMQ_'' [''ENABLED'', ''HOST'', ''PORT'', ''USERNAME'', ''PASSWORD'', ''VHOST'', ''QUEUE_NAME'',
       ''QUEUE_TYPE'', ''CONNECT_TIMEOUT_SECONDS'', ''PUBLISH_TIMEOUT_SECONDS''] \<and>
     only_known env ''EGTS_VALKEY_'' [''ENABLED'', ''HOST'', ''PORT'', ''USERNAME'', ''PASSWORD'', ''DATABASE'', ''STREAM_NAME'',
       ''CONNECT_TIMEOUT_SECONDS'', ''WRITE_TIMEOUT_SECONDS'']"

definition relay_of_env :: "env \<Rightarrow> string \<Rightarrow> EGTSDestinationConf" where
  "relay_of_env env i =
     \<lparr>EgtsID = i,
      EgtsEnabled = env_bool env (''EGTS_RELAY_ENABLED'' @ ''_'' @ ToUpper i) False,
      EgtsHost = env_string env (''EGTS_RELAY_HOST'' @ ''_'' @ ToUpper i) ''127.0.0.1'',
      EgtsPort = env_int env (''EGTS_RELAY_PORT'' @ ''_'' @ ToUpper i) 8082,
      EgtsConnectTimeoutSeconds = env_int env (''EGTS_RELAY_CONNECT_TIMEOUT_SECONDS'' @ ''_'' @ ToUpper i) 5,
      EgtsAckTimeoutSeconds = env_int env (''EGTS_RELAY_ACK_TIMEOUT_SECONDS'' @ ''_'' @ ToUpper i) 10,
      EgtsAuth =
        \<lparr>EgtsAuthEnabled = env_bool env (''EGTS_RELAY_AUTH_ENABLED'' @ ''_'' @ ToUpper i) False,
         EgtsAuthUserName = env_string env (''EGTS_RELAY_AUTH_USERNAME'' @ ''_'' @ ToUpper i) [],
         EgtsAuthPassword = env_string env (''EGTS_RELAY_AUTH_PASSWORD'' @ ''_'' @ ToUpper i) []\<rparr>\<rparr>"

definition rabbitmq_of_env :: "env \<Rightarrow> string \<Rightarrow> RabbitMQDestinationConf" where
  "rabbitmq_of_env env i =
     \<lparr>RabbitID = i,
      RabbitEnabled = env_bool env (''EGTS_RABBITMQ_ENABLED'' @ ''_'' @ ToUpper i) False,
      RabbitHost = env_string env (''EGTS_RABBITMQ_HOST'' @ ''_'' @ ToUpper i) ''127.0.0.1'',
      RabbitPort = env_int env (''EGTS_RABBITMQ_PORT'' @ ''_'' @ ToUpper i) 5672,
      RabbitUserName = env_string env (''EGTS_RABBITMQ_USERNAME'' @ ''_'' @ ToUpper i) [],
      RabbitPassword = env_string env (''EGTS_RABBITMQ_PASSWORD'' @ ''_'' @ ToUpper i) [],
      RabbitVhost = env_string env (''EGTS_RABBITMQ_VHOST'' @ ''_'' @ ToUpper i) ''/'',
      RabbitQueueName = env_string env (''EGTS_RABBITMQ_QUEUE_NAME'' @ ''_'' @ ToUpper i) ''egts.packets'',
      RabbitQueueType = env_string env (''EGTS_RABBITMQ_QUEUE_TYPE'' @ ''_'' @ ToUpper i) ''classic'',
      RabbitConnectTimeoutSeconds = env_int env (''EGTS_RABBITMQ_CONNECT_TIMEOUT_SECONDS'' @ ''_'' @ ToUpper i) 5,
      RabbitPublishTimeoutSeconds = env_int env (''EGTS_RABBITMQ_PUBLISH_TIMEOUT_SECONDS'' @ ''_'' @ ToUpper i) 10\<rparr>"

definition valkey_of_env :: "env \<Rightarrow> string \<Rightarrow> ValkeyDestinationConf" where
  "valkey_of_env env i =
     \<lparr>ValkeyID = i,
      ValkeyEnabled = env_bool env (''EGTS_VALKEY_ENABLED'' @ ''_'' @ ToUpper i) False,
      ValkeyHost = env_string env (''EGTS_VALKEY_HOST'' @ ''_'' @ ToUpper i) ''127.0.0.1'',
      ValkeyPort = env_int env (''EGTS_VALKEY_PORT'' @ ''_'' @ ToUpper i) 6379,
      ValkeyUserName = env_string env (''EGTS_VALKEY_USERNAME'' @ ''_'' @ ToUpper i) [],
      ValkeyPassword = env_string env (''EGTS_VALKEY_PASSWORD'' @ ''_'' @ ToUpper i) [],
      ValkeyDatabase = env_int env (''EGTS_VALKEY_DATABASE'' @ ''_'' @ ToUpper i) 0,
      ValkeyStreamName = env_string env (''EGTS_VALKEY_STREAM_NAME'' @ ''_'' @ ToUpper i) ''egts.packets'',
      ValkeyConnectTimeoutSeconds = env_int env (''EGTS_VALKEY_CONNECT_TIMEOUT_SECONDS'' @ ''_'' @ ToUpper i) 5,
      ValkeyWriteTimeoutSeconds = env_int env (''EGTS_VALKEY_WRITE_TIMEOUT_SECONDS'' @ ''_'' @ ToUpper i) 10\<rparr>"

definition configuration_of_env :: "env \<Rightarrow> Configuration" where
  "configuration_of_env env =
     \<lparr>ServerCfg = \<lparr>ServerHost = env_string env ''EGTS_SERVER_HOST'' ''0.0.0.0'', ServerPort = env_int env ''EGTS_SERVER_PORT'' 8081\<rparr>,
      AuthCfg = \<lparr>AuthEnabled = env_bool env ''EGTS_AUTH_ENABLED'' False, AuthPassword = env_string env ''EGTS_AUTH_PASSWORD'' []\<rparr>,
      DeliveryCfg = \<lparr>AckMode = env_string env ''EGTS_ACK_MODE'' ''queued'',
        QueueCapacity = env_int env ''EGTS_QUEUE_CAPACITY'' 1024,
        DumpAfterSeconds = env_int env ''EGTS_DUMP_AFTER_SECONDS'' 60,
        DumpDirectory = env_string env ''EGTS_DUMP_DIRECTORY'' ''./data/queue''\<rparr>,
      LogsCfg = \<lparr>LogsOutput = env_string env ''EGTS_LOG_OUTPUT'' ''stderr'',
        LogsDirectory = env_string env ''EGTS_LOG_DIRECTORY'' ''./data/logs'',
        LogsRotation = \<lparr>MaxFileSizeBytes = env_int env ''EGTS_LOG_MAX_FILE_SIZE_BYTES'' 10485760,
          MaxBackups = env_int env ''EGTS_LOG_MAX_BACKUPS'' 5,
          MaxAgeDays = env_int env ''EGTS_LOG_MAX_AGE_DAYS'' 7,
          MaxTotalSizeBytes = env_int env ''EGTS_LOG_MAX_TOTAL_SIZE_BYTES'' 62914560\<rparr>\<rparr>,
      DestinationsCfg = \<lparr>DestStdout = env_bool env ''EGTS_PACKETS_STDOUT'' True,
        DestFile = \<lparr>FileEnabled = env_bool env ''EGTS_PACKETS_FILE_ENABLED'' False,
          FileDirectory = env_string env ''EGTS_PACKETS_FILE_DIRECTORY'' ''./data/packets'',
          FileRotation = \<lparr>MaxFileSizeBytes = env_int env ''EGTS_PACKETS_FILE_MAX_FILE_SIZE_BYTES'' 10485760,
            MaxBackups = env_int env ''EGTS_PACKETS_FILE_MAX_BACKUPS'' 5,
            MaxAgeDays = env_int env ''EGTS_PACKETS_FILE_MAX_AGE_DAYS'' 7,
            MaxTotalSizeBytes = env_int env ''EGTS_PACKETS_FILE_MAX_TOTAL_SIZE_BYTES'' 62914560\<rparr>\<rparr>,
        DestEGTS = map (relay_of_env env) (listed env ''EGTS_RELAY_IDS''),
        DestRabbitMQ = map (rabbitmq_of_env env) (listed env ''EGTS_RABBITMQ_IDS''),
        DestValkey = map (valkey_of_env env) (listed env ''EGTS_VALKEY_IDS'')\<rparr>\<rparr>"

section \<open>One setting\<close>

lemma apply_str: "apply_settings env (str_setting key u # ss) c =
    apply_settings env ss (case LookupEnv env key of None \<Rightarrow> c | Some v \<Rightarrow> u v c)"
  by (simp add: str_setting_def split: option.split)

lemma apply_int: "apply_settings env (int_setting key u # ss) c = Inr d \<longleftrightarrow>
    reads_int env key \<and> apply_settings env ss (case int_value env key of None \<Rightarrow> c | Some n \<Rightarrow> u n c) = Inr d"
  by (auto simp: int_setting_def reads_int_def int_value_def wrapf_def split: option.splits sum.splits)

lemma apply_bool: "apply_settings env (bool_setting key u # ss) c = Inr d \<longleftrightarrow>
    reads_bool env key \<and> apply_settings env ss (case bool_value env key of None \<Rightarrow> c | Some b \<Rightarrow> u b c) = Inr d"
  by (auto simp: bool_setting_def reads_bool_def bool_value_def wrapf_def split: option.splits sum.splits)

lemma apply_none: "apply_settings env [] c = Inr d \<longleftrightarrow> d = c"
  by auto

lemmas apply_rows = apply_str apply_int apply_bool apply_none

lemma setting_names [simp]: "fst (str_setting key us) = key" "fst (int_setting key ui) = key" "fst (bool_setting key ub) = key"
  by (simp_all add: str_setting_def int_setting_def bool_setting_def)

text \<open>A choice between two records is the record of the choices.\<close>

lemma either_same: "(case x of None \<Rightarrow> a | Some v \<Rightarrow> a) = a"
  by (simp split: option.split)

lemma either_ServerConf:
  "(case x of None \<Rightarrow> \<lparr>ServerHost = a0, ServerPort = a1\<rparr>
     | Some v \<Rightarrow> \<lparr>ServerHost = f0 v, ServerPort = f1 v\<rparr>) =
     \<lparr>ServerHost = case_option a0 f0 x, ServerPort = case_option a1 f1 x\<rparr>"
  by (simp split: option.split)

lemma either_AuthConf:
  "(case x of None \<Rightarrow> \<lparr>AuthEnabled = a0, AuthPassword = a1\<rparr>
     | Some v \<Rightarrow> \<lparr>AuthEnabled = f0 v, AuthPassword = f1 v\<rparr>) =
     \<lparr>AuthEnabled = case_option a0 f0 x, AuthPassword = case_option a1 f1 x\<rparr>"
  by (simp split: option.split)

lemma either_DeliveryConf:
  "(case x of None \<Rightarrow> \<lparr>AckMode = a0, QueueCapacity = a1, DumpAfterSeconds = a2, DumpDirectory = a3\<rparr>
     | Some v \<Rightarrow> \<lparr>AckMode = f0 v, QueueCapacity = f1 v, DumpAfterSeconds = f2 v, DumpDirectory = f3 v\<rparr>) =
     \<lparr>AckMode = case_option a0 f0 x, QueueCapacity = case_option a1 f1 x,
       DumpAfterSeconds = case_option a2 f2 x, DumpDirectory = case_option a3 f3 x\<rparr>"
  by (simp split: option.split)

lemma either_RotationConf:
  "(case x of None \<Rightarrow> \<lparr>MaxFileSizeBytes = a0, MaxBackups = a1, MaxAgeDays = a2, MaxTotalSizeBytes = a3\<rparr>
     | Some v \<Rightarrow> \<lparr>MaxFileSizeBytes = f0 v, MaxBackups = f1 v, MaxAgeDays = f2 v, MaxTotalSizeBytes = f3 v\<rparr>) =
     \<lparr>MaxFileSizeBytes = case_option a0 f0 x, MaxBackups = case_option a1 f1 x,
       MaxAgeDays = case_option a2 f2 x, MaxTotalSizeBytes = case_option a3 f3 x\<rparr>"
  by (simp split: option.split)

lemma either_LogsConf:
  "(case x of None \<Rightarrow> \<lparr>LogsOutput = a0, LogsDirectory = a1, LogsRotation = a2\<rparr>
     | Some v \<Rightarrow> \<lparr>LogsOutput = f0 v, LogsDirectory = f1 v, LogsRotation = f2 v\<rparr>) =
     \<lparr>LogsOutput = case_option a0 f0 x, LogsDirectory = case_option a1 f1 x, LogsRotation = case_option a2 f2 x\<rparr>"
  by (simp split: option.split)

lemma either_EGTSAuthConf:
  "(case x of None \<Rightarrow> \<lparr>EgtsAuthEnabled = a0, EgtsAuthUserName = a1, EgtsAuthPassword = a2\<rparr>
     | Some v \<Rightarrow> \<lparr>EgtsAuthEnabled = f0 v, EgtsAuthUserName = f1 v, EgtsAuthPassword = f2 v\<rparr>) =
     \<lparr>EgtsAuthEnabled = case_option a0 f0 x, EgtsAuthUserName = case_option a1 f1 x,
       EgtsAuthPassword = case_option a2 f2 x\<rparr>"
  by (simp split: option.split)

lemma either_EGTSDestinationConf:
  "(case x of None \<Rightarrow> \<lparr>EgtsID = a0, EgtsEnabled = a1, EgtsHost = a2, EgtsPort = a3, EgtsConnectTimeoutSeconds = a4,
       EgtsAckTimeoutSeconds = a5, EgtsAuth = a6\<rparr>
     | Some v \<Rightarrow> \<lparr>EgtsID = f0 v, EgtsEnabled = f1 v, EgtsHost = f2 v, EgtsPort = f3 v, EgtsConnectTimeoutSeconds = f4 v,
       EgtsAckTimeoutSeconds = f5 v, EgtsAuth = f6 v\<rparr>) =
     \<lparr>EgtsID = case_option a0 f0 x, EgtsEnabled = case_option a1 f1 x, EgtsHost = case_option a2 f2 x,
       EgtsPort = case_option a3 f3 x, EgtsConnectTimeoutSeconds = case_option a4 f4 x,
       EgtsAckTimeoutSeconds = case_option a5 f5 x, EgtsAuth = case_option a6 f6 x\<rparr>"
  by (simp split: option.split)

lemma either_RabbitMQDestinationConf:
  "(case x of None \<Rightarrow> \<lparr>RabbitID = a0, RabbitEnabled = a1, RabbitHost = a2, RabbitPort = a3, RabbitUserName = a4,
       RabbitPassword = a5, RabbitVhost = a6, RabbitQueueName = a7, RabbitQueueType = a8,
       RabbitConnectTimeoutSeconds = a9, RabbitPublishTimeoutSeconds = a10\<rparr>
     | Some v \<Rightarrow> \<lparr>RabbitID = f0 v, RabbitEnabled = f1 v, RabbitHost = f2 v, RabbitPort = f3 v, RabbitUserName = f4 v,
       RabbitPassword = f5 v, RabbitVhost = f6 v, RabbitQueueName = f7 v, RabbitQueueType = f8 v,
       RabbitConnectTimeoutSeconds = f9 v, RabbitPublishTimeoutSeconds = f10 v\<rparr>) =
     \<lparr>RabbitID = case_option a0 f0 x, RabbitEnabled = case_option a1 f1 x, RabbitHost = case_option a2 f2 x,
       RabbitPort = case_option a3 f3 x, RabbitUserName = case_option a4 f4 x,
       RabbitPassword = case_option a5 f5 x, RabbitVhost = case_option a6 f6 x,
       RabbitQueueName = case_option a7 f7 x, RabbitQueueType = case_option a8 f8 x,
       RabbitConnectTimeoutSeconds = case_option a9 f9 x, RabbitPublishTimeoutSeconds = case_option a10 f10 x\<rparr>"
  by (simp split: option.split)

lemma either_ValkeyDestinationConf:
  "(case x of None \<Rightarrow> \<lparr>ValkeyID = a0, ValkeyEnabled = a1, ValkeyHost = a2, ValkeyPort = a3, ValkeyUserName = a4,
       ValkeyPassword = a5, ValkeyDatabase = a6, ValkeyStreamName = a7, ValkeyConnectTimeoutSeconds = a8,
       ValkeyWriteTimeoutSeconds = a9\<rparr>
     | Some v \<Rightarrow> \<lparr>ValkeyID = f0 v, ValkeyEnabled = f1 v, ValkeyHost = f2 v, ValkeyPort = f3 v, ValkeyUserName = f4 v,
       ValkeyPassword = f5 v, ValkeyDatabase = f6 v, ValkeyStreamName = f7 v,
       ValkeyConnectTimeoutSeconds = f8 v, ValkeyWriteTimeoutSeconds = f9 v\<rparr>) =
     \<lparr>ValkeyID = case_option a0 f0 x, ValkeyEnabled = case_option a1 f1 x, ValkeyHost = case_option a2 f2 x,
       ValkeyPort = case_option a3 f3 x, ValkeyUserName = case_option a4 f4 x,
       ValkeyPassword = case_option a5 f5 x, ValkeyDatabase = case_option a6 f6 x,
       ValkeyStreamName = case_option a7 f7 x, ValkeyConnectTimeoutSeconds = case_option a8 f8 x,
       ValkeyWriteTimeoutSeconds = case_option a9 f9 x\<rparr>"
  by (simp split: option.split)

lemma either_FileDestinationConf:
  "(case x of None \<Rightarrow> \<lparr>FileEnabled = a0, FileDirectory = a1, FileRotation = a2\<rparr>
     | Some v \<Rightarrow> \<lparr>FileEnabled = f0 v, FileDirectory = f1 v, FileRotation = f2 v\<rparr>) =
     \<lparr>FileEnabled = case_option a0 f0 x, FileDirectory = case_option a1 f1 x,
       FileRotation = case_option a2 f2 x\<rparr>"
  by (simp split: option.split)

lemma either_DestinationsConf:
  "(case x of None \<Rightarrow> \<lparr>DestStdout = a0, DestFile = a1, DestEGTS = a2, DestRabbitMQ = a3, DestValkey = a4\<rparr>
     | Some v \<Rightarrow> \<lparr>DestStdout = f0 v, DestFile = f1 v, DestEGTS = f2 v, DestRabbitMQ = f3 v, DestValkey = f4 v\<rparr>) =
     \<lparr>DestStdout = case_option a0 f0 x, DestFile = case_option a1 f1 x, DestEGTS = case_option a2 f2 x,
       DestRabbitMQ = case_option a3 f3 x, DestValkey = case_option a4 f4 x\<rparr>"
  by (simp split: option.split)

lemma either_Configuration:
  "(case x of None \<Rightarrow> \<lparr>ServerCfg = a0, AuthCfg = a1, DeliveryCfg = a2, LogsCfg = a3, DestinationsCfg = a4\<rparr>
     | Some v \<Rightarrow> \<lparr>ServerCfg = f0 v, AuthCfg = f1 v, DeliveryCfg = f2 v, LogsCfg = f3 v, DestinationsCfg = f4 v\<rparr>) =
     \<lparr>ServerCfg = case_option a0 f0 x, AuthCfg = case_option a1 f1 x, DeliveryCfg = case_option a2 f2 x,
       LogsCfg = case_option a3 f3 x, DestinationsCfg = case_option a4 f4 x\<rparr>"
  by (simp split: option.split)

lemmas either = either_same either_ServerConf either_AuthConf either_DeliveryConf either_RotationConf
  either_LogsConf either_EGTSAuthConf either_EGTSDestinationConf either_RabbitMQDestinationConf
  either_ValkeyDestinationConf either_FileDestinationConf either_DestinationsConf either_Configuration

section \<open>The tables\<close>

lemmas env_values = env_string_def env_int_def env_bool_def

lemma server_settings_Inr:
  "apply_settings env server_settings DefaultConfiguration = Inr c \<longleftrightarrow> server_readable env \<and>
     c = (configuration_of_env env)\<lparr>DestinationsCfg := (DestinationsCfg (configuration_of_env env))
       \<lparr>DestEGTS := [], DestRabbitMQ := [], DestValkey := []\<rparr>\<rparr>"
  unfolding server_settings_def DefaultConfiguration_def default_rotation_def server_readable_def
  by (simp add: apply_rows either cong del: option.case_cong_weak) (auto simp: configuration_of_env_def env_values)

lemma relay_settings_Inr:
  "apply_settings env (relay_settings i) (DefaultEGTSDestination\<lparr>EgtsID := i\<rparr>) = Inr c \<longleftrightarrow>
     relay_readable env i \<and> c = relay_of_env env i"
  unfolding relay_settings_def DefaultEGTSDestination_def relay_readable_def suffix_def
  by (simp add: apply_rows either cong del: option.case_cong_weak) (auto simp: relay_of_env_def env_values)

lemma rabbitmq_settings_Inr:
  "apply_settings env (rabbitmq_settings i) (DefaultRabbitMQDestination\<lparr>RabbitID := i\<rparr>) = Inr c \<longleftrightarrow>
     rabbitmq_readable env i \<and> c = rabbitmq_of_env env i"
  unfolding rabbitmq_settings_def DefaultRabbitMQDestination_def rabbitmq_readable_def suffix_def
  by (simp add: apply_rows either cong del: option.case_cong_weak) (auto simp: rabbitmq_of_env_def env_values)

lemma valkey_settings_Inr:
  "apply_settings env (valkey_settings i) (DefaultValkeyDestination\<lparr>ValkeyID := i\<rparr>) = Inr c \<longleftrightarrow>
     valkey_readable env i \<and> c = valkey_of_env env i"
  unfolding valkey_settings_def DefaultValkeyDestination_def valkey_readable_def suffix_def
  by (simp add: apply_rows either cong del: option.case_cong_weak) (auto simp: valkey_of_env_def env_values)

section \<open>Lists of destinations\<close>

lemma listed_ids: "env_ids env key = listed env key"
  by (simp add: env_ids_def listed_def env_string_def Let_def split: option.split)

lemma env_destinations_Inr:
  assumes "\<And>i c. apply_settings env (settings i) (dflt i) = Inr c \<longleftrightarrow> reads i \<and> c = of_env i"
  shows "env_destinations env settings dflt is = Inr cs \<longleftrightarrow> list_all reads is \<and> cs = map of_env is"
  by (induction "is" arbitrary: cs) (auto simp: assms)

lemma prepare_destinations_Inr:
  assumes "\<And>i c. apply_settings env (settings i) (dflt i) = Inr c \<longleftrightarrow> reads i \<and> c = of_env i"
    and "\<And>i. map fst (settings i) = map (\<lambda>nm. prefix @ nm @ ''_'' @ ToUpper i) names"
  shows "prepare_destinations env prefix msg settings dflt = Inr cs \<longleftrightarrow>
    list_all reads (listed env (prefix @ ''IDS'')) \<and> cs = map of_env (listed env (prefix @ ''IDS'')) \<and> only_known env prefix names"
proof -
  have "list_ex (\<lambda>key. starts_with prefix key \<and>
      key \<notin> set ((prefix @ ''IDS'') # concat (map (\<lambda>i. map fst (settings i)) (listed env (prefix @ ''IDS''))))) (map fst env)
    \<longleftrightarrow> \<not> only_known env prefix names"
    by (auto simp: only_known_def list_all_iff list_ex_iff assms(2))
  then show ?thesis
    by (simp add: prepare_destinations_def Let_def listed_ids env_destinations_Inr [OF assms(1)] bindR_eq_Inr
        cong: conj_cong) blast
qed

lemma prepareRelayEnv_Inr:
  "prepareRelayEnv env = Inr cs \<longleftrightarrow> list_all (relay_readable env) (listed env ''EGTS_RELAY_IDS'') \<and>
     cs = map (relay_of_env env) (listed env ''EGTS_RELAY_IDS'') \<and>
     only_known env ''EGTS_RELAY_'' [''ENABLED'', ''HOST'', ''PORT'', ''CONNECT_TIMEOUT_SECONDS'', ''ACK_TIMEOUT_SECONDS'',
       ''AUTH_ENABLED'', ''AUTH_USERNAME'', ''AUTH_PASSWORD'']"
  unfolding prepareRelayEnv_def
  by (subst prepare_destinations_Inr [OF relay_settings_Inr]) (simp_all add: relay_settings_def suffix_def)

lemma prepareRabbitMQEnv_Inr:
  "prepareRabbitMQEnvConfiguration env = Inr cs \<longleftrightarrow> list_all (rabbitmq_readable env) (listed env ''EGTS_RABBITMQ_IDS'') \<and>
     cs = map (rabbitmq_of_env env) (listed env ''EGTS_RABBITMQ_IDS'') \<and>
     only_known env ''EGTS_RABBITMQ_'' [''ENABLED'', ''HOST'', ''PORT'', ''USERNAME'', ''PASSWORD'', ''VHOST'', ''QUEUE_NAME'',
       ''QUEUE_TYPE'', ''CONNECT_TIMEOUT_SECONDS'', ''PUBLISH_TIMEOUT_SECONDS'']"
  unfolding prepareRabbitMQEnvConfiguration_def
  by (subst prepare_destinations_Inr [OF rabbitmq_settings_Inr]) (simp_all add: rabbitmq_settings_def suffix_def)

lemma prepareValkeyEnv_Inr:
  "prepareValkeyEnvConfiguration env = Inr cs \<longleftrightarrow> list_all (valkey_readable env) (listed env ''EGTS_VALKEY_IDS'') \<and>
     cs = map (valkey_of_env env) (listed env ''EGTS_VALKEY_IDS'') \<and>
     only_known env ''EGTS_VALKEY_'' [''ENABLED'', ''HOST'', ''PORT'', ''USERNAME'', ''PASSWORD'', ''DATABASE'', ''STREAM_NAME'',
       ''CONNECT_TIMEOUT_SECONDS'', ''WRITE_TIMEOUT_SECONDS'']"
  unfolding prepareValkeyEnvConfiguration_def
  by (subst prepare_destinations_Inr [OF valkey_settings_Inr]) (simp_all add: valkey_settings_def suffix_def)

section \<open>The property\<close>

text \<open>
  C38. An environment is accepted exactly when every number and flag it sets can be read, no variable
  whose name starts like those of a relay, a RabbitMQ or a Valkey destination is unknown, and the
  configuration it says is valid; then it gives this configuration: each field has the value of its
  variable, or its default when the variable is not set, and each id of a list has its destination.
\<close>

theorem environment_in_effect:
  "PrepareEnvConfiguration out env = Inr cfg \<longleftrightarrow>
     acceptable env \<and> cfg = configuration_of_env env \<and> valid_configuration cfg \<and> out cfg = None"
proof -
  have "upd_dests (\<lambda>d. d\<lparr>DestEGTS := map (relay_of_env env) (listed env ''EGTS_RELAY_IDS''),
        DestRabbitMQ := map (rabbitmq_of_env env) (listed env ''EGTS_RABBITMQ_IDS''),
        DestValkey := map (valkey_of_env env) (listed env ''EGTS_VALKEY_IDS'')\<rparr>) (configuration_of_env env) =
      configuration_of_env env"
    by (simp add: configuration_of_env_def)
  then have "PrepareEnvConfiguration out env = Inr cfg \<longleftrightarrow>
      acceptable env \<and> Validate out (configuration_of_env env) = None \<and> cfg = configuration_of_env env"
    unfolding PrepareEnvConfiguration_def bindR_eq_Inr server_settings_Inr prepareRelayEnv_Inr prepareRabbitMQEnv_Inr
      prepareValkeyEnv_Inr Let_def acceptable_def
    by (auto split: option.splits)
  then show ?thesis by (auto simp: Validate_None)
qed

text \<open>The defaults are valid: what begins and ends with a printable character is not blank.\<close>

lemma trim_left_plain: "s \<noteq> [] \<Longrightarrow> list_all (\<lambda>r. hd r \<noteq> hd s) runes \<Longrightarrow> trim_left runes s = s"
proof -
  assume s: "s \<noteq> []" "list_all (\<lambda>r. hd r \<noteq> hd s) runes"
  have "find (\<lambda>r. r \<noteq> [] \<and> starts_with r s) runes = None"
  proof (clarsimp simp: find_None_iff)
    fix r assume r: "r \<in> set runes" "r \<noteq> []" "starts_with r s"
    then have "hd r = hd (take (length r) s)" by (simp add: starts_with_def)
    with r(2) have "hd r = hd s" by simp
    with r(1) s(2) show False by (simp add: list_all_iff)
  qed
  then show ?thesis by (subst trim_left.simps) simp
qed

lemma printable_not_space:
  assumes "c \<in> set ''./0123456789abcdefghijklmnopqrstuvwxyz''"
  shows "list_all (\<lambda>r. hd r \<noteq> c \<and> last r \<noteq> c) space_runes"
proof -
  have "list_all (\<lambda>c. list_all (\<lambda>r. hd r \<noteq> c \<and> last r \<noteq> c) space_runes) ''./0123456789abcdefghijklmnopqrstuvwxyz''"
    by code_simp
  then show ?thesis using assms unfolding list_all_iff by (rule bspec)
qed

lemma printable_not_blank:
  assumes "s \<noteq> []" "hd s \<in> set ''./0123456789abcdefghijklmnopqrstuvwxyz''" "last s \<in> set ''./0123456789abcdefghijklmnopqrstuvwxyz''"
  shows "\<not> blank s"
proof -
  have "trim_left space_runes s = s"
    by (rule trim_left_plain) (use assms(1) printable_not_space [OF assms(2)] in \<open>auto simp: list_all_iff\<close>)
  moreover have "trim_left (map rev space_runes) (rev s) = rev s"
    by (rule trim_left_plain)
      (use assms(1) printable_not_space [OF assms(3)] in \<open>auto simp: list_all_iff hd_rev\<close>)
  ultimately show ?thesis using assms(1) by (simp add: blank_def TrimSpace_def)
qed

lemma default_valid: "valid_configuration DefaultConfiguration"
  using printable_not_blank [of "''0.0.0.0''"] printable_not_blank [of "''./data/queue''"]
  by (simp add: valid_configuration_def valid_destinations_def DefaultConfiguration_def)

text \<open>One variable that is set: the port.\<close>

lemma Atoi_4000: "Atoi ''4000'' = Inr 4000"
proof -
  have "digit_val CHR ''4'' = Some 4" "digit_val CHR ''0'' = Some 0" by code_simp+
  then show ?thesis by (simp add: Atoi_def ParseUint_def)
qed

theorem environment_in_effect_witness:
  "PrepareEnvConfiguration (\<lambda>_. None) [(''EGTS_SERVER_PORT'', ''4000'')] =
     Inr (upd_server (\<lambda>s. s\<lparr>ServerPort := 4000\<rparr>) DefaultConfiguration)"
proof -
  let ?env = "[(''EGTS_SERVER_PORT'', ''4000'')]" and ?cfg = "upd_server (\<lambda>s. s\<lparr>ServerPort := 4000\<rparr>) DefaultConfiguration"
  have "int_value ?env ''EGTS_SERVER_PORT'' = Some 4000" by (simp add: int_value_def LookupEnv_def Atoi_4000)
  moreover have "LookupEnv ?env key = None" if "key \<noteq> ''EGTS_SERVER_PORT''" for key
    using that by (simp add: LookupEnv_def)
  ultimately have env: "int_value ?env ''EGTS_SERVER_PORT'' = Some 4000" "\<And>key. key \<noteq> ''EGTS_SERVER_PORT'' \<Longrightarrow> LookupEnv ?env key = None"
    by blast+
  have "listed ?env ''EGTS_RELAY_IDS'' = []" "listed ?env ''EGTS_RABBITMQ_IDS'' = []" "listed ?env ''EGTS_VALKEY_IDS'' = []"
    by (simp_all add: listed_def env_string_def env(2) Let_def)
  note env = env this
  have "acceptable ?env"
    using env by (simp add: acceptable_def server_readable_def reads_int_def reads_bool_def only_known_def starts_with_def)
  moreover have "configuration_of_env ?env = ?cfg"
    using env by (simp add: configuration_of_env_def DefaultConfiguration_def default_rotation_def env_string_def env_int_def
        env_bool_def int_value_def bool_value_def)
  moreover have "valid_configuration ?cfg"
    using default_valid by (simp add: valid_configuration_def DefaultConfiguration_def)
  ultimately show ?thesis by (simp add: environment_in_effect)
qed

end
