(* ===== verification/Go_Time.thy ===== *)
theory Go_Time
  imports Go_Prelude
begin

text \<open>
  What the gateway uses of Go's package \<open>time\<close>: a UTC time as the number of nanoseconds since the
  start of the year 0, its text in the layout of the archives' names, and the parser of that layout
  with the texts it accepts. The calendar is the proleptic Gregorian one, as in Go.
\<close>

section \<open>The calendar\<close>

definition leap :: "nat \<Rightarrow> bool" where
  "leap y \<longleftrightarrow> y mod 4 = 0 \<and> (y mod 100 \<noteq> 0 \<or> y mod 400 = 0)"

definition month_days :: "nat \<Rightarrow> nat list" where
  "month_days y = [31, if leap y then 29 else 28, 31, 30, 31, 30, 31, 31, 30, 31, 30, 31]"

definition year_days :: "nat \<Rightarrow> nat" where
  "year_days y = (if leap y then 366 else 365)"

primrec year_start :: "nat \<Rightarrow> nat" where
  "year_start 0 = 0"
| "year_start (Suc y) = year_start y + year_days y"

definition days_of :: "nat \<Rightarrow> nat \<Rightarrow> nat \<Rightarrow> nat" where
  "days_of y m d = year_start y + sum_list (take (m - 1) (month_days y)) + (d - 1)"

text \<open>The date of a day, found from its year and month on.\<close>

function split_year :: "nat \<Rightarrow> nat \<Rightarrow> nat \<times> nat" where
  "split_year y d = (if d < year_days y then (y, d) else split_year (Suc y) (d - year_days y))"
  by pat_completeness auto

termination
  by (relation "measure snd") (auto simp: year_days_def)

declare split_year.simps [simp del]

fun split_month :: "nat list \<Rightarrow> nat \<Rightarrow> nat \<Rightarrow> nat \<times> nat" where
  "split_month [] m d = (m, d)"
| "split_month (l # ls) m d = (if d < l then (m, d) else split_month ls (Suc m) (d - l))"

definition date_of :: "nat \<Rightarrow> nat \<times> nat \<times> nat" where
  "date_of day =
     (let (y, yd) = split_year 0 day; (m, md) = split_month (month_days y) 1 yd in (y, m, md + 1))"

lemma sum_month_days: "sum_list (month_days y) = year_days y"
  by (simp add: month_days_def year_days_def)

lemma length_month_days [simp]: "length (month_days y) = 12"
  by (simp add: month_days_def)

lemma month_days_le: "k < 12 \<Longrightarrow> month_days y ! k \<le> 31"
proof -
  assume "k < 12"
  then have "month_days y ! k \<in> set (month_days y)" by simp
  then show ?thesis by (auto simp: month_days_def split: if_splits)
qed

lemma split_year_sound:
  "split_year y d = (y', d') \<Longrightarrow> year_start y' + d' = year_start y + d \<and> d' < year_days y'"
proof (induction y d arbitrary: y' d' rule: split_year.induct)
  case (1 y d)
  then show ?case by (auto simp: split_year.simps [of y d] split: if_splits)
qed

lemma split_month_sound:
  "split_month ls m d = (m', d') \<Longrightarrow> d < sum_list ls \<Longrightarrow>
   m \<le> m' \<and> m' < m + length ls \<and> d' < ls ! (m' - m) \<and> sum_list (take (m' - m) ls) + d' = d"
proof (induction ls arbitrary: m d)
  case (Cons l ls)
  show ?case
  proof (cases "d < l")
    case False
    with Cons.prems have "split_month ls (Suc m) (d - l) = (m', d')" "d - l < sum_list ls" by auto
    from Cons.IH [OF this] False show ?thesis
      by (auto simp: Suc_le_eq nth_Cons' take_Cons' algebra_simps)
  qed (use Cons.prems in auto)
qed simp

lemma date_of_sound:
  assumes "date_of day = (y, m, d)"
  shows "days_of y m d = day" "1 \<le> m" "m \<le> 12" "1 \<le> d" "d \<le> month_days y ! (m - 1)" "year_start y \<le> day"
proof -
  obtain yd k where yd: "split_year 0 day = (y, yd)" "split_month (month_days y) 1 yd = (m, k)" "d = Suc k"
    using assms by (auto simp: date_of_def Let_def split: prod.splits)
  note s = split_year_sound [OF yd(1)]
  have "yd < sum_list (month_days y)" using s by (simp add: sum_month_days)
  note t = split_month_sound [OF yd(2) this]
  show "days_of y m d = day" "1 \<le> m" "m \<le> 12" "1 \<le> d" "d \<le> month_days y ! (m - 1)" "year_start y \<le> day"
    using s t yd(3) by (auto simp: days_of_def)
qed

lemma year_start_mono: "y \<le> z \<Longrightarrow> year_start y \<le> year_start z"
  by (induction z) (auto simp: le_Suc_eq)

lemma year_start_ge: "y \<le> year_start y"
  by (induction y) (auto simp: year_days_def)

section \<open>Decimal texts\<close>

definition digit_char :: "nat \<Rightarrow> char" where
  "digit_char k = char_of (48 + k)"

primrec dec :: "nat \<Rightarrow> nat \<Rightarrow> string" where
  "dec 0 n = []"
| "dec (Suc w) n = dec w (n div 10) @ [digit_char (n mod 10)]"

fun digits :: "nat \<Rightarrow> string" where
  "digits n = (if n < 10 then [digit_char n] else digits (n div 10) @ [digit_char (n mod 10)])"

declare digits.simps [simp del]

fun num :: "nat \<Rightarrow> string \<Rightarrow> nat option" where
  "num acc [] = Some acc"
| "num acc (c # cs) = (case digit_val c of None \<Rightarrow> None | Some d \<Rightarrow> num (acc * 10 + d) cs)"

lemma digit_val_char [simp]: "k < 10 \<Longrightarrow> digit_val (digit_char k) = Some k"
  by (simp add: digit_val_def digit_char_def Let_def)

lemma length_dec [simp]: "length (dec w n) = w"
  by (induction w arbitrary: n) auto

lemma num_append: "num acc (s @ t) = (case num acc s of None \<Rightarrow> None | Some n \<Rightarrow> num n t)"
  by (induction acc s rule: num.induct) (auto split: option.splits)

lemma num_dec: "n < 10 ^ w \<Longrightarrow> num acc (dec w n) = Some (acc * 10 ^ w + n)"
proof (induction w arbitrary: n)
  case (Suc w)
  from Suc.prems have "n div 10 < 10 ^ w" by (simp add: less_mult_imp_div_less mult.commute)
  from Suc.IH [OF this] show ?case by (simp add: num_append algebra_simps)
qed simp

lemma num_digits: "num 0 (digits n) = Some n"
proof (induction n rule: digits.induct)
  case (1 n)
  then show ?case by (simp add: digits.simps [of n] num_append)
qed

lemma dec_inj: "dec w a = dec w b \<Longrightarrow> a < 10 ^ w \<Longrightarrow> b < 10 ^ w \<Longrightarrow> a = b"
  by (metis num_dec option.inject add_left_cancel)

lemma dec_head: "\<exists>k cs. dec (Suc w) n = digit_char k # cs \<and> k < 10"
proof (induction w arbitrary: n)
  case (Suc w)
  from Suc.IH [of "n div 10"] obtain k cs where "dec (Suc w) (n div 10) = digit_char k # cs" "k < 10" by blast
  then have "dec (Suc (Suc w)) n = digit_char k # cs @ [digit_char (n mod 10)]" by (simp only: dec.simps append_Cons)
  with \<open>k < 10\<close> show ?case by blast
qed (auto intro: exI [of _ "n mod 10" for n])

section \<open>Times\<close>

definition day_ns :: nat where
  "day_ns = 86400 * 10 ^ 9"

definition clock_of :: "nat \<Rightarrow> nat \<times> nat \<times> nat \<times> nat" where
  "clock_of r = (let s = r div 10 ^ 9 in (s div 3600, s div 60 mod 60, s mod 60, r mod 10 ^ 9))"

definition time_of :: "nat \<Rightarrow> nat \<Rightarrow> nat \<Rightarrow> nat \<Rightarrow> nat \<Rightarrow> nat \<Rightarrow> nat \<Rightarrow> nat" where
  "time_of y m d h mi s ns = days_of y m d * day_ns + ((h * 60 + mi) * 60 + s) * 10 ^ 9 + ns"

text \<open>\<open>time.Format("20060102T150405.000000000Z")\<close>: the year has at least four digits.\<close>

definition year_text :: "nat \<Rightarrow> string" where
  "year_text y = (if y < 10000 then dec 4 y else digits y)"

lemma year_text_num: "num 0 (year_text y) = Some y"
  using num_dec [of y 4 0] num_digits [of y] by (simp add: year_text_def del: dec.simps)

definition time_Format :: "nat \<Rightarrow> string" where
  "time_Format t =
     (case (date_of (t div day_ns), clock_of (t mod day_ns)) of ((y, m, d), (h, mi, s, ns)) \<Rightarrow>
        year_text y @ dec 2 m @ dec 2 d @ ''T'' @ dec 2 h @ dec 2 mi @ dec 2 s @ ''.'' @ dec 9 ns @ ''Z'')"

text \<open>
  The parser: each field has its width, the fraction may follow a comma, and, as the parser reads
  it with \<open>atoi\<close>, its nine characters may start with a sign as long as the value is not negative.
\<close>

definition fraction :: "string \<Rightarrow> nat option" where
  "fraction s =
     (case s of
        CHR ''+'' # cs \<Rightarrow> num 0 cs
      | CHR ''-'' # cs \<Rightarrow> (case num 0 cs of Some 0 \<Rightarrow> Some 0 | _ \<Rightarrow> None)
      | _ \<Rightarrow> num 0 s)"

definition field :: "nat \<Rightarrow> nat \<Rightarrow> string \<Rightarrow> nat option" where
  "field from w s = num 0 (take w (drop from s))"

definition time_Parse :: "string \<Rightarrow> nat option" where
  "time_Parse v =
     (if length v = 26 \<and> v ! 8 = CHR ''T'' \<and> (v ! 15 = CHR ''.'' \<or> v ! 15 = CHR '','') \<and> v ! 25 = CHR ''Z'' then
        (case (field 0 4 v, field 4 2 v, field 6 2 v, field 9 2 v, field 11 2 v, field 13 2 v, fraction (take 9 (drop 16 v))) of
           (Some y, Some m, Some d, Some h, Some mi, Some s, Some ns) \<Rightarrow>
             if 1 \<le> m \<and> m \<le> 12 \<and> 1 \<le> d \<and> d \<le> month_days y ! (m - 1) \<and> h < 24 \<and> mi < 60 \<and> s < 60
             then Some (time_of y m d h mi s ns) else None
         | _ \<Rightarrow> None)
      else None)"

definition year_10000 :: nat where
  "year_10000 = year_start 10000 * day_ns"

lemma clock_of_sound:
  assumes "clock_of r = (h, mi, s, ns)" "r < day_ns"
  shows "h < 24" "mi < 60" "s < 60" "ns < 10 ^ 9" "((h * 60 + mi) * 60 + s) * 10 ^ 9 + ns = r"
proof -
  define q where "q = r div 10 ^ 9"
  have q: "h = q div 60 div 60" "mi = q div 60 mod 60" "s = q mod 60" "ns = r mod 10 ^ 9"
    using assms(1) by (auto simp: clock_of_def Let_def q_def simp flip: div_mult2_eq)
  have "q < 86400" using assms(2) by (simp add: q_def day_ns_def less_mult_imp_div_less)
  then have "q div 60 div 60 < 24" by (simp flip: div_mult2_eq add: less_mult_imp_div_less)
  then show "h < 24" "mi < 60" "s < 60" "ns < 10 ^ 9" by (simp_all add: q)
  have "(h * 60 + mi) * 60 + s = q" unfolding q by (metis div_mult_mod_eq)
  then show "((h * 60 + mi) * 60 + s) * 10 ^ 9 + ns = r" by (simp add: q_def q(4))
qed

lemma time_parts:
  assumes "date_of (t div day_ns) = (y, m, d)" "clock_of (t mod day_ns) = (h, mi, s, ns)"
  shows "time_of y m d h mi s ns = t"
proof -
  have "t mod day_ns < day_ns" by (simp add: day_ns_def)
  from clock_of_sound(5) [OF assms(2) this]
  have "time_of y m d h mi s ns = days_of y m d * day_ns + t mod day_ns" by (simp only: time_of_def add.assoc)
  then show ?thesis by (simp add: date_of_sound(1) [OF assms(1)])
qed

lemma fraction_dec:
  assumes "ns < 10 ^ 9"
  shows "fraction (dec 9 ns) = Some ns"
proof -
  have sign: "digit_char k \<noteq> CHR ''+''" "digit_char k \<noteq> CHR ''-''" if "k < 10" for k
    using digit_val_char [OF that] by (auto simp: digit_val_def)
  obtain k cs where k: "dec 9 ns = digit_char k # cs" "k < 10"
    using dec_head [of 8 ns] by auto
  have "fraction (dec 9 ns) = num 0 (dec 9 ns)"
    unfolding k(1) using sign [OF k(2)] by (auto simp: fraction_def simp del: num.simps split: char.splits bool.splits)
  with num_dec [OF assms, of 0] show ?thesis by simp
qed

lemma parse_layout:
  assumes v: "v = a @ b @ c @ ''T'' @ d @ e @ f @ ''.'' @ g @ ''Z''"
    and len: "length a = 4" "length b = 2" "length c = 2" "length d = 2" "length e = 2" "length f = 2" "length g = 9"
  shows "length v = 26" "v ! 8 = CHR ''T''" "v ! 15 = CHR ''.''" "v ! 25 = CHR ''Z''"
    "field 0 4 v = num 0 a" "field 4 2 v = num 0 b" "field 6 2 v = num 0 c" "field 9 2 v = num 0 d"
    "field 11 2 v = num 0 e" "field 13 2 v = num 0 f" "take 9 (drop 16 v) = g"
  by (simp_all add: v len nth_append field_def)

theorem time_roundtrip:
  assumes "t < year_10000"
  shows "time_Parse (time_Format t) = Some t"
proof -
  obtain y m d where date: "date_of (t div day_ns) = (y, m, d)" by (cases "date_of (t div day_ns)")
  obtain h mi s ns where clock: "clock_of (t mod day_ns) = (h, mi, s, ns)" by (cases "clock_of (t mod day_ns)")
  have "t mod day_ns < day_ns" by (simp add: day_ns_def)
  note c = clock_of_sound [OF clock this] and d = date_of_sound [OF date]
  have "\<not> 10000 \<le> y"
    using year_start_mono [of 10000 y] d(6) assms
    by (auto simp: year_10000_def dest: less_mult_imp_div_less)
  then have y: "y < 10000" by simp
  have "d \<le> 31" using d(2,3,5) month_days_le [of "m - 1" y] by linarith
  have shape: "time_Format t = dec 4 y @ dec 2 m @ dec 2 d @ ''T'' @ dec 2 h @ dec 2 mi @ dec 2 s @ ''.'' @ dec 9 ns @ ''Z''"
    by (simp add: time_Format_def date clock year_text_def y)
  note l = parse_layout [OF shape length_dec length_dec length_dec length_dec length_dec length_dec length_dec]
  have "num 0 (dec 4 y) = Some y" "num 0 (dec 2 m) = Some m" "num 0 (dec 2 d) = Some d" "num 0 (dec 2 h) = Some h"
    "num 0 (dec 2 mi) = Some mi" "num 0 (dec 2 s) = Some s"
    using y c d(3) \<open>d \<le> 31\<close> by (simp_all add: num_dec)
  then show ?thesis
    using d(2-5) c(1-3) time_parts [OF date clock]
    by (simp add: time_Parse_def l fraction_dec [OF c(4)] del: dec.simps)
qed

lemma time_Format_inj: "time_Format t = time_Format u \<Longrightarrow> t = u"
proof -
  assume eq: "time_Format t = time_Format u"
  obtain y m d where date: "date_of (t div day_ns) = (y, m, d)" by (cases "date_of (t div day_ns)")
  obtain h mi s ns where clock: "clock_of (t mod day_ns) = (h, mi, s, ns)" by (cases "clock_of (t mod day_ns)")
  obtain y' m' d' where date': "date_of (u div day_ns) = (y', m', d')" by (cases "date_of (u div day_ns)")
  obtain h' mi' s' ns' where clock': "clock_of (u mod day_ns) = (h', mi', s', ns')" by (cases "clock_of (u mod day_ns)")
  have lt: "t mod day_ns < day_ns" "u mod day_ns < day_ns" by (simp_all add: day_ns_def)
  have yinj: "year_text a = year_text b \<Longrightarrow> a = b" for a b
    by (metis year_text_num option.inject)
  note c = clock_of_sound [OF clock lt(1)] clock_of_sound [OF clock' lt(2)]
  note d = date_of_sound [OF date] date_of_sound [OF date']
  have d_le: "d \<le> 31" "d' \<le> 31"
    using d month_days_le [of "m - 1" y] month_days_le [of "m' - 1" y'] by linarith+
  from eq have e: "year_text y = year_text y'" "dec 2 m = dec 2 m'" "dec 2 d = dec 2 d'" "dec 2 h = dec 2 h'"
      "dec 2 mi = dec 2 mi'" "dec 2 s = dec 2 s'" "dec 9 ns = dec 9 ns'"
    unfolding time_Format_def date date' clock clock' by (simp_all del: dec.simps)
  have "m = m'" by (rule dec_inj [OF e(2)]) (use d in simp_all)
  moreover have "d = d'" by (rule dec_inj [OF e(3)]) (use d_le in simp_all)
  moreover have "h = h'" by (rule dec_inj [OF e(4)]) (use c in simp_all)
  moreover have "mi = mi'" by (rule dec_inj [OF e(5)]) (use c in simp_all)
  moreover have "s = s'" by (rule dec_inj [OF e(6)]) (use c in simp_all)
  moreover have "ns = ns'" by (rule dec_inj [OF e(7)]) (use c in simp_all)
  ultimately show ?thesis
    using time_parts [OF date clock] time_parts [OF date' clock'] yinj [OF e(1)] by simp
qed

end
