(* ===== verification/Rotation.thy ===== *)
theory Rotation
  imports Gateway_Config Go_Time "HOL-Library.Char_ord" "HOL-Library.List_Lexorder"
begin

text \<open>
  The size-limited files of packets and log entries, \<open>gateway/configuration/rotation.go\<close>. A
  \<open>RotatingFile\<close> is modelled together with the directory it lives in: names and the files (inodes)
  they stand for, a file keeping its bytes while it is open. Every call of the operating system
  may fail; which calls do is a parameter of the state, as are the clock and how much of its data
  a write gets to the file. Symbolic links are left out.
\<close>

section \<open>Directories\<close>

record inode =
  content :: bytes
  regular :: bool

record directory =
  entries :: "(string \<times> nat) list"
  inodes :: "nat \<Rightarrow> inode"
  next_inode :: nat
  fault :: "nat \<Rightarrow> string option"
  short :: "nat \<Rightarrow> nat"
  clock :: "nat \<Rightarrow> nat"
  calls :: nat
  ticks :: nat

record RotatingFile = directory +
  rf_filename :: string
  rf_rotation :: RotationConf
  rf_file :: "nat option"
  rf_size :: int
  rf_closed :: bool
  rf_writeErr :: "goerr option"

record fileArchive =
  ar_name :: string
  ar_time :: nat
  ar_inode :: nat
  ar_size :: int

type_synonym 'a rio = "RotatingFile \<Rightarrow> 'a result \<times> RotatingFile"

definition ErrClosed :: goerr where "ErrClosed = ErrNew ''file already closed''"
definition ErrExist :: goerr where "ErrExist = ErrNew ''file already exists''"
definition ErrNotExist :: goerr where "ErrNotExist = ErrNew ''file does not exist''"
definition ErrInvalid :: goerr where "ErrInvalid = ErrNew ''invalid argument''"

definition retS :: "'a \<Rightarrow> 'a rio" where
  "retS x s = (Inr x, s)"

definition errS :: "goerr \<Rightarrow> 'a rio" where
  "errS e s = (Inl e, s)"

definition bindF :: "'a rio \<Rightarrow> ('a \<Rightarrow> 'b rio) \<Rightarrow> 'b rio" where
  "bindF m f s = (case m s of (Inl e, s') \<Rightarrow> (Inl e, s') | (Inr x, s') \<Rightarrow> f x s')"

definition wrapS :: "string \<Rightarrow> 'a rio \<Rightarrow> 'a rio" where
  "wrapS msg m s = (case m s of (r, s') \<Rightarrow> (wrapf msg r, s'))"

definition sys :: "unit rio" where
  "sys s = ((case fault s (calls s) of None \<Rightarrow> Inr () | Some msg \<Rightarrow> Inl (Errorf msg)), s\<lparr>calls := Suc (calls s)\<rparr>)"

definition Now :: "nat rio" where
  "Now s = (Inr (clock s (ticks s)), s\<lparr>ticks := Suc (ticks s)\<rparr>)"

definition ValidateOutputs_call :: "unit rio" where
  "ValidateOutputs_call = sys"

definition lookup :: "string \<Rightarrow> RotatingFile \<Rightarrow> nat option" where
  "lookup nm s = map_of (entries s) nm"

definition add_entry :: "string \<Rightarrow> nat \<Rightarrow> RotatingFile \<Rightarrow> RotatingFile" where
  "add_entry nm i s = s\<lparr>entries := insort_key fst (nm, i) (entries s)\<rparr>"

definition OpenFile :: "string \<Rightarrow> nat rio" where
  "OpenFile nm = bindF sys (\<lambda>_ s.
     case lookup nm s of
       Some i \<Rightarrow> (Inr i, s)
     | None \<Rightarrow> (Inr (next_inode s),
         (add_entry nm (next_inode s) s)\<lparr>
           inodes := (inodes s)(next_inode s := \<lparr>content = [], regular = True\<rparr>), next_inode := Suc (next_inode s)\<rparr>))"

definition file_Stat :: "nat \<Rightarrow> int rio" where
  "file_Stat i = bindF sys (\<lambda>_ s. (Inr (int (length (content (inodes s i)))), s))"

definition os_Stat :: "string \<Rightarrow> nat rio" where
  "os_Stat nm = bindF sys (\<lambda>_ s. (case lookup nm s of None \<Rightarrow> Inl ErrNotExist | Some i \<Rightarrow> Inr i, s))"

definition os_Remove :: "string \<Rightarrow> unit rio" where
  "os_Remove nm = bindF sys (\<lambda>_ s.
     case lookup nm s of
       None \<Rightarrow> (Inl ErrNotExist, s)
     | Some _ \<Rightarrow> (Inr (), s\<lparr>entries := filter (\<lambda>e. fst e \<noteq> nm) (entries s)\<rparr>))"

definition os_Link :: "string \<Rightarrow> string \<Rightarrow> unit rio" where
  "os_Link old new = bindF sys (\<lambda>_ s.
     case (lookup old s, lookup new s) of
       (None, _) \<Rightarrow> (Inl ErrNotExist, s)
     | (Some i, Some _) \<Rightarrow> (Inl ErrExist, s)
     | (Some i, None) \<Rightarrow> (Inr (), add_entry new i s))"

definition file_Write :: "nat \<Rightarrow> bytes \<Rightarrow> RotatingFile \<Rightarrow> (nat \<times> goerr option) \<times> RotatingFile" where
  "file_Write i data s =
     (let n = min (short s (calls s)) (length data);
          (r, s') = sys s in
      ((n, case r of Inl e \<Rightarrow> Some e | Inr _ \<Rightarrow> None),
       s'\<lparr>inodes := (inodes s')(i := (inodes s' i)\<lparr>content := content (inodes s' i) @ take n data\<rparr>)\<rparr>))"

definition with_file :: "(nat \<Rightarrow> 'a rio) \<Rightarrow> 'a rio" where
  "with_file f s = (case rf_file s of None \<Rightarrow> (Inl ErrInvalid, s) | Some i \<Rightarrow> f i s)"

section \<open>Archives\<close>

definition ends_with :: "string \<Rightarrow> string \<Rightarrow> bool" where
  "ends_with suf s \<longleftrightarrow> drop (length s - length suf) s = suf"

definition TrimSuffix :: "string \<Rightarrow> string \<Rightarrow> string" where
  "TrimSuffix s suf = (if ends_with suf s then take (length s - length suf) s else s)"

definition TrimPrefix :: "string \<Rightarrow> string \<Rightarrow> string" where
  "TrimPrefix s p = (if starts_with p s then drop (length p) s else s)"

definition Ext :: "string \<Rightarrow> string" where
  "Ext path =
     (let t = takeWhile (\<lambda>c. c \<noteq> CHR ''.'' \<and> c \<noteq> CHR ''/'') (rev path) in
      if drop (length t) (rev path) \<noteq> [] \<and> hd (drop (length t) (rev path)) = CHR ''.'' then CHR ''.'' # rev t else [])"

definition archive_name :: "string \<Rightarrow> nat \<Rightarrow> string" where
  "archive_name fname t = TrimSuffix fname (Ext fname) @ ''-'' @ time_Format t @ Ext fname"

definition archive_time :: "string \<Rightarrow> string \<Rightarrow> nat option" where
  "archive_time fname nm =
     (let extension = Ext fname; prefix = TrimSuffix fname extension @ ''-'' in
      if \<not> starts_with prefix nm \<or> \<not> ends_with extension nm then None
      else time_Parse (TrimSuffix (TrimPrefix nm prefix) extension))"

fun stat_archives :: "(string \<times> nat) list \<Rightarrow> fileArchive list rio" where
  "stat_archives [] s = (Inr [], s)"
| "stat_archives ((nm, _) # es) s =
     (case archive_time (rf_filename s) nm of
        None \<Rightarrow> stat_archives es s
      | Some t \<Rightarrow>
          bindF (wrapS ''Can't inspect output file archive'' (os_Stat nm)) (\<lambda>i s.
            if \<not> regular (inodes s i) then (Inl (Errorf ''Output file archive is not a regular file: %s''), s)
            else bindF (stat_archives es) (\<lambda>as. retS
              (\<lparr>ar_name = nm, ar_time = t, ar_inode = i, ar_size = int (length (content (inodes s i)))\<rparr> # as)) s) s)"

text \<open>
  The archives the code names have different times. Only a name that it did not write, with a comma for
  the point, can have the time of another one; \<open>sort.Slice\<close> leaves the order of the two open, here it
  is that of the directory.
\<close>

definition newest_first :: "fileArchive list \<Rightarrow> fileArchive list" where
  "newest_first = sort_key (\<lambda>a. - int (ar_time a))"

definition archives :: "fileArchive list rio" where
  "archives = bindF (wrapS ''Can't read output file directory'' sys) (\<lambda>_ s.
     bindF (stat_archives (entries s)) (\<lambda>as. retS (newest_first as)) s)"

section \<open>Opening, rotating, cleaning\<close>

fun remove_same :: "nat \<Rightarrow> fileArchive list \<Rightarrow> unit rio" where
  "remove_same i [] = retS ()"
| "remove_same i (a # as) =
     (if ar_inode a \<noteq> i then remove_same i as else bindF (os_Remove (ar_name a)) (\<lambda>_. remove_same i as))"

definition check_opened :: "nat \<Rightarrow> int rio" where
  "check_opened i = bindF (file_Stat i) (\<lambda>n. bindF ValidateOutputs_call (\<lambda>_.
     bindF archives (\<lambda>as. bindF (remove_same i as) (\<lambda>_. retS n))))"

definition open_file :: "unit rio" where
  "open_file = bindF ValidateOutputs_call (\<lambda>_ s.
     bindF (wrapS ''Can't open output file'' (OpenFile (rf_filename s))) (\<lambda>i s.
       case check_opened i s of
         (Inr n, s) \<Rightarrow> (Inr (), s\<lparr>rf_file := Some i, rf_size := n\<rparr>)
       | (Inl e, s) \<Rightarrow>
           (case sys s of
              (Inl _, s) \<Rightarrow> (Inl (Wrapf ''%w; Can't close output file: %v'' e), s)
            | (Inr _, s) \<Rightarrow> (Inl e, s))) s)"

text \<open>The loop of \<open>rotate\<close> that links the file to the first free name from a time on.\<close>

lemma os_Link_ErrExist:
  assumes "os_Link old new s = (Inl e, s')" "errors_Is e ErrExist"
  shows "new \<in> fst ` set (entries s)" "entries s' = entries s" "rf_filename s' = rf_filename s"
  using assms
  by (auto simp: os_Link_def bindF_def sys_def ErrExist_def ErrNotExist_def lookup_def map_of_eq_None_iff
      split: option.splits prod.splits sum.splits) (auto dest!: map_of_SomeD intro: rev_image_eqI)

lemma archive_name_inj: "archive_name fname t = archive_name fname u \<Longrightarrow> t = u"
  by (auto simp: archive_name_def dest: time_Format_inj)

function link_archive :: "nat \<Rightarrow> string rio" where
  "link_archive t s =
     (let archive = archive_name (rf_filename s) t in
      case os_Link (rf_filename s) archive s of
        (Inl e, s') \<Rightarrow> if errors_Is e ErrExist then link_archive (t + 1) s'
                      else (Inl (Wrapf ''Can't archive output file'' e), s')
      | (Inr _, s') \<Rightarrow> (Inr archive, s'))"
  by pat_completeness auto

definition taken_names :: "nat \<Rightarrow> RotatingFile \<Rightarrow> nat set" where
  "taken_names t s = {u. t \<le> u \<and> archive_name (rf_filename s) u \<in> fst ` set (entries s)}"

lemma finite_taken_names: "finite (taken_names t s)"
proof -
  have "inj_on (archive_name (rf_filename s)) (taken_names t s)"
    by (auto intro: inj_onI archive_name_inj)
  moreover have "archive_name (rf_filename s) ` taken_names t s \<subseteq> fst ` set (entries s)"
    by (auto simp: taken_names_def)
  ultimately show ?thesis by (meson finite_imageD finite_subset finite_imageI List.finite_set)
qed

termination link_archive
proof (relation "measure (\<lambda>(t, s). card (taken_names t s))")
  fix t and s s' :: RotatingFile and nm r e
  assume nm: "nm = archive_name (rf_filename s) t" and p: "(r, s') = os_Link (rf_filename s) nm s" "r = Inl e"
    and e: "errors_Is e ErrExist"
  from p have link: "os_Link (rf_filename s) nm s = (Inl e, s')" by simp
  note ex = os_Link_ErrExist [OF link e]
  have "taken_names (t + 1) s' \<subseteq> taken_names t s" using ex by (auto simp: taken_names_def)
  moreover have "t \<in> taken_names t s" "t \<notin> taken_names (t + 1) s'" using ex by (auto simp: taken_names_def nm)
  ultimately have "taken_names (t + 1) s' \<subset> taken_names t s" by blast
  then show "((t + 1, s'), (t, s)) \<in> measure (\<lambda>(t, s). card (taken_names t s))"
    by (simp add: psubset_card_mono finite_taken_names)
qed simp

declare link_archive.simps [simp del]

definition after_newest :: "fileArchive list \<Rightarrow> nat \<Rightarrow> nat" where
  "after_newest as now = (case as of [] \<Rightarrow> now | a # _ \<Rightarrow> if \<not> ar_time a < now then ar_time a + 1 else now)"

definition remove_active :: "string \<Rightarrow> unit rio" where
  "remove_active archive s =
     (case os_Remove (rf_filename s) s of
        (Inr _, s) \<Rightarrow> (Inr (), s)
      | (Inl e, s) \<Rightarrow>
          (case os_Remove archive s of
             (Inl _, s) \<Rightarrow> (Inl (Wrapf ''%w; Can't remove unfinished archive: %v'' e), s)
           | (Inr _, s) \<Rightarrow> (Inl (Wrapf ''Can't remove active output file after archiving'' e), s)))"

definition close_archived :: "unit rio" where
  "close_archived s =
     (case sys s of (r, s) \<Rightarrow> (wrapf ''Can't close archived output file'' r, s\<lparr>rf_file := None, rf_size := 0\<rparr>))"

definition inspect_active :: "unit rio" where
  "inspect_active s =
     bindF (wrapS ''Can't inspect output file before rotation'' (os_Stat (rf_filename s))) (\<lambda>info.
     bindF (with_file (\<lambda>i. bindF sys (\<lambda>_. retS i))) (\<lambda>opened.
     if info \<noteq> opened then errS (Errorf ''Output file was replaced while open'')
     else wrapS ''Can't sync output file before rotation'' sys)) s"

definition archive_active :: "nat \<Rightarrow> unit rio" where
  "archive_active t =
     bindF (link_archive t) (\<lambda>archive. bindF (remove_active archive) (\<lambda>_. bindF close_archived (\<lambda>_. open_file)))"

definition rotate_file :: "unit rio" where
  "rotate_file =
     bindF ValidateOutputs_call (\<lambda>_. bindF archives (\<lambda>as. bindF Now (\<lambda>now.
     bindF inspect_active (\<lambda>_. archive_active (after_newest as now)))))"

fun cleanup_loop :: "nat \<Rightarrow> RotationConf \<Rightarrow> int \<Rightarrow> fileArchive list \<Rightarrow> int \<Rightarrow> int \<Rightarrow> bool \<Rightarrow> unit rio" where
  "cleanup_loop i conf cutoff [] kept remaining removeOlder = retS ()"
| "cleanup_loop i conf cutoff (a # as) kept remaining removeOlder =
     (let unfinished = (ar_inode a = i);
          expired = (MaxAgeDays conf > 0 \<and> int (ar_time a) < cutoff);
          removeOlder = (removeOlder \<or> \<not> unfinished \<and> (kept \<ge> MaxBackups conf \<or> ar_size a > remaining \<or> expired)) in
      if unfinished \<or> removeOlder
      then bindF (wrapS ''Can't remove output file archive'' (os_Remove (ar_name a)))
        (\<lambda>_. cleanup_loop i conf cutoff as kept remaining removeOlder)
      else cleanup_loop i conf cutoff as (kept + 1) (remaining - ar_size a) removeOlder)"

definition set_size :: "int \<Rightarrow> unit rio" where
  "set_size n s = (Inr (), s\<lparr>rf_size := n\<rparr>)"

definition cleanup :: "int \<Rightarrow> unit rio" where
  "cleanup pendingBytes =
     bindF ValidateOutputs_call (\<lambda>_. bindF archives (\<lambda>as. bindF (with_file file_Stat) (\<lambda>n.
     bindF (set_size n) (\<lambda>_ s.
     let remaining = MaxTotalSizeBytes (rf_rotation s) - pendingBytes - n in
     if remaining < 0 then (Inl (Errorf ''Output file exceeds max_total_size_bytes''), s)
     else bindF Now (\<lambda>now. with_file (\<lambda>i.
       cleanup_loop i (rf_rotation s) (int now - MaxAgeDays (rf_rotation s) * int day_ns) as 0 remaining False)) s))))"

section \<open>The operations\<close>

definition prepare_write :: "int \<Rightarrow> unit rio" where
  "prepare_write len s =
     bindF (if rf_file s = None then open_file else retS ()) (\<lambda>_.
     bindF (with_file file_Stat) (\<lambda>n.
     bindF (set_size n) (\<lambda>_ s.
     bindF (if n > MaxFileSizeBytes (rf_rotation s) - len then rotate_file else retS ()) (\<lambda>_. cleanup len) s))) s"

definition write_failed :: "goerr \<Rightarrow> RotatingFile \<Rightarrow> (nat \<times> goerr option) \<times> RotatingFile" where
  "write_failed e s = ((0, Some e), s\<lparr>rf_writeErr := Some e\<rparr>)"

definition write_data :: "bytes \<Rightarrow> RotatingFile \<Rightarrow> (nat \<times> goerr option) \<times> RotatingFile" where
  "write_data data s =
     (case rf_file s of
        None \<Rightarrow> write_failed ErrInvalid s
      | Some i \<Rightarrow>
          (let ((n, err), s) = file_Write i data s;
               s = s\<lparr>rf_size := rf_size s + int n\<rparr>;
               err = (if err = None \<and> n \<noteq> length data then Some ErrShortWrite else err) in
           ((n, err), if err \<noteq> None then s\<lparr>rf_writeErr := err\<rparr> else s)))"

definition RotatingFile_Write :: "bytes \<Rightarrow> RotatingFile \<Rightarrow> (nat \<times> goerr option) \<times> RotatingFile" where
  "RotatingFile_Write data s =
     (if rf_closed s then ((0, Some ErrClosed), s)
      else if data = [] then ((0, None), s)
      else if int (length data) > MaxFileSizeBytes (rf_rotation s)
      then write_failed (Errorf ''Record size %d exceeds max_file_size_bytes'') s
      else
        (case prepare_write (int (length data)) s of
           (Inl e, s) \<Rightarrow> write_failed e s
         | (Inr _, s) \<Rightarrow> write_data data s))"

definition RotatingFile_Close :: "RotatingFile \<Rightarrow> goerr option \<times> RotatingFile" where
  "RotatingFile_Close s =
     (if rf_closed s then (rf_writeErr s, s)
      else
        (let s = s\<lparr>rf_closed := True\<rparr> in
         if rf_file s = None then (rf_writeErr s, s)
         else
           (let (r, s) = cleanup 0 s; (c, s) = sys s;
                s = s\<lparr>rf_file := None\<rparr>;
                s = (case r of Inl e \<Rightarrow> s\<lparr>rf_writeErr := Some e\<rparr> | Inr _ \<Rightarrow> s);
                s = (case c of
                       Inr _ \<Rightarrow> s
                     | Inl e \<Rightarrow> s\<lparr>rf_writeErr := (case rf_writeErr s of
                         Some w \<Rightarrow> Some (Wrapf ''%w; Can't close output file: %v'' w) | None \<Rightarrow> Some e)\<rparr>) in
            (rf_writeErr s, s))))"

text \<open>
  \<open>prepareRotatingFile\<close> for a directory of the given name with the given entries. The call of the
  configuration's \<open>ValidateOutputs\<close>, resolving the name and \<open>MkdirAll\<close> are calls that may fail.
\<close>

definition start_file :: "unit rio" where
  "start_file =
     bindF open_file (\<lambda>_ s.
     bindF (if rf_size s > MaxFileSizeBytes (rf_rotation s) then rotate_file else retS ()) (\<lambda>_. cleanup 0) s)"

definition new_file :: "string \<Rightarrow> RotationConf \<Rightarrow> RotatingFile \<Rightarrow> RotatingFile" where
  "new_file fname conf s = s\<lparr>rf_filename := fname, rf_rotation := conf, rf_file := None, rf_size := 0, rf_closed := False,
     rf_writeErr := None\<rparr>"

definition prepareRotatingFile :: "string \<Rightarrow> string \<Rightarrow> RotationConf \<Rightarrow> unit rio" where
  "prepareRotatingFile dirname fname conf =
     (case RotationConf_Validate conf of
        Some e \<Rightarrow> errS e
      | None \<Rightarrow>
          bindF ValidateOutputs_call (\<lambda>_.
          if TrimSpace dirname = [] then errS (Errorf ''Output directory must not be empty'')
          else bindF (wrapS ''Can't resolve output directory'' sys) (\<lambda>_.
          bindF (wrapS ''Can't create output directory'' sys) (\<lambda>_ s.
          case start_file (new_file fname conf s) of
            (Inr _, s) \<Rightarrow> (Inr (), s)
          | (Inl e, s) \<Rightarrow>
              (case RotatingFile_Close (s\<lparr>rf_writeErr := Some e\<rparr>) of
                 (None, s) \<Rightarrow> (Inr (), s)
               | (Some e, s) \<Rightarrow> (Inl e, s))))))"

definition PACKETS_FILENAME :: string where "PACKETS_FILENAME = ''packets.ndjson''"

definition PreparePacketFile :: "DestinationsConf \<Rightarrow> unit rio" where
  "PreparePacketFile dests =
     (if \<not> FileEnabled (DestFile dests) then errS (Errorf ''Packet file destination is disabled'')
      else wrapS ''Can't prepare packet file''
        (prepareRotatingFile (FileDirectory (DestFile dests)) PACKETS_FILENAME (FileRotation (DestFile dests))))"

end
