(* ===== verification/Writer.thy ===== *)
theory Writer
  imports Rotation Gateway_State
begin

text \<open>
  The writer of records to the standard output or to a size-limited file,
  \<open>gateway/destination/writer.go\<close>. What the context, the deadline and the other outputs do during an
  attempt is a parameter of it, and so is \<open>Record.Encode\<close>, which formats a record as one line of JSON.
\<close>

section \<open>A record as bytes\<close>

text \<open>
  \<open>Record.Encode\<close> of \<open>gateway/destination/record.go\<close>. \<open>json.Marshal\<close> of a record and the line the
  logger's encoder makes of it are functions of third-party code.
\<close>

definition Record_Encode :: "(Record \<Rightarrow> bytes result) \<Rightarrow> (bytes \<Rightarrow> bytes) \<Rightarrow> Record option \<Rightarrow> bytes result" where
  "Record_Encode marshal line r =
     (case r of
        None \<Rightarrow> Inl (Errorf ''Packet record is nil'')
      | Some r \<Rightarrow>
          bindR (wrapf ''Can't encode packet record'' (marshal r)) (\<lambda>data.
          if length (line data) = 0 then Inl (Errorf ''Packet record was not formatted'') else Inr (line data)))"

text \<open>What is handed to a destination is never empty.\<close>

lemma Record_Encode_Inr: "Record_Encode marshal line r = Inr data \<Longrightarrow> data \<noteq> [] \<and> (\<exists>x y. r = Some x \<and> marshal x = Inr y \<and> data = line y)"
  by (auto simp: Record_Encode_def wrapf_def bindR_def split: option.splits sum.splits if_splits)

section \<open>Outputs\<close>

text \<open>
  A stream such as a pipe: what it has taken, and for each call how much it takes of the data and
  the error it reports, of a deadline for example.
\<close>

record stream =
  st_taken :: bytes
  st_short :: "nat \<Rightarrow> nat"
  st_fault :: "nat \<Rightarrow> goerr option"
  st_calls :: nat

definition stream_Write :: "bytes \<Rightarrow> stream \<Rightarrow> (nat \<times> goerr option) \<times> stream" where
  "stream_Write data s =
     (let n = min (st_short s (st_calls s)) (length data) in
      ((n, st_fault s (st_calls s)), s\<lparr>st_taken := st_taken s @ take n data, st_calls := Suc (st_calls s)\<rparr>))"

section \<open>Attempts\<close>

text \<open>
  The context's error at the start of the attempt and after the write, whether it can be cancelled,
  the conflict that \<open>ValidateOutputs\<close> reports, and the results of the two calls of \<open>SetWriteDeadline\<close>.
\<close>

record attempt =
  ctxErr :: "goerr option"
  ctxDone :: bool
  validateErr :: "goerr option"
  deadlineErr :: "goerr option"
  interruptErr :: "goerr option"
  ctxErrAfter :: "goerr option"

definition background :: attempt where
  "background = \<lparr>ctxErr = None, ctxDone = False, validateErr = None, deadlineErr = None, interruptErr = None,
     ctxErrAfter = None\<rparr>"

record 's Writer =
  w_output :: 's
  w_deadline :: bool
  w_closed :: bool
  w_writeErr :: "goerr option"

definition interrupted_err :: "'s Writer \<Rightarrow> attempt \<Rightarrow> goerr option \<Rightarrow> goerr option" where
  "interrupted_err w att err =
     (if w_deadline w \<and> ctxDone att then
        (let err = (if err = None \<and> interruptErr att \<noteq> None then interruptErr att else err) in
         if err \<noteq> None \<and> ctxErrAfter att \<noteq> None then ctxErrAfter att else err)
      else err)"

definition write_record :: "(bytes \<Rightarrow> 's \<Rightarrow> (nat \<times> goerr option) \<times> 's) \<Rightarrow> attempt \<Rightarrow> bytes \<Rightarrow> 's Writer \<Rightarrow>
    goerr option \<times> 's Writer" where
  "write_record write att data w =
     (case write data (w_output w) of
        ((n, err), out) \<Rightarrow>
          (let err = interrupted_err w att err;
               err = (if err = None \<and> n \<noteq> length data then Some ErrShortWrite else err);
               w = w\<lparr>w_output := out\<rparr> in
           case err of
             None \<Rightarrow> (None, w)
           | Some e \<Rightarrow>
               (let e = Wrapf ''Can't write packet to %s'' e in
                (Some e, if n > 0 then w\<lparr>w_writeErr := Some e\<rparr> else w))))"

definition Writer_WriteContext :: "(bytes \<Rightarrow> 's \<Rightarrow> (nat \<times> goerr option) \<times> 's) \<Rightarrow> (Record \<Rightarrow> bytes result) \<Rightarrow>
    attempt \<Rightarrow> Record \<Rightarrow> 's Writer \<Rightarrow> goerr option \<times> 's Writer" where
  "Writer_WriteContext write encode att record w =
     (if w_closed w then (Some ErrClosed, w)
      else if w_writeErr w \<noteq> None then (w_writeErr w, w)
      else if ctxErr att \<noteq> None then (ctxErr att, w)
      else
        (case encode record of
           Inl e \<Rightarrow> (Some e, w)
         | Inr data \<Rightarrow>
             if validateErr att \<noteq> None then (validateErr att, w)
             else if w_deadline w \<and> deadlineErr att \<noteq> None then (deadlineErr att, w)
             else write_record write att data w))"

definition Writer_Write :: "(bytes \<Rightarrow> 's \<Rightarrow> (nat \<times> goerr option) \<times> 's) \<Rightarrow> (Record \<Rightarrow> bytes result) \<Rightarrow>
    goerr option \<Rightarrow> Record \<Rightarrow> 's Writer \<Rightarrow> goerr option \<times> 's Writer" where
  "Writer_Write write encode conflict = Writer_WriteContext write encode (background\<lparr>validateErr := conflict\<rparr>)"

text \<open>
  \<open>Close\<close> closes the file or the stream; the process's own standard output is left open, which is
  the closing function that does nothing.
\<close>

definition Writer_Close :: "('s \<Rightarrow> goerr option \<times> 's) \<Rightarrow> string \<Rightarrow> 's Writer \<Rightarrow> goerr option \<times> 's Writer" where
  "Writer_Close close_output msg w =
     (if w_closed w then (w_writeErr w, w)
      else
        (let (err, out) = close_output (w_output w);
             w = w\<lparr>w_closed := True, w_output := out\<rparr>;
             w = (case err of None \<Rightarrow> w | Some e \<Rightarrow> w\<lparr>w_writeErr := Some (Wrapf msg e)\<rparr>) in
         (w_writeErr w, w)))"

definition file_Close :: "RotatingFile Writer \<Rightarrow> goerr option \<times> RotatingFile Writer" where
  "file_Close = Writer_Close RotatingFile_Close ''Can't close packet file''"

section \<open>Preparing\<close>

definition ErrNoDeadline :: goerr where
  "ErrNoDeadline = ErrNew ''file type does not support deadline''"

definition PrepareFile :: "DestinationsConf \<Rightarrow> RotatingFile \<Rightarrow> RotatingFile Writer result" where
  "PrepareFile dc s =
     (case PreparePacketFile dc s of
        (Inl e, _) \<Rightarrow> Inl e
      | (Inr _, s) \<Rightarrow> Inr \<lparr>w_output = s, w_deadline = False, w_closed = False, w_writeErr = None\<rparr>)"

text \<open>
  \<open>PrepareStdout\<close> with the results of \<open>ValidateOutputs\<close>, of opening the stream (and whether it is the
  process's own), of the first \<open>SetWriteDeadline\<close> and of closing it again.
\<close>

definition PrepareStdout :: "DestinationsConf \<Rightarrow> goerr option \<Rightarrow> (stream \<times> bool) result \<Rightarrow> goerr option \<Rightarrow> goerr option \<Rightarrow>
    stream Writer result" where
  "PrepareStdout dc conflict opened deadline closeErr =
     (if \<not> DestStdout dc then Inl (Errorf ''Packet stdout destination is disabled'')
      else
        (case conflict of
           Some e \<Rightarrow> Inl e
         | None \<Rightarrow>
             bindR (wrapf ''Can't open packet stdout'' opened) (\<lambda>(s, own).
             case deadline of
               None \<Rightarrow> Inr \<lparr>w_output = s, w_deadline = True, w_closed = False, w_writeErr = None\<rparr>
             | Some e \<Rightarrow>
                 if errors_Is e ErrNoDeadline then Inr \<lparr>w_output = s, w_deadline = False, w_closed = False, w_writeErr = None\<rparr>
                 else if \<not> own \<and> closeErr \<noteq> None then Inl (Wrapf ''%w; Can't close stdout: %v'' e)
                 else Inl e)))"

section \<open>Several attempts\<close>

text \<open>The results of a sequence of attempts, one after the other under the writer's lock.\<close>

fun Writer_attempts :: "(bytes \<Rightarrow> 's \<Rightarrow> (nat \<times> goerr option) \<times> 's) \<Rightarrow> (Record \<Rightarrow> bytes result) \<Rightarrow>
    (attempt \<times> Record) list \<Rightarrow> 's Writer \<Rightarrow> goerr option list \<times> 's Writer" where
  "Writer_attempts write encode [] w = ([], w)"
| "Writer_attempts write encode ((att, record) # as) w =
     (let (err, w) = Writer_WriteContext write encode att record w;
          (errs, w) = Writer_attempts write encode as w in
      (err # errs, w))"

end
