(* ===== verification/Rotation_Lemmas.thy ===== *)
theory Rotation_Lemmas
  imports Rotation "HOL-Library.Sublist"
begin

text \<open>
  What the calls and steps of a rotating file do to its directory: each is described by the entries
  it removes or adds, whatever calls of the operating system fail.
\<close>

section \<open>Steps\<close>

lemma bindFE:
  assumes "bindF m f s = (r, s')"
  obtains (fail) e where "m s = (Inl e, s')" "r = Inl e"
    | (go) x s1 where "m s = (Inr x, s1)" "f x s1 = (r, s')"
  using assms by (auto simp: bindF_def split: prod.splits sum.splits)

lemma wrapSE:
  assumes "wrapS msg m s = (r, s')"
  obtains (fail) e where "m s = (Inl e, s')" "r = Inl (Wrapf msg e)"
    | (go) x where "m s = (Inr x, s')" "r = Inr x"
  using assms by (auto simp: wrapS_def wrapf_def split: prod.splits sum.splits)

text \<open>Two states that differ only in how often the system and the clock were asked.\<close>

definition core :: "RotatingFile \<Rightarrow> RotatingFile" where
  "core s = s\<lparr>calls := 0, ticks := 0\<rparr>"

definition same :: "RotatingFile \<Rightarrow> RotatingFile \<Rightarrow> bool" where
  "same s s' \<longleftrightarrow> core s' = core s"

lemma core_calls [simp]: "core (s\<lparr>calls := c\<rparr>) = core s" "core (s\<lparr>ticks := t\<rparr>) = core s"
  by (simp_all add: core_def)

lemma same_refl [simp, intro!]: "same s s"
  by (simp add: same_def)

lemma same_trans [trans]: "same s s1 \<Longrightarrow> same s1 s2 \<Longrightarrow> same s s2"
  by (simp add: same_def)

lemma same_fields:
  assumes "same s s'"
  shows "entries s' = entries s" "inodes s' = inodes s" "next_inode s' = next_inode s" "fault s' = fault s"
    "short s' = short s" "clock s' = clock s" "rf_filename s' = rf_filename s" "rf_rotation s' = rf_rotation s"
    "rf_file s' = rf_file s" "rf_size s' = rf_size s" "rf_closed s' = rf_closed s" "rf_writeErr s' = rf_writeErr s"
proof -
  have c: "core s' = core s" using assms by (simp add: same_def)
  note d = arg_cong [OF c, unfolded core_def]
  show "entries s' = entries s" using d [of entries] by simp
  show "inodes s' = inodes s" using d [of inodes] by simp
  show "next_inode s' = next_inode s" using d [of next_inode] by simp
  show "fault s' = fault s" using d [of fault] by simp
  show "short s' = short s" using d [of short] by simp
  show "clock s' = clock s" using d [of clock] by simp
  show "rf_filename s' = rf_filename s" using d [of rf_filename] by simp
  show "rf_rotation s' = rf_rotation s" using d [of rf_rotation] by simp
  show "rf_file s' = rf_file s" using d [of rf_file] by simp
  show "rf_size s' = rf_size s" using d [of rf_size] by simp
  show "rf_closed s' = rf_closed s" using d [of rf_closed] by simp
  show "rf_writeErr s' = rf_writeErr s" using d [of rf_writeErr] by simp
qed

lemma sys_same: "sys s = (r, s') \<Longrightarrow> same s s'"
  by (auto simp: sys_def same_def)

lemma ValidateOutputs_same: "ValidateOutputs_call s = (r, s') \<Longrightarrow> same s s'"
  by (simp add: ValidateOutputs_call_def sys_same)

lemma Now_same: "Now s = (r, s') \<Longrightarrow> same s s' \<and> r = Inr (clock s (ticks s))"
  by (auto simp: Now_def same_def)

lemma file_Stat_same:
  "file_Stat i s = (r, s') \<Longrightarrow> same s s' \<and> (\<forall>n. r = Inr n \<longrightarrow> n = int (length (content (inodes s i))))"
  unfolding file_Stat_def by (erule bindFE) (auto dest!: sys_same dest: same_fields)

lemma os_Stat_same:
  "os_Stat nm s = (r, s') \<Longrightarrow> same s s' \<and> (\<forall>i. r = Inr i \<longrightarrow> lookup nm s = Some i)"
  unfolding os_Stat_def
  by (erule bindFE) (auto dest!: sys_same simp: lookup_def dest: same_fields split: option.splits)

lemma lookup_same: "same s s' \<Longrightarrow> lookup nm s' = lookup nm s"
  by (simp add: lookup_def same_fields)

section \<open>Entries\<close>

definition drop_names :: "string set \<Rightarrow> RotatingFile \<Rightarrow> RotatingFile" where
  "drop_names D s = s\<lparr>entries := filter (\<lambda>e. fst e \<notin> D) (entries s)\<rparr>"

lemma drop_names_fields [simp]:
  "inodes (drop_names D s) = inodes s" "next_inode (drop_names D s) = next_inode s" "fault (drop_names D s) = fault s"
  "short (drop_names D s) = short s" "clock (drop_names D s) = clock s" "rf_filename (drop_names D s) = rf_filename s"
  "rf_rotation (drop_names D s) = rf_rotation s" "rf_file (drop_names D s) = rf_file s" "rf_size (drop_names D s) = rf_size s"
  "rf_closed (drop_names D s) = rf_closed s" "rf_writeErr (drop_names D s) = rf_writeErr s"
  "entries (drop_names D s) = filter (\<lambda>e. fst e \<notin> D) (entries s)"
  by (simp_all add: drop_names_def)

lemma drop_names_empty [simp]: "drop_names {} s = s"
  by (simp add: drop_names_def)

lemma drop_names_drop_names: "drop_names D (drop_names E s) = drop_names (E \<union> D) s"
  by (simp add: drop_names_def conj_commute)

lemma drop_names_same: "same s s' \<Longrightarrow> same (drop_names D s) (drop_names D s')"
  by (cases s, cases s') (simp add: same_def core_def drop_names_def)

lemma map_of_filter_names: "map_of (filter (\<lambda>e. fst e \<notin> D) es) k = (if k \<in> D then None else map_of es k)"
  by (induction es) auto

lemma lookup_drop_names: "lookup nm (drop_names D s) = (if nm \<in> D then None else lookup nm s)"
  by (simp add: lookup_def map_of_filter_names)

lemma os_Remove_effect:
  assumes "os_Remove nm s = (r, s')"
  obtains e where "r = Inl e" "same s s'" | "r = Inr ()" "same (drop_names {nm} s) s'" "lookup nm s \<noteq> None"
proof -
  obtain r0 s0 where 0: "sys s = (r0, s0)" by (cases "sys s")
  note same = sys_same [OF 0]
  from assms show ?thesis
    using 0 same drop_names_same [OF same, of "{nm}"]
    by (auto simp: os_Remove_def bindF_def drop_names_def lookup_same intro: that split: sum.splits option.splits)
qed

lemma insort_key_split: "\<exists>xs ys. l = xs @ ys \<and> insort_key f x l = xs @ x # ys"
proof (induction l)
  case (Cons a l)
  then obtain xs ys where "l = xs @ ys" "insort_key f x l = xs @ x # ys" by blast
  then show ?case
    by (auto intro: exI [of _ "[]"] exI [of _ "a # xs"])
qed simp

lemma map_of_insort: "nm \<notin> fst ` set es \<Longrightarrow> map_of (insort_key fst (nm, i) es) = (map_of es)(nm \<mapsto> i)"
  by (induction es) (auto simp: fun_eq_iff)

lemma lookup_None: "lookup nm s = None \<longleftrightarrow> nm \<notin> fst ` set (entries s)"
  by (simp add: lookup_def map_of_eq_None_iff)

section \<open>Names\<close>

lemma Ext_shape: "Ext p = [] \<or> hd (Ext p) = CHR ''.''"
  by (simp add: Ext_def Let_def)

lemma ends_with_append [simp]: "ends_with suf (s @ suf)"
  by (simp add: ends_with_def)

lemma starts_with_append [simp]: "starts_with p (p @ s)"
  by (simp add: starts_with_def)

lemma TrimPrefix_append: "TrimPrefix (p @ s) p = s"
  by (simp add: TrimPrefix_def)

lemma Ext_ends: "ends_with (Ext p) p"
proof -
  let ?t = "takeWhile (\<lambda>c. c \<noteq> CHR ''.'' \<and> c \<noteq> CHR ''/'') (rev p)"
  obtain u where u: "rev p = ?t @ u" by (rule that [OF takeWhile_dropWhile_id [symmetric]])
  have d: "drop (length ?t) (rev p) = u" by (metis u append_eq_conv_conj)
  consider "Ext p = []" | v where "u = CHR ''.'' # v" "Ext p = CHR ''.'' # rev ?t"
    unfolding Ext_def Let_def d by (cases u; cases "hd u = CHR ''.''") auto
  then show ?thesis
  proof cases
    case 2
    from u 2(1) have "p = rev v @ CHR ''.'' # rev ?t" by (metis rev_rev_ident rev_append rev.simps(2) append_assoc append_Cons append_Nil)
    with 2(2) ends_with_append [of "Ext p" "rev v"] show ?thesis by simp
  qed (simp add: ends_with_def)
qed

lemma filename_split: "fname = TrimSuffix fname (Ext fname) @ Ext fname"
  using Ext_ends [of fname] by (simp add: TrimSuffix_def ends_with_def) (metis append_take_drop_id)

lemma archive_time_filename [simp]: "archive_time fname fname = None"
proof (rule ccontr)
  let ?st = "TrimSuffix fname (Ext fname)"
  assume "archive_time fname fname \<noteq> None"
  then have "starts_with (?st @ ''-'') fname" by (simp add: archive_time_def Let_def split: if_splits)
  then have "take (Suc (length ?st)) (?st @ Ext fname) = ?st @ ''-''"
    using filename_split [of fname] by (simp add: starts_with_def)
  then have "take 1 (Ext fname) = ''-''" by simp
  with Ext_shape [of fname] show False by (cases "Ext fname") auto
qed

lemma archive_time_name:
  assumes "t < year_10000"
  shows "archive_time fname (archive_name fname t) = Some t"
proof -
  let ?p = "TrimSuffix fname (Ext fname) @ ''-''"
  have n: "archive_name fname t = ?p @ time_Format t @ Ext fname" by (simp add: archive_name_def)
  have "ends_with (Ext fname) (?p @ time_Format t @ Ext fname)"
    using ends_with_append [of "Ext fname" "?p @ time_Format t"] by (simp only: append_assoc)
  moreover have "TrimPrefix (?p @ time_Format t @ Ext fname) ?p = time_Format t @ Ext fname"
    by (rule TrimPrefix_append)
  moreover have "TrimSuffix (time_Format t @ Ext fname) (Ext fname) = time_Format t" by (simp add: TrimSuffix_def)
  ultimately show ?thesis
    unfolding n archive_time_def Let_def
    by (simp only: starts_with_append not_True_eq_False simp_thms if_False time_roundtrip [OF assms])
qed

section \<open>Archives\<close>

definition archive_of :: "RotatingFile \<Rightarrow> string \<times> nat \<Rightarrow> fileArchive option" where
  "archive_of s e = map_option (\<lambda>t. \<lparr>ar_name = fst e, ar_time = t, ar_inode = snd e,
     ar_size = int (length (content (inodes s (snd e))))\<rparr>) (archive_time (rf_filename s) (fst e))"

definition archives_of :: "RotatingFile \<Rightarrow> fileArchive list" where
  "archives_of s = newest_first (List.map_filter (archive_of s) (entries s))"

definition well_named :: "RotatingFile \<Rightarrow> bool" where
  "well_named s \<longleftrightarrow> distinct (map fst (entries s)) \<and> (\<forall>e\<in>set (entries s). snd e < next_inode s)"

lemma archive_of_same: "same s s' \<Longrightarrow> archive_of s' = archive_of s"
  by (simp add: archive_of_def same_fields fun_eq_iff)

lemma archives_of_same: "same s s' \<Longrightarrow> archives_of s' = archives_of s"
  by (simp add: archives_of_def archive_of_same same_fields)

lemma stat_archives_result:
  "stat_archives es s = (r, s') \<Longrightarrow> \<forall>e\<in>set es. lookup (fst e) s = Some (snd e) \<Longrightarrow>
   same s s' \<and> (\<forall>as. r = Inr as \<longrightarrow> as = List.map_filter (archive_of s) es)"
proof (induction es arbitrary: s r s')
  case (Cons e es)
  obtain nm i where e: "e = (nm, i)" by (cases e)
  show ?case
  proof (cases "archive_time (rf_filename s) nm")
    case None
    with Cons show ?thesis by (auto simp: e archive_of_def)
  next
    case (Some t)
    from Cons.prems(1) have "bindF (wrapS ''Can't inspect output file archive'' (os_Stat nm)) (\<lambda>i s.
            if \<not> regular (inodes s i) then (Inl (Errorf ''Output file archive is not a regular file: %s''), s)
            else bindF (stat_archives es) (\<lambda>as. retS
              (\<lparr>ar_name = nm, ar_time = t, ar_inode = i, ar_size = int (length (content (inodes s i)))\<rparr> # as)) s) s = (r, s')"
      by (simp add: e Some)
    then show ?thesis
    proof (cases rule: bindFE)
      case (fail e)
      then show ?thesis by (auto elim!: wrapSE dest!: os_Stat_same)
    next
      case (go k s1)
      then have k: "same s s1" "k = i" using Cons.prems(2) by (auto simp: e elim!: wrapSE dest!: os_Stat_same)
      have look: "\<forall>e\<in>set es. lookup (fst e) s1 = Some (snd e)" using Cons.prems(2) k(1) by (simp add: lookup_same)
      show ?thesis
      proof (cases "regular (inodes s1 i)")
        case True
        with go(2) have "bindF (stat_archives es) (\<lambda>as. retS
              (\<lparr>ar_name = nm, ar_time = t, ar_inode = i, ar_size = int (length (content (inodes s1 i)))\<rparr> # as)) s1 = (r, s')"
          by (simp add: k)
        then show ?thesis
        proof (cases rule: bindFE)
          case (fail e)
          with Cons.IH [OF fail(1) look] k(1) same_trans show ?thesis by auto
        next
          case (go as s2)
          with Cons.IH [OF go(1) look] k(1) same_trans [of s s1] show ?thesis
            by (auto simp: retS_def e archive_of_def Some same_fields archive_of_same)
        qed
      qed (use go(2) k in auto)
    qed
  qed
qed (simp add: map_filter_simps)

lemma archives_result:
  assumes "archives s = (r, s')" "well_named s"
  shows "same s s'" "\<And>as. r = Inr as \<Longrightarrow> as = archives_of s"
proof -
  have look: "\<forall>e\<in>set (entries s). lookup (fst e) s = Some (snd e)"
    using assms(2) by (auto simp: well_named_def lookup_def)
  from assms(1) have "same s s' \<and> (\<forall>as. r = Inr as \<longrightarrow> as = archives_of s)"
    unfolding archives_def
  proof (cases rule: bindFE)
    case (fail e)
    then show ?thesis by (auto elim!: wrapSE dest: sys_same)
  next
    case (go x s1)
    from go(1) have s1: "same s s1" by (auto elim!: wrapSE dest: sys_same)
    with look have look1: "\<forall>e\<in>set (entries s1). lookup (fst e) s1 = Some (snd e)" by (simp add: lookup_same same_fields)
    from go(2) show ?thesis
    proof (cases rule: bindFE)
      case (fail e)
      with stat_archives_result [OF fail(1) look1] s1 same_trans show ?thesis by auto
    next
      case (go as s2)
      with stat_archives_result [OF go(1) look1] s1 same_trans [of s s1] show ?thesis
        by (auto simp: retS_def archives_of_def same_fields archive_of_same)
    qed
  qed
  then show "same s s'" "\<And>as. r = Inr as \<Longrightarrow> as = archives_of s" by auto
qed

lemma map_filter_drop:
  "List.map_filter (archive_of s) (filter (\<lambda>e. fst e \<notin> D) es) =
   filter (\<lambda>a. ar_name a \<notin> D) (List.map_filter (archive_of s) es)"
  by (induction es) (auto simp: archive_of_def split: option.splits)

lemma archives_of_drop: "archives_of (drop_names D s) = filter (\<lambda>a. ar_name a \<notin> D) (archives_of s)"
proof -
  have "archive_of (drop_names D s) = archive_of s" by (simp add: archive_of_def fun_eq_iff)
  then show ?thesis
    by (simp add: archives_of_def newest_first_def filter_sort map_filter_drop)
qed

lemma set_archives_of: "set (archives_of s) = {a. \<exists>e\<in>set (entries s). archive_of s e = Some a}"
  by (auto simp: archives_of_def newest_first_def List.map_filter_def image_iff) force+

end
