(* ===== verification/Rotation_Contents.thy ===== *)
theory Rotation_Contents
  imports Rotation_Lemmas
begin

text \<open>
  Whatever calls fail, no operation of a rotating file changes the bytes of a file but by appending
  the data of a write: opening, rotating and cleaning only move names. Unlike the properties of the
  archives this needs no assumption on the directory.
\<close>

definition file_content :: "RotatingFile \<Rightarrow> nat \<Rightarrow> bytes" where
  "file_content s i = content (inodes s i)"

text \<open>Every file has its old bytes or none.\<close>

definition file_grows :: "RotatingFile \<Rightarrow> RotatingFile \<Rightarrow> bool" where
  "file_grows s s' \<longleftrightarrow> (\<forall>i. file_content s' i = file_content s i \<or> file_content s' i = [])"

definition kept :: "RotatingFile \<Rightarrow> 'a result \<times> RotatingFile \<Rightarrow> bool" where
  "kept s p \<longleftrightarrow> file_grows s (snd p)"

named_theorems keeping

lemma file_grows_refl [simp, intro!]: "file_grows s s"
  by (simp add: file_grows_def)

lemma file_grows_trans: "file_grows s s1 \<Longrightarrow> file_grows s1 s2 \<Longrightarrow> file_grows s s2"
  unfolding file_grows_def by metis

lemma keptD: "kept s p \<Longrightarrow> p = (r, s') \<Longrightarrow> file_grows s s'"
  by (simp add: kept_def)

lemma file_grows_update [simp]:
  "file_grows s (s'\<lparr>entries := e\<rparr>) = file_grows s s'" "file_grows s (s'\<lparr>rf_file := f\<rparr>) = file_grows s s'" "file_grows s (s'\<lparr>rf_size := n\<rparr>) = file_grows s s'"
  "file_grows s (s'\<lparr>rf_closed := b\<rparr>) = file_grows s s'" "file_grows s (s'\<lparr>rf_writeErr := w\<rparr>) = file_grows s s'"
  "file_grows s (s'\<lparr>calls := c\<rparr>) = file_grows s s'" "file_grows s (s'\<lparr>ticks := t\<rparr>) = file_grows s s'" "file_grows s (add_entry nm i s') = file_grows s s'"
  by (simp_all add: file_grows_def file_content_def add_entry_def)

lemma kept_bind [keeping]:
  assumes "\<And>s. kept s (m s)" "\<And>x s. kept s (f x s)"
  shows "kept s (bindF m f s)"
proof -
  obtain r s' where m: "m s = (r, s')" by (cases "m s")
  with assms(1) [of s] have 1: "file_grows s s'" by (simp add: kept_def)
  show ?thesis
  proof (cases r)
    case (Inr x)
    with m assms(2) [of s' x] 1 show ?thesis by (auto simp: bindF_def kept_def intro: file_grows_trans)
  qed (use m 1 in \<open>simp add: bindF_def kept_def\<close>)
qed

lemma kept_wrap [keeping]: "kept s (m s) \<Longrightarrow> kept s (wrapS msg m s)"
  by (auto simp: kept_def wrapS_def split: prod.splits)

lemma kept_basic [keeping]: "kept s (r, s)" "kept s (retS x s)" "kept s (errS e s)" "kept s (sys s)" "kept s (ValidateOutputs_call s)"
  "kept s (Now s)" "kept s (set_size n s)"
  by (simp_all add: kept_def retS_def errS_def sys_def ValidateOutputs_call_def Now_def set_size_def)

lemma kept_with_file [keeping]: "(\<And>i s. kept s (f i s)) \<Longrightarrow> kept s (with_file f s)"
  by (simp add: with_file_def kept_basic split: option.split)

lemma kept_if [keeping]: "kept s p \<Longrightarrow> kept s q \<Longrightarrow> kept s (if b then p else q)" "kept s (m s) \<Longrightarrow> kept s (m' s) \<Longrightarrow> kept s ((if b then m else m') s)"
  by simp_all

lemma kept_option [keeping]: "kept s p \<Longrightarrow> (\<And>x. kept s (q x)) \<Longrightarrow> kept s (case v of None \<Rightarrow> p | Some x \<Rightarrow> q x)"
  by (simp split: option.split)

lemma kept_case [keeping]:
  assumes "kept s p" "\<And>e s. kept s (f e s)" "\<And>x s. kept s (g x s)"
  shows "kept s (case p of (Inl e, s') \<Rightarrow> f e s' | (Inr x, s') \<Rightarrow> g x s')"
proof -
  obtain r s' where p: "p = (r, s')" by (cases p)
  with assms(1) have "file_grows s s'" by (simp add: kept_def)
  then show ?thesis
    using assms(2,3) [of s'] by (auto simp: p kept_def split: sum.split intro: file_grows_trans)
qed

lemma kept_new_inode: "kept s (r, (add_entry nm n s)\<lparr>inodes := (inodes s)(n := \<lparr>content = [], regular = b\<rparr>), next_inode := m\<rparr>)"
  by (simp add: kept_def file_grows_def file_content_def)

lemma kept_updates [keeping]: "kept s (r, s\<lparr>entries := e\<rparr>)" "kept s (r, add_entry nm i s)" "kept s (r, s\<lparr>rf_file := f\<rparr>)"
  "kept s (r, s\<lparr>rf_file := f, rf_size := n\<rparr>)"
  by (simp_all add: kept_def)

lemma kept_calls [keeping]: "kept s (OpenFile nm s)" "kept s (file_Stat i s)" "kept s (os_Stat nm s)" "kept s (os_Remove nm s)"
  "kept s (os_Link old new s)"
  unfolding OpenFile_def file_Stat_def os_Stat_def os_Remove_def os_Link_def
  by (intro keeping kept_new_inode | simp split: option.split; intro conjI allI impI keeping)+

lemma kept_stat_archives [keeping]: "kept s (stat_archives es s)"
proof (induction es arbitrary: s)
  case (Cons e es)
  then show ?case by (cases e) (auto intro!: keeping split: option.split)
qed (simp add: keeping)

lemma archives_kept [keeping]: "kept s (archives s)"
  unfolding archives_def by (intro keeping)

lemma kept_remove_same [keeping]: "kept s (remove_same i as s)"
  by (induction as arbitrary: s) (auto intro!: keeping)

lemma kept_check_opened [keeping]: "kept s (check_opened i s)"
  unfolding check_opened_def by (intro keeping)

lemma kept_open_file [keeping]: "kept s (open_file s)"
proof -
  have "kept s (case check_opened i s of (Inr n, s) \<Rightarrow> (Inr (), s\<lparr>rf_file := Some i, rf_size := n\<rparr>)
      | (Inl e, s) \<Rightarrow> (case sys s of (Inl _, s) \<Rightarrow> (Inl (Wrapf ''%w; Can't close output file: %v'' e), s) | (Inr _, s) \<Rightarrow> (Inl e, s)))"
    for i and s :: RotatingFile by (intro keeping)
  then show ?thesis unfolding open_file_def by (intro keeping)
qed

lemma kept_link_archive [keeping]: "kept s (link_archive t s)"
proof (induction t s rule: link_archive.induct)
  case (1 t s)
  obtain r1 s1 where 1: "os_Link (rf_filename s) (archive_name (rf_filename s) t) s = (r1, s1)"
    by (cases "os_Link (rf_filename s) (archive_name (rf_filename s) t) s")
  have g: "file_grows s s1" using kept_calls(5) 1 by (rule keptD)
  show ?case
  proof (cases "\<exists>e. r1 = Inl e \<and> errors_Is e ErrExist")
    case True
    then obtain e where e: "r1 = Inl e" "errors_Is e ErrExist" by blast
    from "1.IH" [OF refl 1 [symmetric] e] g show ?thesis
      by (auto simp: link_archive.simps [of t s] 1 e kept_def intro: file_grows_trans)
  next
    case False
    with g show ?thesis by (auto simp: link_archive.simps [of t s] 1 kept_def split: sum.split)
  qed
qed

lemma kept_rotation [keeping]: "kept s (remove_active nm s)" "kept s (close_archived s)" "kept s (inspect_active s)"
proof -
  show "kept s (remove_active nm s)" unfolding remove_active_def
    using kept_case [of s "os_Remove (rf_filename s) s"] by (intro keeping)
  show "kept s (close_archived s)"
    using keptD [OF kept_basic(4)] by (auto simp: close_archived_def kept_def split: prod.split)
  show "kept s (inspect_active s)" unfolding inspect_active_def by (intro keeping)
qed

lemma kept_rotate_file [keeping]: "kept s (rotate_file s)"
  unfolding rotate_file_def archive_active_def by (intro keeping)

lemma kept_cleanup_loop [keeping]: "kept s (cleanup_loop i conf cutoff as n remaining old s)"
  by (induction as arbitrary: s n remaining old) (auto simp: Let_def intro!: keeping)

lemma kept_cleanup [keeping]: "kept s (cleanup p s)"
  unfolding cleanup_def Let_def by (intro keeping)

lemma kept_prepare_write [keeping]: "kept s (prepare_write len s)"
  unfolding prepare_write_def by (intro keeping)

text \<open>A write: some files get a part of its data, the part it reports.\<close>

lemma RotatingFile_Write_grows:
  assumes "RotatingFile_Write data s = ((n, err), s')"
  shows "n \<le> length data"
    "file_content s' i = [] \<or> file_content s' i = file_content s i \<or> file_content s' i = file_content s i @ take n data \<or>
     file_content s' i = take n data"
proof -
  obtain r1 s1 where 1: "prepare_write (int (length data)) s = (r1, s1)" by (cases "prepare_write (int (length data)) s")
  have g: "file_grows s s1" using kept_prepare_write 1 by (rule keptD)
  have w: "n \<le> length data \<and> (\<forall>i. file_content s' i = file_content s1 i \<or> file_content s' i = file_content s1 i @ take n data)"
    if "write_data data s1 = ((n, err), s')"
    using that by (auto simp: write_data_def write_failed_def file_Write_def sys_def Let_def file_content_def split: option.splits if_splits)
  from assms consider "n = 0" "\<forall>i. file_content s' i = file_content s i" | "n = 0" "\<forall>i. file_content s' i = file_content s1 i"
    | "write_data data s1 = ((n, err), s')"
    by (auto simp: RotatingFile_Write_def write_failed_def 1 file_content_def split: if_splits sum.splits)
  then have "n \<le> length data \<and> (file_content s' i = [] \<or> file_content s' i = file_content s i \<or>
      file_content s' i = file_content s i @ take n data \<or> file_content s' i = take n data)"
  proof cases
    case 3
    from w [OF 3] g show ?thesis unfolding file_grows_def by (metis append_Nil)
  qed (use g in \<open>auto simp: file_grows_def\<close>)
  then show "n \<le> length data"
    "file_content s' i = [] \<or> file_content s' i = file_content s i \<or> file_content s' i = file_content s i @ take n data \<or>
     file_content s' i = take n data" by auto
qed

end
