(* ===== verification/Rotation_Steps.thy ===== *)
theory Rotation_Steps
  imports Rotation_Lemmas
begin

text \<open>
  What a rotating file keeps, as its readers see it: the bytes under its name and the archives from
  the newest to the oldest with their times. Opening changes none of it, rotating moves the bytes
  to a new archive, cleaning drops the oldest archives.
\<close>

section \<open>Views\<close>

definition active :: "RotatingFile \<Rightarrow> nat option" where
  "active s = lookup (rf_filename s) s"

definition active_content :: "RotatingFile \<Rightarrow> bytes" where
  "active_content s = (case active s of None \<Rightarrow> [] | Some i \<Rightarrow> content (inodes s i))"

definition archived :: "RotatingFile \<Rightarrow> fileArchive list" where
  "archived s = filter (\<lambda>a. Some (ar_inode a) \<noteq> active s) (archives_of s)"

definition view :: "RotatingFile \<Rightarrow> fileArchive \<Rightarrow> nat \<times> bytes" where
  "view s a = (ar_time a, content (inodes s (ar_inode a)))"

definition views :: "RotatingFile \<Rightarrow> (nat \<times> bytes) list" where
  "views s = map (view s) (archived s)"

definition settings where
  "settings s = (rf_filename s, rf_rotation s, rf_closed s, rf_writeErr s, fault s, short s, clock s)"

definition rf_ok :: "RotatingFile \<Rightarrow> bool" where
  "rf_ok s \<longleftrightarrow> well_named s \<and> (\<forall>i. rf_file s = Some i \<longrightarrow> active s = Some i)"

text \<open>No archive is another name of the open file.\<close>

definition settled :: "RotatingFile \<Rightarrow> bool" where
  "settled s \<longleftrightarrow> (\<forall>i. rf_file s = Some i \<longrightarrow> i \<notin> ar_inode ` set (archives_of s))"

lemma same_views:
  assumes "same s s'"
  shows "active s' = active s" "active_content s' = active_content s" "archived s' = archived s" "view s' = view s"
    "views s' = views s" "settings s' = settings s" "rf_ok s' = rf_ok s" "settled s' = settled s" "well_named s' = well_named s"
    "archives_of s' = archives_of s"
  using same_fields [OF assms] lookup_same [OF assms] archives_of_same [OF assms]
  by (simp_all add: active_def active_content_def archived_def view_def [abs_def] views_def settings_def rf_ok_def settled_def
      well_named_def split: option.split)

lemma archives_of_entry:
  assumes "a \<in> set (archives_of s)"
  shows "(ar_name a, ar_inode a) \<in> set (entries s)" "ar_size a = int (length (content (inodes s (ar_inode a))))"
    "archive_time (rf_filename s) (ar_name a) = Some (ar_time a)"
  using assms by (auto simp: set_archives_of archive_of_def)

lemma distinct_archives:
  assumes "well_named s"
  shows "distinct (map ar_name (archives_of s))"
proof -
  have "distinct (map ar_name (List.map_filter (archive_of s) es)) \<and> ar_name ` set (List.map_filter (archive_of s) es) \<subseteq> fst ` set es"
    if "distinct (map fst es)" for es
    using that by (induction es) (auto simp: archive_of_def split: option.splits)
  with assms show ?thesis
    by (simp add: archives_of_def newest_first_def well_named_def distinct_map)
qed

lemma archive_names_not_active:
  "D \<subseteq> ar_name ` set (archives_of s) \<Longrightarrow> rf_filename s \<notin> D"
  using archives_of_entry(3) by fastforce

lemma drop_archives:
  assumes "D \<subseteq> ar_name ` set (archives_of s)"
  shows "active (drop_names D s) = active s" "active_content (drop_names D s) = active_content s"
    "archived (drop_names D s) = filter (\<lambda>a. ar_name a \<notin> D) (archived s)"
    "settings (drop_names D s) = settings s" "view (drop_names D s) = view s"
    "well_named s \<Longrightarrow> well_named (drop_names D s)" "rf_ok s \<Longrightarrow> rf_ok (drop_names D s)" "settled s \<Longrightarrow> settled (drop_names D s)"
proof -
  have a: "active (drop_names D s) = active s"
    using archive_names_not_active [OF assms] by (simp add: active_def lookup_drop_names)
  then show "active (drop_names D s) = active s" "active_content (drop_names D s) = active_content s"
    "archived (drop_names D s) = filter (\<lambda>a. ar_name a \<notin> D) (archived s)"
    "settings (drop_names D s) = settings s" "view (drop_names D s) = view s"
    by (simp_all add: active_content_def archived_def archives_of_drop settings_def view_def [abs_def] conj_commute
        split: option.split)
  have w: "well_named s \<Longrightarrow> well_named (drop_names D s)"
    by (auto simp: well_named_def distinct_map inj_on_def)
  with a show "well_named s \<Longrightarrow> well_named (drop_names D s)" "rf_ok s \<Longrightarrow> rf_ok (drop_names D s)"
    "settled s \<Longrightarrow> settled (drop_names D s)"
    by (auto simp: rf_ok_def settled_def archives_of_drop)
qed

lemma drop_twins:
  assumes "well_named s" "D \<subseteq> ar_name ` {a \<in> set (archives_of s). Some (ar_inode a) = active s}"
  shows "views (drop_names D s) = views s"
proof -
  have D: "D \<subseteq> ar_name ` set (archives_of s)" using assms(2) by auto
  have "filter (\<lambda>a. ar_name a \<notin> D) (archived s) = archived s"
  proof (rule filter_True, safe)
    fix a assume a: "a \<in> set (archived s)" "ar_name a \<in> D"
    with assms(2) obtain b where b: "b \<in> set (archives_of s)" "ar_name b = ar_name a" "Some (ar_inode b) = active s" by auto
    from distinct_archives [OF assms(1)] a(1) b(1,2) have "a = b" by (auto simp: archived_def distinct_map inj_on_def)
    with a b(3) show False by (simp add: archived_def)
  qed
  with D show ?thesis by (simp add: views_def drop_archives)
qed

section \<open>Removing archives\<close>

lemma remove_same_effect:
  "remove_same i as s = (r, s') \<Longrightarrow>
   \<exists>D. D \<subseteq> ar_name ` {a \<in> set as. ar_inode a = i} \<and> same (drop_names D s) s' \<and>
     (r = Inr () \<longrightarrow> D = ar_name ` {a \<in> set as. ar_inode a = i})"
proof (induction as arbitrary: s)
  case Nil
  then show ?case by (auto simp: retS_def intro: exI [of _ "{}"])
next
  case (Cons a as)
  show ?case
  proof (cases "ar_inode a = i")
    case False
    then have "{x \<in> set (a # as). ar_inode x = i} = {x \<in> set as. ar_inode x = i}" by auto
    with False Cons.prems Cons.IH [of s] show ?thesis by simp
  next
    case True
    with Cons.prems have "bindF (os_Remove (ar_name a)) (\<lambda>_. remove_same i as) s = (r, s')" by simp
    then show ?thesis
    proof (cases rule: bindFE)
      case (fail e)
      from fail(1) have "same s s'" by (rule os_Remove_effect) simp_all
      with fail(2) show ?thesis by (intro exI [of _ "{}"]) simp
    next
      case (go x s1)
      from go(1) have s1: "same (drop_names {ar_name a} s) s1" by (rule os_Remove_effect) simp_all
      from Cons.IH [OF go(2)] obtain D where D: "D \<subseteq> ar_name ` {a \<in> set as. ar_inode a = i}" "same (drop_names D s1) s'"
        "r = Inr () \<longrightarrow> D = ar_name ` {a \<in> set as. ar_inode a = i}" by blast
      from drop_names_same [OF s1, of D] D(2) have "same (drop_names (insert (ar_name a) D) s) s'"
        by (simp add: drop_names_drop_names same_def)
      with D(1,3) True show ?thesis by (intro exI [of _ "insert (ar_name a) D"]) auto
    qed
  qed
qed

text \<open>The archives that the loop of \<open>cleanup\<close> keeps.\<close>

fun kept_archives :: "nat \<Rightarrow> RotationConf \<Rightarrow> int \<Rightarrow> fileArchive list \<Rightarrow> int \<Rightarrow> int \<Rightarrow> bool \<Rightarrow> fileArchive list" where
  "kept_archives i conf cutoff [] kept remaining old = []"
| "kept_archives i conf cutoff (a # as) kept remaining old =
     (let unfinished = (ar_inode a = i);
          old = (old \<or> \<not> unfinished \<and> (kept \<ge> MaxBackups conf \<or> ar_size a > remaining \<or>
            MaxAgeDays conf > 0 \<and> int (ar_time a) < cutoff)) in
      if unfinished \<or> old then kept_archives i conf cutoff as kept remaining old
      else a # kept_archives i conf cutoff as (kept + 1) (remaining - ar_size a) old)"

lemma cleanup_loop_effect:
  "cleanup_loop i conf cutoff as kept remaining old s = (r, s') \<Longrightarrow> distinct (map ar_name as) \<Longrightarrow>
   \<exists>D. D \<subseteq> ar_name ` set as \<and> same (drop_names D s) s' \<and>
     (r = Inr () \<longrightarrow> filter (\<lambda>a. ar_name a \<notin> D) as = kept_archives i conf cutoff as kept remaining old)"
proof (induction as arbitrary: s kept remaining old)
  case Nil
  then show ?case by (auto simp: retS_def intro: exI [of _ "{}"])
next
  case (Cons a as)
  let ?old = "old \<or> ar_inode a \<noteq> i \<and> (kept \<ge> MaxBackups conf \<or> ar_size a > remaining \<or> MaxAgeDays conf > 0 \<and> int (ar_time a) < cutoff)"
  from Cons.prems(2) have distinct: "ar_name a \<notin> ar_name ` set as" "distinct (map ar_name as)" by auto
  show ?case
  proof (cases "ar_inode a = i \<or> ?old")
    case False
    with Cons.prems(1) have "cleanup_loop i conf cutoff as (kept + 1) (remaining - ar_size a) False s = (r, s')"
      by (auto simp: Let_def)
    from Cons.IH [OF this distinct(2)] obtain D where "D \<subseteq> ar_name ` set as" "same (drop_names D s) s'"
      "r = Inr () \<longrightarrow> filter (\<lambda>a. ar_name a \<notin> D) as = kept_archives i conf cutoff as (kept + 1) (remaining - ar_size a) False"
      by blast
    with False distinct(1) show ?thesis by (intro exI [of _ D]) (auto simp: Let_def)
  next
    case True
    with Cons.prems(1) have "bindF (wrapS ''Can't remove output file archive'' (os_Remove (ar_name a)))
        (\<lambda>_. cleanup_loop i conf cutoff as kept remaining ?old) s = (r, s')"
      by (auto simp: Let_def)
    then show ?thesis
    proof (cases rule: bindFE)
      case (fail e)
      from fail(1) have "same s s'" by (elim wrapSE os_Remove_effect) simp_all
      with fail(2) show ?thesis by (intro exI [of _ "{}"]) simp
    next
      case (go x s1)
      from go(1) have s1: "same (drop_names {ar_name a} s) s1" by (elim wrapSE os_Remove_effect) simp_all
      from Cons.IH [OF go(2) distinct(2)] obtain D where D: "D \<subseteq> ar_name ` set as" "same (drop_names D s1) s'"
        "r = Inr () \<longrightarrow> filter (\<lambda>a. ar_name a \<notin> D) as = kept_archives i conf cutoff as kept remaining ?old" by blast
      from drop_names_same [OF s1, of D] D(2) have same: "same (drop_names (insert (ar_name a) D) s) s'"
        by (simp add: drop_names_drop_names same_def)
      have "filter (\<lambda>b. ar_name b \<notin> insert (ar_name a) D) as = filter (\<lambda>b. ar_name b \<notin> D) as"
      proof (rule filter_cong [OF refl])
        fix b assume "b \<in> set as"
        then have "ar_name b \<in> ar_name ` set as" by simp
        with distinct(1) have "ar_name b \<noteq> ar_name a" by metis
        then show "ar_name b \<notin> insert (ar_name a) D \<longleftrightarrow> ar_name b \<notin> D" by simp
      qed
      with D(1,3) same True show ?thesis by (intro exI [of _ "insert (ar_name a) D"]) (auto simp: Let_def)
    qed
  qed
qed

definition expired :: "RotationConf \<Rightarrow> int \<Rightarrow> nat \<Rightarrow> bool" where
  "expired conf cutoff t \<longleftrightarrow> MaxAgeDays conf > 0 \<and> int t < cutoff"

lemma kept_archives_old: "kept_archives i conf cutoff as kept remaining True = []"
  by (induction as) (auto simp: Let_def)

text \<open>They are the newest ones, as many as the limits allow.\<close>

lemma kept_archives_newest:
  "\<exists>k. kept_archives i conf cutoff as n remaining False = take k vs \<and> k \<le> length vs \<and>
     (n \<le> MaxBackups conf \<longrightarrow> n + int k \<le> MaxBackups conf) \<and>
     (0 \<le> remaining \<longrightarrow> sum_list (map ar_size (take k vs)) \<le> remaining) \<and>
     (\<forall>a\<in>set (take k vs). \<not> expired conf cutoff (ar_time a)) \<and>
     (k < length vs \<longrightarrow> MaxBackups conf \<le> n + int k \<or> remaining < sum_list (map ar_size (take (Suc k) vs)) \<or>
        expired conf cutoff (ar_time (vs ! k)))"
  if "vs = filter (\<lambda>a. ar_inode a \<noteq> i) as" for vs
  using that
proof (induction as arbitrary: n remaining vs)
  case Nil
  then show ?case by simp
next
  case (Cons a as)
  show ?case
  proof (cases "ar_inode a = i")
    case True
    with Cons.prems Cons.IH [OF refl, of n remaining] show ?thesis by (simp add: Let_def)
  next
    case False
    define ws where "ws = filter (\<lambda>a. ar_inode a \<noteq> i) as"
    have vs: "vs = a # ws" using Cons.prems False by (simp add: ws_def)
    show ?thesis
    proof (cases "MaxBackups conf \<le> n \<or> remaining < ar_size a \<or> expired conf cutoff (ar_time a)")
      case True
      with False show ?thesis
        by (intro exI [of _ 0]) (auto simp: vs Let_def expired_def kept_archives_old)
    next
      case False': False
      with False have "kept_archives i conf cutoff (a # as) n remaining False =
          a # kept_archives i conf cutoff as (n + 1) (remaining - ar_size a) False"
        by (auto simp: Let_def expired_def)
      moreover from Cons.IH [OF ws_def, of "n + 1" "remaining - ar_size a"] obtain k where
        k: "kept_archives i conf cutoff as (n + 1) (remaining - ar_size a) False = take k ws" "k \<le> length ws"
        "n + 1 \<le> MaxBackups conf \<longrightarrow> n + 1 + int k \<le> MaxBackups conf"
        "0 \<le> remaining - ar_size a \<longrightarrow> sum_list (map ar_size (take k ws)) \<le> remaining - ar_size a"
        "\<forall>a\<in>set (take k ws). \<not> expired conf cutoff (ar_time a)"
        "k < length ws \<longrightarrow> MaxBackups conf \<le> n + 1 + int k \<or> remaining - ar_size a < sum_list (map ar_size (take (Suc k) ws)) \<or>
          expired conf cutoff (ar_time (ws ! k))" by blast
      ultimately show ?thesis
        using False' by (intro exI [of _ "Suc k"]) (auto simp: vs algebra_simps)
    qed
  qed
qed

section \<open>Opening\<close>

text \<open>The state in which a new, empty file has the name of the output.\<close>

lemma insort_map_filter:
  "\<exists>xs ys. entries s = xs @ ys \<and> insort_key fst e (entries s) = xs @ e # ys \<and>
     List.map_filter g (insort_key fst e (entries s)) =
       List.map_filter g xs @ (case g e of None \<Rightarrow> [] | Some a \<Rightarrow> [a]) @ List.map_filter g ys"
proof -
  obtain xs ys where "entries s = xs @ ys" "insort_key fst e (entries s) = xs @ e # ys"
    using insort_key_split [of "entries s" fst e] by blast
  then show ?thesis
    by (intro exI [of _ xs] exI [of _ ys]) (simp add: List.map_filter_def split: option.split)
qed

lemma OpenFile_effect:
  assumes "OpenFile (rf_filename s) s = (r, s')" "well_named s"
  obtains (fail) e where "r = Inl e" "same s s'"
  | (opened) i where "r = Inr i" "active s' = Some i" "settings s' = settings s" "active_content s' = active_content s"
    "views s' = views s" "well_named s'" "rf_file s' = rf_file s"
proof -
  obtain r0 s0 where 0: "sys s = (r0, s0)" by (cases "sys s")
  note same = sys_same [OF 0] and f = same_fields [OF sys_same [OF 0]]
  let ?fn = "rf_filename s" and ?n = "next_inode s"
  show ?thesis
  proof (cases r0)
    case (Inl e)
    with assms(1) 0 same show ?thesis by (auto simp: OpenFile_def bindF_def intro: fail)
  next
    case (Inr u)
    show ?thesis
    proof (cases "active s")
      case (Some i)
      with assms(1) 0 Inr same have "r = Inr i" "s' = s0"
        by (auto simp: OpenFile_def bindF_def lookup_same active_def)
      with same_views [OF same] f Some assms(2) show ?thesis by (intro opened) auto
    next
      case None
      let ?s = "(add_entry ?fn ?n s0)\<lparr>inodes := (inodes s)(?n := \<lparr>content = [], regular = True\<rparr>), next_inode := Suc ?n\<rparr>"
      from None assms(1) 0 Inr same f have r: "r = Inr ?n" "s' = ?s"
        by (auto simp: OpenFile_def bindF_def lookup_same active_def)
      have fresh: "?fn \<notin> fst ` set (entries s)" using None by (simp add: active_def lookup_None)
      have ent: "entries s' = insort_key fst (?fn, ?n) (entries s)" by (simp add: r(2) add_entry_def f)
      have act: "active s' = Some ?n"
        using map_of_insort [OF fresh, of ?n] by (simp add: active_def lookup_def ent r(2) add_entry_def f)
      have arch: "archive_of s' e = archive_of s e" if "e \<in> set (entries s)" for e
        using that assms(2) by (auto simp: archive_of_def r(2) add_entry_def f well_named_def)
      obtain xs ys where xy: "entries s = xs @ ys" "entries s' = xs @ (?fn, ?n) # ys"
        "List.map_filter (archive_of s') (entries s') = List.map_filter (archive_of s') xs @
          (case archive_of s' (?fn, ?n) of None \<Rightarrow> [] | Some a \<Rightarrow> [a]) @ List.map_filter (archive_of s') ys"
        using insort_map_filter [of s "(?fn, ?n)" "archive_of s'"] unfolding ent by blast
      have "archive_of s' (?fn, ?n) = None" by (simp add: archive_of_def r(2) add_entry_def f)
      moreover have "List.map_filter (archive_of s') zs = List.map_filter (archive_of s) zs" if "set zs \<subseteq> set (entries s)" for zs
        using that arch by (induction zs) (auto split: option.split)
      ultimately have archs: "archives_of s' = archives_of s"
        unfolding archives_of_def xy(3) by (simp add: xy(1) List.map_filter_def)
      have inode: "ar_inode a \<noteq> ?n" if "a \<in> set (archives_of s)" for a
        using archives_of_entry(1) [OF that] assms(2) by (auto simp: well_named_def)
      then have "archived s' = archived s"
        unfolding archived_def archs act None by (intro filter_cong) auto
      moreover have "view s' a = view s a" if "a \<in> set (archived s)" for a
        using that inode [of a] by (simp add: view_def r(2) archived_def)
      ultimately have "views s' = views s" by (simp add: views_def)
      moreover have "well_named s'"
        using assms(2) fresh xy(1,2) by (auto simp: well_named_def r(2) intro: less_SucI)
      moreover have "active_content s' = active_content s" unfolding active_content_def act None by (simp add: r(2))
      ultimately show ?thesis
        using act by (intro opened [OF r(1)]) (simp_all add: settings_def r(2) add_entry_def f)
    qed
  qed
qed

lemma check_opened_effect:
  assumes "check_opened i s = (r, s')" "well_named s"
  shows "\<exists>D. D \<subseteq> ar_name ` {a \<in> set (archives_of s). ar_inode a = i} \<and> same (drop_names D s) s' \<and>
    (\<forall>n. r = Inr n \<longrightarrow> n = int (length (content (inodes s i))) \<and> D = ar_name ` {a \<in> set (archives_of s). ar_inode a = i})"
  using assms(1) unfolding check_opened_def
proof (cases rule: bindFE)
  case (fail e)
  then show ?thesis by (intro exI [of _ "{}"]) (auto dest: file_Stat_same)
next
  case (go n s1)
  from file_Stat_same [OF go(1)] have 1: "same s s1" "n = int (length (content (inodes s i)))" by auto
  from go(2) show ?thesis
  proof (cases rule: bindFE)
    case (fail e)
    then show ?thesis using 1(1) same_trans by (intro exI [of _ "{}"]) (auto dest: ValidateOutputs_same)
  next
    case (go u s2)
    have 2: "same s s2" using ValidateOutputs_same [OF go(1)] 1(1) same_trans by blast
    with assms(2) have "well_named s2" by (simp add: same_views)
    from go(2) show ?thesis
    proof (cases rule: bindFE)
      case (fail e)
      then show ?thesis using archives_result(1) [OF fail(1) \<open>well_named s2\<close>] 2 same_trans by (intro exI [of _ "{}"]) auto
    next
      case (go as s3)
      have 3: "same s s3" using archives_result(1) [OF go(1) \<open>well_named s2\<close>] 2 same_trans by blast
      have as: "as = archives_of s" using archives_result(2) [OF go(1) \<open>well_named s2\<close> refl] 2 by (simp add: same_views)
      from go(2) obtain r' where r': "remove_same i as s3 = (r', s')" "r = (case r' of Inl e \<Rightarrow> Inl e | Inr _ \<Rightarrow> Inr n)"
        by (auto simp: bindF_def retS_def split: prod.splits sum.splits)
      from remove_same_effect [OF r'(1)] obtain D where D: "D \<subseteq> ar_name ` {a \<in> set as. ar_inode a = i}"
        "same (drop_names D s3) s'" "r' = Inr () \<longrightarrow> D = ar_name ` {a \<in> set as. ar_inode a = i}" by blast
      from same_trans [OF drop_names_same [OF 3, of D] D(2)] D(1,3) r'(2) 1(2) show ?thesis
        by (intro exI [of _ D]) (auto simp: as split: sum.splits)
    qed
  qed
qed

lemma open_file_effect:
  assumes "open_file s = (r, s')" "rf_ok s" "rf_file s = None"
  shows "rf_ok s' \<and> settings s' = settings s \<and> active_content s' = active_content s \<and> views s' = views s \<and> settled s' \<and>
    (r = Inr () \<longleftrightarrow> rf_file s' \<noteq> None) \<and> (r = Inr () \<longrightarrow> rf_size s' = int (length (active_content s)))"
proof -
  have closed: "rf_ok t \<and> settings t = settings s \<and> active_content t = active_content s \<and> views t = views s \<and> settled t \<and> rf_file t = None"
    if "same s t" for t using same_views [OF that] same_fields(9) [OF that] assms(2,3) by (simp add: rf_ok_def settled_def)
  from assms(1) show ?thesis unfolding open_file_def
  proof (cases rule: bindFE)
    case (fail e)
    with closed [OF ValidateOutputs_same [OF fail(1)]] show ?thesis by simp
  next
    case (go u s1)
    note s1 = ValidateOutputs_same [OF go(1)] and c1 = closed [OF ValidateOutputs_same [OF go(1)]]
    from go(2) show ?thesis
    proof (cases rule: bindFE)
      case (fail e)
      from fail(1) obtain e' where "OpenFile (rf_filename s1) s1 = (Inl e', s')" by (auto elim: wrapSE)
      moreover have "well_named s1" using c1 by (simp add: rf_ok_def)
      ultimately have "same s1 s'" by (rule OpenFile_effect) simp_all
      with closed [OF same_trans [OF s1]] fail(2) show ?thesis by simp
    next
      case (go i s2)
      from go(1) have op: "OpenFile (rf_filename s1) s1 = (Inr i, s2)" by (auto elim: wrapSE)
      have w: "well_named s1" using c1 by (simp add: rf_ok_def)
      have "active s2 = Some i \<and> settings s2 = settings s1 \<and> active_content s2 = active_content s1 \<and>
          views s2 = views s1 \<and> well_named s2 \<and> rf_file s2 = rf_file s1"
        by (rule OpenFile_effect [OF op w]) simp_all
      with c1 have 2: "active s2 = Some i" "settings s2 = settings s" "active_content s2 = active_content s"
        "views s2 = views s" "well_named s2" "rf_file s2 = None" by simp_all
      obtain r3 s3 where 3: "check_opened i s2 = (r3, s3)" by (cases "check_opened i s2")
      define T where "T = {a \<in> set (archives_of s2). ar_inode a = i}"
      obtain D where D0: "D \<subseteq> ar_name ` T \<and> same (drop_names D s2) s3 \<and>
          (\<forall>n. r3 = Inr n \<longrightarrow> n = int (length (content (inodes s2 i))) \<and> D = ar_name ` T)"
        using check_opened_effect [OF 3 2(5)] unfolding T_def [symmetric] by (rule exE)
      then have D: "D \<subseteq> ar_name ` T" "same (drop_names D s2) s3"
        "\<And>n. r3 = Inr n \<Longrightarrow> n = int (length (content (inodes s2 i)))" "\<And>n. r3 = Inr n \<Longrightarrow> D = ar_name ` T"
        by simp_all
      have D': "D \<subseteq> ar_name ` set (archives_of s2)" using D(1) by (auto simp: T_def)
      have d: "settings t = settings s \<and> active_content t = active_content s \<and> views t = views s \<and> well_named t \<and>
          active t = Some i \<and> rf_file t = None \<and> archives_of t = filter (\<lambda>a. ar_name a \<notin> D) (archives_of s2)"
        if "same (drop_names D s2) t" for t
        using same_views [OF that] same_fields(9) [OF that] drop_archives [OF D'] drop_twins [OF 2(5), of D] D(1) 2
        by (simp add: archives_of_drop T_def)
      have len: "int (length (content (inodes s2 i))) = int (length (active_content s))"
        using 2(1,3) by (simp add: active_content_def)
      show ?thesis
      proof (cases r3)
        case (Inl e)
        with go(2) 3 obtain s4 where s4: "sys s3 = s4" "r \<noteq> Inr ()" "s' = snd s4"
          by (auto split: prod.splits sum.splits)
        then have "same s3 s'" using sys_same [of s3 "fst s4" s'] by simp
        with d [OF same_trans [OF D(2)]] s4(2) show ?thesis by (simp add: rf_ok_def settled_def)
      next
        case (Inr n)
        with go(2) 3 have r: "r = Inr ()" "s' = s3\<lparr>rf_file := Some i, rf_size := n\<rparr>" by auto
        have "settings s' = settings s3" "active_content s' = active_content s3" "views s' = views s3"
          "well_named s' = well_named s3" "active s' = active s3" "archives_of s' = archives_of s3"
          by (simp_all add: r(2) settings_def active_content_def active_def lookup_def views_def view_def [abs_def]
              archived_def archives_of_def archive_of_def [abs_def] well_named_def split: option.split)
        moreover have "i \<notin> ar_inode ` set (archives_of s3)" using d [OF D(2)] D(4) [OF Inr] by (auto simp: T_def)
        ultimately show ?thesis
          using d [OF D(2)] D(3) [OF Inr] len by (simp add: r rf_ok_def settled_def)
      qed
    qed
  qed
qed

section \<open>Rotating\<close>

definition unchanged :: "RotatingFile \<Rightarrow> RotatingFile \<Rightarrow> bool" where
  "unchanged s s' \<longleftrightarrow> rf_ok s' \<and> settings s' = settings s \<and> active_content s' = active_content s \<and> views s' = views s"

text \<open>The time of a new archive: after all others, now or right after one of them.\<close>

definition later :: "RotatingFile \<Rightarrow> nat \<Rightarrow> bool" where
  "later s t \<longleftrightarrow> list_all (\<lambda>v. fst v < t) (views s) \<and> (\<exists>k. t = clock s k \<or> list_ex (\<lambda>v. t = fst v + 1) (views s))"

definition moved :: "RotatingFile \<Rightarrow> RotatingFile \<Rightarrow> bool" where
  "moved s s' \<longleftrightarrow> rf_ok s' \<and> settings s' = settings s \<and> active_content s' = [] \<and>
     (\<exists>t. later s t \<and> views s' = (t, active_content s) # views s)"

text \<open>Archives can still be named after a later time.\<close>

definition times_ok :: "RotatingFile \<Rightarrow> bool" where
  "times_ok s \<longleftrightarrow> (\<forall>k. clock s k < year_10000) \<and> (\<forall>v\<in>set (views s). fst v + 1 < year_10000)"

lemma same_unchanged: "rf_ok s \<Longrightarrow> same s s' \<Longrightarrow> unchanged s s'"
  by (simp add: unchanged_def same_views)

lemma unchanged_same: "unchanged s s1 \<Longrightarrow> same s1 s2 \<Longrightarrow> unchanged s s2"
  by (simp add: unchanged_def same_views)

lemma moved_same: "moved s s1 \<Longrightarrow> same s1 s2 \<Longrightarrow> moved s s2"
  by (simp add: moved_def same_views)

lemma unchanged_trans: "unchanged s s1 \<Longrightarrow> unchanged s1 s2 \<Longrightarrow> unchanged s s2"
  by (simp add: unchanged_def)

lemma moved_unchanged: "moved s s1 \<Longrightarrow> unchanged s1 s2 \<Longrightarrow> moved s s2"
  by (simp add: moved_def unchanged_def)

lemma unchanged_moved: "unchanged s s1 \<Longrightarrow> moved s1 s2 \<Longrightarrow> moved s s2"
  by (auto simp: moved_def unchanged_def later_def settings_def)

lemma after_newest_origin: "\<exists>k. after_newest (archives_of s) (clock s j) = clock s k \<or>
    (\<exists>a\<in>set (archives_of s). after_newest (archives_of s) (clock s j) = ar_time a + 1)"
  by (auto simp: after_newest_def split: list.split)

lemma sorted_newest: "sorted (map (\<lambda>a. - int (ar_time a)) (archives_of s))"
  by (simp add: archives_of_def newest_first_def)

lemma after_newest_later:
  assumes "a \<in> set (archives_of s)"
  shows "ar_time a < after_newest (archives_of s) now"
proof -
  obtain b bs where b: "archives_of s = b # bs" using assms by (cases "archives_of s") auto
  with sorted_newest [of s] assms have "ar_time a \<le> ar_time b" by auto
  then show ?thesis by (simp add: after_newest_def b)
qed

lemma after_newest_bound:
  "times_ok s \<Longrightarrow> archived s = archives_of s \<Longrightarrow> after_newest (archives_of s) (clock s k) < year_10000"
  by (auto simp: times_ok_def after_newest_def views_def view_def split: list.split)

lemma sort_key_least:
  "(\<And>x. x \<in> set (xs @ ys) \<Longrightarrow> f a < f x) \<Longrightarrow> sort_key f (xs @ a # ys) = a # sort_key f (xs @ ys)"
proof (induction xs)
  case Nil
  have "insort_key f a zs = a # zs" if "\<And>x. x \<in> set zs \<Longrightarrow> f a < f x" for zs
    using that by (cases zs) (auto simp: less_imp_le)
  from this [of "sort_key f ys"] Nil show ?case by simp
next
  case (Cons x xs)
  then have "f a < f x" "sort_key f (xs @ a # ys) = a # sort_key f (xs @ ys)" by simp_all
  then show ?case by auto
qed

lemma add_entry_fields [simp]:
  "inodes (add_entry nm i s) = inodes s" "next_inode (add_entry nm i s) = next_inode s" "clock (add_entry nm i s) = clock s"
  "fault (add_entry nm i s) = fault s" "short (add_entry nm i s) = short s" "rf_filename (add_entry nm i s) = rf_filename s"
  "rf_rotation (add_entry nm i s) = rf_rotation s" "rf_file (add_entry nm i s) = rf_file s"
  "rf_closed (add_entry nm i s) = rf_closed s" "rf_writeErr (add_entry nm i s) = rf_writeErr s"
  "entries (add_entry nm i s) = insort_key fst (nm, i) (entries s)"
  by (simp_all add: add_entry_def)

lemma add_entry_same: "same s s' \<Longrightarrow> same (add_entry nm i s) (add_entry nm i s')"
  by (cases s, cases s') (simp add: same_def core_def add_entry_def)

lemma drop_added:
  assumes "nm \<notin> fst ` set (entries s)"
  shows "drop_names {nm} (add_entry nm i s) = s"
proof -
  obtain xs ys where "entries s = xs @ ys" "insort_key fst (nm, i) (entries s) = xs @ (nm, i) # ys"
    using insort_key_split [of "entries s" fst "(nm, i)"] by blast
  with assms have "filter (\<lambda>e. fst e \<notin> {nm}) (insort_key fst (nm, i) (entries s)) = entries s"
    by (auto intro!: filter_True arg_cong2 [of _ _ _ _ "(@)"])
  then show ?thesis by (cases s) (simp add: drop_names_def add_entry_def)
qed

text \<open>The name for a new archive of the open file, dated after the other archives.\<close>

definition linkable :: "RotatingFile \<Rightarrow> nat \<Rightarrow> nat \<Rightarrow> string \<Rightarrow> bool" where
  "linkable s t i nm \<longleftrightarrow> t < year_10000 \<and> (\<forall>a\<in>set (archives_of s). ar_time a < t \<and> ar_inode a \<noteq> i) \<and>
     nm = archive_name (rf_filename s) t \<and> well_named s \<and> active s = Some i \<and>
     (\<exists>k. t = clock s k \<or> (\<exists>a\<in>set (archives_of s). t = ar_time a + 1))"

lemma linkableD:
  assumes "linkable s t i nm"
  shows "t < year_10000" "\<And>a. a \<in> set (archives_of s) \<Longrightarrow> ar_time a < t" "nm = archive_name (rf_filename s) t"
    "well_named s" "active s = Some i" "\<And>a. a \<in> set (archives_of s) \<Longrightarrow> ar_inode a \<noteq> i"
    "archive_time (rf_filename s) nm = Some t" "\<exists>k. t = clock s k \<or> (\<exists>a\<in>set (archives_of s). t = ar_time a + 1)"
  using assms archive_time_name by (auto simp: linkable_def)

lemma new_name:
  assumes "linkable s t i nm"
  shows "nm \<notin> fst ` set (entries s)"
proof
  note L = linkableD [OF assms]
  assume "nm \<in> fst ` set (entries s)"
  then obtain e where e: "e \<in> set (entries s)" "fst e = nm" by blast
  then obtain a where "archive_of s e = Some a" "ar_time a = t"
    by (simp add: archive_of_def L(7))
  with e have "a \<in> set (archives_of s)" by (auto simp: set_archives_of)
  with L(2) [OF this] \<open>ar_time a = t\<close> show False by simp
qed

lemma linked_active:
  assumes "linkable s t i nm"
  shows "active (add_entry nm i s) = Some i"
  using linkableD [OF assms] map_of_insort [OF new_name [OF assms], of i] by (auto simp: active_def lookup_def)

lemma linked_archives:
  assumes "linkable s t i nm"
  shows "\<exists>a. archives_of (add_entry nm i s) = a # archives_of s \<and> ar_name a = nm \<and> ar_time a = t \<and> ar_inode a = i"
proof -
  note L = linkableD [OF assms]
  define a where "a = \<lparr>ar_name = nm, ar_time = t, ar_inode = i, ar_size = int (length (content (inodes s i)))\<rparr>"
  let ?f = "List.map_filter (archive_of s)"
  obtain xs ys where xy: "entries s = xs @ ys"
    "?f (insort_key fst (nm, i) (entries s)) = ?f xs @ (case archive_of s (nm, i) of None \<Rightarrow> [] | Some a \<Rightarrow> [a]) @ ?f ys"
    using insort_map_filter [of s "(nm, i)" "archive_of s"] by blast
  have same: "archive_of (add_entry nm i s) = archive_of s" by (simp add: archive_of_def fun_eq_iff)
  have new: "archive_of s (nm, i) = Some a" by (simp add: archive_of_def L(7) a_def)
  have app: "?f (entries s) = ?f xs @ ?f ys" by (simp add: xy(1) List.map_filter_def)
  have "- int (ar_time a) < - int (ar_time b)" if "b \<in> set (?f xs @ ?f ys)" for b
    using L(2) [of b] that by (simp add: a_def archives_of_def newest_first_def app)
  then have "archives_of (add_entry nm i s) = a # archives_of s"
    using sort_key_least [of "?f xs" "?f ys" "\<lambda>a. - int (ar_time a)" a]
    by (simp only: archives_of_def newest_first_def add_entry_fields xy(2) same new app option.case append_Cons append_Nil)
  then show ?thesis by (auto simp: a_def)
qed

lemma linked_well_named:
  assumes "linkable s t i nm"
  shows "well_named (add_entry nm i s)"
proof -
  note L = linkableD [OF assms]
  obtain xs ys where "entries s = xs @ ys" "insort_key fst (nm, i) (entries s) = xs @ (nm, i) # ys"
    using insort_key_split [of "entries s" fst "(nm, i)"] by blast
  moreover have "i < next_inode s" using L(4,5) by (auto simp: well_named_def active_def lookup_def dest!: map_of_SomeD)
  ultimately show ?thesis using L(4) new_name [OF assms] by (auto simp: well_named_def)
qed

lemma linked_unchanged:
  assumes "linkable s t i nm" "rf_file s = Some i"
  shows "unchanged s (add_entry nm i s)"
proof -
  obtain a where a: "archives_of (add_entry nm i s) = a # archives_of s" "ar_inode a = i"
    using linked_archives [OF assms(1)] by blast
  note act = linked_active [OF assms(1)] and s = linkableD(5) [OF assms(1)]
  have "archived (add_entry nm i s) = archived s" by (simp add: archived_def act s a)
  with linked_well_named [OF assms(1)] show ?thesis
    by (simp add: unchanged_def rf_ok_def act assms(2) settings_def active_content_def s views_def view_def [abs_def])
qed

lemma moved_away:
  assumes "linkable s t i nm"
  shows "moved s ((drop_names {rf_filename s} (add_entry nm i s))\<lparr>rf_file := None, rf_size := 0\<rparr>)" (is "moved s ?m")
proof -
  note L = linkableD [OF assms]
  obtain a where a: "archives_of (add_entry nm i s) = a # archives_of s" "ar_inode a = i" "ar_time a = t"
    using linked_archives [OF assms] by blast
  have wn: "well_named ?m" using linked_well_named [OF assms] by (auto simp: well_named_def distinct_map inj_on_def)
  have act: "active ?m = None"
    using map_of_filter_names [of "{rf_filename s}" "insort_key fst (nm, i) (entries s)" "rf_filename s"]
    by (simp add: active_def lookup_def)
  have "archives_of ?m = archives_of (drop_names {rf_filename s} (add_entry nm i s))"
    by (simp add: archives_of_def archive_of_def [abs_def])
  also have "\<dots> = filter (\<lambda>a. ar_name a \<notin> {rf_filename s}) (archives_of (add_entry nm i s))" by (rule archives_of_drop)
  also have "\<dots> = archives_of (add_entry nm i s)"
  proof (rule filter_True, rule ballI)
    fix x assume "x \<in> set (archives_of (add_entry nm i s))"
    from archives_of_entry(3) [OF this] show "ar_name x \<notin> {rf_filename s}" by auto
  qed
  finally have "archived ?m = a # archives_of s" by (simp add: archived_def act a(1))
  moreover have "archived s = archives_of s" unfolding archived_def using L(5,6) by (intro filter_True) auto
  moreover have "view ?m = view s" by (simp add: view_def [abs_def])
  ultimately have "views ?m = (t, active_content s) # views s"
    by (simp add: views_def active_content_def L(5) view_def a)
  moreover have "active_content ?m = []" unfolding active_content_def act by simp
  moreover have "views s = map (view s) (archives_of s)" by (simp add: views_def \<open>archived s = archives_of s\<close>)
  then have "later s t" using L(2,8) by (auto simp: later_def list_all_iff list_ex_iff view_def)
  ultimately show ?thesis
    using wn by (auto simp: moved_def rf_ok_def settings_def)
qed

lemma os_Link_effect:
  assumes "os_Link (rf_filename s) nm s = (r, s')" "linkable s t i nm"
  shows "(r = Inr () \<and> same (add_entry nm i s) s') \<or> (\<exists>e. r = Inl e \<and> \<not> errors_Is e ErrExist \<and> same s s')"
proof -
  obtain r0 s0 where 0: "sys s = (r0, s0)" by (cases "sys s")
  note same = sys_same [OF 0]
  have "lookup nm s0 = None" "lookup (rf_filename s) s0 = Some i"
    using new_name [OF assms(2)] linkableD(5) [OF assms(2)] by (simp_all add: lookup_same [OF same] lookup_None active_def)
  with assms(1) 0 same add_entry_same [OF same] show ?thesis
    by (auto simp: os_Link_def bindF_def sys_def ErrExist_def split: option.splits)
qed

lemma link_archive_effect:
  assumes "link_archive t s = (r, s')" "linkable s t i (archive_name (rf_filename s) t)"
  shows "(r = Inr (archive_name (rf_filename s) t) \<and> same (add_entry (archive_name (rf_filename s) t) i s) s') \<or>
    (\<exists>e. r = Inl e \<and> same s s')"
proof -
  obtain r1 s1 where 1: "os_Link (rf_filename s) (archive_name (rf_filename s) t) s = (r1, s1)"
    by (cases "os_Link (rf_filename s) (archive_name (rf_filename s) t) s")
  from os_Link_effect [OF 1 assms(2)] assms(1) show ?thesis
    by (auto simp: link_archive.simps [of t s] Let_def 1)
qed

lemma remove_active_effect:
  assumes "remove_active nm s = (r, s')"
  shows "(r = Inr () \<and> same (drop_names {rf_filename s} s) s') \<or>
    (\<exists>e. r = Inl e \<and> (same s s' \<or> same (drop_names {nm} s) s'))"
proof -
  obtain r1 s1 where 1: "os_Remove (rf_filename s) s = (r1, s1)" by (cases "os_Remove (rf_filename s) s")
  then show ?thesis
  proof (cases rule: os_Remove_effect)
    case (1 e)
    obtain r2 s2 where 2: "os_Remove nm s1 = (r2, s2)" by (cases "os_Remove nm s1")
    with assms 1 \<open>os_Remove (rf_filename s) s = (r1, s1)\<close> have s2: "s' = s2" "\<exists>e. r = Inl e"
      by (auto simp: remove_active_def split: sum.splits)
    from 2 show ?thesis
    proof (cases rule: os_Remove_effect)
      case (1 e')
      with \<open>same s s1\<close> s2 same_trans show ?thesis by blast
    next
      case 2
      with drop_names_same [OF \<open>same s s1\<close>, of "{nm}"] s2 same_trans show ?thesis by blast
    qed
  next
    case 2
    with assms \<open>os_Remove (rf_filename s) s = (r1, s1)\<close> show ?thesis by (auto simp: remove_active_def)
  qed
qed

lemma close_archived_effect:
  assumes "close_archived s = (r, s')" "same d s"
  shows "same (d\<lparr>rf_file := None, rf_size := 0\<rparr>) s'"
proof -
  obtain r1 s1 where 1: "sys s = (r1, s1)" by (cases "sys s")
  have "same d s1" using same_trans [OF assms(2) sys_same [OF 1]] .
  with assms(1) 1 show ?thesis by (cases d, cases s1) (auto simp: close_archived_def same_def core_def)
qed

lemma inspect_active_same:
  assumes "inspect_active s = (r, s')"
  shows "same s s'"
  using assms unfolding inspect_active_def
proof (cases rule: bindFE)
  case (fail e)
  then show ?thesis by (auto elim!: wrapSE dest: os_Stat_same)
next
  case (go info s1)
  then have 1: "same s s1" by (auto elim!: wrapSE dest: os_Stat_same)
  from go(2) show ?thesis
  proof (cases rule: bindFE)
    case (fail e)
    then show ?thesis using same_trans [OF 1]
      by (auto simp: with_file_def retS_def elim!: bindFE dest!: sys_same split: option.splits)
  next
    case (go opened s2)
    then have "same s s2" using same_trans [OF 1]
      by (auto simp: with_file_def retS_def elim!: bindFE dest!: sys_same split: option.splits)
    with go(2) same_trans show ?thesis by (auto simp: errS_def elim!: wrapSE dest!: sys_same split: if_splits)
  qed
qed

lemma archive_active_effect:
  assumes "archive_active t s = (r, s')" "linkable s t i (archive_name (rf_filename s) t)" "rf_ok s" "rf_file s = Some i"
  shows "(\<exists>e. r = Inl e) \<and> unchanged s s' \<or> moved s s' \<and> (r = Inr () \<longrightarrow> rf_file s' \<noteq> None \<and> settled s')"
proof -
  define nm where "nm = archive_name (rf_filename s) t"
  define linked where "linked = add_entry nm i s"
  note L = assms(2) [folded nm_def]
  have keep: "unchanged s s2" if "same s s2 \<or> same linked s2" for s2
    using that same_unchanged [OF assms(3)] unchanged_same [OF linked_unchanged [OF L assms(4)]]
    unfolding linked_def by blast
  from assms(1) show ?thesis unfolding archive_active_def
  proof (cases rule: bindFE)
    case (fail e)
    with link_archive_effect [OF fail(1) assms(2)] keep show ?thesis by auto
  next
    case (go archive s1)
    from link_archive_effect [OF go(1) assms(2)] have 1: "archive = nm" "same linked s1"
      by (auto simp: nm_def linked_def)
    from go(2) show ?thesis
    proof (cases rule: bindFE)
      case (fail e)
      have "same linked s' \<or> same (drop_names {nm} linked) s'"
        using remove_active_effect [OF fail(1)] 1 same_trans [OF 1(2)] same_trans [OF drop_names_same [OF 1(2)]] by auto
      then have "unchanged s s'" using keep drop_added [OF new_name [OF L], of i] by (auto simp: linked_def)
      with fail(2) show ?thesis by blast
    next
      case (go u s2)
      have fn: "rf_filename s1 = rf_filename s" using same_fields(7) [OF 1(2)] by (simp add: linked_def)
      have 2: "same (drop_names {rf_filename s} linked) s2"
        using remove_active_effect [OF go(1)] same_trans [OF drop_names_same [OF 1(2)]] by (auto simp: fn)
      have m: "moved s s3" if "close_archived s2 = (r3, s3)" for r3 s3
        using moved_same [OF moved_away [OF L]] close_archived_effect [OF that 2] unfolding linked_def .
      have c: "rf_file s3 = None" if "close_archived s2 = (r3, s3)" for r3 s3
        using that by (auto simp: close_archived_def split: prod.splits)
      from go(2) show ?thesis
      proof (cases rule: bindFE)
        case (fail e)
        with m show ?thesis by blast
      next
        case (go v s3)
        have "rf_ok s3" using m [OF go(1)] by (simp add: moved_def)
        note o = open_file_effect [OF go(2) this c [OF go(1)]]
        then have "unchanged s3 s'" by (simp add: unchanged_def)
        with m [OF go(1)] o show ?thesis using moved_unchanged by blast
      qed
    qed
  qed
qed

lemma rotate_file_effect:
  assumes "rotate_file s = (r, s')" "rf_ok s" "settled s" "rf_file s = Some i" "times_ok s"
  shows "(\<exists>e. r = Inl e) \<and> unchanged s s' \<or> moved s s' \<and> (r = Inr () \<longrightarrow> rf_file s' \<noteq> None \<and> settled s')"
proof -
  have wn: "well_named s" and act: "active s = Some i" using assms(2,4) by (simp_all add: rf_ok_def)
  have failed: ?thesis if "same s s'" "r = Inl e" for e
    using same_unchanged [OF assms(2) that(1)] that(2) by blast
  from assms(1) show ?thesis unfolding rotate_file_def
  proof (cases rule: bindFE)
    case (fail e)
    then show ?thesis using failed ValidateOutputs_same by blast
  next
    case (go u s1)
    note 1 = ValidateOutputs_same [OF go(1)]
    have wn1: "well_named s1" using wn by (simp add: same_views [OF 1])
    from go(2) show ?thesis
    proof (cases rule: bindFE)
      case (fail e)
      then show ?thesis using failed [OF same_trans [OF 1 archives_result(1) [OF fail(1) wn1]]] by blast
    next
      case (go as s2)
      note 2 = same_trans [OF 1 archives_result(1) [OF go(1) wn1]]
      have as: "as = archives_of s" using archives_result(2) [OF go(1) wn1 refl] by (simp add: same_views [OF 1])
      from go(2) show ?thesis
      proof (cases rule: bindFE)
        case (fail e)
        then show ?thesis by (simp add: Now_def)
      next
        case (go now s3)
        from Now_same [OF go(1)] have 3: "same s s3" "now = clock s (ticks s2)"
          using same_trans [OF 2] same_fields(6) [OF 2] by auto
        from go(2) show ?thesis
        proof (cases rule: bindFE)
          case (fail e)
          then show ?thesis using failed [OF same_trans [OF 3(1) inspect_active_same [OF fail(1)]]] by blast
        next
          case (go v s4)
          note 4 = same_trans [OF 3(1) inspect_active_same [OF go(1)]]
          define t where "t = after_newest as now"
          have "archived s = archives_of s"
            using assms(3,4) act by (auto simp: archived_def settled_def intro!: filter_True)
          then have "linkable s4 t i (archive_name (rf_filename s4) t)"
            using after_newest_bound [OF assms(5)] after_newest_later assms(3,4) wn act
              after_newest_origin [of s "ticks s2"]
            by (auto simp: same_fields(6) [OF 4] linkable_def t_def as 3(2) settled_def same_views [OF 4])
          from archive_active_effect [OF go(2) [folded t_def] this] assms(2,4) same_unchanged [OF assms(2) 4]
          show ?thesis
            by (auto simp: same_views [OF 4] same_fields(9) [OF 4] intro: unchanged_trans unchanged_moved)
        qed
      qed
    qed
  qed
qed

end
