(* ===== verification/Rotation_Properties.thy ===== *)
theory Rotation_Properties
  imports Rotation_Steps
begin

text \<open>
  The properties of the size-limited files: what a write does to the file and its archives, and what
  is left when it fails.
\<close>

section \<open>Cleaning\<close>

definition stored :: "(nat \<times> bytes) list \<Rightarrow> int" where
  "stored vs = sum_list (map (\<lambda>v. int (length (snd v))) vs)"

text \<open>The first \<open>k\<close> of the files, from the newest on, are what the limits allow to keep.\<close>

definition retained :: "RotationConf \<Rightarrow> int \<Rightarrow> int \<Rightarrow> (nat \<times> bytes) list \<Rightarrow> nat \<Rightarrow> bool" where
  "retained conf cutoff room vs k \<longleftrightarrow>
     k \<le> length vs \<and> int k \<le> MaxBackups conf \<and> stored (take k vs) \<le> room \<and>
     list_all (\<lambda>v. \<not> expired conf cutoff (fst v)) (take k vs) \<and>
     (k = length vs \<or> MaxBackups conf \<le> int k \<or> room < stored (take (Suc k) vs) \<or> expired conf cutoff (fst (vs ! k)))"

definition file_ready :: "RotatingFile \<Rightarrow> bool" where
  "file_ready s \<longleftrightarrow> rf_ok s \<and> settled s \<and> times_ok s \<and> RotationConf_Validate (rf_rotation s) = None"

lemma size_views [simp]:
  "rf_ok (s\<lparr>rf_size := n\<rparr>) = rf_ok s" "settings (s\<lparr>rf_size := n\<rparr>) = settings s" "active (s\<lparr>rf_size := n\<rparr>) = active s"
  "active_content (s\<lparr>rf_size := n\<rparr>) = active_content s" "views (s\<lparr>rf_size := n\<rparr>) = views s"
  "settled (s\<lparr>rf_size := n\<rparr>) = settled s" "archives_of (s\<lparr>rf_size := n\<rparr>) = archives_of s"
  "archived (s\<lparr>rf_size := n\<rparr>) = archived s" "view (s\<lparr>rf_size := n\<rparr>) = view s" "times_ok (s\<lparr>rf_size := n\<rparr>) = times_ok s"
  "well_named (s\<lparr>rf_size := n\<rparr>) = well_named s"
proof -
  have "archives_of (s\<lparr>rf_size := n\<rparr>) = archives_of s" by (simp add: archives_of_def archive_of_def [abs_def])
  moreover have "active (s\<lparr>rf_size := n\<rparr>) = active s" by (simp add: active_def lookup_def)
  ultimately show "rf_ok (s\<lparr>rf_size := n\<rparr>) = rf_ok s" "settings (s\<lparr>rf_size := n\<rparr>) = settings s" "active (s\<lparr>rf_size := n\<rparr>) = active s"
    "active_content (s\<lparr>rf_size := n\<rparr>) = active_content s" "views (s\<lparr>rf_size := n\<rparr>) = views s"
    "settled (s\<lparr>rf_size := n\<rparr>) = settled s" "archives_of (s\<lparr>rf_size := n\<rparr>) = archives_of s"
    "archived (s\<lparr>rf_size := n\<rparr>) = archived s" "view (s\<lparr>rf_size := n\<rparr>) = view s" "times_ok (s\<lparr>rf_size := n\<rparr>) = times_ok s"
    "well_named (s\<lparr>rf_size := n\<rparr>) = well_named s"
    by (simp_all add: rf_ok_def settings_def active_content_def views_def archived_def view_def [abs_def] settled_def
        times_ok_def well_named_def split: option.split)
qed

lemma bindF_set_size: "bindF (set_size n) f s = f () (s\<lparr>rf_size := n\<rparr>)"
  by (simp add: bindF_def set_size_def)

lemma RotationConf_valid:
  "RotationConf_Validate conf = None \<longleftrightarrow> 1 \<le> MaxFileSizeBytes conf \<and> 0 \<le> MaxBackups conf \<and> 0 \<le> MaxAgeDays conf \<and>
     MaxAgeDays conf \<le> 106751 \<and> MaxFileSizeBytes conf \<le> MaxTotalSizeBytes conf"
  by (auto simp: RotationConf_Validate_def)

lemma with_Stat:
  assumes "with_file file_Stat s = (r, s')" "rf_ok s" "rf_file s = Some i"
  shows "same s s'" "\<And>n. r = Inr n \<Longrightarrow> n = int (length (active_content s))"
  using assms file_Stat_same [of i s r s'] by (auto simp: with_file_def rf_ok_def active_content_def)

text \<open>What the loop leaves, over the archives it read.\<close>

lemma cleanup_loop_views:
  assumes "cleanup_loop i (rf_rotation s) cutoff (archives_of s) 0 room False s1 = (r, s')" "same s s1" "rf_ok s"
    "rf_file s = Some i" "0 \<le> room" "0 \<le> MaxBackups (rf_rotation s)"
  shows "rf_ok s' \<and> settings s' = settings s \<and> active_content s' = active_content s \<and> rf_file s' = Some i \<and>
    subseq (views s') (views s) \<and> (settled s \<longrightarrow> settled s') \<and>
    (r = Inr () \<longrightarrow> settled s' \<and> (\<exists>k. views s' = take k (views s) \<and> retained (rf_rotation s) cutoff room (views s) k))"
proof -
  have wn: "well_named s" and act: "active s = Some i" using assms(3,4) by (simp_all add: rf_ok_def)
  obtain D where D0: "D \<subseteq> ar_name ` set (archives_of s) \<and> same (drop_names D s1) s' \<and>
     (r = Inr () \<longrightarrow> filter (\<lambda>a. ar_name a \<notin> D) (archives_of s) = kept_archives i (rf_rotation s) cutoff (archives_of s) 0 room False)"
    using cleanup_loop_effect [OF assms(1) distinct_archives [OF wn]] by (rule exE)
  then have D: "D \<subseteq> ar_name ` set (archives_of s)" and same: "same (drop_names D s) s'"
    using same_trans [OF drop_names_same [OF assms(2)]] by auto
  note v = same_views [OF same] and d = drop_archives [OF D]
  have arch: "archived s' = filter (\<lambda>a. ar_name a \<notin> D) (archived s)" "view s' = view s"
    by (simp_all add: v d)
  have sub: "subseq (views s') (views s)" by (simp add: views_def arch subseq_map)
  have size: "ar_size a = int (length (snd (view s a)))" if "a \<in> set (archived s)" for a
    using archives_of_entry(2) that by (simp add: archived_def view_def)
  have ok: "settled s' \<and> (\<exists>k. views s' = take k (views s) \<and> retained (rf_rotation s) cutoff room (views s) k)" if "r = Inr ()"
  proof -
    have vs: "archived s = filter (\<lambda>a. ar_inode a \<noteq> i) (archives_of s)" by (simp add: archived_def act)
    obtain k where k0: "kept_archives i (rf_rotation s) cutoff (archives_of s) 0 room False = take k (archived s) \<and>
       k \<le> length (archived s) \<and> (0 \<le> MaxBackups (rf_rotation s) \<longrightarrow> 0 + int k \<le> MaxBackups (rf_rotation s)) \<and>
       (0 \<le> room \<longrightarrow> sum_list (map ar_size (take k (archived s))) \<le> room) \<and>
       (\<forall>a\<in>set (take k (archived s)). \<not> expired (rf_rotation s) cutoff (ar_time a)) \<and>
       (k < length (archived s) \<longrightarrow> MaxBackups (rf_rotation s) \<le> 0 + int k \<or>
         room < sum_list (map ar_size (take (Suc k) (archived s))) \<or> expired (rf_rotation s) cutoff (ar_time (archived s ! k)))"
      using kept_archives_newest [OF vs] by (rule exE)
    have left: "archives_of s' = take k (archived s)"
      using D0 that k0 v by (simp add: archives_of_drop)
    then have "archived s' = take k (archived s)"
      using v(1) d(1) act by (auto simp: archived_def intro!: filter_True dest!: in_set_takeD)
    then have "views s' = take k (views s)" by (simp add: views_def arch(2) take_map)
    moreover have "settled s'"
      using left same_fields(9) [OF same] assms(4) by (auto simp: settled_def archived_def act dest!: in_set_takeD)
    moreover have "map ar_size (take j (archived s)) = map (\<lambda>v. int (length (snd v))) (take j (views s))" for j
      using size by (auto simp: views_def take_map dest: in_set_takeD)
    then have "stored (take j (views s)) = sum_list (map ar_size (take j (archived s)))" for j by (simp add: stored_def)
    then have "retained (rf_rotation s) cutoff room (views s) k"
      using k0 assms(5,6) by (auto simp: retained_def views_def list_all_iff take_map view_def)
    ultimately show ?thesis by blast
  qed
  show ?thesis
    using v d(1,2,4) d(7) [OF assms(3)] d(8) sub ok same_fields(9) [OF same] assms(4) by simp
qed

lemma cleanup_effect:
  assumes "cleanup p s = (r, s')" "rf_ok s" "rf_file s = Some i" "0 \<le> MaxBackups (rf_rotation s)"
  shows "rf_ok s' \<and> settings s' = settings s \<and> active_content s' = active_content s \<and> rf_file s' = Some i \<and>
    subseq (views s') (views s) \<and> (settled s \<longrightarrow> settled s') \<and>
    (r = Inr () \<longrightarrow> settled s' \<and> (\<exists>k c. views s' = take k (views s) \<and>
       retained (rf_rotation s) (int (clock s c) - MaxAgeDays (rf_rotation s) * int day_ns)
         (MaxTotalSizeBytes (rf_rotation s) - p - int (length (active_content s))) (views s) k))"
proof -
  have kept: "rf_ok t \<and> settings t = settings s \<and> active_content t = active_content s \<and> rf_file t = Some i \<and>
      subseq (views t) (views s) \<and> (settled s \<longrightarrow> settled t)" if "same s t" for t
    using same_views [OF that] same_fields(9) [OF that] assms(2,3) by simp
  from assms(1) show ?thesis unfolding cleanup_def
  proof (cases rule: bindFE)
    case (fail e)
    with kept [OF ValidateOutputs_same [OF fail(1)]] show ?thesis by simp
  next
    case (go u s1)
    note 1 = ValidateOutputs_same [OF go(1)]
    have wn1: "well_named s1" using assms(2) by (simp add: same_views [OF 1] rf_ok_def)
    from go(2) show ?thesis
    proof (cases rule: bindFE)
      case (fail e)
      with kept [OF same_trans [OF 1 archives_result(1) [OF fail(1) wn1]]] show ?thesis by simp
    next
      case (go as s2)
      note 2 = same_trans [OF 1 archives_result(1) [OF go(1) wn1]]
      have as: "as = archives_of s" using archives_result(2) [OF go(1) wn1 refl] by (simp add: same_views [OF 1])
      have wf2: "rf_ok s2" "rf_file s2 = Some i" using assms(2,3) same_views [OF 2] same_fields(9) [OF 2] by simp_all
      from go(2) show ?thesis
      proof (cases rule: bindFE)
        case (fail e)
        with kept [OF same_trans [OF 2 with_Stat(1) [OF fail(1) wf2]]] show ?thesis by simp
      next
        case (go n s3)
        note 3 = same_trans [OF 2 with_Stat(1) [OF go(1) wf2]]
        have n: "n = int (length (active_content s))" using with_Stat(2) [OF go(1) wf2 refl] by (simp add: same_views [OF 2])
        define t where "t = s3\<lparr>rf_size := n\<rparr>"
        have t: "rf_ok t" "settings t = settings s" "active_content t = active_content s" "rf_file t = Some i"
          "views t = views s" "settled t = settled s" "archives_of t = archives_of s" "rf_rotation t = rf_rotation s" "clock t = clock s"
          using assms(2,3) same_views [OF 3] same_fields [OF 3] by (simp_all add: t_def)
        define room where "room = MaxTotalSizeBytes (rf_rotation s) - p - n"
        from go(2) have fin: "(if room < 0 then (Inl (Errorf ''Output file exceeds max_total_size_bytes''), t)
          else bindF Now (\<lambda>now. with_file (\<lambda>i. cleanup_loop i (rf_rotation s) (int now - MaxAgeDays (rf_rotation s) * int day_ns) as 0 room False)) t)
          = (r, s')"
          by (simp add: bindF_set_size Let_def room_def t(8) cong: if_cong flip: t_def)
        show ?thesis
        proof (cases "room < 0")
          case True
          with fin t show ?thesis by auto
        next
          case False
          obtain now s4 where now: "Now t = (Inr now, s4)" by (auto simp: Now_def)
          note 4 = Now_same [OF now]
          have "rf_file s4 = Some i" using same_fields(9) [OF conjunct1 [OF 4]] t(4) by simp
          with fin False now 4 have "cleanup_loop i (rf_rotation t) (int now - MaxAgeDays (rf_rotation s) * int day_ns)
              (archives_of t) 0 room False s4 = (r, s')"
            by (simp add: bindF_def with_file_def as t(7,8))
          from cleanup_loop_views [OF this conjunct1 [OF 4] t(1,4)] False assms(4) 4 t show ?thesis
            by (auto simp: room_def n)
        qed
      qed
    qed
  qed
qed

section \<open>Writing\<close>

text \<open>The file and its archives before cleaning: rotated when the data does not fit.\<close>

definition fits_file :: "RotatingFile \<Rightarrow> bytes \<Rightarrow> bool" where
  "fits_file s data \<longleftrightarrow> int (length (active_content s)) + int (length data) \<le> MaxFileSizeBytes (rf_rotation s)"

definition rolled :: "RotatingFile \<Rightarrow> bytes \<Rightarrow> nat \<Rightarrow> (nat \<times> bytes) list" where
  "rolled s data t = (if fits_file s data then views s else (t, active_content s) # views s)"

definition base_content :: "RotatingFile \<Rightarrow> bytes \<Rightarrow> bytes" where
  "base_content s data = (if fits_file s data then active_content s else [])"

lemma later_exists: "\<exists>t. later s t"
proof (cases "views s = []")
  case False
  define m where "m = Max (fst ` set (views s))"
  have "m \<in> fst ` set (views s)" unfolding m_def using False by (intro Max_in) auto
  then have "list_ex (\<lambda>v. Suc m = fst v + 1) (views s)" by (auto simp: list_ex_iff)
  moreover have "list_all (\<lambda>v. fst v < Suc m) (views s)" by (auto simp: list_all_iff m_def less_Suc_eq_le)
  ultimately show ?thesis unfolding later_def by blast
qed (auto simp: later_def)

lemma unchanged_times: "unchanged s s' \<Longrightarrow> times_ok s' = times_ok s"
  by (simp add: unchanged_def times_ok_def settings_def)

lemma prepared_file:
  assumes "(if rf_file s = None then open_file else retS ()) s = (r, s')" "rf_ok s" "settled s"
  shows "unchanged s s' \<and> settled s' \<and> (r = Inr () \<longrightarrow> rf_file s' \<noteq> None)"
proof (cases "rf_file s")
  case None
  with assms open_file_effect [of s r s'] show ?thesis by (auto simp: unchanged_def)
next
  case (Some i)
  with assms show ?thesis by (auto simp: retS_def unchanged_def)
qed

text \<open>The rotation a write needs, from the file as it was found.\<close>

lemma rotate_unless_fits:
  assumes "(if fits_file s data then retS () else rotate_file) t = (r, s')"
    and t: "unchanged s t" "settled t" "rf_ok t" "rf_file t = Some i" "times_ok t" "views t = views s" "settings t = settings s"
      "active_content t = active_content s"
  shows "r = Inl e \<Longrightarrow> unchanged s s' \<or> rf_ok s' \<and> settings s' = settings s \<and>
      (\<exists>x. later s x \<and> active_content s' = base_content s data \<and> subseq (views s') (rolled s data x))"
    and "r = Inr u \<Longrightarrow> rf_ok s' \<and> settings s' = settings s \<and> settled s' \<and> rf_file s' \<noteq> None \<and>
      active_content s' = base_content s data \<and> (\<exists>x. later s x \<and> views s' = rolled s data x)"
proof -
  show "unchanged s s' \<or> rf_ok s' \<and> settings s' = settings s \<and>
      (\<exists>x. later s x \<and> active_content s' = base_content s data \<and> subseq (views s') (rolled s data x))" if r: "r = Inl e"
  proof -
    from assms(1) r have "rotate_file t = (Inl e, s')" "\<not> fits_file s data" by (auto simp: retS_def split: if_splits)
    then show ?thesis
      using rotate_file_effect [OF _ t(3,2,4,5), of "Inl e" s'] unchanged_trans [OF t(1)] t(6-8)
      by (auto simp: moved_def rolled_def base_content_def later_def settings_def)
  qed
  show "rf_ok s' \<and> settings s' = settings s \<and> settled s' \<and> rf_file s' \<noteq> None \<and>
      active_content s' = base_content s data \<and> (\<exists>x. later s x \<and> views s' = rolled s data x)" if r: "r = Inr u"
  proof (cases "fits_file s data")
    case True
    with assms(1) r have "s' = t" by (simp add: retS_def)
    moreover have "\<exists>x. later s x" by (rule later_exists)
    ultimately show ?thesis using True t by (auto simp: base_content_def rolled_def)
  next
    case False
    with assms(1) r have "rotate_file t = (Inr u, s')" by simp
    from rotate_file_effect [OF this t(3,2,4,5)] False t(6-8) show ?thesis
      by (auto simp: moved_def base_content_def rolled_def later_def settings_def)
  qed
qed

lemma prepare_write_effect:
  assumes "prepare_write (int (length data)) s = (r, s')" "file_ready s"
  shows "rf_ok s' \<and> settings s' = settings s \<and>
    ((\<exists>e. r = Inl e) \<and> active_content s' = active_content s \<and> subseq (views s') (views s) \<or>
     (\<exists>t. later s t \<and> active_content s' = base_content s data \<and> subseq (views s') (rolled s data t) \<and>
       (r = Inr () \<longrightarrow> settled s' \<and> rf_file s' \<noteq> None \<and>
         (\<exists>k c. views s' = take k (rolled s data t) \<and>
           retained (rf_rotation s) (int (clock s c) - MaxAgeDays (rf_rotation s) * int day_ns)
             (MaxTotalSizeBytes (rf_rotation s) - int (length data) - int (length (base_content s data))) (rolled s data t) k))))"
    (is "?goal r s'")
proof -
  have rf_ok: "rf_ok s" "settled s" "times_ok s" and conf: "0 \<le> MaxBackups (rf_rotation s)"
    using assms(2) by (simp_all add: file_ready_def RotationConf_valid)
  have failed: "?goal r s'" if "unchanged s s'" "r = Inl e" for e
    using that by (simp add: unchanged_def)
  from assms(1) show ?thesis unfolding prepare_write_def
  proof (cases rule: bindFE)
    case (fail e)
    with prepared_file [OF fail(1) rf_ok(1,2)] failed show ?thesis by blast
  next
    case (go u s1)
    then have 1: "unchanged s s1" "settled s1" using prepared_file [OF go(1) rf_ok(1,2)] by auto
    obtain i where i: "rf_file s1 = Some i" using prepared_file [OF go(1) rf_ok(1,2)] by auto
    have wf1: "rf_ok s1" "active_content s1 = active_content s" "views s1 = views s" "settings s1 = settings s"
      using 1 by (simp_all add: unchanged_def)
    from go(2) show ?thesis
    proof (cases rule: bindFE)
      case (fail e)
      with unchanged_same [OF 1(1) with_Stat(1) [OF fail(1) wf1(1) i]] failed show ?thesis by blast
    next
      case (go n s2)
      note same = with_Stat(1) [OF go(1) wf1(1) i]
      have n: "n = int (length (active_content s))" using with_Stat(2) [OF go(1) wf1(1) i refl] wf1 by simp
      define t where "t = s2\<lparr>rf_size := n\<rparr>"
      have t: "unchanged s t" "settled t" "rf_ok t" "rf_file t = Some i" "times_ok t" "views t = views s" "settings t = settings s"
        "active_content t = active_content s"
        using unchanged_same [OF 1(1) same] same_views [OF same] 1(2) i wf1 same_fields(9) [OF same] unchanged_times [OF 1(1)] rf_ok(3)
          unchanged_times [OF same_unchanged [OF wf1(1) same]]
        by (simp_all add: t_def unchanged_def)
      have conf_t: "rf_rotation t = rf_rotation s" "clock t = clock s" using t(7) by (simp_all add: settings_def)
      from go(2) have "bindF (if n > MaxFileSizeBytes (rf_rotation s) - int (length data) then rotate_file else retS ())
          (\<lambda>_. cleanup (int (length data))) t = (r, s')"
        by (simp add: bindF_set_size conf_t flip: t_def)
      moreover have "n > MaxFileSizeBytes (rf_rotation s) - int (length data) \<longleftrightarrow> \<not> fits_file s data" by (auto simp: fits_file_def n)
      ultimately have "bindF (if fits_file s data then retS () else rotate_file) (\<lambda>_. cleanup (int (length data))) t = (r, s')"
        by (cases "fits_file s data") simp_all
      then show ?thesis
      proof (cases rule: bindFE)
        case (fail e)
        with rotate_unless_fits(1) [OF fail(1) t refl] failed show ?thesis by blast
      next
        case (go u s3)
        note 3 = rotate_unless_fits(2) [OF go(1) t refl]
        then obtain x j where x: "later s x" "views s3 = rolled s data x" and j: "rf_file s3 = Some j" by auto
        from 3 have s3: "rf_ok s3" "settings s3 = settings s" "settled s3" "active_content s3 = base_content s data" by auto
        then have conf3: "rf_rotation s3 = rf_rotation s" "clock s3 = clock s" by (simp_all add: settings_def)
        note c = cleanup_effect [OF go(2) s3(1) j]
        then show ?thesis
          using conf s3 x(2) by (intro conjI disjI2 exI [of _ x] x(1)) (auto simp: conf3)
      qed
    qed
  qed
qed

lemma write_data_effect:
  assumes "write_data data s = ((n, err), s')" "rf_ok s" "settled s" "rf_file s = Some i"
  shows "rf_ok s' \<and> settled s' \<and> active_content s' = active_content s @ take n data \<and> views s' = views s \<and> n \<le> length data \<and>
    rf_rotation s' = rf_rotation s \<and> clock s' = clock s \<and>
    (err = None \<longrightarrow> n = length data) \<and> rf_writeErr s' = (if err = None then rf_writeErr s else err)"
proof -
  obtain r1 s1 where 1: "sys s = (r1, s1)" by (cases "sys s")
  note same = sys_same [OF 1]
  note f = same_fields [OF same] and v = same_views [OF same]
  have act: "active s = Some i" using assms(2,4) by (simp add: rf_ok_def)
  define m where "m = min (short s (calls s)) (length data)"
  define e0 where "e0 = (case r1 of Inl e \<Rightarrow> Some e | Inr _ \<Rightarrow> None)"
  define t where "t = s1\<lparr>inodes := (inodes s1)(i := (inodes s1 i)\<lparr>content := content (inodes s1 i) @ take m data\<rparr>)\<rparr>"
  have "file_Write i data s = ((m, e0), t)" by (simp add: file_Write_def Let_def 1 m_def e0_def t_def)
  with assms(1) have w: "m = n" "(if e0 = None \<and> m \<noteq> length data then Some ErrShortWrite else e0) = err"
    and raw: "(if (if e0 = None \<and> m \<noteq> length data then Some ErrShortWrite else e0) \<noteq> None
       then t\<lparr>rf_size := rf_size t + int m,
         rf_writeErr := if e0 = None \<and> m \<noteq> length data then Some ErrShortWrite else e0\<rparr>
       else t\<lparr>rf_size := rf_size t + int m\<rparr>) = s'"
    by (auto simp: write_data_def assms(4) Let_def simp del: not_None_eq cong: if_cong split del: if_split)
  note s' = raw [unfolded w(2), symmetric]
  have n: "n = min (short s (calls s)) (length data)" and err: "err = None \<longrightarrow> n = length data"
    using w by (auto simp: m_def split: if_splits)
  have fields: "entries s' = entries s" "rf_filename s' = rf_filename s" "next_inode s' = next_inode s" "rf_file s' = rf_file s"
    "inodes s' = (inodes s)(i := (inodes s i)\<lparr>content := content (inodes s i) @ take n data\<rparr>)" "rf_rotation s' = rf_rotation s"
    "clock s' = clock s" "rf_writeErr s' = (if err = None then rf_writeErr s else err)"
    using s' f by (simp_all add: t_def w(1))
  have others: "snd e \<noteq> i \<or> archive_time (rf_filename s) (fst e) = None" if "e \<in> set (entries s)" for e
  proof (rule ccontr)
    assume "\<not> (snd e \<noteq> i \<or> archive_time (rf_filename s) (fst e) = None)"
    then obtain a where "archive_of s e = Some a" "ar_inode a = i" by (auto simp: archive_of_def)
    with that have "a \<in> set (archives_of s)" "ar_inode a = i" by (auto simp: set_archives_of)
    with assms(3,4) show False by (auto simp: settled_def)
  qed
  then have "archive_of s' e = archive_of s e" if "e \<in> set (entries s)" for e
    using that by (auto simp: archive_of_def fields)
  then have "List.map_filter (archive_of s') es = List.map_filter (archive_of s) es" if "set es \<subseteq> set (entries s)" for es
    using that by (induction es) (auto split: option.split)
  then have archs: "archives_of s' = archives_of s" by (simp add: archives_of_def fields)
  have act': "active s' = active s" by (simp add: active_def lookup_def fields)
  have "view s' a = view s a" if "a \<in> set (archived s)" for a
    using that by (auto simp: archived_def act view_def fields)
  then have "views s' = views s" by (simp add: views_def archived_def archs act')
  moreover have "active_content s' = active_content s @ take n data"
    unfolding active_content_def act' act by (simp add: fields)
  ultimately show ?thesis
    using assms(2,3) n err by (simp add: rf_ok_def settled_def archs act' well_named_def fields)
qed

text \<open>What a reader finds: the records of the archives from the oldest on, then those of the file.\<close>

definition history :: "RotatingFile \<Rightarrow> bytes" where
  "history s = concat (map snd (rev (views s))) @ active_content s"

lemma rolled_history: "concat (map snd (rev (rolled s data t))) @ base_content s data = history s"
  by (simp add: rolled_def base_content_def history_def)

lemma take_suffix: "\<exists>old. concat (map snd (rev vs)) = old @ concat (map snd (rev (take k vs)))"
proof -
  have "rev vs = rev (drop k vs) @ rev (take k vs)" by (metis append_take_drop_id rev_append)
  then show ?thesis by (metis concat_append map_append)
qed

lemma write_done:
  assumes "RotatingFile_Write data s = ((n, None), s')" "file_ready s" "data \<noteq> []"
  shows "n = length data \<and> rf_ok s' \<and> settled s' \<and> rf_writeErr s' = rf_writeErr s \<and>
    (\<exists>t k c. later s t \<and> active_content s' = base_content s data @ data \<and> views s' = take k (rolled s data t) \<and>
       retained (rf_rotation s) (int (clock s c) - MaxAgeDays (rf_rotation s) * int day_ns)
         (MaxTotalSizeBytes (rf_rotation s) - int (length (active_content s'))) (rolled s data t) k \<and>
       int (length (active_content s')) \<le> MaxFileSizeBytes (rf_rotation s))"
proof -
  from assms(1,3) obtain u s1 where p: "prepare_write (int (length data)) s = (Inr u, s1)" "write_data data s1 = ((n, None), s')"
    and len: "int (length data) \<le> MaxFileSizeBytes (rf_rotation s)"
    by (auto simp: RotatingFile_Write_def write_failed_def split: if_splits prod.splits sum.splits)
  note e = prepare_write_effect [OF p(1) assms(2)]
  then obtain t k c i where t: "later s t" "active_content s1 = base_content s data" "views s1 = take k (rolled s data t)"
      "retained (rf_rotation s) (int (clock s c) - MaxAgeDays (rf_rotation s) * int day_ns)
         (MaxTotalSizeBytes (rf_rotation s) - int (length data) - int (length (base_content s data))) (rolled s data t) k"
    and s1: "rf_ok s1" "settled s1" "rf_file s1 = Some i" "settings s1 = settings s" by auto
  note w = write_data_effect [OF p(2) s1(1-3)]
  then have content: "active_content s' = base_content s data @ data" using t(2) by simp
  have "int (length (active_content s')) \<le> MaxFileSizeBytes (rf_rotation s)"
    using len by (simp add: content base_content_def fits_file_def)
  moreover have "rf_writeErr s' = rf_writeErr s" using w s1(4) by (simp add: settings_def)
  ultimately show ?thesis
    using w t by (intro conjI exI [of _ t] exI [of _ k] exI [of _ c]) (simp_all add: content algebra_simps)
qed

lemma write_failed_effect:
  assumes "RotatingFile_Write data s = ((n, Some e), s')" "file_ready s" "\<not> rf_closed s"
  shows "rf_ok s' \<and> rf_writeErr s' = Some e \<and> rf_rotation s' = rf_rotation s \<and> n \<le> length data \<and>
    (active_content s' = active_content s @ take n data \<and> subseq (views s') (views s) \<or>
     (\<exists>t. later s t \<and> \<not> fits_file s data \<and> active_content s' = take n data \<and> subseq (views s') ((t, active_content s) # views s)))"
proof -
  have err: "rf_ok (t\<lparr>rf_writeErr := Some e\<rparr>) = rf_ok t \<and> active_content (t\<lparr>rf_writeErr := Some e\<rparr>) = active_content t \<and>
      views (t\<lparr>rf_writeErr := Some e\<rparr>) = views t" for t
  proof -
    have "archives_of (t\<lparr>rf_writeErr := Some e\<rparr>) = archives_of t" by (simp add: archives_of_def archive_of_def [abs_def])
    moreover have "active (t\<lparr>rf_writeErr := Some e\<rparr>) = active t" by (simp add: active_def lookup_def)
    ultimately show ?thesis
      by (simp add: rf_ok_def well_named_def active_content_def views_def archived_def view_def [abs_def] split: option.split)
  qed
  consider (early) "n = 0" "s' = s\<lparr>rf_writeErr := Some e\<rparr>"
    | (prep) s1 where "prepare_write (int (length data)) s = (Inl e, s1)" "n = 0" "s' = s1\<lparr>rf_writeErr := Some e\<rparr>"
    | (late) u s1 where "prepare_write (int (length data)) s = (Inr u, s1)" "write_data data s1 = ((n, Some e), s')"
    using assms(1,3)
    by (auto simp: RotatingFile_Write_def write_failed_def split: if_splits prod.splits sum.splits)
  then show ?thesis
  proof cases
    case early
    with assms(2) err [of s] show ?thesis by (simp add: file_ready_def)
  next
    case prep
    note p = prepare_write_effect [OF prep(1) assms(2)]
    with prep(2,3) err [of s1] show ?thesis
      by (auto simp: base_content_def rolled_def settings_def split: if_splits)
  next
    case late
    note p = prepare_write_effect [OF late(1) assms(2)]
    then obtain t k i where t: "later s t" "active_content s1 = base_content s data" "subseq (views s1) (rolled s data t)"
      "rf_ok s1" "settled s1" "rf_file s1 = Some i" "rf_rotation s1 = rf_rotation s" by (auto simp: settings_def)
    from write_data_effect [OF late(2) t(4-6)] t show ?thesis
      by (auto simp: base_content_def rolled_def split: if_splits)
  qed
qed

section \<open>Closing and preparing\<close>

lemma closed_views [simp]:
  "rf_ok (s\<lparr>rf_closed := b\<rparr>) = rf_ok s"
  by (simp add: rf_ok_def well_named_def active_def lookup_def)

lemma cleanup_writeErr:
  assumes "cleanup p s = (r, s')" "rf_ok s" "rf_file s = Some i" "0 \<le> MaxBackups (rf_rotation s)"
  shows "rf_writeErr s' = rf_writeErr s"
  using cleanup_effect [OF assms] by (simp add: settings_def)

text \<open>An error of a write is not lost: \<open>Close\<close> reports one.\<close>

lemma close_reports:
  assumes "rf_ok s" "0 \<le> MaxBackups (rf_rotation s)" "rf_writeErr s = Some e"
  shows "\<exists>e'. fst (RotatingFile_Close s) = Some e'"
proof (cases "rf_closed s \<or> rf_file s = None")
  case True
  with assms(3) show ?thesis by (auto simp: RotatingFile_Close_def Let_def)
next
  case False
  then obtain i where i: "rf_file s = Some i" by auto
  obtain r1 s1 where 1: "cleanup 0 (s\<lparr>rf_closed := True\<rparr>) = (r1, s1)" by (cases "cleanup 0 (s\<lparr>rf_closed := True\<rparr>)")
  obtain r2 s2 where 2: "sys s1 = (r2, s2)" by (cases "sys s1")
  have "rf_writeErr s1 = Some e" using cleanup_writeErr [OF 1] assms i by simp
  then have "rf_writeErr s2 = Some e" using same_fields(12) [OF sys_same [OF 2]] by simp
  with False i 1 2 show ?thesis
    by (auto simp: RotatingFile_Close_def Let_def split: sum.splits option.splits)
qed

lemma new_file_same: "same s s' \<Longrightarrow> same (new_file f c s) (new_file f c s')"
  by (cases s, cases s') (simp add: same_def core_def new_file_def)

lemma start_file_done:
  assumes "start_file s = (Inr (), s')" "well_named s" "rf_file s = None" "times_ok s" "0 \<le> MaxBackups (rf_rotation s)"
    "0 \<le> MaxFileSizeBytes (rf_rotation s)"
  shows "rf_ok s' \<and> settled s' \<and> rf_file s' \<noteq> None \<and> settings s' = settings s \<and>
    int (length (active_content s')) \<le> MaxFileSizeBytes (rf_rotation s) \<and>
    (\<exists>t k c. active_content s' = base_content s [] \<and> views s' = take k (rolled s [] t) \<and>
       retained (rf_rotation s) (int (clock s c) - MaxAgeDays (rf_rotation s) * int day_ns)
         (MaxTotalSizeBytes (rf_rotation s) - int (length (active_content s'))) (rolled s [] t) k)"
proof -
  from assms(1) obtain s1 where 1: "open_file s = (Inr (), s1)" and
    2: "bindF (if rf_size s1 > MaxFileSizeBytes (rf_rotation s1) then rotate_file else retS ()) (\<lambda>_. cleanup 0) s1 = (Inr (), s')"
    unfolding start_file_def by (rule bindFE) auto
  note o = open_file_effect [OF 1 _ assms(3)]
  have s1: "rf_ok s1" "settings s1 = settings s" "active_content s1 = active_content s" "views s1 = views s" "settled s1"
    "rf_file s1 \<noteq> None" "rf_size s1 = int (length (active_content s))"
    using o assms(2,3) by (simp_all add: rf_ok_def)
  then obtain i where i: "rf_file s1 = Some i" by auto
  have conf1: "rf_rotation s1 = rf_rotation s" "times_ok s1" using s1(2,4) assms(4) by (simp_all add: settings_def times_ok_def)
  from 2 obtain u s2 where r: "(if rf_size s1 > MaxFileSizeBytes (rf_rotation s1) then rotate_file else retS ()) s1 = (Inr u, s2)"
    and c: "cleanup 0 s2 = (Inr (), s')" by (rule bindFE) auto
  have s2: "rf_ok s2 \<and> settled s2 \<and> settings s2 = settings s \<and> rf_file s2 \<noteq> None \<and> active_content s2 = base_content s [] \<and>
      (\<exists>t. views s2 = rolled s [] t)"
  proof (cases "fits_file s []")
    case True
    with r s1 conf1 have "s2 = s1" by (simp add: fits_file_def retS_def)
    with True s1 show ?thesis by (simp add: base_content_def rolled_def)
  next
    case False
    with r s1 conf1 have "rotate_file s1 = (Inr u, s2)" by (simp add: fits_file_def)
    from rotate_file_effect [OF this s1(1,5) i conf1(2)] False s1 show ?thesis
      by (auto simp: moved_def base_content_def rolled_def)
  qed
  then obtain t j where t: "views s2 = rolled s [] t" "rf_file s2 = Some j" by auto
  have conf2: "rf_rotation s2 = rf_rotation s" "clock s2 = clock s" using s2 by (simp_all add: settings_def)
  have "int (length (base_content s [])) \<le> MaxFileSizeBytes (rf_rotation s)"
    using assms(6) by (simp add: base_content_def fits_file_def)
  with cleanup_effect [OF c _ t(2)] s2 conf2 assms(5) t(1) show ?thesis by auto
qed

lemma start_file_wf:
  assumes "start_file s = (r, s')" "well_named s" "rf_file s = None" "times_ok s" "0 \<le> MaxBackups (rf_rotation s)"
  shows "rf_ok s' \<and> settings s' = settings s"
proof -
  have rf_ok: "rf_ok s" using assms(2,3) by (simp add: rf_ok_def)
  from assms(1) show ?thesis unfolding start_file_def
  proof (cases rule: bindFE)
    case (fail e)
    with open_file_effect [OF fail(1) rf_ok assms(3)] show ?thesis by simp
  next
    case (go u s1)
    note o = open_file_effect [OF go(1) rf_ok assms(3)]
    then obtain i where i: "rf_file s1 = Some i" by auto
    have times: "times_ok s1" "rf_rotation s1 = rf_rotation s" using o assms(4) by (simp_all add: settings_def times_ok_def)
    have rot: "rf_ok s2 \<and> settings s2 = settings s \<and> (\<forall>v. r2 = Inr v \<longrightarrow> rf_file s2 \<noteq> None)"
      if "(if rf_size s1 > MaxFileSizeBytes (rf_rotation s1) then rotate_file else retS ()) s1 = (r2, s2)" for r2 s2
    proof (cases "rf_size s1 > MaxFileSizeBytes (rf_rotation s1)")
      case True
      with that have "rotate_file s1 = (r2, s2)" by simp
      from rotate_file_effect [OF this _ _ i times(1)] o show ?thesis by (auto simp: unchanged_def moved_def)
    qed (use that o i in \<open>auto simp: retS_def\<close>)
    from go(2) show ?thesis
    proof (cases rule: bindFE)
      case (fail e)
      with rot [OF fail(1)] show ?thesis by simp
    next
      case (go v s2)
      from rot [OF go(1)] obtain j where j: "rf_ok s2" "settings s2 = settings s" "rf_file s2 = Some j" by auto
      then have "rf_rotation s2 = rf_rotation s" by (simp add: settings_def)
      with cleanup_effect [OF go(2) j(1,3)] j(2) assms(5) show ?thesis by simp
    qed
  qed
qed

lemma writeErr_wf [simp]: "rf_ok (s\<lparr>rf_writeErr := e\<rparr>) = rf_ok s"
  by (simp add: rf_ok_def well_named_def active_def lookup_def)

lemma prepared_start:
  assumes "prepareRotatingFile dirname fname conf s = (Inr (), s')" "well_named s" "times_ok (new_file fname conf s)"
    "RotationConf_Validate conf = None"
  obtains s3 where "same s s3" "start_file (new_file fname conf s3) = (Inr (), s')"
proof -
  let ?last = "\<lambda>s3. case start_file (new_file fname conf s3) of (Inr _, s) \<Rightarrow> (Inr (), s)
    | (Inl e, s) \<Rightarrow> (case RotatingFile_Close (s\<lparr>rf_writeErr := Some e\<rparr>) of (None, s) \<Rightarrow> (Inr (), s) | (Some e, s) \<Rightarrow> (Inl e, s))"
  obtain s1 where 1: "same s s1" "(if TrimSpace dirname = [] then errS (Errorf ''Output directory must not be empty'')
      else bindF (wrapS ''Can't resolve output directory'' sys) (\<lambda>_.
        bindF (wrapS ''Can't create output directory'' sys) (\<lambda>_. ?last))) s1 = (Inr (), s')"
    using assms(1) unfolding prepareRotatingFile_def assms(4) option.case
    by (rule bindFE) (simp, blast dest: ValidateOutputs_same)
  then have "bindF (wrapS ''Can't resolve output directory'' sys) (\<lambda>_.
      bindF (wrapS ''Can't create output directory'' sys) (\<lambda>_. ?last)) s1 = (Inr (), s')"
    by (simp add: errS_def split: if_splits)
  then obtain s2 where 2: "same s s2" "bindF (wrapS ''Can't create output directory'' sys) (\<lambda>_. ?last) s2 = (Inr (), s')"
    by (rule bindFE) (auto elim!: wrapSE dest!: sys_same same_trans [OF 1(1)])
  from 2(2) obtain s3 where 3: "same s s3" "?last s3 = (Inr (), s')"
    by (rule bindFE) (auto elim!: wrapSE dest!: sys_same same_trans [OF 2(1)])
  obtain r4 s4 where 4: "start_file (new_file fname conf s3) = (r4, s4)" by (cases "start_file (new_file fname conf s3)")
  note f = new_file_same [OF 3(1), of fname conf]
  have "well_named (new_file fname conf s3)" "rf_file (new_file fname conf s3) = None" "times_ok (new_file fname conf s3)"
    "rf_rotation (new_file fname conf s3) = conf"
    using assms(2,3) same_views [OF 3(1)] same_views [OF f] same_fields(6) [OF f]
    by (simp_all add: times_ok_def new_file_def well_named_def)
  with start_file_wf [OF 4] assms(4) have w: "rf_ok s4" "rf_rotation s4 = conf" "0 \<le> MaxBackups conf"
    by (simp_all add: RotationConf_valid settings_def)
  have "\<exists>u. r4 = Inr u \<and> s4 = s'"
  proof (cases r4)
    case (Inl e)
    from close_reports [of "s4\<lparr>rf_writeErr := Some e\<rparr>" e] w
    obtain e' where "fst (RotatingFile_Close (s4\<lparr>rf_writeErr := Some e\<rparr>)) = Some e'" by auto
    with 3(2) 4 Inl show ?thesis by (simp split: prod.splits)
  qed (use 3(2) 4 in simp)
  with 3(1) 4 that show thesis by auto
qed

section \<open>The properties\<close>

text \<open>
  C20. A successful write appends its whole record to what a reader finds in the archives and the
  file, from the oldest record on, and what is dropped of it are the oldest files: the history
  before is what is dropped followed by what is kept, and the history after is what is kept followed
  by the record. The file stays ready for the next write.
\<close>

theorem write_appends:
  assumes "RotatingFile_Write data s = ((n, None), s')" "file_ready s" "data \<noteq> []"
  shows "n = length data \<and> rf_ok s' \<and> settled s' \<and> rf_writeErr s' = rf_writeErr s \<and>
    (\<exists>old kept. history s = old @ kept \<and> history s' = kept @ data)"
proof -
  from write_done [OF assms] obtain t k where w: "active_content s' = base_content s data @ data" "views s' = take k (rolled s data t)"
    and r: "n = length data" "rf_ok s'" "settled s'" "rf_writeErr s' = rf_writeErr s" by blast
  obtain old where "concat (map snd (rev (rolled s data t))) = old @ concat (map snd (rev (views s')))"
    using take_suffix [of "rolled s data t" k] w(2) by auto
  then have "history s = old @ concat (map snd (rev (views s'))) @ base_content s data"
    by (simp flip: rolled_history [of s data t])
  with r w(1) show ?thesis by (auto simp: history_def)
qed

text \<open>
  C21. After a successful write the file is within its size limit, no more archives are kept than
  configured, the file and its archives together stay within the total limit, and no archive is older
  than its age limit. The archives that are kept are the newest ones, as many as these limits allow:
  the next older one would be one too many, exceed the total together with the newer ones, or has
  expired, and it is dropped with everything older. The record is in one file, which was rotated
  exactly when the record did not fit.
\<close>

theorem write_within_limits:
  assumes "RotatingFile_Write data s = ((n, None), s')" "file_ready s" "data \<noteq> []"
  shows "\<exists>t k c. active_content s' = (if fits_file s data then active_content s else []) @ data \<and>
    views s' = take k (if fits_file s data then views s else (t, active_content s) # views s) \<and>
    later s t \<and> int (length (active_content s')) \<le> MaxFileSizeBytes (rf_rotation s) \<and>
    int (length (views s')) \<le> MaxBackups (rf_rotation s) \<and>
    stored (views s') + int (length (active_content s')) \<le> MaxTotalSizeBytes (rf_rotation s) \<and>
    retained (rf_rotation s) (int (clock s c) - MaxAgeDays (rf_rotation s) * int day_ns)
      (MaxTotalSizeBytes (rf_rotation s) - int (length (active_content s')))
      (if fits_file s data then views s else (t, active_content s) # views s) k"
proof -
  from write_done [OF assms] obtain t k c where w: "later s t" "active_content s' = base_content s data @ data"
    "views s' = take k (rolled s data t)" "int (length (active_content s')) \<le> MaxFileSizeBytes (rf_rotation s)"
    "retained (rf_rotation s) (int (clock s c) - MaxAgeDays (rf_rotation s) * int day_ns)
       (MaxTotalSizeBytes (rf_rotation s) - int (length (active_content s'))) (rolled s data t) k" by blast
  then have "int (length (views s')) \<le> MaxBackups (rf_rotation s)"
    "stored (views s') + int (length (active_content s')) \<le> MaxTotalSizeBytes (rf_rotation s)"
    by (simp_all add: retained_def)
  with w show ?thesis
    unfolding rolled_def base_content_def by (intro exI [of _ t] exI [of _ k] exI [of _ c] conjI) assumption+
qed


text \<open>
  C31. Preparing a file in a directory with whatever files are in it gives, if it succeeds, a file that is
  open and has its name, no archive being another name of it, for valid settings. The file, the number
  of archives, their total and their ages are within the limits, and the archives that are kept are the
  newest, as many as the limits allow. Of the history only the oldest files are dropped.
\<close>

theorem prepared_well_formed:
  assumes "prepareRotatingFile dirname fname conf s = (Inr (), s')" "well_named s" "times_ok (new_file fname conf s)"
  shows "\<exists>i t k c. rf_file s' = Some i \<and> rf_filename s' = fname \<and> lookup fname s' = Some i \<and> i \<notin> ar_inode ` set (archives_of s') \<and>
    well_named s' \<and> rf_rotation s' = conf \<and> RotationConf_Validate conf = None \<and> rf_writeErr s' = None \<and> \<not> rf_closed s' \<and>
    int (length (active_content s')) \<le> MaxFileSizeBytes conf \<and> int (length (views s')) \<le> MaxBackups conf \<and>
    stored (views s') + int (length (active_content s')) \<le> MaxTotalSizeBytes conf \<and>
    list_all (\<lambda>v. \<not> expired conf (int (clock s c) - MaxAgeDays conf * int day_ns) (fst v)) (views s') \<and>
    views s' = take k (rolled (new_file fname conf s) [] t) \<and>
    retained conf (int (clock s c) - MaxAgeDays conf * int day_ns) (MaxTotalSizeBytes conf - int (length (active_content s')))
      (rolled (new_file fname conf s) [] t) k \<and>
    (\<exists>old. history (new_file fname conf s) = old @ history s')"
proof -
  have conf: "RotationConf_Validate conf = None" using assms(1) by (auto simp: prepareRotatingFile_def errS_def split: option.splits)
  then have valid: "0 \<le> MaxBackups conf" "0 \<le> MaxFileSizeBytes conf" by (auto simp: RotationConf_valid)
  obtain s3 where 3: "same s s3" and start: "start_file (new_file fname conf s3) = (Inr (), s')"
    by (rule prepared_start [OF assms conf])
  note f = new_file_same [OF 3, of fname conf]
  let ?f = "new_file fname conf s3"
  have new: "rf_file ?f = None" "rf_rotation ?f = conf" "rf_writeErr ?f = None" "\<not> rf_closed ?f" "rf_filename ?f = fname"
    "clock ?f = clock s"
    using same_fields [OF 3] by (simp_all add: new_file_def)
  have wn: "well_named ?f" "times_ok ?f"
    using assms(2,3) same_views [OF 3] same_views [OF f] same_fields(6) [OF f]
    by (simp_all add: times_ok_def new_file_def well_named_def)
  from start_file_done [OF start wn(1) new(1) wn(2)] valid obtain t k c where
    s': "rf_ok s'" "settled s'" "rf_file s' \<noteq> None" "settings s' = settings ?f" "int (length (active_content s')) \<le> MaxFileSizeBytes conf"
      "active_content s' = base_content ?f []" "views s' = take k (rolled ?f [] t)"
      "retained conf (int (clock s c) - MaxAgeDays conf * int day_ns)
         (MaxTotalSizeBytes conf - int (length (active_content s'))) (rolled ?f [] t) k"
    by (auto simp: new(2,6))
  obtain old where "concat (map snd (rev (rolled ?f [] t))) = old @ concat (map snd (rev (views s')))"
    using take_suffix [of "rolled ?f [] t" k] s'(7) by auto
  then have "history ?f = old @ history s'"
    unfolding rolled_history [of ?f "[]" t, symmetric] history_def [of s'] s'(6) by simp
  moreover have same: "history ?f = history (new_file fname conf s)" "rolled ?f [] t = rolled (new_file fname conf s) [] t"
    using same_views [OF f] same_fields [OF f] by (simp_all add: history_def rolled_def fits_file_def)
  ultimately have hist: "\<exists>old. history (new_file fname conf s) = old @ history s'" by (intro exI [of _ old]) simp
  have names: "rf_rotation s' = conf" "rf_writeErr s' = None" "\<not> rf_closed s'" "rf_filename s' = fname"
    using s'(4) new by (simp_all add: settings_def)
  obtain i where i: "rf_file s' = Some i" using s'(3) by auto
  have the_file: "lookup fname s' = Some i" "i \<notin> ar_inode ` set (archives_of s')" "well_named s'"
    using s'(1,2) i names(4) by (simp_all add: rf_ok_def settled_def active_def)
  have bounds: "int (length (views s')) \<le> MaxBackups conf"
    "stored (views s') + int (length (active_content s')) \<le> MaxTotalSizeBytes conf"
    "list_all (\<lambda>v. \<not> expired conf (int (clock s c) - MaxAgeDays conf * int day_ns) (fst v)) (views s')"
    using s'(7,8) by (auto simp: retained_def)
  show ?thesis
    by (intro exI [of _ i] exI [of _ t] exI [of _ k] exI [of _ c] conjI
        i names the_file bounds conf hist s'(5) s'(7) [unfolded same(2)] s'(8) [unfolded same(2)])
qed

section \<open>Witnesses\<close>

definition demo_file :: "bytes \<Rightarrow> bytes \<Rightarrow> (nat \<Rightarrow> string option) \<Rightarrow> RotatingFile" where
  "demo_file new old faults = \<lparr>entries = [(archive_name ''a.log'' 0, 1), (''a.log'', 0)],
     inodes = (\<lambda>i. \<lparr>content = (if i = 0 then new else old), regular = True\<rparr>), next_inode = 2,
     fault = faults, short = \<lambda>_. 1, clock = \<lambda>_. 0, calls = 0, ticks = 0, rf_filename = ''a.log'',
     rf_rotation = \<lparr>MaxFileSizeBytes = 4, MaxBackups = 1, MaxAgeDays = 0, MaxTotalSizeBytes = 8\<rparr>, rf_file = None,
     rf_size = 0, rf_closed = False, rf_writeErr = None\<rparr>"

lemma year_10000_pos: "Suc 0 < year_10000"
  using year_start_ge [of 10000] by (simp add: year_10000_def day_ns_def)

lemma demo_archive: "archive_time ''a.log'' (archive_name ''a.log'' 0) = Some 0" "archive_name ''a.log'' 0 \<noteq> ''a.log''"
  "''a.log'' \<noteq> archive_name ''a.log'' 0"
  using archive_time_name [of 0 "''a.log''"] archive_time_filename [of "''a.log''"] year_10000_pos by auto

lemmas run_defs = demo_file_def RotatingFile_Write_def prepare_write_def bindF_def retS_def open_file_def ValidateOutputs_call_def
  sys_def OpenFile_def lookup_def wrapS_def check_opened_def file_Stat_def archives_def newest_first_def with_file_def set_size_def
  cleanup_def Now_def write_data_def file_Write_def write_failed_def os_Stat_def os_Remove_def demo_archive
  RotatingFile_Close_def Let_def

lemmas view_defs = history_def views_def archived_def archives_of_def archive_of_def newest_first_def view_def active_content_def active_def lookup_def
  stored_def

lemma demo_ready: "file_ready (demo_file new old faults)"
  using year_10000_pos
  by (auto simp: file_ready_def demo_file_def rf_ok_def well_named_def settled_def times_ok_def views_def archived_def archives_of_def newest_first_def
      archive_of_def RotationConf_valid demo_archive view_def active_def)

text \<open>A write that goes through, one that makes the archive go, one that stops halfway, and a file prepared.\<close>

lemma demo_write: "\<exists>s'. RotatingFile_Write [2] (demo_file [1] [7] (\<lambda>_. None)) = ((1, None), s') \<and> history s' = [7, 1, 2]"
  by (simp add: run_defs view_defs)

lemma demo_write_full:
  "\<exists>s'. RotatingFile_Write [2] (demo_file [1] [7, 7, 7, 7, 7, 7, 7] (\<lambda>_. None)) = ((1, None), s') \<and> history s' = [1, 2]"
  by (simp add: run_defs view_defs)

lemma demo_write_short: "\<exists>s' e. RotatingFile_Write [2, 3] (demo_file [1] [7] (\<lambda>_. None)) = ((1, Some e), s') \<and> history s' = [7, 1, 2]"
  by (simp add: run_defs view_defs)

lemma demo_prepared: "\<exists>s'. prepareRotatingFile ''d'' ''a.log'' (rf_rotation (demo_file [1] [7] (\<lambda>_. None))) (demo_file [1] [7] (\<lambda>_. None)) =
    (Inr (), s') \<and> history s' = [7, 1]"
proof -
  have "TrimSpace ''d'' \<noteq> []" by code_simp
  then show ?thesis
    by (simp add: run_defs view_defs prepareRotatingFile_def start_file_def new_file_def RotationConf_Validate_def)
qed

lemma write_appends_witness:
  "\<exists>s' old kept. RotatingFile_Write [2] (demo_file [1] [7] (\<lambda>_. None)) = ((1, None), s') \<and> rf_ok s' \<and> settled s' \<and>
     history (demo_file [1] [7] (\<lambda>_. None)) = old @ kept \<and> history s' = kept @ [2]"
proof -
  obtain s' where w: "RotatingFile_Write [2] (demo_file [1] [7] (\<lambda>_. None)) = ((1, None), s')" using demo_write by blast
  from write_appends [OF w demo_ready] w show ?thesis by auto
qed

lemma write_within_limits_witness:
  "\<exists>s'. RotatingFile_Write [2] (demo_file [1] [7, 7, 7, 7, 7, 7, 7] (\<lambda>_. None)) = ((1, None), s') \<and> history s' = [1, 2] \<and>
     stored (views s') + int (length (active_content s')) \<le> 8"
proof -
  obtain s' where w: "RotatingFile_Write [2] (demo_file [1] [7, 7, 7, 7, 7, 7, 7] (\<lambda>_. None)) = ((1, None), s')"
    "history s' = [1, 2]" using demo_write_full by blast
  from write_within_limits [OF w(1) demo_ready] w show ?thesis by (auto simp: demo_file_def)
qed


lemma prepared_well_formed_witness:
  "\<exists>s' i. history s' = [7, 1] \<and> rf_file s' = Some i \<and> lookup ''a.log'' s' = Some i \<and> int (length (active_content s')) \<le> 4"
proof -
  obtain s' where w: "prepareRotatingFile ''d'' ''a.log'' (rf_rotation (demo_file [1] [7] (\<lambda>_. None))) (demo_file [1] [7] (\<lambda>_. None)) = (Inr (), s')"
    "history s' = [7, 1]" using demo_prepared by blast
  have "well_named (demo_file [1] [7] (\<lambda>_. None))"
    "times_ok (new_file ''a.log'' (rf_rotation (demo_file [1] [7] (\<lambda>_. None))) (demo_file [1] [7] (\<lambda>_. None)))"
    using demo_ready [of "[1]" "[7]" "\<lambda>_. None"] by (simp_all add: file_ready_def rf_ok_def new_file_def demo_file_def)
  from prepared_well_formed [OF w(1) this] w(2) show ?thesis
    by (elim exE conjE) (intro exI [of _ s'] exI conjI, assumption+, simp add: demo_file_def)
qed

end
