(* ===== verification/Writer_Properties.thy ===== *)
theory Writer_Properties
  imports Writer Rotation_Contents Rotation_Properties
begin

text \<open>
  What the outputs of records hold, over any sequence of attempts: a stream holds the records whose
  attempts succeeded, a size-limited file and its archives hold whole records.
\<close>

section \<open>Outputs that only append\<close>

text \<open>
  The contract of an output: it has some files, a call appends a part of its data to some of them
  and reports how much, and new files are empty.
\<close>

locale record_output =
  fixes put :: "bytes \<Rightarrow> 's \<Rightarrow> (nat \<times> goerr option) \<times> 's"
    and parts :: "'s \<Rightarrow> bytes set"
  assumes write_bound: "put data s = ((n, err), s') \<Longrightarrow> n \<le> length data"
    and write_parts: "put data s = ((n, err), s') \<Longrightarrow> p \<in> parts s' \<Longrightarrow>
      p \<in> insert [] (parts s) \<or> (\<exists>q\<in>insert [] (parts s). p = q @ take n data)"

text \<open>A sequence of whole records.\<close>

definition whole :: "bytes set \<Rightarrow> bytes \<Rightarrow> bool" where
  "whole lines p \<longleftrightarrow> (\<exists>ls. set ls \<subseteq> lines \<and> p = concat ls)"

definition encoded :: "(Record \<Rightarrow> bytes result) \<Rightarrow> bytes set" where
  "encoded encode = {data. \<exists>record. encode record = Inr data}"

text \<open>Whole records, and after an error that stopped the writer at most the beginning of one more.\<close>

definition begun :: "bytes set \<Rightarrow> bytes \<Rightarrow> bool" where
  "begun lines p \<longleftrightarrow> (\<exists>q l k. whole lines q \<and> l \<in> lines \<and> p = q @ take k l)"

lemma whole_Nil [simp]: "whole lines []"
  by (auto simp: whole_def intro: exI [of _ "[]"])

lemma whole_snoc: "whole lines p \<Longrightarrow> l \<in> lines \<Longrightarrow> whole lines (p @ l)"
  unfolding whole_def by (elim exE conjE, intro exI [of _ "_ @ [l]"]) auto

context record_output
begin

definition sound :: "(Record \<Rightarrow> bytes result) \<Rightarrow> 's Writer \<Rightarrow> bool" where
  "sound encode w \<longleftrightarrow> (\<forall>p\<in>parts (w_output w). whole (encoded encode) p \<or> w_writeErr w \<noteq> None \<and> begun (encoded encode) p)"

lemma write_record_sound:
  assumes "write_record put att data w = (err, w')" "sound encode w" "w_writeErr w = None" "data \<in> encoded encode"
  shows "sound encode w'"
proof -
  obtain n e out where wr: "put data (w_output w) = ((n, e), out)" by (cases "put data (w_output w)") auto
  have parts: "\<forall>p\<in>insert [] (parts (w_output w)). whole (encoded encode) p"
    using assms(2,3) by (auto simp: sound_def)
  have out: "w_output w' = out" and err: "w_writeErr w' = None \<longrightarrow> n = 0 \<or> n = length data"
    using assms(1,3) by (auto simp: write_record_def wr Let_def split: option.splits if_splits)
  show ?thesis
    unfolding sound_def out
  proof
    fix p assume "p \<in> parts out"
    from write_parts [OF wr this]
    show "whole (encoded encode) p \<or> w_writeErr w' \<noteq> None \<and> begun (encoded encode) p"
    proof
      assume "\<exists>q\<in>insert [] (parts (w_output w)). p = q @ take n data"
      then obtain q where q: "whole (encoded encode) q" "p = q @ take n data" using parts by blast
      show ?thesis
      proof (cases "w_writeErr w' = None")
        case True
        with err q whole_snoc [OF q(1) assms(4)] show ?thesis by auto
      next
        case False
        with q assms(4) show ?thesis by (auto simp: begun_def)
      qed
    qed (use parts in blast)
  qed
qed

lemma WriteContext_sound:
  assumes "Writer_WriteContext put encode att record w = (err, w')" "sound encode w"
  shows "sound encode w'"
proof -
  from assms(1) consider "w' = w"
    | data where "encode record = Inr data" "w_writeErr w = None" "write_record put att data w = (err, w')"
    by (auto simp: Writer_WriteContext_def split: if_splits sum.splits)
  then show ?thesis
  proof cases
    case (2 data)
    with write_record_sound [OF 2(3) assms(2) 2(2)] show ?thesis by (auto simp: encoded_def)
  qed (use assms(2) in simp)
qed

lemma writes_sound:
  "Writer_attempts put encode as w = (errs, w') \<Longrightarrow> sound encode w \<Longrightarrow> sound encode w'"
proof (induction as arbitrary: w errs)
  case (Cons a as)
  obtain att r where a: "a = (att, r)" by (cases a)
  obtain err w1 where 1: "Writer_WriteContext put encode att r w = (err, w1)"
    by (cases "Writer_WriteContext put encode att r w")
  from Cons.prems(1) obtain errs' where "Writer_attempts put encode as w1 = (errs', w')"
    by (auto simp: a 1 split: prod.splits)
  with Cons.IH WriteContext_sound [OF 1 Cons.prems(2)] show ?case by blast
qed simp

end

section \<open>Streams\<close>

interpretation stream_output: record_output stream_Write "\<lambda>s. {st_taken s}"
  by unfold_locales (auto simp: stream_Write_def Let_def)

text \<open>The records of the attempts that reported no error, in their order.\<close>

definition stream_delivered :: "(Record \<Rightarrow> bytes result) \<Rightarrow> (attempt \<times> Record) list \<Rightarrow> goerr option list \<Rightarrow> bytes" where
  "stream_delivered encode as errs = concat (map (\<lambda>((_, record), err).
     if err = None then (case encode record of Inr data \<Rightarrow> data | Inl _ \<Rightarrow> []) else []) (zip as errs))"

lemma stream_delivered_simps [simp]:
  "stream_delivered encode [] errs = []"
  "stream_delivered encode (a # as) (None # errs) = (case encode (snd a) of Inr data \<Rightarrow> data | Inl _ \<Rightarrow> []) @ stream_delivered encode as errs"
  "stream_delivered encode (a # as) (Some e # errs) = stream_delivered encode as errs"
  by (simp_all add: stream_delivered_def split: prod.split)

lemma stopped_attempts:
  "Writer_attempts put encode as w = (errs, w') \<Longrightarrow> w_writeErr w = Some e \<Longrightarrow> w' = w \<and> stream_delivered encode as errs = []"
proof (induction as arbitrary: errs)
  case (Cons a as)
  obtain att r where a: "a = (att, r)" by (cases a)
  have "Writer_WriteContext put encode att r w = (Some (if w_closed w then ErrClosed else e), w)"
    using Cons.prems(2) by (simp add: Writer_WriteContext_def)
  with Cons show ?case by (auto simp: a split: prod.splits)
qed simp

lemma attempts_length: "Writer_attempts put encode as w = (errs, w') \<Longrightarrow> length errs = length as"
  by (induction as arbitrary: w errs) (auto split: prod.splits)

lemma stream_attempt:
  assumes "Writer_WriteContext stream_Write encode att record w = (err, w')" "w_writeErr w = None"
  shows "\<exists>rest. st_taken (w_output w') = st_taken (w_output w) @ stream_delivered encode [(att, record)] [err] @ rest \<and>
    (w_writeErr w' = None \<longrightarrow> rest = []) \<and> (rest = [] \<or> (\<exists>data k. encode record = Inr data \<and> rest = take k data))"
proof -
  from assms(1) consider (kept) "w' = w" "err \<noteq> None"
    | (wrote) data where "encode record = Inr data" "write_record stream_Write att data w = (err, w')"
    using assms(2) by (auto simp: Writer_WriteContext_def simp del: not_None_eq split: if_splits sum.splits)
  then show ?thesis
  proof cases
    case (wrote data)
    obtain n e out where wr: "stream_Write data (w_output w) = ((n, e), out)" by (cases "stream_Write data (w_output w)") auto
    have out: "st_taken out = st_taken (w_output w) @ take n data" using wr by (auto simp: stream_Write_def Let_def)
    have w': "w_output w' = out" "err = None \<longrightarrow> n = length data" "err \<noteq> None \<longrightarrow> w_writeErr w' \<noteq> None \<or> n = 0"
      using wrote(2) by (auto simp: write_record_def wr Let_def split: option.splits if_splits)
    show ?thesis
    proof (cases "err = None")
      case True
      with wrote(1) w' out show ?thesis by auto
    next
      case False
      with wrote(1) w' out show ?thesis by (intro exI [of _ "take n data"]) auto
    qed
  qed auto
qed

text \<open>
  C23. Over any sequence of attempts the standard output, whatever it takes of the data and whenever
  an attempt is interrupted, holds exactly the records whose attempts succeeded, each once and in
  their order; after them at most the beginning of one record, and then the writer has stopped for
  good.
\<close>

theorem stream_holds_delivered:
  assumes "Writer_attempts stream_Write encode as w = (errs, w')" "w_writeErr w = None"
  shows "\<exists>rest. st_taken (w_output w') = st_taken (w_output w) @ stream_delivered encode as errs @ rest \<and> length errs = length as \<and>
    (w_writeErr w' = None \<longrightarrow> rest = []) \<and>
    (rest = [] \<or> (\<exists>(att, record)\<in>set as. \<exists>data k. encode record = Inr data \<and> rest = take k data))"
  using assms
proof (induction as arbitrary: w errs)
  case (Cons a as)
  obtain att r where a: "a = (att, r)" by (cases a)
  obtain err w1 where 1: "Writer_WriteContext stream_Write encode att r w = (err, w1)"
    by (cases "Writer_WriteContext stream_Write encode att r w")
  from Cons.prems(1) obtain errs' where 2: "Writer_attempts stream_Write encode as w1 = (errs', w')" "errs = err # errs'"
    by (auto simp: a 1 split: prod.splits)
  obtain rest where R: "st_taken (w_output w1) = st_taken (w_output w) @ stream_delivered encode [(att, r)] [err] @ rest \<and>
      (w_writeErr w1 = None \<longrightarrow> rest = []) \<and> (rest = [] \<or> (\<exists>data k. encode r = Inr data \<and> rest = take k data))"
    using stream_attempt [OF 1 Cons.prems(2)] by (rule exE)
  have split: "stream_delivered encode (a # as) errs = stream_delivered encode [(att, r)] [err] @ stream_delivered encode as errs'"
    by (cases err) (simp_all add: 2(2) a)
  show ?case
  proof (cases "w_writeErr w1")
    case None
    obtain rest' where "st_taken (w_output w') = st_taken (w_output w1) @ stream_delivered encode as errs' @ rest' \<and> length errs' = length as \<and>
        (w_writeErr w' = None \<longrightarrow> rest' = []) \<and>
        (rest' = [] \<or> (\<exists>(att, record)\<in>set as. \<exists>data k. encode record = Inr data \<and> rest' = take k data))"
      using Cons.IH [OF 2(1) None] by (rule exE)
    with R None show ?thesis unfolding split by (intro exI [of _ rest']) (auto simp: 2(2))
  next
    case (Some e)
    from stopped_attempts [OF 2(1) Some] have "w' = w1" "stream_delivered encode as errs' = []" by auto
    moreover have "length errs' = length as" by (rule attempts_length [OF 2(1)])
    ultimately show ?thesis using R Some unfolding split by (intro exI [of _ rest]) (auto simp: 2(2) a)
  qed
qed simp

section \<open>Files\<close>

interpretation file_output: record_output RotatingFile_Write "\<lambda>s. range (file_content s)"
proof unfold_locales
  fix data s n err s'
  assume w: "RotatingFile_Write data s = ((n, err), s')"
  show "n \<le> length data" by (rule RotatingFile_Write_grows(1) [OF w])
  fix p assume "p \<in> range (file_content s')"
  then obtain i where "p = file_content s' i" by blast
  with RotatingFile_Write_grows(2) [OF w, of i]
  show "p \<in> insert [] (range (file_content s)) \<or> (\<exists>q\<in>insert [] (range (file_content s)). p = q @ take n data)" by auto
qed

lemma views_contents: "active_content s \<in> insert [] (range (file_content s))" "snd ` set (views s) \<subseteq> range (file_content s)"
  by (auto simp: active_content_def views_def view_def file_content_def split: option.split)

text \<open>
  C24. If the packet file and its archives hold whole records, then after any sequence of attempts,
  whatever calls fail while writing, rotating and cleaning, they hold whole records still: no record is
  split between two files or follows a part of another. Only after an error that stopped the writer for
  good may a file end with the beginning of a record.
\<close>

theorem files_hold_whole_records:
  assumes "Writer_attempts RotatingFile_Write encode as w = (errs, w')" "w_writeErr w = None"
    "\<forall>i. whole (encoded encode) (file_content (w_output w) i)"
  shows "list_all (\<lambda>p. whole (encoded encode) p \<or> w_writeErr w' \<noteq> None \<and> begun (encoded encode) p)
    (active_content (w_output w') # map snd (views (w_output w')))"
proof -
  have "file_output.sound encode w" using assms(3) by (auto simp: file_output.sound_def)
  from file_output.writes_sound [OF assms(1) this]
  have "whole (encoded encode) p \<or> w_writeErr w' \<noteq> None \<and> begun (encoded encode) p"
    if "p \<in> insert [] (range (file_content (w_output w')))" for p
    using that unfolding file_output.sound_def by auto
  moreover have "set (active_content (w_output w') # map snd (views (w_output w'))) \<subseteq> insert [] (range (file_content (w_output w')))"
    using views_contents [of "w_output w'"] by auto
  ultimately show ?thesis unfolding list_all_iff by blast
qed

section \<open>Witnesses\<close>

definition writer_record :: Record where
  "writer_record = \<lparr>ReceivedAt = 0, RecSource = \<lparr>RemoteAddress = [], TerminalID = None\<rparr>, RecPacket = Packet0, RecRaw = []\<rparr>"

definition demo_stream :: "stream Writer" where
  "demo_stream = \<lparr>w_output = \<lparr>st_taken = [], st_short = (\<lambda>k. if k = 0 then 2 else 1),
     st_fault = (\<lambda>k. if k = 0 then None else Some (ErrNew ''i/o timeout'')), st_calls = 0\<rparr>,
     w_deadline = True, w_closed = False, w_writeErr = None\<rparr>"

text \<open>One record goes through, the next stops after one byte, and the third is refused.\<close>

lemma stream_holds_delivered_witness:
  "\<exists>errs w' rest. Writer_attempts stream_Write (\<lambda>_. Inr [1, 2]) [(background, writer_record), (background, writer_record),
       (background, writer_record)] demo_stream = (errs, w') \<and>
     st_taken (w_output w') = [1, 2, 1] \<and> st_taken (w_output w') = [1, 2] @ rest \<and> length errs = 3"
proof -
  obtain errs w' where run: "Writer_attempts stream_Write (\<lambda>_. Inr [1, 2]) [(background, writer_record), (background, writer_record),
      (background, writer_record)] demo_stream = (errs, w')" "st_taken (w_output w') = [1, 2, 1]"
    "stream_delivered (\<lambda>_. Inr [1, 2]) [(background, writer_record), (background, writer_record), (background, writer_record)] errs = [1, 2]"
    by (simp add: demo_stream_def background_def Writer_WriteContext_def write_record_def stream_Write_def interrupted_err_def Let_def)
  have "w_writeErr demo_stream = None" by (simp add: demo_stream_def)
  from stream_holds_delivered [OF run(1) this] run show ?thesis by (auto simp: demo_stream_def)
qed

definition demo_file_writer :: "RotatingFile Writer" where
  "demo_file_writer = \<lparr>w_output = demo_file [2] [2, 2] (\<lambda>_. None), w_deadline = False, w_closed = False, w_writeErr = None\<rparr>"

lemma files_hold_whole_records_witness:
  "\<exists>w'. Writer_attempts RotatingFile_Write (\<lambda>_. Inr [2]) [(background, writer_record)] demo_file_writer = ([None], w') \<and>
     history (w_output w') = [2, 2, 2, 2] \<and> w_writeErr w' = None \<and> whole {[2]} (active_content (w_output w'))"
proof -
  obtain w' where run: "Writer_attempts RotatingFile_Write (\<lambda>_. Inr [2]) [(background, writer_record)] demo_file_writer = ([None], w')"
    "history (w_output w') = [2, 2, 2, 2]" "w_writeErr w' = None"
    by (simp add: demo_file_writer_def background_def Writer_WriteContext_def write_record_def interrupted_err_def run_defs view_defs)
  have lines: "encoded (\<lambda>_. Inr [2]) = {[2]}" by (auto simp: encoded_def)
  have "whole {[2]} [2]" "whole {[2]} [2, 2]"
    using whole_snoc [of "{[2]}" "[]" "[2]"] whole_snoc [of "{[2]}" "[2]" "[2]"] by simp_all
  then have "\<forall>i. whole (encoded (\<lambda>_. Inr [2])) (file_content (w_output demo_file_writer) i)"
    by (simp add: lines demo_file_writer_def demo_file_def file_content_def)
  from files_hold_whole_records [OF run(1) _ this] run lines show ?thesis by (simp add: demo_file_writer_def)
qed

end
