(* ===== verification/Brokers.thy ===== *)
theory Brokers
  imports Gateway_State Rotation
begin

text \<open>
  The writers of records to the message brokers, \<open>gateway/destination/rabbitmq.go\<close> and
  \<open>gateway/destination/valkey.go\<close>. The client libraries are third-party code: what their calls return
  during an attempt is a parameter of it, and what is handed to them is a result. So are the hash of
  a record and \<open>Record.Encode\<close>.
\<close>

definition net_ErrClosed :: goerr where
  "net_ErrClosed = ErrNew ''use of closed network connection''"

section \<open>RabbitMQ\<close>

text \<open>
  A connection or channel is present or not, and the library says of a present one whether it is
  closed.
\<close>

record RabbitMQ =
  rb_cfg :: RabbitMQDestinationConf
  rb_socket :: bool
  rb_connection :: "bool option"
  rb_channel :: "bool option"
  rb_closed :: bool

definition PrepareRabbitMQ :: "RabbitMQDestinationConf \<Rightarrow> RabbitMQ result" where
  "PrepareRabbitMQ conf =
     (if \<not> RabbitEnabled conf then Inl (Errorf ''RabbitMQ destination is disabled'')
      else
        (case RabbitMQDestination_Validate conf of
           Some e \<Rightarrow> Inl e
         | None \<Rightarrow> Inr \<lparr>rb_cfg = conf, rb_socket = False, rb_connection = None, rb_channel = None, rb_closed = False\<rparr>))"

text \<open>
  The channels that \<open>waitConfirmation\<close> selects from: the one that is ready first, with the value it
  delivers, or \<open>None\<close> when it is closed.
\<close>

datatype broker_event =
    Ev_done goerr
  | Ev_returned "(int \<times> string) option"
  | Ev_channel_closed "goerr option option"
  | Ev_confirmation "(nat \<times> bool) option"

text \<open>The second select looks for a return without waiting: nothing there, closed, or a return.\<close>

datatype late_return = No_return | Return_closed | Returned "int \<times> string"

definition waitConfirmation :: "nat \<Rightarrow> broker_event \<Rightarrow> late_return \<Rightarrow> goerr option" where
  "waitConfirmation seqno ev late =
     (case ev of
        Ev_done e \<Rightarrow> Some e
      | Ev_returned None \<Rightarrow> Some (Errorf ''RabbitMQ connection closed before confirmation'')
      | Ev_returned (Some _) \<Rightarrow> Some (Errorf ''RabbitMQ returned packet: %d %s'')
      | Ev_channel_closed (Some (Some e)) \<Rightarrow> Some (Wrapf ''RabbitMQ channel closed before confirmation: %w'' e)
      | Ev_channel_closed _ \<Rightarrow> Some (Errorf ''RabbitMQ channel closed before confirmation'')
      | Ev_confirmation None \<Rightarrow> Some (Errorf ''RabbitMQ confirmation channel closed'')
      | Ev_confirmation (Some (tag, ack)) \<Rightarrow>
          if tag \<noteq> seqno then Some (Errorf ''Unexpected RabbitMQ confirmation: got %d, expected %d'')
          else if \<not> ack then Some (Errorf ''RabbitMQ rejected packet publication'')
          else (case late of Returned _ \<Rightarrow> Some (Errorf ''RabbitMQ returned packet: %d %s'') | _ \<Rightarrow> None))"

text \<open>What the calls of one attempt return.\<close>

record rabbit_attempt =
  raCtx :: "goerr option"
  raSocketClose :: "nat \<Rightarrow> goerr option"
  raDial :: "goerr option"
  raOpen :: "goerr option"
  raChannel :: "goerr option"
  raConfirm :: "goerr option"
  raDeclare :: "goerr option"
  raConnectCtx :: "goerr option"
  raConnectInterrupt :: "goerr option"
  raSeqno :: nat
  raPublish :: "goerr option"
  raEvent :: broker_event
  raLate :: late_return
  raPublishCtx :: "goerr option"
  raPublishInterrupt :: "goerr option"

text \<open>\<open>closeConnection\<close>, given what the k-th close of a socket in the attempt returns.\<close>

definition closeConnection :: "goerr option \<Rightarrow> RabbitMQ \<Rightarrow> goerr option \<times> RabbitMQ" where
  "closeConnection res r =
     (let err = (if rb_socket r then (case res of Some e \<Rightarrow> if errors_Is e net_ErrClosed then None else Some e | None \<Rightarrow> None) else None) in
      (err, r\<lparr>rb_socket := False, rb_connection := None, rb_channel := None\<rparr>))"

definition interrupt_failed :: "goerr option \<Rightarrow> goerr option" where
  "interrupt_failed res = (case res of Some e \<Rightarrow> if errors_Is e net_ErrClosed then None else Some e | None \<Rightarrow> None)"

definition or_else :: "goerr option \<Rightarrow> goerr option \<Rightarrow> goerr option" where
  "or_else a b = (case a of Some e \<Rightarrow> Some e | None \<Rightarrow> b)"

definition rabbit_up :: "RabbitMQ \<Rightarrow> bool" where
  "rabbit_up r \<longleftrightarrow> rb_connection r = Some False \<and> rb_channel r = Some False"

text \<open>The calls after dialling, in their order, and how far they get.\<close>

definition set_up :: "rabbit_attempt \<Rightarrow> RabbitMQ \<Rightarrow> goerr option \<times> RabbitMQ" where
  "set_up a r =
     (case raOpen a of
        Some e \<Rightarrow> (Some e, r)
      | None \<Rightarrow>
          (let r = r\<lparr>rb_connection := Some False\<rparr> in
           case raChannel a of
             Some e \<Rightarrow> (Some e, r)
           | None \<Rightarrow>
               (let r = r\<lparr>rb_channel := Some False\<rparr> in
                case raConfirm a of
                  Some e \<Rightarrow> (Some e, r)
                | None \<Rightarrow>
                    (case raDeclare a of
                       Some e \<Rightarrow> (Some (Wrapf ''Can't declare RabbitMQ queue %s: %w'' e), r)
                     | None \<Rightarrow> (None, r)))))"

definition connect :: "rabbit_attempt \<Rightarrow> RabbitMQ \<Rightarrow> goerr option \<times> RabbitMQ" where
  "connect a r =
     (if rabbit_up r then (None, r)
      else
        (case closeConnection (raSocketClose a 0) r of
           (Some e, r) \<Rightarrow> (Some e, r)
         | (None, r) \<Rightarrow>
             (case raDial a of
                Some e \<Rightarrow> (Some e, r)
              | None \<Rightarrow>
                  (let (err, r) = set_up a (r\<lparr>rb_socket := True\<rparr>);
                       err = (if raConnectCtx a \<noteq> None then raConnectCtx a else err) in
                   (or_else err (interrupt_failed (raConnectInterrupt a)), r)))))"

text \<open>A message: the queue, the identifier and the body.\<close>

type_synonym message = "string \<times> string \<times> bytes"

definition publish :: "rabbit_attempt \<Rightarrow> RabbitMQ \<Rightarrow> goerr option" where
  "publish a r =
     (let err = (case raPublish a of
                   Some e \<Rightarrow> Some (Wrapf ''Can't publish RabbitMQ packet'' e)
                 | None \<Rightarrow> waitConfirmation (raSeqno a) (raEvent a) (raLate a));
          err = (if err \<noteq> None \<and> raPublishCtx a \<noteq> None then raPublishCtx a else err) in
      or_else err (interrupt_failed (raPublishInterrupt a)))"

definition rabbit_failed :: "rabbit_attempt \<Rightarrow> goerr \<Rightarrow> RabbitMQ \<Rightarrow> goerr option \<times> RabbitMQ" where
  "rabbit_failed a e r =
     (case closeConnection (raSocketClose a 1) r of
        (Some _, r) \<Rightarrow> (Some (Wrapf ''%w; Can't close RabbitMQ connection: %v'' e), r)
      | (None, r) \<Rightarrow> (Some e, r))"

definition RabbitMQ_WriteContext :: "(bytes \<Rightarrow> string) \<Rightarrow> (Record \<Rightarrow> bytes result) \<Rightarrow> rabbit_attempt \<Rightarrow> Record \<Rightarrow>
    RabbitMQ \<Rightarrow> goerr option \<times> message list \<times> RabbitMQ" where
  "RabbitMQ_WriteContext digest encode a record r =
     (if rb_closed r then (Some net_ErrClosed, [], r)
      else if raCtx a \<noteq> None then (raCtx a, [], r)
      else
        (case encode record of
           Inl e \<Rightarrow> (Some e, [], r)
         | Inr body \<Rightarrow>
             (case connect a r of
                (Some e, r) \<Rightarrow>
                  (let (err, r) = rabbit_failed a (Wrapf ''Can't prepare RabbitMQ connection'' e) r in (err, [], r))
              | (None, r) \<Rightarrow>
                  (let sent = [(RabbitQueueName (rb_cfg r), digest body, body)] in
                   case publish a r of
                     None \<Rightarrow> (None, sent, r)
                   | Some e \<Rightarrow> (let (err, r) = rabbit_failed a e r in (err, sent, r))))))"

definition amqp_ErrClosed :: goerr where
  "amqp_ErrClosed = ErrNew ''Exception (504) Reason: channel/connection is not open''"

definition RabbitMQ_Close :: "goerr option \<Rightarrow> goerr option \<Rightarrow> RabbitMQ \<Rightarrow> goerr option \<times> RabbitMQ" where
  "RabbitMQ_Close closeRes socketRes r =
     (let r = r\<lparr>rb_closed := True\<rparr>;
          err = (if rb_connection r = Some False
                 then (case closeRes of Some e \<Rightarrow> if errors_Is e amqp_ErrClosed then None else Some e | None \<Rightarrow> None) else None);
          (closeErr, r) = closeConnection socketRes r in
      (or_else err closeErr, r))"

section \<open>Valkey\<close>

text \<open>The connection, if any, and whether the library has reported it broken.\<close>

record Valkey =
  vk_cfg :: ValkeyDestinationConf
  vk_connection :: "bool option"
  vk_closed :: bool

definition PrepareValkey :: "ValkeyDestinationConf \<Rightarrow> Valkey result" where
  "PrepareValkey conf =
     (if \<not> ValkeyEnabled conf then Inl (Errorf ''Valkey destination is disabled'')
      else
        (case ValkeyDestination_Validate conf of
           Some e \<Rightarrow> Inl e
         | None \<Rightarrow> Inr \<lparr>vk_cfg = conf, vk_connection = None, vk_closed = False\<rparr>))"

text \<open>\<open>vaDo\<close> is the reply to the command, read as a string by the library.\<close>

record valkey_attempt =
  vaCtx :: "goerr option"
  vaDial :: "goerr option"
  vaConnectCtx :: "goerr option"
  vaDo :: "(string result) result"
  vaDoCtx :: "goerr option"
  vaBroken :: bool
  vaClose :: "goerr option"

definition Cut :: "char \<Rightarrow> string \<Rightarrow> string \<times> string \<times> bool" where
  "Cut sep s =
     (let before = takeWhile (\<lambda>c. c \<noteq> sep) s in
      if length before < length s then (before, drop (length before + 1) s, True) else (s, [], False))"

definition check_entry_id :: "string \<Rightarrow> goerr option" where
  "check_entry_id ident =
     (let (milliseconds, sequence, found) = Cut (CHR ''-'') ident in
      if \<not> found then Some (Errorf ''Invalid Valkey stream entry ID'')
      else
        (case ParseUint 10 64 milliseconds of
           (_, Some e) \<Rightarrow> Some (Wrapf ''Invalid Valkey stream entry time'' e)
         | (ms, None) \<Rightarrow>
             (case ParseUint 10 64 sequence of
                (_, Some e) \<Rightarrow> Some (Wrapf ''Invalid Valkey stream entry sequence'' e)
              | (seqno, None) \<Rightarrow>
                  if ms = 0 \<and> seqno = 0 then Some (Errorf ''Invalid zero Valkey stream entry ID'') else None)))"

definition add_entry_result :: "valkey_attempt \<Rightarrow> goerr option" where
  "add_entry_result a =
     (case vaDo a of
        Inl e \<Rightarrow> if vaDoCtx a \<noteq> None then vaDoCtx a else Some (Wrapf ''Can't write Valkey stream entry'' e)
      | Inr (Inl e) \<Rightarrow> Some (Wrapf ''Invalid Valkey stream entry ID'' e)
      | Inr (Inr ident) \<Rightarrow> check_entry_id ident)"

text \<open>The deferred part of \<open>WriteContext\<close>: after an error there is no connection.\<close>

definition valkey_failed :: "valkey_attempt \<Rightarrow> goerr \<Rightarrow> Valkey \<Rightarrow> goerr option \<times> Valkey" where
  "valkey_failed a e v =
     (case vk_connection v of
        None \<Rightarrow> (Some e, v)
      | Some broken \<Rightarrow>
          (if \<not> broken \<and> vaClose a \<noteq> None then Some (Wrapf ''%w; Can't close Valkey connection: %v'' e) else Some e,
           v\<lparr>vk_connection := None\<rparr>))"

definition valkey_connect :: "valkey_attempt \<Rightarrow> Valkey \<Rightarrow> goerr option \<times> Valkey" where
  "valkey_connect a v =
     (if vk_connection v = Some False then (None, v)
      else
        (case vaDial a of
           None \<Rightarrow> (None, v\<lparr>vk_connection := Some False\<rparr>)
         | Some e \<Rightarrow>
             (Some (Wrapf ''Can't prepare Valkey connection'' (case vaConnectCtx a of Some c \<Rightarrow> c | None \<Rightarrow> e)),
              v\<lparr>vk_connection := None\<rparr>)))"

definition Valkey_WriteContext :: "(bytes \<Rightarrow> string) \<Rightarrow> (Record \<Rightarrow> bytes result) \<Rightarrow> valkey_attempt \<Rightarrow> Record \<Rightarrow> Valkey \<Rightarrow>
    goerr option \<times> message list \<times> Valkey" where
  "Valkey_WriteContext digest encode a record v =
     (if vk_closed v then (Some net_ErrClosed, [], v)
      else if vaCtx a \<noteq> None then (vaCtx a, [], v)
      else
        (case encode record of
           Inl e \<Rightarrow> (Some e, [], v)
         | Inr body \<Rightarrow>
             (case valkey_connect a v of
                (Some e, v) \<Rightarrow> (let (err, v) = valkey_failed a e v in (err, [], v))
              | (None, v) \<Rightarrow>
                  (let sent = [(ValkeyStreamName (vk_cfg v), digest body, body)];
                       v = v\<lparr>vk_connection := Some (vaBroken a)\<rparr> in
                   case add_entry_result a of
                     None \<Rightarrow> (None, sent, v)
                   | Some e \<Rightarrow> (let (err, v) = valkey_failed a e v in (err, sent, v))))))"

definition Valkey_Close :: "goerr option \<Rightarrow> Valkey \<Rightarrow> goerr option \<times> Valkey" where
  "Valkey_Close res v =
     (if vk_connection v = Some False then res else None, v\<lparr>vk_closed := True, vk_connection := None\<rparr>)"

end
