(* ===== verification/Broker_Properties.thy ===== *)
theory Broker_Properties
  imports Brokers
begin

text \<open>
  What a successful attempt of a broker's writer has seen, and what a failed one leaves.
\<close>

section \<open>RabbitMQ\<close>

lemma waitConfirmation_None:
  "waitConfirmation seqno ev late = None \<longleftrightarrow> ev = Ev_confirmation (Some (seqno, True)) \<and> (\<forall>x. late \<noteq> Returned x)"
  by (auto simp: waitConfirmation_def split: broker_event.splits option.splits late_return.splits)

definition rabbit_down :: "RabbitMQ \<Rightarrow> bool" where
  "rabbit_down r \<longleftrightarrow> \<not> rb_socket r \<and> rb_connection r = None \<and> rb_channel r = None"

lemma closeConnection_down:
  "closeConnection res r = (err, r') \<Longrightarrow> rabbit_down r' \<and> rb_cfg r' = rb_cfg r \<and> rb_closed r' = rb_closed r"
  by (auto simp: closeConnection_def rabbit_down_def Let_def)

lemma rabbit_failed_down:
  assumes "rabbit_failed a e r = (err, r')"
  shows "rabbit_down r'" "rb_cfg r' = rb_cfg r" "rb_closed r' = rb_closed r" "\<exists>e'. err = Some e'"
  using assms closeConnection_down [of "raSocketClose a 1" r]
  by (auto simp: rabbit_failed_def split: prod.splits option.splits)

lemma or_else_None [simp]: "or_else a b = None \<longleftrightarrow> a = None \<and> b = None"
  by (simp add: or_else_def split: option.split)

lemma set_up_done: "set_up a r = (err, r') \<Longrightarrow> rb_cfg r' = rb_cfg r \<and> rb_closed r' = rb_closed r \<and> (err = None \<longrightarrow> rabbit_up r')"
  by (auto simp: set_up_def rabbit_up_def Let_def split: option.splits)

lemma connect_done:
  assumes "connect a r = (err, r')"
  shows "rb_cfg r' = rb_cfg r \<and> rb_closed r' = rb_closed r \<and> (err = None \<longrightarrow> rabbit_up r')"
proof (cases "rabbit_up r")
  case False
  obtain e1 r1 where 1: "closeConnection (raSocketClose a 0) r = (e1, r1)" by (cases "closeConnection (raSocketClose a 0) r")
  obtain e2 r2 where 2: "set_up a (r1\<lparr>rb_socket := True\<rparr>) = (e2, r2)" by (cases "set_up a (r1\<lparr>rb_socket := True\<rparr>)")
  from assms False 1 2 closeConnection_down [OF 1] set_up_done [OF 2] show ?thesis
    by (auto simp: connect_def Let_def split: option.splits if_splits)
qed (use assms in \<open>simp add: connect_def\<close>)

text \<open>
  C32. An attempt on a RabbitMQ destination hands over at most one message, the record for the
  configured queue. It succeeds only when the broker has acknowledged the message with the number it
  was published under and has not returned it. After a failure either nothing was handed over and the
  writer is unchanged (it is closed, the context has ended, the record does not encode), or the
  connection is gone, so that no later answer to this message can be taken for the answer to another one.
\<close>

theorem rabbitmq_confirmed:
  assumes "RabbitMQ_WriteContext digest encode a rec r = (err, sent, r')"
  shows "case err of
      None \<Rightarrow> (\<exists>body. encode rec = Inr body \<and> sent = [(RabbitQueueName (rb_cfg r), digest body, body)]) \<and>
        raPublish a = None \<and> raEvent a = Ev_confirmation (Some (raSeqno a, True)) \<and> (\<forall>x. raLate a \<noteq> Returned x) \<and> rabbit_up r'
    | Some _ \<Rightarrow> r' = r \<and> sent = [] \<or> rabbit_down r' \<and> length sent \<le> 1"
proof -
  consider (early) "r' = r" "sent = []" "err \<noteq> None" | (body) body where "encode rec = Inr body" "\<not> rb_closed r" "raCtx a = None"
    using assms by (auto simp: RabbitMQ_WriteContext_def simp del: not_None_eq split: sum.splits if_splits)
  then show ?thesis
  proof cases
    case early
    then show ?thesis by auto
  next
    case body
    obtain e1 r1 where 1: "connect a r = (e1, r1)" by (cases "connect a r")
    note c = connect_done [OF 1]
    show ?thesis
    proof (cases e1)
      case (Some e)
      with assms body 1 have f: "rabbit_failed a (Wrapf ''Can't prepare RabbitMQ connection'' e) r1 = (err, r')" "sent = []"
        by (auto simp: RabbitMQ_WriteContext_def Let_def split: prod.splits)
      from rabbit_failed_down [OF f(1)] f(2) show ?thesis by auto
    next
      case None
      show ?thesis
      proof (cases "publish a r1")
        case None
        then have "raPublish a = None" "waitConfirmation (raSeqno a) (raEvent a) (raLate a) = None"
          by (auto simp: publish_def Let_def split: option.splits if_splits)
        with assms body 1 None \<open>e1 = None\<close> c show ?thesis
          by (auto simp: RabbitMQ_WriteContext_def waitConfirmation_None)
      next
        case (Some e)
        with assms body 1 \<open>e1 = None\<close> have f: "rabbit_failed a e r1 = (err, r')" "length sent = 1"
          by (auto simp: RabbitMQ_WriteContext_def Let_def split: prod.splits)
        from rabbit_failed_down [OF f(1)] f(2) show ?thesis by auto
      qed
    qed
  qed
qed

section \<open>Valkey\<close>

lemma num_mono: "num n s = Some v \<Longrightarrow> n \<le> v"
proof (induction n s rule: num.induct)
  case (2 acc c cs)
  then obtain d where "digit_val c = Some d" "num (acc * 10 + d) cs = Some v" by (auto split: option.splits)
  with "2.IH" show ?case by fastforce
qed simp

lemma ParseUint_loop_num:
  "n \<le> m \<Longrightarrow> ParseUint_loop 10 m n s = (v, None) \<longleftrightarrow> num n s = Some v \<and> v \<le> m"
proof (induction s arbitrary: n)
  case (Cons c cs)
  show ?case
  proof (cases "digit_val c")
    case (Some d)
    then have "d < 10" by (auto simp: digit_val_def Let_def split: if_splits)
    show ?thesis
    proof (cases "n * 10 + d \<le> m")
      case True
      with Cons.IH [OF True] Some \<open>d < 10\<close> show ?thesis by auto
    next
      case False
      with num_mono [of "n * 10 + d" cs v] Some \<open>d < 10\<close> show ?thesis by auto
    qed
  qed simp
qed auto

lemma ParseUint_decimal: "ParseUint 10 64 s = (v, None) \<longleftrightarrow> s \<noteq> [] \<and> num 0 s = Some v \<and> v < 2 ^ 64"
  by (auto simp: ParseUint_def ParseUint_loop_num)

lemma Cut_found: "Cut c s = (x, y, True) \<longleftrightarrow> s = x @ c # y \<and> c \<notin> set x"
proof -
  have cut: "Cut c s = (x, y, True)" if "s = x @ c # y" "c \<notin> set x"
  proof -
    have "takeWhile (\<lambda>d. d \<noteq> c) (x @ c # y) = x" using that(2) by (subst takeWhile_append2) auto
    then show ?thesis by (simp add: Cut_def Let_def that(1))
  qed
  have split: "s = takeWhile (\<lambda>d. d \<noteq> c) s @ c # drop (length (takeWhile (\<lambda>d. d \<noteq> c) s) + 1) s" if "length (takeWhile (\<lambda>d. d \<noteq> c) s) < length s"
  proof -
    have "dropWhile (\<lambda>d. d \<noteq> c) s \<noteq> []" using that takeWhile_dropWhile_id [of "\<lambda>d. d \<noteq> c" s] by (metis append_Nil2 less_irrefl)
    then have "dropWhile (\<lambda>d. d \<noteq> c) s = c # tl (dropWhile (\<lambda>d. d \<noteq> c) s)"
      using hd_dropWhile [of "\<lambda>d. d \<noteq> c" s] by (cases "dropWhile (\<lambda>d. d \<noteq> c) s") auto
    moreover have "tl (dropWhile (\<lambda>d. d \<noteq> c) s) = drop (length (takeWhile (\<lambda>d. d \<noteq> c) s) + 1) s"
      by (simp add: dropWhile_eq_drop drop_Suc tl_drop)
    ultimately show ?thesis using takeWhile_dropWhile_id [of "\<lambda>d. d \<noteq> c" s] by simp
  qed
  show ?thesis
  proof
    assume "Cut c s = (x, y, True)"
    then show "s = x @ c # y \<and> c \<notin> set x"
      using split by (auto simp: Cut_def Let_def dest: set_takeWhileD split: if_splits)
  qed (use cut in blast)
qed

text \<open>An entry of a stream: its time and its number in that time, not both zero.\<close>

definition entry_id :: "string \<Rightarrow> bool" where
  "entry_id s \<longleftrightarrow> (\<exists>x y ms seqno. s = x @ CHR ''-'' # y \<and> x \<noteq> [] \<and> y \<noteq> [] \<and> num 0 x = Some ms \<and> num 0 y = Some seqno \<and>
     ms < 2 ^ 64 \<and> seqno < 2 ^ 64 \<and> (ms, seqno) \<noteq> (0, 0))"

lemma digit_not_dash: "num n s = Some v \<Longrightarrow> CHR ''-'' \<notin> set s"
proof (induction n s rule: num.induct)
  case (2 acc c cs)
  then obtain d where d: "digit_val c = Some d" "num (acc * 10 + d) cs = Some v" by (auto split: option.splits)
  then have "c \<noteq> CHR ''-''" by (auto simp: digit_val_def Let_def split: if_splits)
  with d "2.IH" show ?case by auto
qed simp

lemma check_entry_id_None: "check_entry_id s = None \<longleftrightarrow> entry_id s"
proof -
  obtain x y found where cut: "Cut (CHR ''-'') s = (x, y, found)" by (cases "Cut (CHR ''-'') s")
  have "check_entry_id s = None \<longleftrightarrow> found \<and> (\<exists>ms seqno. ParseUint 10 64 x = (ms, None) \<and> ParseUint 10 64 y = (seqno, None) \<and>
      (ms, seqno) \<noteq> (0, 0))"
    by (auto simp: check_entry_id_def cut Let_def split: prod.splits option.splits)
  also have "\<dots> \<longleftrightarrow> entry_id s"
  proof
    assume "found \<and> (\<exists>ms seqno. ParseUint 10 64 x = (ms, None) \<and> ParseUint 10 64 y = (seqno, None) \<and> (ms, seqno) \<noteq> (0, 0))"
    with cut Cut_found [of "CHR ''-''" s x y] show "entry_id s" by (auto simp: entry_id_def ParseUint_decimal)
  next
    assume "entry_id s"
    then obtain x' y' ms seqno where e: "s = x' @ CHR ''-'' # y'" "x' \<noteq> []" "y' \<noteq> []" "num 0 x' = Some ms" "num 0 y' = Some seqno"
      "ms < 2 ^ 64" "seqno < 2 ^ 64" "(ms, seqno) \<noteq> (0, 0)" unfolding entry_id_def by blast
    with Cut_found [of "CHR ''-''" s x' y'] digit_not_dash cut have "x = x'" "y = y'" "found" by auto
    with e show "found \<and> (\<exists>ms seqno. ParseUint 10 64 x = (ms, None) \<and> ParseUint 10 64 y = (seqno, None) \<and> (ms, seqno) \<noteq> (0, 0))"
      unfolding ParseUint_decimal by blast
  qed
  finally show ?thesis .
qed

lemma add_entry_result_None: "add_entry_result a = None \<longleftrightarrow> (\<exists>ident. vaDo a = Inr (Inr ident) \<and> entry_id ident)"
  by (auto simp: add_entry_result_def check_entry_id_None split: sum.splits option.splits)

lemma valkey_failed_down: "valkey_failed a e v = (err, v') \<Longrightarrow> vk_connection v' = None \<and> (\<exists>e'. err = Some e')"
  by (auto simp: valkey_failed_def split: option.splits if_splits)

lemma valkey_connect_done:
  "valkey_connect a v = (err, v') \<Longrightarrow> vk_cfg v' = vk_cfg v \<and> (err = None \<longrightarrow> vk_connection v' = Some False)"
  by (auto simp: valkey_connect_def split: option.splits if_splits)

text \<open>
  C33. An attempt on a Valkey destination hands over at most one entry, the record for the configured
  stream. It succeeds only when the reply is the identifier of an entry, two decimal numbers of 64 bits
  that are not both zero. After a failure either nothing was handed over and the writer is unchanged
  (it is closed, the context has ended, the record does not encode), or there is no connection.
\<close>

theorem valkey_stored:
  assumes "Valkey_WriteContext digest encode a rec v = (err, sent, v')"
  shows "case err of
      None \<Rightarrow> (\<exists>body. encode rec = Inr body \<and> sent = [(ValkeyStreamName (vk_cfg v), digest body, body)]) \<and>
        (\<exists>ident. vaDo a = Inr (Inr ident) \<and> entry_id ident) \<and> \<not> vk_closed v
    | Some _ \<Rightarrow> v' = v \<and> sent = [] \<or> vk_connection v' = None \<and> length sent \<le> 1"
proof -
  consider (early) "v' = v" "sent = []" "err \<noteq> None" | (body) body where "encode rec = Inr body" "\<not> vk_closed v" "vaCtx a = None"
    using assms by (auto simp: Valkey_WriteContext_def simp del: not_None_eq split: sum.splits if_splits)
  then show ?thesis
  proof cases
    case early
    then show ?thesis by auto
  next
    case body
    obtain e1 v1 where 1: "valkey_connect a v = (e1, v1)" by (cases "valkey_connect a v")
    note c = valkey_connect_done [OF 1]
    show ?thesis
    proof (cases e1)
      case (Some e)
      with assms body 1 have f: "valkey_failed a e v1 = (err, v')" "sent = []"
        by (auto simp: Valkey_WriteContext_def Let_def split: prod.splits)
      from valkey_failed_down [OF f(1)] f(2) show ?thesis by auto
    next
      case None
      show ?thesis
      proof (cases "add_entry_result a")
        case None
        with assms body 1 \<open>e1 = None\<close> c show ?thesis
          by (auto simp: Valkey_WriteContext_def add_entry_result_None)
      next
        case (Some e)
        with assms body 1 \<open>e1 = None\<close> have f: "valkey_failed a e (v1\<lparr>vk_connection := Some (vaBroken a)\<rparr>) = (err, v')" "length sent = 1"
          by (auto simp: Valkey_WriteContext_def Let_def split: prod.splits)
        from valkey_failed_down [OF f(1)] f(2) show ?thesis by auto
      qed
    qed
  qed
qed

section \<open>Witnesses\<close>

definition broker_record :: Record where
  "broker_record = \<lparr>ReceivedAt = 0, RecSource = \<lparr>RemoteAddress = [], TerminalID = None\<rparr>, RecPacket = Packet0, RecRaw = []\<rparr>"

definition demo_rabbit_attempt :: "bool \<Rightarrow> rabbit_attempt" where
  "demo_rabbit_attempt ack = \<lparr>raCtx = None, raSocketClose = \<lambda>_. None, raDial = None, raOpen = None, raChannel = None,
     raConfirm = None, raDeclare = None, raConnectCtx = None, raConnectInterrupt = None, raSeqno = 1, raPublish = None,
     raEvent = Ev_confirmation (Some (1, ack)), raLate = No_return, raPublishCtx = None, raPublishInterrupt = None\<rparr>"

definition demo_rabbit :: RabbitMQ where
  "demo_rabbit = \<lparr>rb_cfg = DefaultRabbitMQDestination, rb_socket = False, rb_connection = None, rb_channel = None, rb_closed = False\<rparr>"

text \<open>The broker acknowledges the first message and rejects the second.\<close>

lemma rabbitmq_confirmed_witness:
  "\<exists>r1 r2 sent. RabbitMQ_WriteContext (\<lambda>_. ''id'') (\<lambda>_. Inr [1]) (demo_rabbit_attempt True) broker_record demo_rabbit =
       (None, [(RabbitQueueName DefaultRabbitMQDestination, ''id'', [1])], r1) \<and> rabbit_up r1 \<and>
     RabbitMQ_WriteContext (\<lambda>_. ''id'') (\<lambda>_. Inr [1]) (demo_rabbit_attempt False) broker_record r1 =
       (Some (Errorf ''RabbitMQ rejected packet publication''), sent, r2) \<and> rabbit_down r2"
proof -
  note defs = RabbitMQ_WriteContext_def connect_def set_up_def publish_def waitConfirmation_def rabbit_up_def closeConnection_def
    rabbit_failed_def demo_rabbit_attempt_def demo_rabbit_def or_else_def interrupt_failed_def Let_def
  obtain r1 where 1: "RabbitMQ_WriteContext (\<lambda>_. ''id'') (\<lambda>_. Inr [1]) (demo_rabbit_attempt True) broker_record demo_rabbit =
       (None, [(RabbitQueueName DefaultRabbitMQDestination, ''id'', [1])], r1)" "rabbit_up r1" "\<not> rb_closed r1"
    by (simp add: defs)
  obtain r2 where 2: "RabbitMQ_WriteContext (\<lambda>_. ''id'') (\<lambda>_. Inr [1]) (demo_rabbit_attempt False) broker_record r1 =
       (Some (Errorf ''RabbitMQ rejected packet publication''), [(RabbitQueueName (rb_cfg r1), ''id'', [1])], r2)"
    using 1(2,3) by (simp add: defs)
  from rabbitmq_confirmed [OF 2] 1 2 show ?thesis by auto
qed

definition demo_valkey_attempt :: "string \<Rightarrow> valkey_attempt" where
  "demo_valkey_attempt ident = \<lparr>vaCtx = None, vaDial = None, vaConnectCtx = None, vaDo = Inr (Inr ident), vaDoCtx = None,
     vaBroken = False, vaClose = None\<rparr>"

definition demo_valkey :: Valkey where
  "demo_valkey = \<lparr>vk_cfg = DefaultValkeyDestination, vk_connection = None, vk_closed = False\<rparr>"

lemma valkey_stored_witness:
  "\<exists>v' sent. Valkey_WriteContext (\<lambda>_. ''id'') (\<lambda>_. Inr [1]) (demo_valkey_attempt ''17-0'') broker_record demo_valkey = (None, sent, v') \<and>
     sent = [(ValkeyStreamName DefaultValkeyDestination, ''id'', [1])] \<and> entry_id ''17-0''"
proof -
  have "num 0 ''17'' = Some 17" "num 0 ''0'' = Some 0" by code_simp+
  then have "entry_id ''17-0''"
    unfolding entry_id_def by (intro exI [of _ "''17''"] exI [of _ "''0''"] exI [of _ 17] exI [of _ 0]) simp
  then have "check_entry_id ''17-0'' = None" by (simp add: check_entry_id_None)
  then obtain v' sent where "Valkey_WriteContext (\<lambda>_. ''id'') (\<lambda>_. Inr [1]) (demo_valkey_attempt ''17-0'') broker_record demo_valkey =
      (None, sent, v')"
    by (simp add: Valkey_WriteContext_def valkey_connect_def add_entry_result_def demo_valkey_def demo_valkey_attempt_def Let_def)
  from valkey_stored [OF this] this show ?thesis by (simp add: demo_valkey_def demo_valkey_attempt_def)
qed

end
