(* ===== verification/Outputs.thy ===== *)
theory Outputs
  imports Gateway_Config Rotation "HOL-Library.Sublist"
begin

text \<open>
  The check that no two outputs of the gateway are the same file or lie in each other's directories,
  \<open>gateway/configuration/outputs.go\<close>. What the operating system answers is a parameter; an absolute
  path is the list of its components, as \<open>filepath.Abs\<close> and \<open>filepath.EvalSymlinks\<close> clean it.
\<close>

section \<open>The operating system\<close>

type_synonym path = "string list"

text \<open>\<open>os.SameFile\<close> compares what identifies a file.\<close>

record fileInfo =
  fi_id :: nat
  fi_dir :: bool
  fi_regular :: bool

record os =
  os_Abs :: "string \<Rightarrow> path result"
  os_Lstat :: "path \<Rightarrow> unit result"
  os_EvalSymlinks :: "path \<Rightarrow> path result"
  os_StatPath :: "path \<Rightarrow> fileInfo result"
  os_ReadDir :: "path \<Rightarrow> ((string \<times> bool) list) result"

section \<open>Directories and files\<close>

datatype output_error =
    OutputConflictError (First: string) (Second: string) (StderrUnsafe: bool)
  | OutputFailed goerr

record outputDirectory =
  od_name :: string
  od_path :: path
  od_info :: "nat option"

record outputFile =
  of_name :: string
  of_owner :: string
  of_id :: nat

text \<open>
  \<open>resolveDirectory\<close>: the deepest existing directory above the path, resolved, with the missing
  components below it. The path is read from its end.
\<close>

fun resolve_up :: "os \<Rightarrow> path \<Rightarrow> path \<Rightarrow> path result" where
  "resolve_up q p missing =
     (case os_Lstat q (rev p) of
        Inr _ \<Rightarrow>
          bindR (os_EvalSymlinks q (rev p)) (\<lambda>resolved.
          bindR (os_StatPath q resolved) (\<lambda>info.
          if \<not> fi_dir info then Inl (Errorf ''Not a directory: %s'') else Inr (resolved @ missing)))
      | Inl e \<Rightarrow>
          if \<not> errors_Is e ErrNotExist then Inl e
          else (case p of [] \<Rightarrow> Inl e | c # cs \<Rightarrow> resolve_up q cs (c # missing)))"

definition resolveDirectory :: "os \<Rightarrow> string \<Rightarrow> path result" where
  "resolveDirectory q directory = bindR (os_Abs q directory) (\<lambda>p. resolve_up q (rev p) [])"

definition path_text :: "path \<Rightarrow> string" where
  "path_text p = concat (map (\<lambda>c. CHR ''/'' # c) p)"

fun directory_files :: "os \<Rightarrow> string \<Rightarrow> path \<Rightarrow> (string \<times> bool) list \<Rightarrow> (outputFile list) result" where
  "directory_files q owner dir [] = Inr []"
| "directory_files q owner dir ((nm, isDir) # es) =
     (if isDir then directory_files q owner dir es
      else
        bindR (wrapf ''Can't inspect output file %s'' (os_StatPath q (dir @ [nm]))) (\<lambda>info.
        if \<not> fi_regular info then Inl (Errorf ''Output directory contains a non-regular file: %s'')
        else bindR (directory_files q owner dir es) (\<lambda>fs.
          Inr (\<lparr>of_name = path_text (dir @ [nm]), of_owner = owner, of_id = fi_id info\<rparr> # fs))))"

definition inspect_directory :: "os \<Rightarrow> string \<Rightarrow> string \<Rightarrow> (outputDirectory \<times> outputFile list) result" where
  "inspect_directory q nm directory =
     bindR (wrapf nm (resolveDirectory q directory)) (\<lambda>resolved.
     case os_StatPath q resolved of
       Inl e \<Rightarrow>
         if errors_Is e ErrNotExist then Inr (\<lparr>od_name = nm, od_path = resolved, od_info = None\<rparr>, [])
         else Inl (Wrapf nm e)
     | Inr info \<Rightarrow>
         bindR (wrapf nm (os_ReadDir q resolved)) (\<lambda>entries.
         bindR (directory_files q nm resolved entries) (\<lambda>fs.
           Inr (\<lparr>od_name = nm, od_path = resolved, od_info = Some (fi_id info)\<rparr>, fs))))"

fun inspect_directories :: "os \<Rightarrow> (string \<times> string) list \<Rightarrow> (outputDirectory list \<times> outputFile list) result" where
  "inspect_directories q [] = Inr ([], [])"
| "inspect_directories q ((nm, directory) # ds) =
     bindR (inspect_directory q nm directory) (\<lambda>(d, fs).
     bindR (inspect_directories q ds) (\<lambda>(ds, gs). Inr (d # ds, fs @ gs)))"

definition configured_directories :: "Configuration \<Rightarrow> (string \<times> string) list" where
  "configured_directories conf =
     [(''delivery_cfg.dump_directory'', DumpDirectory (DeliveryCfg conf))] @
     (if LogsOutput (LogsCfg conf) = ''file'' then [(''logs_cfg.directory'', LogsDirectory (LogsCfg conf))] else []) @
     (if FileEnabled (DestFile (DestinationsCfg conf))
      then [(''destinations_cfg.file.directory'', FileDirectory (DestFile (DestinationsCfg conf)))] else [])"

text \<open>The two standard streams count when they are regular files.\<close>

definition stderr_files :: "fileInfo result option \<Rightarrow> (outputFile list) result" where
  "stderr_files stderr =
     (case stderr of
        None \<Rightarrow> Inr []
      | Some r \<Rightarrow>
          bindR (wrapf ''Can't inspect stderr'' r) (\<lambda>info.
          Inr (if fi_regular info then [\<lparr>of_name = ''stderr'', of_owner = ''logs_cfg.directory'', of_id = fi_id info\<rparr>] else [])))"

definition stdout_files :: "Configuration \<Rightarrow> fileInfo result option \<Rightarrow> (outputFile list) result" where
  "stdout_files conf stdout =
     (if LogsOutput (LogsCfg conf) = ''stdout'' \<or> DestStdout (DestinationsCfg conf) then
        (case stdout of
           None \<Rightarrow> Inr []
         | Some r \<Rightarrow>
             bindR (wrapf ''Can't inspect stdout'' r) (\<lambda>info.
             Inr (if fi_regular info
                  then [\<lparr>of_name = ''stdout'',
                     of_owner = (if DestStdout (DestinationsCfg conf) then ''destinations_cfg.stdout'' else ''logs_cfg.directory''),
                     of_id = fi_id info\<rparr>] else [])))
      else Inr [])"

section \<open>Conflicts\<close>

text \<open>The pairs of the code's two nested loops, the later element first.\<close>

fun loop_pairs :: "'a list \<Rightarrow> 'a list \<Rightarrow> ('a \<times> 'a) list" where
  "loop_pairs earlier [] = []"
| "loop_pairs earlier (x # xs) = map (Pair x) earlier @ loop_pairs (earlier @ [x]) xs"

fun file_conflicts :: "(outputFile \<times> outputFile) list \<Rightarrow> output_error option \<Rightarrow> output_error option" where
  "file_conflicts [] conflict = conflict"
| "file_conflicts ((f, g) # ps) conflict =
     (if of_owner f = of_owner g then file_conflicts ps conflict
      else if of_id f = of_id g then
        (let unsafe = (of_name f = ''stderr'' \<or> of_name g = ''stderr'');
             conflict = OutputConflictError (of_name f) (of_name g) unsafe in
         if unsafe then Some conflict else file_conflicts ps (Some conflict))
      else file_conflicts ps conflict)"

text \<open>\<open>filepath.Rel\<close> on absolute paths: up to the common part and down again.\<close>

fun common_prefix :: "path \<Rightarrow> path \<Rightarrow> nat" where
  "common_prefix (x # xs) (y # ys) = (if x = y then Suc (common_prefix xs ys) else 0)"
| "common_prefix _ _ = 0"

definition Rel :: "path \<Rightarrow> path \<Rightarrow> path" where
  "Rel bas targ = replicate (length bas - common_prefix bas targ) ''..'' @ drop (common_prefix bas targ) targ"

definition is_within :: "path \<Rightarrow> path \<Rightarrow> bool" where
  "is_within bas targ \<longleftrightarrow> (case Rel bas targ of [] \<Rightarrow> True | c # _ \<Rightarrow> c \<noteq> ''..'')"

fun directory_conflicts :: "(outputDirectory \<times> outputDirectory) list \<Rightarrow> output_error option" where
  "directory_conflicts [] = None"
| "directory_conflicts ((d, e) # ps) =
     (if od_info d \<noteq> None \<and> od_info e \<noteq> None \<and> od_info d = od_info e
      then Some (OutputConflictError (od_name d) (od_name e) False)
      else if is_within (od_path d) (od_path e) \<or> is_within (od_path e) (od_path d)
      then Some (OutputConflictError (od_name d) (od_name e) False)
      else directory_conflicts ps)"

definition ValidateOutputs :: "os \<Rightarrow> fileInfo result option \<Rightarrow> fileInfo result option \<Rightarrow> Configuration \<Rightarrow> output_error option" where
  "ValidateOutputs q stdout stderr conf =
     (case inspect_directories q (configured_directories conf) of
        Inl e \<Rightarrow> Some (OutputFailed e)
      | Inr (directories, fs) \<Rightarrow>
          (case bindR (stderr_files stderr) (\<lambda>es. bindR (stdout_files conf stdout) (\<lambda>os. Inr (fs @ es @ os))) of
             Inl e \<Rightarrow> Some (OutputFailed e)
           | Inr fs \<Rightarrow>
               (case file_conflicts (loop_pairs [] fs) None of
                  Some c \<Rightarrow> Some c
                | None \<Rightarrow>
                    if LogsOutput (LogsCfg conf) = ''stdout'' \<and> DestStdout (DestinationsCfg conf)
                    then Some (OutputConflictError ''logs_cfg.output'' ''destinations_cfg.stdout'' False)
                    else directory_conflicts (loop_pairs [] directories))))"

end
