(* ===== verification/Output_Properties.thy ===== *)
theory Output_Properties
  imports Outputs
begin

text \<open>What the check of the outputs guarantees when it reports nothing.\<close>

section \<open>Pairs\<close>

lemma loop_pairs_all:
  "(\<forall>(x, y)\<in>set (loop_pairs earlier xs). R x y) \<longleftrightarrow>
   (\<forall>x\<in>set xs. \<forall>y\<in>set earlier. R x y) \<and> sorted_wrt (\<lambda>y x. R x y) xs"
  by (induction xs arbitrary: earlier) (auto simp: ball_Un)

lemma common_prefix_le: "common_prefix p q \<le> length p" "common_prefix p q \<le> length q"
  by (induction p q rule: common_prefix.induct) auto

lemma common_prefix_take: "take (common_prefix p q) p = take (common_prefix p q) q"
  by (induction p q rule: common_prefix.induct) auto

lemma common_prefix_prefix: "prefix p q \<longleftrightarrow> common_prefix p q = length p"
  by (induction p q rule: common_prefix.induct) auto

text \<open>A relative path that does not go up is inside.\<close>

lemma is_within_prefix:
  assumes "''..'' \<notin> set targ"
  shows "is_within bas targ \<longleftrightarrow> prefix bas targ"
proof (cases "common_prefix bas targ = length bas")
  case True
  then show ?thesis
    using assms in_set_dropD [of "''..''" "length bas" targ]
    by (auto simp: is_within_def Rel_def common_prefix_prefix split: list.split)
next
  case False
  with common_prefix_le(1) [of bas targ] obtain k where "length bas - common_prefix bas targ = Suc k"
    by (metis Suc_diff_Suc diff_is_0_eq le_neq_implies_less)
  with False show ?thesis by (simp add: is_within_def Rel_def common_prefix_prefix)
qed

section \<open>Conflicts\<close>

lemma file_conflicts_Some: "file_conflicts ps (Some c) \<noteq> None"
  by (induction ps arbitrary: c) (auto simp: Let_def)

lemma file_conflicts_None:
  "file_conflicts ps None = None \<longleftrightarrow> (\<forall>(f, g)\<in>set ps. of_owner f = of_owner g \<or> of_id f \<noteq> of_id g)"
proof (induction ps)
  case (Cons p ps)
  obtain f g where p: "p = (f, g)" by (cases p)
  show ?case using Cons.IH file_conflicts_Some by (auto simp: p Let_def simp del: not_None_eq)
qed simp

lemma directory_conflicts_None:
  "directory_conflicts ps = None \<longleftrightarrow> (\<forall>(d, e)\<in>set ps. (od_info d = None \<or> od_info e = None \<or> od_info d \<noteq> od_info e) \<and>
     \<not> is_within (od_path d) (od_path e) \<and> \<not> is_within (od_path e) (od_path d))"
  by (induction ps) (auto split: prod.split)

section \<open>Resolved paths\<close>

text \<open>The operating system's paths are clean: no component goes up.\<close>

definition clean_paths :: "os \<Rightarrow> bool" where
  "clean_paths q \<longleftrightarrow> (\<forall>s p. os_Abs q s = Inr p \<longrightarrow> ''..'' \<notin> set p) \<and>
     (\<forall>p r. os_EvalSymlinks q p = Inr r \<longrightarrow> ''..'' \<notin> set r)"

lemma resolve_up_clean:
  assumes "resolve_up q p missing = Inr r" "clean_paths q" "''..'' \<notin> set p" "''..'' \<notin> set missing"
  shows "''..'' \<notin> set r"
  using assms(1,3,4)
proof (induction p arbitrary: missing)
  case Nil
  with assms(2) show ?case by (auto simp: clean_paths_def split: sum.splits if_splits)
next
  case (Cons c cs)
  show ?case
  proof (cases "os_Lstat q (rev (c # cs))")
    case (Inl e)
    with Cons.prems have "resolve_up q cs (c # missing) = Inr r" by (auto split: if_splits)
    from Cons.IH [OF this] Cons.prems(2,3) show ?thesis by simp
  next
    case (Inr u)
    with Cons.prems(1) obtain p where "os_EvalSymlinks q (rev (c # cs)) = Inr p" "r = p @ missing"
      by (auto split: if_splits)
    with assms(2) Cons.prems(3) show ?thesis by (auto simp: clean_paths_def)
  qed
qed

lemma resolveDirectory_clean:
  assumes "resolveDirectory q d = Inr r" "clean_paths q"
  shows "''..'' \<notin> set r"
proof -
  from assms(1) obtain p where p: "os_Abs q d = Inr p" "resolve_up q (rev p) [] = Inr r"
    by (auto simp: resolveDirectory_def)
  have "''..'' \<notin> set p" using p(1) assms(2) by (simp add: clean_paths_def)
  with resolve_up_clean [OF p(2) assms(2)] show ?thesis by simp
qed

lemma inspect_directory_clean:
  assumes "inspect_directory q nm d = Inr (od, fs)" "clean_paths q"
  shows "''..'' \<notin> set (od_path od)"
proof -
  from assms(1) obtain r where r: "resolveDirectory q d = Inr r" by (auto simp: inspect_directory_def)
  with assms(1) have "od_path od = r" by (cases "os_StatPath q r") (auto simp: inspect_directory_def split: if_splits)
  with resolveDirectory_clean [OF r assms(2)] show ?thesis by simp
qed

lemma inspect_directories_clean:
  "inspect_directories q ds = Inr (ods, fs) \<Longrightarrow> clean_paths q \<Longrightarrow> list_all (\<lambda>od. ''..'' \<notin> set (od_path od)) ods"
proof (induction ds arbitrary: ods fs)
  case (Cons d ds)
  obtain nm dir where d: "d = (nm, dir)" by (cases d)
  with Cons.prems(1) obtain od gs ods' hs where "inspect_directory q nm dir = Inr (od, gs)"
    "inspect_directories q ds = Inr (ods', hs)" "ods = od # ods'" by auto
  with Cons.IH inspect_directory_clean Cons.prems(2) show ?case by simp
qed simp

section \<open>The property\<close>

definition separate_directories :: "outputDirectory \<Rightarrow> outputDirectory \<Rightarrow> bool" where
  "separate_directories d e \<longleftrightarrow> \<not> prefix (od_path d) (od_path e) \<and> \<not> prefix (od_path e) (od_path d) \<and>
     (od_info d = None \<or> od_info e = None \<or> od_info d \<noteq> od_info e)"

definition separate_files :: "outputFile \<Rightarrow> outputFile \<Rightarrow> bool" where
  "separate_files f g \<longleftrightarrow> of_owner f = of_owner g \<or> of_id f \<noteq> of_id g"

text \<open>
  C34. The configured outputs are accepted exactly when their directories and files can be inspected,
  no directory is another one or lies in it, no file belongs to two outputs, be it by a link between
  their directories or as the file that a standard stream is redirected to, and not both the log and
  the packets go to the standard output.
\<close>

theorem outputs_separate:
  assumes "clean_paths q"
  shows "ValidateOutputs q stdout stderr conf = None \<longleftrightarrow>
    (\<exists>directories fs es xs. inspect_directories q (configured_directories conf) = Inr (directories, fs) \<and>
       stderr_files stderr = Inr es \<and> stdout_files conf stdout = Inr xs \<and>
       sorted_wrt separate_directories directories \<and> sorted_wrt separate_files (fs @ es @ xs) \<and>
       \<not> (LogsOutput (LogsCfg conf) = ''stdout'' \<and> DestStdout (DestinationsCfg conf)))"
proof (cases "inspect_directories q (configured_directories conf)")
  case (Inr inspected)
  obtain directories fs where d: "inspected = (directories, fs)" by (cases inspected)
  have "list_all (\<lambda>od. ''..'' \<notin> set (od_path od)) directories"
    using inspect_directories_clean assms Inr d by blast
  then have "sorted_wrt (\<lambda>e d. (od_info d = None \<or> od_info e = None \<or> od_info d \<noteq> od_info e) \<and>
      \<not> is_within (od_path d) (od_path e) \<and> \<not> is_within (od_path e) (od_path d)) directories \<longleftrightarrow>
      sorted_wrt separate_directories directories"
    by (induction directories) (auto simp: separate_directories_def is_within_prefix list_all_iff)
  then have dirs: "directory_conflicts (loop_pairs [] directories) = None \<longleftrightarrow> sorted_wrt separate_directories directories"
    unfolding directory_conflicts_None loop_pairs_all by simp
  have files: "file_conflicts (loop_pairs [] gs) None = None \<longleftrightarrow> sorted_wrt separate_files gs" for gs
  proof -
    have "sorted_wrt (\<lambda>g f. of_owner f = of_owner g \<or> of_id f \<noteq> of_id g) gs \<longleftrightarrow> sorted_wrt separate_files gs"
      by (induction gs) (auto simp: separate_files_def)
    then show ?thesis unfolding file_conflicts_None loop_pairs_all by simp
  qed
  show ?thesis
    by (auto simp: ValidateOutputs_def Inr d dirs files [symmetric] split: sum.splits option.splits)
qed (simp add: ValidateOutputs_def)

section \<open>Witness\<close>

definition demo_os :: "string \<Rightarrow> os" where
  "demo_os nm = \<lparr>os_Abs = \<lambda>s. if s = ''..'' then Inr [] else Inr [''var'', s], os_Lstat = \<lambda>_. Inr (),
     os_EvalSymlinks = \<lambda>p. if ''..'' \<in> set p then Inr [] else Inr p,
     os_StatPath = \<lambda>p. Inr \<lparr>fi_id = length (concat p), fi_dir = True, fi_regular = True\<rparr>,
     os_ReadDir = \<lambda>p. Inr [(if p = [''var'', ''dump''] then nm else ''b'', False)]\<rparr>"

definition demo_outputs :: Configuration where
  "demo_outputs = DefaultConfiguration
     \<lparr>DeliveryCfg := (DeliveryCfg DefaultConfiguration)\<lparr>DumpDirectory := ''dump''\<rparr>,
      DestinationsCfg := (DestinationsCfg DefaultConfiguration)
        \<lparr>DestFile := (DestFile (DestinationsCfg DefaultConfiguration))\<lparr>FileEnabled := True, FileDirectory := ''packs''\<rparr>\<rparr>\<rparr>"

text \<open>Two directories with a file in each: once they are one file under two names, once two files.\<close>

lemma outputs_separate_witness:
  "ValidateOutputs (demo_os ''ab'') None None demo_outputs = Some (OutputConflictError ''/var/packs/b'' ''/var/dump/ab'' False) \<and>
   (\<exists>directories fs. inspect_directories (demo_os ''a'') (configured_directories demo_outputs) = Inr (directories, fs) \<and>
      sorted_wrt separate_directories directories \<and> sorted_wrt separate_files fs)"
proof -
  have clean: "clean_paths (demo_os ''a'')" by (auto simp: clean_paths_def demo_os_def split: if_splits)
  have "ValidateOutputs (demo_os ''a'') None None demo_outputs = None" by code_simp
  with outputs_separate [OF clean, of None None demo_outputs]
  have "\<exists>directories fs. inspect_directories (demo_os ''a'') (configured_directories demo_outputs) = Inr (directories, fs) \<and>
      sorted_wrt separate_directories directories \<and> sorted_wrt separate_files fs"
    by (auto simp: sorted_wrt_append)
  moreover have "ValidateOutputs (demo_os ''ab'') None None demo_outputs =
      Some (OutputConflictError ''/var/packs/b'' ''/var/dump/ab'' False)" by code_simp
  ultimately show ?thesis by blast
qed

end
