(* ===== verification/Lifecycle.thy ===== *)
theory Lifecycle
  imports Dump_Lemmas Connection Delivery_Steps Writer Brokers
begin

text \<open>
  The life of a gateway, \<open>gateway/server/server.go\<close>: \<open>newServer\<close>, which restores the dump and
  prepares the destinations, and \<open>serve\<close> with the accept loop, the connections and the delivery loop
  as one transition system, from the first connection to the last packet saved. A connection's frames
  are handled by \<open>handle_frame\<close>, its session ends with \<open>endRelaySession\<close>, and the delivery loop takes
  the steps of \<open>gstep\<close>.
\<close>

section \<open>newServer\<close>

text \<open>The results of the calls it makes, and what it has made when it returns.\<close>

record start_calls =
  startOutputs :: "Configuration \<Rightarrow> goerr option"
  startMkdir :: "goerr option"
  startEvalSymlinks :: "goerr option"
  startAbs :: "string result"
  startRestore :: restore_calls
  startStdoutConflict :: "goerr option"
  startStdoutOpen :: "(stream \<times> bool) result"
  startStdoutDeadline :: "goerr option"
  startStdoutClose :: "goerr option"

record process =
  prServer :: server
  prRabbits :: "string \<rightharpoonup> RabbitMQ"
  prValkeys :: "string \<rightharpoonup> Valkey"
  prFile :: "RotatingFile Writer option"
  prStdout :: "stream Writer option"

definition initial_server :: "Configuration \<Rightarrow> server" where
  "initial_server conf = \<lparr>cfg = conf, accepting = False, queue = [], wake = False, hasDump = False,
     relays = Map.empty, items = [], sessions = []\<rparr>"

definition with_directory :: "string \<Rightarrow> Configuration \<Rightarrow> Configuration" where
  "with_directory dir conf = conf\<lparr>DeliveryCfg := (DeliveryCfg conf)\<lparr>DumpDirectory := dir\<rparr>\<rparr>"

fun prepare_rabbits :: "RabbitMQDestinationConf list \<Rightarrow> (string \<rightharpoonup> RabbitMQ) \<Rightarrow> (string \<rightharpoonup> RabbitMQ) result" where
  "prepare_rabbits [] m = Inr m"
| "prepare_rabbits (c # cs) m =
     (if \<not> RabbitEnabled c then prepare_rabbits cs m
      else bindR (PrepareRabbitMQ c) (\<lambda>w. prepare_rabbits cs (m(RabbitID c \<mapsto> w))))"

fun prepare_valkeys :: "ValkeyDestinationConf list \<Rightarrow> (string \<rightharpoonup> Valkey) \<Rightarrow> (string \<rightharpoonup> Valkey) result" where
  "prepare_valkeys [] m = Inr m"
| "prepare_valkeys (c # cs) m =
     (if \<not> ValkeyEnabled c then prepare_valkeys cs m
      else bindR (PrepareValkey c) (\<lambda>w. prepare_valkeys cs (m(ValkeyID c \<mapsto> w))))"

definition prepare_file :: "DestinationsConf \<Rightarrow> RotatingFile \<Rightarrow> RotatingFile Writer option result" where
  "prepare_file dc disk =
     (if FileEnabled (DestFile dc) then bindR (PrepareFile dc disk) (\<lambda>w. Inr (Some w)) else Inr None)"

text \<open>When the standard output cannot be prepared, the file is closed again.\<close>

definition prepare_stdout :: "start_calls \<Rightarrow> DestinationsConf \<Rightarrow> RotatingFile Writer option \<Rightarrow> stream Writer option result" where
  "prepare_stdout k dc out =
     (if \<not> DestStdout dc then Inr None
      else
        (case PrepareStdout dc (startStdoutConflict k) (startStdoutOpen k) (startStdoutDeadline k) (startStdoutClose k) of
           Inr w \<Rightarrow> Inr (Some w)
         | Inl e \<Rightarrow>
             (case out of
                None \<Rightarrow> Inl e
              | Some w \<Rightarrow>
                  (case fst (file_Close w) of
                     None \<Rightarrow> Inl e
                   | Some _ \<Rightarrow> Inl (Wrapf ''%w; Can't close packet file: %v'' e)))))"

definition prepare_writers_of :: "start_calls \<Rightarrow> server \<Rightarrow> RotatingFile \<Rightarrow> process result" where
  "prepare_writers_of k s disk =
     bindR (prepare_rabbits (DestRabbitMQ (dests s)) Map.empty) (\<lambda>rabbits.
     bindR (prepare_valkeys (DestValkey (dests s)) Map.empty) (\<lambda>valkeys.
     bindR (prepare_file (dests s) disk) (\<lambda>out.
     bindR (prepare_stdout k (dests s) out) (\<lambda>std.
     Inr \<lparr>prServer = s, prRabbits = rabbits, prValkeys = valkeys, prFile = out, prStdout = std\<rparr>))))"

definition newServer :: "start_calls \<Rightarrow> Configuration \<Rightarrow> dumpFile option \<Rightarrow> RotatingFile \<Rightarrow> process result option" where
  "newServer k conf dump disk =
     (case Validate (startOutputs k) conf of
        Some e \<Rightarrow> Some (Inl e)
      | None \<Rightarrow>
          (case startMkdir k of
             Some e \<Rightarrow> Some (Inl (Wrapf ''Can't create queue directory'' e))
           | None \<Rightarrow>
               (case startEvalSymlinks k of
                  Some e \<Rightarrow> Some (Inl e)
                | None \<Rightarrow>
                    (case startAbs k of
                       Inl e \<Rightarrow> Some (Inl e)
                     | Inr dir \<Rightarrow>
                         (case restoreDump (startRestore k) dump (initial_server (with_directory dir conf)) of
                            None \<Rightarrow> None
                          | Some (Inl e) \<Rightarrow> Some (Inl e)
                          | Some (Inr s) \<Rightarrow> Some (prepare_writers_of k s disk))))))"

section \<open>The state of a serving gateway\<close>

text \<open>
  The accept loop: in \<open>Accept\<close>, with a connection it has not registered yet, or returned. A
  connection: registered, serving, with its loop at an end, and before it is taken out of
  \<open>s.clients\<close>, which is also when \<open>s.connections\<close> counts it out: the registered connections are the
  domain of the map.
\<close>

datatype acceptor = A_accept | A_accepted nat | A_returned "goerr option"

datatype handler = H_start | H_serving terminal | H_ended "nat option" | H_leaving

text \<open>Where \<open>serve\<close> is: each phase but the first and the last is before the step it names.\<close>

datatype phase =
  P_select | P_stop | P_cancel | P_listener | P_accept | P_clients | P_connections | P_delivery | P_save | P_close | P_returned

record life =
  lfGate :: gateway
  lfHandlers :: "nat \<rightharpoonup> handler"
  lfAcceptor :: acceptor
  lfPhase :: phase
  lfResult :: "goerr option"
  lfAcceptFinished :: bool
  lfDeliveryFinished :: bool
  lfStopped :: bool
  lfClosed :: "nat set"
  lfReleased :: "nat set"
  lfDump :: "dumpFile option"

text \<open>\<open>serve\<close> when it has started its goroutines.\<close>

definition serving :: "server \<Rightarrow> dumpFile option \<Rightarrow> life" where
  "serving s dump = \<lparr>lfGate = \<lparr>srv = s\<lparr>accepting := True\<rparr>, dlv = initial_delivery (dests s)\<rparr>, lfHandlers = Map.empty,
     lfAcceptor = A_accept, lfPhase = P_select, lfResult = None, lfAcceptFinished = False, lfDeliveryFinished = False,
     lfStopped = False, lfClosed = {}, lfReleased = {}, lfDump = dump\<rparr>"

abbreviation upd_srv :: "server \<Rightarrow> life \<Rightarrow> life" where
  "upd_srv s l \<equiv> l\<lparr>lfGate := (lfGate l)\<lparr>srv := s\<rparr>\<rparr>"

abbreviation upd_handler :: "nat \<Rightarrow> handler option \<Rightarrow> life \<Rightarrow> life" where
  "upd_handler c h l \<equiv> l\<lparr>lfHandlers := (lfHandlers l)(c := h)\<rparr>"

text \<open>The first error is the result; \<open>ErrClosed\<close> of a second closing is none.\<close>

definition first_err :: "goerr option \<Rightarrow> goerr option \<Rightarrow> goerr option" where
  "first_err r err = (if r = None then err else r)"

definition closing_err :: "goerr option \<Rightarrow> goerr option \<Rightarrow> goerr option" where
  "closing_err r err =
     (case err of Some e \<Rightarrow> if errors_Is e net_ErrClosed then r else first_err r err | None \<Rightarrow> r)"

text \<open>An error behind another one is added to its text.\<close>

definition added_err :: "string \<Rightarrow> goerr option \<Rightarrow> goerr option \<Rightarrow> goerr option" where
  "added_err msg err r =
     (case err of
        None \<Rightarrow> r
      | Some e \<Rightarrow> (case r of None \<Rightarrow> Some e | Some r \<Rightarrow> Some (Wrapf (''%w; '' @ msg) r)))"

text \<open>The results of closing the destinations; the relays, brokers and streams in the order of the maps.\<close>

record closings =
  clFile :: "goerr option"
  clStdout :: "goerr option"
  clRelays :: "goerr option list"
  clRabbits :: "goerr option list"
  clValkeys :: "goerr option list"

definition closed_result :: "closings \<Rightarrow> goerr option \<Rightarrow> goerr option" where
  "closed_result k r =
     fold (added_err ''Can't close Valkey destination %s: %v'') (clValkeys k)
     (fold (added_err ''Can't close RabbitMQ destination %s: %v'') (clRabbits k)
     (fold (added_err ''Can't close EGTS destination: %v'') (clRelays k)
     (added_err ''Can't close packet stdout: %v'' (clStdout k)
     (added_err ''Can't close packet file: %v'' (clFile k) r))))"

section \<open>The steps\<close>

definition new_terminal :: "Configuration \<Rightarrow> string \<Rightarrow> nat option \<Rightarrow> terminal" where
  "new_terminal conf addr sess = \<lparr>authorized = \<not> AuthEnabled (AuthCfg conf),
     source = \<lparr>RemoteAddress = addr, TerminalID = None\<rparr>, connPid = 0, connRn = 0, connSession = sess, relayIdentity = []\<rparr>"

definition after_frame :: "terminal \<Rightarrow> verdict \<Rightarrow> terminal \<Rightarrow> handler" where
  "after_frame t v t' = (case v of Goes_on \<Rightarrow> H_serving t' | Returns _ \<Rightarrow> H_ended (connSession t))"

text \<open>What a frame put into the queue.\<close>

definition frame_label :: "server \<Rightarrow> server \<Rightarrow> label list" where
  "frame_label s s' =
     (if length (items s) < length (items s') then [Enqueued (length (items s)) (items s' ! length (items s))] else [])"

text \<open>The listener is open until \<open>serve\<close> has closed it.\<close>

definition listening :: "life \<Rightarrow> bool" where
  "listening l \<longleftrightarrow> lfPhase l \<in> {P_select, P_stop, P_cancel, P_listener}"

inductive lstep :: "life \<Rightarrow> label list \<Rightarrow> life \<Rightarrow> bool" where
  l_loop: "gstep (lfGate l) lab g \<Longrightarrow> dlv g \<noteq> dlv (lfGate l) \<Longrightarrow>
     loc (dlv g) = loc (dlv (lfGate l)) \<or> \<not> hasDump (srv (lfGate l)) \<or> (\<forall>f. loc (dlv (lfGate l)) \<noteq> L_dump f) \<Longrightarrow>
     lstep l [lab] (l\<lparr>lfGate := g\<rparr>)"
| l_dump: "loc (dlv (lfGate l)) = L_dump f \<Longrightarrow> hasDump (srv (lfGate l)) \<Longrightarrow>
     saveDump k (srv (lfGate l)) (lfDump l) = Some (err, s', dump) \<Longrightarrow>
     lstep l [Internal] (l\<lparr>lfGate := \<lparr>srv = s', dlv = (note_error err (dlv (lfGate l)))\<lparr>loc := L_close f\<rparr>\<rparr>, lfDump := dump\<rparr>)"
| h_start: "lfHandlers l c = Some H_start \<Longrightarrow> DestEGTS (dests (srv (lfGate l))) = [] \<Longrightarrow>
     lstep l [] (upd_handler c (Some (H_serving (new_terminal (cfg (srv (lfGate l))) addr None))) l)"
| h_session: "lfHandlers l c = Some H_start \<Longrightarrow> DestEGTS (dests (srv (lfGate l))) \<noteq> [] \<Longrightarrow>
     (\<And>ident. random = Inr ident \<Longrightarrow> session_name ident) \<Longrightarrow>
     newRelaySession random (srv (lfGate l)) = (Inr sess, s') \<Longrightarrow>
     lstep l [Internal] (upd_srv s' (upd_handler c (Some (H_serving (new_terminal (cfg s') addr sess))) l))"
| h_no_session: "lfHandlers l c = Some H_start \<Longrightarrow> DestEGTS (dests (srv (lfGate l))) \<noteq> [] \<Longrightarrow>
     newRelaySession random (srv (lfGate l)) = (Inl e, s') \<Longrightarrow>
     lstep l [Internal] (upd_srv s' (upd_handler c (Some H_leaving) l))"
| h_frame: "lfHandlers l c = Some (H_serving t) \<Longrightarrow> handle_frame env raw (srv (lfGate l)) t = Some (v, out, s', t') \<Longrightarrow>
     lstep l (frame_label (srv (lfGate l)) s') (upd_srv s' (upd_handler c (Some (after_frame t v t')) l))"
| h_end: "lfHandlers l c = Some (H_serving t) \<Longrightarrow> lstep l [] (upd_handler c (Some (H_ended (connSession t))) l)"
| h_no_finish: "lfHandlers l c = Some (H_ended None) \<Longrightarrow> lstep l [] (upd_handler c (Some H_leaving) l)"
| h_finish: "lfHandlers l c = Some (H_ended (Some sid)) \<Longrightarrow> endRelaySession sid (srv (lfGate l)) = (fin, s') \<Longrightarrow>
     lstep l [closed_label (if fin then Some sid else None)]
       (upd_srv (finish_close (if fin then Some sid else None) s') (upd_handler c (Some H_leaving) l))"
| h_leave: "lfHandlers l c = Some H_leaving \<Longrightarrow> lstep l [] (upd_handler c None l)"
| a_accept: "lfAcceptor l = A_accept \<Longrightarrow> listening l \<Longrightarrow> lfHandlers l c = None \<Longrightarrow> lstep l [] (l\<lparr>lfAcceptor := A_accepted c\<rparr>)"
| a_failed: "lfAcceptor l = A_accept \<Longrightarrow>
     lstep l [] (l\<lparr>lfAcceptor := A_returned (if lfStopped l then None else Some (Wrapf ''Can't accept EGTS connection'' e))\<rparr>)"
| a_register: "lfAcceptor l = A_accepted c \<Longrightarrow> accepting (srv (lfGate l)) \<Longrightarrow>
     lstep l [] (upd_handler c (Some H_start) (l\<lparr>lfAcceptor := A_accept\<rparr>))"
| a_refuse: "lfAcceptor l = A_accepted c \<Longrightarrow> \<not> accepting (srv (lfGate l)) \<Longrightarrow>
     lstep l [] (l\<lparr>lfAcceptor := A_returned err\<rparr>)"
| s_cancelled: "lstep l [] (l\<lparr>lfStopped := True\<rparr>)"
| s_context: "lfPhase l = P_select \<Longrightarrow> lfStopped l \<Longrightarrow> lstep l [] (l\<lparr>lfPhase := P_stop\<rparr>)"
| s_accepted: "lfPhase l = P_select \<Longrightarrow> lfAcceptor l = A_returned err \<Longrightarrow>
     lstep l [] (l\<lparr>lfPhase := P_stop, lfResult := err, lfAcceptFinished := True\<rparr>)"
| s_delivered: "lfPhase l = P_select \<Longrightarrow> loc (dlv (lfGate l)) = L_returned err \<Longrightarrow>
     lstep l [] (l\<lparr>lfPhase := P_stop, lfResult := err, lfDeliveryFinished := True\<rparr>)"
| s_stop: "lfPhase l = P_stop \<Longrightarrow>
     lstep l [Internal] (upd_srv ((srv (lfGate l))\<lparr>accepting := False\<rparr>) (l\<lparr>lfPhase := P_cancel\<rparr>))"
| s_cancel: "lfPhase l = P_cancel \<Longrightarrow> lstep l [] (l\<lparr>lfPhase := P_listener, lfStopped := True\<rparr>)"
| s_listener: "lfPhase l = P_listener \<Longrightarrow>
     lstep l [] (l\<lparr>lfPhase := P_accept, lfResult := closing_err (lfResult l) err\<rparr>)"
| s_accept_finished: "lfPhase l = P_accept \<Longrightarrow> lfAcceptFinished l \<Longrightarrow> lstep l [] (l\<lparr>lfPhase := P_clients\<rparr>)"
| s_accept: "lfPhase l = P_accept \<Longrightarrow> \<not> lfAcceptFinished l \<Longrightarrow> lfAcceptor l = A_returned err \<Longrightarrow>
     lstep l [] (l\<lparr>lfPhase := P_clients, lfResult := first_err (lfResult l) err\<rparr>)"
| s_clients: "lfPhase l = P_clients \<Longrightarrow> distinct cs \<Longrightarrow> set cs = dom (lfHandlers l) \<Longrightarrow>
     lstep l [] (l\<lparr>lfPhase := P_connections, lfClosed := set cs,
       lfResult := fold (\<lambda>c r. closing_err r (err c)) cs (lfResult l)\<rparr>)"
| s_connections: "lfPhase l = P_connections \<Longrightarrow> lfHandlers l = Map.empty \<Longrightarrow> lstep l [] (l\<lparr>lfPhase := P_delivery\<rparr>)"
| s_delivery_finished: "lfPhase l = P_delivery \<Longrightarrow> lfDeliveryFinished l \<Longrightarrow> lstep l [] (l\<lparr>lfPhase := P_save\<rparr>)"
| s_delivery: "lfPhase l = P_delivery \<Longrightarrow> \<not> lfDeliveryFinished l \<Longrightarrow> loc (dlv (lfGate l)) = L_returned err \<Longrightarrow>
     lstep l [] (l\<lparr>lfPhase := P_save, lfResult := first_err (lfResult l) err\<rparr>)"
| s_no_save: "lfPhase l = P_save \<Longrightarrow> queue (srv (lfGate l)) = [] \<Longrightarrow> \<not> hasDump (srv (lfGate l)) \<Longrightarrow>
     lstep l [] (l\<lparr>lfPhase := P_close\<rparr>)"
| s_save: "lfPhase l = P_save \<Longrightarrow> queue (srv (lfGate l)) \<noteq> [] \<or> hasDump (srv (lfGate l)) \<Longrightarrow>
     saveDump k (srv (lfGate l)) (lfDump l) = Some (err, s', dump) \<Longrightarrow>
     lstep l [] (upd_srv s' (l\<lparr>lfPhase := P_close, lfDump := dump,
       lfResult := added_err ''Can't save pending packets: %v'' err (lfResult l)\<rparr>))"
| s_close: "lfPhase l = P_close \<Longrightarrow> length (clRelays k) = card (ran (relays (srv (lfGate l)))) \<Longrightarrow>
     lstep l [] (l\<lparr>lfPhase := P_returned, lfReleased := ran (relays (srv (lfGate l))),
       lfResult := closed_result k (lfResult l)\<rparr>)"

inductive_cases lstep_cases: "lstep l ls l'"

inductive lrun :: "life \<Rightarrow> label list \<Rightarrow> life \<Rightarrow> bool" where
  lrun_nil: "lrun l [] l"
| lrun_snoc: "lrun l ls l' \<Longrightarrow> lstep l' ls' l'' \<Longrightarrow> lrun l (ls @ ls') l''"

end
