(* ===== verification/Lifecycle_Lemmas.thy ===== *)
theory Lifecycle_Lemmas
  imports Lifecycle Dump_Properties Delivery_Properties
begin

text \<open>
  What the steps of a serving gateway keep: the delivery loop's invariant, the sessions of the
  connections, what the dump needs of every packet, and the order in which \<open>serve\<close> stops.
\<close>

section \<open>What a step of the gateway keeps\<close>

definition gate_carries :: "server \<Rightarrow> server \<Rightarrow> bool" where
  "gate_carries s s' \<longleftrightarrow> cfg s' = cfg s \<and> hasDump s' = hasDump s \<and> length (sessions s) \<le> length (sessions s') \<and>
     (\<forall>sid<length (sessions s). sessionID (sessions s' ! sid) = sessionID (sessions s ! sid) \<and>
        writers (sessions s' ! sid) = writers (sessions s ! sid)) \<and>
     length (items s) \<le> length (items s') \<and>
     (\<forall>a<length (items s). pRecord (items s' ! a) = pRecord (items s ! a) \<and> pRelay (items s' ! a) = pRelay (items s ! a) \<and>
        pEGTS (items s' ! a) \<subseteq> pEGTS (items s ! a))"

text \<open>What the steps of the loop leave to the connections.\<close>

definition left_alone :: "server \<Rightarrow> server \<Rightarrow> bool" where
  "left_alone s s' \<longleftrightarrow> accepting s' = accepting s \<and> length (sessions s') = length (sessions s) \<and> length (items s') = length (items s) \<and>
     (\<forall>sid<length (sessions s). closed (sessions s' ! sid) = closed (sessions s ! sid))"

lemma gate_carries_refl [simp]: "gate_carries s s" "left_alone s s"
  by (simp_all add: gate_carries_def left_alone_def)

lemma gate_carries_same [simp]:
  "gate_carries s (s'\<lparr>accepting := b\<rparr>) = gate_carries s s'" "gate_carries s (s'\<lparr>wake := b\<rparr>) = gate_carries s s'"
  by (simp_all add: gate_carries_def)

lemma enqueue_carries:
  assumes "enqueue r relay s = Some (Inr a, s')" "open_session relay s"
  shows "gate_carries s s' \<and> a = length (items s) \<and> length (items s') = Suc (length (items s)) \<and>
    length (sessions s') = length (sessions s) \<and> (\<forall>sid<length (sessions s). closed (sessions s' ! sid) = closed (sessions s ! sid))"
  using assms(1) by (elim enqueue_Inr) (simp add: gate_carries_def nth_append count_pending_session)

lemma new_session_carries:
  assumes "newRelaySession random s = (res, s')"
  shows "gate_carries s s' \<and> items s' = items s \<and> accepting s' = accepting s \<and>
    (\<forall>sid<length (sessions s). closed (sessions s' ! sid) = closed (sessions s ! sid))"
  using new_session_effect [OF assms] by cases (simp_all add: gate_carries_def nth_append)

lemma finish_close_names [simp]:
  "sid < length (sessions s) \<Longrightarrow> sessionID (sessions (finish_close f s) ! sid) = sessionID (sessions s ! sid)"
  "sid < length (sessions s) \<Longrightarrow> writers (sessions (finish_close f s) ! sid) = writers (sessions s ! sid)"
  "accepting (finish_close f s) = accepting s" "hasDump (finish_close f s) = hasDump s"
  by (simp_all add: finish_close_def close_session_nth split: option.splits) (simp_all add: close_session_def)

lemma finish_close_carries: "gate_carries s s' \<Longrightarrow> gate_carries s (finish_close f s')"
  by (simp add: gate_carries_def)

lemma finish_close_left_alone: "left_alone s (finish_close f s)"
  by (simp add: left_alone_def)

lemma end_session_carries:
  assumes "endRelaySession sid s = (fin, s')" "sid < length (sessions s)"
  shows "gate_carries s s' \<and> items s' = items s \<and> accepting s' = accepting s \<and> length (sessions s') = length (sessions s) \<and>
    (\<forall>j<length (sessions s). closed (sessions s' ! j) \<longleftrightarrow> j = sid \<or> closed (sessions s ! j))"
  using assms by (auto simp: endRelaySession_def Let_def gate_carries_def nth_list_update split: if_splits)

lemma count_delivered_keeps:
  assumes "count_delivered k a s = (fin, s')"
  shows "accepting s' = accepting s"
  using assms by (auto simp: count_delivered_def Let_def split: if_splits option.splits)

lemma delivered_result_carries:
  assumes "delivered_result i a s d = (s', d')"
  shows "gate_carries s s' \<and> left_alone s s'"
proof -
  let ?k = "kind (targets d ! i)" and ?n = "tid (targets d ! i)"
  let ?s = "s\<lparr>items := (items s)[a := delivered_item ?k ?n (items s ! a)]\<rparr>"
  obtain f where f: "count_delivered ?k a ?s = (f, s')"
    using assms by (auto simp: delivered_result_def Let_def split: prod.splits)
  note e = count_delivered_effect [OF f] count_delivered_keeps [OF f]
  have "pEGTS (items s' ! b) \<subseteq> pEGTS (items s ! b) \<and> pRecord (items s' ! b) = pRecord (items s ! b) \<and>
      pRelay (items s' ! b) = pRelay (items s ! b)" if "b < length (items s)" for b
    using that pEGTS_delivered [of ?k ?n "items s ! a"] by (cases "a = b") (simp_all add: e(3))
  with e show ?thesis by (simp add: gate_carries_def left_alone_def)
qed

lemma gstep_carries: "gstep g l g' \<Longrightarrow> ginv g \<Longrightarrow> gate_carries (srv g) (srv g') \<and> (dlv g' \<noteq> dlv g \<longrightarrow> left_alone (srv g) (srv g'))"
proof (induction rule: gstep.induct)
  case (g_enqueue r relay g a s')
  then show ?case using enqueue_carries by simp
next
  case (g_new_session random g res s')
  then show ?case using new_session_carries by simp
next
  case (g_end_session sid g fin s')
  then show ?case using end_session_carries by (simp add: finish_close_carries)
next
  case (g_top g s' d')
  obtain its where t: "loop_top (srv g) (dlv g) = Some
      ((srv g)\<lparr>items := its, queue := filter (\<lambda>a. \<not> finished_item (items (srv g) ! a)) (queue (srv g))\<rparr>,
       (dlv g)\<lparr>loc := L_target 0 (cancelled (dlv g)) None 0\<rparr>)" "length its = length (items (srv g))"
    "\<forall>b<length its. its ! b = (if b \<in> set (queue (srv g)) \<and> finished_item (items (srv g) ! b)
       then marked (items (srv g) ! b) else items (srv g) ! b)"
    by (rule loop_top_effect [OF ginv_started [OF g_top.prems]])
  with g_top.hyps(2) show ?case by (auto simp: gate_carries_def left_alone_def marked_def split: if_splits)
next
  case (g_delivered g r s' d')
  then show ?case using delivered_result_carries by simp
next
  case (g_close g f err)
  show ?case by (simp add: finish_close_carries finish_close_left_alone)
qed (simp_all add: left_alone_def)

section \<open>Packets that the dump can hold\<close>

lemma savable_carried:
  assumes "savable s (items s ! a)" "gate_carries s s'" "a < length (items s)" "started_server s"
  shows "savable s' (items s' ! a)"
proof -
  from assms(3,4) have ok: "item_ok s (items s ! a)" by (simp add: started_server_def session_inv_def)
  have same: "pRecord (items s' ! a) = pRecord (items s ! a)" "pRelay (items s' ! a) = pRelay (items s ! a)"
    "pEGTS (items s' ! a) \<subseteq> pEGTS (items s ! a)"
    using assms(2,3) by (simp_all add: gate_carries_def)
  show ?thesis
  proof (cases "pEGTS (items s' ! a) = {}")
    case False
    with same(3) have "pEGTS (items s ! a) \<noteq> {}" by blast
    with assms(1) obtain r sid where r: "shouldRelay (RecPacket (pRecord (items s ! a))) = Some (Inr True)" "pRelay (items s ! a) = Some r"
      "session r = Some sid" "session_name (sessionID (sessions s ! sid))"
      "identity r = [] \<or> (\<exists>t. SRTermIdentity_Decode (identity r) = Inr t)"
      by (auto simp: savable_def)
    then have "sid < length (sessions s)" using ok by (simp add: item_ok_def item_session_def)
    with assms(2) have "sessionID (sessions s' ! sid) = sessionID (sessions s ! sid)" by (simp add: gate_carries_def)
    with r assms(1) show ?thesis by (auto simp: savable_def same)
  qed (use assms(1) in \<open>simp add: savable_def same\<close>)
qed

definition all_savable :: "server \<Rightarrow> bool" where
  "all_savable s \<longleftrightarrow> (\<forall>a<length (items s). savable s (items s ! a))"

lemma all_savable_carried:
  "all_savable s \<Longrightarrow> gate_carries s s' \<Longrightarrow> started_server s \<Longrightarrow> length (items s') = length (items s) \<Longrightarrow> all_savable s'"
  by (auto simp: all_savable_def intro: savable_carried)

lemma all_savable_cong [simp]: "all_savable (s\<lparr>hasDump := b\<rparr>) = all_savable s" "all_savable (s\<lparr>accepting := b\<rparr>) = all_savable s"
  "all_savable (s\<lparr>queue := q\<rparr>) = all_savable s"
  by (simp_all add: all_savable_def savable_def)

section \<open>What one frame does to the server\<close>

definition identity_ok :: "bytes \<Rightarrow> bool" where
  "identity_ok b \<longleftrightarrow> b = [] \<or> (\<exists>t. SRTermIdentity_Decode b = Inr t)"

lemma scan_data_identity:
  assumes "scan_data auth sess rd sc = Some (Inr sc')" "sound_record rd" "identity_ok (nextRelayIdentity sc)"
  shows "identity_ok (nextRelayIdentity sc')"
proof -
  obtain r where r: "rd = Some r" using assms(1) by (cases rd) auto
  show ?thesis
  proof (cases "\<exists>d. SubrecordData r = Some (SD_TermIdentity d)")
    case True
    then obtain d where d: "SubrecordData r = Some (SD_TermIdentity (Some d))"
      using assms(1) by (auto simp: r split: option.splits)
    with assms(2) obtain b where b: "SRTermIdentity_Encode (Some d) = Inr b" "SRTermIdentity_Decode b = Inr d"
      by (auto simp: r sound_record_def)
    from assms(1) d have "scan_identity sess d sc = Inr sc'" by (simp add: r)
    with b assms(3) show ?thesis
      by (auto simp: scan_identity_def Let_def identity_ok_def simp del: SRTermIdentity_Encode.simps split: if_splits)
  next
    case False
    with assms(1,3) show ?thesis
      by (auto simp: r scan_credentials_def Let_def split: option.splits SubData.splits if_splits)
  qed
qed

lemma scan_auth_records_identity:
  "scan_auth_records auth sess rds sc = Some (Inr sc') \<Longrightarrow> list_all sound_record rds \<Longrightarrow> identity_ok (nextRelayIdentity sc) \<Longrightarrow>
   identity_ok (nextRelayIdentity sc')"
proof (induction rds arbitrary: sc)
  case (Cons rd rds)
  then obtain sc1 where "scan_data auth sess rd sc = Some (Inr sc1)" "scan_auth_records auth sess rds sc1 = Some (Inr sc')"
    by (auto split: option.splits sum.splits)
  with Cons.IH scan_data_identity Cons.prems(2,3) show ?case by simp
qed simp

lemma scan_auth_identity:
  "scan_auth auth sess ss sc = Some (Inr sc') \<Longrightarrow> sound_services ss \<Longrightarrow> identity_ok (nextRelayIdentity sc) \<Longrightarrow>
   identity_ok (nextRelayIdentity sc')"
proof (induction ss arbitrary: sc)
  case (Cons s ss)
  then obtain r where r: "s = Some r" "list_all sound_record (RecordsData r)" "sound_services ss"
    by (cases s) (auto simp: sound_services_def)
  show ?case
  proof (cases "SourceServiceType r \<noteq> SERVICE_AUTH \<or> RecipientServiceType r \<noteq> SERVICE_AUTH")
    case True
    with Cons.prems(1) have "scan_auth auth sess ss (sc\<lparr>onlyIdentity := False\<rparr>) = Some (Inr sc')" by (auto simp: r(1))
    with Cons.IH r(3) Cons.prems(3) show ?thesis by simp
  next
    case False
    with Cons.prems(1) obtain sc1 where "scan_auth_records auth sess (RecordsData r) sc = Some (Inr sc1)"
      "scan_auth auth sess ss sc1 = Some (Inr sc')"
      by (auto simp: r(1) split: option.splits sum.splits)
    with Cons.IH scan_auth_records_identity r Cons.prems(3) show ?thesis by simp
  qed
qed simp

text \<open>A frame leaves the server alone or enqueues its packet.\<close>

definition enqueues :: "bytes \<Rightarrow> terminal \<Rightarrow> server \<Rightarrow> server \<Rightarrow> bool" where
  "enqueues raw t s s' \<longleftrightarrow> (\<exists>r ident a. enqueue r (Some \<lparr>session = connSession t, identity = ident\<rparr>) s = Some (Inr a, s') \<and>
     ReadPacket (RecRaw r) = (RecPacket r, None) \<and> RecRaw r = raw \<and> identity_ok ident)"

lemma enqueue_error: "enqueue r relay s = Some (Inl e, s') \<Longrightarrow> s' = s"
  by (auto simp: enqueue_def Let_def split: if_splits option.splits sum.splits)

lemma dispose_effect:
  assumes "dispose env raw p t sc s = Some (code, go, s')" "ReadPacket raw = (p, None)" "identity_ok (nextRelayIdentity sc)"
  shows "s' = s \<or> enqueues raw t s s'"
proof (cases "admit t sc = EGTS_PC_OK \<and> \<not> requestCredentials t sc")
  case True
  let ?r = "\<lparr>ReceivedAt = envNow env, RecSource = nextSource sc, RecPacket = p, RecRaw = raw\<rparr>"
  from True assms(1) obtain x where x: "enqueue ?r (Some \<lparr>session = connSession t, identity = nextRelayIdentity sc\<rparr>) s = Some (x, s')"
    by (auto simp: dispose_def submit_def split: option.splits sum.splits prod.splits)
  show ?thesis
  proof (cases x)
    case (Inl e)
    with x show ?thesis by (simp add: enqueue_error)
  next
    case (Inr a)
    with x assms(2,3) show ?thesis
      unfolding enqueues_def by (intro disjI2 exI [of _ ?r] exI [of _ "nextRelayIdentity sc"] exI [of _ a]) simp
  qed
next
  case False
  with assms(1) show ?thesis by (simp add: dispose_def)
qed

lemma answer_frame_identity:
  assumes "answer_frame env p decoded sc request t = Some (v, out, t')" "identity_ok (nextRelayIdentity sc)" "identity_ok (relayIdentity t)"
  shows "v = Goes_on \<longrightarrow> connSession t' = connSession t \<and> identity_ok (relayIdentity t')"
  using answer_frame_state assms by auto

lemma handle_frame_effect:
  assumes "handle_frame env raw s t = Some (v, out, s', t')" "identity_ok (relayIdentity t)"
  shows "(s' = s \<or> enqueues raw t s s') \<and> (v = Goes_on \<longrightarrow> connSession t' = connSession t \<and> identity_ok (relayIdentity t'))"
proof (cases rule: handle_frame_branches [of raw env s t])
  case ignored
  with assms show ?thesis by simp
next
  case (refused p e v1 out1 t1)
  with assms answer_frame_identity [OF refused(3)] show ?thesis by (simp add: no_scan_def)
next
  case (cut_off p ss sc code s1)
  have "sound_services ss" by (rule decoded_services [OF cut_off(1,2)]) (use cut_off(3) in simp)
  with scan_auth_identity [OF cut_off(4)] assms(2) have "identity_ok (nextRelayIdentity sc)" by (simp add: no_scan_def)
  with dispose_effect [OF cut_off(5,1)] assms(1) cut_off(6) show ?thesis by auto
next
  case (answered p ss sc code s1 v1 out1 t1)
  have "sound_services ss" by (rule decoded_services [OF answered(1,2)]) (use answered(3) in simp)
  with scan_auth_identity [OF answered(5)] assms(2) have i: "identity_ok (nextRelayIdentity sc)" by (simp add: no_scan_def)
  with dispose_effect [OF answered(6,1)] answer_frame_identity [OF answered(7)] assms answered(8) show ?thesis by simp
qed

text \<open>What is enqueued can be saved.\<close>

lemma enqueues_savable:
  assumes "enqueues raw t s s'" "open_session (Some \<lparr>session = connSession t, identity = ident\<rparr>) s" "all_savable s" "started_server s"
    and "\<And>sid. connSession t = Some sid \<Longrightarrow> session_name (sessionID (sessions s ! sid))"
  shows "all_savable s' \<and> gate_carries s s' \<and> length (items s') = Suc (length (items s)) \<and>
    length (sessions s') = length (sessions s) \<and> (\<forall>sid<length (sessions s). closed (sessions s' ! sid) = closed (sessions s ! sid)) \<and>
    gstep \<lparr>srv = s, dlv = d\<rparr> (Enqueued (length (items s)) (items s' ! length (items s))) \<lparr>srv = s', dlv = d\<rparr>"
proof -
  from assms(1) obtain r idn a where e: "enqueue r (Some \<lparr>session = connSession t, identity = idn\<rparr>) s = Some (Inr a, s')"
    "ReadPacket (RecRaw r) = (RecPacket r, None)" "identity_ok idn" by (auto simp: enqueues_def)
  let ?relay = "Some \<lparr>session = connSession t, identity = idn\<rparr>"
  have open_: "open_session ?relay s" using assms(2) by (simp add: open_session_def)
  note c = enqueue_carries [OF e(1) open_]
  obtain ids where new: "items s' = items s @ [new_item s r ?relay ids]"
    "relay_targets (shouldRelay (RecPacket r)) ?relay (DestEGTS (dests s)) {} = Some (Inr ids)"
    "sessions s' = sessions (count_pending (new_item s r ?relay ids) s)"
    using e(1) by (elim enqueue_Inr) simp
  have "savable s' (new_item s r ?relay ids)"
  proof (cases "ids = {}")
    case False
    with new(2) relay_targets_none [OF new(2)] have sr: "shouldRelay (RecPacket r) = Some (Inr True)" by blast
    from False relay_targets_Inr [OF new(2)] obtain sid where sid: "connSession t = Some sid" by auto
    then have "sid < length (sessions s)" using open_ by (simp add: open_session_def)
    with sid assms(5) have "session_name (sessionID (sessions s' ! sid))" by (simp add: new(3) count_pending_session)
    with False sr sid e(2,3) show ?thesis by (auto simp: savable_def new_item_def identity_ok_def)
  qed (use e(2) in \<open>simp add: savable_def new_item_def\<close>)
  moreover have "savable s' (items s' ! b)" if "b < length (items s)" for b
    using savable_carried [OF _ conjunct1 [OF c] that assms(4)] assms(3) that by (simp add: all_savable_def)
  ultimately have "all_savable s'" by (simp add: all_savable_def new(1) less_Suc_eq)
  moreover have "gstep \<lparr>srv = s, dlv = d\<rparr> (Enqueued a (items s' ! a)) \<lparr>srv = s', dlv = d\<rparr>"
    using g_enqueue [of r ?relay "\<lparr>srv = s, dlv = d\<rparr>" a s'] e(1) open_ by simp
  ultimately show ?thesis using c by simp
qed

end
