(* ===== verification/Lifecycle_Inv.thy ===== *)
theory Lifecycle_Inv
  imports Lifecycle_Lemmas
begin

text \<open>
  The invariant of a serving gateway over all interleavings of \<open>serve\<close>, the accept loop, the
  connections and the delivery loop.
\<close>

section \<open>The invariant\<close>

fun handler_session :: "handler \<Rightarrow> nat option" where
  "handler_session (H_serving t) = connSession t"
| "handler_session (H_ended s) = s"
| "handler_session _ = None"

text \<open>A connection's session is its own, open, and ready for what the connection enqueues.\<close>

definition session_ready :: "server \<Rightarrow> nat \<Rightarrow> bool" where
  "session_ready s sid \<longleftrightarrow> sid < length (sessions s) \<and> \<not> closed (sessions s ! sid) \<and>
     set (enabled_egts (dests s)) \<subseteq> writers (sessions s ! sid) \<and> session_name (sessionID (sessions s ! sid))"

definition handler_ok :: "server \<Rightarrow> handler \<Rightarrow> bool" where
  "handler_ok s h \<longleftrightarrow> (\<forall>sid. handler_session h = Some sid \<longrightarrow> session_ready s sid) \<and>
     (case h of H_serving t \<Rightarrow> identity_ok (relayIdentity t) | _ \<Rightarrow> True)"

definition session_of :: "(nat \<rightharpoonup> handler) \<Rightarrow> nat \<Rightarrow> nat option" where
  "session_of hs c = (case hs c of None \<Rightarrow> None | Some h \<Rightarrow> handler_session h)"

definition held :: "server \<Rightarrow> (nat \<rightharpoonup> handler) \<Rightarrow> bool" where
  "held s hs \<longleftrightarrow> (\<forall>h\<in>ran hs. handler_ok s h) \<and>
     (\<forall>c c' sid. session_of hs c = Some sid \<longrightarrow> session_of hs c' = Some sid \<longrightarrow> c = c')"

fun rank :: "phase \<Rightarrow> nat" where
  "rank P_select = 0" | "rank P_stop = 1" | "rank P_cancel = 2" | "rank P_listener = 3" | "rank P_accept = 4"
| "rank P_clients = 5" | "rank P_connections = 6" | "rank P_delivery = 7" | "rank P_save = 8" | "rank P_close = 9"
| "rank P_returned = 10"

text \<open>How far the stop has come at each phase.\<close>

definition stop_order :: "life \<Rightarrow> bool" where
  "stop_order l \<longleftrightarrow>
     (2 \<le> rank (lfPhase l) \<longrightarrow> \<not> accepting (srv (lfGate l))) \<and>
     (lfAcceptFinished l \<or> 5 \<le> rank (lfPhase l) \<longrightarrow> (\<exists>e. lfAcceptor l = A_returned e)) \<and>
     (6 \<le> rank (lfPhase l) \<longrightarrow> dom (lfHandlers l) \<subseteq> lfClosed l) \<and>
     (7 \<le> rank (lfPhase l) \<longrightarrow> lfHandlers l = Map.empty) \<and>
     (lfDeliveryFinished l \<or> 8 \<le> rank (lfPhase l) \<longrightarrow> (\<exists>e. loc (dlv (lfGate l)) = L_returned e))"

definition linv :: "life \<Rightarrow> bool" where
  "linv l \<longleftrightarrow> ginv (lfGate l) \<and> all_savable (srv (lfGate l)) \<and> held (srv (lfGate l)) (lfHandlers l) \<and> stop_order l \<and>
     (hasDump (srv (lfGate l)) \<longleftrightarrow> lfDump l \<noteq> None)"

lemma session_of_update: "session_of (hs(c := x)) = (session_of hs)(c := (case x of None \<Rightarrow> None | Some h \<Rightarrow> handler_session h))"
  by (auto simp: session_of_def)

lemma heldD: "held s hs \<Longrightarrow> hs c = Some h \<Longrightarrow> handler_ok s h"
  by (auto simp: held_def intro: ranI)

lemma held_session: "held s hs \<Longrightarrow> hs c = Some h \<Longrightarrow> handler_session h = Some sid \<Longrightarrow> session_ready s sid"
  using heldD by (simp add: handler_ok_def)

lemma session_ready_carried:
  assumes "session_ready s sid" "gate_carries s s'" "closed (sessions s' ! sid) = closed (sessions s ! sid)"
  shows "session_ready s' sid"
  using assms by (auto simp: session_ready_def gate_carries_def)

lemma handler_ok_carried:
  assumes "handler_ok s h" "gate_carries s s'" "\<And>sid. handler_session h = Some sid \<Longrightarrow> closed (sessions s' ! sid) = closed (sessions s ! sid)"
  shows "handler_ok s' h"
  using assms(1) session_ready_carried [OF _ assms(2,3)] by (simp add: handler_ok_def)

lemma held_carried:
  assumes "held s hs" "gate_carries s s'" "\<forall>sid<length (sessions s). closed (sessions s' ! sid) = closed (sessions s ! sid)"
  shows "held s' hs"
proof -
  have "handler_ok s' h" if "handler_ok s h" for h
    by (rule handler_ok_carried [OF that assms(2)]) (use that assms(3) in \<open>simp add: handler_ok_def session_ready_def\<close>)
  with assms(1) show ?thesis by (simp add: held_def)
qed

lemma held_empty: "held s Map.empty"
  by (simp add: held_def session_of_def)

text \<open>A connection that changes keeps its session, gives it up, or has a new one.\<close>

lemma held_update:
  assumes "held s hs" "handler_ok s h" "\<And>c' sid. handler_session h = Some sid \<Longrightarrow> session_of hs c' = Some sid \<Longrightarrow> c' = c"
  shows "held s (hs(c \<mapsto> h))"
proof -
  have "\<forall>x\<in>ran (hs(c \<mapsto> h)). handler_ok s x"
    using assms(1,2) by (auto simp: held_def ran_def)
  moreover have "\<forall>c1 c2 sid. session_of (hs(c \<mapsto> h)) c1 = Some sid \<longrightarrow> session_of (hs(c \<mapsto> h)) c2 = Some sid \<longrightarrow> c1 = c2"
    using assms(1,3) unfolding session_of_update held_def by simp
  ultimately show ?thesis by (simp add: held_def)
qed

lemma held_update_same:
  assumes "held s hs" "hs c = Some h0" "handler_ok s h" "handler_session h = handler_session h0"
  shows "held s (hs(c \<mapsto> h))"
proof (rule held_update [OF assms(1,3)])
  fix c' sid
  assume "handler_session h = Some sid" "session_of hs c' = Some sid"
  moreover from this assms(2,4) have "session_of hs c = Some sid" by (simp add: session_of_def)
  ultimately show "c' = c" using assms(1) unfolding held_def by blast
qed

lemma held_without:
  assumes "held s hs" "handler_ok s h" "handler_session h = None"
  shows "held s (hs(c \<mapsto> h))"
  by (rule held_update [OF assms(1,2)]) (simp add: assms(3))

lemma held_leave:
  assumes "held s hs"
  shows "held s (hs(c := None))"
proof -
  have "\<forall>x\<in>ran (hs(c := None)). handler_ok s x" using assms by (auto simp: held_def ran_def)
  moreover have "\<forall>c1 c2 sid. session_of (hs(c := None)) c1 = Some sid \<longrightarrow> session_of (hs(c := None)) c2 = Some sid \<longrightarrow> c1 = c2"
    using assms unfolding session_of_update held_def by simp
  ultimately show ?thesis by (simp add: held_def)
qed

lemma held_new:
  assumes "held s hs" "gate_carries s s'" "\<forall>j<length (sessions s). closed (sessions s' ! j) = closed (sessions s ! j)"
    and "handler_ok s' h" "handler_session h = None \<or> handler_session h = Some (length (sessions s))"
  shows "held s' (hs(c \<mapsto> h))"
proof (rule held_update [OF held_carried [OF assms(1-3)] assms(4)])
  fix c' sid
  assume a: "handler_session h = Some sid" "session_of hs c' = Some sid"
  from a(2) obtain h' where "hs c' = Some h'" "handler_session h' = Some sid" by (auto simp: session_of_def split: option.splits)
  with held_session [OF assms(1)] have "sid < length (sessions s)" by (simp add: session_ready_def)
  with a(1) assms(5) show "c' = c" by simp
qed

lemma held_finish:
  assumes "held s hs" "hs c = Some (H_ended (Some sid))" "gate_carries s s'"
    and "\<forall>j<length (sessions s). closed (sessions s' ! j) \<longleftrightarrow> j = sid \<or> closed (sessions s ! j)"
  shows "held s' (hs(c \<mapsto> H_leaving))"
proof -
  have c: "session_of hs c = Some sid" by (simp add: session_of_def assms(2))
  have "handler_ok s' h" if "hs c' = Some h" "c' \<noteq> c" for c' h
  proof (rule handler_ok_carried [OF heldD [OF assms(1) that(1)] assms(3)])
    fix j
    assume j: "handler_session h = Some j"
    then have "session_of hs c' = Some j" by (simp add: session_of_def that)
    with c that(2) assms(1) have "j \<noteq> sid" unfolding held_def by blast
    with held_session [OF assms(1) that(1) j] assms(4) show "closed (sessions s' ! j) = closed (sessions s ! j)"
      by (simp add: session_ready_def)
  qed
  then have "\<forall>x\<in>ran (hs(c \<mapsto> H_leaving)). handler_ok s' x" by (auto simp: ran_def handler_ok_def [of _ H_leaving])
  moreover have "\<forall>c1 c2 j. session_of (hs(c \<mapsto> H_leaving)) c1 = Some j \<longrightarrow> session_of (hs(c \<mapsto> H_leaving)) c2 = Some j \<longrightarrow> c1 = c2"
    using assms(1) unfolding session_of_update held_def by simp
  ultimately show ?thesis by (simp add: held_def)
qed

section \<open>The steps and the gateway's transitions\<close>

lemma returned_stuck: "gstep g lab g' \<Longrightarrow> ginv g \<Longrightarrow> loc (dlv g) = L_returned e \<Longrightarrow> dlv g' = dlv g"
proof (induction rule: gstep.induct)
  case (g_cancel g)
  then have "cancelled (dlv g)" by (simp add: ginv_def loop_inv_def)
  then show ?case by (cases "dlv g") simp
next
  case (g_worker g ws w ws' err)
  then have "in_flight (dlv g) = []" by (simp add: ginv_def loop_inv_def)
  with g_worker.hyps show ?case by (simp add: in_flight_def)
qed simp_all

lemma hasDump_id: "hasDump s \<Longrightarrow> s\<lparr>hasDump := True\<rparr> = s"
  by (cases s) simp

lemma accepting_id: "\<not> accepting s \<Longrightarrow> s\<lparr>accepting := False\<rparr> = s"
  by (cases s) simp

lemma saveDump_effect:
  assumes "saveDump k s file = Some (err, s', file')"
  shows "s' = s \<and> file' = file \<and> err \<noteq> None \<or> s' = s\<lparr>hasDump := True\<rparr> \<and> file' \<noteq> None"
  using assms by (auto simp: saveDump_def split: option.splits)

lemma frame_label_same [simp]: "frame_label s s = []"
  by (simp add: frame_label_def)

lemma frame_gstep:
  assumes "linv l" "lfHandlers l c = Some (H_serving t)" "handle_frame env raw (srv (lfGate l)) t = Some (v, out, s', t')"
  shows "s' = srv (lfGate l) \<or> (all_savable s' \<and> gate_carries (srv (lfGate l)) s' \<and> accepting s' = accepting (srv (lfGate l)) \<and>
    (\<forall>sid<length (sessions (srv (lfGate l))). closed (sessions s' ! sid) = closed (sessions (srv (lfGate l)) ! sid)) \<and>
    (\<exists>lab. frame_label (srv (lfGate l)) s' = [lab] \<and> gstep (lfGate l) lab ((lfGate l)\<lparr>srv := s'\<rparr>)))"
proof -
  let ?s = "srv (lfGate l)"
  from assms(1) have i: "all_savable ?s" "held ?s (lfHandlers l)" "started_server ?s"
    by (simp_all add: linv_def ginv_started)
  have ready: "session_ready ?s sid" if "connSession t = Some sid" for sid
    using held_session [OF i(2) assms(2)] that by simp
  have "identity_ok (relayIdentity t)" using heldD [OF i(2) assms(2)] by (simp add: handler_ok_def)
  from handle_frame_effect [OF assms(3) this] consider "s' = ?s" | "enqueues raw t ?s s'" by blast
  then show ?thesis
  proof cases
    case 2
    have "open_session (Some \<lparr>session = connSession t, identity = []\<rparr>) ?s"
      using ready by (auto simp: open_session_def session_ready_def split: option.split)
    from enqueues_savable [OF 2 this i(1,3), of "dlv (lfGate l)"] ready
    have "all_savable s' \<and> gate_carries ?s s' \<and> length (items s') = Suc (length (items ?s)) \<and>
      (\<forall>sid<length (sessions ?s). closed (sessions s' ! sid) = closed (sessions ?s ! sid)) \<and>
      gstep (lfGate l) (Enqueued (length (items ?s)) (items s' ! length (items ?s))) ((lfGate l)\<lparr>srv := s'\<rparr>)"
      by (cases "lfGate l") (auto simp: session_ready_def)
    moreover have "accepting s' = accepting ?s" using 2 by (auto simp: enqueues_def elim!: enqueue_Inr)
    ultimately show ?thesis by (simp add: frame_label_def)
  qed simp
qed

text \<open>Each step is one transition of the gateway, or leaves it alone but for the mark of the dump.\<close>

lemma lstep_gate:
  assumes "lstep l ls l'" "linv l"
  shows "(\<exists>lab. ls = [lab] \<and> gstep (lfGate l) lab (lfGate l')) \<or>
    ls = [] \<and> (lfGate l' = lfGate l \<or> lfGate l' = (lfGate l)\<lparr>srv := (srv (lfGate l))\<lparr>hasDump := True\<rparr>\<rparr>)"
  using assms
proof (induction rule: lstep.induct)
  case (l_dump l f k err s' dump)
  from saveDump_effect [OF l_dump.hyps(3)] l_dump.hyps(2) have "s' = srv (lfGate l)" by (auto simp: hasDump_id)
  moreover have "gstep (lfGate l) Internal ((lfGate l)\<lparr>dlv := (note_error err (dlv (lfGate l)))\<lparr>loc := L_close f\<rparr>\<rparr>)"
    by (rule g_dump) (use l_dump.hyps in simp_all)
  ultimately show ?case by (cases "lfGate l") simp
next
  case (h_session l c random sess s' addr)
  from g_new_session [OF h_session.hyps(4)] show ?case by simp
next
  case (h_no_session l c random e s')
  from g_new_session [OF h_no_session.hyps(3)] show ?case by simp
next
  case (h_frame l c t env raw v out s' t')
  from frame_gstep [OF h_frame.prems h_frame.hyps] show ?case by auto
next
  case (h_finish l c sid fin s')
  from h_finish.prems h_finish.hyps(1) have "session_ready (srv (lfGate l)) sid"
    by (simp add: linv_def) (metis held_session handler_session.simps(2))
  with g_end_session [OF _ _ h_finish.hyps(2)] show ?case by (simp add: session_ready_def)
next
  case (s_stop l)
  from g_stop [of "lfGate l"] show ?case by simp
next
  case (s_save l k err s' dump)
  from saveDump_effect [OF s_save.hyps(3)] show ?case by (cases "lfGate l") auto
qed simp_all

section \<open>The invariant holds\<close>

lemma ginv_hasDump: "ginv (g\<lparr>srv := (srv g)\<lparr>hasDump := b\<rparr>\<rparr>) = ginv g"
proof -
  have "started_server (s\<lparr>hasDump := b\<rparr>) = started_server s" for s by (rule started_server_cong) simp_all
  moreover have "flight_inv (s\<lparr>hasDump := b\<rparr>) d = flight_inv s d" for s d by (simp add: flight_inv_def waiting_def)
  moreover have "loop_inv (s\<lparr>hasDump := b\<rparr>) d = loop_inv s d" for s d
    by (auto simp: loop_inv_def split: location.splits option.splits)
  ultimately show ?thesis by (simp add: ginv_def)
qed

lemma lstep_ginv: "lstep l ls l' \<Longrightarrow> linv l \<Longrightarrow> ginv (lfGate l')"
  using lstep_gate [of l ls l'] ginv_step ginv_hasDump by (auto simp: linv_def)

lemma stop_order_handler:
  assumes "stop_order l" "lfHandlers l c = Some h0" "accepting s' = accepting (srv (lfGate l))"
  shows "stop_order (upd_srv s' (upd_handler c (Some h) l))"
proof -
  have "c \<in> dom (lfHandlers l)" "lfHandlers l \<noteq> Map.empty" using assms(2) by (auto simp: fun_eq_iff)
  with assms(1,3) show ?thesis by (auto simp: stop_order_def)
qed

lemma stop_order_handler_only:
  assumes "stop_order l" "lfHandlers l c = Some h0"
  shows "stop_order (upd_handler c (Some h) l)"
  using stop_order_handler [OF assms, of "srv (lfGate l)" h] by (cases l; cases "lfGate l") (simp add: stop_order_def)

lemma stop_order_leave:
  assumes "stop_order l" "lfHandlers l c = Some h0"
  shows "stop_order (upd_handler c None l)"
  using assms by (auto simp: stop_order_def fun_upd_idem)

text \<open>The part of the invariant that is not the delivery loop's.\<close>

definition life_ok :: "life \<Rightarrow> bool" where
  "life_ok l \<longleftrightarrow> all_savable (srv (lfGate l)) \<and> held (srv (lfGate l)) (lfHandlers l) \<and> stop_order l \<and>
     (hasDump (srv (lfGate l)) \<longleftrightarrow> lfDump l \<noteq> None)"

lemma linv_iff: "linv l \<longleftrightarrow> ginv (lfGate l) \<and> life_ok l"
  by (auto simp: linv_def life_ok_def)

lemma life_ok_handler:
  assumes "linv l" "lfHandlers l c = Some h0" "handler_session h = None \<or> handler_session h = handler_session h0"
    and "handler_ok (srv (lfGate l)) h"
  shows "life_ok (upd_handler c (Some h) l)"
proof -
  have "held (srv (lfGate l)) ((lfHandlers l)(c \<mapsto> h))"
    using assms held_update_same [of _ _ c h0 h] held_without [of _ _ h c] by (auto simp: linv_def)
  with assms(1) stop_order_handler_only [OF _ assms(2), of h] show ?thesis by (simp add: linv_def life_ok_def)
qed

lemma life_ok_loop:
  assumes "linv l" "gstep (lfGate l) lab g" "dlv g \<noteq> dlv (lfGate l)"
  shows "life_ok (l\<lparr>lfGate := g\<rparr>)"
proof -
  note c = gstep_carries [OF assms(2)]
  from assms(1) have i: "ginv (lfGate l)" "all_savable (srv (lfGate l))" "held (srv (lfGate l)) (lfHandlers l)" "stop_order l"
    "hasDump (srv (lfGate l)) \<longleftrightarrow> lfDump l \<noteq> None" by (simp_all add: linv_def)
  have c: "gate_carries (srv (lfGate l)) (srv g)" "left_alone (srv (lfGate l)) (srv g)"
    using gstep_carries [OF assms(2) i(1)] assms(3) by simp_all
  have "loc (dlv (lfGate l)) \<noteq> L_returned e" for e
    using returned_stuck [OF assms(2) i(1)] assms(3) by blast
  then have "stop_order (l\<lparr>lfGate := g\<rparr>)" using i(4) c(2) by (auto simp: stop_order_def left_alone_def)
  moreover have "held (srv g) (lfHandlers l)"
    by (rule held_carried [OF i(3) c(1)]) (use c(2) in \<open>simp add: left_alone_def\<close>)
  moreover have "all_savable (srv g)"
    by (rule all_savable_carried [OF i(2) c(1) ginv_started [OF i(1)]]) (use c(2) in \<open>simp add: left_alone_def\<close>)
  ultimately show ?thesis using i(5) c(1) by (simp add: life_ok_def gate_carries_def)
qed

lemma life_ok_server:
  assumes "linv l" "lfHandlers l c = Some h0" "gate_carries (srv (lfGate l)) s'" "items s' = items (srv (lfGate l)) \<or> all_savable s'"
    and "accepting s' = accepting (srv (lfGate l))" "held s' ((lfHandlers l)(c \<mapsto> h))"
  shows "life_ok (upd_srv s' (upd_handler c (Some h) l))"
proof -
  from assms(1) have i: "ginv (lfGate l)" "all_savable (srv (lfGate l))" "stop_order l"
    "hasDump (srv (lfGate l)) \<longleftrightarrow> lfDump l \<noteq> None" by (simp_all add: linv_def)
  have "all_savable s'" using assms(4) all_savable_carried [OF i(2) assms(3) ginv_started [OF i(1)]] by auto
  with assms(3,6) i(4) stop_order_handler [OF i(3) assms(2,5), of h] show ?thesis by (simp add: life_ok_def gate_carries_def)
qed

lemma handler_ok_plain [simp]: "handler_ok s H_start" "handler_ok s H_leaving" "handler_ok s (H_ended None)"
  by (simp_all add: handler_ok_def)

lemma handler_ok_ended: "handler_ok s (H_serving t) \<Longrightarrow> handler_ok s (H_ended (connSession t))"
  by (simp add: handler_ok_def)

lemma life_ok_session:
  assumes "linv l" "lfHandlers l c = Some H_start" "newRelaySession random (srv (lfGate l)) = (Inr sess, s')"
    and "\<And>ident. random = Inr ident \<Longrightarrow> session_name ident"
  shows "life_ok (upd_srv s' (upd_handler c (Some (H_serving (new_terminal (cfg s') addr sess))) l))"
proof (rule life_ok_server [OF assms(1,2)])
  let ?s = "srv (lfGate l)" and ?h = "H_serving (new_terminal (cfg s') addr sess)"
  note n = new_session_carries [OF assms(3)]
  then show "gate_carries ?s s'" "items s' = items ?s \<or> all_savable s'" "accepting s' = accepting ?s" by simp_all
  have ready: "session_ready s' sid \<and> sid = length (sessions ?s)" if "sess = Some sid" for sid
    using assms(3,4) that
    by (auto simp: newRelaySession_def Let_def session_ready_def enabled_egts_def dest!: prepare_writers_Inr split: sum.splits if_splits)
  then have ok: "handler_ok s' ?h" by (simp add: handler_ok_def new_terminal_def identity_ok_def)
  show "held s' ((lfHandlers l)(c \<mapsto> ?h))"
  proof (rule held_new)
    show "held ?s (lfHandlers l)" using assms(1) by (simp add: linv_def)
    show "handler_session ?h = None \<or> handler_session ?h = Some (length (sessions ?s))"
      using ready by (cases sess) (simp_all add: new_terminal_def)
  qed (use n ok in simp_all)
qed

lemma life_ok_frame:
  assumes "linv l" "lfHandlers l c = Some (H_serving t)" "handle_frame env raw (srv (lfGate l)) t = Some (v, out, s', t')"
  shows "life_ok (upd_srv s' (upd_handler c (Some (after_frame t v t')) l))"
proof -
  let ?s = "srv (lfGate l)"
  from assms(1) have h: "held ?s (lfHandlers l)" by (simp add: linv_def)
  note ok = heldD [OF h assms(2)]
  then have "identity_ok (relayIdentity t)" by (simp add: handler_ok_def)
  from handle_frame_effect [OF assms(3) this] ok
  have after: "handler_ok ?s (after_frame t v t')" "handler_session (after_frame t v t') = handler_session (H_serving t)"
    by (auto simp: after_frame_def handler_ok_def split: verdict.split)
  have held: "held ?s ((lfHandlers l)(c \<mapsto> after_frame t v t'))" by (rule held_update_same [OF h assms(2) after])
  from frame_gstep [OF assms] show ?thesis
  proof (elim disjE)
    assume "s' = ?s"
    with held show ?thesis by (intro life_ok_server [OF assms(1,2)]) simp_all
  next
    assume "all_savable s' \<and> gate_carries ?s s' \<and> accepting s' = accepting ?s \<and>
      (\<forall>sid<length (sessions ?s). closed (sessions s' ! sid) = closed (sessions ?s ! sid)) \<and>
      (\<exists>lab. frame_label ?s s' = [lab] \<and> gstep (lfGate l) lab ((lfGate l)\<lparr>srv := s'\<rparr>))"
    then show ?thesis using held_carried [OF held, of s'] by (intro life_ok_server [OF assms(1,2)]) auto
  qed
qed

lemma life_ok_finish:
  assumes "linv l" "lfHandlers l c = Some (H_ended (Some sid))" "endRelaySession sid (srv (lfGate l)) = (fin, s')"
  shows "life_ok (upd_srv (finish_close f s') (upd_handler c (Some H_leaving) l))"
proof (rule life_ok_server [OF assms(1,2)])
  let ?s = "srv (lfGate l)"
  from assms(1) have h: "held ?s (lfHandlers l)" by (simp add: linv_def)
  have "sid < length (sessions ?s)" using held_session [OF h assms(2), of sid] by (simp add: session_ready_def)
  note e = end_session_carries [OF assms(3) this]
  then show "gate_carries ?s (finish_close f s')" "items (finish_close f s') = items ?s \<or> all_savable (finish_close f s')"
    "accepting (finish_close f s') = accepting ?s"
    by (simp_all add: finish_close_carries)
  show "held (finish_close f s') ((lfHandlers l)(c \<mapsto> H_leaving))"
    by (rule held_finish [OF h assms(2)]) (use e in \<open>simp_all add: finish_close_carries\<close>)
qed

lemma life_ok_same:
  assumes "linv l" "lfGate l' = lfGate l" "lfHandlers l' = lfHandlers l" "lfDump l' = lfDump l" "stop_order l \<Longrightarrow> stop_order l'"
  shows "life_ok l'"
  using assms by (simp add: linv_def life_ok_def)

lemma lstep_life_ok: "lstep l ls l' \<Longrightarrow> linv l \<Longrightarrow> life_ok l'"
proof (induction rule: lstep.induct)
  case (l_loop l lab g)
  then show ?case by (intro life_ok_loop)
next
  case (l_dump l f k err s' dump)
  from saveDump_effect [OF l_dump.hyps(3)] l_dump.hyps(2) have "s' = srv (lfGate l)" "dump \<noteq> None \<or> dump = lfDump l"
    by (auto simp: hasDump_id)
  with l_dump.prems l_dump.hyps(1,2) show ?case by (auto simp: linv_def life_ok_def stop_order_def)
next
  case (h_start l c addr)
  then show ?case by (intro life_ok_handler) (simp_all add: new_terminal_def handler_ok_def identity_ok_def)
next
  case (h_session l c random sess s' addr)
  then show ?case by (intro life_ok_session) simp_all
next
  case (h_no_session l c random e s')
  note n = new_session_carries [OF h_no_session.hyps(3)]
  show ?case
  proof (rule life_ok_server [OF h_no_session.prems h_no_session.hyps(1)])
    show "held s' ((lfHandlers l)(c \<mapsto> H_leaving))"
      by (rule held_new) (use h_no_session.prems n in \<open>auto simp: linv_def\<close>)
  qed (use n in simp_all)
next
  case (h_frame l c t env raw v out s' t')
  then show ?case by (intro life_ok_frame)
next
  case (h_end l c t)
  then have "handler_ok (srv (lfGate l)) (H_serving t)" by (auto simp: linv_def intro: heldD)
  with h_end show ?case by (intro life_ok_handler [where ?h0.0 = "H_serving t"]) (simp_all add: handler_ok_ended)
next
  case (h_no_finish l c)
  then show ?case by (intro life_ok_handler) simp_all
next
  case (h_finish l c sid fin s')
  then show ?case by (intro life_ok_finish)
next
  case (h_leave l c)
  then show ?case by (simp add: linv_def life_ok_def held_leave stop_order_leave)
next
  case (a_register l c)
  then have "rank (lfPhase l) < 2" "\<not> lfAcceptFinished l" by (auto simp: linv_def stop_order_def)
  with a_register show ?case by (simp add: linv_def life_ok_def stop_order_def held_without)
next
  case (s_stop l)
  have "held ((srv (lfGate l))\<lparr>accepting := False\<rparr>) (lfHandlers l)"
    by (rule held_carried [of "srv (lfGate l)"]) (use s_stop.prems in \<open>simp_all add: linv_def\<close>)
  with s_stop show ?case by (simp add: linv_def life_ok_def stop_order_def)
next
  case (s_save l k err s' dump)
  from saveDump_effect [OF s_save.hyps(3)] consider "s' = srv (lfGate l)" "dump = lfDump l"
    | "s' = (srv (lfGate l))\<lparr>hasDump := True\<rparr>" "dump \<noteq> None" by blast
  then show ?case
  proof cases
    case 2
    have "lfHandlers l = Map.empty" using s_save.prems s_save.hyps(1) by (simp add: linv_def stop_order_def)
    then have "held s' (lfHandlers l)" by (simp add: held_empty)
    with 2 s_save.prems s_save.hyps(1) show ?thesis by (simp add: linv_def life_ok_def stop_order_def)
  qed (use s_save in \<open>simp add: linv_def life_ok_def stop_order_def held_empty\<close>)
qed (erule life_ok_same; auto simp: stop_order_def)+

theorem linv_step: "lstep l ls l' \<Longrightarrow> linv l \<Longrightarrow> linv l'"
  by (simp add: linv_iff [of l'] lstep_ginv lstep_life_ok)

lemma linv_run: "lrun l ls l' \<Longrightarrow> linv l \<Longrightarrow> linv l'"
  by (induction rule: lrun.induct) (auto intro: linv_step)

end
