(* ===== verification/Lifecycle_Properties.thy ===== *)
theory Lifecycle_Properties
  imports Lifecycle_Inv
begin

text \<open>
  The properties of a gateway's whole life: \<open>newServer\<close> gives a server the delivery loop can start
  from, \<open>serve\<close> stops everything before it saves, reports every error, and what it has accepted
  survives a restart.
\<close>

section \<open>Starting\<close>

text \<open>A server as \<open>newServer\<close> leaves it, with the dump file it found.\<close>

definition restored :: "server \<Rightarrow> dumpFile option \<Rightarrow> bool" where
  "restored s dump \<longleftrightarrow> started_server s \<and> all_savable s \<and> (hasDump s \<longleftrightarrow> dump \<noteq> None)"

lemma savable_names:
  assumes "savable s p" "\<And>sid. item_session p = Some sid \<Longrightarrow> sessionID (sessions s' ! sid) = sessionID (sessions s ! sid)"
  shows "savable s' p"
  using assms by (auto simp: savable_def item_session_def)

lemma restore_record_savable:
  assumes "restore_record random v saved s = Some (Inr s')" "restoring pend s" "all_savable s"
    and "int (length pend) < QueueCapacity (DeliveryCfg (cfg s))"
  shows "all_savable s'"
proof -
  have x: "extends s s'" using restore_record_restoring [OF assms(1,2,4)] by simp
  from assms(2) have st: "started_server (s\<lparr>queue := pend\<rparr>)" by (simp add: restoring_def)
  have old: "savable s' (items s ! a)" if "a < length (items s)" for a
  proof (rule savable_names)
    show "savable s (items s ! a)" using assms(3) that by (simp add: all_savable_def)
    have "items s ! a \<in> set (items s)" using that by simp
    then have "item_ok (s\<lparr>queue := pend\<rparr>) (items s ! a)" using st by (simp add: started_server_def session_inv_def)
    then show "item_session (items s ! a) = Some sid \<Longrightarrow> sessionID (sessions s' ! sid) = sessionID (sessions s ! sid)" for sid
      using x by (simp add: item_ok_def extends_def)
  qed
  obtain p where p: "items s' = items s @ [p]" "savable s' p"
    using assms(1)
  proof (cases rule: restore_record_Inr)
    case (plain ids r)
    then show ?thesis by (intro that [of "restored_item saved r ids None"])
      (auto simp: savable_def restored_item_def NewRecord_def split: prod.splits option.splits)
  next
    case (relayed ids r ident sid s1 item)
    from relayed(2) have r: "ReadPacket (RecRaw r) = (RecPacket r, None)"
      by (auto simp: NewRecord_def split: prod.splits option.splits)
    note e = restore_session_effect [OF relayed(4) assms(2)]
    have c: "session_name ident \<and> (savedIdentity saved = [] \<or> (\<exists>t. SRTermIdentity_Decode (savedIdentity saved) = Inr t)) \<and>
        shouldRelay (RecPacket r) = Some (Inr True)"
      using relayed(3) by (cases "SRTermIdentity_Decode (savedIdentity saved)")
        (auto simp: check_relay_def session_name_def split: option.splits if_splits sum.splits bool.splits)
    have "sessionID (sessions s' ! sid) = ident"
      using e by (simp add: relayed(6) count_pending_sessionID)
    with c r have "savable s' item"
      by (auto simp: savable_def relayed(5) restored_item_def)
    with e relayed(6) show ?thesis by (intro that [of item]) simp_all
  qed
  then show ?thesis using old by (simp add: all_savable_def less_Suc_eq nth_append)
qed

lemma restore_lines_savable:
  assumes "restore_lines random v lines pend s = Some (Inr (pend', s'))" "restoring pend s" "all_savable s"
  shows "all_savable s'"
  using assms
proof (induction random v lines pend s rule: restore_lines.induct)
  case (2 random v line lines pend s)
  from "2.prems"(1) have room: "\<not> int (length pend) \<ge> QueueCapacity (DeliveryCfg (cfg s))" by (auto split: if_splits)
  with "2.prems"(1) obtain saved where l: "line = Inr saved" by (auto split: sum.splits)
  with room "2.prems"(1) obtain s1 where r: "restore_record random v saved s = Some (Inr s1)"
    "restore_lines random v lines (pend @ [length (items s)]) s1 = Some (Inr (pend', s'))"
    by (auto split: option.splits sum.splits)
  have "restoring (pend @ [length (items s)]) s1"
    using restore_record_restoring [OF r(1) "2.prems"(2)] room by simp
  moreover have "all_savable s1" by (rule restore_record_savable [OF r(1) "2.prems"(2,3)]) (use room in simp)
  ultimately show ?case using "2.IH" [OF room l r(1) refl r(2)] by blast
qed simp

lemma restored_dump:
  assumes "restoreDump r dump s = Some (Inr s')" "fresh_server s" "\<not> hasDump s"
  shows "restored s' dump \<and> cfg s' = cfg s"
proof -
  from restoreDump_starts [OF assms(2), of r dump] assms(1)
  have st: "started_server s'" "cfg s' = cfg s" by (auto simp: starts_from_def started_gateway_def)
  have "all_savable s' \<and> (hasDump s' \<longleftrightarrow> dump \<noteq> None)"
  proof (cases dump)
    case None
    with assms show ?thesis by (auto simp: restoreDump_def all_savable_def fresh_server_def split: if_splits)
  next
    case (Some f)
    with assms(1) obtain v pend t where l: "restore_lines (restoreRandom r) v (dumpLines f) [] s = Some (Inr (pend, t))"
      "s' = t\<lparr>queue := pend, hasDump := True\<rparr>"
      by (auto simp: restoreDump_def restore_file_def split: if_splits option.splits sum.splits prod.splits)
    have "all_savable t"
      by (rule restore_lines_savable [OF l(1) fresh_restoring [OF assms(2)]])
        (use assms(2) in \<open>simp add: all_savable_def fresh_server_def\<close>)
    with l(2) Some show ?thesis by simp
  qed
  with st show ?thesis by (simp add: restored_def)
qed

lemma prepare_rabbits_dom: "prepare_rabbits cs m = Inr m' \<Longrightarrow> dom m' = dom m \<union> set (map RabbitID (filter RabbitEnabled cs))"
  by (induction cs m rule: prepare_rabbits.induct) (auto simp del: set_filter simp: bindR_def split: if_splits sum.splits)

lemma prepare_valkeys_dom: "prepare_valkeys cs m = Inr m' \<Longrightarrow> dom m' = dom m \<union> set (map ValkeyID (filter ValkeyEnabled cs))"
  by (induction cs m rule: prepare_valkeys.induct) (auto simp del: set_filter simp: bindR_def split: if_splits sum.splits)

lemma prepare_writers_of_Inr:
  assumes "prepare_writers_of k s disk = Inr p"
  shows "prServer p = s \<and> dom (prRabbits p) = set (enabled_rabbitmq (dests s)) \<and> dom (prValkeys p) = set (enabled_valkey (dests s)) \<and>
    (prFile p \<noteq> None \<longleftrightarrow> FileEnabled (DestFile (dests s))) \<and> (prStdout p \<noteq> None \<longleftrightarrow> DestStdout (dests s))"
proof -
  from assms obtain rabbits valkeys out std where p: "prepare_rabbits (DestRabbitMQ (dests s)) Map.empty = Inr rabbits"
    "prepare_valkeys (DestValkey (dests s)) Map.empty = Inr valkeys" "prepare_file (dests s) disk = Inr out"
    "prepare_stdout k (dests s) out = Inr std"
    "p = \<lparr>prServer = s, prRabbits = rabbits, prValkeys = valkeys, prFile = out, prStdout = std\<rparr>"
    by (auto simp: prepare_writers_of_def bindR_def split: sum.splits)
  have "out \<noteq> None \<longleftrightarrow> FileEnabled (DestFile (dests s))"
    using p(3) by (auto simp: prepare_file_def bindR_def split: if_splits sum.splits)
  moreover have "std \<noteq> None \<longleftrightarrow> DestStdout (dests s)"
    using p(4) by (auto simp: prepare_stdout_def split: if_splits sum.splits option.splits)
  ultimately show ?thesis
    using prepare_rabbits_dom [OF p(1)] prepare_valkeys_dom [OF p(2)]
    by (simp add: p(5) enabled_rabbitmq_def enabled_valkey_def)
qed

lemma with_directory_dests [simp]: "DestinationsCfg (with_directory dir conf) = DestinationsCfg conf"
  "QueueCapacity (DeliveryCfg (with_directory dir conf)) = QueueCapacity (DeliveryCfg conf)"
  by (simp_all add: with_directory_def)

lemma initial_fresh: "valid_configuration conf \<Longrightarrow> fresh_server (initial_server (with_directory dir conf))"
  by (simp add: fresh_server_def initial_server_def valid_configuration_def)

lemma newServer_result:
  "\<exists>res. newServer k conf dump disk = Some res \<and>
    (case res of Inl e \<Rightarrow> True
     | Inr p \<Rightarrow> valid_configuration conf \<and> startOutputs k conf = None \<and> restored (prServer p) dump \<and>
         holds_dump (prServer p) dump \<and>
         (\<exists>dir. startAbs k = Inr dir \<and> cfg (prServer p) = with_directory dir conf) \<and>
         dom (prRabbits p) = set (enabled_rabbitmq (DestinationsCfg conf)) \<and>
         dom (prValkeys p) = set (enabled_valkey (DestinationsCfg conf)) \<and>
         (prFile p \<noteq> None \<longleftrightarrow> FileEnabled (DestFile (DestinationsCfg conf))) \<and>
         (prStdout p \<noteq> None \<longleftrightarrow> DestStdout (DestinationsCfg conf)))"
proof (cases "Validate (startOutputs k) conf")
  case None
  then have v: "valid_configuration conf" "startOutputs k conf = None" by (simp_all add: Validate_None)
  show ?thesis
  proof (cases "startMkdir k = None \<and> startEvalSymlinks k = None \<and> (\<exists>dir. startAbs k = Inr dir)")
    case True
    then obtain dir where d: "startMkdir k = None" "startEvalSymlinks k = None" "startAbs k = Inr dir" by blast
    let ?s = "initial_server (with_directory dir conf)"
    have fresh: "fresh_server ?s" by (rule initial_fresh [OF v(1)])
    from restoreDump_starts [OF fresh, of "startRestore k" dump]
    obtain res where r: "restoreDump (startRestore k) dump ?s = Some res" by blast
    show ?thesis
    proof (cases res)
      case (Inl e)
      with None d r show ?thesis by (simp add: newServer_def)
    next
      case (Inr s)
      with r restored_dump [OF _ fresh] restoreDump_holds [OF _ fresh]
      have s: "restored s dump" "holds_dump s dump" "cfg s = with_directory dir conf"
        by (simp_all add: initial_server_def)
      show ?thesis
      proof (cases "prepare_writers_of k s disk")
        case (Inr p)
        with prepare_writers_of_Inr [OF Inr] None d r \<open>res = Inr s\<close> s v show ?thesis by (simp add: newServer_def)
      qed (use None d r \<open>res = Inr s\<close> in \<open>simp add: newServer_def\<close>)
    qed
  qed (use None in \<open>auto simp: newServer_def split: option.split sum.split\<close>)
qed (simp add: newServer_def)

text \<open>
  C35. \<open>newServer\<close> never panics, whatever the dump file holds and whatever the calls it makes return.
  If it gives a server, the configuration was valid, the server is one the delivery loop can start from,
  its queue holds the packets of the dump file in their order, each of them can be saved again, and
  it has a writer for exactly the destinations that are enabled.
\<close>

theorem new_server_ready:
  "\<exists>res. newServer k conf dump disk = Some res \<and>
    (case res of Inl e \<Rightarrow> True
     | Inr p \<Rightarrow> valid_configuration conf \<and> startOutputs k conf = None \<and> restored (prServer p) dump \<and>
         holds_dump (prServer p) dump \<and>
         (\<exists>dir. startAbs k = Inr dir \<and> cfg (prServer p) = with_directory dir conf) \<and>
         dom (prRabbits p) = set (enabled_rabbitmq (DestinationsCfg conf)) \<and>
         dom (prValkeys p) = set (enabled_valkey (DestinationsCfg conf)) \<and>
         (prFile p \<noteq> None \<longleftrightarrow> FileEnabled (DestFile (DestinationsCfg conf))) \<and>
         (prStdout p \<noteq> None \<longleftrightarrow> DestStdout (DestinationsCfg conf)))"
  by (rule newServer_result)

section \<open>Stopping\<close>

lemma serving_linv:
  assumes "restored s dump"
  shows "linv (serving s dump)"
proof -
  have "started_server (s\<lparr>accepting := True\<rparr>) = started_server s" by (rule started_server_cong) simp_all
  with assms have "ginv (lfGate (serving s dump))"
    by (intro started_ginv) (simp add: restored_def serving_def started_gateway_def)
  with assms show ?thesis by (simp add: linv_def restored_def serving_def held_empty stop_order_def)
qed

text \<open>Behind the wait for the delivery loop, only \<open>serve\<close> itself takes steps.\<close>

lemma quiet_step:
  assumes "lstep l ls l'" "linv l" "8 \<le> rank (lfPhase l)"
  shows "ls = [] \<and> queue (srv (lfGate l')) = queue (srv (lfGate l)) \<and> items (srv (lfGate l')) = items (srv (lfGate l)) \<and>
    dlv (lfGate l') = dlv (lfGate l)"
proof -
  from assms(2,3) have o: "lfHandlers l = Map.empty" "\<not> accepting (srv (lfGate l))" "ginv (lfGate l)"
    and r: "\<exists>e. loc (dlv (lfGate l)) = L_returned e" and a: "\<exists>e. lfAcceptor l = A_returned e"
    by (auto simp: linv_def stop_order_def)
  from assms(1) o r a assms(3) show ?thesis
  proof (induction rule: lstep.induct)
    case (l_loop l lab g)
    with returned_stuck show ?case by blast
  next
    case (s_save l k err s' dump)
    from saveDump_effect [OF s_save.hyps(3)] show ?case by auto
  qed auto
qed

lemma late_phase: "lstep l ls l' \<Longrightarrow> 8 \<le> rank (lfPhase l) \<Longrightarrow> 8 \<le> rank (lfPhase l')"
  by (induction rule: lstep.induct) auto

text \<open>
  C13. \<open>serve\<close> stops in order. When it waits for the connections, no new ones are accepted, the accept
  loop has returned, and each connection that is still open is one it has closed. When it comes to
  saving, no connection and no attempt is under way, and from then on nothing is enqueued, delivered or
  changed by anyone, so that what it saves is everything.
\<close>

theorem stop_is_ordered:
  assumes "restored s dump" "lrun (serving s dump) ls l"
  shows "(lfPhase l = P_connections \<longrightarrow> \<not> accepting (srv (lfGate l)) \<and> (\<exists>e. lfAcceptor l = A_returned e) \<and>
      dom (lfHandlers l) \<subseteq> lfClosed l) \<and>
    (lfPhase l \<in> {P_save, P_close, P_returned} \<longrightarrow> lfHandlers l = Map.empty \<and> in_flight (dlv (lfGate l)) = [] \<and>
      (\<forall>ls' l'. lrun l ls' l' \<longrightarrow> ls' = [] \<and> queue (srv (lfGate l')) = queue (srv (lfGate l)) \<and>
         items (srv (lfGate l')) = items (srv (lfGate l)) \<and> dlv (lfGate l') = dlv (lfGate l)))"
proof (intro conjI impI)
  have i: "linv l" by (rule linv_run [OF assms(2) serving_linv [OF assms(1)]])
  then have g: "ginv (lfGate l)" by (simp add: linv_def)
  {
    assume "lfPhase l = P_connections"
    with i show "\<not> accepting (srv (lfGate l))" "\<exists>e. lfAcceptor l = A_returned e" "dom (lfHandlers l) \<subseteq> lfClosed l"
      by (simp_all add: linv_def stop_order_def)
  next
    assume p: "lfPhase l \<in> {P_save, P_close, P_returned}"
    then have r: "8 \<le> rank (lfPhase l)" by auto
    with i show "lfHandlers l = Map.empty" by (simp add: linv_def stop_order_def)
    from i r g show "in_flight (dlv (lfGate l)) = []" by (auto simp: linv_def stop_order_def ginv_def loop_inv_def)
    show "\<forall>ls' l'. lrun l ls' l' \<longrightarrow> ls' = [] \<and> queue (srv (lfGate l')) = queue (srv (lfGate l)) \<and>
        items (srv (lfGate l')) = items (srv (lfGate l)) \<and> dlv (lfGate l') = dlv (lfGate l)"
    proof (intro allI impI)
      fix ls' l'
      assume "lrun l ls' l'"
      from this i r have "8 \<le> rank (lfPhase l') \<and> linv l' \<and> ls' = [] \<and> queue (srv (lfGate l')) = queue (srv (lfGate l)) \<and>
        items (srv (lfGate l')) = items (srv (lfGate l)) \<and> dlv (lfGate l') = dlv (lfGate l)"
      proof (induction rule: lrun.induct)
        case (lrun_snoc l ls l' ls' l'')
        then have "linv l'" "8 \<le> rank (lfPhase l')" by simp_all
        with lrun_snoc quiet_step [OF lrun_snoc.hyps(2)] linv_step [OF lrun_snoc.hyps(2)] late_phase [OF lrun_snoc.hyps(2)]
        show ?case by simp
      qed simp
      then show "ls' = [] \<and> queue (srv (lfGate l')) = queue (srv (lfGate l)) \<and>
        items (srv (lfGate l')) = items (srv (lfGate l)) \<and> dlv (lfGate l') = dlv (lfGate l)" by simp
    qed
  }
qed

section \<open>What the result says\<close>

definition saved :: "life \<Rightarrow> bool" where
  "saved l \<longleftrightarrow> queue (srv (lfGate l)) = [] \<and> lfDump l = None \<or>
     (\<exists>k f s. saveDump k s f = Some (None, srv (lfGate l), lfDump l) \<and> srv (lfGate l) = s\<lparr>hasDump := True\<rparr>)"

lemma saved_same [simp]:
  "saved (l\<lparr>lfHandlers := x\<rparr>) = saved l" "saved (l\<lparr>lfAcceptor := a\<rparr>) = saved l" "saved (l\<lparr>lfPhase := p\<rparr>) = saved l"
  "saved (l\<lparr>lfResult := r\<rparr>) = saved l" "saved (l\<lparr>lfAcceptFinished := b\<rparr>) = saved l"
  "saved (l\<lparr>lfDeliveryFinished := b\<rparr>) = saved l" "saved (l\<lparr>lfStopped := b\<rparr>) = saved l"
  "saved (l\<lparr>lfClosed := y\<rparr>) = saved l" "saved (l\<lparr>lfReleased := y\<rparr>) = saved l"
  by (simp_all add: saved_def)

definition result_ok :: "life \<Rightarrow> bool" where
  "result_ok l \<longleftrightarrow> (lfPhase l = P_select \<longrightarrow> \<not> lfDeliveryFinished l \<and> \<not> lfAcceptFinished l) \<and> (lfResult l = None \<longrightarrow>
     (lfDeliveryFinished l \<or> 8 \<le> rank (lfPhase l) \<longrightarrow> loc (dlv (lfGate l)) = L_returned None) \<and>
     (lfAcceptFinished l \<or> 5 \<le> rank (lfPhase l) \<longrightarrow> lfAcceptor l = A_returned None) \<and>
     (9 \<le> rank (lfPhase l) \<longrightarrow> saved l))"

lemma first_err_None: "first_err r err = None \<longleftrightarrow> r = None \<and> err = None"
  by (auto simp: first_err_def)

lemma closing_err_None: "closing_err r err = None \<Longrightarrow> r = None"
  by (auto simp: closing_err_def first_err_def split: option.splits if_splits)

lemma closing_errs_None: "fold (\<lambda>c r. closing_err r (err c)) cs r = None \<Longrightarrow> r = None"
  by (induction cs arbitrary: r) (auto dest: closing_err_None)

lemma added_err_None: "added_err msg err r = None \<longleftrightarrow> err = None \<and> r = None"
  by (auto simp: added_err_def split: option.splits)

lemma added_errs_None: "fold (added_err msg) errs r = None \<Longrightarrow> r = None"
proof (induction errs arbitrary: r)
  case (Cons e es)
  then have "added_err msg e r = None" by simp
  then show ?case by (simp add: added_err_None)
qed simp

lemma closed_result_None: "closed_result k r = None \<Longrightarrow> r = None"
  by (auto simp: closed_result_def added_err_None dest!: added_errs_None)

lemma result_ok_loop:
  assumes "result_ok l" "linv l" "gstep (lfGate l) lab g" "dlv g \<noteq> dlv (lfGate l)"
  shows "result_ok (l\<lparr>lfGate := g\<rparr>)"
proof -
  from assms(2) have i: "ginv (lfGate l)" "stop_order l" by (simp_all add: linv_def)
  have "loc (dlv (lfGate l)) \<noteq> L_returned e" for e
    using returned_stuck [OF assms(3) i(1)] assms(4) by blast
  with i(2) have "\<not> lfDeliveryFinished l" "rank (lfPhase l) < 8" by (auto simp: stop_order_def)
  with assms(1) show ?thesis by (simp add: result_ok_def)
qed

lemma early_phase:
  assumes "linv l" "lfHandlers l c = Some h"
  shows "rank (lfPhase l) < 7"
  using assms by (cases "rank (lfPhase l) < 7") (auto simp: linv_def stop_order_def)

lemma result_ok_handler:
  assumes "linv l" "lfHandlers l c = Some h" "result_ok l" "lfPhase l' = lfPhase l" "lfResult l' = lfResult l"
    "dlv (lfGate l') = dlv (lfGate l)" "lfAcceptor l' = lfAcceptor l" "lfAcceptFinished l' = lfAcceptFinished l"
    "lfDeliveryFinished l' = lfDeliveryFinished l"
  shows "result_ok l'"
  using early_phase [OF assms(1,2)] assms(3-9) by (simp add: result_ok_def)

lemma result_ok_step: "lstep l ls l' \<Longrightarrow> linv l \<Longrightarrow> result_ok l \<Longrightarrow> result_ok l'"
proof (induction rule: lstep.induct)
  case (l_loop l lab g)
  then show ?case by (intro result_ok_loop)
next
  case (l_dump l f k err s' dump)
  then show ?case by (auto simp: result_ok_def linv_def stop_order_def)
next
  case (a_register l c)
  then have "rank (lfPhase l) < 2" by (auto simp: linv_def stop_order_def)
  with a_register show ?case by (auto simp: result_ok_def)
next
  case (s_stop l)
  then show ?case by (simp add: result_ok_def)
next
  case (s_listener l err)
  then show ?case by (auto simp: result_ok_def dest: closing_err_None)
next
  case (s_accept l err)
  then show ?case by (auto simp: result_ok_def first_err_None)
next
  case (s_clients l cs err)
  then show ?case by (auto simp: result_ok_def dest: closing_errs_None)
next
  case (s_delivery l err)
  then show ?case by (auto simp: result_ok_def first_err_None)
next
  case (s_no_save l)
  then show ?case by (simp add: result_ok_def saved_def linv_def)
next
  case (s_save l k err s' dump)
  show ?case
  proof (cases "err = None")
    case True
    then have "s' = (srv (lfGate l))\<lparr>hasDump := True\<rparr>" using saveDump_effect [OF s_save.hyps(3)] by simp
    with s_save.hyps(3) True have "saved l''" if "srv (lfGate l'') = s'" "lfDump l'' = dump" for l''
      unfolding saved_def that by (intro disjI2 exI [of _ k] exI [of _ "lfDump l"] exI [of _ "srv (lfGate l)"]) simp
    with s_save show ?thesis by (simp add: result_ok_def added_err_None)
  qed (auto simp: result_ok_def added_err_None)
next
  case (s_close l k)
  then show ?case by (auto simp: result_ok_def saved_def dest!: closed_result_None)
next
  case (s_connections l)
  then show ?case by (simp add: result_ok_def)
qed ((rule result_ok_handler, assumption, assumption, assumption; simp) | auto simp: result_ok_def linv_def stop_order_def)+

lemma result_ok_run: "lrun l ls l' \<Longrightarrow> linv l \<Longrightarrow> result_ok l \<Longrightarrow> result_ok l'"
  by (induction rule: lrun.induct) (auto intro: result_ok_step linv_run)

lemma serving_result_ok: "result_ok (serving s dump)"
  by (simp add: result_ok_def serving_def initial_delivery_def)

text \<open>What \<open>serve\<close> has saved is every packet that waits.\<close>

lemma saved_packets:
  assumes "saved l"
  shows "queue (srv (lfGate l)) = [] \<and> lfDump l = None \<or>
    (\<exists>rs. dump_records (srv (lfGate l)) (queue (srv (lfGate l))) = Some rs \<and>
       lfDump l = Some \<lparr>dumpVersion = Some (Inr (dump_version (dests (srv (lfGate l))))), dumpLines = map Inr rs, dumpScanErr = None\<rparr>)"
  using assms unfolding saved_def
proof (elim disjE exE conjE)
  have same: "dump_records (s\<lparr>hasDump := b\<rparr>) as = dump_records s as" for s b as
    by (induction as) (simp_all add: saved_record_def Let_def cong: option.case_cong)
  fix k f x
  assume a: "saveDump k x f = Some (None, srv (lfGate l), lfDump l)" "srv (lfGate l) = x\<lparr>hasDump := True\<rparr>"
  then obtain rs where "dump_records x (queue x) = Some rs"
    "lfDump l = Some \<lparr>dumpVersion = Some (Inr (dump_version (dests x))), dumpLines = map Inr rs, dumpScanErr = None\<rparr>"
    by (auto simp: saveDump_def split: option.splits)
  then show ?thesis by (simp add: a(2) same)
qed simp

lemma returned_ok:
  assumes "restored s dump" "lrun (serving s dump) ls l" "lfPhase l = P_returned" "lfResult l = None"
  shows "loc (dlv (lfGate l)) = L_returned None \<and> lfAcceptor l = A_returned None \<and> saved l"
proof -
  have "result_ok l" by (rule result_ok_run [OF assms(2) serving_linv [OF assms(1)] serving_result_ok])
  with assms(3,4) show ?thesis by (simp add: result_ok_def)
qed


section \<open>Restarting\<close>

lemma lrun_cfg: "lrun l ls l' \<Longrightarrow> linv l \<Longrightarrow> cfg (srv (lfGate l')) = cfg (srv (lfGate l))"
proof (induction rule: lrun.induct)
  case (lrun_snoc l ls l' ls' l'')
  then have i: "linv l'" by (auto intro: linv_run)
  have "cfg (srv (lfGate l'')) = cfg (srv (lfGate l'))"
    using lstep_gate [OF lrun_snoc.hyps(2) i] i cfg_step by (auto simp: linv_def)
  with lrun_snoc show ?case by simp
qed simp

lemma lstep_line:
  assumes "lstep l ls l'" "linv l" "(k, i) \<in> set (target_names (initial_delivery (dests (srv (lfGate l)))))"
  shows "waiting (srv (lfGate l)) k i @ accepted k i ls = delivered k i ls @ waiting (srv (lfGate l')) k i"
  using lstep_gate [OF assms(1,2)]
proof (elim disjE exE conjE)
  fix lab
  assume "ls = [lab]" "gstep (lfGate l) lab (lfGate l')"
  with line_step [of "lfGate l" lab "lfGate l'" k i] assms(2,3) show ?thesis by (simp add: linv_def)
qed (simp_all add: waiting_def)

lemma lrun_line:
  assumes "lrun l ls l'" "linv l" "(k, i) \<in> set (target_names (initial_delivery (dests (srv (lfGate l)))))"
  shows "waiting (srv (lfGate l)) k i @ accepted k i ls = delivered k i ls @ waiting (srv (lfGate l')) k i"
  using assms
proof (induction rule: lrun.induct)
  case (lrun_snoc l ls l' ls' l'')
  from lrun_snoc have run: "waiting (srv (lfGate l)) k i @ accepted k i ls = delivered k i ls @ waiting (srv (lfGate l')) k i" by simp
  have step: "waiting (srv (lfGate l')) k i @ accepted k i ls' = delivered k i ls' @ waiting (srv (lfGate l'')) k i"
    by (rule lstep_line [OF lrun_snoc.hyps(2)]) (use lrun_snoc lrun_cfg in \<open>auto intro: linv_run\<close>)
  have "waiting (srv (lfGate l)) k i @ accepted k i (ls @ ls') = (delivered k i ls @ waiting (srv (lfGate l')) k i) @ accepted k i ls'"
    by (simp flip: run)
  with step show ?case by simp
qed simp

lemma serving_line:
  assumes "restored s dump" "lrun (serving s dump) ls l" "(k, i) \<in> set (target_names (initial_delivery (dests s)))"
  shows "waiting s k i @ accepted k i ls = delivered k i ls @ waiting (srv (lfGate l)) k i"
  using lrun_line [OF assms(2) serving_linv [OF assms(1)], of k i] assms(3) by (simp add: serving_def waiting_def)

text \<open>What a destination waits for can be read off what the dump keeps.\<close>

definition view_wants :: "kind \<Rightarrow> string \<Rightarrow>
    Record \<times> (bool \<times> bool) \<times> (string set \<times> string set \<times> string set) \<times> (string \<times> bytes) option \<Rightarrow> bool" where
  "view_wants k i v = (case v of (r, (a, b), (egts, rabbitmq, valkey), relay) \<Rightarrow>
     (case k of K_stdout \<Rightarrow> a | K_file \<Rightarrow> b | K_egts \<Rightarrow> i \<in> egts | K_rabbitmq \<Rightarrow> i \<in> rabbitmq | K_valkey \<Rightarrow> i \<in> valkey))"

lemma wants_view: "wants k i p = view_wants k i (packet_view s p)"
  by (cases k) (simp_all add: wants_def view_wants_def packet_view_def)

lemma waiting_views:
  "map (\<lambda>a. packet_view s (items s ! a)) (waiting s k i) = filter (view_wants k i) (map (\<lambda>a. packet_view s (items s ! a)) (queue s))"
  by (simp add: waiting_def filter_map comp_def flip: wants_view)

lemma restart_saved:
  assumes "linv l" "saved l" "fresh_server t" "cfg t = cfg (srv (lfGate l))"
    and "restoreOutputs r = None" "restoreOpen r = None" "restoreClose r = None" "\<forall>n. \<exists>ident. restoreRandom r n = Inr ident"
  shows "\<exists>t'. restoreDump r (lfDump l) t = Some (Inr t') \<and>
    (\<forall>k i. map (\<lambda>a. packet_view t' (items t' ! a)) (waiting t' k i) =
       map (\<lambda>a. packet_view (srv (lfGate l)) (items (srv (lfGate l)) ! a)) (waiting (srv (lfGate l)) k i))"
  using assms(2) unfolding saved_def
proof (elim disjE exE conjE)
  assume "queue (srv (lfGate l)) = []" "lfDump l = None"
  with assms(3,5,6) show ?thesis
    by (intro exI [of _ t]) (simp add: restoreDump_def waiting_def fresh_server_def)
next
  fix k f s
  assume s: "saveDump k s f = Some (None, srv (lfGate l), lfDump l)" "srv (lfGate l) = s\<lparr>hasDump := True\<rparr>"
  let ?s = "srv (lfGate l)"
  have "started_server ?s" "all_savable ?s" using assms(1) by (simp_all add: linv_def ginv_started)
  moreover have "started_server (s\<lparr>hasDump := True\<rparr>) = started_server s" by (rule started_server_cong) simp_all
  ultimately have st: "started_server s" "\<forall>a\<in>set (queue s). savable s (items s ! a)"
    by (auto simp: s(2) all_savable_def savable_def started_server_def queue_inv_def)
  have c: "cfg t = cfg s" using assms(4) by (simp add: s(2))
  obtain t' where t': "restoreDump r (lfDump l) t = Some (Inr t')"
    "map (\<lambda>a. packet_view t' (items t' ! a)) (queue t') =
     map (\<lambda>a. packet_view s (items s ! a)) (filter (\<lambda>a. \<not> finished_item (items s ! a)) (queue s))"
    using restore_saved [OF st s(1) assms(3) c assms(5-8)] by blast
  have "map (\<lambda>a. packet_view t' (items t' ! a)) (waiting t' k i) = map (\<lambda>a. packet_view s (items s ! a)) (waiting s k i)" for k i
    by (simp add: waiting_views t'(2) filter_map comp_def flip: wants_view)
      (rule arg_cong [where f = "map _"], rule filter_cong, auto dest: wants_not_finished)
  moreover have "packet_view (s\<lparr>hasDump := True\<rparr>) p = packet_view s p" for p
    by (simp add: packet_view_def cong: option.case_cong)
  ultimately show ?thesis using t'(1) by (simp add: s(2) waiting_def)
qed

text \<open>
  C11. What the gateway has accepted survives a restart. Take any run of \<open>serve\<close> that returns without
  an error, and a gateway with the same configuration that starts from the dump file it left, which
  it can read (each line fits the scanner's buffer of 131072 bytes, which \<open>saveDump\<close> does not check),
  with calls that work. For each destination, the packets that were waiting at the first start and those
  accepted since are those whose delivery the destination confirmed and, in the same order behind them,
  those that wait for it after the restart, with the same bytes, times, sources, sessions and
  identities. None is lost, and none that was confirmed waits again; an attempt whose confirmation was
  lost, or that the stop cut off, may have reached the destination and is made again.
\<close>

theorem restart_keeps_packets:
  assumes "restored s dump" "lrun (serving s dump) ls l" "lfPhase l = P_returned" "lfResult l = None"
    and "fresh_server t" "cfg t = cfg s"
    and "restoreOutputs r = None" "restoreOpen r = None" "restoreClose r = None" "\<forall>n. \<exists>ident. restoreRandom r n = Inr ident"
  shows "\<exists>t'. restoreDump r (lfDump l) t = Some (Inr t') \<and>
    (\<forall>(k, i)\<in>set (target_names (initial_delivery (dests s))). \<exists>rest.
       waiting s k i @ accepted k i ls = delivered k i ls @ rest \<and>
       map (\<lambda>a. packet_view t' (items t' ! a)) (waiting t' k i) =
       map (\<lambda>a. packet_view (srv (lfGate l)) (items (srv (lfGate l)) ! a)) rest)"
proof -
  have i0: "linv (serving s dump)" by (rule serving_linv [OF assms(1)])
  have i: "linv l" by (rule linv_run [OF assms(2) i0])
  have sv: "saved l" using returned_ok [OF assms(1-4)] by simp
  note line = serving_line [OF assms(1,2)]
  have c: "cfg (srv (lfGate l)) = cfg s" using lrun_cfg [OF assms(2) i0] by (simp add: serving_def)
  obtain t' where t': "restoreDump r (lfDump l) t = Some (Inr t')"
    "\<And>k i. map (\<lambda>a. packet_view t' (items t' ! a)) (waiting t' k i) =
       map (\<lambda>a. packet_view (srv (lfGate l)) (items (srv (lfGate l)) ! a)) (waiting (srv (lfGate l)) k i)"
    using restart_saved [OF i sv assms(5) _ assms(7-10)] assms(6) c by auto
  with line show ?thesis by (intro exI [of _ t']) fastforce
qed

section \<open>A run\<close>

text \<open>
  A gateway that holds one packet for its relay is told to stop: nobody is connected, the delivery
  loop returns before it has tried to send the packet, and the packet is saved.
\<close>

definition demo_life :: "server \<Rightarrow> bool \<Rightarrow> bool \<Rightarrow> location \<Rightarrow> acceptor \<Rightarrow> phase \<Rightarrow> bool \<Rightarrow> dumpFile option \<Rightarrow> life" where
  "demo_life s b c lo a ph st dump = \<lparr>lfGate = \<lparr>srv = s\<lparr>accepting := b\<rparr>, dlv = \<lparr>targets = [new_target K_egts ''peer''],
       workers = [], results = [], resultErr = None, cancelled = c, loc = lo\<rparr>\<rparr>,
     lfHandlers = Map.empty, lfAcceptor = a, lfPhase = ph, lfResult = None, lfAcceptFinished = False,
     lfDeliveryFinished = False, lfStopped = st, lfClosed = {}, lfReleased = {}, lfDump = dump\<rparr>"

lemma lrun_snocI: "lrun l ls l' \<Longrightarrow> lstep l' ls' l'' \<Longrightarrow> ls'' = ls @ ls' \<Longrightarrow> lrun l ls'' l''"
  using lrun_snoc by blast

text \<open>The server of such a run: it has the demonstration's destination, and nothing to tidy up.\<close>

definition demo_server :: "server \<Rightarrow> bool" where
  "demo_server s \<longleftrightarrow> dests s = DestinationsCfg demo_cfg \<and> list_all (\<lambda>a. \<not> finished_item (items s ! a)) (queue s)"

lemma demo_waiting: "demo_server (waiting_server raw p)"
  by (simp add: demo_server_def waiting_server_def finished_item_def demo_item_def)

lemma compact_unfinished: "list_all (\<lambda>a. \<not> finished_item (items s ! a)) as \<Longrightarrow> compact as s = Some (as, s)"
  by (induction as) (simp_all add: Let_def)

lemma demo_serving: "demo_server s \<Longrightarrow> serving s du = demo_life s True False L_top A_accept P_select False du"
  by (simp add: demo_server_def serving_def demo_life_def initial_delivery_def initial_targets_def demo_dests new_target_def)

definition demo_no_errors :: closings where
  "demo_no_errors = \<lparr>clFile = None, clStdout = None, clRelays = [], clRabbits = [], clValkeys = []\<rparr>"

lemma demo_stop_steps:
  "lstep (demo_life s b c lo a ph st du) [] (demo_life s b c lo a ph True du)"
  "lstep (demo_life s b c lo a P_select True du) [] (demo_life s b c lo a P_stop True du)"
  "lstep (demo_life s b c lo a P_stop st du) [Internal] (demo_life s False c lo a P_cancel st du)"
  "lstep (demo_life s b c lo a P_cancel st du) [] (demo_life s b c lo a P_listener True du)"
  "lstep (demo_life s b c lo a P_listener st du) [] (demo_life s b c lo a P_accept st du)"
  "lstep (demo_life s b c lo A_accept ph True du) [] (demo_life s b c lo (A_returned None) ph True du)"
  "lstep (demo_life s b c lo (A_returned None) P_accept st du) [] (demo_life s b c lo (A_returned None) P_clients st du)"
  "lstep (demo_life s b c lo a P_clients st du) [] (demo_life s b c lo a P_connections st du)"
  "lstep (demo_life s b c lo a P_connections st du) [] (demo_life s b c lo a P_delivery st du)"
  "lstep (demo_life s b c (L_returned None) a P_delivery st du) [] (demo_life s b c (L_returned None) a P_save st du)"
  using s_cancelled [of "demo_life s b c lo a ph st du"] s_context [of "demo_life s b c lo a P_select True du"]
    s_stop [of "demo_life s b c lo a P_stop st du"] s_cancel [of "demo_life s b c lo a P_cancel st du"]
    s_listener [of "demo_life s b c lo a P_listener st du" None] a_failed [of "demo_life s b c lo A_accept ph True du"]
    s_accept [of "demo_life s b c lo (A_returned None) P_accept st du" None] s_clients [of "demo_life s b c lo a P_clients st du" "[]"]
    s_connections [of "demo_life s b c lo a P_connections st du"]
    s_delivery [of "demo_life s b c (L_returned None) a P_delivery st du" None]
  by (simp_all add: demo_life_def closing_err_def first_err_def)

lemma demo_loop_steps:
  assumes "demo_server s"
  shows "lstep (demo_life s b False L_top a ph st du) [Internal] (demo_life s b True L_top a ph st du)"
    "lstep (demo_life s b True L_top a ph st du) [Finished []] (demo_life s b True (L_target 0 True None 0) a ph st du)"
    "lstep (demo_life s b True (L_target 0 True None 0) a ph st du) [Internal] (demo_life s b True (L_target 1 True None 0) a ph st du)"
    "lstep (demo_life s b True (L_target 1 True None 0) a ph st du) [Internal] (demo_life s b True (L_returned None) a ph st du)"
proof -
  let ?l = "\<lambda>c lo. demo_life s b c lo a ph st du"
  have go: "lstep (?l c lo) [lab] (?l c' lo')"
    if "gstep (lfGate (?l c lo)) lab (lfGate (?l c' lo'))" "(c', lo') \<noteq> (c, lo)" "\<forall>f. lo \<noteq> L_dump f" for c lo c' lo' lab
    using l_loop [OF that(1)] that(2,3) assms by (simp add: demo_life_def demo_server_def)
  show "lstep (?l False L_top) [Internal] (?l True L_top)"
    by (rule go) (use g_cancel [of "lfGate (?l False L_top)"] in \<open>simp_all add: demo_life_def\<close>)
  have top: "loop_top (srv (lfGate (?l True L_top))) (dlv (lfGate (?l True L_top))) =
      Some (srv (lfGate (?l True (L_target 0 True None 0))), dlv (lfGate (?l True (L_target 0 True None 0))))"
    using compact_unfinished [of "srv (lfGate (?l True L_top))"] assms by (simp add: demo_life_def loop_top_def demo_server_def)
  show "lstep (?l True L_top) [Finished []] (?l True (L_target 0 True None 0))"
    by (rule go) (use g_top [OF _ top] assms in \<open>simp_all add: demo_life_def demo_server_def list_all_iff filter_empty_conv\<close>)
  show "lstep (?l True (L_target 0 True None 0)) [Internal] (?l True (L_target 1 True None 0))"
    by (rule go) (use g_target [of "lfGate (?l True (L_target 0 True None 0))" 0 True None 0 0 0 0] in
      \<open>simp_all add: demo_life_def at_target_def new_target_def\<close>)
  show "lstep (?l True (L_target 1 True None 0)) [Internal] (?l True (L_returned None))"
    by (rule go) (use g_after [of "lfGate (?l True (L_target 1 True None 0))" 1 True None 0] in
      \<open>simp_all add: demo_life_def after_targets_def new_target_def\<close>)
qed

lemma demo_restored: "savable (waiting_server raw p) (items (waiting_server raw p) ! 0) \<Longrightarrow> restored (waiting_server raw p) None"
  using waiting_started [of raw p] by (simp add: restored_def all_savable_def waiting_server_def)

lemma demo_stopped:
  assumes "demo_server s"
  shows "lrun (serving s du) [Internal, Internal, Finished [], Internal, Internal]
     (demo_life s False True (L_returned None) (A_returned None) P_save True du)"
proof -
  note loop = demo_loop_steps [OF assms]
  note r = lrun_nil [of "demo_life s True False L_top A_accept P_select False du"]
  note r = lrun_snoc [OF lrun_snoc [OF lrun_snoc [OF r demo_stop_steps(1)] demo_stop_steps(2)] demo_stop_steps(3)]
  note r = lrun_snoc [OF lrun_snoc [OF lrun_snoc [OF r demo_stop_steps(4)] demo_stop_steps(5)] demo_stop_steps(6)]
  note r = lrun_snoc [OF lrun_snoc [OF lrun_snoc [OF r demo_stop_steps(7)] demo_stop_steps(8)] demo_stop_steps(9)]
  note r = lrun_snoc [OF lrun_snoc [OF r loop(1)] loop(2)]
  note r = lrun_snoc [OF lrun_snoc [OF lrun_snoc [OF r loop(3)] loop(4)] demo_stop_steps(10)]
  from r show ?thesis unfolding demo_serving [OF assms] by simp
qed

lemma demo_run_saved:
  assumes "demo_server s" "started_server s" "queue s \<noteq> []" "card (ran (relays s)) = n"
  obtains l du where "lrun (serving s d) [Internal, Internal, Finished [], Internal, Internal] l"
    "lfPhase l = P_returned" "lfResult l = None" "lfDump l = Some du" "queue (srv (lfGate l)) = queue s"
    "items (srv (lfGate l)) = items s"
proof -
  let ?l = "demo_life s False True (L_returned None) (A_returned None) P_save True d"
  let ?s = "srv (lfGate ?l)" and ?k = "demo_no_errors\<lparr>clRelays := replicate n None\<rparr>"
  have st: "started_server ?s"
    using assms(2) started_server_cong [of ?s s] by (simp add: demo_life_def)
  obtain f where sv: "saveDump demo_save ?s (lfDump ?l) = Some (None, ?s\<lparr>hasDump := True\<rparr>, Some f)"
    using demo_saved [OF st] by blast
  let ?l1 = "upd_srv (?s\<lparr>hasDump := True\<rparr>) (?l\<lparr>lfPhase := P_close, lfDump := Some f,
       lfResult := added_err ''Can't save pending packets: %v'' None (lfResult ?l)\<rparr>)"
  let ?l2 = "?l1\<lparr>lfPhase := P_returned, lfReleased := ran (relays (srv (lfGate ?l1))),
       lfResult := closed_result ?k (lfResult ?l1)\<rparr>"
  have "lstep ?l [] ?l1"
    by (rule s_save [OF _ _ sv]) (use assms(3) in \<open>simp_all add: demo_life_def\<close>)
  moreover have "lstep ?l1 [] ?l2"
    by (rule s_close) (use assms(4) in \<open>simp_all add: demo_life_def\<close>)
  ultimately have "lrun (serving s d) [Internal, Internal, Finished [], Internal, Internal] ?l2"
    using lrun_snoc [OF lrun_snoc [OF demo_stopped [OF assms(1)]]] by fastforce
  moreover have "fold (added_err msg) (replicate n None) None = None" for msg
    by (induction n) (simp_all add: added_err_def)
  ultimately show thesis
    by (intro that [of ?l2 f]) (simp_all add: demo_life_def demo_no_errors_def closed_result_def added_err_def)
qed

lemma demo_returned:
  obtains l du where "lrun (serving (waiting_server raw p) None) [Internal, Internal, Finished [], Internal, Internal] l"
    "lfPhase l = P_returned" "lfResult l = None" "lfDump l = Some du" "queue (srv (lfGate l)) = [0]"
    "items (srv (lfGate l)) = items (waiting_server raw p)"
  by (rule demo_run_saved [OF demo_waiting waiting_started, of raw p 0 None])
    (simp_all add: waiting_server_def that)

theorem stop_is_ordered_witness:
  "\<exists>raw p l. lrun (serving (waiting_server raw p) None) [Internal, Internal, Finished [], Internal, Internal] l \<and>
     lfPhase l = P_save \<and> queue (srv (lfGate l)) = [0] \<and> lfHandlers l = Map.empty \<and> in_flight (dlv (lfGate l)) = []"
proof -
  obtain raw p where r: "savable (waiting_server raw p) (items (waiting_server raw p) ! 0)" by (rule waiting_packet)
  let ?l = "demo_life (waiting_server raw p) False True (L_returned None) (A_returned None) P_save True None"
  have "lfPhase ?l = P_save" "queue (srv (lfGate ?l)) = [0]" by (simp_all add: demo_life_def waiting_server_def)
  with stop_is_ordered [OF demo_restored [OF r] demo_stopped [OF demo_waiting]] demo_stopped [OF demo_waiting, of raw p] show ?thesis by blast
qed


theorem restart_keeps_packets_witness:
  "\<exists>raw p l t'. lrun (serving (waiting_server raw p) None) [Internal, Internal, Finished [], Internal, Internal] l \<and>
     lfPhase l = P_returned \<and> lfResult l = None \<and> restoreDump demo_restore (lfDump l) restarted_server = Some (Inr t') \<and>
     map (\<lambda>a. RecRaw (fst (packet_view t' (items t' ! a)))) (waiting t' K_egts ''peer'') = [raw]"
proof -
  obtain raw p where r: "savable (waiting_server raw p) (items (waiting_server raw p) ! 0)" by (rule waiting_packet)
  obtain l du where l: "lrun (serving (waiting_server raw p) None) [Internal, Internal, Finished [], Internal, Internal] l"
    "lfPhase l = P_returned" "lfResult l = None" "lfDump l = Some du" "queue (srv (lfGate l)) = [0]"
    "items (srv (lfGate l)) = items (waiting_server raw p)"
    by (rule demo_returned)
  have k: "(K_egts, ''peer'') \<in> set (target_names (initial_delivery (dests (waiting_server raw p))))"
    by (simp add: target_names_initial waiting_server_def demo_dests)
  obtain t' where t': "restoreDump demo_restore (lfDump l) restarted_server = Some (Inr t')"
    "\<forall>(k, i)\<in>set (target_names (initial_delivery (dests (waiting_server raw p)))). \<exists>rest.
       waiting (waiting_server raw p) k i @ accepted k i [Internal, Internal, Finished [], Internal, Internal] =
         delivered k i [Internal, Internal, Finished [], Internal, Internal] @ rest \<and>
       map (\<lambda>a. packet_view t' (items t' ! a)) (waiting t' k i) =
       map (\<lambda>a. packet_view (srv (lfGate l)) (items (srv (lfGate l)) ! a)) rest"
    using restart_keeps_packets [OF demo_restored [OF r] l(1-3) restarted_fresh waiting_simps(3-7)] by blast
  from bspec [OF t'(2) k] obtain rest where "[0] = rest"
    "map (\<lambda>a. packet_view t' (items t' ! a)) (waiting t' K_egts ''peer'') =
       map (\<lambda>a. packet_view (srv (lfGate l)) (items (srv (lfGate l)) ! a)) rest"
    by (auto simp: accepted_def accepted1_def delivered_def delivered1_def waiting_def wants_def waiting_simps)
  then have "map (\<lambda>a. packet_view t' (items t' ! a)) (waiting t' K_egts ''peer'') = [packet_view (srv (lfGate l)) (items (srv (lfGate l)) ! 0)]"
    by auto
  then have "map (\<lambda>v. RecRaw (fst v)) (map (\<lambda>a. packet_view t' (items t' ! a)) (waiting t' K_egts ''peer'')) = [raw]"
    by (simp add: packet_view_def l(6)) (simp add: waiting_server_def demo_item_def demo_record_def)
  then have "map (\<lambda>a. RecRaw (fst (packet_view t' (items t' ! a)))) (waiting t' K_egts ''peer'') = [raw]"
    by (simp add: comp_def)
  with l(1-3) t'(1) show ?thesis by (intro exI conjI)
qed

end
