(* ===== verification/Egts_Server.thy ===== *)
theory Egts_Server
  imports Connection
begin

text \<open>
  The reference receiver \<open>cmd/egts_server/main.go\<close>: its frame reader, the counters its
  connections share, what it does with one packet, and the loop of \<open>handleConnection\<close>. A run-time
  panic is the outer \<open>None\<close>. Log entries are left out, and with them the time.
\<close>

section \<open>Reading a packet\<close>

definition ErrNoEGTSPacket :: goerr where
  "ErrNoEGTSPacket = Errorf ''no EGTS packet''"

definition ErrAcceptEGTSPacket :: goerr where
  "ErrAcceptEGTSPacket = Errorf ''can't accept EGTS packet''"

text \<open>
  The first part of the loop's body: the frame it reads, or the value with which
  \<open>handleConnection\<close> returns. Unlike \<open>ReadFrame\<close> it does not look at the header checksum.
\<close>

definition receive :: "conn \<Rightarrow> goerr option + (bytes \<times> conn)" where
  "receive c =
     (case ReadFull_conn 10 c of
        Inl e \<Rightarrow> Inl (if e = EOF then None else Some (Wrapf ''reading packet header'' ErrAcceptEGTSPacket))
      | Inr (headerBuf, c) \<Rightarrow>
          if headerBuf ! 0 \<noteq> 1 then Inl (Some ErrNoEGTSPacket)
          else
            (let expectedHeaderLen = (if headerBuf ! 2 AND 0x20 \<noteq> 0 then 16 else 11) in
             if headerBuf ! 3 \<noteq> expectedHeaderLen
             then Inl (Some (Wrapf ''invalid header length'' ErrAcceptEGTSPacket))
             else
               (let bodyLen = unat (LittleEndian_Uint16 (take 2 (drop 5 headerBuf)));
                    pkgLen = unat (headerBuf ! 3) + bodyLen;
                    pkgLen = (if bodyLen > 0 then pkgLen + 2 else pkgLen) in
                if pkgLen > 65535
                then Inl (Some (Wrapf ''packet length exceeds 65535 bytes'' ErrAcceptEGTSPacket))
                else
                  (case ReadFull_conn (pkgLen - 10) c of
                     Inl e \<Rightarrow> Inl (Some (Wrapf ''reading packet body'' ErrAcceptEGTSPacket))
                   | Inr (buf, c) \<Rightarrow> Inr (headerBuf @ buf, c)))))"

section \<open>The shared counters\<close>

text \<open>
  All connections draw from the two counters, so other connections may have advanced them before
  each of this connection's calls: \<open>advances n\<close> is by how much before the \<open>n\<close>-th call.
\<close>

record counters =
  pidCounter :: u32
  rnCounter :: u32
  draws :: nat
  advances :: "nat \<Rightarrow> u32 \<times> u32"

definition advanced :: "counters \<Rightarrow> counters" where
  "advanced k = k\<lparr>pidCounter := pidCounter k + fst (advances k (draws k)),
     rnCounter := rnCounter k + snd (advances k (draws k)), draws := draws k + 1\<rparr>"

definition getNextPid :: "counters \<Rightarrow> u16 \<times> counters" where
  "getNextPid k = (let n = pidCounter (advanced k) + 1 in (ucast n, (advanced k)\<lparr>pidCounter := n\<rparr>))"

definition getNextRN :: "counters \<Rightarrow> u16 \<times> counters" where
  "getNextRN k = (let n = rnCounter (advanced k) + 1 in (ucast n, (advanced k)\<lparr>rnCounter := n\<rparr>))"

section \<open>One packet\<close>

text \<open>
  The loop over a record's subrecords. Positions are only logged; each identity replaces the
  result code to be sent. A nil subrecord, or a nil pointer in one that is looked at, panics.
\<close>

fun identify_data :: "RecordsData \<Rightarrow> Packet \<times> counters \<Rightarrow> (Packet \<times> counters) option" where
  "identify_data [] st = Some st"
| "identify_data (None # rds) st = None"
| "identify_data (Some rd # rds) (srResultCode, k) =
     (if SubrecordType rd = PosData then
        (case SubrecordData rd of
           Some (SD_PosData None) \<Rightarrow> None
         | _ \<Rightarrow> identify_data rds (srResultCode, k))
      else if SubrecordType rd = TermIdentity then
        (case SubrecordData rd of
           Some (SD_TermIdentity None) \<Rightarrow> None
         | Some (SD_TermIdentity (Some term)) \<Rightarrow>
             (let (rn, k) = getNextRN k; (pid, k) = getNextPid k in
              identify_data rds (PrepareSRResultCode EGTS_PC_OK rn pid, k))
         | _ \<Rightarrow> identify_data rds (srResultCode, k))
      else identify_data rds (srResultCode, k))"

fun identify :: "ServicesFrameData \<Rightarrow> Packet \<times> counters \<Rightarrow> (Packet \<times> counters) option" where
  "identify [] st = Some st"
| "identify (None # ss) st = None"
| "identify (Some s # ss) st =
     (case identify_data (RecordsData s) st of
        None \<Rightarrow> None
      | Some st' \<Rightarrow> identify ss st')"

text \<open>Every record of the response gets the next record number.\<close>

fun number_records :: "counters \<Rightarrow> ServicesFrameData \<Rightarrow> (ServicesFrameData \<times> counters) option" where
  "number_records k [] = Some ([], k)"
| "number_records k (None # rs) = None"
| "number_records k (Some r # rs) =
     (case getNextRN k of
        (rn, k) \<Rightarrow>
          (case number_records k rs of
             None \<Rightarrow> None
           | Some (rs', k) \<Rightarrow> Some (Some (r\<lparr>RecordNumber := rn\<rparr>) # rs', k)))"

definition numbered_response :: "Packet \<Rightarrow> counters \<Rightarrow> (Packet \<times> counters) option" where
  "numbered_response pkg k =
     (case getNextPid k of
        (pid, k) \<Rightarrow>
          (let pkgResp = PrepareAnswer (Some pkg) 0 pid in
           case PacketServicesFrameData pkgResp of
             Some (FD_Response (Some resp)) \<Rightarrow>
               (case SDR resp of
                  None \<Rightarrow> Some (pkgResp, k)
                | Some (RD_SFRD (Some records)) \<Rightarrow>
                    (case number_records k records of
                       None \<Rightarrow> None
                     | Some (records', k) \<Rightarrow>
                         Some (pkgResp\<lparr>PacketServicesFrameData :=
                           Some (FD_Response (Some (resp\<lparr>SDR := Some (RD_SFRD (Some records'))\<rparr>)))\<rparr>, k))
                | Some _ \<Rightarrow> None)
           | _ \<Rightarrow> None))"

text \<open>\<open>Encode\<close> and \<open>conn.Write\<close>: the error to return, and what was passed to \<open>Write\<close>.\<close>

definition send :: "(bytes \<Rightarrow> goerr option) \<Rightarrow> string \<Rightarrow> string \<Rightarrow> Packet \<Rightarrow> goerr option \<times> bytes list" where
  "send write cantEncode cantWrite pkg =
     (case Packet_Encode (Some pkg) of
        Inl e \<Rightarrow> (Some (Wrapf cantEncode e), [])
      | Inr encoded \<Rightarrow> (map_option (Wrapf cantWrite) (write encoded), [encoded]))"

text \<open>
  What follows the frame: \<open>write n\<close> is the outcome of the connection's \<open>n\<close>-th \<open>Write\<close>, and
  \<open>n\<close> of them came before.
\<close>

definition respond :: "(nat \<Rightarrow> bytes \<Rightarrow> goerr option) \<Rightarrow> nat \<Rightarrow> Packet \<Rightarrow> Packet \<Rightarrow> counters \<Rightarrow>
    (verdict \<times> bytes list \<times> counters) option" where
  "respond write n pkg srResultCode k =
     (case numbered_response pkg k of
        None \<Rightarrow> None
      | Some (pkgResp, k) \<Rightarrow>
          (case send (write n) ''Can't encode response'' ''Can't write response'' pkgResp of
             (Some e, out) \<Rightarrow> Some (Returns (Some e), out, k)
           | (None, out) \<Rightarrow>
               if PacketServicesFrameData srResultCode = None then Some (Goes_on, out, k)
               else
                 (case send (write (n + 1)) ''Can't encode result code'' ''Can't send result code'' srResultCode of
                    (Some e, out') \<Rightarrow> Some (Returns (Some e), out @ out', k)
                  | (None, out') \<Rightarrow> Some (Goes_on, out @ out', k))))"

definition respond_error :: "(nat \<Rightarrow> bytes \<Rightarrow> goerr option) \<Rightarrow> nat \<Rightarrow> Packet \<Rightarrow> counters \<Rightarrow>
    verdict \<times> bytes list \<times> counters" where
  "respond_error write n pkg k =
     (if PacketType pkg = EGTS_PT_APPDATA \<and> (ErrorCode pkg = EGTS_PC_DATACRC_ERROR \<or> ErrorCode pkg = EGTS_PC_INC_DATAFORM)
      then
        (case getNextPid k of
           (pid, k) \<Rightarrow>
             (case send (write n) ''Can't encode error response'' ''Can't write error response''
                 (PrepareAnswer (Some pkg) 0 pid) of
                (Some e, out) \<Rightarrow> (Returns (Some e), out, k)
              | (None, out) \<Rightarrow> (Goes_on, out, k)))
      else (Goes_on, [], k))"

definition serve_packet :: "(nat \<Rightarrow> bytes \<Rightarrow> goerr option) \<Rightarrow> nat \<Rightarrow> bytes \<Rightarrow> counters \<Rightarrow>
    (verdict \<times> bytes list \<times> counters) option" where
  "serve_packet write n recvPacket k =
     (case ReadPacket recvPacket of
        (pkg, Some e) \<Rightarrow> Some (respond_error write n pkg k)
      | (pkg, None) \<Rightarrow>
          if PacketType pkg = EGTS_PT_APPDATA then
            (case PacketServicesFrameData pkg of
               Some (FD_SFRD (Some sfrd)) \<Rightarrow>
                 (case identify sfrd (Packet0, k) of
                    None \<Rightarrow> None
                  | Some (srResultCode, k) \<Rightarrow> respond write n pkg srResultCode k)
             | _ \<Rightarrow> None)
          else Some (Goes_on, [], k))"

section \<open>The connection\<close>

text \<open>Each packet takes bytes from the stream.\<close>

lemma receive_shorter: "receive c = Inr (raw, c') \<Longrightarrow> length (fst c') < length (fst c)"
  by (auto simp: receive_def Let_def ReadFull_conn_Inr split: sum.splits if_splits)

function serve_packets :: "(nat \<Rightarrow> bytes \<Rightarrow> goerr option) \<Rightarrow> nat \<Rightarrow> conn \<Rightarrow> counters \<Rightarrow>
    (goerr option \<times> bytes list \<times> counters) option" where
  "serve_packets write n c k =
     (case receive c of
        Inl e \<Rightarrow> Some (e, [], k)
      | Inr (recvPacket, c) \<Rightarrow>
          (case serve_packet write n recvPacket k of
             None \<Rightarrow> None
           | Some (Returns e, out, k) \<Rightarrow> Some (e, out, k)
           | Some (Goes_on, out, k) \<Rightarrow>
               (case serve_packets write (n + length out) c k of
                  None \<Rightarrow> None
                | Some (e, out', k) \<Rightarrow> Some (e, out @ out', k))))"
  by auto
termination
  by (relation "measure (\<lambda>(write, n, c, k). length (fst c))") (auto dest: receive_shorter)

declare serve_packets.simps [simp del]

definition Server_handleConnection :: "goerr option \<Rightarrow> (nat \<Rightarrow> bytes \<Rightarrow> goerr option) \<Rightarrow> conn \<Rightarrow> counters \<Rightarrow>
    (goerr option \<times> bytes list \<times> counters) option" where
  "Server_handleConnection keepAlive write c k =
     (case keepAlive of
        Some e \<Rightarrow> Some (Some (Wrapf ''Can't set keep-alive to true'' e), [], k)
      | None \<Rightarrow> serve_packets write 0 c k)"

end
