(* ===== verification/Egts_Server_Properties.thy ===== *)
theory Egts_Server_Properties
  imports Egts_Server Connection_Lemmas
begin

text \<open>
  The reference receiver: its frame reader against \<open>ReadFrame\<close>, and what a terminal gets back for
  the packets it sends over one connection while others use the same counters.
\<close>

declare Packet_Encode.simps [simp del]

section \<open>Reading\<close>

text \<open>A frame on its lengths alone, without the header checksum.\<close>

definition frame_shape :: "bytes \<Rightarrow> bool" where
  "frame_shape b \<longleftrightarrow> b ! 0 = 1 \<and> unat (b ! 3) = hlen b \<and> length b = flen b \<and> length b \<le> 65535"

definition header_sum_ok :: "bytes \<Rightarrow> bool" where
  "header_sum_ok b \<longleftrightarrow> b ! (hlen b - 1) = Checksum8 (take (hlen b - 1) b) table8"

lemma transport_frame_shape: "transport_frame b \<longleftrightarrow> frame_shape b \<and> header_sum_ok b"
  by (auto simp: transport_frame_def frame_header_def frame_shape_def header_sum_ok_def flen_def)

lemma expected_length: "b ! 3 = (if b ! 2 AND 0x20 \<noteq> 0 then 16 else 11) \<longleftrightarrow> unat (b ! 3 :: u8) = hlen b"
  unfolding hlen_def and_0x20 [symmetric] by (simp add: word_unat_eq_iff)

lemma receive_eq:
  "receive c =
     (case ReadFull_conn 10 c of
        Inl e \<Rightarrow> Inl (if e = EOF then None else Some (Wrapf ''reading packet header'' ErrAcceptEGTSPacket))
      | Inr (h, c) \<Rightarrow>
          if h ! 0 \<noteq> 1 then Inl (Some ErrNoEGTSPacket)
          else if unat (h ! 3) \<noteq> hlen h then Inl (Some (Wrapf ''invalid header length'' ErrAcceptEGTSPacket))
          else if flen h > 65535 then Inl (Some (Wrapf ''packet length exceeds 65535 bytes'' ErrAcceptEGTSPacket))
          else
            (case ReadFull_conn (flen h - 10) c of
               Inl e \<Rightarrow> Inl (Some (Wrapf ''reading packet body'' ErrAcceptEGTSPacket))
             | Inr (r, c) \<Rightarrow> Inr (h @ r, c)))"
  unfolding receive_def dlen_def [symmetric]
  by (simp only: Let_def expected_length)
    (simp add: flen_def blen_def cong: if_cong split: sum.split)

lemma flen_take: "10 \<le> n \<Longrightarrow> flen (take n b) = flen b"
  by (simp add: flen_def hlen_take blen_take)

lemma flen_append: "10 \<le> length b \<Longrightarrow> flen (b @ r) = flen b"
  by (simp add: flen_def hlen_append blen_append)

lemma flen_bound: "11 \<le> flen b"
  using hlen_bounds(1) [of b] unfolding flen_def by linarith

lemma receive_Inr: "receive c = Inr (b, d) \<longleftrightarrow> frame_shape b \<and> fst c = b @ fst d \<and> snd d = snd c"
proof
  assume "receive c = Inr (b, d)"
  then obtain h c1 r where s: "ReadFull_conn 10 c = Inr (h, c1)" "h ! 0 = 1" "unat (h ! 3) = hlen h"
    "flen h \<le> 65535" "ReadFull_conn (flen h - 10) c1 = Inr (r, d)" "b = h @ r"
    by (auto simp: receive_eq split: sum.splits if_splits)
  have "length h = 10" "length r = flen h - 10" using s(1,5) by (simp_all add: ReadFull_conn_Inr)
  with s flen_bound [of h] show "frame_shape b \<and> fst c = b @ fst d \<and> snd d = snd c"
    by (simp add: ReadFull_conn_Inr frame_shape_def flen_append hlen_append nth_append)
next
  assume a: "frame_shape b \<and> fst c = b @ fst d \<and> snd d = snd c"
  let ?h = "take 10 b" and ?r = "drop 10 b"
  have len: "10 \<le> length b" using a flen_bound [of b] by (simp add: frame_shape_def)
  have "ReadFull_conn 10 c = Inr (?h, (?r @ fst d, snd d))"
    "ReadFull_conn (flen ?h - 10) (?r @ fst d, snd d) = Inr (?r, d)"
    using a len by (simp_all add: ReadFull_conn_Inr frame_shape_def flen_take)
  with a show "receive c = Inr (b, d)"
    by (simp add: receive_eq frame_shape_def flen_take hlen_take)
qed

lemma frame_shape_not_empty: "frame_shape b \<Longrightarrow> b \<noteq> []"
  using flen_bound [of b] by (auto simp: frame_shape_def)

interpretation received: frame_reader receive frame_shape
  by unfold_locales (auto simp: receive_Inr frame_shape_not_empty)

section \<open>Numbers from the shared counters\<close>

text \<open>The records of the response with other record numbers.\<close>

definition renumbered :: "ServiceDataRecord \<Rightarrow> ServiceDataRecord \<Rightarrow> bool" where
  "renumbered r r' \<longleftrightarrow> (\<exists>n. r' = r\<lparr>RecordNumber := n\<rparr>)"

lemma renumberedI [simp, intro]: "renumbered r (r\<lparr>RecordNumber := n\<rparr>)"
  by (auto simp: renumbered_def)

lemma number_records_total:
  "\<exists>rs' k'. number_records k (map Some rs) = Some (map Some rs', k') \<and> list_all2 renumbered rs rs'"
proof (induction rs arbitrary: k)
  case (Cons r rs)
  obtain rn k1 where n: "getNextRN k = (rn, k1)" by (cases "getNextRN k")
  obtain rs' k' where "number_records k1 (map Some rs) = Some (map Some rs', k')" "list_all2 renumbered rs rs'"
    using Cons by blast
  with n show ?case by (intro exI [of _ "r\<lparr>RecordNumber := rn\<rparr> # rs'"] exI [of _ k']) auto
qed simp

lemma renumbered_same:
  assumes "renumbered r r'"
  shows "wf_SDR (Some r') \<longleftrightarrow> wf_SDR (Some r)" "length (SDR_bytes (Some r')) = length (SDR_bytes (Some r))"
    "confirmed r' = confirmed r"
  using assms
  by (auto simp: renumbered_def wf_SDR_def SDR_bytes_def SDR_flags_def SDR_absent_def SDR_flag_byte_def SDR_header_def
      confirmed_def)

lemma renumbered_list:
  assumes "list_all2 renumbered rs rs'"
  shows "list_all wf_SDR (map Some rs') \<longleftrightarrow> list_all wf_SDR (map Some rs)"
    "length (SFRD_bytes (map Some rs')) = length (SFRD_bytes (map Some rs))"
    "concat (map confirmed rs') = concat (map confirmed rs)" "rs' = [] \<longleftrightarrow> rs = []"
  using assms by (induction rule: list_all2_induct) (simp_all add: renumbered_same)

text \<open>A response whose records fit a packet, under any numbers.\<close>

definition confirms_all :: "u16 \<Rightarrow> ServiceDataRecord list \<Rightarrow> PTResponse" where
  "confirms_all pid ss = \<lparr>ResponsePacketID = pid, ProcessingResult = EGTS_PC_OK,
     SDR = (if ss = [] then None else Some (RD_SFRD (Some (map Some ss))))\<rparr>"

lemma confirms_all_encode:
  assumes "list_all wf_SDR (map Some ss)" "length (SFRD_bytes (map Some ss)) \<le> 65507"
  obtains bs where "PTResponse_Encode (Some (confirms_all pid ss)) = Inr bs" "wf_Response (confirms_all pid ss)"
    "length bs = 3 + length (SFRD_bytes (map Some ss))"
proof (cases "ss = []")
  case True
  then show thesis by (intro that [of "PutUint16 pid @ [EGTS_PC_OK]"]) (simp_all add: confirms_all_def wf_Response_def)
next
  case False
  have wf: "wf_SFRD (map Some ss)" using assms by (simp add: wf_SFRD_def)
  then have "wf_Response (confirms_all pid ss)"
    using False assms by (simp add: wf_Response_def confirms_all_def)
  then show thesis
    by (intro that [of "PutUint16 pid @ [EGTS_PC_OK] @ SFRD_bytes (map Some ss)"])
      (use assms(2) False in \<open>simp_all add: confirms_all_def SFRD_roundtrip(1) [OF wf] del: ServicesFrameData_Encode.simps map_map\<close>)
qed

lemma confirms_all_read:
  assumes "list_all wf_SDR (map Some ss)" "length (SFRD_bytes (map Some ss)) \<le> 65507"
  obtains b q where "Packet_Encode (Some (response_packet pid (confirms_all ident ss))) = Inr b"
    "ReadPacket b = (q, None)" "PacketType q = EGTS_PT_RESPONSE" "PacketID q = pid"
    "PacketServicesFrameData q = Some (FD_Response (Some (confirms_all ident ss)))"
proof -
  obtain bs where bs: "PTResponse_Encode (Some (confirms_all ident ss)) = Inr bs" "wf_Response (confirms_all ident ss)"
    "length bs = 3 + length (SFRD_bytes (map Some ss))"
    by (rule confirms_all_encode [OF assms])
  have "length bs \<le> 65522" using bs(3) assms(2) by simp
  from Packet_roundtrip_sealed [OF wf_response_packet [OF bs(1,2) this], of pid]
  obtain w data where
    "Packet_Encode (Some (response_packet pid (confirms_all ident ss))) =
      Inr (frame_of w data (sealed w data (response_packet pid (confirms_all ident ss))))"
    "ReadPacket (frame_of w data (sealed w data (response_packet pid (confirms_all ident ss)))) =
      (sealed w data (response_packet pid (confirms_all ident ss)), None)" by blast
  then show thesis
    by (rule that) (simp_all add: response_packet_def sealed_def Packet0_def)
qed

lemma PTResponse_Len_confirms:
  assumes "list_all wf_SDR (map Some ss)" "length (SFRD_bytes (map Some ss)) \<le> 65507" "list_all2 renumbered ss ss'"
  shows "PTResponse_Len (Some (confirms_all ident ss')) = PTResponse_Len (Some (confirms_all ident ss))"
proof -
  note same = renumbered_list [OF assms(3)]
  obtain bs where bs: "PTResponse_Encode (Some (confirms_all ident ss)) = Inr bs" "length bs = 3 + length (SFRD_bytes (map Some ss))"
    by (rule confirms_all_encode [OF assms(1,2)])
  obtain bs' where "PTResponse_Encode (Some (confirms_all ident ss')) = Inr bs'" "length bs' = 3 + length (SFRD_bytes (map Some ss'))"
    by (rule confirms_all_encode [of ss' ident]) (use assms(1,2) same in simp_all)
  with bs same(2) show ?thesis by (simp add: PTResponse_Len_def del: PTResponse_Encode.simps)
qed

section \<open>The response to a packet\<close>

lemma numbered_response_read:
  assumes "PacketType p = EGTS_PT_APPDATA" "ErrorCode p = EGTS_PC_OK"
    and "PacketServicesFrameData p = Some (FD_SFRD (Some incoming))" "nil_free incoming"
    and "length (data_records incoming) \<le> 5039"
  obtains resp k' b q ss where "numbered_response p k = Some (resp, k')" "Packet_Encode (Some resp) = Inr b"
    "ReadPacket b = (q, None)" "PacketType q = EGTS_PT_RESPONSE" "PacketID q = fst (getNextPid k)"
    "PacketServicesFrameData q = Some (FD_Response (Some (confirms_all (PacketID p) ss)))"
    "mset (concat (map confirmed ss)) = mset (map RecordNumber (data_records incoming))"
proof -
  let ?ss = "answer_services 0 (data_records incoming)"
  obtain pid k1 where k: "getNextPid k = (pid, k1)" by (cases "getNextPid k")
  have resp: "answer_response p 0 = confirms_all (PacketID p) ?ss"
    using assms(2-4) by (simp add: answer_response_def answer_data_def confirms_all_def)
  have wf: "list_all wf_SDR (map Some ?ss)" "length (SFRD_bytes (map Some ?ss)) \<le> 65507"
    using answer_services_wf [OF assms(5), of 0] assms(5) by linarith+
  obtain ss k' where n: "number_records k1 (map Some ?ss) = Some (map Some ss, k')" "list_all2 renumbered ?ss ss"
    using number_records_total [of k1 ?ss] by blast
  note same = renumbered_list [OF n(2)]
  have wf': "list_all wf_SDR (map Some ss)" "length (SFRD_bytes (map Some ss)) \<le> 65507"
    using wf same by simp_all
  have "\<exists>k''. numbered_response p k = Some (response_packet pid (confirms_all (PacketID p) ss), k'')"
    using n(1) same(4) PTResponse_Len_confirms [OF wf n(2), of "PacketID p"]
    by (cases "?ss = []")
      (simp_all add: numbered_response_def k PrepareAnswer_eq [OF assms(1)] resp response_packet_def confirms_all_def Packet0_def)
  then obtain k'' where "numbered_response p k = Some (response_packet pid (confirms_all (PacketID p) ss), k'')" ..
  moreover obtain b q where "Packet_Encode (Some (response_packet pid (confirms_all (PacketID p) ss))) = Inr b"
    "ReadPacket b = (q, None)" "PacketType q = EGTS_PT_RESPONSE" "PacketID q = pid"
    "PacketServicesFrameData q = Some (FD_Response (Some (confirms_all (PacketID p) ss)))"
    by (rule confirms_all_read [OF wf'])
  moreover have "mset (concat (map confirmed ss)) = mset (map RecordNumber (data_records incoming))"
    by (simp only: same(3) mset_confirmed)
  ultimately show thesis by (rule that [unfolded k prod.sel])
qed

section \<open>The identity\<close>

text \<open>What the type of a decoded subrecord says of its value.\<close>

definition typed_record :: "RecordData option \<Rightarrow> bool" where
  "typed_record rd \<longleftrightarrow> (case rd of None \<Rightarrow> False | Some rd \<Rightarrow>
     (SubrecordType rd = PosData \<longrightarrow> (\<exists>d. SubrecordData rd = Some (SD_PosData (Some d)))) \<and>
     (SubrecordType rd = TermIdentity \<longrightarrow> (\<exists>d. SubrecordData rd = Some (SD_TermIdentity (Some d)))))"

lemma RecordData_step_typed: "RecordData_step b = Inr (rd, r) \<Longrightarrow> typed_record (Some rd)"
  by (auto simp: RecordData_step_Inr typed_record_def new_SubData_types decode_into_def)

lemma ServicesFrameData_Decode_typed:
  "ServicesFrameData_Decode bs = Inr ss \<Longrightarrow>
   list_all (\<lambda>s. case s of None \<Rightarrow> False | Some s \<Rightarrow> list_all typed_record (RecordsData s)) ss"
  by (rule ServicesFrameData_Decode_all) (auto intro: RecordsData_Decode_all RecordData_step_typed)

text \<open>Whether a packet holds an identity, and the result code this leads to.\<close>

definition holds_identity :: "ServicesFrameData \<Rightarrow> bool" where
  "holds_identity ss \<longleftrightarrow>
     (\<exists>s\<in>set ss. \<exists>rd\<in>set (RecordsData (the s)). \<exists>r. rd = Some r \<and> SubrecordType r = TermIdentity)"

definition identity_result :: "bool \<Rightarrow> Packet \<Rightarrow> Packet \<Rightarrow> bool" where
  "identity_result holds srResultCode result \<longleftrightarrow>
     (if holds then \<exists>rn pid. result = PrepareSRResultCode EGTS_PC_OK rn pid else result = srResultCode)"

lemma identity_result_trans:
  "identity_result h1 r0 r1 \<Longrightarrow> identity_result h2 r1 r2 \<Longrightarrow> identity_result (h1 \<or> h2) r0 r2"
  by (auto simp: identity_result_def split: if_splits)

lemma identify_data_typed:
  "list_all typed_record rds \<Longrightarrow>
   \<exists>result k'. identify_data rds (srResultCode, k) = Some (result, k') \<and>
     identity_result (\<exists>rd\<in>set rds. \<exists>r. rd = Some r \<and> SubrecordType r = TermIdentity) srResultCode result"
proof (induction rds arbitrary: srResultCode k)
  case (Cons rd rds)
  then obtain r where r: "rd = Some r" by (cases rd) (auto simp: typed_record_def)
  show ?case
  proof (cases "SubrecordType r = TermIdentity")
    case True
    with Cons.prems r obtain d where d: "SubrecordData r = Some (SD_TermIdentity (Some d))" "PosData \<noteq> TermIdentity"
      by (auto simp: typed_record_def codes)
    obtain rn k1 pid k2 where "getNextRN k = (rn, k1)" "getNextPid k1 = (pid, k2)" by (metis surj_pair)
    with Cons.IH [of "PrepareSRResultCode EGTS_PC_OK rn pid" k2] Cons.prems d True r show ?thesis
      by (auto simp: identity_result_def split: if_splits)
  next
    case False
    with Cons.prems r Cons.IH [of srResultCode k] show ?thesis by (auto simp: typed_record_def)
  qed
qed (simp add: identity_result_def)

lemma identify_typed:
  "list_all (\<lambda>s. case s of None \<Rightarrow> False | Some s \<Rightarrow> list_all typed_record (RecordsData s)) ss \<Longrightarrow>
   \<exists>result k'. identify ss (srResultCode, k) = Some (result, k') \<and>
     identity_result (holds_identity ss) srResultCode result"
proof (induction ss arbitrary: srResultCode k)
  case (Cons s ss)
  then obtain r where r: "s = Some r" "list_all typed_record (RecordsData r)" by (cases s) auto
  obtain r1 k1 where 1: "identify_data (RecordsData r) (srResultCode, k) = Some (r1, k1)"
    "identity_result (\<exists>rd\<in>set (RecordsData r). \<exists>r. rd = Some r \<and> SubrecordType r = TermIdentity) srResultCode r1"
    using identify_data_typed [OF r(2)] by blast
  obtain r2 k2 where 2: "identify ss (r1, k1) = Some (r2, k2)" "identity_result (holds_identity ss) r1 r2"
    using Cons.IH Cons.prems by fastforce
  have "holds_identity (s # ss) \<longleftrightarrow>
      (\<exists>rd\<in>set (RecordsData r). \<exists>r. rd = Some r \<and> SubrecordType r = TermIdentity) \<or> holds_identity ss"
    by (auto simp: holds_identity_def r(1))
  with identity_result_trans [OF 1(2) 2(2)] 1(1) 2(1) r(1) show ?case by simp
qed (simp add: identity_result_def holds_identity_def)

section \<open>One packet\<close>

text \<open>
  What a terminal gets for one frame. An accepted packet of data gets a response that confirms each
  of its records of data once, and the result code of its identity behind it if it holds one; a
  damaged one gets its error's code; anything else gets nothing.
\<close>

definition confirmed_packet :: "Packet \<Rightarrow> ServicesFrameData \<Rightarrow> bytes \<Rightarrow> bool" where
  "confirmed_packet p incoming b \<longleftrightarrow> (\<exists>q ss. ReadPacket b = (q, None) \<and> PacketType q = EGTS_PT_RESPONSE \<and>
     PacketServicesFrameData q = Some (FD_Response (Some (confirms_all (PacketID p) ss))) \<and>
     mset (concat (map confirmed ss)) = mset (map RecordNumber (data_records incoming)))"

definition result_packet :: "bytes \<Rightarrow> bool" where
  "result_packet b \<longleftrightarrow> (\<exists>q n. ReadPacket b = (q, None) \<and> PacketType q = EGTS_PT_APPDATA \<and>
     PacketServicesFrameData q = Some (FD_SFRD (Some [Some (result_service EGTS_PC_OK n)])))"

definition error_packet :: "Packet \<Rightarrow> bytes \<Rightarrow> bool" where
  "error_packet p b \<longleftrightarrow> (\<exists>q. ReadPacket b = (q, None) \<and> PacketType q = EGTS_PT_RESPONSE \<and>
     PacketServicesFrameData q = Some (FD_Response (Some
       \<lparr>ResponsePacketID = PacketID p, ProcessingResult = ErrorCode p, SDR = None\<rparr>)))"

definition served :: "bytes \<Rightarrow> bytes list \<Rightarrow> bool" where
  "served b out \<longleftrightarrow>
     (case ReadPacket b of
        (p, None) \<Rightarrow>
          if PacketType p = EGTS_PT_APPDATA
          then \<exists>incoming r. PacketServicesFrameData p = Some (FD_SFRD (Some incoming)) \<and> confirmed_packet p incoming r \<and>
            (if holds_identity incoming then \<exists>c. out = [r, c] \<and> result_packet c else out = [r])
          else out = []
      | (p, Some e) \<Rightarrow>
          if PacketType p = EGTS_PT_APPDATA \<and> (ErrorCode p = EGTS_PC_DATACRC_ERROR \<or> ErrorCode p = EGTS_PC_INC_DATAFORM)
          then \<exists>r. out = [r] \<and> error_packet p r
          else out = [])"

lemma decoded_data:
  assumes "ReadPacket b = (p, None)" "PacketType p = EGTS_PT_APPDATA"
  obtains ss where "PacketServicesFrameData p = Some (FD_SFRD (Some ss))" "nil_free ss" "ErrorCode p = EGTS_PC_OK"
    "list_all (\<lambda>s. case s of None \<Rightarrow> False | Some s \<Rightarrow> list_all typed_record (RecordsData s)) ss"
proof -
  from assms obtain data where "decodes_to (PacketType p) data (PacketServicesFrameData p)" "ErrorCode p = 0"
    by (auto simp: ReadPacket_spec packet_spec_def)
  with assms(2) show thesis
    by (auto simp: decodes_to_def codes intro!: that
        dest: ServicesFrameData_Decode_nil_free ServicesFrameData_Decode_typed split: if_splits)
qed

lemma respond_ok:
  assumes "ReadPacket b = (p, None)" "PacketType p = EGTS_PT_APPDATA" "small_packet p"
    and "\<And>n b. wr n b = None"
  shows "\<exists>out k'. serve_packet wr n b k = Some (Goes_on, out, k') \<and> served b out"
proof -
  obtain ss where ss: "PacketServicesFrameData p = Some (FD_SFRD (Some ss))" "nil_free ss" "ErrorCode p = EGTS_PC_OK"
    "list_all (\<lambda>s. case s of None \<Rightarrow> False | Some s \<Rightarrow> list_all typed_record (RecordsData s)) ss"
    by (rule decoded_data [OF assms(1,2)])
  obtain res k1 where i: "identify ss (Packet0, k) = Some (res, k1)" "identity_result (holds_identity ss) Packet0 res"
    using identify_typed [OF ss(4)] by blast
  obtain resp k' r q cs where r: "numbered_response p k1 = Some (resp, k')" "Packet_Encode (Some resp) = Inr r"
    "ReadPacket r = (q, None)" "PacketType q = EGTS_PT_RESPONSE" "PacketID q = fst (getNextPid k1)"
    "PacketServicesFrameData q = Some (FD_Response (Some (confirms_all (PacketID p) cs)))"
    "mset (concat (map confirmed cs)) = mset (map RecordNumber (data_records ss))"
    by (rule numbered_response_read [OF assms(2) ss(3,1,2) small_packetD [OF assms(3) ss(1)], of k1])
  have c: "confirmed_packet p ss r" using r(3,4,6,7) unfolding confirmed_packet_def by blast
  show ?thesis
  proof (cases "holds_identity ss")
    case True
    with i(2) obtain rn pid where res: "res = PrepareSRResultCode EGTS_PC_OK rn pid" by (auto simp: identity_result_def)
    obtain cb q where "Packet_Encode (Some res) = Inr cb" "ReadPacket cb = (q, None)" "PacketType q = EGTS_PT_APPDATA"
      "PacketServicesFrameData q = Some (FD_SFRD (Some [Some (result_service EGTS_PC_OK rn)]))"
      unfolding res by (rule result_code_read)
    moreover from this have "result_packet cb" unfolding result_packet_def by blast
    ultimately show ?thesis
      using True c ss(1) i(1) r(1,2) assms
      by (auto simp: serve_packet_def respond_def send_def served_def res PrepareSRResultCode_eq)
  next
    case False
    with i(2) have "res = Packet0" by (simp add: identity_result_def)
    with False c ss(1) i(1) r(1,2) assms show ?thesis
      by (auto simp: serve_packet_def respond_def send_def served_def Packet0_def)
  qed
qed

lemma error_read:
  assumes "PacketType p = EGTS_PT_APPDATA" "ErrorCode p \<noteq> EGTS_PC_OK"
  obtains b where "Packet_Encode (Some (PrepareAnswer (Some p) n pid)) = Inr b" "error_packet p b"
proof -
  have "answer_response p n = \<lparr>ResponsePacketID = PacketID p, ProcessingResult = ErrorCode p, SDR = None\<rparr>"
    using assms(2) by (simp add: answer_response_def answer_data_def)
  moreover obtain b q where "Packet_Encode (Some (PrepareAnswer (Some p) n pid)) = Inr b" "ReadPacket b = (q, None)"
    "PacketType q = EGTS_PT_RESPONSE" "PacketServicesFrameData q = Some (FD_Response (Some (answer_response p n)))"
    by (rule answer_read [OF assms(1), of n pid]) (use assms(2) in auto)
  ultimately show thesis using that by (auto simp: error_packet_def)
qed

lemma packet_served:
  assumes "small_packet (fst (ReadPacket b))" "\<And>n b. wr n b = None"
  shows "\<exists>out k'. serve_packet wr n b k = Some (Goes_on, out, k') \<and> served b out"
proof (cases "ReadPacket b")
  case (Pair p err)
  show ?thesis
  proof (cases "err = None \<and> PacketType p = EGTS_PT_APPDATA")
    case True
    with Pair assms(1) have "ReadPacket b = (p, None)" "PacketType p = EGTS_PT_APPDATA" "small_packet p" by simp_all
    then show ?thesis by (rule respond_ok) (rule assms(2))
  next
    case False
    obtain pid k1 where k: "getNextPid k = (pid, k1)" by (cases "getNextPid k")
    show ?thesis
    proof (cases "err \<noteq> None \<and> PacketType p = EGTS_PT_APPDATA \<and>
        (ErrorCode p = EGTS_PC_DATACRC_ERROR \<or> ErrorCode p = EGTS_PC_INC_DATAFORM)")
      case True
      then obtain r where "Packet_Encode (Some (PrepareAnswer (Some p) 0 pid)) = Inr r" "error_packet p r"
        by (rule_tac error_read [of p 0 pid]) (auto simp: codes)
      with True Pair k assms(2) show ?thesis
        by (auto simp: serve_packet_def respond_error_def send_def served_def)
    qed (use False Pair in \<open>auto simp: serve_packet_def respond_error_def served_def split: option.splits\<close>)
  qed
qed

text \<open>
  C37. The reference receiver cuts the same frames off a stream as \<open>ReadFrame\<close>, except that it
  also lets pass a frame whose header checksum is wrong, which is left to \<open>ReadPacket\<close>.
\<close>

theorem receive_agrees:
  "ReadFrame c = Inr (b, d) \<longleftrightarrow> receive c = Inr (b, d) \<and> header_sum_ok b"
  by (auto simp: ReadFrame_Inr receive_Inr transport_frame_shape)

section \<open>The connection\<close>

lemma frames_served:
  assumes "list_all (\<lambda>b. frame_shape b \<and> small_packet (fst (ReadPacket b))) frames" "\<And>n b. wr n b = None"
    and "receive (rest, e) = Inl err"
  shows "\<exists>outs k'. serve_packets wr n (concat frames @ rest, e) k = Some (err, concat outs, k') \<and>
    list_all2 served frames outs"
  using assms(1)
proof (induction frames arbitrary: n k)
  case Nil
  with assms(3) show ?case by (simp add: serve_packets.simps)
next
  case (Cons b frames)
  obtain out k1 where 1: "serve_packet wr n b k = Some (Goes_on, out, k1)" "served b out"
    using packet_served [of b wr n k] Cons.prems assms(2) by auto
  obtain outs k2 where "serve_packets wr (n + length out) (concat frames @ rest, e) k1 = Some (err, concat outs, k2)"
    "list_all2 served frames outs"
    using Cons by fastforce
  with 1 Cons.prems show ?case
    by (subst serve_packets.simps) (intro exI [of _ "out # outs"] exI [of _ k2], simp add: received.front)
qed



text \<open>
  The receiver returns for every stream and every outcome of its writes: it does not panic.
\<close>

lemma numbered_response_total: "PacketType p = EGTS_PT_APPDATA \<Longrightarrow> numbered_response p k \<noteq> None"
proof -
  assume t: "PacketType p = EGTS_PT_APPDATA"
  obtain pid k1 where k: "getNextPid k = (pid, k1)" by (cases "getNextPid k")
  obtain rs k2 where "number_records k1 (map Some (snd (answer_data p 0))) = Some (map Some rs, k2)"
    using number_records_total by blast
  then show ?thesis by (simp add: numbered_response_def k PrepareAnswer_eq [OF t] response_packet_def answer_response_def)
qed

lemma serve_packet_total: "serve_packet wr n b k \<noteq> None"
proof (cases "ReadPacket b")
  case (Pair p err)
  show ?thesis
  proof (cases "err = None \<and> PacketType p = EGTS_PT_APPDATA")
    case True
    with Pair have r: "ReadPacket b = (p, None)" "PacketType p = EGTS_PT_APPDATA" by simp_all
    then obtain ss where ss: "PacketServicesFrameData p = Some (FD_SFRD (Some ss))"
      "list_all (\<lambda>s. case s of None \<Rightarrow> False | Some s \<Rightarrow> list_all typed_record (RecordsData s)) ss"
      by (rule decoded_data)
    obtain res k1 where i: "identify ss (Packet0, k) = Some (res, k1)" using identify_typed [OF ss(2)] by blast
    obtain resp k2 where "numbered_response p k1 = Some (resp, k2)"
      using numbered_response_total [OF r(2), of k1] by auto
    with i ss(1) r show ?thesis
      by (auto simp: serve_packet_def respond_def split: prod.splits option.splits)
  qed (use Pair in \<open>cases "respond_error wr n p k", auto simp: serve_packet_def split: option.splits\<close>)
qed

lemma receiver_total: "Server_handleConnection keepAlive wr c k \<noteq> None"
proof -
  have "serve_packets wr n c k \<noteq> None" for n
  proof (induction wr n c k rule: serve_packets.induct)
    case (1 wr n c k)
    show ?case
    proof (cases "receive c")
      case (Inr rc)
      obtain b s e where rc: "rc = (b, s, e)" by (cases rc)
      obtain v out k' where sp: "serve_packet wr n b k = Some (v, out, k')"
        using serve_packet_total [of wr n b k] by auto
      have "serve_packets wr (n + length out) (s, e) k' \<noteq> None" if "v = Goes_on"
        using "1.IH" [OF Inr] rc sp that by blast
      with Inr rc sp show ?thesis
        by (subst serve_packets.simps) (auto split: verdict.split)
    qed (simp add: serve_packets.simps)
  qed
  then show ?thesis by (simp add: Server_handleConnection_def split: option.split)
qed

end
