(* ===== verification/File_Config.thy ===== *)
theory File_Config
  imports Env_Config Rotation
begin

text \<open>
  The configuration from a TOML file and the choice of the source, \<open>PrepareFileConfiguration\<close> and
  \<open>PrepareConfiguration\<close> of \<open>gateway/configuration/configuration.go\<close>. The TOML decoder is
  third-party code and a parameter. A run-time panic, an index beyond the end of a list, is the outer
  \<open>None\<close>.
\<close>

section \<open>The decoder\<close>

text \<open>
  \<open>toml.Decode\<close> sets the keys of the text in the value it is given and tells which keys it could not
  place; \<open>PrimitiveDecode\<close> does so for a part of the text that was left undecoded. The map of the
  destinations is a function, which gives a key that is not there the zero primitive.
\<close>

datatype toml_error = TomlParseError nat | TomlError

record 'p toml =
  tomlDecode :: "bytes \<Rightarrow> Configuration \<Rightarrow> toml_error + (Configuration \<times> string list)"
  tomlDestinations :: "bytes \<Rightarrow> (string \<Rightarrow> 'p) result"
  tomlEntries :: "'p \<Rightarrow> 'p list result"
  tomlEGTS :: "'p \<Rightarrow> EGTSDestinationConf \<Rightarrow> EGTSDestinationConf result"
  tomlRabbitMQ :: "'p \<Rightarrow> RabbitMQDestinationConf \<Rightarrow> RabbitMQDestinationConf result"
  tomlValkey :: "'p \<Rightarrow> ValkeyDestinationConf \<Rightarrow> ValkeyDestinationConf result"

section \<open>Destinations\<close>

text \<open>
  The loop over the entries of one kind: each is decoded once more, over the defaults of its kind,
  and replaces the destination at its place.
\<close>

fun decode_entries :: "string \<Rightarrow> ('p \<Rightarrow> 'a \<Rightarrow> 'a result) \<Rightarrow> 'a \<Rightarrow> nat \<Rightarrow> 'p list \<Rightarrow> 'a list \<Rightarrow> 'a list result option" where
  "decode_entries msg prim dflt i [] ds = Some (Inr ds)"
| "decode_entries msg prim dflt i (e # es) ds =
     (case prim e dflt of
        Inl _ \<Rightarrow> Some (Inl (Errorf msg))
      | Inr d \<Rightarrow> if i < length ds then decode_entries msg prim dflt (i + 1) es (ds[i := d]) else None)"

definition decode_kind :: "string \<Rightarrow> string \<Rightarrow> ('p \<Rightarrow> 'p list result) \<Rightarrow> ('p \<Rightarrow> 'a \<Rightarrow> 'a result) \<Rightarrow> 'a \<Rightarrow> 'p \<Rightarrow> 'a list \<Rightarrow>
    'a list result option" where
  "decode_kind list_msg msg parts prim dflt raw ds =
     (if ds = [] then Some (Inr ds)
      else
        (case parts raw of
           Inl _ \<Rightarrow> Some (Inl (Errorf list_msg))
         | Inr es \<Rightarrow> decode_entries msg prim dflt 0 es ds))"

definition decode_destinations :: "'p toml \<Rightarrow> (string \<Rightarrow> 'p) \<Rightarrow> DestinationsConf \<Rightarrow> DestinationsConf result option" where
  "decode_destinations t raw d =
     (case decode_kind ''Can't decode EGTS destination list'' ''Can't decode EGTS destination %d''
         (tomlEntries t) (tomlEGTS t) DefaultEGTSDestination (raw ''egts'') (DestEGTS d) of
        None \<Rightarrow> None | Some (Inl e) \<Rightarrow> Some (Inl e)
      | Some (Inr relays) \<Rightarrow>
     (case decode_kind ''Can't decode RabbitMQ destination list'' ''Can't decode RabbitMQ destination %d''
         (tomlEntries t) (tomlRabbitMQ t) DefaultRabbitMQDestination (raw ''rabbitmq'') (DestRabbitMQ d) of
        None \<Rightarrow> None | Some (Inl e) \<Rightarrow> Some (Inl e)
      | Some (Inr rabbits) \<Rightarrow>
     (case decode_kind ''Can't decode Valkey destination list'' ''Can't decode Valkey destination %d''
         (tomlEntries t) (tomlValkey t) DefaultValkeyDestination (raw ''valkey'') (DestValkey d) of
        None \<Rightarrow> None | Some (Inl e) \<Rightarrow> Some (Inl e)
      | Some (Inr valkeys) \<Rightarrow> Some (Inr (d\<lparr>DestEGTS := relays, DestRabbitMQ := rabbits, DestValkey := valkeys\<rparr>)))))"

definition decode_file_destinations :: "'p toml \<Rightarrow> bytes \<Rightarrow> Configuration \<Rightarrow> Configuration result option" where
  "decode_file_destinations t data conf =
     (let d = DestinationsCfg conf in
      if DestEGTS d = [] \<and> DestRabbitMQ d = [] \<and> DestValkey d = [] then Some (Inr conf)
      else
        (case tomlDestinations t data of
           Inl _ \<Rightarrow> Some (Inl (Errorf ''Can't decode destinations''))
         | Inr raw \<Rightarrow>
             (case decode_destinations t raw d of
                None \<Rightarrow> None
              | Some (Inl e) \<Rightarrow> Some (Inl e)
              | Some (Inr d) \<Rightarrow> Some (Inr (conf\<lparr>DestinationsCfg := d\<rparr>)))))"

section \<open>The file\<close>

definition toml_message :: "toml_error \<Rightarrow> goerr" where
  "toml_message e =
     (case e of
        TomlParseError line \<Rightarrow> Errorf ''Can't decode TOML configuration at line %d''
      | TomlError \<Rightarrow> Errorf ''Can't decode TOML configuration'')"

definition PrepareFileConfiguration :: "(Configuration \<Rightarrow> goerr option) \<Rightarrow> 'p toml \<Rightarrow> bytes result \<Rightarrow>
    Configuration result option" where
  "PrepareFileConfiguration validate_outputs t contents =
     (case contents of
        Inl e \<Rightarrow> Some (Inl (Wrapf ''Can't read configuration'' e))
      | Inr data \<Rightarrow>
          (case tomlDecode t data DefaultConfiguration of
             Inl e \<Rightarrow> Some (Inl (toml_message e))
           | Inr (conf, unknown) \<Rightarrow>
               if unknown \<noteq> [] then Some (Inl (Errorf ''Unknown configuration key: %s''))
               else
                 (case decode_file_destinations t data conf of
                    None \<Rightarrow> None
                  | Some (Inl e) \<Rightarrow> Some (Inl e)
                  | Some (Inr conf) \<Rightarrow>
                      (case Validate validate_outputs conf of
                         Some e \<Rightarrow> Some (Inl e)
                       | None \<Rightarrow> Some (Inr conf)))))"

section \<open>The choice of the source\<close>

text \<open>
  The command line, what \<open>os.Stat\<close> of \<open>.env\<close> returns, and the environment behind
  \<open>godotenv.Overload\<close>, or before it when there is no such file.
\<close>

record start_up =
  flagConf :: string
  flagArgs :: nat
  contentsOf :: "string \<Rightarrow> bytes result"
  statDotEnv :: "goerr option"
  overload :: "env result"
  environment :: env

definition PrepareConfiguration :: "(Configuration \<Rightarrow> goerr option) \<Rightarrow> 'p toml \<Rightarrow> start_up \<Rightarrow> Configuration result option" where
  "PrepareConfiguration validate_outputs t u =
     (if flagArgs u \<noteq> 0 then Some (Inl (Errorf ''Unexpected positional arguments; use -conf for a TOML file''))
      else if flagConf u \<noteq> [] then PrepareFileConfiguration validate_outputs t (contentsOf u (flagConf u))
      else
        (case statDotEnv u of
           Some e \<Rightarrow>
             if errors_Is e ErrNotExist then Some (PrepareEnvConfiguration validate_outputs (environment u))
             else Some (Inl (Wrapf ''Can't access .env'' e))
         | None \<Rightarrow>
             (case overload u of
                Inl _ \<Rightarrow> Some (Inl (Errorf ''Can't load .env''))
              | Inr env \<Rightarrow> Some (PrepareEnvConfiguration validate_outputs env))))"

end
