(* ===== verification/Startup.thy ===== *)
theory Startup
  imports Lifecycle File_Config
begin

text \<open>
  The gateway from its start to its exit code: \<open>PrepareLogger\<close> of \<open>gateway/configuration/logger.go\<close>,
  \<open>Run\<close> of \<open>gateway/server/server.go\<close> around the transition system of \<open>Lifecycle\<close>, and \<open>main\<close> of
  \<open>cmd/egts_gateway/main.go\<close>. What the application log holds does not flow back into the gateway; it
  is left out, and with it how the log is told of its own errors.
\<close>

section \<open>The application log\<close>

definition LOG_FILENAME :: string where "LOG_FILENAME = ''application.log''"

text \<open>The writer of the log. \<open>disk\<close> is the directory of the log.\<close>

datatype log_writer = Log_stdout | Log_stderr | Log_file RotatingFile

definition PrepareLogger :: "(Configuration \<Rightarrow> goerr option) \<Rightarrow> Configuration \<Rightarrow> RotatingFile \<Rightarrow> log_writer result" where
  "PrepareLogger validate_outputs conf disk =
     (case validate_outputs conf of
        Some e \<Rightarrow> Inl e
      | None \<Rightarrow>
          if LogsOutput (LogsCfg conf) = ''stdout'' then Inr Log_stdout
          else if LogsOutput (LogsCfg conf) = ''stderr'' then Inr Log_stderr
          else if LogsOutput (LogsCfg conf) = ''file'' then
            (case prepareRotatingFile (LogsDirectory (LogsCfg conf)) LOG_FILENAME (LogsRotation (LogsCfg conf)) disk of
               (Inl e, _) \<Rightarrow> Inl (Wrapf ''Can't prepare application log'' e)
             | (Inr _, logFile) \<Rightarrow> Inr (Log_file logFile))
          else Inl (Errorf ''logs_cfg.output must be stdout, stderr or file''))"

section \<open>Run\<close>

text \<open>The outcomes of \<open>net.Listen\<close>, of the calls in \<open>newServer\<close>, and of closing the listener behind it.\<close>

record run_calls =
  runOutputs :: "Configuration \<Rightarrow> goerr option"
  runListen :: "goerr option"
  runStart :: start_calls
  runListenerClose :: "goerr option"

text \<open>Before \<open>serve\<close>: the error with which \<open>Run\<close> returns, or the server.\<close>

definition Run_start :: "run_calls \<Rightarrow> Configuration \<Rightarrow> dumpFile option \<Rightarrow> RotatingFile \<Rightarrow> process result option" where
  "Run_start k conf dump disk =
     (case Validate (runOutputs k) conf of
        Some e \<Rightarrow> Some (Inl e)
      | None \<Rightarrow>
          (case runListen k of
             Some e \<Rightarrow> Some (Inl (Wrapf ''Can't listen for EGTS'' e))
           | None \<Rightarrow>
               (case newServer (runStart k) conf dump disk of
                  None \<Rightarrow> None
                | Some (Inl e) \<Rightarrow>
                    Some (Inl (if runListenerClose k = None then e else Wrapf ''%w; Can't close listener: %v'' e))
                | Some (Inr s) \<Rightarrow> Some (Inr s))))"

text \<open>
  \<open>Run k conf dump disk ls dump' err\<close>: it can return \<open>err\<close>, with the deliveries and acceptances \<open>ls\<close>
  in between, and leave the dump file \<open>dump'\<close>.
\<close>

inductive Run :: "run_calls \<Rightarrow> Configuration \<Rightarrow> dumpFile option \<Rightarrow> RotatingFile \<Rightarrow> label list \<Rightarrow> dumpFile option \<Rightarrow>
    goerr option \<Rightarrow> bool" for k conf dump disk where
  run_failed: "Run_start k conf dump disk = Some (Inl e) \<Longrightarrow> Run k conf dump disk [] dump (Some e)"
| run_served: "Run_start k conf dump disk = Some (Inr p) \<Longrightarrow> lrun (serving (prServer p) dump) ls l \<Longrightarrow>
     lfPhase l = P_returned \<Longrightarrow> Run k conf dump disk ls (lfDump l) (lfResult l)"

section \<open>main\<close>

text \<open>The exit code behind \<open>Run\<close>: its error, or that of closing the log file, if there is one.\<close>

definition exit_code :: "goerr option \<Rightarrow> log_writer \<Rightarrow> goerr option \<Rightarrow> nat" where
  "exit_code err w closeErr =
     (let exitCode = (if err \<noteq> None then 1 else 0) in
      case w of
        Log_file _ \<Rightarrow> if closeErr \<noteq> None then 1 else exitCode
      | _ \<Rightarrow> exitCode)"

text \<open>
  One process: the outputs as \<open>PrepareConfiguration\<close> and \<open>PrepareLogger\<close> find them, the decoder, the
  start-up, the directories of the log and of the packets, the dump file, and the outcome of closing
  the log file.
\<close>

record 'p machine =
  mOutputs :: "Configuration \<Rightarrow> goerr option"
  mLogOutputs :: "Configuration \<Rightarrow> goerr option"
  mToml :: "'p toml"
  mStart :: start_up
  mLogDisk :: RotatingFile
  mRun :: run_calls
  mDump :: "dumpFile option"
  mDisk :: RotatingFile
  mLogClose :: "goerr option"

inductive gateway_exits :: "'p machine \<Rightarrow> label list \<Rightarrow> dumpFile option \<Rightarrow> nat \<Rightarrow> bool" for m where
  m_configuration: "PrepareConfiguration (mOutputs m) (mToml m) (mStart m) = Some (Inl e) \<Longrightarrow> gateway_exits m [] (mDump m) 1"
| m_logger: "PrepareConfiguration (mOutputs m) (mToml m) (mStart m) = Some (Inr conf) \<Longrightarrow>
     PrepareLogger (mLogOutputs m) conf (mLogDisk m) = Inl e \<Longrightarrow> gateway_exits m [] (mDump m) 1"
| m_run: "PrepareConfiguration (mOutputs m) (mToml m) (mStart m) = Some (Inr conf) \<Longrightarrow>
     PrepareLogger (mLogOutputs m) conf (mLogDisk m) = Inr w \<Longrightarrow> Run (mRun m) conf (mDump m) (mDisk m) ls dump' err \<Longrightarrow>
     gateway_exits m ls dump' (exit_code err w (mLogClose m))"

inductive_cases gateway_exits_cases: "gateway_exits m ls dump' n"

end
