(* ===== verification/Config_Properties.thy ===== *)
theory Config_Properties
  imports File_Config Env_Properties
begin

text \<open>
  The properties of the configuration from a file, and of the configuration a gateway starts with,
  whichever its source is.
\<close>

section \<open>The entries\<close>

text \<open>
  With an entry for each destination or fewer, the first destinations become their entries over the
  defaults and the others stay what they are; with more entries the index is out of range.
\<close>

definition placed_over :: "('p \<Rightarrow> 'p list result) \<Rightarrow> ('p \<Rightarrow> 'a \<Rightarrow> 'a result) \<Rightarrow> 'a \<Rightarrow> 'p \<Rightarrow> 'a list \<Rightarrow> 'a list \<Rightarrow> bool" where
  "placed_over parts prim dflt raw ds ds' \<longleftrightarrow>
     (if ds = [] then ds' = []
      else \<exists>es new. parts raw = Inr es \<and> list_all2 (\<lambda>e d. prim e dflt = Inr d) es new \<and>
        length new \<le> length ds \<and> ds' = new @ drop (length new) ds)"

definition spare_entries :: "('p \<Rightarrow> 'p list result) \<Rightarrow> 'p \<Rightarrow> 'a list \<Rightarrow> bool" where
  "spare_entries parts raw ds \<longleftrightarrow> ds \<noteq> [] \<and> (\<exists>es. parts raw = Inr es \<and> length ds < length es)"

lemma decode_entries_cases:
  assumes "i \<le> length ds"
  shows "case decode_entries msg prim dflt i es ds of
      None \<Rightarrow> length ds < i + length es
    | Some (Inl e) \<Rightarrow> True
    | Some (Inr ds') \<Rightarrow> \<exists>new. list_all2 (\<lambda>e d. prim e dflt = Inr d) es new \<and> i + length new \<le> length ds \<and>
        ds' = take i ds @ new @ drop (i + length new) ds"
  using assms
proof (induction es arbitrary: i ds)
  case (Cons e es)
  show ?case
  proof (cases "prim e dflt")
    case (Inr d)
    show ?thesis
    proof (cases "i < length ds")
      case True
      have "take (i + 1) (ds[i := d]) = take i ds @ [d]" "drop (i + 1 + n) (ds[i := d]) = drop (i + 1 + n) ds" for n
        using True by (simp_all add: take_Suc_conv_app_nth)
      with Cons.IH [of "i + 1" "ds[i := d]"] Inr True show ?thesis
        by (auto simp: list_all2_Cons1 split: option.splits sum.splits)
    qed (use Inr Cons.prems in simp)
  qed simp
qed (simp split: option.split)

lemma decode_kind_cases:
  "case decode_kind list_msg msg parts prim dflt raw ds of
      None \<Rightarrow> spare_entries parts raw ds
    | Some (Inl e) \<Rightarrow> True
    | Some (Inr ds') \<Rightarrow> placed_over parts prim dflt raw ds ds'"
proof (cases "ds = []")
  case False
  show ?thesis
  proof (cases "parts raw")
    case (Inr es)
    have "decode_kind list_msg msg parts prim dflt raw ds = decode_entries msg prim dflt 0 es ds"
      using False Inr by (simp add: decode_kind_def)
    then show ?thesis
      using decode_entries_cases [where i = 0 and ds = ds and msg = msg and prim = prim and dflt = dflt and es = es] False Inr
      by (auto simp: placed_over_def spare_entries_def split: option.splits sum.splits)
  qed (use False in \<open>simp add: decode_kind_def\<close>)
qed (simp add: decode_kind_def placed_over_def)

section \<open>The file\<close>

abbreviation no_destinations :: "DestinationsConf \<Rightarrow> bool" where
  "no_destinations d \<equiv> DestEGTS d = [] \<and> DestRabbitMQ d = [] \<and> DestValkey d = []"

text \<open>A configuration whose destinations are the entries that this text has for them, over their defaults.\<close>

definition destinations_over :: "'p toml \<Rightarrow> bytes \<Rightarrow> Configuration \<Rightarrow> Configuration \<Rightarrow> bool" where
  "destinations_over t data conf0 conf \<longleftrightarrow>
     (if no_destinations (DestinationsCfg conf0) then conf = conf0
      else \<exists>raw relays rabbits valkeys. tomlDestinations t data = Inr raw \<and>
        conf = conf0\<lparr>DestinationsCfg := (DestinationsCfg conf0)\<lparr>DestEGTS := relays, DestRabbitMQ := rabbits, DestValkey := valkeys\<rparr>\<rparr> \<and>
        placed_over (tomlEntries t) (tomlEGTS t) DefaultEGTSDestination (raw ''egts'') (DestEGTS (DestinationsCfg conf0)) relays \<and>
        placed_over (tomlEntries t) (tomlRabbitMQ t) DefaultRabbitMQDestination (raw ''rabbitmq'') (DestRabbitMQ (DestinationsCfg conf0)) rabbits \<and>
        placed_over (tomlEntries t) (tomlValkey t) DefaultValkeyDestination (raw ''valkey'') (DestValkey (DestinationsCfg conf0)) valkeys)"

definition too_many_entries :: "'p toml \<Rightarrow> bytes \<Rightarrow> Configuration \<Rightarrow> bool" where
  "too_many_entries t data conf0 \<longleftrightarrow> (\<exists>raw. tomlDestinations t data = Inr raw \<and>
     (spare_entries (tomlEntries t) (raw ''egts'') (DestEGTS (DestinationsCfg conf0)) \<or>
      spare_entries (tomlEntries t) (raw ''rabbitmq'') (DestRabbitMQ (DestinationsCfg conf0)) \<or>
      spare_entries (tomlEntries t) (raw ''valkey'') (DestValkey (DestinationsCfg conf0))))"

lemma decode_file_destinations_cases:
  "case decode_file_destinations t data conf0 of
      None \<Rightarrow> too_many_entries t data conf0
    | Some (Inl e) \<Rightarrow> True
    | Some (Inr conf) \<Rightarrow> destinations_over t data conf0 conf"
proof (cases "no_destinations (DestinationsCfg conf0)")
  case True
  then show ?thesis by (simp add: decode_file_destinations_def Let_def destinations_over_def)
next
  case False
  show ?thesis
  proof (cases "tomlDestinations t data")
    case (Inr raw)
    let ?d = "DestinationsCfg conf0"
    note k = decode_kind_cases [where list_msg = "''Can't decode EGTS destination list''" and msg = "''Can't decode EGTS destination %d''"
        and parts = "tomlEntries t" and prim = "tomlEGTS t" and dflt = DefaultEGTSDestination and raw = "raw ''egts''" and ds = "DestEGTS ?d"]
      decode_kind_cases [where list_msg = "''Can't decode RabbitMQ destination list''" and msg = "''Can't decode RabbitMQ destination %d''"
        and parts = "tomlEntries t" and prim = "tomlRabbitMQ t" and dflt = DefaultRabbitMQDestination and raw = "raw ''rabbitmq''" and ds = "DestRabbitMQ ?d"]
      decode_kind_cases [where list_msg = "''Can't decode Valkey destination list''" and msg = "''Can't decode Valkey destination %d''"
        and parts = "tomlEntries t" and prim = "tomlValkey t" and dflt = DefaultValkeyDestination and raw = "raw ''valkey''" and ds = "DestValkey ?d"]
    have "case decode_destinations t raw ?d of
        None \<Rightarrow> too_many_entries t data conf0
      | Some (Inl e) \<Rightarrow> True
      | Some (Inr d) \<Rightarrow> destinations_over t data conf0 (conf0\<lparr>DestinationsCfg := d\<rparr>)"
      using k Inr False unfolding decode_destinations_def destinations_over_def too_many_entries_def
      by (auto split: option.splits sum.splits)
    with False Inr show ?thesis
      by (auto simp: decode_file_destinations_def Let_def split: option.splits sum.splits)
  qed (use False in \<open>auto simp: decode_file_destinations_def Let_def\<close>)
qed

text \<open>
  C39. What a configuration file does, whatever the decoder makes of its text. A configuration that is
  accepted is valid and its outputs are separate, the text has no key that the gateway does not
  know, and its settings are over the defaults. Of each kind of destination, the entries under the
  kind's name are decoded once more, over the defaults of the kind, and take the first places in
  their order; destinations behind them stay as they were decoded first. The only panic is an index
  out of range: the second decoding finds more entries of a kind than the first found destinations.
\<close>

theorem file_in_effect:
  "case PrepareFileConfiguration outputs t (Inr data) of
      None \<Rightarrow> \<exists>conf0. tomlDecode t data DefaultConfiguration = Inr (conf0, []) \<and> too_many_entries t data conf0
    | Some (Inl e) \<Rightarrow> True
    | Some (Inr conf) \<Rightarrow> valid_configuration conf \<and> outputs conf = None \<and>
        (\<exists>conf0. tomlDecode t data DefaultConfiguration = Inr (conf0, []) \<and> destinations_over t data conf0 conf)"
proof (cases "tomlDecode t data DefaultConfiguration")
  case (Inr x)
  obtain conf0 unknown where x: "x = (conf0, unknown)" by (cases x)
  show ?thesis
    using decode_file_destinations_cases [of t data conf0] Inr x
    by (auto simp: PrepareFileConfiguration_def Validate_None split: option.splits sum.splits)
qed (simp add: PrepareFileConfiguration_def)

text \<open>
  The names of a struct's fields are matched without their case and the keys of a map are not: a list
  under \<open>EGTS\<close> gives destinations and no entries, and one under either name may be the shorter. Here one
  destination is decoded first and two entries second.
\<close>

lemma spare_entry_panics:
  assumes "tomlDecode t data DefaultConfiguration =
      Inr (DefaultConfiguration\<lparr>DestinationsCfg := (DestinationsCfg DefaultConfiguration)\<lparr>DestEGTS := [d]\<rparr>\<rparr>, [])"
    and "tomlDestinations t data = Inr raw" "tomlEntries t (raw ''egts'') = Inr [e1, e2]"
    and "tomlEGTS t e1 DefaultEGTSDestination = Inr d1" "tomlEGTS t e2 DefaultEGTSDestination = Inr d2"
  shows "PrepareFileConfiguration outputs t (Inr data) = None"
  using assms by (simp add: PrepareFileConfiguration_def decode_file_destinations_def decode_destinations_def decode_kind_def)

definition demo_toml :: "nat toml" where
  "demo_toml = \<lparr>tomlDecode = (\<lambda>data conf. Inr (conf\<lparr>DestinationsCfg := (DestinationsCfg conf)\<lparr>DestEGTS := [DefaultEGTSDestination]\<rparr>\<rparr>, [])),
     tomlDestinations = (\<lambda>data. Inr (\<lambda>k. 0)), tomlEntries = (\<lambda>p. Inr [7]),
     tomlEGTS = (\<lambda>p c. Inr (c\<lparr>EgtsID := ''peer'', EgtsPort := int p\<rparr>)),
     tomlRabbitMQ = (\<lambda>p c. Inr c), tomlValkey = (\<lambda>p c. Inr c)\<rparr>"

theorem file_in_effect_witness:
  "\<exists>conf. PrepareFileConfiguration (\<lambda>c. None) demo_toml (Inr [91]) = Some (Inr conf) \<and> valid_configuration conf \<and>
     map EgtsID (DestEGTS (DestinationsCfg conf)) = [''peer''] \<and>
     map EgtsHost (DestEGTS (DestinationsCfg conf)) = [''127.0.0.1'']"
proof -
  let ?c = "DefaultConfiguration\<lparr>DestinationsCfg := (DestinationsCfg DefaultConfiguration)
    \<lparr>DestEGTS := [DefaultEGTSDestination\<lparr>EgtsID := ''peer'', EgtsPort := 7\<rparr>]\<rparr>\<rparr>"
  have "valid_egts (DefaultEGTSDestination\<lparr>EgtsID := ''peer'', EgtsPort := 7\<rparr>)"
    by (simp add: DefaultEGTSDestination_def valid_egts_def valid_id_def id_char_def)
  then have "Validate (\<lambda>c. None) ?c = None"
    using default_valid by (simp add: Validate_None valid_configuration_def valid_destinations_def)
      (simp add: DefaultConfiguration_def)
  then have c: "PrepareFileConfiguration (\<lambda>c. None) demo_toml (Inr [91]) = Some (Inr ?c)"
    by (simp add: PrepareFileConfiguration_def demo_toml_def decode_file_destinations_def decode_destinations_def
        decode_kind_def DefaultConfiguration_def)
  from file_in_effect [where outputs = "\<lambda>c. None" and t = demo_toml and data = "[91]"] c have "valid_configuration ?c" by simp
  with c show ?thesis by (intro exI [of _ ?c]) (simp add: DefaultConfiguration_def DefaultEGTSDestination_def)
qed

section \<open>Whatever the source\<close>

text \<open>A configuration that was prepared is valid.\<close>

lemma PrepareFileConfiguration_valid:
  "PrepareFileConfiguration outputs t contents = Some (Inr conf) \<Longrightarrow> valid_configuration conf \<and> outputs conf = None"
  by (auto simp: PrepareFileConfiguration_def Validate_None split: sum.splits prod.splits if_splits option.splits)

lemma PrepareEnvConfiguration_valid:
  "PrepareEnvConfiguration outputs env = Inr conf \<Longrightarrow> valid_configuration conf \<and> outputs conf = None"
  by (auto simp: PrepareEnvConfiguration_def Validate_None Let_def split: option.splits)

lemma PrepareConfiguration_valid:
  "PrepareConfiguration outputs t u = Some (Inr conf) \<Longrightarrow> valid_configuration conf \<and> outputs conf = None"
  by (auto simp: PrepareConfiguration_def split: if_splits option.splits sum.splits
      dest: PrepareFileConfiguration_valid PrepareEnvConfiguration_valid)

end
