(* ===== verification/Startup_Properties.thy ===== *)
theory Startup_Properties
  imports Startup Lifecycle_Properties Config_Properties
begin

text \<open>
  What the exit code of a gateway says: the components put together, from the configuration to the
  dump file that is left.
\<close>

section \<open>Run\<close>

lemma Run_start_Inr:
  assumes "Run_start k conf dump disk = Some (Inr p)"
  shows "valid_configuration conf \<and> runListen k = None \<and> newServer (runStart k) conf dump disk = Some (Inr p) \<and>
    restored (prServer p) dump \<and> holds_dump (prServer p) dump \<and> (\<exists>dir. cfg (prServer p) = with_directory dir conf)"
  using assms newServer_result [of "runStart k" conf dump disk]
  by (auto simp: Run_start_def Validate_None split: option.splits sum.splits if_splits)

text \<open>\<open>Run\<close> cannot panic before it serves.\<close>

lemma Run_start_total: "Run_start k conf dump disk \<noteq> None"
proof -
  obtain res where "newServer (runStart k) conf dump disk = Some res" using newServer_result by blast
  then show ?thesis by (simp add: Run_start_def split: option.split sum.split)
qed

text \<open>\<open>Run\<close> without an error is a run of \<open>serve\<close> from the server that \<open>newServer\<close> made to its end.\<close>

lemma Run_returned:
  assumes "Run k conf dump disk ls dump' None"
  obtains p l where "newServer (runStart k) conf dump disk = Some (Inr p)" "valid_configuration conf" "restored (prServer p) dump"
    "holds_dump (prServer p) dump" "\<exists>dir. cfg (prServer p) = with_directory dir conf"
    "lrun (serving (prServer p) dump) ls l" "lfPhase l = P_returned" "lfResult l = None" "lfDump l = dump'"
  using assms
proof cases
  case (run_served p l)
  with Run_start_Inr [OF run_served(3)] show ?thesis by (intro that [of p l]) simp_all
qed

section \<open>The exit code\<close>

lemma exit_code_0: "exit_code err w c = 0 \<longleftrightarrow> err = None \<and> ((\<exists>f. w = Log_file f) \<longrightarrow> c = None)"
  by (auto simp: exit_code_def Let_def split: log_writer.splits)


section \<open>A process\<close>

text \<open>
  A gateway that finds a dump with one packet for its relay, is stopped before it has delivered it, and
  leaves it in the dump.
\<close>

definition demo_start_calls :: start_calls where
  "demo_start_calls = \<lparr>startOutputs = (\<lambda>c. None), startMkdir = None, startEvalSymlinks = None, startAbs = Inr ''/q'',
     startRestore = demo_restore, startStdoutConflict = None, startStdoutOpen = Inl EOF, startStdoutDeadline = None,
     startStdoutClose = None\<rparr>"

definition demo_relay_toml :: "nat toml" where
  "demo_relay_toml = \<lparr>tomlDecode = (\<lambda>data conf. Inr (demo_cfg, [])),
     tomlDestinations = (\<lambda>data. Inr (\<lambda>k. 0)), tomlEntries = (\<lambda>p. Inr [p]),
     tomlEGTS = (\<lambda>p c. Inr (c\<lparr>EgtsID := ''peer'', EgtsEnabled := True\<rparr>)),
     tomlRabbitMQ = (\<lambda>p c. Inr c), tomlValkey = (\<lambda>p c. Inr c)\<rparr>"

definition demo_run_calls :: run_calls where
  "demo_run_calls = \<lparr>runOutputs = (\<lambda>c. None), runListen = None, runStart = demo_start_calls, runListenerClose = None\<rparr>"

definition demo_machine :: "RotatingFile \<Rightarrow> dumpFile \<Rightarrow> nat machine" where
  "demo_machine disk f = \<lparr>mOutputs = (\<lambda>c. None), mLogOutputs = (\<lambda>c. None), mToml = demo_relay_toml,
     mStart = \<lparr>flagConf = ''gateway.toml'', flagArgs = 0, contentsOf = (\<lambda>n. Inr []), statDotEnv = None, overload = Inl EOF, environment = []\<rparr>,
     mLogDisk = disk, mRun = demo_run_calls, mDump = Some f, mDisk = disk, mLogClose = None\<rparr>"

lemma demo_cfg_valid: "Validate (\<lambda>c. None) demo_cfg = None"
proof -
  have "\<not> blank ''/q''" by (rule printable_not_blank) simp_all
  moreover have "valid_configuration DefaultConfiguration" by (rule default_valid)
  ultimately show ?thesis using demo_valid by (simp add: Validate_None valid_configuration_def) (simp add: demo_cfg_def)
qed

lemma demo_destinations: "DestRabbitMQ (DestinationsCfg demo_cfg) = []" "DestValkey (DestinationsCfg demo_cfg) = []"
  by (simp_all add: demo_cfg_def DefaultConfiguration_def)

lemma demo_file_prepared: "PrepareConfiguration (\<lambda>c. None) demo_relay_toml
    \<lparr>flagConf = ''gateway.toml'', flagArgs = 0, contentsOf = (\<lambda>n. Inr []), statDotEnv = x, overload = y, environment = z\<rparr> = Some (Inr demo_cfg)"
proof -
  have same: "demo_cfg\<lparr>DestinationsCfg := (DestinationsCfg demo_cfg)\<lparr>DestEGTS := [DefaultEGTSDestination\<lparr>EgtsID := ''peer'', EgtsEnabled := True\<rparr>],
      DestRabbitMQ := [], DestValkey := []\<rparr>\<rparr> = demo_cfg"
    by (simp add: demo_cfg_def DefaultConfiguration_def)
  show ?thesis
    by (simp add: PrepareConfiguration_def PrepareFileConfiguration_def demo_relay_toml_def decode_file_destinations_def
        decode_destinations_def decode_kind_def demo_dests demo_destinations same demo_cfg_valid)
qed

text \<open>The server it starts with: the one packet is back.\<close>

lemma demo_restart:
  obtains f t where "restoreDump demo_restore (Some f) restarted_server = Some (Inr t)" "demo_server t" "started_server t"
    "length (queue t) = 1" "holds_dump t (Some f)"
proof -
  obtain raw p d where d: "savable (waiting_server raw p) (items (waiting_server raw p) ! 0)"
    "saveDump demo_save (waiting_server raw p) None = Some (None, (waiting_server raw p)\<lparr>hasDump := True\<rparr>, d)"
    by (rule waiting_packet)
  obtain f where f: "d = Some f" using demo_saved [OF waiting_started, of raw p None] d(2) by auto
  from d(1) have "\<forall>a\<in>set (queue (waiting_server raw p)). savable (waiting_server raw p) (items (waiting_server raw p) ! a)"
    by (simp add: waiting_simps)
  from restore_saved [OF waiting_started this d(2) restarted_fresh waiting_simps(3-7)] obtain t where
    t: "restoreDump demo_restore (Some f) restarted_server = Some (Inr t)"
      "map (\<lambda>a. packet_view t (items t ! a)) (queue t) = [packet_view (waiting_server raw p) (items (waiting_server raw p) ! 0)]"
    by (auto simp: f waiting_simps finished_item_def)
  have st: "starts_from restarted_server t" using restoreDump_starts [OF restarted_fresh, of demo_restore "Some f"] t(1) by simp
  then have "cfg t = demo_cfg" "started_server t"
    by (simp_all add: starts_from_def started_gateway_def restarted_server_def)
  moreover have "pEGTS (items t ! a) = {''peer''}" if "a \<in> set (queue t)" for a
  proof -
    from t(2) that have "packet_view t (items t ! a) = packet_view (waiting_server raw p) (items (waiting_server raw p) ! 0)" by auto
    then show ?thesis unfolding packet_view_def by (simp add: waiting_simps)
  qed
  then have "list_all (\<lambda>a. \<not> finished_item (items t ! a)) (queue t)"
    by (simp add: list_all_iff finished_item_def)
  moreover have "length (queue t) = 1" using t(2) map_eq_imp_length_eq [of _ "queue t" _ "[0]"] by (auto dest: arg_cong [where f = length])
  ultimately show thesis using restoreDump_holds [OF t(1) restarted_fresh] t(1) by (intro that [of f t]) (simp_all add: demo_server_def)
qed

lemma demo_exits:
  obtains f d where "gateway_exits (demo_machine disk f) [Internal, Internal, Finished [], Internal, Internal] d 0" "length (dumpLines f) = 1"
proof -
  obtain f t where t: "restoreDump demo_restore (Some f) restarted_server = Some (Inr t)" "demo_server t" "started_server t"
    "length (queue t) = 1" "holds_dump t (Some f)" by (rule demo_restart)
  have lines: "length (dumpLines f) = 1" using t(4,5) by (auto simp: holds_dump_def dest: list_all2_lengthD)
  have "queue t \<noteq> []" using t(4) by auto
  then obtain l d where l: "lrun (serving t (Some f)) [Internal, Internal, Finished [], Internal, Internal] l"
    "lfPhase l = P_returned" "lfResult l = None" "lfDump l = Some d"
    by (rule demo_run_saved [OF t(2,3) _ refl])
  let ?p = "\<lparr>prServer = t, prRabbits = Map.empty, prValkeys = Map.empty, prFile = None, prStdout = None\<rparr>"
  have same: "initial_server (with_directory ''/q'' demo_cfg) = restarted_server"
    by (simp add: initial_server_def with_directory_def restarted_server_def demo_cfg_def)
  have "Run_start demo_run_calls demo_cfg (Some f) disk = Some (Inr ?p)"
    using t(2) by (simp add: Run_start_def demo_run_calls_def newServer_def demo_start_calls_def demo_cfg_valid same t(1)
        prepare_writers_of_def prepare_file_def prepare_stdout_def demo_server_def demo_dests demo_destinations)
  then have "Run demo_run_calls demo_cfg (Some f) disk [Internal, Internal, Finished [], Internal, Internal] (Some d) None"
    using run_served [of demo_run_calls demo_cfg "Some f" disk ?p "[Internal, Internal, Finished [], Internal, Internal]" l] l by simp
  moreover have "PrepareLogger (\<lambda>c. None) demo_cfg disk = Inr Log_stderr"
    by (simp add: PrepareLogger_def demo_cfg_def DefaultConfiguration_def)
  moreover have "PrepareConfiguration (mOutputs (demo_machine disk f)) (mToml (demo_machine disk f)) (mStart (demo_machine disk f)) = Some (Inr demo_cfg)"
    by (simp add: demo_machine_def demo_file_prepared)
  ultimately have "gateway_exits (demo_machine disk f) [Internal, Internal, Finished [], Internal, Internal] (Some d) 0"
    using m_run [of "demo_machine disk f" demo_cfg Log_stderr "[Internal, Internal, Finished [], Internal, Internal]" "Some d" None]
    by (simp add: exit_code_def demo_machine_def)
  from this lines show thesis by (rule that)
qed


end
