(* ===== verification/Spec2Isabelle.thy ===== *)
theory Spec2Isabelle
  imports Encoding_Properties Packet_Properties Answer_Properties Crc_Catalogue Gateway_Properties Egts_Client_Properties Dump_Properties Env_Properties
    Writer_Properties Broker_Properties Output_Properties Lifecycle_Properties Egts_Server_Properties Startup_Properties
begin

text \<open>
  A verification library for the EGTS packages and the EGTS gateway of this repository.

  EGTS is the binary protocol of vehicle terminals. The packages under \<open>egts\<close> and \<open>crc\<close> encode
  and decode its packets; the gateway under \<open>gateway\<close> accepts terminals on a TCP port, answers
  their packets, keeps the packets in a queue, delivers every packet to each configured destination
  (standard output, rotating files, EGTS platforms, RabbitMQ, Valkey) and saves what is still
  undelivered in a dump when it stops. \<open>cmd/egts_server\<close> is a small receiver on the same packages.

  PARTS AND THEORIES

  The protocol.
  \<^item> \<open>Go_Prelude\<close>, \<open>Go_Float\<close>: what the code uses of Go and its library: results with an
    error chain, byte buffers and their readers, little-endian numbers, formatted flags, strings, the
    conversion of angles between binary64 and \<open>uint32\<close>. Go's widths are kept: \<open>u8\<close>, \<open>u16\<close>, \<open>u32\<close> are
    words, so sums and lengths wrap as they do there.
  \<^item> \<open>Crc\<close>, \<open>Crc_Catalogue\<close>: \<open>crc/crc8\<close>, \<open>crc/crc16\<close>, \<open>crc/crc.go\<close>, \<open>egts/utils\<close>. The table
    driven code, the register-level definition of a cyclic redundancy check, and their equality; that
    a changed byte changes the sum; the check values of the catalogued algorithms.
  \<^item> \<open>Codes\<close>: \<open>egts/packet/codes.go\<close>.
  \<^item> \<open>Bytes_Data\<close>: the interface \<open>BytesData\<close> as the locales \<open>bytes_data\<close>,
    \<open>closed_bytes_data\<close> and \<open>exact_bytes_data\<close>. \<open>Sub_Auth\<close>, \<open>Sub_Sensors\<close>, \<open>Sub_Telemetry\<close> model
    \<open>egts/subrecord\<close>, one record, \<open>Encode\<close>, \<open>Decode\<close> and \<open>Len\<close> per type, and interpret the strongest
    locale each type satisfies.
  \<^item> \<open>Records\<close>, \<open>Services\<close>, \<open>Packets\<close>: \<open>egts/packet/record_data.go\<close>,
    \<open>services_frame_data.go\<close>, \<open>pt_response.go\<close>, \<open>packet.go\<close>. The interface values of Go are the
    datatypes \<open>SubData\<close>, \<open>ResponseData\<close> and \<open>FrameData\<close>, each constructor one dynamic type with
    a pointer that may be nil.
  \<^item> \<open>Frames\<close>: \<open>egts/packet/reader.go\<close>. \<open>transport_frame\<close> specifies a frame on its raw bytes; the
    locale \<open>frame_reader\<close> is what the loops over a stream rely on, interpreted on both readers.
  \<^item> \<open>Answers\<close>: \<open>PrepareAnswer\<close>, \<open>PrepareSRResultCode\<close>; \<open>answer_services\<close> is the
    specification of the grouping loop.

  The gateway.
  \<^item> \<open>Gateway_Config\<close>, \<open>Env_Config\<close>, \<open>File_Config\<close>: \<open>gateway/configuration\<close>, the records with
    their defaults, \<open>Validate\<close>, \<open>PrepareEnvConfiguration\<close>, \<open>PrepareFileConfiguration\<close> and the choice
    between them.
  \<^item> \<open>Gateway_State\<close>: the queue of \<open>gateway/server/queue.go\<close> and the sessions of \<open>relay.go\<close>.
    The server's fields are the record \<open>server\<close>; items and sessions, which the code shares by
    pointer, are lists indexed by address, so aliasing is equality of addresses.
  \<^item> \<open>Connection\<close>: \<open>gateway/server/connection.go\<close>, one turn of \<open>handleConnection\<close> and its loop.
  \<^item> \<open>Delivery\<close>, \<open>Delivery_Steps\<close>: the loop \<open>deliver\<close>. Each passage under the lock is a
    function; \<open>gstep\<close> interleaves loop, workers and connections in any order.
  \<^item> \<open>Relay\<close>: \<open>gateway/server/relay.go\<close>, which packets may be relayed to an EGTS destination.
  \<^item> \<open>Dump\<close>: \<open>gateway/server/dump.go\<close>.
  \<^item> \<open>Lifecycle\<close>: \<open>gateway/server/server.go\<close>. \<open>lstep\<close> is the step relation of \<open>Run\<close>'s
    goroutines: the accept loop, the handlers, the delivery loop, the watcher of the context and
    the shutdown; every failure of a system call is a step of its own.
  \<^item> \<open>Egts_Client\<close>: \<open>gateway/destination/egts.go\<close>. \<open>Brokers\<close>: \<open>rabbitmq.go\<close>, \<open>valkey.go\<close>.
    \<open>Writer\<close>: \<open>writer.go\<close>, \<open>record.go\<close> and the \<open>stdout\<close> files. \<open>Go_Time\<close>, \<open>Rotation\<close>: \<open>rotation.go\<close> and the parts of
    package \<open>time\<close> it uses. \<open>Outputs\<close>: the check that no two outputs share a file.
  \<^item> \<open>Startup\<close>: \<open>PrepareLogger\<close>, \<open>Run\<close> and \<open>main\<close> of \<open>cmd/egts_gateway\<close>, from the command line to the
    exit code, with \<open>lstep\<close> in between.

  The receiver.
  \<^item> \<open>Egts_Server\<close>: \<open>cmd/egts_server/main.go\<close>, its own frame reader, the counters its connections
    share, with other connections advancing them between any two calls, and \<open>handleConnection\<close>.

  GROUPS OF LEMMAS

  Theories with a name in \<open>_Lemmas\<close>, \<open>_Inv\<close>, \<open>_Loop\<close>, \<open>_Steps\<close> (of rotation), \<open>_Wake\<close> or
  \<open>_Contents\<close> hold the library of one component; those in \<open>_Properties\<close> hold its numbered properties.
  \<^item> Encodings: a field-by-field round trip for every type (\<open>Encoding_Properties\<close>), composed
    through the locales up to the whole packet (\<open>Packet_Properties\<close>), which also says exactly which
    byte strings \<open>ReadPacket\<close> accepts and which frames \<open>ReadFrame\<close> cuts from a stream.
  \<^item> Answers: which packet confirms which records, and what the other side reads from it.
  \<^item> The gateway's safety: \<open>queue_inv\<close>, \<open>session_inv\<close>, \<open>flight_inv\<close>, \<open>loop_inv\<close>, together
    \<open>ginv\<close>, and their preservation by every operation and step; from them, order, no loss and
    no second confirmation of a packet per destination for every interleaving, and that a connection's
    report waits for its packets. Deliveries are counted when an attempt ends without an error: an attempt
    that failed after the destination had the packet is repeated, so a destination may receive it twice.
  \<^item> Progress: \<open>wake_inv\<close> and \<open>leak_inv\<close> exclude a loop that sleeps over work and a session that is
    never closed. Termination of the writers and of the delivery passages is a measure.
  \<^item> Life cycle: \<open>linv\<close>, the invariant of \<open>lstep\<close>: the dump is saved when no handler and no
    delivery runs, and a restart restores what was saved; \<open>holds_dump\<close> says what came back from a dump,
    line by line. \<open>Startup_Properties\<close> puts it together for the whole process: what an exit code of 0 says.
  \<^item> Configuration: what validation accepts is well formed; \<open>configuration_of_env\<close> says field by field
    what an environment means, apart from the tables of the model, and the code gives exactly this; a
    file's destinations are its entries over the defaults, whatever the decoder makes of its text.
  \<^item> Outputs: a rotating file receives whole records, in order, within its limits.

  BOUNDS

  No model uses fuel. Recursive functions terminate structurally or by the measure beside them (the
  bytes not yet read, the items not yet delivered, the files not yet removed); the gateway's loops
  that run for ever are step relations. Concurrency is interleaving of the passages between two
  uses of the lock; the race detector's notion of a data race is not modelled. The answers to a
  packet are bounded only by the packet's own size: up to 5039 data records an answer always
  fits, which is a hypothesis of the properties on answers, and from 5041 on it may not.

  CODE OUTSIDE THE REPOSITORY

  The client libraries of RabbitMQ and Valkey, the file system, the network, the clock, JSON and
  TOML texts and the hash of a record are parameters or arguments: what a call returns is universally
  quantified, or a named hypothesis where a property needs documented behaviour of it.

  Archives of a rotating file with the same time stay in the order of their listing, which \<open>sort.Slice\<close> does
  not promise. A dump is written and replaced at once; its file holds the lines that were
  written, and a restart from one is taken to read them all: that a line may be longer than the 131072 bytes
  of the scanner's buffer, which the code does not check when it saves, is outside the model. The names of
  destinations are upper-cased in ASCII, which is all that validation allows in them.

  NOT MODELLED

  \<^item> Log entries and what \<open>zerolog\<close> does with them: they do not flow back into the program.
  \<^item> \<open>encoding/json\<close> and TOML texts: third-party or reflective encoders; a dump line is what
    \<open>Unmarshal\<close> returns for it, a configuration file what the TOML decoder makes of it.
  \<^item> The resolution of symbolic links, which is a function of the file system.
  \<^item> The texts of error messages beyond the sentinel errors that the code tests for.
  \<^item> \<open>cmd/egts_client\<close>, a program that sends one fixed packet and prints the answer, and the names in
    \<open>gateway/logger\<close>: input and output only.
\<close>

end
